(* ===== verification/Prelude.thy ===== *)
theory Prelude
  imports Main "HOL-Library.Word" "HOL-Library.List_Lexorder" "HOL-Library.Product_Lexorder"
    "HOL-Library.AList"
begin

text \<open>
  Shared vocabulary of the development: the Python exceptions the modelled code raises, results
  that are either an exception or a value, the sequencing of such results, and small facts on
  lists that several components use.
\<close>

named_theorems res_simps \<open>rewriting of results of fallible operations\<close>
named_theorems wire_iffs \<open>what a successful read from a wire reader means\<close>
named_theorems len_simps \<open>lengths of encodings and digests\<close>

section \<open>Exceptions and results\<close>

text \<open>
  The exceptions of the modelled code with their messages. \<open>CodecError\<close> is the subclass of
  \<open>ValueError\<close> that \<open>full_braid_protected_anchor.py\<close> declares; \<open>CrashMachineError\<close>
  that of \<open>hybrid_ratchet_v2_state.py\<close>; \<open>TaskStoreCapacityError\<close> is the subclass of
  \<open>RuntimeError\<close> of \<open>task_store.py\<close>, \<open>InvalidParamsError\<close> the error class of the a2a
  package, \<open>StructError\<close> is \<open>struct.error\<close>;
  \<open>OSError\<close> is a system call that fails; \<open>InvalidTag\<close> and
  \<open>InvalidSignature\<close> are those of the \<open>cryptography\<close> package.
\<close>

datatype py_exc =
    ValueError string
  | CodecError string
  | UnicodeError string
  | OverflowError string
  | AssertionError string
  | TypeError string
  | IndexError string
  | KeyError string
  | RuntimeError string
  | CrashMachineError string
  | InvalidParamsError string
  | TaskStoreCapacityError string
  | StructError string
  | OSError string
  | InvalidTag
  | InvalidSignature

type_synonym 'a res = "py_exc + 'a"

text \<open>What an \<open>except ValueError\<close> clause catches: the class and its subclasses.\<close>

fun is_value_error :: "py_exc \<Rightarrow> bool" where
  "is_value_error (ValueError _) = True"
| "is_value_error (CodecError _) = True"
| "is_value_error (UnicodeError _) = True"
| "is_value_error _ = False"

definition bindE :: "'a res \<Rightarrow> ('a \<Rightarrow> 'b res) \<Rightarrow> 'b res" where
  "bindE m f = (case m of Inl e \<Rightarrow> Inl e | Inr x \<Rightarrow> f x)"

lemma bindE_simps [simp, res_simps]:
  "bindE (Inl e) f = Inl e" "bindE (Inr x) f = f x"
  by (simp_all add: bindE_def)

lemma bindE_eq_Inr [res_simps]: "bindE m f = Inr y \<longleftrightarrow> (\<exists>x. m = Inr x \<and> f x = Inr y)"
  by (cases m) simp_all

lemma bindE_eq_Inl: "bindE m f = Inl e \<longleftrightarrow> m = Inl e \<or> (\<exists>x. m = Inr x \<and> f x = Inl e)"
  by (cases m) auto

lemma bindE_assoc: "bindE (bindE m f) g = bindE m (\<lambda>x. bindE (f x) g)"
  by (cases m) simp_all

lemma bindE_cong [fundef_cong]:
  "m = m' \<Longrightarrow> (\<And>x. m' = Inr x \<Longrightarrow> f x = f' x) \<Longrightarrow> bindE m f = bindE m' f'"
  by (cases m') simp_all

lemma if_Inl_eq_Inr [res_simps]: "(if b then Inl e else m) = Inr y \<longleftrightarrow> \<not> b \<and> m = Inr y"
  by simp

lemma if_InlE: "(if c then Inl e else x) = Inr v \<Longrightarrow> (\<not> c \<Longrightarrow> x = Inr v \<Longrightarrow> P) \<Longrightarrow> P"
  by (simp split: if_splits)

lemma if_dropE: "(if c then x else y) = v \<Longrightarrow> (x = v \<Longrightarrow> P) \<Longrightarrow> (y = v \<Longrightarrow> P) \<Longrightarrow> P"
  by (simp split: if_splits)

lemma bindE_final_check:
  "bindE m (\<lambda>x. if P x then Inl e else Inr x) = Inr y \<longleftrightarrow> m = Inr y \<and> \<not> P y"
  by (cases m) auto

text \<open>Left-to-right evaluation of a list of fallible pieces, as in \<open>a + b + c\<close> or a join.\<close>

primrec seqE :: "'a res list \<Rightarrow> 'a list res" where
  "seqE [] = Inr []"
| "seqE (m # ms) = bindE m (\<lambda>x. bindE (seqE ms) (\<lambda>xs. Inr (x # xs)))"

definition mapE :: "('a \<Rightarrow> 'b res) \<Rightarrow> 'a list \<Rightarrow> 'b list res" where
  "mapE f xs = seqE (map f xs)"

lemma mapE_simps [simp]:
  "mapE f [] = Inr []"
  "mapE f (x # xs) = bindE (f x) (\<lambda>y. bindE (mapE f xs) (\<lambda>ys. Inr (y # ys)))"
  by (simp_all add: mapE_def)

lemma mapE_Inr: "(\<And>x. x \<in> set xs \<Longrightarrow> f x = Inr (g x)) \<Longrightarrow> mapE f xs = Inr (map g xs)"
  by (induction xs) simp_all

text \<open>A loop of checks: the first element that fails decides the exception.\<close>

primrec checkE :: "('a \<Rightarrow> unit res) \<Rightarrow> 'a list \<Rightarrow> unit res" where
  "checkE f [] = Inr ()"
| "checkE f (x # xs) = bindE (f x) (\<lambda>_. checkE f xs)"

lemma checkE_iff [res_simps]: "checkE f xs = Inr u \<longleftrightarrow> (\<forall>x \<in> set xs. f x = Inr ())"
  by (induction xs) (auto simp: bindE_eq_Inr)

section \<open>Decimal numerals\<close>

text \<open>\<open>str(n)\<close> of an integer, as format strings and JSON print it.\<close>

fun dec_nat :: "nat \<Rightarrow> string" where
  "dec_nat n = (if n < 10 then [char_of (48 + n)] else dec_nat (n div 10) @ [char_of (48 + n mod 10)])"

declare dec_nat.simps [simp del]

definition py_str :: "int \<Rightarrow> string" where
  "py_str n = (if n < 0 then ''-'' @ dec_nat (nat (- n)) else dec_nat (nat n))"

section \<open>Dictionaries and plain values\<close>

text \<open>
  A Python dictionary is an association list with distinct keys in insertion order: \<open>map_of\<close> looks
  up, \<open>AList.update\<close> assigns (in place, or at the end) and \<open>AList.delete\<close> removes. \<open>pyval\<close> holds the
  nested values that reports and JSON documents are made of.
\<close>

type_synonym ('k, 'v) dict = "('k \<times> 'v) list"

datatype pyval = PNone | PBool bool | PInt int | PStr string | PList "pyval list" | PDict "(string \<times> pyval) list"

definition wf_dict :: "('k, 'v) dict \<Rightarrow> bool" where
  "wf_dict d \<longleftrightarrow> distinct (map fst d)"

lemma wf_dict_Nil [simp]: "wf_dict []"
  by (simp add: wf_dict_def)

lemma wf_dict_update [simp]: "wf_dict d \<Longrightarrow> wf_dict (AList.update k v d)"
  by (simp add: wf_dict_def AList.distinct_update)

lemma wf_dict_delete [simp]: "wf_dict d \<Longrightarrow> wf_dict (AList.delete k d)"
  by (simp add: wf_dict_def distinct_delete)

lemma update_fresh: "map_of d k = None \<Longrightarrow> AList.update k v d = d @ [(k, v)]"
  by (induction d) (auto split: if_splits)

lemma length_update_new: "map_of d k = None \<Longrightarrow> length (AList.update k v d) = Suc (length d)"
  by (induction d) (auto split: if_splits)

lemma length_delete_le: "length (AList.delete k d) \<le> length d"
  by (simp add: AList.delete_eq)

section \<open>Lists\<close>

lemma concat_map_snoc [simp]: "concat (map f (xs @ [x])) = concat (map f xs) @ f x"
  by simp

lemma find_Some_iff_mem: "List.find P xs = Some x \<Longrightarrow> x \<in> set xs \<and> P x"
  by (induction xs) (auto split: if_splits)

lemma sorted_wrt_less_distinct: "sorted_wrt (<) (xs :: 'a::linorder list) \<Longrightarrow> distinct xs"
  by (metis strict_sorted_iff)

lemma drop_numeral_plus_Cons [simp]:
  "drop (numeral k + n) (x # xs) = drop (pred_numeral k + n) xs"
  by (simp add: numeral_eq_Suc)

lemma length_concat_const: "(\<And>x. x \<in> set xs \<Longrightarrow> length (f x) = k) \<Longrightarrow>
    length (concat (map f xs)) = length xs * k"
  by (induction xs) simp_all

text \<open>
  The adjacent-pair test \<open>any(left >= right for left, right in zip(keys, keys[1:]))\<close> is the
  failure of strict sortedness.
\<close>

definition strictly_sorted_keys :: "'k::linorder list \<Rightarrow> bool" where
  "strictly_sorted_keys ks \<longleftrightarrow> \<not> (\<exists>(l, r) \<in> set (zip ks (tl ks)). l \<ge> r)"

lemma strictly_sorted_keys_Cons2:
  "strictly_sorted_keys (a # b # ks) \<longleftrightarrow> a < b \<and> strictly_sorted_keys (b # ks)"
  by (auto simp: strictly_sorted_keys_def)

lemma strictly_sorted_keys_iff [simp]: "strictly_sorted_keys ks \<longleftrightarrow> sorted_wrt (<) ks"
proof (induction ks rule: induct_list012)
  case (3 a b ks)
  then show ?case
    by (auto simp: strictly_sorted_keys_Cons2 intro: less_trans)
qed (simp_all add: strictly_sorted_keys_def)

end
