(* ===== verification/Bytes.thy ===== *)
theory Bytes
  imports Prelude
begin

text \<open>
  Byte strings, big-endian integers and the checked reader of \<open>full_braid_wire.py\<close>, with the
  interface every wire codec of the development meets: a decoder succeeds exactly on the
  encoding of a well-formed value, and leaves the reader right behind it.
\<close>

section \<open>Byte strings and big-endian integers\<close>

type_synonym byte = "8 word"
type_synonym bytes = "byte list"

text \<open>An ASCII literal \<open>b"..."\<close>, and \<open>bytes(n)\<close>.\<close>

definition asc :: "string \<Rightarrow> bytes" where
  "asc s = map of_char s"

definition zeros :: "nat \<Rightarrow> bytes" where
  "zeros n = replicate n 0"

text \<open>\<open>bytes.hex()\<close>.\<close>

definition hex_digit :: "nat \<Rightarrow> char" where
  "hex_digit n = ''0123456789abcdef'' ! n"

definition bytes_hex :: "bytes \<Rightarrow> string" where
  "bytes_hex bs = concat (map (\<lambda>b. [hex_digit (unat b div 16), hex_digit (unat b mod 16)]) bs)"

lemma length_asc [simp, len_simps]: "length (asc s) = length s"
  by (simp add: asc_def)

lemma length_zeros [simp, len_simps]: "length (zeros n) = n"
  by (simp add: zeros_def)

text \<open>Python's \<open>int.to_bytes(k, "big")\<close> and \<open>int.from_bytes(b, "big")\<close>.\<close>

primrec be_bytes :: "nat \<Rightarrow> int \<Rightarrow> bytes" where
  "be_bytes 0 n = []"
| "be_bytes (Suc k) n = word_of_int (n div 256 ^ k) # be_bytes k n"

definition from_bytes :: "bytes \<Rightarrow> int" where
  "from_bytes bs = foldl (\<lambda>a b. a * 256 + uint b) 0 bs"

definition to_bytes :: "int \<Rightarrow> nat \<Rightarrow> bytes res" where
  "to_bytes n k =
     (if n < 0 then Inl (OverflowError ''can't convert negative int to unsigned'')
      else if n \<ge> 256 ^ k then Inl (OverflowError ''int too big to convert'')
      else Inr (be_bytes k n))"

lemma length_be_bytes [simp, len_simps]: "length (be_bytes k n) = k"
  by (induction k) simp_all

lemma to_bytes_eq_Inr [res_simps]:
  "to_bytes n k = Inr bs \<longleftrightarrow> 0 \<le> n \<and> n < 256 ^ k \<and> bs = be_bytes k n"
  by (auto simp: to_bytes_def)

lemma to_bytes_Inr [simp]: "0 \<le> n \<Longrightarrow> n < 256 ^ k \<Longrightarrow> to_bytes n k = Inr (be_bytes k n)"
  by (simp add: to_bytes_def)

lemma from_bytes_Nil [simp]: "from_bytes [] = 0"
  by (simp add: from_bytes_def)

lemma from_bytes_snoc: "from_bytes (bs @ [b]) = from_bytes bs * 256 + uint b"
  by (simp add: from_bytes_def)

lemma from_bytes_Cons: "from_bytes (b # bs) = uint b * 256 ^ length bs + from_bytes bs"
proof (induction bs rule: rev_induct)
  case (snoc x xs)
  have "from_bytes (b # xs @ [x]) = from_bytes (b # xs) * 256 + uint x"
    using from_bytes_snoc[of "b # xs" x] by simp
  with snoc show ?case by (simp add: from_bytes_snoc algebra_simps)
qed (simp add: from_bytes_def)

lemma uint_byte_bounds: "0 \<le> uint (b :: byte)" "uint (b :: byte) < 256"
  using uint_lt2p[of b] by simp_all

lemma from_bytes_bounds: "0 \<le> from_bytes bs \<and> from_bytes bs < 256 ^ length bs"
proof (induction bs rule: rev_induct)
  case (snoc x xs)
  then show ?case using uint_byte_bounds[of x] by (simp add: from_bytes_snoc)
qed simp

lemma byte_of_int_add: "(word_of_int (256 * x + y) :: byte) = word_of_int y"
  by (simp only: word_of_int_eq_iff take_bit_eq_mod) simp

lemma be_bytes_add: "j \<le> k \<Longrightarrow> be_bytes j (a * 256 ^ k + n) = be_bytes j n"
proof (induction j)
  case (Suc j)
  then obtain m where k: "k = Suc (j + m)"
    by (metis Suc_le_D Suc_le_mono add.commute le_iff_add)
  have "a * 256 ^ k + n = n + 256 * (a * 256 ^ m) * 256 ^ j"
    by (simp add: k power_add)
  moreover have "(n + 256 * (a * 256 ^ m) * 256 ^ j) div 256 ^ j = 256 * (a * 256 ^ m) + n div 256 ^ j"
    by (rule div_mult_self1) simp
  ultimately have "(a * 256 ^ k + n) div 256 ^ j = 256 * (a * 256 ^ m) + n div 256 ^ j"
    by (simp only:)
  then have "word_of_int ((a * 256 ^ k + n) div 256 ^ j) = (word_of_int (n div 256 ^ j) :: byte)"
    by (simp only: byte_of_int_add)
  with Suc show ?case by simp
qed simp

lemma from_be_bytes_mod: "from_bytes (be_bytes k n) = n mod 256 ^ k"
proof (induction k)
  case (Suc k)
  have "n mod (256 ^ k * 256) = 256 ^ k * (n div 256 ^ k mod 256) + n mod 256 ^ k"
    by (simp add: zmod_zmult2_eq)
  with Suc show ?case
    by (simp add: from_bytes_Cons uint_word_of_int algebra_simps)
qed simp

lemma from_be_bytes [simp]: "0 \<le> n \<Longrightarrow> n < 256 ^ k \<Longrightarrow> from_bytes (be_bytes k n) = n"
  by (simp add: from_be_bytes_mod)

lemma be_from_bytes [simp]: "be_bytes (length bs) (from_bytes bs) = bs"
proof (induction bs)
  case (Cons b bs)
  have r: "0 \<le> from_bytes bs" "from_bytes bs < 256 ^ length bs"
    using from_bytes_bounds by simp_all
  have "from_bytes (b # bs) div 256 ^ length bs = uint b"
    using r by (simp add: from_bytes_Cons div_add1_eq)
  with Cons show ?case
    by (simp add: from_bytes_Cons be_bytes_add)
qed simp

lemma be_bytes_inj:
  "0 \<le> m \<Longrightarrow> m < 256 ^ k \<Longrightarrow> 0 \<le> n \<Longrightarrow> n < 256 ^ k \<Longrightarrow> be_bytes k m = be_bytes k n \<longleftrightarrow> m = n"
  by (metis from_be_bytes)

section \<open>The checked wire reader\<close>

text \<open>
  \<open>WireReader\<close>: the data and an offset into it. Each read checks that enough bytes remain and
  moves the offset; the model returns the moved reader with the value.
\<close>

record wire_reader =
  wr_data :: bytes
  wr_off :: nat

definition mk_reader :: "bytes \<Rightarrow> nat \<Rightarrow> wire_reader" where
  "mk_reader d start = \<lparr>wr_data = d, wr_off = start\<rparr>"

definition remaining :: "wire_reader \<Rightarrow> int" where
  "remaining r = int (length (wr_data r)) - int (wr_off r)"

definition need :: "int \<Rightarrow> wire_reader \<Rightarrow> unit res" where
  "need n r =
     (if n < 0 \<or> int (wr_off r) + n > int (length (wr_data r))
      then Inl (ValueError ''truncated'') else Inr ())"

definition slice :: "bytes \<Rightarrow> nat \<Rightarrow> nat \<Rightarrow> bytes" where
  \<comment> \<open>\<open>data[i:j]\<close> for offsets that are not negative\<close>
  "slice d i j = drop i (take j d)"

definition read_u8 :: "wire_reader \<Rightarrow> (int \<times> wire_reader) res" where
  "read_u8 r = bindE (need 1 r) (\<lambda>_.
     Inr (uint (wr_data r ! wr_off r), r\<lparr>wr_off := wr_off r + 1\<rparr>))"

definition read_u16be :: "wire_reader \<Rightarrow> (int \<times> wire_reader) res" where
  "read_u16be r = bindE (need 2 r) (\<lambda>_.
     Inr (from_bytes (slice (wr_data r) (wr_off r) (wr_off r + 2)), r\<lparr>wr_off := wr_off r + 2\<rparr>))"

definition read_u32be :: "wire_reader \<Rightarrow> (int \<times> wire_reader) res" where
  "read_u32be r = bindE (need 4 r) (\<lambda>_.
     Inr (from_bytes (slice (wr_data r) (wr_off r) (wr_off r + 4)), r\<lparr>wr_off := wr_off r + 4\<rparr>))"

definition read_u64be :: "wire_reader \<Rightarrow> (int \<times> wire_reader) res" where
  "read_u64be r = bindE (need 8 r) (\<lambda>_.
     Inr (from_bytes (slice (wr_data r) (wr_off r) (wr_off r + 8)), r\<lparr>wr_off := wr_off r + 8\<rparr>))"

definition read_bytes :: "int \<Rightarrow> wire_reader \<Rightarrow> (bytes \<times> wire_reader) res" where
  "read_bytes n r = bindE (need n r) (\<lambda>_.
     Inr (slice (wr_data r) (wr_off r) (wr_off r + nat n), r\<lparr>wr_off := wr_off r + nat n\<rparr>))"

definition read_array32 :: "wire_reader \<Rightarrow> (bytes \<times> wire_reader) res" where
  "read_array32 r = read_bytes 32 r"

definition expect_magic :: "bytes \<Rightarrow> bytes \<Rightarrow> unit res" where
  "expect_magic d magic =
     (if length d < 8 \<or> take 8 d \<noteq> magic then Inl (ValueError ''bad magic'') else Inr ())"

definition reject_trailing :: "bytes \<Rightarrow> nat \<Rightarrow> unit res" where
  "reject_trailing d consumed =
     (if consumed \<noteq> length d then Inl (ValueError ''trailing bytes'') else Inr ())"

text \<open>The list comprehension \<open>[read(...) for _ in range(count)]\<close>.\<close>

primrec read_list :: "(wire_reader \<Rightarrow> ('a \<times> wire_reader) res) \<Rightarrow> nat \<Rightarrow> wire_reader \<Rightarrow>
    ('a list \<times> wire_reader) res" where
  "read_list f 0 r = Inr ([], r)"
| "read_list f (Suc n) r = bindE (f r) (\<lambda>(x, r). bindE (read_list f n r) (\<lambda>(xs, r). Inr (x # xs, r)))"

subsection \<open>A reader between what it has read and what is left\<close>

definition rd :: "bytes \<Rightarrow> bytes \<Rightarrow> wire_reader" where
  "rd p s = \<lparr>wr_data = p @ s, wr_off = length p\<rparr>"

lemma rd_fields [simp]: "wr_data (rd p s) = p @ s" "wr_off (rd p s) = length p"
  by (simp_all add: rd_def)

lemma mk_reader_rd: "n \<le> length d \<Longrightarrow> mk_reader d n = rd (take n d) (drop n d)"
  by (simp add: mk_reader_def rd_def)

lemma rd_eq_iff: "rd p s = rd q t \<longleftrightarrow> p = q \<and> s = t"
  by (auto simp: rd_def append_eq_append_conv)

lemma rd_update: "rd p s\<lparr>wr_off := length p + n\<rparr> = rd (p @ take n s) (drop n s)"
  if "n \<le> length s"
  using that by (simp add: rd_def min_def)

lemma need_rd: "need n (rd p s) = Inr u \<longleftrightarrow> 0 \<le> n \<and> n \<le> int (length s)"
  by (auto simp: need_def)

lemma split_at_iff: "n \<le> length s \<and> x = take n s \<and> t = drop n s \<longleftrightarrow> length x = n \<and> s = x @ t"
  by (metis append_take_drop_id append_eq_conv_conj length_take min.absorb2 le_add1 length_append)

lemma read_bytes_iff [wire_iffs]:
  "read_bytes n (rd p s) = Inr (x, r) \<longleftrightarrow> 0 \<le> n \<and> int (length x) = n \<and> (\<exists>t. s = x @ t \<and> r = rd (p @ x) t)"
proof -
  have "read_bytes n (rd p s) = Inr (x, r) \<longleftrightarrow>
      0 \<le> n \<and> nat n \<le> length s \<and> x = take (nat n) s \<and> r = rd (p @ take (nat n) s) (drop (nat n) s)"
    by (auto simp: read_bytes_def bindE_eq_Inr need_rd slice_def rd_update)
  then show ?thesis
    by (auto simp: rd_eq_iff)
qed

lemma read_uint_iff:
  "(if k \<le> length s then Inr (from_bytes (slice (p @ s) (length p) (length p + k)), rd p s\<lparr>wr_off := length p + k\<rparr>)
    else Inl e) = (Inr (n, r) :: (int \<times> wire_reader) res) \<longleftrightarrow>
   0 \<le> n \<and> n < 256 ^ k \<and> (\<exists>t. s = be_bytes k n @ t \<and> r = rd (p @ be_bytes k n) t)"
proof
  assume "0 \<le> n \<and> n < 256 ^ k \<and> (\<exists>t. s = be_bytes k n @ t \<and> r = rd (p @ be_bytes k n) t)"
  then show "(if k \<le> length s then Inr (from_bytes (slice (p @ s) (length p) (length p + k)),
      rd p s\<lparr>wr_off := length p + k\<rparr>) else Inl e) = (Inr (n, r) :: (int \<times> wire_reader) res)"
    by (auto simp: slice_def rd_update)
next
  assume *: "(if k \<le> length s then Inr (from_bytes (slice (p @ s) (length p) (length p + k)),
      rd p s\<lparr>wr_off := length p + k\<rparr>) else Inl e) = (Inr (n, r) :: (int \<times> wire_reader) res)"
  then have k: "k \<le> length s" and n: "n = from_bytes (take k s)"
    and r: "r = rd (p @ take k s) (drop k s)"
    by (auto simp: slice_def rd_update split: if_splits)
  have len: "length (take k s) = k" using k by simp
  have be: "be_bytes k n = take k s"
    using be_from_bytes[of "take k s"] len n by simp
  show "0 \<le> n \<and> n < 256 ^ k \<and> (\<exists>t. s = be_bytes k n @ t \<and> r = rd (p @ be_bytes k n) t)"
    using from_bytes_bounds[of "take k s"] len n r unfolding be
    by (auto intro!: exI[of _ "drop k s"])
qed

lemma read_uint_unfold:
  "bindE (need (int k) (rd p s)) (\<lambda>_. Inr (from_bytes (slice (p @ s) (length p) (length p + k)),
      rd p s\<lparr>wr_off := length p + k\<rparr>)) =
   (if k \<le> length s then Inr (from_bytes (slice (p @ s) (length p) (length p + k)),
      rd p s\<lparr>wr_off := length p + k\<rparr>) else Inl (ValueError ''truncated''))"
  by (simp add: need_def)

lemma read_u16be_iff [wire_iffs]: "read_u16be (rd p s) = Inr (n, r) \<longleftrightarrow>
    0 \<le> n \<and> n < 256 ^ 2 \<and> (\<exists>t. s = be_bytes 2 n @ t \<and> r = rd (p @ be_bytes 2 n) t)"
  using read_uint_unfold[of 2 p s] unfolding read_u16be_def
  by (simp only: rd_fields of_nat_numeral read_uint_iff)

lemma read_u32be_iff [wire_iffs]: "read_u32be (rd p s) = Inr (n, r) \<longleftrightarrow>
    0 \<le> n \<and> n < 256 ^ 4 \<and> (\<exists>t. s = be_bytes 4 n @ t \<and> r = rd (p @ be_bytes 4 n) t)"
  using read_uint_unfold[of 4 p s] unfolding read_u32be_def
  by (simp only: rd_fields of_nat_numeral read_uint_iff)

lemma read_u64be_iff [wire_iffs]: "read_u64be (rd p s) = Inr (n, r) \<longleftrightarrow>
    0 \<le> n \<and> n < 256 ^ 8 \<and> (\<exists>t. s = be_bytes 8 n @ t \<and> r = rd (p @ be_bytes 8 n) t)"
  using read_uint_unfold[of 8 p s] unfolding read_u64be_def
  by (simp only: rd_fields of_nat_numeral read_uint_iff)

lemma read_u8_iff [wire_iffs]: "read_u8 (rd p s) = Inr (n, r) \<longleftrightarrow>
    0 \<le> n \<and> n < 256 ^ 1 \<and> (\<exists>t. s = be_bytes 1 n @ t \<and> r = rd (p @ be_bytes 1 n) t)"
proof -
  have "read_u8 (rd p s) = (if 1 \<le> length s then Inr (from_bytes (slice (p @ s) (length p) (length p + 1)),
      rd p s\<lparr>wr_off := length p + 1\<rparr>) else Inl (ValueError ''truncated''))"
    by (cases s) (auto simp: read_u8_def need_def slice_def from_bytes_def)
  then show ?thesis by (simp only: read_uint_iff)
qed

lemma read_array32_iff [wire_iffs]:
  "read_array32 (rd p s) = Inr (x, r) \<longleftrightarrow> length x = 32 \<and> (\<exists>t. s = x @ t \<and> r = rd (p @ x) t)"
  by (auto simp: read_array32_def read_bytes_iff)

end
