(* ===== verification/Codec.thy ===== *)
theory Codec
  imports Bytes
begin

text \<open>
  The interface between the wire codecs and their clients. A codec is an encoder, a decoder on the
  checked reader and a well-formedness predicate; its one law says that decoding at any position
  succeeds exactly when an encoding of a well-formed value lies there, and then moves the reader
  past it. Everything a client needs (round trip, canonicity, injectivity, self-delimitation,
  counted sequences) follows inside the locale.
\<close>

locale codec =
  fixes wf :: "'a \<Rightarrow> bool"
    and enc :: "'a \<Rightarrow> bytes"
    and dec :: "wire_reader \<Rightarrow> ('a \<times> wire_reader) res"
  assumes dec_iff:
    "dec (rd p s) = Inr (x, r) \<longleftrightarrow> wf x \<and> (\<exists>t. s = enc x @ t \<and> r = rd (p @ enc x) t)"
begin

lemma dec_enc: "wf x \<Longrightarrow> dec (rd p (enc x @ t)) = Inr (x, rd (p @ enc x) t)"
  by (simp add: dec_iff)

lemma dec_dest:
  "dec (rd p s) = Inr (x, r) \<Longrightarrow> \<exists>t. wf x \<and> s = enc x @ t \<and> r = rd (p @ enc x) t"
  by (simp add: dec_iff)

lemma self_delimiting:
  assumes "wf x" "wf y" "enc x @ s = enc y @ t"
  shows "x = y \<and> s = t"
proof -
  have "Inr (x, rd (p @ enc x) s) = (Inr (y, rd (p @ enc y) t) :: ('a \<times> wire_reader) res)" for p
    using dec_enc[OF assms(1), of p s] dec_enc[OF assms(2), of p t] assms(3) by metis
  then show ?thesis by (auto simp: rd_eq_iff)
qed

lemma enc_inj: "wf x \<Longrightarrow> wf y \<Longrightarrow> enc x = enc y \<Longrightarrow> x = y"
  using self_delimiting by blast

lemma read_list_enc: "list_all wf xs \<Longrightarrow>
    read_list dec (length xs) (rd p (concat (map enc xs) @ t)) = Inr (xs, rd (p @ concat (map enc xs)) t)"
  by (induction xs arbitrary: p) (simp_all add: dec_enc)

lemma read_list_dest: "read_list dec n (rd p s) = Inr (xs, r) \<Longrightarrow>
    \<exists>t. length xs = n \<and> list_all wf xs \<and> s = concat (map enc xs) @ t \<and> r = rd (p @ concat (map enc xs)) t"
proof (induction n arbitrary: p s xs)
  case (Suc n)
  from Suc.prems obtain x ys r' where
    x: "dec (rd p s) = Inr (x, r')" and ys: "read_list dec n r' = Inr (ys, r)" and xs: "xs = x # ys"
    by (auto simp: bindE_eq_Inr)
  from dec_dest[OF x] obtain s' where s': "wf x" "s = enc x @ s'" "r' = rd (p @ enc x) s'" by blast
  from Suc.IH[OF ys[unfolded s'(3)]] s' xs show ?case by auto
qed simp

lemma read_list_iff:
  "read_list dec n (rd p s) = Inr (xs, r) \<longleftrightarrow>
     (length xs = n \<and> list_all wf xs) \<and>
     (\<exists>t. s = concat (map enc xs) @ t \<and> r = rd (p @ concat (map enc xs)) t)"
  using read_list_dest[of n p s xs r] read_list_enc[of xs p] by blast

end

text \<open>To interpret the locale, show the two directions: reading forwards and what a read tells.\<close>

lemma codecI:
  fixes wf :: "'a \<Rightarrow> bool" and enc :: "'a \<Rightarrow> bytes"
  assumes "\<And>p x t. wf x \<Longrightarrow> dec (rd p (enc x @ t)) = Inr (x, rd (p @ enc x) t)"
    and "\<And>p s x r. dec (rd p s) = Inr (x, r) \<Longrightarrow> \<exists>t. wf x \<and> s = enc x @ t \<and> r = rd (p @ enc x) t"
  shows "codec wf enc dec"
  using assms by unfold_locales blast

text \<open>A counted sequence of items is a codec again.\<close>

locale counted_codec = codec wf enc dec
  for wf :: "'a \<Rightarrow> bool" and enc and dec +
  fixes count :: nat

sublocale counted_codec \<subseteq> items: codec
  "\<lambda>xs. length xs = count \<and> list_all wf xs" "\<lambda>xs. concat (map enc xs)" "read_list dec count"
  by unfold_locales (rule read_list_iff)

section \<open>The primitive fields\<close>

definition uint_fits :: "nat \<Rightarrow> int \<Rightarrow> bool" where
  "uint_fits k n \<longleftrightarrow> 0 \<le> n \<and> n < 256 ^ k"

definition byte_fits :: "int \<Rightarrow> bool" where
  "byte_fits n \<longleftrightarrow> 0 \<le> n \<and> n < 256"

lemma to_bytes_fits: "to_bytes n k = Inr bs \<longleftrightarrow> uint_fits k n \<and> bs = be_bytes k n"
  by (auto simp: uint_fits_def to_bytes_eq_Inr)

lemma uint_fits_length: "n < 256 ^ k \<Longrightarrow> uint_fits k (int n)"
  by (simp add: uint_fits_def)

lemma byte_fits_uint [simp]: "byte_fits (uint (w :: byte))"
  by (simp add: byte_fits_def uint_byte_bounds)

lemma uint_byte_of_int [simp]: "byte_fits n \<Longrightarrow> uint (word_of_int n :: byte) = n"
  by (simp add: byte_fits_def uint_word_of_int)

lemma byte_fits_numeral [simp]: "byte_fits 0" "byte_fits 1"
  by (simp_all add: byte_fits_def)

text \<open>The writers \<open>_u8\<close>, \<open>_u16be\<close>, \<open>_u32be\<close> and \<open>_u64be\<close> of \<open>full_braid_wire.py\<close>.\<close>

definition u8 :: "int \<Rightarrow> bytes" where
  "u8 n = [word_of_int n]"

definition u16be :: "int \<Rightarrow> bytes res" where
  "u16be n = to_bytes n 2"

definition u32be :: "int \<Rightarrow> bytes res" where
  "u32be n = to_bytes n 4"

definition u64be :: "int \<Rightarrow> bytes res" where
  "u64be n = to_bytes n 8"

lemma u8_Cons: "u8 n = [word_of_int n]"
  by (simp add: u8_def)

lemma length_u8 [simp, len_simps]: "length (u8 n) = 1"
  by (simp add: u8_def)

lemma write_iffs [res_simps]:
  "u16be n = Inr bs \<longleftrightarrow> uint_fits 2 n \<and> bs = be_bytes 2 n"
  "u32be n = Inr bs \<longleftrightarrow> uint_fits 4 n \<and> bs = be_bytes 4 n"
  "u64be n = Inr bs \<longleftrightarrow> uint_fits 8 n \<and> bs = be_bytes 8 n"
  by (simp_all add: u16be_def u32be_def u64be_def to_bytes_fits)

lemma write_fits [simp]:
  "uint_fits 2 n \<Longrightarrow> u16be n = Inr (be_bytes 2 n)"
  "uint_fits 4 n \<Longrightarrow> u32be n = Inr (be_bytes 4 n)"
  "uint_fits 8 n \<Longrightarrow> u64be n = Inr (be_bytes 8 n)"
  by (simp_all add: write_iffs)

lemma uint_byte_literals [simp]:
  "uint (w :: byte) = 0 \<longleftrightarrow> w = 0" "uint (w :: byte) = 1 \<longleftrightarrow> w = 1"
  by (metis uint_0_iff) (metis word_uint_eqI uint_1)

lemma small_fits [simp]:
  "uint_fits 2 0" "uint_fits 2 1" "uint_fits 2 2" "uint_fits 2 128" "uint_fits 4 0" "uint_fits 4 1" "uint_fits 8 0"
  by (simp_all add: uint_fits_def)

text \<open>A sum \<open>a + b + ...\<close> of pieces, some of which may raise.\<close>

definition joinE :: "bytes res list \<Rightarrow> bytes res" where
  "joinE ms = bindE (seqE ms) (\<lambda>xs. Inr (concat xs))"

lemma joinE_Nil [simp]: "joinE [] = Inr []"
  by (simp add: joinE_def)

lemma joinE_Cons [simp]: "joinE (m # ms) = bindE m (\<lambda>x. bindE (joinE ms) (\<lambda>xs. Inr (x @ xs)))"
  by (cases m) (simp_all add: joinE_def bindE_assoc)

interpretation u8: codec byte_fits u8 read_u8
  by unfold_locales (auto simp: byte_fits_def read_u8_iff u8_def)

interpretation u16: codec "uint_fits 2" "be_bytes 2" read_u16be
  by unfold_locales (auto simp: uint_fits_def read_u16be_iff)

interpretation u32: codec "uint_fits 4" "be_bytes 4" read_u32be
  by unfold_locales (auto simp: uint_fits_def read_u32be_iff)

interpretation u64: codec "uint_fits 8" "be_bytes 8" read_u64be
  by unfold_locales (auto simp: uint_fits_def read_u64be_iff)

interpretation raw: codec "\<lambda>x. int (length x) = n" "\<lambda>x. x" "read_bytes n" for n
  by unfold_locales (auto simp: read_bytes_iff)

interpretation arr32: codec "\<lambda>x. length x = 32" "\<lambda>x. x" read_array32
  by unfold_locales (auto simp: read_array32_iff)

text \<open>Reading forwards over a known encoding, and what a successful read tells.\<close>

lemma read_u8_Cons [simp]: "read_u8 (rd p (w # t)) = Inr (uint w, rd (p @ [w]) t)"
  using u8.dec_enc[of "uint w" p t] by (simp add: u8_def)

lemma read_u8_dest: "read_u8 (rd p s) = Inr (n, r) \<longleftrightarrow> (\<exists>w t. s = w # t \<and> n = uint w \<and> r = rd (p @ [w]) t)"
  by (cases s) (auto simp: read_u8_def need_def rd_def)

lemma read_bytes_none [simp]: "read_bytes 0 (rd p s) = Inr ([], rd p s)"
  using raw.dec_enc[of "[]" 0 p s] by simp

lemmas read_fwd = u16.dec_enc u32.dec_enc u64.dec_enc raw.dec_enc arr32.dec_enc
  arr32.dec_enc[where t = "[]", simplified] raw.dec_enc[where t = "[]", simplified]
  u32.dec_enc[where t = "[]", simplified] u64.dec_enc[where t = "[]", simplified]

lemmas read_dest = read_u8_dest u16.dec_iff u32.dec_iff u64.dec_iff raw.dec_iff arr32.dec_iff

lemma expect_magic_iff [res_simps]:
  "length m = 8 \<Longrightarrow> expect_magic d m = Inr u \<longleftrightarrow> (\<exists>s. d = m @ s)"
  by (auto simp: expect_magic_def) (metis append_take_drop_id)

lemma expect_magic_fwd [simp]: "length m = 8 \<Longrightarrow> expect_magic (m @ s) m = Inr ()"
  by (simp add: expect_magic_def)

lemma mk_reader_magic: "length m = n \<Longrightarrow> mk_reader (m @ s) n = rd m s"
  by (auto simp: mk_reader_def rd_def)

lemma reject_trailing_iff [res_simps]: "reject_trailing d n = Inr u \<longleftrightarrow> n = length d"
  by (auto simp: reject_trailing_def)

section \<open>Sequences of written items\<close>

lemma joinE_map_iff:
  assumes "\<And>x b. x \<in> set xs \<Longrightarrow> f x = Inr b \<longleftrightarrow> ok x \<and> b = wire x"
  shows "joinE (map f xs) = Inr bs \<longleftrightarrow> list_all ok xs \<and> bs = concat (map wire xs)"
  using assms by (induction xs arbitrary: bs) (auto simp: bindE_eq_Inr)

end
