(* ===== verification/Hashes.thy ===== *)
theory Hashes
  imports Bytes
begin

text \<open>
  The hash functions of Python's \<open>hashlib\<close> and \<open>hmac\<close> that the code calls: SHA-256 and
  SHA3-512 as executable definitions on words, HMAC over a hash function, and HKDF (RFC 5869)
  over a pseudo-random function. The lengths of their outputs are what the framing of the
  protocol rests on; two locales carry them from the hash to HMAC and from HMAC to HKDF.
\<close>

unbundle bit_operations_syntax

section \<open>SHA-256\<close>

type_synonym w32 = "32 word"

text \<open>The round constants, eight 32-bit words to a row.\<close>

definition sha256_k_rows :: "int list" where
  "sha256_k_rows =
    [0x428a2f9871374491b5c0fbcfe9b5dba53956c25b59f111f1923f82a4ab1c5ed5,
     0xd807aa9812835b01243185be550c7dc372be5d7480deb1fe9bdc06a7c19bf174,
     0xe49b69c1efbe47860fc19dc6240ca1cc2de92c6f4a7484aa5cb0a9dc76f988da,
     0x983e5152a831c66db00327c8bf597fc7c6e00bf3d5a7914706ca635114292967,
     0x27b70a852e1b21384d2c6dfc53380d13650a7354766a0abb81c2c92e92722c85,
     0xa2bfe8a1a81a664bc24b8b70c76c51a3d192e819d6990624f40e3585106aa070,
     0x19a4c1161e376c082748774c34b0bcb5391c0cb34ed8aa4a5b9cca4f682e6ff3,
     0x748f82ee78a5636f84c878148cc7020890befffaa4506cebbef9a3f7c67178f2]"

definition sha256_k :: "w32 list" where
  "sha256_k = map (\<lambda>i. word_of_int (sha256_k_rows ! (i div 8) div 2 ^ (32 * (7 - i mod 8)))) [0..<64]"

type_synonym sha_state = "w32 \<times> w32 \<times> w32 \<times> w32 \<times> w32 \<times> w32 \<times> w32 \<times> w32"

definition sha256_h0 :: sha_state where
  "sha256_h0 = (0x6a09e667, 0xbb67ae85, 0x3c6ef372, 0xa54ff53a, 0x510e527f, 0x9b05688c, 0x1f83d9ab, 0x5be0cd19)"

fun sha256_round :: "sha_state \<Rightarrow> w32 \<times> w32 \<Rightarrow> sha_state" where
  "sha256_round (a, b, c, d, e, f, g, h) (k, w) =
     (let s1 = word_rotr 6 e XOR word_rotr 11 e XOR word_rotr 25 e;
          ch = (e AND f) XOR (NOT e AND g);
          t1 = h + s1 + ch + k + w;
          s0 = word_rotr 2 a XOR word_rotr 13 a XOR word_rotr 22 a;
          maj = (a AND b) XOR (a AND c) XOR (b AND c)
      in (t1 + s0 + maj, a, b, c, d + t1, e, f, g))"

text \<open>The message schedule, kept newest word first.\<close>

primrec sha256_schedule :: "nat \<Rightarrow> w32 list \<Rightarrow> w32 list" where
  "sha256_schedule 0 ws = rev ws"
| "sha256_schedule (Suc n) ws =
     (let w15 = ws ! 14; w2 = ws ! 1;
          s0 = word_rotr 7 w15 XOR word_rotr 18 w15 XOR drop_bit 3 w15;
          s1 = word_rotr 17 w2 XOR word_rotr 19 w2 XOR drop_bit 10 w2
      in sha256_schedule n ((ws ! 15 + s0 + ws ! 6 + s1) # ws))"

fun add_state :: "sha_state \<Rightarrow> sha_state \<Rightarrow> sha_state" where
  "add_state (a, b, c, d, e, f, g, h) (a', b', c', d', e', f', g', h') =
     (a + a', b + b', c + c', d + d', e + e', f + f', g + g', h + h')"

fun chunks_of :: "nat \<Rightarrow> 'a list \<Rightarrow> 'a list list" where
  "chunks_of n [] = []"
| "chunks_of n (x # xs) = (if n = 0 then [] else take n (x # xs) # chunks_of n (drop n (x # xs)))"

definition sha256_block :: "sha_state \<Rightarrow> bytes \<Rightarrow> sha_state" where
  "sha256_block h blk =
     (let ws = map (\<lambda>c. word_of_int (from_bytes c)) (chunks_of 4 blk)
      in add_state h (foldl sha256_round h (zip sha256_k (sha256_schedule 48 (rev ws)))))"

definition sha256_pad :: "bytes \<Rightarrow> bytes" where
  "sha256_pad m =
     m @ [0x80] @ zeros (nat ((55 - int (length m)) mod 64)) @ be_bytes 8 (8 * int (length m))"

fun state_bytes :: "sha_state \<Rightarrow> bytes" where
  "state_bytes (a, b, c, d, e, f, g, h) =
     concat (map (\<lambda>w. be_bytes 4 (uint w)) [a, b, c, d, e, f, g, h])"

definition sha256 :: "bytes \<Rightarrow> bytes" where
  "sha256 m = state_bytes (foldl sha256_block sha256_h0 (chunks_of 64 (sha256_pad m)))"

lemma length_sha256 [simp, len_simps]: "length (sha256 m) = 32"
proof -
  have "length (state_bytes s) = 32" for s :: sha_state
    by (cases s rule: state_bytes.cases) simp
  then show ?thesis by (simp add: sha256_def)
qed

section \<open>SHA3-512\<close>

type_synonym w64 = "64 word"

definition keccak_rc :: "w64 list" where
  "keccak_rc =
    [0x0000000000000001, 0x0000000000008082, 0x800000000000808A, 0x8000000080008000,
     0x000000000000808B, 0x0000000080000001, 0x8000000080008081, 0x8000000000008009,
     0x000000000000008A, 0x0000000000000088, 0x0000000080008009, 0x000000008000000A,
     0x000000008000808B, 0x800000000000008B, 0x8000000000008089, 0x8000000000008003,
     0x8000000000008002, 0x8000000000000080, 0x000000000000800A, 0x800000008000000A,
     0x8000000080008081, 0x8000000000008080, 0x0000000080000001, 0x8000000080008008]"

text \<open>Lane \<open>(x, y)\<close> of the state is element \<open>x + 5 * y\<close>; the rotation offsets in that order.\<close>

definition keccak_rot :: "nat list" where
  "keccak_rot = [0, 1, 62, 28, 27, 36, 44, 6, 55, 20, 3, 10, 43, 25, 39, 41, 45, 15, 21, 8, 18, 2, 61, 56, 14]"

definition keccak_round :: "w64 list \<Rightarrow> w64 \<Rightarrow> w64 list" where
  "keccak_round a rc =
     (let c = map (\<lambda>x. a ! x XOR a ! (x + 5) XOR a ! (x + 10) XOR a ! (x + 15) XOR a ! (x + 20)) [0..<5];
          d = map (\<lambda>x. c ! ((x + 4) mod 5) XOR word_rotl 1 (c ! ((x + 1) mod 5))) [0..<5];
          t = map (\<lambda>i. a ! i XOR d ! (i mod 5)) [0..<25];
          b = map (\<lambda>i. let x = i mod 5; y = i div 5; j = (x + 3 * y) mod 5 + 5 * x
                        in word_rotl (keccak_rot ! j) (t ! j)) [0..<25];
          e = map (\<lambda>i. let x = i mod 5; y = i div 5
                        in b ! i XOR (NOT (b ! ((x + 1) mod 5 + 5 * y)) AND b ! ((x + 2) mod 5 + 5 * y))) [0..<25]
      in e[0 := e ! 0 XOR rc])"

definition le_word64 :: "bytes \<Rightarrow> w64" where
  "le_word64 bs = word_of_int (from_bytes (rev bs))"

definition sha3_pad :: "bytes \<Rightarrow> bytes" where
  "sha3_pad m =
     (let q = 72 - length m mod 72
      in m @ (if q = 1 then [0x86] else [0x06] @ zeros (q - 2) @ [0x80]))"

definition sha3_absorb :: "w64 list \<Rightarrow> bytes \<Rightarrow> w64 list" where
  "sha3_absorb a blk =
     (let ls = map le_word64 (chunks_of 8 blk) @ replicate 16 0
      in foldl keccak_round (map (\<lambda>(u, v). u XOR v) (zip a ls)) keccak_rc)"

definition sha3_512 :: "bytes \<Rightarrow> bytes" where
  "sha3_512 m =
     (let a = foldl sha3_absorb (replicate 25 0) (chunks_of 72 (sha3_pad m))
      in concat (map (\<lambda>i. rev (be_bytes 8 (uint (a ! i)))) [0..<8]))"

lemma length_sha3_512 [simp, len_simps]: "length (sha3_512 m) = 64"
proof -
  have "length (concat (map (\<lambda>i. rev (be_bytes 8 (uint (a ! i)))) [0..<8])) = 64" for a :: "w64 list"
    by (subst length_concat_const[where k = 8]) simp_all
  then show ?thesis by (simp add: sha3_512_def Let_def)
qed

section \<open>HMAC\<close>

definition hmac_with :: "(bytes \<Rightarrow> bytes) \<Rightarrow> nat \<Rightarrow> bytes \<Rightarrow> bytes \<Rightarrow> bytes" where
  "hmac_with h blk key msg =
     (let k = (if length key > blk then h key else key);
          k0 = k @ zeros (blk - length k)
      in h (map (\<lambda>b. b XOR 0x5c) k0 @ h (map (\<lambda>b. b XOR 0x36) k0 @ msg)))"

definition hmac_sha256 :: "bytes \<Rightarrow> bytes \<Rightarrow> bytes" where
  "hmac_sha256 = hmac_with sha256 64"

text \<open>\<open>hmac.compare_digest\<close> on byte strings is equality.\<close>

definition compare_digest :: "bytes \<Rightarrow> bytes \<Rightarrow> bool" where
  "compare_digest a b \<longleftrightarrow> a = b"

locale fixed_output =
  fixes h :: "'k \<Rightarrow> bytes \<Rightarrow> bytes" and n :: nat
  assumes out_len: "length (h k m) = n"

locale hash_function =
  fixes hash :: "bytes \<Rightarrow> bytes" and digest_size :: nat
  assumes hash_len: "length (hash m) = digest_size"

sublocale hash_function \<subseteq> hmac: fixed_output "hmac_with hash blk" digest_size for blk
  by unfold_locales (simp add: hmac_with_def Let_def hash_len)

interpretation sha256: hash_function sha256 32
  by unfold_locales simp

interpretation sha3: hash_function sha3_512 64
  by unfold_locales simp

lemma length_hmac_sha256 [simp, len_simps]: "length (hmac_sha256 k m) = 32"
  unfolding hmac_sha256_def by (rule sha256.hmac.out_len)

section \<open>HKDF\<close>

text \<open>
  The expand loop \<open>while len(okm) < length\<close>: block \<open>i\<close> is the PRF of the previous block, the
  info and the counter byte \<open>i\<close>. \<open>bytes([counter])\<close> raises once the counter leaves a byte, so
  more than 255 blocks are an error; \<open>left\<close> counts the blocks that are still allowed.
\<close>

fun expand_loop :: "(bytes \<Rightarrow> bytes \<Rightarrow> bytes) \<Rightarrow> bytes \<Rightarrow> bytes \<Rightarrow> nat \<Rightarrow> nat \<Rightarrow> bytes \<Rightarrow> bytes \<Rightarrow> bytes res" where
  "expand_loop f prk info len left prev out =
     (if len \<le> length out then Inr (take len out)
      else if left = 0 then Inl (ValueError ''bytes must be in range(0, 256)'')
      else let t = f prk (prev @ info @ [word_of_nat (256 - left)])
           in expand_loop f prk info len (left - 1) t (out @ t))"

declare expand_loop.simps [simp del]

locale keyed_prf =
  fixed_output h n for h :: "bytes \<Rightarrow> bytes \<Rightarrow> bytes" and n :: nat
begin

lemma expand_loop_total:
  "len \<le> length out + left * n \<Longrightarrow>
     \<exists>okm. expand_loop h prk info len left prev out = Inr okm \<and> length okm = len"
proof (induction left arbitrary: prev out)
  case 0
  then show ?case by (simp add: expand_loop.simps)
next
  case (Suc left)
  show ?case
  proof (cases "len \<le> length out")
    case True
    then show ?thesis by (simp add: expand_loop.simps)
  next
    case False
    let ?t = "h prk (prev @ info @ [word_of_nat (256 - Suc left)])"
    have "len \<le> length (out @ ?t) + left * n"
      using Suc.prems by (simp add: out_len algebra_simps)
    from Suc.IH[OF this] False show ?thesis
      by (subst expand_loop.simps) (simp add: Let_def)
  qed
qed

lemma expand_loop_len:
  "expand_loop h prk info len left prev out = Inr okm \<Longrightarrow> length okm = len"
proof (induction left arbitrary: prev out)
  case 0
  then show ?case by (subst (asm) expand_loop.simps) (auto split: if_splits)
next
  case (Suc left)
  show ?case
    using Suc.prems by (subst (asm) expand_loop.simps) (auto simp: Let_def split: if_splits intro: Suc.IH)
qed

end

interpretation hmac256: keyed_prf hmac_sha256 32
  by unfold_locales simp

end
