(* ===== verification/BraidWire.thy ===== *)
theory BraidWire
  imports BraidDigest
begin

text \<open>
  \<open>full_braid_wire.py\<close>: the RVCH1, RVBM1, RVBC1, RVBI1, RVBE1 and RVBO1 wire records, with their
  validation contracts, encoders and decoders. For each record, \<open>wf_\<close> is what the encoder accepts,
  \<open>_wire\<close> the bytes it then writes; the lemmas show that encoder and decoder agree with both.
\<close>

definition RVBI1_MAGIC :: bytes where "RVBI1_MAGIC = asc ''RVBI1'' @ zeros 3"
definition RVBI1_SCHEMA :: int where "RVBI1_SCHEMA = 1"
definition OP_SEND :: int where "OP_SEND = 0"
definition OP_RECEIVE :: int where "OP_RECEIVE = 1"
definition RVBM1_MAGIC :: bytes where "RVBM1_MAGIC = asc ''RVBM1'' @ zeros 3"
definition RVBM1_SCHEMA :: int where "RVBM1_SCHEMA = 1"
definition RVBA1_LEN :: nat where "RVBA1_LEN = 176"
definition BRAID_MAX_AEAD_PLAINTEXT_BYTES :: nat where "BRAID_MAX_AEAD_PLAINTEXT_BYTES = 8192"
definition BRAID_MAX_AEAD_CIPHERTEXT_BYTES :: nat where "BRAID_MAX_AEAD_CIPHERTEXT_BYTES = 8208"
definition BRAID_MIN_AEAD_CIPHERTEXT_BYTES :: nat where "BRAID_MIN_AEAD_CIPHERTEXT_BYTES = 16"
definition MODE_SEAL_COMPARE :: int where "MODE_SEAL_COMPARE = 0"
definition MODE_OPEN :: int where "MODE_OPEN = 1"
definition RVBC1_MAGIC :: bytes where "RVBC1_MAGIC = asc ''RVBC1'' @ zeros 3"
definition RVBC1_MIN_LEN :: nat where "RVBC1_MIN_LEN = 55"
definition RVBC1_MAX_LEN :: nat where "RVBC1_MAX_LEN = 8247"
definition RVBC1_HEADER_LEN :: nat where "RVBC1_HEADER_LEN = 23"
definition RVBC1_MAX_PAYLOAD :: nat where "RVBC1_MAX_PAYLOAD = RVBC1_MAX_LEN - RVBC1_HEADER_LEN - 32"
definition RVBE1_MAGIC :: bytes where "RVBE1_MAGIC = asc ''RVBE1'' @ zeros 3"
definition RVBE1_SCHEMA :: int where "RVBE1_SCHEMA = 2"
definition RVBE1_SCHEMA_V1_SUPERSEDED :: int where "RVBE1_SCHEMA_V1_SUPERSEDED = 1"
definition ADMITTED_TRUST_LEN :: nat where "ADMITTED_TRUST_LEN = 128"
definition RVBO1_MAGIC :: bytes where "RVBO1_MAGIC = asc ''RVBO1'' @ zeros 3"
definition RVBO1_SCHEMA :: int where "RVBO1_SCHEMA = 1"
definition EMPTY_RVBO1_LEN :: nat where "EMPTY_RVBO1_LEN = 14"
definition RVCH1_MAGIC :: bytes where "RVCH1_MAGIC = asc ''RVCH1'' @ zeros 3"
definition RVCH1_SCHEMA :: int where "RVCH1_SCHEMA = 1"
definition RVCH1_LEN :: nat where "RVCH1_LEN = 68"
definition BRAID_MAX_PAYLOAD :: int where "BRAID_MAX_PAYLOAD = 8192"
definition BRAID_MAX_CHUNKS_PER_EPOCH :: int where "BRAID_MAX_CHUNKS_PER_EPOCH = 64"
definition BRAID_MAX_CANONICAL_STATE_BYTES :: int where "BRAID_MAX_CANONICAL_STATE_BYTES = 262144"
definition BRAID_MAX_REPLAY_ENTRIES :: int where "BRAID_MAX_REPLAY_ENTRIES = 64"
definition BRAID_MAX_REPLAY_BYTES :: int where "BRAID_MAX_REPLAY_BYTES = 8192"

lemmas wire_consts = RVBI1_SCHEMA_def OP_SEND_def OP_RECEIVE_def RVBM1_SCHEMA_def RVBA1_LEN_def
  BRAID_MAX_AEAD_PLAINTEXT_BYTES_def BRAID_MAX_AEAD_CIPHERTEXT_BYTES_def
  BRAID_MIN_AEAD_CIPHERTEXT_BYTES_def MODE_SEAL_COMPARE_def MODE_OPEN_def RVBC1_MIN_LEN_def
  RVBC1_MAX_LEN_def RVBC1_HEADER_LEN_def RVBC1_MAX_PAYLOAD_def RVBE1_SCHEMA_def
  RVBE1_SCHEMA_V1_SUPERSEDED_def ADMITTED_TRUST_LEN_def RVBO1_SCHEMA_def EMPTY_RVBO1_LEN_def
  RVCH1_SCHEMA_def RVCH1_LEN_def BRAID_MAX_PAYLOAD_def BRAID_MAX_CHUNKS_PER_EPOCH_def
  BRAID_MAX_CANONICAL_STATE_BYTES_def BRAID_MAX_REPLAY_ENTRIES_def BRAID_MAX_REPLAY_BYTES_def

lemma magic_lengths [simp]:
  "length RVBI1_MAGIC = 8" "length RVBM1_MAGIC = 8" "length RVBC1_MAGIC = 8"
  "length RVBE1_MAGIC = 8" "length RVBO1_MAGIC = 8" "length RVCH1_MAGIC = 8"
  by (simp_all add: RVBI1_MAGIC_def RVBM1_MAGIC_def RVBC1_MAGIC_def RVBE1_MAGIC_def
      RVBO1_MAGIC_def RVCH1_MAGIC_def)

section \<open>RVCH1: the composite ratchet header\<close>

record rvch1 =
  ch_ec_dh_pub :: bytes
  ch_ec_pn :: int
  ch_ec_n :: int
  ch_scka_epoch :: int
  ch_scka_pn :: int
  ch_scka_n :: int
  ch_direction :: int

definition encode_rvch1 :: "rvch1 \<Rightarrow> bytes res" where
  "encode_rvch1 value =
     (if length (ch_ec_dh_pub value) \<noteq> 32 then Inl (ValueError ''rvch1 ec_dh_pub'')
      else if ch_direction value \<notin> {0, 1} then Inl (ValueError ''rvch1 direction'')
      else bindE (joinE [Inr RVCH1_MAGIC, u16be RVCH1_SCHEMA, Inr (ch_ec_dh_pub value),
                         u32be (ch_ec_pn value), u32be (ch_ec_n value), u64be (ch_scka_epoch value),
                         u32be (ch_scka_pn value), u32be (ch_scka_n value),
                         Inr (u8 (ch_direction value)), Inr (u8 0)]) (\<lambda>out.
        if length out \<noteq> RVCH1_LEN then Inl (AssertionError ''rvch1 length'') else Inr out))"

definition decode_rvch1 :: "bytes \<Rightarrow> rvch1 res" where
  "decode_rvch1 data =
     (if length data \<noteq> RVCH1_LEN then Inl (ValueError ''rvch1 bad length'')
      else bindE (expect_magic data RVCH1_MAGIC) (\<lambda>_.
        let r = mk_reader data 8 in
        bindE (read_u16be r) (\<lambda>(schema, r).
        if schema \<noteq> RVCH1_SCHEMA then Inl (ValueError ''rvch1 bad schema'')
        else bindE (read_array32 r) (\<lambda>(ec_dh_pub, r).
        bindE (read_u32be r) (\<lambda>(ec_pn, r).
        bindE (read_u32be r) (\<lambda>(ec_n, r).
        bindE (read_u64be r) (\<lambda>(scka_epoch, r).
        bindE (read_u32be r) (\<lambda>(scka_pn, r).
        bindE (read_u32be r) (\<lambda>(scka_n, r).
        bindE (read_u8 r) (\<lambda>(direction, r).
        bindE (read_u8 r) (\<lambda>(reserved0, r).
        if reserved0 \<noteq> 0 then Inl (ValueError ''rvch1 reserved0'')
        else bindE (reject_trailing data (wr_off r)) (\<lambda>_.
        Inr \<lparr>ch_ec_dh_pub = ec_dh_pub, ch_ec_pn = ec_pn, ch_ec_n = ec_n,
             ch_scka_epoch = scka_epoch, ch_scka_pn = scka_pn, ch_scka_n = scka_n,
             ch_direction = direction\<rparr>))))))))))))"

definition rvch1_fields_fit :: "rvch1 \<Rightarrow> bool" where
  "rvch1_fields_fit v \<longleftrightarrow> length (ch_ec_dh_pub v) = 32 \<and> uint_fits 4 (ch_ec_pn v) \<and>
     uint_fits 4 (ch_ec_n v) \<and> uint_fits 8 (ch_scka_epoch v) \<and> uint_fits 4 (ch_scka_pn v) \<and>
     uint_fits 4 (ch_scka_n v) \<and> byte_fits (ch_direction v)"

definition rvch1_wire :: "rvch1 \<Rightarrow> bytes" where
  "rvch1_wire v = RVCH1_MAGIC @ be_bytes 2 RVCH1_SCHEMA @ ch_ec_dh_pub v @ be_bytes 4 (ch_ec_pn v) @
     be_bytes 4 (ch_ec_n v) @ be_bytes 8 (ch_scka_epoch v) @ be_bytes 4 (ch_scka_pn v) @
     be_bytes 4 (ch_scka_n v) @ u8 (ch_direction v) @ u8 0"

lemma length_rvch1_wire [simp]: "length (ch_ec_dh_pub v) = 32 \<Longrightarrow> length (rvch1_wire v) = 68"
  by (simp add: rvch1_wire_def)

lemma encode_rvch1_iff: "encode_rvch1 v = Inr bs \<longleftrightarrow>
    rvch1_fields_fit v \<and> ch_direction v \<in> {0, 1} \<and> bs = rvch1_wire v"
  by (auto simp: encode_rvch1_def rvch1_fields_fit_def rvch1_wire_def bindE_eq_Inr write_iffs
      wire_consts)

lemma decode_rvch1_wire: "rvch1_fields_fit v \<Longrightarrow> decode_rvch1 (rvch1_wire v) = Inr v"
  unfolding decode_rvch1_def rvch1_wire_def
  by (simp add: rvch1_fields_fit_def Let_def mk_reader_magic read_fwd wire_consts u8_Cons reject_trailing_def)

lemma decode_rvch1_dest: "decode_rvch1 bs = Inr v \<Longrightarrow> rvch1_fields_fit v \<and> bs = rvch1_wire v"
  by (auto simp: decode_rvch1_def bindE_eq_Inr expect_magic_iff mk_reader_magic read_dest
      reject_trailing_iff wire_consts rvch1_fields_fit_def rvch1_wire_def u8_Cons split: if_splits)

section \<open>Trust evidence and RVBM1: the AEAD mutation\<close>

record admitted_trust =
  initiator_cert_digest :: bytes
  initiator_identity_pub :: bytes
  responder_cert_digest :: bytes
  responder_identity_pub :: bytes

definition lab_default :: admitted_trust where
  "lab_default =
     \<lparr>initiator_cert_digest = replicate 32 0x21, initiator_identity_pub = replicate 32 0x22,
      responder_cert_digest = replicate 32 0x31, responder_identity_pub = replicate 32 0x32\<rparr>"

definition trust_wire :: "admitted_trust \<Rightarrow> bytes" where
  "trust_wire t = initiator_cert_digest t @ initiator_identity_pub t @ responder_cert_digest t @
     responder_identity_pub t"

definition encode_trust :: "admitted_trust \<Rightarrow> bytes res" where
  "encode_trust t =
     (if length (trust_wire t) \<noteq> ADMITTED_TRUST_LEN
      then Inl (ValueError ''admitted_trust must be 128 bytes'') else Inr (trust_wire t))"

record rvbm1 =
  bm_needs_aead :: int
  bm_ec_mk_oracle_len :: int
  bm_ec_mk_oracle :: bytes
  bm_aad :: bytes
  bm_mode :: int
  bm_body :: bytes
  bm_expected_ct :: "bytes option"

definition no_aead :: rvbm1 where
  "no_aead = \<lparr>bm_needs_aead = 0, bm_ec_mk_oracle_len = 0, bm_ec_mk_oracle = zeros 32, bm_aad = [],
     bm_mode = 0, bm_body = [], bm_expected_ct = None\<rparr>"

definition validate_rvbm1_contract :: "rvbm1 \<Rightarrow> unit res" where
  "validate_rvbm1_contract b =
     (if bm_needs_aead b > 1 then Inl (ValueError ''rvbm1 needs_aead'')
      else if bm_needs_aead b = 0 then
        (if bm_ec_mk_oracle_len b \<noteq> 0 \<or> bm_ec_mk_oracle b \<noteq> zeros 32 \<or> bm_aad b \<noteq> [] \<or>
            bm_mode b \<noteq> 0 \<or> bm_body b \<noteq> [] \<or> bm_expected_ct b \<noteq> None
         then Inl (ValueError ''rvbm1 needs_aead=0 contract'') else Inr ())
      else if bm_ec_mk_oracle_len b \<notin> {0, 32} then Inl (ValueError ''rvbm1 oracle_len'')
      else if length (bm_aad b) \<noteq> RVBA1_LEN then Inl (ValueError ''rvbm1 aad_len'')
      else if bm_mode b > 1 then Inl (ValueError ''rvbm1 mode'')
      else if bm_mode b = MODE_SEAL_COMPARE then
        (if length (bm_body b) > BRAID_MAX_AEAD_PLAINTEXT_BYTES then Inl (ValueError ''rvbm1 body_len'')
         else case bm_expected_ct b of
             None \<Rightarrow> Inl (ValueError ''rvbm1 missing expected_ct'')
           | Some ct \<Rightarrow> if length ct \<noteq> length (bm_body b) + 16
                        then Inl (ValueError ''rvbm1 expected_ct_len'') else Inr ())
      else if bm_mode b = MODE_OPEN then
        (if \<not> (BRAID_MIN_AEAD_CIPHERTEXT_BYTES \<le> length (bm_body b) \<and>
                length (bm_body b) \<le> BRAID_MAX_AEAD_CIPHERTEXT_BYTES)
         then Inl (ValueError ''rvbm1 body_len'')
         else if bm_expected_ct b \<noteq> None then Inl (ValueError ''rvbm1 unexpected expected_ct'')
         else Inr ())
      else Inl (ValueError ''rvbm1 mode''))"

definition encode_rvbm1 :: "rvbm1 \<Rightarrow> bytes res" where
  "encode_rvbm1 b = bindE (validate_rvbm1_contract b) (\<lambda>_.
     joinE [Inr RVBM1_MAGIC, u16be RVBM1_SCHEMA, Inr (u8 (bm_needs_aead b)), Inr (u8 0),
            u16be (bm_ec_mk_oracle_len b), Inr (bm_ec_mk_oracle b), u16be (int (length (bm_aad b))),
            Inr (bm_aad b), Inr (u8 (bm_mode b)), u32be (int (length (bm_body b))), Inr (bm_body b),
            if bm_needs_aead b = 1 \<and> bm_mode b = MODE_SEAL_COMPARE then
              (case bm_expected_ct b of
                 None \<Rightarrow> Inl (AssertionError ''expected_ct is not None'')
               | Some ct \<Rightarrow> joinE [u32be (int (length ct)), Inr ct])
            else Inr []])"

definition decode_rvbm1 :: "bytes \<Rightarrow> rvbm1 res" where
  "decode_rvbm1 data = bindE (expect_magic data RVBM1_MAGIC) (\<lambda>_.
     let r = mk_reader data 8 in
     bindE (read_u16be r) (\<lambda>(schema, r).
     if schema \<noteq> RVBM1_SCHEMA then Inl (ValueError ''rvbm1 bad schema'')
     else bindE (read_u8 r) (\<lambda>(needs, r).
     bindE (read_u8 r) (\<lambda>(reserved0, r).
     if reserved0 \<noteq> 0 then Inl (ValueError ''rvbm1 reserved0'')
     else bindE (read_u16be r) (\<lambda>(oracle_len, r).
     bindE (read_bytes 32 r) (\<lambda>(oracle, r).
     bindE (read_u16be r) (\<lambda>(aad_len, r).
     bindE (read_bytes aad_len r) (\<lambda>(aad, r).
     bindE (read_u8 r) (\<lambda>(mode, r).
     bindE (read_u32be r) (\<lambda>(body_len, r).
     bindE (read_bytes body_len r) (\<lambda>(body, r).
     bindE (if needs = 1 \<and> mode = MODE_SEAL_COMPARE
            then bindE (read_u32be r) (\<lambda>(ct_len, r).
                 bindE (read_bytes ct_len r) (\<lambda>(ct, r). Inr (Some ct, r)))
            else Inr (None, r)) (\<lambda>(expected_ct, r).
     bindE (reject_trailing data (wr_off r)) (\<lambda>_.
     let parsed = \<lparr>bm_needs_aead = needs, bm_ec_mk_oracle_len = oracle_len, bm_ec_mk_oracle = oracle,
                   bm_aad = aad, bm_mode = mode, bm_body = body, bm_expected_ct = expected_ct\<rparr>
     in bindE (validate_rvbm1_contract parsed) (\<lambda>_. Inr parsed))))))))))))))"

definition rvbm1_fields_fit :: "rvbm1 \<Rightarrow> bool" where
  "rvbm1_fields_fit b \<longleftrightarrow> byte_fits (bm_needs_aead b) \<and> byte_fits (bm_mode b) \<and>
     length (bm_ec_mk_oracle b) = 32"

definition rvbm1_wire :: "rvbm1 \<Rightarrow> bytes" where
  "rvbm1_wire b = RVBM1_MAGIC @ be_bytes 2 RVBM1_SCHEMA @ u8 (bm_needs_aead b) @ u8 0 @
     be_bytes 2 (bm_ec_mk_oracle_len b) @ bm_ec_mk_oracle b @ be_bytes 2 (int (length (bm_aad b))) @
     bm_aad b @ u8 (bm_mode b) @ be_bytes 4 (int (length (bm_body b))) @ bm_body b @
     (case bm_expected_ct b of
        Some ct \<Rightarrow> be_bytes 4 (int (length ct)) @ ct | None \<Rightarrow> [])"

lemma validate_rvbm1_iff: "validate_rvbm1_contract b = Inr u \<longleftrightarrow>
    b = \<lparr>bm_needs_aead = 0, bm_ec_mk_oracle_len = 0, bm_ec_mk_oracle = zeros 32, bm_aad = [],
         bm_mode = 0, bm_body = [], bm_expected_ct = None\<rparr> \<or>
    bm_needs_aead b \<le> 1 \<and> bm_needs_aead b \<noteq> 0 \<and> bm_ec_mk_oracle_len b \<in> {0, 32} \<and>
    length (bm_aad b) = 176 \<and>
    (bm_mode b = 0 \<and> length (bm_body b) \<le> 8192 \<and>
       (\<exists>ct. bm_expected_ct b = Some ct \<and> length ct = length (bm_body b) + 16) \<or>
     bm_mode b = 1 \<and> 16 \<le> length (bm_body b) \<and> length (bm_body b) \<le> 8208 \<and> bm_expected_ct b = None)"
  by (cases b) (auto simp: validate_rvbm1_contract_def wire_consts split: option.splits)

lemma encode_rvbm1_iff: "rvbm1_fields_fit b \<Longrightarrow> encode_rvbm1 b = Inr bs \<longleftrightarrow>
    validate_rvbm1_contract b = Inr () \<and> bs = rvbm1_wire b"
  by (auto simp: encode_rvbm1_def bindE_eq_Inr validate_rvbm1_iff rvbm1_wire_def write_iffs
      rvbm1_fields_fit_def byte_fits_def uint_fits_def wire_consts)

lemma encode_rvbm1_fwd: "rvbm1_fields_fit b \<Longrightarrow> validate_rvbm1_contract b = Inr () \<Longrightarrow>
    encode_rvbm1 b = Inr (rvbm1_wire b)"
  by (simp add: encode_rvbm1_iff)

lemma decode_rvbm1_wire:
  "rvbm1_fields_fit b \<Longrightarrow> validate_rvbm1_contract b = Inr () \<Longrightarrow> decode_rvbm1 (rvbm1_wire b) = Inr b"
  unfolding decode_rvbm1_def rvbm1_wire_def
  by (cases b, frule validate_rvbm1_iff[THEN iffD1])
     (auto simp: rvbm1_fields_fit_def byte_fits_def uint_fits_def Let_def mk_reader_magic read_fwd
       wire_consts u8_Cons reject_trailing_def)

lemma decode_rvbm1_dest: "decode_rvbm1 bs = Inr b \<Longrightarrow>
    rvbm1_fields_fit b \<and> validate_rvbm1_contract b = Inr () \<and> bs = rvbm1_wire b"
  by (auto simp: decode_rvbm1_def bindE_eq_Inr expect_magic_iff mk_reader_magic read_dest
      reject_trailing_iff wire_consts rvbm1_fields_fit_def rvbm1_wire_def u8_Cons Let_def
      split: if_splits)

section \<open>RVBC1: a chunk frame\<close>

record rvbc1 =
  bc_epoch :: int
  bc_chunk_type :: int
  bc_index :: int
  bc_payload :: bytes
  bc_binding :: bytes

definition encoded_len :: "rvbc1 \<Rightarrow> nat" where
  "encoded_len c = RVBC1_HEADER_LEN + length (bc_payload c) + 32"

definition encode_rvbc1 :: "rvbc1 \<Rightarrow> bytes res" where
  "encode_rvbc1 c =
     (if length (bc_payload c) > RVBC1_MAX_PAYLOAD then Inl (ValueError ''rvbc1 payload too large'')
      else if \<not> (RVBC1_MIN_LEN \<le> encoded_len c \<and> encoded_len c \<le> RVBC1_MAX_LEN)
      then Inl (ValueError ''rvbc1 length out of range'')
      else if length (bc_binding c) \<noteq> 32 then Inl (ValueError ''binding must be 32'')
      else joinE [Inr RVBC1_MAGIC, u64be (bc_epoch c), Inr (u8 (bc_chunk_type c)), u32be (bc_index c),
                  u16be (int (length (bc_payload c))), Inr (bc_payload c), Inr (bc_binding c)])"

definition decode_rvbc1 :: "bytes \<Rightarrow> rvbc1 res" where
  "decode_rvbc1 data =
     (if \<not> (RVBC1_MIN_LEN \<le> length data \<and> length data \<le> RVBC1_MAX_LEN)
      then Inl (ValueError ''rvbc1 length out of range'')
      else bindE (expect_magic data RVBC1_MAGIC) (\<lambda>_.
        let r = mk_reader data 8 in
        bindE (read_u64be r) (\<lambda>(epoch, r).
        bindE (read_u8 r) (\<lambda>(chunk_type, r).
        bindE (read_u32be r) (\<lambda>(index, r).
        bindE (read_u16be r) (\<lambda>(plen, r).
        bindE (read_bytes plen r) (\<lambda>(payload, r).
        bindE (read_array32 r) (\<lambda>(binding, r).
        bindE (reject_trailing data (wr_off r)) (\<lambda>_.
        Inr \<lparr>bc_epoch = epoch, bc_chunk_type = chunk_type, bc_index = index, bc_payload = payload,
             bc_binding = binding\<rparr>)))))))))"

definition wf_rvbc1 :: "rvbc1 \<Rightarrow> bool" where
  "wf_rvbc1 c \<longleftrightarrow> uint_fits 8 (bc_epoch c) \<and> byte_fits (bc_chunk_type c) \<and> uint_fits 4 (bc_index c) \<and>
     length (bc_payload c) \<le> 8192 \<and> length (bc_binding c) = 32"

definition rvbc1_wire :: "rvbc1 \<Rightarrow> bytes" where
  "rvbc1_wire c = RVBC1_MAGIC @ be_bytes 8 (bc_epoch c) @ u8 (bc_chunk_type c) @
     be_bytes 4 (bc_index c) @ be_bytes 2 (int (length (bc_payload c))) @ bc_payload c @ bc_binding c"

lemma length_rvbc1_wire: "length (bc_binding c) = 32 \<Longrightarrow> length (rvbc1_wire c) = 55 + length (bc_payload c)"
  by (simp add: rvbc1_wire_def)

lemma encode_rvbc1_iff: "byte_fits (bc_chunk_type c) \<Longrightarrow>
    encode_rvbc1 c = Inr bs \<longleftrightarrow> wf_rvbc1 c \<and> bs = rvbc1_wire c"
  by (auto simp: encode_rvbc1_def wf_rvbc1_def rvbc1_wire_def encoded_len_def bindE_eq_Inr
      write_iffs wire_consts uint_fits_def)

lemma decode_rvbc1_wire: "wf_rvbc1 c \<Longrightarrow> decode_rvbc1 (rvbc1_wire c) = Inr c"
  unfolding decode_rvbc1_def rvbc1_wire_def
  by (simp add: wf_rvbc1_def Let_def mk_reader_magic read_fwd wire_consts u8_Cons
      reject_trailing_def uint_fits_length)

lemma decode_rvbc1_dest: "decode_rvbc1 bs = Inr c \<Longrightarrow> wf_rvbc1 c \<and> bs = rvbc1_wire c"
  by (auto simp: decode_rvbc1_def bindE_eq_Inr expect_magic_iff mk_reader_magic read_dest
      reject_trailing_iff wire_consts wf_rvbc1_def rvbc1_wire_def u8_Cons Let_def split: if_splits)

section \<open>RVBI1: the transition input\<close>

record rvbi1 =
  bi_op :: int
  bi_direction :: int
  bi_ch :: "rvch1 option"
  bi_expected_ch :: "rvch1 option"
  bi_object_digest :: "bytes option"
  bi_frame :: "bytes option"
  bi_mutation :: rvbm1

definition validate_rvbi1_contract :: "rvbi1 \<Rightarrow> unit res" where
  "validate_rvbi1_contract i =
     (if bi_op i > OP_RECEIVE then Inl (ValueError ''rvbi1 op'')
      else if bi_op i = OP_SEND then
        (if bi_ch i \<noteq> None \<or> bi_expected_ch i \<noteq> None \<or> bi_object_digest i \<noteq> None \<or> bi_frame i \<noteq> None
         then Inl (ValueError ''rvbi1 send field contract'') else Inr ())
      else if bi_op i = OP_RECEIVE then
        (if bi_frame i = None then Inl (ValueError ''rvbi1 receive missing frame'')
         else if bm_needs_aead (bi_mutation i) = 1 then
           (if bi_ch i = None \<or> bi_object_digest i = None
            then Inl (ValueError ''rvbi1 receive aead contract'') else Inr ())
         else if bi_ch i \<noteq> None \<or> bi_object_digest i = None
         then Inl (ValueError ''rvbi1 receive no-aead contract'') else Inr ())
      else Inr ())"

definition encode_opt_rvch1 :: "rvch1 option \<Rightarrow> bytes res" where
  "encode_opt_rvch1 c = (case c of None \<Rightarrow> Inr (u8 0 @ u8 0)
     | Some ch \<Rightarrow> joinE [Inr (u8 1 @ u8 0), encode_rvch1 ch])"

definition encode_rvbi1 :: "rvbi1 \<Rightarrow> bytes res" where
  "encode_rvbi1 i = bindE (validate_rvbi1_contract i) (\<lambda>_.
     joinE [Inr RVBI1_MAGIC, u16be RVBI1_SCHEMA, Inr (u8 (bi_op i)), Inr (u8 (bi_direction i)), u16be 0,
            encode_opt_rvch1 (bi_ch i), encode_opt_rvch1 (bi_expected_ch i),
            (case bi_object_digest i of None \<Rightarrow> Inr (u8 0 @ u8 0)
             | Some d \<Rightarrow> if length d \<noteq> 32 then Inl (ValueError ''rvbi1 object_digest'')
                         else Inr (u8 1 @ u8 0 @ d)),
            (if bi_op i = OP_RECEIVE then
               (case bi_frame i of None \<Rightarrow> Inl (AssertionError ''frame is not None'')
                | Some f \<Rightarrow> bindE (decode_rvbc1 f) (\<lambda>_. joinE [u32be (int (length f)), Inr f]))
             else Inr []),
            encode_rvbm1 (bi_mutation i)])"

text \<open>The three optional fields are read the same way: a presence byte, a reserved byte, a body.\<close>

definition read_optional :: "string \<Rightarrow> string \<Rightarrow> (wire_reader \<Rightarrow> ('a \<times> wire_reader) res) \<Rightarrow>
    wire_reader \<Rightarrow> ('a option \<times> wire_reader) res" where
  "read_optional reserved_msg present_msg f r =
     bindE (read_u8 r) (\<lambda>(present, r).
     bindE (read_u8 r) (\<lambda>(reserved, r).
     if reserved \<noteq> 0 then Inl (ValueError reserved_msg)
     else if present = 1 then bindE (f r) (\<lambda>(x, r). Inr (Some x, r))
     else if present = 0 then Inr (None, r)
     else Inl (ValueError present_msg)))"

definition read_rvch1 :: "wire_reader \<Rightarrow> (rvch1 \<times> wire_reader) res" where
  "read_rvch1 r = bindE (read_bytes (int RVCH1_LEN) r) (\<lambda>(b, r). bindE (decode_rvch1 b) (\<lambda>c. Inr (c, r)))"

definition read_frame :: "wire_reader \<Rightarrow> (bytes \<times> wire_reader) res" where
  "read_frame r =
     bindE (read_u32be r) (\<lambda>(frame_len, r).
     if frame_len = 0 then Inl (ValueError ''rvbi1 frame_len zero'')
     else if \<not> (int RVBC1_MIN_LEN \<le> frame_len \<and> frame_len \<le> int RVBC1_MAX_LEN)
     then Inl (ValueError ''rvbi1 frame_len range'')
     else bindE (read_bytes frame_len r) (\<lambda>(frame_bytes, r).
          bindE (decode_rvbc1 frame_bytes) (\<lambda>_. Inr (frame_bytes, r))))"

definition decode_rvbi1 :: "bytes \<Rightarrow> rvbi1 res" where
  "decode_rvbi1 data = bindE (expect_magic data RVBI1_MAGIC) (\<lambda>_.
     let r = mk_reader data 8 in
     bindE (read_u16be r) (\<lambda>(schema, r).
     if schema \<noteq> RVBI1_SCHEMA then Inl (ValueError ''rvbi1 bad schema'')
     else bindE (read_u8 r) (\<lambda>(op, r).
     bindE (read_u8 r) (\<lambda>(direction, r).
     bindE (read_u16be r) (\<lambda>(reserved0, r).
     if reserved0 \<noteq> 0 then Inl (ValueError ''rvbi1 reserved0'')
     else bindE (read_optional ''rvbi1 reserved1'' ''rvbi1 ch_present'' read_rvch1 r) (\<lambda>(ch, r).
     bindE (read_optional ''rvbi1 reserved2'' ''rvbi1 expected_ch_present'' read_rvch1 r) (\<lambda>(expected_ch, r).
     bindE (read_optional ''rvbi1 reserved3'' ''rvbi1 object_digest_present'' read_array32 r) (\<lambda>(od, r).
     bindE (if op = OP_RECEIVE then bindE (read_frame r) (\<lambda>(f, r). Inr (Some f, r))
            else Inr (None, r)) (\<lambda>(frame, r).
     let mutation_off = wr_off r in
     bindE (decode_rvbm1 (drop mutation_off data)) (\<lambda>mutation.
     bindE (encode_rvbm1 mutation) (\<lambda>m.
     bindE (reject_trailing data (mutation_off + length m)) (\<lambda>_.
     let inp = \<lparr>bi_op = op, bi_direction = direction, bi_ch = ch, bi_expected_ch = expected_ch,
                bi_object_digest = od, bi_frame = frame, bi_mutation = mutation\<rparr>
     in bindE (validate_rvbi1_contract inp) (\<lambda>_. Inr inp)))))))))))))"

definition opt_wire :: "('a \<Rightarrow> bytes) \<Rightarrow> 'a option \<Rightarrow> bytes" where
  "opt_wire f x = (case x of None \<Rightarrow> u8 0 @ u8 0 | Some y \<Rightarrow> u8 1 @ u8 0 @ f y)"

text \<open>An optional field over a codec is a codec.\<close>

locale optional_field = codec wf enc dec
  for wf :: "'a \<Rightarrow> bool" and enc and dec +
  fixes reserved_msg present_msg :: string
begin

lemma optional_fwd: "pred_option wf x \<Longrightarrow>
    read_optional reserved_msg present_msg dec (rd p (opt_wire enc x @ t)) = Inr (x, rd (p @ opt_wire enc x) t)"
  by (cases x) (simp_all add: read_optional_def opt_wire_def u8_Cons dec_enc)

lemma optional_dest: "read_optional reserved_msg present_msg dec (rd p s) = Inr (x, r) \<Longrightarrow>
    \<exists>t. pred_option wf x \<and> s = opt_wire enc x @ t \<and> r = rd (p @ opt_wire enc x) t"
  by (auto simp: read_optional_def opt_wire_def u8_Cons bindE_eq_Inr read_u8_dest
      dest!: dec_dest split: if_splits)

end

sublocale optional_field \<subseteq> opt: codec "pred_option wf" "opt_wire enc"
    "read_optional reserved_msg present_msg dec"
  by (rule codecI) (erule optional_fwd, erule optional_dest)

interpretation ch: codec rvch1_fields_fit rvch1_wire read_rvch1
proof (rule codecI)
  fix p x t
  assume "rvch1_fields_fit x"
  then show "read_rvch1 (rd p (rvch1_wire x @ t)) = Inr (x, rd (p @ rvch1_wire x) t)"
    by (simp add: read_rvch1_def read_fwd wire_consts decode_rvch1_wire rvch1_fields_fit_def)
next
  fix p s x r
  assume "read_rvch1 (rd p s) = Inr (x, r)"
  then show "\<exists>t. rvch1_fields_fit x \<and> s = rvch1_wire x @ t \<and> r = rd (p @ rvch1_wire x) t"
    by (auto simp: read_rvch1_def bindE_eq_Inr read_dest dest!: decode_rvch1_dest)
qed

definition frame_wire :: "bytes \<Rightarrow> bytes" where
  "frame_wire f = be_bytes 4 (int (length f)) @ f"

definition wf_frame :: "bytes \<Rightarrow> bool" where
  "wf_frame f \<longleftrightarrow> (\<exists>c. wf_rvbc1 c \<and> f = rvbc1_wire c)"

lemma wf_frame_len: "wf_frame f \<Longrightarrow> 55 \<le> length f \<and> length f \<le> 8247"
  by (auto simp: wf_frame_def wf_rvbc1_def length_rvbc1_wire)

interpretation frame: codec wf_frame frame_wire read_frame
proof (rule codecI)
  fix p x t
  assume wf: "wf_frame x"
  then obtain c where "decode_rvbc1 x = Inr c"
    by (auto simp: wf_frame_def decode_rvbc1_wire)
  then show "read_frame (rd p (frame_wire x @ t)) = Inr (x, rd (p @ frame_wire x) t)"
    using wf_frame_len[OF wf] by (auto simp: read_frame_def frame_wire_def read_fwd uint_fits_def wire_consts)
next
  fix p s x r
  assume "read_frame (rd p s) = Inr (x, r)"
  then show "\<exists>t. wf_frame x \<and> s = frame_wire x @ t \<and> r = rd (p @ frame_wire x) t"
    by (auto simp: read_frame_def frame_wire_def wf_frame_def bindE_eq_Inr read_dest
        dest!: decode_rvbc1_dest split: if_splits)
qed

definition rvbi1_fields_fit :: "rvbi1 \<Rightarrow> bool" where
  "rvbi1_fields_fit i \<longleftrightarrow> byte_fits (bi_op i) \<and> byte_fits (bi_direction i) \<and>
     pred_option rvch1_fields_fit (bi_ch i) \<and> pred_option rvch1_fields_fit (bi_expected_ch i) \<and>
     pred_option (\<lambda>d. length d = 32) (bi_object_digest i) \<and>
     pred_option wf_frame (bi_frame i) \<and>
     (bi_frame i \<noteq> None \<longleftrightarrow> bi_op i = 1) \<and> rvbm1_fields_fit (bi_mutation i) \<and>
     validate_rvbm1_contract (bi_mutation i) = Inr () \<and> validate_rvbi1_contract i = Inr ()"

definition rvbi1_wire :: "rvbi1 \<Rightarrow> bytes" where
  "rvbi1_wire i = RVBI1_MAGIC @ be_bytes 2 RVBI1_SCHEMA @ u8 (bi_op i) @ u8 (bi_direction i) @
     be_bytes 2 0 @ opt_wire rvch1_wire (bi_ch i) @ opt_wire rvch1_wire (bi_expected_ch i) @
     opt_wire (\<lambda>d. d) (bi_object_digest i) @
     (case bi_frame i of None \<Rightarrow> [] | Some f \<Rightarrow> frame_wire f) @
     rvbm1_wire (bi_mutation i)"

interpretation ch_field: optional_field rvch1_fields_fit rvch1_wire read_rvch1 m1 m2 for m1 m2
  by unfold_locales

interpretation od_field: optional_field "\<lambda>x. length x = 32" "\<lambda>x. x" read_array32 m1 m2 for m1 m2
  by unfold_locales

lemma encode_opt_rvch1_iff: "encode_opt_rvch1 c = Inr bs \<longleftrightarrow>
    pred_option (\<lambda>c. rvch1_fields_fit c \<and> ch_direction c \<in> {0, 1}) c \<and> bs = opt_wire rvch1_wire c"
  by (cases c) (auto simp: encode_opt_rvch1_def opt_wire_def bindE_eq_Inr encode_rvch1_iff)

lemma decode_rvbi1_wire: "rvbi1_fields_fit i \<Longrightarrow> decode_rvbi1 (rvbi1_wire i) = Inr i"
  unfolding decode_rvbi1_def rvbi1_wire_def
  by (cases i, cases "bi_frame i")
     (simp_all add: rvbi1_fields_fit_def Let_def mk_reader_magic read_fwd wire_consts u8_Cons
       ch_field.opt.dec_enc od_field.opt.dec_enc frame.dec_enc decode_rvbm1_wire encode_rvbm1_fwd
       reject_trailing_def)

lemma decode_rvbi1_dest: "decode_rvbi1 bs = Inr i \<Longrightarrow> rvbi1_fields_fit i \<and> bs = rvbi1_wire i"
  by (auto simp: decode_rvbi1_def bindE_eq_Inr expect_magic_iff mk_reader_magic read_dest
      reject_trailing_iff wire_consts rvbi1_fields_fit_def rvbi1_wire_def u8_Cons Let_def
      dest!: ch_field.opt.dec_dest od_field.opt.dec_dest frame.dec_dest decode_rvbm1_dest
      split: if_splits)

lemma encode_rvbi1_iff:
  assumes "byte_fits (bi_op i)" "byte_fits (bi_direction i)" "rvbm1_fields_fit (bi_mutation i)"
  shows "encode_rvbi1 i = Inr bs \<longleftrightarrow> rvbi1_fields_fit i \<and>
    pred_option (\<lambda>c. ch_direction c \<in> {0, 1}) (bi_ch i) \<and>
    pred_option (\<lambda>c. ch_direction c \<in> {0, 1}) (bi_expected_ch i) \<and> bs = rvbi1_wire i"
proof (cases "bi_frame i")
  case None
  then show ?thesis using assms
    by (cases "bi_object_digest i"; cases "bi_ch i"; cases "bi_expected_ch i")
       (auto simp: encode_rvbi1_def bindE_eq_Inr validate_rvbi1_contract_def rvbi1_fields_fit_def
         rvbi1_wire_def write_iffs encode_opt_rvch1_iff opt_wire_def encode_rvbm1_iff wire_consts
         byte_fits_def split: if_splits)
next
  case (Some f)
  then have "bi_op i = 0 \<Longrightarrow> encode_rvbi1 i \<noteq> Inr bs" "bi_op i = 0 \<Longrightarrow> \<not> rvbi1_fields_fit i"
    by (simp_all add: encode_rvbi1_def validate_rvbi1_contract_def wire_consts rvbi1_fields_fit_def)
  moreover have "wf_frame f \<and> uint_fits 4 (int (length f))" if "decode_rvbc1 f = Inr c" for c
  proof -
    have "wf_frame f" using decode_rvbc1_dest[OF that] by (auto simp: wf_frame_def)
    then show ?thesis using wf_frame_len[of f] by (simp add: uint_fits_def)
  qed
  moreover have "wf_frame f \<Longrightarrow> \<exists>c. decode_rvbc1 f = Inr c"
    by (auto simp: wf_frame_def decode_rvbc1_wire)
  ultimately show ?thesis using Some assms
    by (cases "bi_op i = 0"; cases "bi_object_digest i"; cases "bi_ch i"; cases "bi_expected_ch i")
       (auto simp: encode_rvbi1_def bindE_eq_Inr validate_rvbi1_contract_def rvbi1_fields_fit_def
         rvbi1_wire_def write_iffs encode_opt_rvch1_iff opt_wire_def encode_rvbm1_iff wire_consts
         byte_fits_def frame_wire_def split: if_splits)
qed

section \<open>RVBE1: the transition environment\<close>

record rvbe1 =
  be_clock :: int
  be_cap_payload :: int
  be_cap_chunks :: int
  be_cap_state :: int
  be_cap_replay_entries :: int
  be_cap_replay_bytes :: int
  be_keygen_seed :: bytes
  be_encaps_coins :: bytes
  be_ec_dh_seed :: bytes
  be_admitted_trust :: "admitted_trust option"

definition default_caps :: "int \<Rightarrow> rvbe1" where
  "default_caps clock = \<lparr>be_clock = clock, be_cap_payload = BRAID_MAX_PAYLOAD,
     be_cap_chunks = BRAID_MAX_CHUNKS_PER_EPOCH, be_cap_state = BRAID_MAX_CANONICAL_STATE_BYTES,
     be_cap_replay_entries = BRAID_MAX_REPLAY_ENTRIES, be_cap_replay_bytes = BRAID_MAX_REPLAY_BYTES,
     be_keygen_seed = [], be_encaps_coins = [], be_ec_dh_seed = [], be_admitted_trust = None\<rparr>"

definition with_lab_trust :: "rvbe1 \<Rightarrow> rvbe1" where
  "with_lab_trust e = e\<lparr>be_admitted_trust := Some lab_default\<rparr>"

definition validate_rvbe1_seed_lens :: "rvbe1 \<Rightarrow> unit res" where
  "validate_rvbe1_seed_lens env =
     (if length (be_keygen_seed env) \<notin> {0, 64} then Inl (ValueError ''rvbe1 keygen_seed len'')
      else if length (be_encaps_coins env) \<notin> {0, 32} then Inl (ValueError ''rvbe1 encaps_coins len'')
      else if length (be_ec_dh_seed env) \<notin> {0, 32} then Inl (ValueError ''rvbe1 ec_dh_seed len'')
      else Inr ())"

definition validate_rvbe1_caps :: "rvbe1 \<Rightarrow> unit res" where
  "validate_rvbe1_caps env =
     (if be_cap_payload env > BRAID_MAX_PAYLOAD then Inl (ValueError ''rvbe1 cap_payload'')
      else if be_cap_chunks env > BRAID_MAX_CHUNKS_PER_EPOCH then Inl (ValueError ''rvbe1 cap_chunks'')
      else if be_cap_state env > BRAID_MAX_CANONICAL_STATE_BYTES then Inl (ValueError ''rvbe1 cap_state'')
      else if be_cap_replay_entries env > BRAID_MAX_REPLAY_ENTRIES
      then Inl (ValueError ''rvbe1 cap_replay_entries'')
      else if be_cap_replay_bytes env > BRAID_MAX_REPLAY_BYTES
      then Inl (ValueError ''rvbe1 cap_replay_bytes'')
      else validate_rvbe1_seed_lens env)"

definition encode_rvbe1 :: "rvbe1 \<Rightarrow> bytes res" where
  "encode_rvbe1 env = bindE (validate_rvbe1_caps env) (\<lambda>_.
     joinE [Inr RVBE1_MAGIC, u16be RVBE1_SCHEMA, u64be (be_clock env), u32be (be_cap_payload env),
            u32be (be_cap_chunks env), u32be (be_cap_state env), u32be (be_cap_replay_entries env),
            u32be (be_cap_replay_bytes env), u16be (int (length (be_keygen_seed env))),
            Inr (be_keygen_seed env), u16be (int (length (be_encaps_coins env))),
            Inr (be_encaps_coins env), u16be (int (length (be_ec_dh_seed env))),
            Inr (be_ec_dh_seed env),
            (case be_admitted_trust env of None \<Rightarrow> u16be 0
             | Some t \<Rightarrow> bindE (encode_trust t) (\<lambda>trust. joinE [u16be (int (length trust)), Inr trust])),
            u32be 0])"

definition decode_rvbe1 :: "bytes \<Rightarrow> rvbe1 res" where
  "decode_rvbe1 data = bindE (expect_magic data RVBE1_MAGIC) (\<lambda>_.
     let r = mk_reader data 8 in
     bindE (read_u16be r) (\<lambda>(schema, r).
     if schema \<noteq> RVBE1_SCHEMA then Inl (ValueError ''rvbe1 bad schema'')
     else bindE (read_u64be r) (\<lambda>(clock, r).
     bindE (read_u32be r) (\<lambda>(cap_payload, r).
     bindE (read_u32be r) (\<lambda>(cap_chunks, r).
     bindE (read_u32be r) (\<lambda>(cap_state, r).
     bindE (read_u32be r) (\<lambda>(cap_replay_entries, r).
     bindE (read_u32be r) (\<lambda>(cap_replay_bytes, r).
     bindE (read_u16be r) (\<lambda>(keygen_len, r).
     bindE (read_bytes keygen_len r) (\<lambda>(keygen_seed, r).
     bindE (read_u16be r) (\<lambda>(encaps_len, r).
     bindE (read_bytes encaps_len r) (\<lambda>(encaps_coins, r).
     bindE (read_u16be r) (\<lambda>(dh_len, r).
     bindE (read_bytes dh_len r) (\<lambda>(ec_dh_seed, r).
     bindE (read_u16be r) (\<lambda>(trust_len, r).
     bindE (if trust_len = 0 then Inr (None, r)
            else if trust_len = int ADMITTED_TRUST_LEN then
              bindE (read_bytes (int ADMITTED_TRUST_LEN) r) (\<lambda>(raw, r).
              Inr (Some \<lparr>initiator_cert_digest = slice raw 0 32, initiator_identity_pub = slice raw 32 64,
                         responder_cert_digest = slice raw 64 96, responder_identity_pub = slice raw 96 128\<rparr>, r))
            else Inl (ValueError ''rvbe1 admitted_trust_len'')) (\<lambda>(admitted_trust, r).
     bindE (read_u32be r) (\<lambda>(reserved_tail, r).
     if reserved_tail \<noteq> 0 then Inl (ValueError ''rvbe1 reserved_tail'')
     else bindE (reject_trailing data (wr_off r)) (\<lambda>_.
     let env = \<lparr>be_clock = clock, be_cap_payload = cap_payload, be_cap_chunks = cap_chunks,
                be_cap_state = cap_state, be_cap_replay_entries = cap_replay_entries,
                be_cap_replay_bytes = cap_replay_bytes, be_keygen_seed = keygen_seed,
                be_encaps_coins = encaps_coins, be_ec_dh_seed = ec_dh_seed,
                be_admitted_trust = admitted_trust\<rparr>
     in bindE (validate_rvbe1_caps env) (\<lambda>_. Inr env)))))))))))))))))))"

definition wf_trust :: "admitted_trust \<Rightarrow> bool" where
  "wf_trust t \<longleftrightarrow> length (initiator_cert_digest t) = 32 \<and> length (initiator_identity_pub t) = 32 \<and>
     length (responder_cert_digest t) = 32 \<and> length (responder_identity_pub t) = 32"

definition rvbe1_fields_fit :: "rvbe1 \<Rightarrow> bool" where
  "rvbe1_fields_fit e \<longleftrightarrow> uint_fits 8 (be_clock e) \<and> uint_fits 4 (be_cap_payload e) \<and>
     uint_fits 4 (be_cap_chunks e) \<and> uint_fits 4 (be_cap_state e) \<and>
     uint_fits 4 (be_cap_replay_entries e) \<and> uint_fits 4 (be_cap_replay_bytes e) \<and>
     pred_option wf_trust (be_admitted_trust e) \<and> validate_rvbe1_caps e = Inr ()"

definition rvbe1_wire :: "rvbe1 \<Rightarrow> bytes" where
  "rvbe1_wire e = RVBE1_MAGIC @ be_bytes 2 RVBE1_SCHEMA @ be_bytes 8 (be_clock e) @
     be_bytes 4 (be_cap_payload e) @ be_bytes 4 (be_cap_chunks e) @ be_bytes 4 (be_cap_state e) @
     be_bytes 4 (be_cap_replay_entries e) @ be_bytes 4 (be_cap_replay_bytes e) @
     be_bytes 2 (int (length (be_keygen_seed e))) @ be_keygen_seed e @
     be_bytes 2 (int (length (be_encaps_coins e))) @ be_encaps_coins e @
     be_bytes 2 (int (length (be_ec_dh_seed e))) @ be_ec_dh_seed e @
     (case be_admitted_trust e of None \<Rightarrow> be_bytes 2 0 | Some t \<Rightarrow> be_bytes 2 128 @ trust_wire t) @
     be_bytes 4 0"

lemma validate_rvbe1_caps_iff: "validate_rvbe1_caps e = Inr u \<longleftrightarrow>
    be_cap_payload e \<le> 8192 \<and> be_cap_chunks e \<le> 64 \<and> be_cap_state e \<le> 262144 \<and>
    be_cap_replay_entries e \<le> 64 \<and> be_cap_replay_bytes e \<le> 8192 \<and>
    length (be_keygen_seed e) \<in> {0, 64} \<and> length (be_encaps_coins e) \<in> {0, 32} \<and>
    length (be_ec_dh_seed e) \<in> {0, 32}"
  by (auto simp: validate_rvbe1_caps_def validate_rvbe1_seed_lens_def wire_consts)

lemma length_trust_wire [simp]: "wf_trust t \<Longrightarrow> length (trust_wire t) = 128"
  by (simp add: wf_trust_def trust_wire_def)

lemma slice_trust: "wf_trust t \<Longrightarrow>
    \<lparr>initiator_cert_digest = slice (trust_wire t) 0 32, initiator_identity_pub = slice (trust_wire t) 32 64,
     responder_cert_digest = slice (trust_wire t) 64 96, responder_identity_pub = slice (trust_wire t) 96 128\<rparr> = t"
  by (cases t) (simp add: wf_trust_def trust_wire_def slice_def)

lemma trust_of_raw:
  assumes "length raw = 128"
  shows "wf_trust \<lparr>initiator_cert_digest = slice raw 0 32, initiator_identity_pub = slice raw 32 64,
      responder_cert_digest = slice raw 64 96, responder_identity_pub = slice raw 96 128\<rparr>"
    and "trust_wire \<lparr>initiator_cert_digest = slice raw 0 32, initiator_identity_pub = slice raw 32 64,
      responder_cert_digest = slice raw 64 96, responder_identity_pub = slice raw 96 128\<rparr> = raw"
proof -
  show "wf_trust \<lparr>initiator_cert_digest = slice raw 0 32, initiator_identity_pub = slice raw 32 64,
      responder_cert_digest = slice raw 64 96, responder_identity_pub = slice raw 96 128\<rparr>"
    using assms by (simp add: wf_trust_def slice_def)
  have "take 32 raw @ drop 32 (take 64 raw) @ drop 64 (take 96 raw) @ drop 96 (take 128 raw) = raw"
    using assms by (intro nth_equalityI) (auto simp: nth_append)
  then show "trust_wire \<lparr>initiator_cert_digest = slice raw 0 32, initiator_identity_pub = slice raw 32 64,
      responder_cert_digest = slice raw 64 96, responder_identity_pub = slice raw 96 128\<rparr> = raw"
    by (simp add: trust_wire_def slice_def)
qed

lemma validate_rvbe1_caps_lens: "validate_rvbe1_caps e = Inr u \<Longrightarrow>
    uint_fits 2 (int (length (be_keygen_seed e))) \<and> uint_fits 2 (int (length (be_encaps_coins e))) \<and>
    uint_fits 2 (int (length (be_ec_dh_seed e)))"
  by (auto simp: validate_rvbe1_caps_iff uint_fits_def)

lemma decode_rvbe1_wire: "rvbe1_fields_fit e \<Longrightarrow> decode_rvbe1 (rvbe1_wire e) = Inr e"
  unfolding decode_rvbe1_def rvbe1_wire_def
  using validate_rvbe1_caps_lens[of e "()"]
  by (cases e, cases "be_admitted_trust e")
     (simp_all add: rvbe1_fields_fit_def Let_def mk_reader_magic read_fwd wire_consts slice_trust
       reject_trailing_def)

lemma encode_rvbe1_iff: "pred_option wf_trust (be_admitted_trust e) \<Longrightarrow>
    encode_rvbe1 e = Inr bs \<longleftrightarrow> rvbe1_fields_fit e \<and> bs = rvbe1_wire e"
  using validate_rvbe1_caps_lens[of e "()"]
  by (cases "be_admitted_trust e")
     (auto simp: encode_rvbe1_def bindE_eq_Inr rvbe1_fields_fit_def rvbe1_wire_def write_iffs
       encode_trust_def wire_consts)

lemma decode_rvbe1_dest: "decode_rvbe1 bs = Inr e \<Longrightarrow> rvbe1_fields_fit e \<and> bs = rvbe1_wire e"
  by (auto simp: decode_rvbe1_def bindE_eq_Inr expect_magic_iff mk_reader_magic read_dest trust_of_raw
      reject_trailing_iff wire_consts rvbe1_fields_fit_def rvbe1_wire_def Let_def split: if_splits)

section \<open>RVBO1 and frames\<close>

definition encode_empty_rvbo1 :: "bytes res" where
  "encode_empty_rvbo1 =
     bindE (joinE [Inr RVBO1_MAGIC, u16be RVBO1_SCHEMA, u16be 0, Inr (u8 0), Inr (u8 0)]) (\<lambda>out.
     if length out \<noteq> EMPTY_RVBO1_LEN then Inl (AssertionError ''empty rvbo1 len'') else Inr out)"

definition encode_superseded_rvbe1_schema1 :: "int \<Rightarrow> bytes res" where
  "encode_superseded_rvbe1_schema1 clock =
     joinE [Inr RVBE1_MAGIC, u16be RVBE1_SCHEMA_V1_SUPERSEDED, u64be clock, u32be BRAID_MAX_PAYLOAD,
            u32be BRAID_MAX_CHUNKS_PER_EPOCH, u32be BRAID_MAX_CANONICAL_STATE_BYTES,
            u32be BRAID_MAX_REPLAY_ENTRIES, u32be BRAID_MAX_REPLAY_BYTES, u16be 0, u16be 0, u16be 0,
            u32be 0]"

definition make_receive_frame ::
    "bytes \<Rightarrow> int \<Rightarrow> int \<Rightarrow> int \<Rightarrow> int \<Rightarrow> bytes option \<Rightarrow> bytes res" where
  "make_receive_frame session_id direction epoch chunk_type index payload =
     (let payload = (case payload of None \<Rightarrow> zeros 32 | Some p \<Rightarrow> p)
      in bindE (binding_digest direction epoch chunk_type index payload session_id) (\<lambda>binding.
         encode_rvbc1 \<lparr>bc_epoch = epoch, bc_chunk_type = chunk_type, bc_index = index,
                       bc_payload = payload, bc_binding = binding\<rparr>))"

lemma encode_empty_rvbo1_eq:
  "encode_empty_rvbo1 = Inr (RVBO1_MAGIC @ be_bytes 2 1 @ be_bytes 2 0 @ [0, 0])"
  by (simp add: encode_empty_rvbo1_def wire_consts u8_Cons)

lemma superseded_wire:
  "encode_superseded_rvbe1_schema1 clock = Inr bs \<Longrightarrow> \<exists>t. bs = RVBE1_MAGIC @ be_bytes 2 1 @ t"
  by (auto simp: encode_superseded_rvbe1_schema1_def bindE_eq_Inr write_iffs wire_consts)

lemma superseded_rejected: "encode_superseded_rvbe1_schema1 clock = Inr bs \<Longrightarrow>
    decode_rvbe1 bs = Inl (ValueError ''rvbe1 bad schema'')"
  by (drule superseded_wire)
     (auto simp: decode_rvbe1_def mk_reader_magic Let_def u16.dec_enc wire_consts)

lemma decode_rvbc1_iff_encode:
  "decode_rvbc1 bs = Inr c \<longleftrightarrow> byte_fits (bc_chunk_type c) \<and> encode_rvbc1 c = Inr bs"
  using decode_rvbc1_wire[of c] decode_rvbc1_dest[of bs c] encode_rvbc1_iff[of c bs]
  by (auto simp: wf_rvbc1_def)

section \<open>Correctness\<close>

text \<open>
  The RVBI1 codec is canonical. A byte string decodes to an input exactly when it is the wire
  image of an input within the contract, and for inputs in byte range whose headers name a
  direction the encoder writes exactly that image.
\<close>

theorem rvbi1_codec_canonical:
  "(decode_rvbi1 bs = Inr i \<longleftrightarrow> rvbi1_fields_fit i \<and> bs = rvbi1_wire i) \<and>
   (decode_rvbi1 bs = Inr i \<and> pred_option (\<lambda>c. ch_direction c \<in> {0, 1}) (bi_ch i) \<and>
    pred_option (\<lambda>c. ch_direction c \<in> {0, 1}) (bi_expected_ch i) \<longleftrightarrow>
    byte_fits (bi_op i) \<and> byte_fits (bi_direction i) \<and> rvbm1_fields_fit (bi_mutation i) \<and>
    encode_rvbi1 i = Inr bs)"
proof -
  have dec: "decode_rvbi1 bs = Inr i \<longleftrightarrow> rvbi1_fields_fit i \<and> bs = rvbi1_wire i"
    using decode_rvbi1_wire decode_rvbi1_dest by blast
  moreover have "rvbi1_fields_fit i \<Longrightarrow>
      byte_fits (bi_op i) \<and> byte_fits (bi_direction i) \<and> rvbm1_fields_fit (bi_mutation i)"
    by (simp add: rvbi1_fields_fit_def)
  ultimately show ?thesis using encode_rvbi1_iff[of i bs] by blast
qed

text \<open>
  The RVBE1 codec is canonical: decoding inverts encoding, only schema 2 environments within
  the caps and with whole seeds are accepted, and every byte string that the superseded schema 1
  encoder writes is refused as a bad schema.
\<close>

theorem rvbe1_codec_canonical:
  "(decode_rvbe1 bs = Inr e \<longleftrightarrow> pred_option wf_trust (be_admitted_trust e) \<and> encode_rvbe1 e = Inr bs) \<and>
   ((\<exists>old. encode_superseded_rvbe1_schema1 clock = Inr old \<and>
       decode_rvbe1 old = Inl (ValueError ''rvbe1 bad schema'')) \<longleftrightarrow> uint_fits 8 clock)"
proof -
  have "decode_rvbe1 bs = Inr e \<longleftrightarrow> pred_option wf_trust (be_admitted_trust e) \<and> encode_rvbe1 e = Inr bs"
    using decode_rvbe1_wire[of e] decode_rvbe1_dest[of bs e] encode_rvbe1_iff[of e bs]
    by (metis rvbe1_fields_fit_def)
  moreover have "(\<exists>old. encode_superseded_rvbe1_schema1 clock = Inr old) \<longleftrightarrow> uint_fits 8 clock"
    by (auto simp: encode_superseded_rvbe1_schema1_def bindE_eq_Inr write_iffs wire_consts uint_fits_def)
  ultimately show ?thesis using superseded_rejected by blast
qed

text \<open>
  The RVBM1 and RVBC1 codecs are canonical: decoding inverts encoding on values whose one-byte
  fields are bytes.
\<close>

theorem rvbm1_rvbc1_canonical:
  "(decode_rvbm1 bs = Inr b \<longleftrightarrow> rvbm1_fields_fit b \<and> encode_rvbm1 b = Inr bs) \<and>
   (decode_rvbc1 bs = Inr c \<longleftrightarrow> byte_fits (bc_chunk_type c) \<and> encode_rvbc1 c = Inr bs)"
proof
  show "decode_rvbm1 bs = Inr b \<longleftrightarrow> rvbm1_fields_fit b \<and> encode_rvbm1 b = Inr bs"
    using decode_rvbm1_wire[of b] decode_rvbm1_dest[of bs b] encode_rvbm1_iff[of b bs] by blast
  show "decode_rvbc1 bs = Inr c \<longleftrightarrow> byte_fits (bc_chunk_type c) \<and> encode_rvbc1 c = Inr bs"
    using decode_rvbc1_iff_encode by blast
qed

text \<open>
  Encoder and decoder of the composite ratchet header differ exactly on the direction byte: the
  decoder inverts the encoder, and it also accepts the images with directions 2 to 255, which the
  encoder refuses.
\<close>

theorem rvch1_codec_gap:
  "(encode_rvch1 v = Inr bs \<longleftrightarrow> decode_rvch1 bs = Inr v \<and> ch_direction v \<in> {0, 1}) \<and>
   (decode_rvch1 bs = Inr v \<longleftrightarrow> rvch1_fields_fit v \<and> bs = rvch1_wire v)"
  using decode_rvch1_wire[of v] decode_rvch1_dest[of bs v] encode_rvch1_iff[of v bs] by blast

text \<open>
  C16: A byte string is the frame that \<open>make_receive_frame\<close> builds for a byte-sized chunk type exactly
  when it decodes to a chunk with those fields whose binding is the digest of the decoded fields
  under the session and the direction.
\<close>

theorem receive_frame_binding:
  "byte_fits t \<and> make_receive_frame sid d e t i pl = Inr bs \<longleftrightarrow>
     (\<exists>c. decode_rvbc1 bs = Inr c \<and> bc_epoch c = e \<and> bc_chunk_type c = t \<and> bc_index c = i \<and>
          bc_payload c = (case pl of None \<Rightarrow> zeros 32 | Some p \<Rightarrow> p) \<and>
          binding_digest d e t i (bc_payload c) sid = Inr (bc_binding c))"
  (is "?l \<longleftrightarrow> ?r")
proof
  assume ?l
  then obtain h where "byte_fits t"
    "binding_digest d e t i (case pl of None \<Rightarrow> zeros 32 | Some p \<Rightarrow> p) sid = Inr h"
    "encode_rvbc1 \<lparr>bc_epoch = e, bc_chunk_type = t, bc_index = i,
       bc_payload = (case pl of None \<Rightarrow> zeros 32 | Some p \<Rightarrow> p), bc_binding = h\<rparr> = Inr bs"
    by (auto simp: make_receive_frame_def Let_def bindE_eq_Inr)
  then show ?r
    by (intro exI[of _ "\<lparr>bc_epoch = e, bc_chunk_type = t, bc_index = i,
       bc_payload = (case pl of None \<Rightarrow> zeros 32 | Some p \<Rightarrow> p), bc_binding = h\<rparr>"])
       (simp add: decode_rvbc1_iff_encode)
next
  assume ?r
  then obtain c where c: "decode_rvbc1 bs = Inr c" "bc_epoch c = e" "bc_chunk_type c = t" "bc_index c = i"
    "bc_payload c = (case pl of None \<Rightarrow> zeros 32 | Some p \<Rightarrow> p)"
    "binding_digest d e t i (bc_payload c) sid = Inr (bc_binding c)" by blast
  moreover have "c = \<lparr>bc_epoch = e, bc_chunk_type = t, bc_index = i,
       bc_payload = (case pl of None \<Rightarrow> zeros 32 | Some p \<Rightarrow> p), bc_binding = bc_binding c\<rparr>"
    using c(2-5) by (cases c) simp
  ultimately have "encode_rvbc1 \<lparr>bc_epoch = e, bc_chunk_type = t, bc_index = i,
       bc_payload = (case pl of None \<Rightarrow> zeros 32 | Some p \<Rightarrow> p), bc_binding = bc_binding c\<rparr> = Inr bs"
    using decode_rvbc1_iff_encode by metis
  with c show ?l
    by (simp add: make_receive_frame_def Let_def decode_rvbc1_iff_encode)
qed

end
