(* ===== verification/BraidAuth.thy ===== *)
theory BraidAuth
  imports Codec Hashes
begin

text \<open>
  \<open>full_braid_auth.py\<close>: HKDF over HMAC-SHA256, the epoch-bound output key, and the authenticator
  whose root and MAC keys are ratcheted by every epoch key.
\<close>

definition INFO_AUTH_UPDATE :: bytes where
  "INFO_AUTH_UPDATE = asc ''Signal_PQCKA_V1_MLKEM768:Authenticator Update''"
definition INFO_EKHEADER :: bytes where "INFO_EKHEADER = asc ''Signal_PQCKA_V1_MLKEM768:ekheader''"
definition INFO_CIPHERTEXT :: bytes where "INFO_CIPHERTEXT = asc ''Signal_PQCKA_V1_MLKEM768:ciphertext''"
definition INFO_SCKA_KEY :: bytes where "INFO_SCKA_KEY = asc ''Signal_PQCKA_V1_MLKEM768:SCKA Key''"
definition ZERO_SALT :: bytes where "ZERO_SALT = zeros 32"

definition auth_hkdf_sha256 :: "bytes \<Rightarrow> bytes \<Rightarrow> bytes \<Rightarrow> int \<Rightarrow> bytes res" where
  "auth_hkdf_sha256 salt ikm info len =
     (if len < 0 \<or> len > 255 * 32 then Inl (ValueError ''invalid HKDF length'')
      else expand_loop hmac_sha256 (hmac_sha256 salt ikm) info (nat len) 255 [] [])"

definition kdf_ok :: "bytes \<Rightarrow> int \<Rightarrow> bytes res" where
  "kdf_ok shared_secret epoch =
     (if length shared_secret \<noteq> 32 then Inl (ValueError ''shared secret must be 32 bytes'')
      else bindE (to_bytes epoch 8) (\<lambda>e. auth_hkdf_sha256 ZERO_SALT shared_secret (INFO_SCKA_KEY @ e) 32))"

record auth_state =
  auth_root_key :: bytes
  auth_mac_key :: bytes

definition AuthState :: "bytes \<Rightarrow> bytes \<Rightarrow> auth_state res" where
  "AuthState root mac =
     (if length root \<noteq> 32 \<or> length mac \<noteq> 32 then Inl (ValueError ''auth keys must be 32 bytes'')
      else Inr \<lparr>auth_root_key = root, auth_mac_key = mac\<rparr>)"

definition auth_update :: "auth_state \<Rightarrow> int \<Rightarrow> bytes \<Rightarrow> auth_state res" where
  "auth_update s epoch update_key =
     bindE (to_bytes epoch 8) (\<lambda>e.
     bindE (auth_hkdf_sha256 ZERO_SALT (auth_root_key s @ update_key) (INFO_AUTH_UPDATE @ e) 64) (\<lambda>okm.
     Inr (s\<lparr>auth_root_key := take 32 okm, auth_mac_key := drop 32 okm\<rparr>)))"

definition auth_init :: "int \<Rightarrow> bytes \<Rightarrow> auth_state res" where
  "auth_init epoch key = bindE (AuthState (zeros 32) (zeros 32)) (\<lambda>s. auth_update s epoch key)"

definition auth_mac :: "auth_state \<Rightarrow> bytes \<Rightarrow> int \<Rightarrow> bytes \<Rightarrow> bytes res" where
  "auth_mac s label epoch body =
     bindE (to_bytes epoch 8) (\<lambda>e. Inr (hmac_sha256 (auth_mac_key s) (label @ e @ body)))"

definition mac_hdr :: "auth_state \<Rightarrow> int \<Rightarrow> bytes \<Rightarrow> bytes res" where
  "mac_hdr s epoch header = auth_mac s INFO_EKHEADER epoch header"

definition mac_ct :: "auth_state \<Rightarrow> int \<Rightarrow> bytes \<Rightarrow> bytes res" where
  "mac_ct s epoch ciphertext = auth_mac s INFO_CIPHERTEXT epoch ciphertext"

definition verify_hdr :: "auth_state \<Rightarrow> int \<Rightarrow> bytes \<Rightarrow> bytes \<Rightarrow> bool res" where
  "verify_hdr s epoch header expected =
     bindE (mac_hdr s epoch header) (\<lambda>m. Inr (compare_digest m expected))"

definition verify_ct :: "auth_state \<Rightarrow> int \<Rightarrow> bytes \<Rightarrow> bytes \<Rightarrow> bool res" where
  "verify_ct s epoch ciphertext expected =
     bindE (mac_ct s epoch ciphertext) (\<lambda>m. Inr (compare_digest m expected))"

section \<open>Totality and lengths\<close>

definition wf_auth :: "auth_state \<Rightarrow> bool" where
  "wf_auth s \<longleftrightarrow> length (auth_root_key s) = 32 \<and> length (auth_mac_key s) = 32"

lemma auth_hkdf_total: "0 \<le> len \<Longrightarrow> len \<le> 8160 \<Longrightarrow>
    \<exists>okm. auth_hkdf_sha256 salt ikm info len = Inr okm \<and> length okm = nat len"
  using hmac256.expand_loop_total[of "nat len" "[]" 255]
  by (simp add: auth_hkdf_sha256_def nat_le_iff)

lemma auth_hkdf_len: "auth_hkdf_sha256 salt ikm info len = Inr okm \<Longrightarrow> length okm = nat len"
  by (auto simp: auth_hkdf_sha256_def hmac256.expand_loop_len split: if_splits)

lemma kdf_ok_len: "kdf_ok ss e = Inr k \<Longrightarrow> length k = 32"
  by (auto simp: kdf_ok_def bindE_eq_Inr dest: auth_hkdf_len split: if_splits)

lemma kdf_ok_total: "(\<exists>k. kdf_ok ss e = Inr k) \<longleftrightarrow> length ss = 32 \<and> uint_fits 8 e"
  using auth_hkdf_total[of 32 ZERO_SALT ss "INFO_SCKA_KEY @ be_bytes 8 e"]
  by (auto simp: kdf_ok_def bindE_eq_Inr to_bytes_fits)

lemma AuthState_iff: "AuthState r m = Inr s \<longleftrightarrow> wf_auth s \<and> s = \<lparr>auth_root_key = r, auth_mac_key = m\<rparr>"
  by (auto simp: AuthState_def wf_auth_def)

lemma auth_update_wf: "auth_update s e k = Inr s' \<Longrightarrow> wf_auth s'"
  by (auto simp: auth_update_def bindE_eq_Inr wf_auth_def dest!: auth_hkdf_len)

lemma auth_update_total: "(\<exists>s'. auth_update s e k = Inr s') \<longleftrightarrow> uint_fits 8 e"
  using auth_hkdf_total[of 64 ZERO_SALT "auth_root_key s @ k" "INFO_AUTH_UPDATE @ be_bytes 8 e"]
  by (auto simp: auth_update_def bindE_eq_Inr to_bytes_fits)

lemma auth_init_wf: "auth_init e k = Inr s \<Longrightarrow> wf_auth s"
  by (auto simp: auth_init_def bindE_eq_Inr intro: auth_update_wf)

lemma mac_lens: "mac_hdr s e h = Inr m \<Longrightarrow> length m = 32" "mac_ct s e h = Inr m \<Longrightarrow> length m = 32"
  by (auto simp: mac_hdr_def mac_ct_def auth_mac_def bindE_eq_Inr)

text \<open>The two MAC labels separate header tags from ciphertext tags.\<close>

lemma mac_labels_apart: "INFO_EKHEADER @ a \<noteq> INFO_CIPHERTEXT @ b"
  by (simp add: INFO_EKHEADER_def INFO_CIPHERTEXT_def asc_def)

lemma verify_hdr_mac: "verify_hdr s e h t = Inr True \<longleftrightarrow> mac_hdr s e h = Inr t"
  by (auto simp: verify_hdr_def bindE_eq_Inr compare_digest_def)

lemma verify_ct_mac: "verify_ct s e c t = Inr True \<longleftrightarrow> mac_ct s e c = Inr t"
  by (auto simp: verify_ct_def bindE_eq_Inr compare_digest_def)

end
