(* ===== verification/BraidTr.thy ===== *)
theory BraidTr
  imports Codec
begin

text \<open>
  The RVFT1 half of \<open>full_braid_state.py\<close>: the triple-ratchet section of a Full Braid state, its
  validation, decoder and encoder.
\<close>

definition RVFT1_MAGIC :: bytes where "RVFT1_MAGIC = asc ''RVFT1'' @ zeros 3"
definition RVFT1_SCHEMA :: int where "RVFT1_SCHEMA = 1"
definition RVFT1_MAX_SIZE :: nat where "RVFT1_MAX_SIZE = 80505"
definition MAX_SCKA_CHAIN :: nat where "MAX_SCKA_CHAIN = 8"
definition MAX_SCKA_SKIPPED :: nat where "MAX_SCKA_SKIPPED = 256"
definition MAX_EC_SKIPPED :: nat where "MAX_EC_SKIPPED = 1000"
definition DIR_A2B :: int where "DIR_A2B = 0"
definition DIR_B2A :: int where "DIR_B2A = 1"

lemmas tr_consts = RVFT1_SCHEMA_def RVFT1_MAX_SIZE_def MAX_SCKA_CHAIN_def MAX_SCKA_SKIPPED_def
  MAX_EC_SKIPPED_def DIR_A2B_def DIR_B2A_def

lemma length_RVFT1_MAGIC [simp]: "length RVFT1_MAGIC = 8"
  by (simp add: RVFT1_MAGIC_def)

section \<open>Helpers of the module\<close>

text \<open>\<open>_u8\<close> of this module uses \<open>int.to_bytes(1)\<close>, which raises outside 0..255.\<close>

definition st_u8 :: "int \<Rightarrow> bytes res" where
  "st_u8 value = to_bytes value 1"

definition st_u16 :: "int \<Rightarrow> bytes res" where
  "st_u16 value = to_bytes value 2"

definition st_u32 :: "int \<Rightarrow> bytes res" where
  "st_u32 value = to_bytes value 4"

definition st_u64 :: "int \<Rightarrow> bytes res" where
  "st_u64 value = to_bytes value 8"

definition require_len :: "bytes \<Rightarrow> nat \<Rightarrow> string \<Rightarrow> unit res" where
  "require_len value len field_name =
     (if length value \<noteq> len then Inl (ValueError (field_name @ '' must be '' @ dec_nat len @ '' bytes''))
      else Inr ())"

definition require_sorted :: "'k::linorder list \<Rightarrow> string \<Rightarrow> unit res" where
  "require_sorted keys field_name =
     (if \<not> strictly_sorted_keys keys then Inl (ValueError (field_name @ '' not strictly sorted'')) else Inr ())"

lemma st_write_iffs [res_simps]:
  "st_u8 n = Inr bs \<longleftrightarrow> byte_fits n \<and> bs = u8 n"
  "st_u16 n = Inr bs \<longleftrightarrow> uint_fits 2 n \<and> bs = be_bytes 2 n"
  "st_u32 n = Inr bs \<longleftrightarrow> uint_fits 4 n \<and> bs = be_bytes 4 n"
  "st_u64 n = Inr bs \<longleftrightarrow> uint_fits 8 n \<and> bs = be_bytes 8 n"
  by (auto simp: st_u8_def st_u16_def st_u32_def st_u64_def to_bytes_fits uint_fits_def byte_fits_def
      u8_def)

lemma require_iffs [res_simps]:
  "require_len v n f = Inr u \<longleftrightarrow> length v = n"
  "require_sorted ks f = Inr u \<longleftrightarrow> sorted_wrt (<) ks"
  by (auto simp: require_len_def require_sorted_def)

section \<open>Records\<close>

record scka_chain_entry =
  sce_epoch :: int
  sce_ck :: bytes
  sce_n :: int

record scka_skipped_entry =
  sse_direction :: int
  sse_epoch :: int
  sse_n :: int
  sse_mk :: bytes

record ec_skipped_entry =
  ese_dh_pub :: bytes
  ese_n :: int
  ese_mk :: bytes

record rvft1 =
  scka_rk :: bytes
  scka_sending_epoch :: int
  scka_receiving_epoch :: int
  scka_send_chain :: "scka_chain_entry list"
  scka_recv_chain :: "scka_chain_entry list"
  scka_send_pn :: int
  scka_skipped :: "scka_skipped_entry list"
  ec_rk :: bytes
  ec_dhs_priv :: bytes
  ec_dhs_pub :: bytes
  ec_dhr_present :: int
  ec_dhr_pub :: bytes
  ec_ck_send_present :: int
  ec_ck_recv_present :: int
  ec_ck_send :: bytes
  ec_ck_recv :: bytes
  ec_ns :: int
  ec_nr :: int
  ec_pn :: int
  ec_skipped :: "ec_skipped_entry list"

definition validate_optional_key :: "int \<Rightarrow> bytes \<Rightarrow> string \<Rightarrow> unit res" where
  "validate_optional_key present key field_name =
     bindE (require_len key 32 field_name) (\<lambda>_.
     if present = 0 then
       (if key \<noteq> zeros 32 then Inl (ValueError (field_name @ '' must be zero when absent'')) else Inr ())
     else if present \<noteq> 1 then Inl (ValueError (field_name @ ''_present''))
     else Inr ())"

definition sse_key :: "scka_skipped_entry \<Rightarrow> int \<times> int \<times> int" where
  "sse_key e = (sse_direction e, sse_epoch e, sse_n e)"

definition ese_key :: "ec_skipped_entry \<Rightarrow> bytes \<times> int" where
  "ese_key e = (ese_dh_pub e, ese_n e)"

definition validate_rvft1 :: "rvft1 \<Rightarrow> unit res" where
  "validate_rvft1 v =
     bindE (require_len (scka_rk v) 32 ''scka_rk'') (\<lambda>_.
     bindE (require_len (ec_rk v) 32 ''ec_rk'') (\<lambda>_.
     bindE (require_len (ec_dhs_priv v) 32 ''ec_dhs_priv'') (\<lambda>_.
     bindE (require_len (ec_dhs_pub v) 32 ''ec_dhs_pub'') (\<lambda>_.
     if length (scka_send_chain v) > MAX_SCKA_CHAIN then Inl (ValueError ''rvft1 scka send cap'')
     else if length (scka_recv_chain v) > MAX_SCKA_CHAIN then Inl (ValueError ''rvft1 scka recv cap'')
     else if length (scka_skipped v) > MAX_SCKA_SKIPPED then Inl (ValueError ''rvft1 scka skipped cap'')
     else if length (ec_skipped v) > MAX_EC_SKIPPED then Inl (ValueError ''rvft1 ec skipped cap'')
     else
     bindE (require_sorted (map sce_epoch (scka_send_chain v)) ''rvft1 scka send chain'') (\<lambda>_.
     bindE (require_sorted (map sce_epoch (scka_recv_chain v)) ''rvft1 scka recv chain'') (\<lambda>_.
     bindE (require_sorted (map sse_key (scka_skipped v)) ''rvft1 scka skipped'') (\<lambda>_.
     bindE (require_sorted (map ese_key (ec_skipped v)) ''rvft1 ec skipped'') (\<lambda>_.
     bindE (checkE (\<lambda>e. require_len (sce_ck e) 32 ''rvft1 scka chain ck'')
              (scka_send_chain v @ scka_recv_chain v)) (\<lambda>_.
     bindE (checkE (\<lambda>e. if sse_direction e \<notin> {DIR_A2B, DIR_B2A}
                         then Inl (ValueError ''rvft1 scka skipped direction'')
                         else require_len (sse_mk e) 32 ''rvft1 scka skipped mk'') (scka_skipped v)) (\<lambda>_.
     bindE (checkE (\<lambda>e. bindE (require_len (ese_dh_pub e) 32 ''rvft1 ec skipped dh_pub'') (\<lambda>_.
                         require_len (ese_mk e) 32 ''rvft1 ec skipped mk'')) (ec_skipped v)) (\<lambda>_.
     bindE (validate_optional_key (ec_dhr_present v) (ec_dhr_pub v) ''ec_dhr_pub'') (\<lambda>_.
     bindE (validate_optional_key (ec_ck_send_present v) (ec_ck_send v) ''ec_ck_send'') (\<lambda>_.
     validate_optional_key (ec_ck_recv_present v) (ec_ck_recv v) ''ec_ck_recv'')))))))))))))"

section \<open>Decoder\<close>

definition read_chain_entry :: "wire_reader \<Rightarrow> (scka_chain_entry \<times> wire_reader) res" where
  "read_chain_entry r =
     bindE (read_u64be r) (\<lambda>(epoch, r). bindE (read_array32 r) (\<lambda>(ck, r). bindE (read_u32be r) (\<lambda>(n, r).
     Inr (\<lparr>sce_epoch = epoch, sce_ck = ck, sce_n = n\<rparr>, r))))"

definition read_skipped_entry :: "wire_reader \<Rightarrow> (scka_skipped_entry \<times> wire_reader) res" where
  "read_skipped_entry r =
     bindE (read_u8 r) (\<lambda>(direction, r). bindE (read_u64be r) (\<lambda>(epoch, r).
     bindE (read_u32be r) (\<lambda>(n, r). bindE (read_array32 r) (\<lambda>(mk, r).
     Inr (\<lparr>sse_direction = direction, sse_epoch = epoch, sse_n = n, sse_mk = mk\<rparr>, r)))))"

definition read_ec_entry :: "wire_reader \<Rightarrow> (ec_skipped_entry \<times> wire_reader) res" where
  "read_ec_entry r =
     bindE (read_array32 r) (\<lambda>(dh_pub, r). bindE (read_u32be r) (\<lambda>(n, r). bindE (read_array32 r) (\<lambda>(mk, r).
     Inr (\<lparr>ese_dh_pub = dh_pub, ese_n = n, ese_mk = mk\<rparr>, r))))"

text \<open>A count, its cap and that many entries, as the four sequences of the record are read.\<close>

definition read_capped :: "nat \<Rightarrow> string \<Rightarrow> (wire_reader \<Rightarrow> ('a \<times> wire_reader) res) \<Rightarrow> wire_reader \<Rightarrow>
    ('a list \<times> wire_reader) res" where
  "read_capped cap msg f r = bindE (read_u16be r) (\<lambda>(count, r).
     if count > int cap then Inl (ValueError msg) else read_list f (nat count) r)"

definition decode_rvft1 :: "bytes \<Rightarrow> rvft1 res" where
  "decode_rvft1 data =
     (if length data > RVFT1_MAX_SIZE then Inl (ValueError ''rvft1 exceeds max size'')
      else bindE (expect_magic data RVFT1_MAGIC) (\<lambda>_.
     let r = mk_reader data 8 in
     bindE (read_u16be r) (\<lambda>(schema, r).
     if schema \<noteq> RVFT1_SCHEMA then Inl (ValueError ''rvft1 bad schema'')
     else bindE (read_array32 r) (\<lambda>(rk, r).
     bindE (read_u64be r) (\<lambda>(sending, r).
     bindE (read_u64be r) (\<lambda>(receiving, r).
     bindE (read_capped MAX_SCKA_CHAIN ''rvft1 scka send cap'' read_chain_entry r) (\<lambda>(send_chain, r).
     bindE (read_capped MAX_SCKA_CHAIN ''rvft1 scka recv cap'' read_chain_entry r) (\<lambda>(recv_chain, r).
     bindE (read_u32be r) (\<lambda>(send_pn, r).
     bindE (read_capped MAX_SCKA_SKIPPED ''rvft1 scka skipped cap'' read_skipped_entry r) (\<lambda>(skipped, r).
     bindE (read_array32 r) (\<lambda>(erk, r).
     bindE (read_array32 r) (\<lambda>(dhs_priv, r).
     bindE (read_array32 r) (\<lambda>(dhs_pub, r).
     bindE (read_u8 r) (\<lambda>(dhr_present, r).
     bindE (read_array32 r) (\<lambda>(dhr_pub, r).
     bindE (read_u8 r) (\<lambda>(cks_present, r).
     bindE (read_u8 r) (\<lambda>(ckr_present, r).
     bindE (read_array32 r) (\<lambda>(cks, r).
     bindE (read_array32 r) (\<lambda>(ckr, r).
     bindE (read_u32be r) (\<lambda>(ns, r).
     bindE (read_u32be r) (\<lambda>(nr, r).
     bindE (read_u32be r) (\<lambda>(pn, r).
     bindE (read_capped MAX_EC_SKIPPED ''rvft1 ec skipped cap'' read_ec_entry r) (\<lambda>(ecs, r).
     bindE (read_u32be r) (\<lambda>(reserved_tail, r).
     if reserved_tail \<noteq> 0 then Inl (ValueError ''rvft1 reserved_tail'')
     else bindE (reject_trailing data (wr_off r)) (\<lambda>_.
     let value = \<lparr>scka_rk = rk, scka_sending_epoch = sending, scka_receiving_epoch = receiving,
        scka_send_chain = send_chain, scka_recv_chain = recv_chain, scka_send_pn = send_pn,
        scka_skipped = skipped, ec_rk = erk, ec_dhs_priv = dhs_priv, ec_dhs_pub = dhs_pub,
        ec_dhr_present = dhr_present, ec_dhr_pub = dhr_pub, ec_ck_send_present = cks_present,
        ec_ck_recv_present = ckr_present, ec_ck_send = cks, ec_ck_recv = ckr, ec_ns = ns, ec_nr = nr,
        ec_pn = pn, ec_skipped = ecs\<rparr>
     in bindE (validate_rvft1 value) (\<lambda>_. Inr value))))))))))))))))))))))))))"

section \<open>Encoder\<close>

definition encode_chain_entry :: "scka_chain_entry \<Rightarrow> bytes res" where
  "encode_chain_entry e = joinE [st_u64 (sce_epoch e), Inr (sce_ck e), st_u32 (sce_n e)]"

definition encode_skipped_entry :: "scka_skipped_entry \<Rightarrow> bytes res" where
  "encode_skipped_entry e =
     joinE [st_u8 (sse_direction e), st_u64 (sse_epoch e), st_u32 (sse_n e), Inr (sse_mk e)]"

definition encode_ec_entry :: "ec_skipped_entry \<Rightarrow> bytes res" where
  "encode_ec_entry e = joinE [Inr (ese_dh_pub e), st_u32 (ese_n e), Inr (ese_mk e)]"

definition encode_rvft1 :: "rvft1 \<Rightarrow> bytes res" where
  "encode_rvft1 v = bindE (validate_rvft1 v) (\<lambda>_.
     bindE (joinE [Inr RVFT1_MAGIC, st_u16 RVFT1_SCHEMA, Inr (scka_rk v),
       st_u64 (scka_sending_epoch v), st_u64 (scka_receiving_epoch v),
       st_u16 (int (length (scka_send_chain v))), joinE (map encode_chain_entry (scka_send_chain v)),
       st_u16 (int (length (scka_recv_chain v))), joinE (map encode_chain_entry (scka_recv_chain v)),
       st_u32 (scka_send_pn v),
       st_u16 (int (length (scka_skipped v))), joinE (map encode_skipped_entry (scka_skipped v)),
       Inr (ec_rk v), Inr (ec_dhs_priv v), Inr (ec_dhs_pub v), st_u8 (ec_dhr_present v),
       Inr (if ec_dhr_present v = 1 then ec_dhr_pub v else zeros 32),
       st_u8 (ec_ck_send_present v), st_u8 (ec_ck_recv_present v),
       Inr (if ec_ck_send_present v = 1 then ec_ck_send v else zeros 32),
       Inr (if ec_ck_recv_present v = 1 then ec_ck_recv v else zeros 32),
       st_u32 (ec_ns v), st_u32 (ec_nr v), st_u32 (ec_pn v),
       st_u16 (int (length (ec_skipped v))), joinE (map encode_ec_entry (ec_skipped v)), st_u32 0])
     (\<lambda>out. if length out > RVFT1_MAX_SIZE then Inl (ValueError ''rvft1 exceeds max size'') else Inr out))"

section \<open>Entries are codecs\<close>

definition chain_entry_wire :: "scka_chain_entry \<Rightarrow> bytes" where
  "chain_entry_wire e = be_bytes 8 (sce_epoch e) @ sce_ck e @ be_bytes 4 (sce_n e)"

definition wf_chain_entry :: "scka_chain_entry \<Rightarrow> bool" where
  "wf_chain_entry e \<longleftrightarrow> uint_fits 8 (sce_epoch e) \<and> length (sce_ck e) = 32 \<and> uint_fits 4 (sce_n e)"

definition skipped_entry_wire :: "scka_skipped_entry \<Rightarrow> bytes" where
  "skipped_entry_wire e =
     u8 (sse_direction e) @ be_bytes 8 (sse_epoch e) @ be_bytes 4 (sse_n e) @ sse_mk e"

definition wf_skipped_entry :: "scka_skipped_entry \<Rightarrow> bool" where
  "wf_skipped_entry e \<longleftrightarrow> byte_fits (sse_direction e) \<and> uint_fits 8 (sse_epoch e) \<and>
     uint_fits 4 (sse_n e) \<and> length (sse_mk e) = 32"

definition ec_entry_wire :: "ec_skipped_entry \<Rightarrow> bytes" where
  "ec_entry_wire e = ese_dh_pub e @ be_bytes 4 (ese_n e) @ ese_mk e"

definition wf_ec_entry :: "ec_skipped_entry \<Rightarrow> bool" where
  "wf_ec_entry e \<longleftrightarrow> length (ese_dh_pub e) = 32 \<and> uint_fits 4 (ese_n e) \<and> length (ese_mk e) = 32"

lemma entry_lengths [simp]:
  "wf_chain_entry e \<Longrightarrow> length (chain_entry_wire e) = 44"
  "wf_skipped_entry s \<Longrightarrow> length (skipped_entry_wire s) = 45"
  "wf_ec_entry c \<Longrightarrow> length (ec_entry_wire c) = 68"
  by (simp_all add: wf_chain_entry_def chain_entry_wire_def wf_skipped_entry_def
      skipped_entry_wire_def wf_ec_entry_def ec_entry_wire_def)

interpretation chain_entry: codec wf_chain_entry chain_entry_wire read_chain_entry
proof (rule codecI)
  fix p x t
  assume "wf_chain_entry x"
  then show "read_chain_entry (rd p (chain_entry_wire x @ t)) = Inr (x, rd (p @ chain_entry_wire x) t)"
    by (simp add: read_chain_entry_def chain_entry_wire_def wf_chain_entry_def read_fwd)
qed (auto simp: read_chain_entry_def chain_entry_wire_def wf_chain_entry_def bindE_eq_Inr read_dest)

interpretation skipped_entry: codec wf_skipped_entry skipped_entry_wire read_skipped_entry
proof (rule codecI)
  fix p x t
  assume "wf_skipped_entry x"
  then show "read_skipped_entry (rd p (skipped_entry_wire x @ t)) = Inr (x, rd (p @ skipped_entry_wire x) t)"
    by (simp add: read_skipped_entry_def skipped_entry_wire_def wf_skipped_entry_def read_fwd u8_Cons)
qed (auto simp: read_skipped_entry_def skipped_entry_wire_def wf_skipped_entry_def bindE_eq_Inr read_dest u8_Cons)

interpretation ec_entry: codec wf_ec_entry ec_entry_wire read_ec_entry
proof (rule codecI)
  fix p x t
  assume "wf_ec_entry x"
  then show "read_ec_entry (rd p (ec_entry_wire x @ t)) = Inr (x, rd (p @ ec_entry_wire x) t)"
    by (simp add: read_ec_entry_def ec_entry_wire_def wf_ec_entry_def read_fwd)
qed (auto simp: read_ec_entry_def ec_entry_wire_def wf_ec_entry_def bindE_eq_Inr read_dest)

text \<open>A capped sequence over a codec is a codec: a two-byte count and the items.\<close>

definition capped_wire :: "('a \<Rightarrow> bytes) \<Rightarrow> 'a list \<Rightarrow> bytes" where
  "capped_wire enc xs = be_bytes 2 (int (length xs)) @ concat (map enc xs)"

locale capped_sequence = codec wf enc dec
  for wf :: "'a \<Rightarrow> bool" and enc and dec +
  fixes cap :: nat and cap_msg :: string
  assumes cap_u16: "cap < 65536"

sublocale capped_sequence \<subseteq> seq: codec
  "\<lambda>xs. length xs \<le> cap \<and> list_all wf xs" "capped_wire enc" "read_capped cap cap_msg dec"
proof (rule codecI)
  fix p x t
  assume "length x \<le> cap \<and> list_all wf x"
  then show "read_capped cap cap_msg dec (rd p (capped_wire enc x @ t)) = Inr (x, rd (p @ capped_wire enc x) t)"
    using cap_u16 by (simp add: read_capped_def capped_wire_def read_fwd uint_fits_def read_list_enc)
next
  fix p s x r
  assume "read_capped cap cap_msg dec (rd p s) = Inr (x, r)"
  then show "\<exists>t. (length x \<le> cap \<and> list_all wf x) \<and> s = capped_wire enc x @ t \<and> r = rd (p @ capped_wire enc x) t"
    by (auto simp: read_capped_def capped_wire_def bindE_eq_Inr read_dest uint_fits_def
        dest!: read_list_dest split: if_splits)
qed

interpretation chain_seq: capped_sequence wf_chain_entry chain_entry_wire read_chain_entry MAX_SCKA_CHAIN m for m
  by unfold_locales (simp add: tr_consts)

interpretation skipped_seq: capped_sequence wf_skipped_entry skipped_entry_wire read_skipped_entry MAX_SCKA_SKIPPED m for m
  by unfold_locales (simp add: tr_consts)

interpretation ec_seq: capped_sequence wf_ec_entry ec_entry_wire read_ec_entry MAX_EC_SKIPPED m for m
  by unfold_locales (simp add: tr_consts)

section \<open>Canonical form of the section\<close>

definition optional_key_ok :: "int \<Rightarrow> bytes \<Rightarrow> bool" where
  "optional_key_ok present key \<longleftrightarrow>
     length key = 32 \<and> (present = 0 \<and> key = zeros 32 \<or> present = 1)"

text \<open>What \<open>_validate_rvft1\<close> accepts, together with the integer widths of the wire fields.\<close>

definition wf_rvft1 :: "rvft1 \<Rightarrow> bool" where
  "wf_rvft1 v \<longleftrightarrow>
     length (scka_rk v) = 32 \<and> length (ec_rk v) = 32 \<and> length (ec_dhs_priv v) = 32 \<and>
     length (ec_dhs_pub v) = 32 \<and>
     uint_fits 8 (scka_sending_epoch v) \<and> uint_fits 8 (scka_receiving_epoch v) \<and>
     uint_fits 4 (scka_send_pn v) \<and> uint_fits 4 (ec_ns v) \<and> uint_fits 4 (ec_nr v) \<and> uint_fits 4 (ec_pn v) \<and>
     (length (scka_send_chain v) \<le> MAX_SCKA_CHAIN \<and> list_all wf_chain_entry (scka_send_chain v)) \<and>
     (length (scka_recv_chain v) \<le> MAX_SCKA_CHAIN \<and> list_all wf_chain_entry (scka_recv_chain v)) \<and>
     (length (scka_skipped v) \<le> MAX_SCKA_SKIPPED \<and> list_all wf_skipped_entry (scka_skipped v)) \<and>
     (length (ec_skipped v) \<le> MAX_EC_SKIPPED \<and> list_all wf_ec_entry (ec_skipped v)) \<and>
     list_all (\<lambda>e. sse_direction e \<in> {0, 1}) (scka_skipped v) \<and>
     sorted_wrt (<) (map sce_epoch (scka_send_chain v)) \<and>
     sorted_wrt (<) (map sce_epoch (scka_recv_chain v)) \<and>
     sorted_wrt (<) (map sse_key (scka_skipped v)) \<and> sorted_wrt (<) (map ese_key (ec_skipped v)) \<and>
     optional_key_ok (ec_dhr_present v) (ec_dhr_pub v) \<and>
     optional_key_ok (ec_ck_send_present v) (ec_ck_send v) \<and>
     optional_key_ok (ec_ck_recv_present v) (ec_ck_recv v)"

definition rvft1_wire :: "rvft1 \<Rightarrow> bytes" where
  "rvft1_wire v = RVFT1_MAGIC @ be_bytes 2 RVFT1_SCHEMA @ scka_rk v @
     be_bytes 8 (scka_sending_epoch v) @ be_bytes 8 (scka_receiving_epoch v) @
     capped_wire chain_entry_wire (scka_send_chain v) @
     capped_wire chain_entry_wire (scka_recv_chain v) @
     be_bytes 4 (scka_send_pn v) @ capped_wire skipped_entry_wire (scka_skipped v) @
     ec_rk v @ ec_dhs_priv v @ ec_dhs_pub v @ u8 (ec_dhr_present v) @ ec_dhr_pub v @
     u8 (ec_ck_send_present v) @ u8 (ec_ck_recv_present v) @ ec_ck_send v @ ec_ck_recv v @
     be_bytes 4 (ec_ns v) @ be_bytes 4 (ec_nr v) @ be_bytes 4 (ec_pn v) @
     capped_wire ec_entry_wire (ec_skipped v) @ be_bytes 4 0"

lemma length_capped_wire: "list_all ok xs \<Longrightarrow> (\<And>x. ok x \<Longrightarrow> length (f x) = k) \<Longrightarrow>
    length (capped_wire f xs) = 2 + length xs * k"
  by (simp add: capped_wire_def length_concat_const list_all_iff)

lemma seq_lengths:
  "list_all wf_chain_entry xs \<Longrightarrow> length (capped_wire chain_entry_wire xs) = 2 + 44 * length xs"
  "list_all wf_skipped_entry ys \<Longrightarrow> length (capped_wire skipped_entry_wire ys) = 2 + 45 * length ys"
  "list_all wf_ec_entry zs \<Longrightarrow> length (capped_wire ec_entry_wire zs) = 2 + 68 * length zs"
  using length_capped_wire[of wf_chain_entry xs chain_entry_wire 44]
    length_capped_wire[of wf_skipped_entry ys skipped_entry_wire 45]
    length_capped_wire[of wf_ec_entry zs ec_entry_wire 68] by simp_all

lemma length_rvft1_wire: "wf_rvft1 v \<Longrightarrow> length (rvft1_wire v) =
    281 + 44 * length (scka_send_chain v) + 44 * length (scka_recv_chain v) +
    45 * length (scka_skipped v) + 68 * length (ec_skipped v)"
  by (clarsimp simp: wf_rvft1_def rvft1_wire_def optional_key_ok_def seq_lengths)

lemma rvft1_wire_bound: "wf_rvft1 v \<Longrightarrow> length (rvft1_wire v) \<le> RVFT1_MAX_SIZE"
  using length_rvft1_wire[of v] by (auto simp: wf_rvft1_def tr_consts)

lemma validate_optional_key_iff [res_simps]:
  "validate_optional_key p k f = Inr u \<longleftrightarrow> optional_key_ok p k"
  by (auto simp: validate_optional_key_def optional_key_ok_def bindE_eq_Inr require_iffs)

lemma validate_rvft1_iff: "validate_rvft1 v = Inr u \<longleftrightarrow>
    length (scka_rk v) = 32 \<and> length (ec_rk v) = 32 \<and> length (ec_dhs_priv v) = 32 \<and>
    length (ec_dhs_pub v) = 32 \<and>
    length (scka_send_chain v) \<le> MAX_SCKA_CHAIN \<and> length (scka_recv_chain v) \<le> MAX_SCKA_CHAIN \<and>
    length (scka_skipped v) \<le> MAX_SCKA_SKIPPED \<and> length (ec_skipped v) \<le> MAX_EC_SKIPPED \<and>
    sorted_wrt (<) (map sce_epoch (scka_send_chain v)) \<and>
    sorted_wrt (<) (map sce_epoch (scka_recv_chain v)) \<and>
    sorted_wrt (<) (map sse_key (scka_skipped v)) \<and> sorted_wrt (<) (map ese_key (ec_skipped v)) \<and>
    list_all (\<lambda>e. length (sce_ck e) = 32) (scka_send_chain v @ scka_recv_chain v) \<and>
    list_all (\<lambda>e. sse_direction e \<in> {0, 1} \<and> length (sse_mk e) = 32) (scka_skipped v) \<and>
    list_all (\<lambda>e. length (ese_dh_pub e) = 32 \<and> length (ese_mk e) = 32) (ec_skipped v) \<and>
    optional_key_ok (ec_dhr_present v) (ec_dhr_pub v) \<and>
    optional_key_ok (ec_ck_send_present v) (ec_ck_send v) \<and>
    optional_key_ok (ec_ck_recv_present v) (ec_ck_recv v)"
  by (simp add: validate_rvft1_def bindE_eq_Inr res_simps list_all_iff tr_consts
      del: strictly_sorted_keys_iff) (simp add: not_less if_Inl_eq_Inr require_iffs bindE_eq_Inr)

lemma encode_entry_iffs:
  "length (sce_ck c) = 32 \<Longrightarrow> encode_chain_entry c = Inr b \<longleftrightarrow> wf_chain_entry c \<and> b = chain_entry_wire c"
  "length (sse_mk s) = 32 \<Longrightarrow> encode_skipped_entry s = Inr b \<longleftrightarrow> wf_skipped_entry s \<and> b = skipped_entry_wire s"
  "length (ese_dh_pub e) = 32 \<Longrightarrow> length (ese_mk e) = 32 \<Longrightarrow>
    encode_ec_entry e = Inr b \<longleftrightarrow> wf_ec_entry e \<and> b = ec_entry_wire e"
  by (auto simp: encode_chain_entry_def encode_skipped_entry_def encode_ec_entry_def bindE_eq_Inr
      st_write_iffs wf_chain_entry_def wf_skipped_entry_def wf_ec_entry_def chain_entry_wire_def
      skipped_entry_wire_def ec_entry_wire_def)

lemma wf_rvft1_validate: "wf_rvft1 v \<Longrightarrow> validate_rvft1 v = Inr ()"
  by (auto simp: validate_rvft1_iff wf_rvft1_def list_all_iff wf_chain_entry_def
      wf_skipped_entry_def wf_ec_entry_def)

lemma optional_key_okD: "optional_key_ok p k \<Longrightarrow> length k = 32 \<and> byte_fits p"
  by (auto simp: optional_key_ok_def)

lemma rvft1_eta: "\<lparr>scka_rk = scka_rk v, scka_sending_epoch = scka_sending_epoch v,
     scka_receiving_epoch = scka_receiving_epoch v, scka_send_chain = scka_send_chain v,
     scka_recv_chain = scka_recv_chain v, scka_send_pn = scka_send_pn v,
     scka_skipped = scka_skipped v, ec_rk = ec_rk v, ec_dhs_priv = ec_dhs_priv v,
     ec_dhs_pub = ec_dhs_pub v, ec_dhr_present = ec_dhr_present v, ec_dhr_pub = ec_dhr_pub v,
     ec_ck_send_present = ec_ck_send_present v, ec_ck_recv_present = ec_ck_recv_present v,
     ec_ck_send = ec_ck_send v, ec_ck_recv = ec_ck_recv v, ec_ns = ec_ns v, ec_nr = ec_nr v,
     ec_pn = ec_pn v, ec_skipped = ec_skipped v\<rparr> = v"
  by simp

lemma decode_rvft1_wire: "wf_rvft1 v \<Longrightarrow> decode_rvft1 (rvft1_wire v) = Inr v"
  using rvft1_wire_bound[of v] wf_rvft1_validate[of v]
    optional_key_okD[of "ec_dhr_present v" "ec_dhr_pub v"]
    optional_key_okD[of "ec_ck_send_present v" "ec_ck_send v"]
    optional_key_okD[of "ec_ck_recv_present v" "ec_ck_recv v"]
  apply (subst decode_rvft1_def)
  apply (simp add: not_less)
  apply (subst (1 2 3) rvft1_wire_def)
  apply (simp add: Let_def mk_reader_magic wf_rvft1_def read_fwd RVFT1_SCHEMA_def u8_Cons
      chain_seq.seq.dec_enc skipped_seq.seq.dec_enc ec_seq.seq.dec_enc)
  apply (simp add: reject_trailing_def rvft1_wire_def RVFT1_SCHEMA_def u8_Cons)
  apply (simp add: rvft1_eta)
  done

definition rvft1_widths :: "rvft1 \<Rightarrow> bool" where
  "rvft1_widths v \<longleftrightarrow>
     uint_fits 8 (scka_sending_epoch v) \<and> uint_fits 8 (scka_receiving_epoch v) \<and>
     uint_fits 4 (scka_send_pn v) \<and> uint_fits 4 (ec_ns v) \<and> uint_fits 4 (ec_nr v) \<and> uint_fits 4 (ec_pn v) \<and>
     list_all wf_chain_entry (scka_send_chain v) \<and> list_all wf_chain_entry (scka_recv_chain v) \<and>
     list_all wf_skipped_entry (scka_skipped v) \<and> list_all wf_ec_entry (ec_skipped v)"

lemma wf_rvft1_iff: "wf_rvft1 v \<longleftrightarrow> rvft1_widths v \<and> validate_rvft1 v = Inr ()"
  by (auto simp: wf_rvft1_def rvft1_widths_def validate_rvft1_iff list_all_iff wf_chain_entry_def
      wf_skipped_entry_def wf_ec_entry_def)

lemma decode_rvft1_dest0: "decode_rvft1 bs = Inr v \<Longrightarrow>
    rvft1_widths v \<and> validate_rvft1 v = Inr () \<and> bs = rvft1_wire v"
  apply (clarsimp simp: decode_rvft1_def bindE_eq_Inr expect_magic_iff mk_reader_magic read_dest
      reject_trailing_iff RVFT1_SCHEMA_def Let_def if_Inl_eq_Inr
      dest!: chain_seq.seq.dec_dest skipped_seq.seq.dec_dest ec_seq.seq.dec_dest)
  apply (simp add: rvft1_widths_def rvft1_wire_def RVFT1_SCHEMA_def u8_Cons)
  done

lemma decode_rvft1_dest: "decode_rvft1 bs = Inr v \<Longrightarrow> wf_rvft1 v \<and> bs = rvft1_wire v"
  using decode_rvft1_dest0[of bs v] by (simp add: wf_rvft1_iff)

lemma encode_entries_iff:
  "list_all (\<lambda>e. length (sce_ck e) = 32) cs \<Longrightarrow> joinE (map encode_chain_entry cs) = Inr b \<longleftrightarrow>
     list_all wf_chain_entry cs \<and> b = concat (map chain_entry_wire cs)"
  "list_all (\<lambda>e. sse_direction e \<in> {0, 1} \<and> length (sse_mk e) = 32) ss \<Longrightarrow>
     joinE (map encode_skipped_entry ss) = Inr b \<longleftrightarrow>
     list_all wf_skipped_entry ss \<and> b = concat (map skipped_entry_wire ss)"
  "list_all (\<lambda>e. length (ese_dh_pub e) = 32 \<and> length (ese_mk e) = 32) es \<Longrightarrow>
     joinE (map encode_ec_entry es) = Inr b \<longleftrightarrow>
     list_all wf_ec_entry es \<and> b = concat (map ec_entry_wire es)"
  by (rule joinE_map_iff, simp add: list_all_iff encode_entry_iffs)+

lemma optional_key_wire: "optional_key_ok p k \<Longrightarrow> (if p = 1 then k else zeros 32) = k"
  by (auto simp: optional_key_ok_def)

lemma encode_rvft1_iff: "encode_rvft1 v = Inr bs \<longleftrightarrow> wf_rvft1 v \<and> bs = rvft1_wire v"
proof (cases "validate_rvft1 v = Inr ()")
  case True
  note ok = True[unfolded validate_rvft1_iff]
  have fits: "uint_fits 2 (int (length (scka_send_chain v)))" "uint_fits 2 (int (length (scka_recv_chain v)))"
    "uint_fits 2 (int (length (scka_skipped v)))" "uint_fits 2 (int (length (ec_skipped v)))"
    using ok by (auto simp: uint_fits_def tr_consts)
  have keys: "optional_key_ok (ec_dhr_present v) (ec_dhr_pub v)"
    "optional_key_ok (ec_ck_send_present v) (ec_ck_send v)"
    "optional_key_ok (ec_ck_recv_present v) (ec_ck_recv v)"
    using ok by blast+
  have seqs: "list_all (\<lambda>e. length (sce_ck e) = 32) (scka_send_chain v)"
    "list_all (\<lambda>e. length (sce_ck e) = 32) (scka_recv_chain v)"
    "list_all (\<lambda>e. sse_direction e \<in> {0, 1} \<and> length (sse_mk e) = 32) (scka_skipped v)"
    "list_all (\<lambda>e. length (ese_dh_pub e) = 32 \<and> length (ese_mk e) = 32) (ec_skipped v)"
    using ok by simp_all
  have "encode_rvft1 v = Inr bs \<longleftrightarrow> rvft1_widths v \<and> bs = rvft1_wire v \<and> \<not> RVFT1_MAX_SIZE < length bs"
    unfolding encode_rvft1_def rvft1_widths_def rvft1_wire_def capped_wire_def
    by (simp only: True bindE_simps bindE_final_check, simp add: bindE_eq_Inr st_write_iffs fits encode_entries_iff(1)[OF seqs(1)]
        encode_entries_iff(1)[OF seqs(2)] encode_entries_iff(2)[OF seqs(3)]
        encode_entries_iff(3)[OF seqs(4)] optional_key_wire[OF keys(1)] optional_key_wire[OF keys(2)]
        optional_key_wire[OF keys(3)] keys[THEN optional_key_okD] RVFT1_SCHEMA_def, blast)
  with True show ?thesis
    using rvft1_wire_bound[of v] by (auto simp: wf_rvft1_iff)
next
  case False
  then show ?thesis by (simp add: wf_rvft1_iff encode_rvft1_def bindE_eq_Inr)
qed

section \<open>Correctness\<close>

text \<open>
  C21: The RVFT1 codec is canonical in the same sense, and the size limit is exact: the record
  with every sequence at its cap takes \<open>RVFT1_MAX_SIZE\<close> bytes, so the limit never refuses a record
  that passed validation.
\<close>

theorem rvft1_codec_inverse:
  "(decode_rvft1 bs = Inr v \<longleftrightarrow> encode_rvft1 v = Inr bs) \<and>
   ((\<exists>b. encode_rvft1 v = Inr b) \<longleftrightarrow> validate_rvft1 v = Inr () \<and> rvft1_widths v) \<and>
   281 + (MAX_SCKA_CHAIN + MAX_SCKA_CHAIN) * 44 + MAX_SCKA_SKIPPED * 45 + MAX_EC_SKIPPED * 68 = RVFT1_MAX_SIZE"
  using decode_rvft1_wire decode_rvft1_dest
  by (auto simp: encode_rvft1_iff wf_rvft1_iff tr_consts)

end
