(* ===== verification/BraidState.thy ===== *)
theory BraidState
  imports BraidTr
begin

text \<open>
  The RVFB1 half of \<open>full_braid_state.py\<close>: a Full Braid state (prefix, inbound chunk sets, active
  send, objects, replay window, agent-keyed TLVs and the RVFT1 section), its validation, its
  decoder and its encoder.
\<close>

definition RVFB1_MAGIC :: bytes where "RVFB1_MAGIC = asc ''RVFB1'' @ zeros 3"
definition RVFB1_SCHEMA :: int where "RVFB1_SCHEMA = 1"
definition RVFB1_PREFIX_LEN :: nat where "RVFB1_PREFIX_LEN = 275"
definition ROLE_ALICE :: int where "ROLE_ALICE = 0"
definition ROLE_BOB :: int where "ROLE_BOB = 1"
definition AGENT_KEYS_UNSAMPLED :: int where "AGENT_KEYS_UNSAMPLED = 0"
definition AGENT_KEYS_SAMPLED :: int where "AGENT_KEYS_SAMPLED = 1"
definition AGENT_NO_HEADER_RECEIVED :: int where "AGENT_NO_HEADER_RECEIVED = 5"
definition AGENT_TERMINAL :: int where "AGENT_TERMINAL = 11"
definition SOURCE_KIND_HDR :: int where "SOURCE_KIND_HDR = 1"
definition SOURCE_KIND_EK :: int where "SOURCE_KIND_EK = 2"
definition SOURCE_KIND_CT1 :: int where "SOURCE_KIND_CT1 = 5"
definition SOURCE_KIND_CT2 :: int where "SOURCE_KIND_CT2 = 6"
definition MAX_INBOUND_SETS :: nat where "MAX_INBOUND_SETS = 8"
definition MAX_OBJECTS :: nat where "MAX_OBJECTS = 32"
definition MAX_REPLAYS :: nat where "MAX_REPLAYS = 64"
definition STATE_MAX_CHUNKS :: nat where "STATE_MAX_CHUNKS = 64"
definition BRAID_MAX_CHUNK_INDEX :: int where "BRAID_MAX_CHUNK_INDEX = 63"

definition SOURCE_LENGTHS :: "int \<rightharpoonup> int" where
  "SOURCE_LENGTHS = [SOURCE_KIND_HDR \<mapsto> 96, SOURCE_KIND_EK \<mapsto> 1152, SOURCE_KIND_CT1 \<mapsto> 960, SOURCE_KIND_CT2 \<mapsto> 160]"

definition TLV_LENGTHS :: "int \<rightharpoonup> int" where
  "TLV_LENGTHS = [1 \<mapsto> 2400, 2 \<mapsto> 32, 3 \<mapsto> 32, 4 \<mapsto> 1152, 5 \<mapsto> 2080, 6 \<mapsto> 960, 7 \<mapsto> 128, 8 \<mapsto> 64]"

text \<open>Per agent: the required, the optional and the forbidden tags, as the dictionary lists them.\<close>

definition TLV_MATRIX_rows :: "(int \<times> int list \<times> int list \<times> int list) list" where
  "TLV_MATRIX_rows =
     [(0, ([], [], [1, 2, 3, 4, 5, 6, 7, 8])),
      (1, ([1, 2, 3, 4, 8], [], [5, 6, 7])),
      (2, ([1, 4], [], [2, 3, 5, 6, 7, 8])),
      (3, ([1, 4, 6], [], [2, 3, 5, 7, 8])),
      (4, ([1, 6], [], [2, 3, 4, 5, 7, 8])),
      (5, ([], [], [1, 2, 3, 4, 5, 6, 7, 8])),
      (6, ([2, 3], [], [1, 4, 5, 6, 7, 8])),
      (7, ([2, 3, 5, 6], [], [1, 4, 7, 8])),
      (8, ([2, 3, 4, 5, 6], [], [1, 7, 8])),
      (9, ([2, 3, 5, 6], [], [1, 4, 7, 8])),
      (10, ([7], [6], [1, 2, 3, 4, 5, 8])),
      (AGENT_TERMINAL, ([], [], [1, 2, 3, 4, 5, 6, 7, 8]))]"

definition TLV_MATRIX :: "int \<rightharpoonup> int list \<times> int list \<times> int list" where
  "TLV_MATRIX = map_of TLV_MATRIX_rows"

lemmas state_consts = RVFB1_SCHEMA_def RVFB1_PREFIX_LEN_def ROLE_ALICE_def ROLE_BOB_def
  MAX_INBOUND_SETS_def MAX_OBJECTS_def MAX_REPLAYS_def STATE_MAX_CHUNKS_def BRAID_MAX_CHUNK_INDEX_def

lemma length_RVFB1_MAGIC [simp]: "length RVFB1_MAGIC = 8"
  by (simp add: RVFB1_MAGIC_def)

section \<open>Records\<close>

record rvfb1_prefix =
  fp_session_id :: bytes
  fp_role :: int
  fp_generation :: int
  fp_agent :: int
  fp_terminal_reason :: int
  fp_auth_root :: bytes
  fp_auth_mac_key :: bytes
  fp_agent_epoch :: int
  fp_send_epoch :: int
  fp_recv_epoch :: int
  fp_flags :: int
  fp_pending_phase :: int
  fp_pending_transition_id :: bytes
  fp_pending_before_digest :: bytes
  fp_pending_output_digest :: bytes
  fp_pending_execution_digest :: bytes

record inbound_chunk =
  ic_index :: int
  ic_payload :: bytes

record inbound_set =
  is_direction :: int
  is_epoch :: int
  is_source_kind :: int
  is_expected_source_len :: int
  is_max_index :: int
  is_bitmap :: bytes
  is_chunks :: "inbound_chunk list"

record active_send =
  as_direction :: int
  as_epoch :: int
  as_wire_type :: int
  as_source_kind :: int
  as_source_len :: int
  as_source_digest :: bytes
  as_source_bytes :: bytes
  as_next_spqr_index :: int

record braid_object =
  bo_direction :: int
  bo_epoch :: int
  bo_source_kind :: int
  bo_object_digest :: bytes

record replay_record =
  rr_transition_id :: bytes
  rr_execution_digest :: bytes
  rr_output_digest :: bytes
  rr_output_len :: int
  rr_flags :: int

record tlv_entry =
  te_tag :: int
  te_value :: bytes

record rvfb1_state =
  fs_prefix :: rvfb1_prefix
  fs_inbound_sets :: "inbound_set list"
  fs_active_send :: "active_send option"
  fs_objects :: "braid_object list"
  fs_replays :: "replay_record list"
  fs_tlvs :: "tlv_entry list"
  fs_tr_bytes :: bytes

section \<open>Validation\<close>

text \<open>
  \<open>_bitmap_get\<close>: Python indexing, where a negative byte index counts from the end and an index
  outside the bitmap raises.
\<close>

definition bitmap_get :: "bytes \<Rightarrow> int \<Rightarrow> bool res" where
  "bitmap_get bitmap index =
     (let j = index div 8; n = int (length bitmap) in
      if - n \<le> j \<and> j < n then Inr (bit (bitmap ! nat (j mod n)) (nat (index mod 8)))
      else Inl (IndexError ''index out of range''))"

definition validate_tlvs_for_agent :: "int \<Rightarrow> tlv_entry list \<Rightarrow> unit res" where
  "validate_tlvs_for_agent agent tlvs =
     (case TLV_MATRIX agent of
        None \<Rightarrow> Inl (ValueError ''rvfb1 unknown agent for tlv matrix'')
      | Some (required, optional, forbidden) \<Rightarrow>
          bindE (checkE (\<lambda>e. case TLV_LENGTHS (te_tag e) of
              None \<Rightarrow> Inl (ValueError ''rvfb1 unknown tlv tag'')
            | Some expect \<Rightarrow>
                if int (length (te_value e)) \<noteq> expect then Inl (ValueError ''rvfb1 tlv length'')
                else if te_tag e \<in> set forbidden then Inl (ValueError ''rvfb1 tlv forbidden for agent'')
                else if te_tag e \<notin> set required \<and> te_tag e \<notin> set optional
                then Inl (ValueError ''rvfb1 tlv not allowed for agent'') else Inr ()) tlvs) (\<lambda>_.
          checkE (\<lambda>req. if \<not> list_ex (\<lambda>e. te_tag e = req) tlvs
                        then Inl (ValueError ''rvfb1 tlv required missing'') else Inr ()) required))"

text \<open>The second loop over the bitmap: orphan bits, and the number of set bits.\<close>

primrec count_bits :: "inbound_set \<Rightarrow> int list \<Rightarrow> int \<Rightarrow> int res" where
  "count_bits s [] n = Inr n"
| "count_bits s (i # is) n = bindE (bitmap_get (is_bitmap s) i) (\<lambda>b.
     if b then
       (if \<not> list_ex (\<lambda>c. ic_index c = i) (is_chunks s)
        then Inl (ValueError ''rvfb1 inbound bitmap orphan bit'') else count_bits s is (n + 1))
     else count_bits s is n)"

definition validate_inbound_set :: "inbound_set \<Rightarrow> unit res" where
  "validate_inbound_set s =
     (if is_direction s \<notin> {DIR_A2B, DIR_B2A} then Inl (ValueError ''rvfb1 inbound direction'')
      else case SOURCE_LENGTHS (is_source_kind s) of
          None \<Rightarrow> Inl (ValueError ''rvfb1 inbound source_kind'')
        | Some len \<Rightarrow>
      if is_expected_source_len s \<noteq> len then Inl (ValueError ''rvfb1 inbound expected_source_len'')
      else if is_max_index s \<noteq> BRAID_MAX_CHUNK_INDEX
      then Inl (ValueError ''rvfb1 inbound max_index must be BRAID_MAX_CHUNK_INDEX'')
      else if length (is_bitmap s) \<noteq> 8 then Inl (ValueError ''rvfb1 inbound bitmap_len'')
      else if length (is_chunks s) > STATE_MAX_CHUNKS then Inl (ValueError ''rvfb1 inbound num_chunks'')
      else bindE (require_sorted (map ic_index (is_chunks s)) ''rvfb1 inbound chunks'') (\<lambda>_.
      bindE (checkE (\<lambda>c.
          if ic_index c > BRAID_MAX_CHUNK_INDEX \<or> ic_index c > is_max_index s
          then Inl (ValueError ''rvfb1 inbound chunk index'')
          else bindE (require_len (ic_payload c) 32 ''rvfb1 inbound chunk'') (\<lambda>_.
               bindE (bitmap_get (is_bitmap s) (ic_index c)) (\<lambda>b.
               if \<not> b then Inl (ValueError ''rvfb1 inbound bitmap missing chunk bit'') else Inr ())))
          (is_chunks s)) (\<lambda>_.
      bindE (count_bits s [0 .. is_max_index s] 0) (\<lambda>bit_count.
      if bit_count \<noteq> int (length (is_chunks s))
      then Inl (ValueError ''rvfb1 inbound bitmap/chunk count'') else Inr ()))))"

definition is_key :: "inbound_set \<Rightarrow> int \<times> int \<times> int" where
  "is_key s = (is_direction s, is_epoch s, is_source_kind s)"

definition bo_key :: "braid_object \<Rightarrow> int \<times> int \<times> int" where
  "bo_key b = (bo_direction b, bo_epoch b, bo_source_kind b)"

definition validate_active_send :: "active_send option \<Rightarrow> unit res" where
  "validate_active_send active =
     (case active of None \<Rightarrow> Inr ()
      | Some a \<Rightarrow>
          if as_direction a \<notin> {DIR_A2B, DIR_B2A} then Inl (ValueError ''rvfb1 active_send direction'')
          else if int (length (as_source_bytes a)) \<noteq> as_source_len a
          then Inl (ValueError ''rvfb1 active source_len'')
          else bindE (require_len (as_source_digest a) 32 ''rvfb1 active source_digest'') (\<lambda>_.
          if as_next_spqr_index a > int STATE_MAX_CHUNKS
          then Inl (ValueError ''rvfb1 active_send next_spqr_index'') else Inr ()))"

definition validate_state :: "rvfb1_state \<Rightarrow> unit res" where
  "validate_state st =
     (if fp_role (fs_prefix st) \<notin> {ROLE_ALICE, ROLE_BOB} then Inl (ValueError ''rvfb1 role'')
      else if length (fs_inbound_sets st) > MAX_INBOUND_SETS then Inl (ValueError ''rvfb1 too many inbound sets'')
      else if length (fs_objects st) > MAX_OBJECTS then Inl (ValueError ''rvfb1 too many objects'')
      else if length (fs_replays st) > MAX_REPLAYS then Inl (ValueError ''rvfb1 too many replays'')
      else bindE (require_sorted (map is_key (fs_inbound_sets st)) ''rvfb1 inbound sets'') (\<lambda>_.
      bindE (checkE validate_inbound_set (fs_inbound_sets st)) (\<lambda>_.
      bindE (require_sorted (map bo_key (fs_objects st)) ''rvfb1 objects'') (\<lambda>_.
      bindE (require_sorted (map rr_transition_id (fs_replays st)) ''rvfb1 replays'') (\<lambda>_.
      bindE (require_sorted (map te_tag (fs_tlvs st)) ''rvfb1 tlvs'') (\<lambda>_.
      bindE (checkE (\<lambda>r. bindE (require_len (rr_transition_id r) 32 ''replay transition_id'') (\<lambda>_.
          bindE (require_len (rr_execution_digest r) 32 ''replay execution_digest'') (\<lambda>_.
          require_len (rr_output_digest r) 32 ''replay output_digest''))) (fs_replays st)) (\<lambda>_.
      bindE (validate_tlvs_for_agent (fp_agent (fs_prefix st)) (fs_tlvs st)) (\<lambda>_.
      bindE (validate_active_send (fs_active_send st)) (\<lambda>_.
      expect_magic (fs_tr_bytes st) RVFT1_MAGIC)))))))))"

section \<open>Decoder\<close>

definition decode_prefix :: "bytes \<Rightarrow> rvfb1_prefix res" where
  "decode_prefix data =
     (if length data < RVFB1_PREFIX_LEN then Inl (ValueError ''rvfb1 prefix truncated'')
      else bindE (expect_magic data RVFB1_MAGIC) (\<lambda>_.
     let r = mk_reader data 8 in
     bindE (read_u16be r) (\<lambda>(schema, r).
     if schema \<noteq> RVFB1_SCHEMA then Inl (ValueError ''rvfb1 bad schema'')
     else bindE (read_array32 r) (\<lambda>(session_id, r).
     bindE (read_u8 r) (\<lambda>(role, r).
     bindE (read_u64be r) (\<lambda>(generation, r).
     bindE (read_u8 r) (\<lambda>(agent, r).
     bindE (read_u16be r) (\<lambda>(terminal_reason, r).
     bindE (read_array32 r) (\<lambda>(auth_root, r).
     bindE (read_array32 r) (\<lambda>(auth_mac, r).
     bindE (read_u64be r) (\<lambda>(agent_epoch, r).
     bindE (read_u64be r) (\<lambda>(send_epoch, r).
     bindE (read_u64be r) (\<lambda>(recv_epoch, r).
     bindE (read_u32be r) (\<lambda>(flags, r).
     bindE (read_u8 r) (\<lambda>(pending_phase, r).
     bindE (read_array32 r) (\<lambda>(p_tid, r).
     bindE (read_array32 r) (\<lambda>(p_before, r).
     bindE (read_array32 r) (\<lambda>(p_output, r).
     bindE (read_array32 r) (\<lambda>(p_exec, r).
     if wr_off r \<noteq> RVFB1_PREFIX_LEN then Inl (ValueError ''rvfb1 prefix length'')
     else Inr \<lparr>fp_session_id = session_id, fp_role = role, fp_generation = generation,
        fp_agent = agent, fp_terminal_reason = terminal_reason, fp_auth_root = auth_root,
        fp_auth_mac_key = auth_mac, fp_agent_epoch = agent_epoch, fp_send_epoch = send_epoch,
        fp_recv_epoch = recv_epoch, fp_flags = flags, fp_pending_phase = pending_phase,
        fp_pending_transition_id = p_tid, fp_pending_before_digest = p_before,
        fp_pending_output_digest = p_output, fp_pending_execution_digest = p_exec\<rparr>)))))))))))))))))))"

text \<open>\<open>for _ in range(reader.read_u16be())\<close>, and the two length-prefixed byte strings.\<close>

definition read_counted :: "(wire_reader \<Rightarrow> ('a \<times> wire_reader) res) \<Rightarrow> wire_reader \<Rightarrow>
    ('a list \<times> wire_reader) res" where
  "read_counted f r = bindE (read_u16be r) (\<lambda>(count, r). read_list f (nat count) r)"

definition read_blob16 :: "wire_reader \<Rightarrow> (bytes \<times> wire_reader) res" where
  "read_blob16 r = bindE (read_u16be r) (\<lambda>(n, r). read_bytes n r)"

definition read_blob32 :: "wire_reader \<Rightarrow> (bytes \<times> wire_reader) res" where
  "read_blob32 r = bindE (read_u32be r) (\<lambda>(n, r). read_bytes n r)"

definition read_chunk :: "wire_reader \<Rightarrow> (inbound_chunk \<times> wire_reader) res" where
  "read_chunk r = bindE (read_u32be r) (\<lambda>(index, r). bindE (read_blob16 r) (\<lambda>(payload, r).
     Inr (\<lparr>ic_index = index, ic_payload = payload\<rparr>, r)))"

definition read_inbound_set :: "wire_reader \<Rightarrow> (inbound_set \<times> wire_reader) res" where
  "read_inbound_set r =
     bindE (read_u8 r) (\<lambda>(direction, r).
     bindE (read_u64be r) (\<lambda>(epoch, r).
     bindE (read_u8 r) (\<lambda>(source_kind, r).
     bindE (read_u32be r) (\<lambda>(expected_source_len, r).
     bindE (read_u32be r) (\<lambda>(max_index, r).
     bindE (read_blob16 r) (\<lambda>(bitmap, r).
     bindE (read_counted read_chunk r) (\<lambda>(chunks, r).
     Inr (\<lparr>is_direction = direction, is_epoch = epoch, is_source_kind = source_kind,
           is_expected_source_len = expected_source_len, is_max_index = max_index,
           is_bitmap = bitmap, is_chunks = chunks\<rparr>, r))))))))"

definition read_active_send :: "wire_reader \<Rightarrow> (active_send option \<times> wire_reader) res" where
  "read_active_send r = bindE (read_u8 r) (\<lambda>(present, r).
     if present = 0 then Inr (None, r)
     else if present = 1 then
       bindE (read_u8 r) (\<lambda>(direction, r).
       bindE (read_u64be r) (\<lambda>(epoch, r).
       bindE (read_u8 r) (\<lambda>(wire_type, r).
       bindE (read_u8 r) (\<lambda>(source_kind, r).
       bindE (read_u32be r) (\<lambda>(source_len, r).
       bindE (read_array32 r) (\<lambda>(source_digest, r).
       bindE (read_bytes source_len r) (\<lambda>(source_bytes, r).
       bindE (read_u32be r) (\<lambda>(next_index, r).
       Inr (Some \<lparr>as_direction = direction, as_epoch = epoch, as_wire_type = wire_type,
             as_source_kind = source_kind, as_source_len = source_len,
             as_source_digest = source_digest, as_source_bytes = source_bytes,
             as_next_spqr_index = next_index\<rparr>, r)))))))))
     else Inl (ValueError ''rvfb1 active_send present''))"

definition read_object :: "wire_reader \<Rightarrow> (braid_object \<times> wire_reader) res" where
  "read_object r =
     bindE (read_u8 r) (\<lambda>(direction, r). bindE (read_u64be r) (\<lambda>(epoch, r).
     bindE (read_u8 r) (\<lambda>(source_kind, r). bindE (read_array32 r) (\<lambda>(d, r).
     Inr (\<lparr>bo_direction = direction, bo_epoch = epoch, bo_source_kind = source_kind,
           bo_object_digest = d\<rparr>, r)))))"

definition read_replay :: "wire_reader \<Rightarrow> (replay_record \<times> wire_reader) res" where
  "read_replay r =
     bindE (read_array32 r) (\<lambda>(tid, r). bindE (read_array32 r) (\<lambda>(ed, r).
     bindE (read_array32 r) (\<lambda>(od, r). bindE (read_u32be r) (\<lambda>(output_len, r).
     bindE (read_u16be r) (\<lambda>(flags, r).
     Inr (\<lparr>rr_transition_id = tid, rr_execution_digest = ed, rr_output_digest = od,
           rr_output_len = output_len, rr_flags = flags\<rparr>, r))))))"

definition read_tlv :: "wire_reader \<Rightarrow> (tlv_entry \<times> wire_reader) res" where
  "read_tlv r = bindE (read_u16be r) (\<lambda>(tag, r). bindE (read_blob32 r) (\<lambda>(value, r).
     Inr (\<lparr>te_tag = tag, te_value = value\<rparr>, r)))"

definition decode_rvfb1 :: "bytes \<Rightarrow> rvfb1_state res" where
  "decode_rvfb1 data = bindE (decode_prefix data) (\<lambda>prefix.
     let r = mk_reader data RVFB1_PREFIX_LEN in
     bindE (read_counted read_inbound_set r) (\<lambda>(inbound_sets, r).
     bindE (read_active_send r) (\<lambda>(active_send, r).
     bindE (read_counted read_object r) (\<lambda>(objects, r).
     bindE (read_counted read_replay r) (\<lambda>(replays, r).
     bindE (read_counted read_tlv r) (\<lambda>(tlvs, r).
     bindE (read_blob32 r) (\<lambda>(tr_bytes, r).
     bindE (reject_trailing data (wr_off r)) (\<lambda>_.
     bindE (expect_magic tr_bytes RVFT1_MAGIC) (\<lambda>_.
     let state = \<lparr>fs_prefix = prefix, fs_inbound_sets = inbound_sets, fs_active_send = active_send,
        fs_objects = objects, fs_replays = replays, fs_tlvs = tlvs, fs_tr_bytes = tr_bytes\<rparr>
     in bindE (validate_state state) (\<lambda>_. Inr state))))))))))"

section \<open>Encoder\<close>

definition encode_prefix :: "rvfb1_prefix \<Rightarrow> bytes res" where
  "encode_prefix p =
     bindE (checkE (\<lambda>(name, f). require_len (f p) 32 name)
       [(''session_id'', fp_session_id), (''auth_root'', fp_auth_root), (''auth_mac_key'', fp_auth_mac_key),
        (''pending_transition_id'', fp_pending_transition_id),
        (''pending_before_digest'', fp_pending_before_digest),
        (''pending_output_digest'', fp_pending_output_digest),
        (''pending_execution_digest'', fp_pending_execution_digest)]) (\<lambda>_.
     bindE (joinE [Inr RVFB1_MAGIC, st_u16 RVFB1_SCHEMA, Inr (fp_session_id p), st_u8 (fp_role p),
       st_u64 (fp_generation p), st_u8 (fp_agent p), st_u16 (fp_terminal_reason p), Inr (fp_auth_root p),
       Inr (fp_auth_mac_key p), st_u64 (fp_agent_epoch p), st_u64 (fp_send_epoch p),
       st_u64 (fp_recv_epoch p), st_u32 (fp_flags p), st_u8 (fp_pending_phase p),
       Inr (fp_pending_transition_id p), Inr (fp_pending_before_digest p),
       Inr (fp_pending_output_digest p), Inr (fp_pending_execution_digest p)]) (\<lambda>out.
     if length out \<noteq> RVFB1_PREFIX_LEN then Inl (AssertionError ''rvfb1 prefix length'') else Inr out))"

definition encode_chunk :: "inbound_chunk \<Rightarrow> bytes res" where
  "encode_chunk c =
     joinE [st_u32 (ic_index c), st_u16 (int (length (ic_payload c))), Inr (ic_payload c)]"

definition encode_inbound_set :: "inbound_set \<Rightarrow> bytes res" where
  "encode_inbound_set s =
     joinE [st_u8 (is_direction s), st_u64 (is_epoch s), st_u8 (is_source_kind s),
       st_u32 (is_expected_source_len s), st_u32 (is_max_index s), st_u16 (int (length (is_bitmap s))),
       Inr (is_bitmap s), st_u16 (int (length (is_chunks s))), joinE (map encode_chunk (is_chunks s))]"

definition encode_active_send :: "active_send option \<Rightarrow> bytes res" where
  "encode_active_send active =
     (case active of None \<Rightarrow> st_u8 0
      | Some a \<Rightarrow> joinE [st_u8 1, st_u8 (as_direction a), st_u64 (as_epoch a), st_u8 (as_wire_type a),
          st_u8 (as_source_kind a), st_u32 (as_source_len a), Inr (as_source_digest a),
          Inr (as_source_bytes a), st_u32 (as_next_spqr_index a)])"

definition encode_object :: "braid_object \<Rightarrow> bytes res" where
  "encode_object b = bindE (require_len (bo_object_digest b) 32 ''object_digest'') (\<lambda>_.
     joinE [st_u8 (bo_direction b), st_u64 (bo_epoch b), st_u8 (bo_source_kind b), Inr (bo_object_digest b)])"

definition encode_replay :: "replay_record \<Rightarrow> bytes res" where
  "encode_replay r =
     joinE [Inr (rr_transition_id r), Inr (rr_execution_digest r), Inr (rr_output_digest r),
            st_u32 (rr_output_len r), st_u16 (rr_flags r)]"

definition encode_tlv :: "tlv_entry \<Rightarrow> bytes res" where
  "encode_tlv e = joinE [st_u16 (te_tag e), st_u32 (int (length (te_value e))), Inr (te_value e)]"

definition encode_rvfb1 :: "rvfb1_state \<Rightarrow> bytes res" where
  "encode_rvfb1 st = bindE (validate_state st) (\<lambda>_.
     joinE [encode_prefix (fs_prefix st),
       st_u16 (int (length (fs_inbound_sets st))), joinE (map encode_inbound_set (fs_inbound_sets st)),
       encode_active_send (fs_active_send st),
       st_u16 (int (length (fs_objects st))), joinE (map encode_object (fs_objects st)),
       st_u16 (int (length (fs_replays st))), joinE (map encode_replay (fs_replays st)),
       st_u16 (int (length (fs_tlvs st))), joinE (map encode_tlv (fs_tlvs st)),
       st_u32 (int (length (fs_tr_bytes st))), Inr (fs_tr_bytes st)])"

section \<open>The parts are codecs\<close>

locale counted_sequence = codec wf enc dec for wf :: "'a \<Rightarrow> bool" and enc and dec

sublocale counted_sequence \<subseteq> cnt: codec
  "\<lambda>xs. length xs < 65536 \<and> list_all wf xs" "capped_wire enc" "read_counted dec"
proof (rule codecI)
  fix p x t
  assume "length x < 65536 \<and> list_all wf x"
  then show "read_counted dec (rd p (capped_wire enc x @ t)) = Inr (x, rd (p @ capped_wire enc x) t)"
    by (simp add: read_counted_def capped_wire_def read_fwd uint_fits_def read_list_enc)
next
  fix p s x r
  assume "read_counted dec (rd p s) = Inr (x, r)"
  then show "\<exists>t. (length x < 65536 \<and> list_all wf x) \<and> s = capped_wire enc x @ t \<and> r = rd (p @ capped_wire enc x) t"
    by (auto simp: read_counted_def capped_wire_def bindE_eq_Inr read_dest uint_fits_def
        dest!: read_list_dest)
qed

definition blob_wire :: "nat \<Rightarrow> bytes \<Rightarrow> bytes" where
  "blob_wire k b = be_bytes k (int (length b)) @ b"

interpretation blob16: codec "\<lambda>b. uint_fits 2 (int (length b))" "blob_wire 2" read_blob16
  by unfold_locales (auto simp: read_blob16_def blob_wire_def bindE_eq_Inr read_dest)

interpretation blob32: codec "\<lambda>b. uint_fits 4 (int (length b))" "blob_wire 4" read_blob32
  by unfold_locales (auto simp: read_blob32_def blob_wire_def bindE_eq_Inr read_dest)

definition wf_chunk :: "inbound_chunk \<Rightarrow> bool" where
  "wf_chunk c \<longleftrightarrow> uint_fits 4 (ic_index c) \<and> uint_fits 2 (int (length (ic_payload c)))"

definition chunk_wire :: "inbound_chunk \<Rightarrow> bytes" where
  "chunk_wire c = be_bytes 4 (ic_index c) @ blob_wire 2 (ic_payload c)"

interpretation chunk: codec wf_chunk chunk_wire read_chunk
proof (rule codecI)
  fix p x t
  assume "wf_chunk x"
  then show "read_chunk (rd p (chunk_wire x @ t)) = Inr (x, rd (p @ chunk_wire x) t)"
    by (simp add: read_chunk_def chunk_wire_def wf_chunk_def read_fwd blob16.dec_enc)
qed (auto simp: read_chunk_def chunk_wire_def wf_chunk_def bindE_eq_Inr read_dest blob16.dec_iff)

interpretation chunks: counted_sequence wf_chunk chunk_wire read_chunk
  by unfold_locales

definition wf_inbound :: "inbound_set \<Rightarrow> bool" where
  "wf_inbound s \<longleftrightarrow> byte_fits (is_direction s) \<and> uint_fits 8 (is_epoch s) \<and> byte_fits (is_source_kind s) \<and>
     uint_fits 4 (is_expected_source_len s) \<and> uint_fits 4 (is_max_index s) \<and>
     uint_fits 2 (int (length (is_bitmap s))) \<and>
     length (is_chunks s) < 65536 \<and> list_all wf_chunk (is_chunks s)"

definition inbound_wire :: "inbound_set \<Rightarrow> bytes" where
  "inbound_wire s = u8 (is_direction s) @ be_bytes 8 (is_epoch s) @ u8 (is_source_kind s) @
     be_bytes 4 (is_expected_source_len s) @ be_bytes 4 (is_max_index s) @
     blob_wire 2 (is_bitmap s) @ capped_wire chunk_wire (is_chunks s)"

interpretation inbound: codec wf_inbound inbound_wire read_inbound_set
proof (rule codecI)
  fix p x t
  assume "wf_inbound x"
  then show "read_inbound_set (rd p (inbound_wire x @ t)) = Inr (x, rd (p @ inbound_wire x) t)"
    by (simp add: read_inbound_set_def inbound_wire_def wf_inbound_def read_fwd blob16.dec_enc
        chunks.cnt.dec_enc u8_Cons)
next
  fix p s x r
  assume "read_inbound_set (rd p s) = Inr (x, r)"
  then show "\<exists>t. wf_inbound x \<and> s = inbound_wire x @ t \<and> r = rd (p @ inbound_wire x) t"
    by (clarsimp simp: read_inbound_set_def bindE_eq_Inr read_dest
        dest!: blob16.dec_dest chunks.cnt.dec_dest)
       (simp add: wf_inbound_def inbound_wire_def u8_Cons)
qed

definition wf_active :: "active_send option \<Rightarrow> bool" where
  "wf_active = pred_option (\<lambda>a. byte_fits (as_direction a) \<and> uint_fits 8 (as_epoch a) \<and>
     byte_fits (as_wire_type a) \<and> byte_fits (as_source_kind a) \<and> uint_fits 4 (as_source_len a) \<and>
     length (as_source_digest a) = 32 \<and> int (length (as_source_bytes a)) = as_source_len a \<and>
     uint_fits 4 (as_next_spqr_index a))"

definition active_wire :: "active_send option \<Rightarrow> bytes" where
  "active_wire active = (case active of None \<Rightarrow> u8 0
     | Some a \<Rightarrow> u8 1 @ u8 (as_direction a) @ be_bytes 8 (as_epoch a) @ u8 (as_wire_type a) @
         u8 (as_source_kind a) @ be_bytes 4 (as_source_len a) @ as_source_digest a @
         as_source_bytes a @ be_bytes 4 (as_next_spqr_index a))"

interpretation active: codec wf_active active_wire read_active_send
proof (rule codecI)
  fix p x t
  assume "wf_active x"
  then show "read_active_send (rd p (active_wire x @ t)) = Inr (x, rd (p @ active_wire x) t)"
    by (cases x) (simp_all add: read_active_send_def active_wire_def wf_active_def read_fwd u8_Cons)
next
  fix p s x r
  assume "read_active_send (rd p s) = Inr (x, r)"
  then show "\<exists>t. wf_active x \<and> s = active_wire x @ t \<and> r = rd (p @ active_wire x) t"
    by (auto simp: read_active_send_def bindE_eq_Inr read_dest wf_active_def active_wire_def u8_Cons
        split: if_splits)
qed

definition wf_object :: "braid_object \<Rightarrow> bool" where
  "wf_object b \<longleftrightarrow> byte_fits (bo_direction b) \<and> uint_fits 8 (bo_epoch b) \<and>
     byte_fits (bo_source_kind b) \<and> length (bo_object_digest b) = 32"

definition object_wire :: "braid_object \<Rightarrow> bytes" where
  "object_wire b = u8 (bo_direction b) @ be_bytes 8 (bo_epoch b) @ u8 (bo_source_kind b) @ bo_object_digest b"

interpretation object: codec wf_object object_wire read_object
proof (rule codecI)
  fix p x t
  assume "wf_object x"
  then show "read_object (rd p (object_wire x @ t)) = Inr (x, rd (p @ object_wire x) t)"
    by (simp add: read_object_def object_wire_def wf_object_def read_fwd u8_Cons)
qed (auto simp: read_object_def object_wire_def wf_object_def bindE_eq_Inr read_dest u8_Cons)

definition wf_replay :: "replay_record \<Rightarrow> bool" where
  "wf_replay r \<longleftrightarrow> length (rr_transition_id r) = 32 \<and> length (rr_execution_digest r) = 32 \<and>
     length (rr_output_digest r) = 32 \<and> uint_fits 4 (rr_output_len r) \<and> uint_fits 2 (rr_flags r)"

definition replay_wire :: "replay_record \<Rightarrow> bytes" where
  "replay_wire r = rr_transition_id r @ rr_execution_digest r @ rr_output_digest r @
     be_bytes 4 (rr_output_len r) @ be_bytes 2 (rr_flags r)"

interpretation replay: codec wf_replay replay_wire read_replay
proof (rule codecI)
  fix p x t
  assume "wf_replay x"
  then show "read_replay (rd p (replay_wire x @ t)) = Inr (x, rd (p @ replay_wire x) t)"
    by (simp add: read_replay_def replay_wire_def wf_replay_def read_fwd)
qed (auto simp: read_replay_def replay_wire_def wf_replay_def bindE_eq_Inr read_dest)

definition wf_tlv :: "tlv_entry \<Rightarrow> bool" where
  "wf_tlv e \<longleftrightarrow> uint_fits 2 (te_tag e) \<and> uint_fits 4 (int (length (te_value e)))"

definition tlv_wire :: "tlv_entry \<Rightarrow> bytes" where
  "tlv_wire e = be_bytes 2 (te_tag e) @ blob_wire 4 (te_value e)"

interpretation tlv: codec wf_tlv tlv_wire read_tlv
proof (rule codecI)
  fix p x t
  assume "wf_tlv x"
  then show "read_tlv (rd p (tlv_wire x @ t)) = Inr (x, rd (p @ tlv_wire x) t)"
    by (simp add: read_tlv_def tlv_wire_def wf_tlv_def read_fwd blob32.dec_enc)
qed (auto simp: read_tlv_def tlv_wire_def wf_tlv_def bindE_eq_Inr read_dest blob32.dec_iff)

interpretation inbounds: counted_sequence wf_inbound inbound_wire read_inbound_set
  by unfold_locales

interpretation objects: counted_sequence wf_object object_wire read_object
  by unfold_locales

interpretation replays: counted_sequence wf_replay replay_wire read_replay
  by unfold_locales

interpretation tlvs: counted_sequence wf_tlv tlv_wire read_tlv
  by unfold_locales

section \<open>The prefix\<close>

definition wf_prefix :: "rvfb1_prefix \<Rightarrow> bool" where
  "wf_prefix p \<longleftrightarrow> length (fp_session_id p) = 32 \<and> byte_fits (fp_role p) \<and> uint_fits 8 (fp_generation p) \<and>
     byte_fits (fp_agent p) \<and> uint_fits 2 (fp_terminal_reason p) \<and> length (fp_auth_root p) = 32 \<and>
     length (fp_auth_mac_key p) = 32 \<and> uint_fits 8 (fp_agent_epoch p) \<and> uint_fits 8 (fp_send_epoch p) \<and>
     uint_fits 8 (fp_recv_epoch p) \<and> uint_fits 4 (fp_flags p) \<and> byte_fits (fp_pending_phase p) \<and>
     length (fp_pending_transition_id p) = 32 \<and> length (fp_pending_before_digest p) = 32 \<and>
     length (fp_pending_output_digest p) = 32 \<and> length (fp_pending_execution_digest p) = 32"

definition prefix_wire :: "rvfb1_prefix \<Rightarrow> bytes" where
  "prefix_wire p = RVFB1_MAGIC @ be_bytes 2 RVFB1_SCHEMA @ fp_session_id p @ u8 (fp_role p) @
     be_bytes 8 (fp_generation p) @ u8 (fp_agent p) @ be_bytes 2 (fp_terminal_reason p) @
     fp_auth_root p @ fp_auth_mac_key p @ be_bytes 8 (fp_agent_epoch p) @ be_bytes 8 (fp_send_epoch p) @
     be_bytes 8 (fp_recv_epoch p) @ be_bytes 4 (fp_flags p) @ u8 (fp_pending_phase p) @
     fp_pending_transition_id p @ fp_pending_before_digest p @ fp_pending_output_digest p @
     fp_pending_execution_digest p"

lemma length_prefix_wire [simp]: "wf_prefix p \<Longrightarrow> length (prefix_wire p) = 275"
  by (simp add: wf_prefix_def prefix_wire_def)

lemma decode_prefix_fwd: "wf_prefix p \<Longrightarrow> decode_prefix (prefix_wire p @ t) = Inr p"
  unfolding decode_prefix_def prefix_wire_def
  by (simp add: wf_prefix_def Let_def mk_reader_magic read_fwd state_consts u8_Cons)

lemma decode_prefix_dest: "decode_prefix data = Inr p \<Longrightarrow> \<exists>t. wf_prefix p \<and> data = prefix_wire p @ t"
  by (clarsimp simp: decode_prefix_def bindE_eq_Inr expect_magic_iff mk_reader_magic read_dest
      state_consts Let_def if_Inl_eq_Inr)
     (simp add: wf_prefix_def prefix_wire_def state_consts u8_Cons)

lemma encode_prefix_iff: "encode_prefix p = Inr bs \<longleftrightarrow> wf_prefix p \<and> bs = prefix_wire p"
  by (auto simp: encode_prefix_def bindE_eq_Inr require_iffs st_write_iffs wf_prefix_def
      prefix_wire_def state_consts small_fits)

section \<open>Canonical form of a state\<close>

definition state_widths :: "rvfb1_state \<Rightarrow> bool" where
  "state_widths st \<longleftrightarrow> wf_prefix (fs_prefix st) \<and>
     (length (fs_inbound_sets st) < 65536 \<and> list_all wf_inbound (fs_inbound_sets st)) \<and>
     wf_active (fs_active_send st) \<and>
     (length (fs_objects st) < 65536 \<and> list_all wf_object (fs_objects st)) \<and>
     (length (fs_replays st) < 65536 \<and> list_all wf_replay (fs_replays st)) \<and>
     (length (fs_tlvs st) < 65536 \<and> list_all wf_tlv (fs_tlvs st)) \<and>
     uint_fits 4 (int (length (fs_tr_bytes st)))"

definition wf_rvfb1 :: "rvfb1_state \<Rightarrow> bool" where
  "wf_rvfb1 st \<longleftrightarrow> state_widths st \<and> validate_state st = Inr ()"

definition rvfb1_wire :: "rvfb1_state \<Rightarrow> bytes" where
  "rvfb1_wire st = prefix_wire (fs_prefix st) @ capped_wire inbound_wire (fs_inbound_sets st) @
     active_wire (fs_active_send st) @ capped_wire object_wire (fs_objects st) @
     capped_wire replay_wire (fs_replays st) @ capped_wire tlv_wire (fs_tlvs st) @
     blob_wire 4 (fs_tr_bytes st)"

lemma validate_state_iff: "validate_state st = Inr u \<longleftrightarrow>
    fp_role (fs_prefix st) \<in> {0, 1} \<and> length (fs_inbound_sets st) \<le> 8 \<and>
    length (fs_objects st) \<le> 32 \<and> length (fs_replays st) \<le> 64 \<and>
    sorted_wrt (<) (map is_key (fs_inbound_sets st)) \<and>
    (\<forall>s \<in> set (fs_inbound_sets st). validate_inbound_set s = Inr ()) \<and>
    sorted_wrt (<) (map bo_key (fs_objects st)) \<and>
    sorted_wrt (<) (map rr_transition_id (fs_replays st)) \<and>
    sorted_wrt (<) (map te_tag (fs_tlvs st)) \<and>
    (\<forall>r \<in> set (fs_replays st). length (rr_transition_id r) = 32 \<and>
       length (rr_execution_digest r) = 32 \<and> length (rr_output_digest r) = 32) \<and>
    validate_tlvs_for_agent (fp_agent (fs_prefix st)) (fs_tlvs st) = Inr () \<and>
    validate_active_send (fs_active_send st) = Inr () \<and>
    (\<exists>t. fs_tr_bytes st = RVFT1_MAGIC @ t)"
  by (simp add: validate_state_def bindE_eq_Inr if_Inl_eq_Inr require_iffs checkE_iff
      expect_magic_iff state_consts not_less)

lemma validate_state_magic: "validate_state st = Inr () \<Longrightarrow> expect_magic (fs_tr_bytes st) RVFT1_MAGIC = Inr ()"
  by (auto simp: validate_state_iff expect_magic_iff)

lemma rvfb1_eta: "\<lparr>fs_prefix = fs_prefix st, fs_inbound_sets = fs_inbound_sets st,
    fs_active_send = fs_active_send st, fs_objects = fs_objects st, fs_replays = fs_replays st,
    fs_tlvs = fs_tlvs st, fs_tr_bytes = fs_tr_bytes st\<rparr> = st"
  by simp

lemma decode_rvfb1_wire: "wf_rvfb1 st \<Longrightarrow> decode_rvfb1 (rvfb1_wire st) = Inr st"
  unfolding decode_rvfb1_def rvfb1_wire_def
  by (simp add: rvfb1_eta wf_rvfb1_def state_widths_def Let_def decode_prefix_fwd RVFB1_PREFIX_LEN_def
      mk_reader_magic inbounds.cnt.dec_enc active.dec_enc objects.cnt.dec_enc replays.cnt.dec_enc
      tlvs.cnt.dec_enc blob32.dec_enc blob32.dec_enc[where t = "[]", simplified] reject_trailing_def
      validate_state_magic)

lemma decode_rvfb1_dest: "decode_rvfb1 bs = Inr st \<Longrightarrow> wf_rvfb1 st \<and> bs = rvfb1_wire st"
  by (clarsimp simp: decode_rvfb1_def bindE_eq_Inr Let_def RVFB1_PREFIX_LEN_def mk_reader_magic
      reject_trailing_iff
      dest!: decode_prefix_dest inbounds.cnt.dec_dest active.dec_dest objects.cnt.dec_dest
        replays.cnt.dec_dest tlvs.cnt.dec_dest blob32.dec_dest)
     (simp add: wf_rvfb1_def state_widths_def rvfb1_wire_def)

lemma uint_fits_2_length: "uint_fits 2 (int n) \<longleftrightarrow> n < 65536"
  by (auto simp: uint_fits_def)

lemma encode_chunk_iff: "encode_chunk c = Inr b \<longleftrightarrow> wf_chunk c \<and> b = chunk_wire c"
  by (auto simp: encode_chunk_def bindE_eq_Inr st_write_iffs wf_chunk_def chunk_wire_def blob_wire_def)

lemma encode_inbound_iff: "encode_inbound_set s = Inr b \<longleftrightarrow> wf_inbound s \<and> b = inbound_wire s"
  by (auto simp: encode_inbound_set_def bindE_eq_Inr st_write_iffs wf_inbound_def inbound_wire_def
      blob_wire_def capped_wire_def uint_fits_2_length
      joinE_map_iff[where ok = wf_chunk and wire = chunk_wire, OF encode_chunk_iff])

lemma encode_active_iff: "validate_active_send a = Inr () \<Longrightarrow>
    encode_active_send a = Inr b \<longleftrightarrow> wf_active a \<and> b = active_wire a"
  by (cases a) (auto simp: encode_active_send_def bindE_eq_Inr st_write_iffs wf_active_def
      active_wire_def validate_active_send_def require_iffs split: if_splits)

lemma encode_object_iff: "encode_object o1 = Inr b \<longleftrightarrow> wf_object o1 \<and> b = object_wire o1"
  by (auto simp: encode_object_def bindE_eq_Inr require_iffs st_write_iffs wf_object_def object_wire_def)

lemma encode_replay_iff: "length (rr_transition_id r) = 32 \<and> length (rr_execution_digest r) = 32 \<and>
    length (rr_output_digest r) = 32 \<Longrightarrow> encode_replay r = Inr b \<longleftrightarrow> wf_replay r \<and> b = replay_wire r"
  by (auto simp: encode_replay_def bindE_eq_Inr st_write_iffs wf_replay_def replay_wire_def)

lemma encode_tlv_iff: "encode_tlv e = Inr b \<longleftrightarrow> wf_tlv e \<and> b = tlv_wire e"
  by (auto simp: encode_tlv_def bindE_eq_Inr st_write_iffs wf_tlv_def tlv_wire_def blob_wire_def)

lemma encode_rvfb1_iff: "encode_rvfb1 st = Inr bs \<longleftrightarrow> wf_rvfb1 st \<and> bs = rvfb1_wire st"
proof (cases "validate_state st = Inr ()")
  case True
  note ok = True[unfolded validate_state_iff]
  have caps: "length (fs_inbound_sets st) < 65536" "length (fs_objects st) < 65536"
    "length (fs_replays st) < 65536"
    using ok by simp_all
  have act: "validate_active_send (fs_active_send st) = Inr ()"
    using ok by blast
  have reps: "joinE (map encode_replay (fs_replays st)) = Inr b \<longleftrightarrow>
      list_all wf_replay (fs_replays st) \<and> b = concat (map replay_wire (fs_replays st))" for b
    using ok by (intro joinE_map_iff encode_replay_iff) blast
  show ?thesis
    unfolding encode_rvfb1_def wf_rvfb1_def state_widths_def rvfb1_wire_def capped_wire_def blob_wire_def
    by (simp add: True bindE_eq_Inr st_write_iffs uint_fits_2_length caps reps encode_prefix_iff
        encode_active_iff[OF act] joinE_map_iff[where ok = wf_inbound and wire = inbound_wire, OF encode_inbound_iff]
        joinE_map_iff[where ok = wf_object and wire = object_wire, OF encode_object_iff]
        joinE_map_iff[where ok = wf_tlv and wire = tlv_wire, OF encode_tlv_iff]) blast
next
  case False
  then show ?thesis by (simp add: wf_rvfb1_def encode_rvfb1_def bindE_eq_Inr)
qed

section \<open>Bitmap and chunks\<close>

lemma bitmap_get_in: "length bm = 8 \<Longrightarrow> 0 \<le> i \<Longrightarrow> i < 64 \<Longrightarrow>
    bitmap_get bm i = Inr (bit (bm ! nat (i div 8)) (nat (i mod 8)))"
  by (simp add: bitmap_get_def Let_def, presburger)

definition chunk_bit :: "inbound_set \<Rightarrow> int \<Rightarrow> bool" where
  "chunk_bit s i = (bitmap_get (is_bitmap s) i = Inr True)"

lemma count_bits_Inr: "length (is_bitmap s) = 8 \<Longrightarrow> \<forall>i \<in> set is. 0 \<le> i \<and> i < 64 \<Longrightarrow>
    count_bits s is n = Inr m \<longleftrightarrow>
      m = n + int (length (filter (chunk_bit s) is)) \<and>
      (\<forall>i \<in> set is. chunk_bit s i \<longrightarrow> i \<in> ic_index ` set (is_chunks s))"
  by (induction "is" arbitrary: n) (auto simp: bitmap_get_in chunk_bit_def list_ex_iff)

text \<open>A set is accepted exactly when its chunks are those whose bit is set, in index order.\<close>

lemma validate_inbound_iff: "validate_inbound_set s = Inr u \<longleftrightarrow>
    is_direction s \<in> {0, 1} \<and> SOURCE_LENGTHS (is_source_kind s) = Some (is_expected_source_len s) \<and>
    is_max_index s = 63 \<and> length (is_bitmap s) = 8 \<and>
    map ic_index (is_chunks s) = filter (chunk_bit s) [0..63] \<and>
    (\<forall>c \<in> set (is_chunks s). length (ic_payload c) = 32)"
  (is "?l \<longleftrightarrow> ?r")
proof
  assume l: ?l
  then have basic: "is_direction s \<in> {0, 1}" "SOURCE_LENGTHS (is_source_kind s) = Some (is_expected_source_len s)"
    "is_max_index s = 63" "length (is_bitmap s) = 8" "sorted_wrt (<) (map ic_index (is_chunks s))"
    and chunks: "\<forall>c \<in> set (is_chunks s). length (ic_payload c) = 32 \<and> ic_index c \<le> 63 \<and> chunk_bit s (ic_index c)"
    and cnt: "count_bits s [0..63] 0 = Inr (int (length (is_chunks s)))"
    by (auto simp: validate_inbound_set_def bindE_eq_Inr if_Inl_eq_Inr require_iffs checkE_iff
        chunk_bit_def state_consts tr_consts split: option.splits if_splits)
  let ?bits = "filter (chunk_bit s) [0..63]" and ?ix = "map ic_index (is_chunks s)"
  have sub: "set ?bits \<subseteq> set ?ix" and len: "length ?bits = length ?ix"
    using cnt count_bits_Inr[OF basic(4), of "[0..63]" 0] by auto
  moreover have dist: "distinct ?ix" "distinct ?bits"
    using sorted_wrt_less_distinct[OF basic(5)] by simp_all
  ultimately have "set ?bits = set ?ix"
    by (metis List.finite_set card_subset_eq distinct_card)
  moreover have "sorted_wrt (<) ?bits"
    by (intro sorted_wrt_filter) (simp add: strict_sorted_iff)
  ultimately have "?ix = ?bits"
    using basic(5) by (metis sorted_distinct_set_unique strict_sorted_iff)
  then show ?r using basic chunks by blast
next
  assume r: ?r
  then have ix: "map ic_index (is_chunks s) = filter (chunk_bit s) [0..63]" by blast
  have "c \<in> set (is_chunks s) \<Longrightarrow> ic_index c \<in> set (filter (chunk_bit s) [0..63])" for c
    by (metis ix image_eqI set_map)
  then have mem: "c \<in> set (is_chunks s) \<Longrightarrow> 0 \<le> ic_index c \<and> ic_index c \<le> 63 \<and> chunk_bit s (ic_index c)" for c
    by simp
  have "length (is_chunks s) = length (filter (chunk_bit s) [0..63])"
    by (metis ix length_map)
  moreover have "length (filter (chunk_bit s) [0..63]) \<le> 64"
    using length_filter_le[of "chunk_bit s" "[0..63]"] by simp
  moreover have "sorted_wrt (<) (map ic_index (is_chunks s))"
    unfolding ix by (intro sorted_wrt_filter) (simp add: strict_sorted_iff)
  moreover have "count_bits s [0..63] 0 = Inr (int (length (filter (chunk_bit s) [0..63])))"
  proof -
    have "i \<in> ic_index ` set (is_chunks s)" if "i \<in> set (filter (chunk_bit s) [0..63])" for i
      using that unfolding ix[symmetric] by simp
    then show ?thesis using r by (subst count_bits_Inr) auto
  qed
  ultimately show ?l
    using r mem by (fastforce simp: validate_inbound_set_def bindE_eq_Inr if_Inl_eq_Inr require_iffs checkE_iff
        chunk_bit_def state_consts tr_consts)
qed

section \<open>The TLV matrix\<close>

lemma TLV_MATRIX_rows_split: "list_all (\<lambda>(agent, required, optional, forbidden).
    distinct (required @ optional @ forbidden) \<and> sort (required @ optional @ forbidden) = [1, 2, 3, 4, 5, 6, 7, 8])
    TLV_MATRIX_rows"
  by code_simp

lemma TLV_MATRIX_split:
  assumes "TLV_MATRIX agent = Some (required, optional, forbidden)"
  shows "distinct (required @ optional @ forbidden) \<and> set (required @ optional @ forbidden) = {1..8}"
proof -
  have "(agent, required, optional, forbidden) \<in> set TLV_MATRIX_rows"
    using assms by (simp add: TLV_MATRIX_def map_of_SomeD)
  then have *: "distinct (required @ optional @ forbidden)"
    "sort (required @ optional @ forbidden) = [1, 2, 3, 4, 5, 6, 7, 8]"
    using TLV_MATRIX_rows_split by (auto simp: list_all_iff)
  have "set (required @ optional @ forbidden) = set [1, 2, 3, 4, 5, 6, 7, 8 :: int]"
    unfolding *(2)[symmetric] by simp
  also have "\<dots> = {1..8}" by auto
  finally show ?thesis using *(1) by blast
qed

lemma TLV_LENGTHS_dom: "TLV_LENGTHS tag = Some n \<Longrightarrow> tag \<in> {1..8}"
  by (auto simp: TLV_LENGTHS_def split: if_splits)

lemma validate_tlvs_iff:
  "validate_tlvs_for_agent agent tlvs = Inr () \<longleftrightarrow>
     (\<exists>required optional forbidden. TLV_MATRIX agent = Some (required, optional, forbidden) \<and>
        distinct (required @ optional @ forbidden) \<and> set (required @ optional @ forbidden) = {1..8} \<and>
        set required \<subseteq> te_tag ` set tlvs \<and> te_tag ` set tlvs \<subseteq> set required \<union> set optional \<and>
        (\<forall>e \<in> set tlvs. TLV_LENGTHS (te_tag e) = Some (int (length (te_value e)))))"
proof (cases "TLV_MATRIX agent")
  case (Some m)
  obtain required optional forbidden where m: "m = (required, optional, forbidden)" by (cases m)
  note split = TLV_MATRIX_split[OF Some[unfolded m]]
  have "validate_tlvs_for_agent agent tlvs = Inr () \<longleftrightarrow>
      (\<forall>e \<in> set tlvs. TLV_LENGTHS (te_tag e) = Some (int (length (te_value e))) \<and>
         te_tag e \<notin> set forbidden \<and> (te_tag e \<in> set required \<or> te_tag e \<in> set optional)) \<and>
      (\<forall>q \<in> set required. \<exists>e \<in> set tlvs. te_tag e = q)"
    by (auto simp: validate_tlvs_for_agent_def Some m bindE_eq_Inr checkE_iff list_ex_iff
        split: option.splits if_splits)
  moreover have "te_tag e \<notin> set forbidden \<longleftrightarrow> te_tag e \<in> set required \<or> te_tag e \<in> set optional"
    if "TLV_LENGTHS (te_tag e) = Some n" for e n
    using split TLV_LENGTHS_dom[OF that] by auto
  ultimately show ?thesis using split unfolding Some m by fastforce
qed (simp add: validate_tlvs_for_agent_def)

section \<open>Correctness\<close>

text \<open>
  C13: The RVFB1 codec is canonical. A byte string decodes to a state exactly when the encoder
  writes that byte string for the state: nothing non-canonical is accepted, nothing encodable is
  refused, and no two states share an encoding.
\<close>

theorem rvfb1_codec_inverse: "decode_rvfb1 bs = Inr st \<longleftrightarrow> encode_rvfb1 st = Inr bs"
  unfolding encode_rvfb1_iff using decode_rvfb1_wire decode_rvfb1_dest by blast

text \<open>
  An inbound set is accepted exactly when its chunks are those whose bitmap bit is set, listed
  in index order with 32-byte payloads, under a known source kind with that kind's length.
\<close>

theorem inbound_bitmap_exact:
  "validate_inbound_set s = Inr () \<longleftrightarrow>
     is_direction s \<in> {0, 1} \<and> SOURCE_LENGTHS (is_source_kind s) = Some (is_expected_source_len s) \<and>
     is_max_index s = 63 \<and> length (is_bitmap s) = 8 \<and>
     map ic_index (is_chunks s) = filter (chunk_bit s) [0..63] \<and>
     list_all (\<lambda>c. length (ic_payload c) = 32) (is_chunks s)"
  by (simp add: validate_inbound_iff list_all_iff)

text \<open>
  The TLVs of an accepted state are determined by its agent up to the optional ciphertext tag:
  the tags lie between the agent's required tags and its required and optional ones, each value
  has its tag's length, and each agent's three lists split the tags 1 to 8.
\<close>

theorem tlv_matrix_exact:
  "validate_tlvs_for_agent agent tlvs = Inr () \<longleftrightarrow>
     (\<exists>required optional forbidden. TLV_MATRIX agent = Some (required, optional, forbidden) \<and>
        distinct (required @ optional @ forbidden) \<and> set (required @ optional @ forbidden) = {1..8} \<and>
        set required \<subseteq> te_tag ` set tlvs \<and> te_tag ` set tlvs \<subseteq> set required \<union> set optional \<and>
        list_all (\<lambda>e. TLV_LENGTHS (te_tag e) = Some (int (length (te_value e)))) tlvs)"
  unfolding list_all_iff by (rule validate_tlvs_iff)

end
