(* ===== verification/Ratchet.thy ===== *)
theory Ratchet
  imports Codec Hashes
begin

text \<open>
  \<open>hybrid_ratchet_v2.py\<close> with the HKDF of \<open>pair_init_v2.py\<close>: domain labels, root and chain key
  derivations, the SCKA initialisation of both roles, composite headers, associated data and the
  signed AckV2 receipt. X25519, Ed25519 and ChaCha20-Poly1305 come from the \<open>cryptography\<close> package;
  they are the fields of the parameter record \<open>crypto\<close>.
\<close>

section \<open>The cryptographic primitives of the environment\<close>

record crypto =
  x_public :: "bytes \<Rightarrow> bytes res"
  x_exchange :: "bytes \<Rightarrow> bytes \<Rightarrow> bytes res"
  aead_encrypt :: "bytes \<Rightarrow> bytes \<Rightarrow> bytes \<Rightarrow> bytes \<Rightarrow> bytes res"
  aead_decrypt :: "bytes \<Rightarrow> bytes \<Rightarrow> bytes \<Rightarrow> bytes \<Rightarrow> bytes res"
  ed_load_public :: "bytes \<Rightarrow> unit res"
  ed_load_private :: "bytes \<Rightarrow> unit res"
  ed_public :: "bytes \<Rightarrow> bytes res"
  ed_sign :: "bytes \<Rightarrow> bytes \<Rightarrow> bytes res"
  ed_verify :: "bytes \<Rightarrow> bytes \<Rightarrow> bytes \<Rightarrow> unit res"

section \<open>Labels and constants\<close>

definition PROFILE :: bytes where "PROFILE = asc ''ATSAM/hybrid-ratchet/v2''"
definition TR_PROTOCOL_INFO :: bytes where "TR_PROTOCOL_INFO = PROFILE @ [0] @ asc ''TR''"
definition SPQR_PROTOCOL_INFO :: bytes where "SPQR_PROTOCOL_INFO = PROFILE @ [0] @ asc ''SPQR''"
definition EC_RK_INFO :: bytes where "EC_RK_INFO = PROFILE @ [0] @ asc ''EC-KDF-RK''"
definition AEAD_NONCE_INFO :: bytes where "AEAD_NONCE_INFO = PROFILE @ [0] @ asc ''AEAD-nonce''"
definition SCKA_INIT_INFO :: bytes where "SCKA_INIT_INFO = SPQR_PROTOCOL_INFO @ [0] @ asc ''SCKA-INIT''"
definition SCKA_INIT_ALICE_INFO :: bytes where "SCKA_INIT_ALICE_INFO = SCKA_INIT_INFO"
definition SCKA_INIT_BOB_INFO :: bytes where "SCKA_INIT_BOB_INFO = SCKA_INIT_INFO"
definition ACK_DOMAIN :: bytes where "ACK_DOMAIN = asc ''ATSAM/v2/ack''"
definition AAD_DOMAIN :: bytes where "AAD_DOMAIN = asc ''ATSAM/v2/aad''"
definition HEADER_DOMAIN :: bytes where "HEADER_DOMAIN = asc ''ATSAM/v2/tr-header''"
definition SEALED_PROTO :: int where "SEALED_PROTO = 4"
definition INNER_TYPE_MESSAGE :: int where "INNER_TYPE_MESSAGE = 1"
definition INNER_TYPE_ACKV2 :: int where "INNER_TYPE_ACKV2 = 2"
definition MAX_SKIP :: int where "MAX_SKIP = 1000"
definition ROUTE_LOOKAHEAD :: int where "ROUTE_LOOKAHEAD = 32"
definition MAILBOX_LATE_ARRIVAL_DAYS :: int where "MAILBOX_LATE_ARRIVAL_DAYS = 7"
definition PRODUCTION_ENABLED :: bool where "PRODUCTION_ENABLED = False"
definition COMPOSITE_HEADER_LEN :: nat where
  "COMPOSITE_HEADER_LEN = length HEADER_DOMAIN + 1 + 32 + 4 + 4 + 4 + 4 + 4 + 1 + 32"
definition ACK_PLAINTEXT_LEN :: nat where "ACK_PLAINTEXT_LEN = 16 + 32 + 1 + 12 + 8 + 32 + 32 + 64"

section \<open>Key derivation\<close>

definition hkdf_sha256 :: "bytes \<Rightarrow> bytes \<Rightarrow> bytes \<Rightarrow> nat \<Rightarrow> bytes res" where
  "hkdf_sha256 ikm salt info len =
     (let salt = (if salt = [] then zeros 32 else salt)
      in expand_loop hmac_sha256 (hmac_sha256 salt ikm) info len 255 [] [])"

definition kdf_rk :: "bytes \<Rightarrow> bytes \<Rightarrow> (bytes \<times> bytes) res" where
  "kdf_rk rk dh_out =
     (if length rk \<noteq> 32 \<or> length dh_out \<noteq> 32 then Inl (ValueError ''rk and dh_out must be 32 bytes'')
      else if dh_out = zeros 32 then Inl (ValueError ''non-contributory DH rejected'')
      else bindE (hkdf_sha256 dh_out rk EC_RK_INFO 64) (\<lambda>okm. Inr (take 32 okm, drop 32 okm)))"

definition kdf_ck :: "bytes \<Rightarrow> (bytes \<times> bytes) res" where
  "kdf_ck ck =
     (if length ck \<noteq> 32 then Inl (ValueError ''ck must be 32 bytes'')
      else Inr (hmac_sha256 ck [2], hmac_sha256 ck [1]))"

definition kdf_hybrid :: "bytes \<Rightarrow> bytes \<Rightarrow> (bytes \<times> bytes) res" where
  "kdf_hybrid ec_mk scka_mk =
     (if length ec_mk \<noteq> 32 \<or> length scka_mk \<noteq> 32 then Inl (ValueError ''message keys must be 32 bytes'')
      else bindE (hkdf_sha256 ec_mk scka_mk TR_PROTOCOL_INFO 44) (\<lambda>okm.
           Inr (take 32 okm, take 12 (drop 32 okm))))"

record scka_init_out =
  si_rk :: bytes
  si_ck_send :: bytes
  si_ck_recv :: bytes

definition ratchet_init_alice_scka :: "bytes \<Rightarrow> scka_init_out res" where
  "ratchet_init_alice_scka sk_scka =
     (if length sk_scka \<noteq> 32 then Inl (ValueError ''SK_scka must be 32 bytes'')
      else bindE (hkdf_sha256 sk_scka (zeros 32) SCKA_INIT_INFO 96) (\<lambda>okm.
           Inr \<lparr>si_rk = slice okm 0 32, si_ck_send = slice okm 32 64, si_ck_recv = slice okm 64 96\<rparr>))"

definition ratchet_init_bob_scka :: "bytes \<Rightarrow> scka_init_out res" where
  "ratchet_init_bob_scka sk_scka =
     (if length sk_scka \<noteq> 32 then Inl (ValueError ''SK_scka must be 32 bytes'')
      else bindE (hkdf_sha256 sk_scka (zeros 32) SCKA_INIT_INFO 96) (\<lambda>okm.
           Inr \<lparr>si_rk = slice okm 0 32, si_ck_send = slice okm 64 96, si_ck_recv = slice okm 32 64\<rparr>))"

section \<open>Composite header and associated data\<close>

record ec_header =
  eh_dh_pub :: bytes
  eh_pn :: int
  eh_n :: int

record spqr_header =
  sh_sending_epoch :: int
  sh_receiving_epoch :: int
  sh_send_ctr :: int
  sh_chunk_flags :: int
  sh_kem_ct_digest :: bytes

definition encode_composite_header :: "ec_header \<Rightarrow> spqr_header \<Rightarrow> bytes res" where
  "encode_composite_header ec spqr =
     (if length (eh_dh_pub ec) \<noteq> 32 then Inl (ValueError ''dh_pub'')
      else if length (sh_kem_ct_digest spqr) \<noteq> 32 then Inl (ValueError ''kem_ct_digest'')
      else joinE [Inr HEADER_DOMAIN, Inr [word_of_int SEALED_PROTO], Inr (eh_dh_pub ec),
                  to_bytes (eh_pn ec) 4, to_bytes (eh_n ec) 4, to_bytes (sh_sending_epoch spqr) 4,
                  to_bytes (sh_receiving_epoch spqr) 4, to_bytes (sh_send_ctr spqr) 4,
                  Inr [word_of_int (sh_chunk_flags spqr)], Inr (sh_kem_ct_digest spqr)])"

text \<open>\<open>str.encode("ascii")\<close>.\<close>

definition ascii_encode :: "string \<Rightarrow> bytes res" where
  "ascii_encode s =
     (if list_all (\<lambda>c. of_char c < (128 :: nat)) s then Inr (asc s)
      else Inl (UnicodeError ''ordinal not in range(128)''))"

definition aead_aad :: "bytes \<Rightarrow> string \<Rightarrow> string \<Rightarrow> int \<Rightarrow> bytes \<Rightarrow> ec_header \<Rightarrow> spqr_header \<Rightarrow> bytes \<Rightarrow> bytes res" where
  "aead_aad session_id initiator_address responder_address direction cert_hash ec spqr header_bytes =
     (if length session_id \<noteq> 32 \<or> length cert_hash \<noteq> 32 then Inl (ValueError ''digest lengths'')
      else joinE [Inr AAD_DOMAIN, Inr PROFILE,
                  Inr [1, word_of_int SEALED_PROTO, word_of_int direction], Inr session_id,
                  ascii_encode initiator_address, Inr [0], ascii_encode responder_address,
                  Inr cert_hash, Inr (eh_dh_pub ec), to_bytes (eh_n ec) 4,
                  to_bytes (sh_sending_epoch spqr) 4, to_bytes (sh_send_ctr spqr) 4, Inr header_bytes])"

definition aead_seal :: "crypto \<Rightarrow> bytes \<Rightarrow> bytes \<Rightarrow> bytes \<Rightarrow> bytes \<Rightarrow> bytes res" where
  "aead_seal c key nonce plaintext aad = aead_encrypt c key nonce plaintext aad"

definition aead_open :: "crypto \<Rightarrow> bytes \<Rightarrow> bytes \<Rightarrow> bytes \<Rightarrow> bytes \<Rightarrow> bytes res" where
  "aead_open c key nonce ciphertext aad = aead_decrypt c key nonce ciphertext aad"

section \<open>AckV2\<close>

record ack_v2 =
  ak_message_id :: bytes
  ak_object_digest :: bytes
  ak_status :: int
  ak_nonce :: bytes
  ak_created_at_ms :: int
  ak_cert_hash :: bytes
  ak_session_id :: bytes
  ak_signature :: bytes

definition ack_signing_bytes :: "ack_v2 \<Rightarrow> bytes res" where
  "ack_signing_bytes a =
     (if length (ak_message_id a) \<noteq> 16 then Inl (ValueError ''acked_message_id'')
      else if length (ak_object_digest a) \<noteq> 32 then Inl (ValueError ''acked_object_digest'')
      else if ak_status a \<notin> {1, 2} then Inl (ValueError ''status'')
      else if length (ak_nonce a) \<noteq> 12 then Inl (ValueError ''ack_nonce'')
      else if length (ak_cert_hash a) \<noteq> 32 \<or> length (ak_session_id a) \<noteq> 32 then Inl (ValueError ''binding'')
      else joinE [Inr ACK_DOMAIN, Inr (ak_message_id a), Inr (ak_object_digest a),
                  Inr [word_of_int (ak_status a)], Inr (ak_nonce a), to_bytes (ak_created_at_ms a) 8,
                  Inr (ak_cert_hash a), Inr (ak_session_id a)])"

definition encode_ack_plaintext :: "ack_v2 \<Rightarrow> bytes res" where
  "encode_ack_plaintext a =
     (if length (ak_signature a) \<noteq> 64 then Inl (ValueError ''signature'')
      else bindE (ack_signing_bytes a) (\<lambda>b. Inr (drop (length ACK_DOMAIN) b @ ak_signature a)))"

definition decode_ack_plaintext :: "bytes \<Rightarrow> ack_v2 res" where
  "decode_ack_plaintext buf =
     (if length buf \<noteq> ACK_PLAINTEXT_LEN then Inl (ValueError ''AckV2 plaintext length'')
      else Inr \<lparr>ak_message_id = slice buf 0 16, ak_object_digest = slice buf 16 48,
                ak_status = uint (buf ! 48), ak_nonce = slice buf 49 61,
                ak_created_at_ms = from_bytes (slice buf 61 69), ak_cert_hash = slice buf 69 101,
                ak_session_id = slice buf 101 133, ak_signature = slice buf 133 197\<rparr>)"

definition sign_ack :: "crypto \<Rightarrow> ack_v2 \<Rightarrow> bytes \<Rightarrow> ack_v2 res" where
  "sign_ack c a device_ed_priv =
     bindE (ed_load_private c device_ed_priv) (\<lambda>_.
     bindE (ack_signing_bytes a) (\<lambda>m.
     bindE (ed_sign c device_ed_priv m) (\<lambda>sig. Inr (a\<lparr>ak_signature := sig\<rparr>))))"

definition verify_ack :: "crypto \<Rightarrow> ack_v2 \<Rightarrow> bytes \<Rightarrow> bool res" where
  "verify_ack c a device_ed_pub =
     (case bindE (ed_load_public c device_ed_pub) (\<lambda>_.
           bindE (ack_signing_bytes a) (\<lambda>m. ed_verify c device_ed_pub (ak_signature a) m)) of
        Inr _ \<Rightarrow> Inr True
      | Inl e \<Rightarrow> if e = InvalidSignature \<or> is_value_error e then Inr False else Inl e)"

definition ratchet_domain_catalog :: "(string \<times> string) list" where
  "ratchet_domain_catalog =
     [(''PROFILE'', bytes_hex PROFILE),
      (''TR_PROTOCOL_INFO'', bytes_hex TR_PROTOCOL_INFO),
      (''SPQR_PROTOCOL_INFO'', bytes_hex SPQR_PROTOCOL_INFO),
      (''EC_RK_INFO'', bytes_hex EC_RK_INFO),
      (''AEAD_NONCE_INFO'', bytes_hex AEAD_NONCE_INFO),
      (''SCKA_INIT_INFO'', bytes_hex SCKA_INIT_INFO),
      (''SCKA_INIT_ALICE_INFO'', bytes_hex SCKA_INIT_ALICE_INFO),
      (''SCKA_INIT_BOB_INFO'', bytes_hex SCKA_INIT_BOB_INFO),
      (''ACK_DOMAIN'', bytes_hex ACK_DOMAIN),
      (''AAD_DOMAIN'', bytes_hex AAD_DOMAIN),
      (''HEADER_DOMAIN'', bytes_hex HEADER_DOMAIN),
      (''SEALED_PROTO'', bytes_hex [word_of_int SEALED_PROTO]),
      (''MAX_SKIP'', py_str MAX_SKIP),
      (''ROUTE_LOOKAHEAD'', py_str ROUTE_LOOKAHEAD),
      (''MAILBOX_LATE_ARRIVAL_DAYS'', py_str MAILBOX_LATE_ARRIVAL_DAYS),
      (''COMPOSITE_HEADER_LEN'', py_str (int COMPOSITE_HEADER_LEN)),
      (''ACK_PLAINTEXT_LEN'', py_str (int ACK_PLAINTEXT_LEN)),
      (''KDF_HYBRID_L'', ''44''),
      (''AEAD'', ''ChaCha20-Poly1305'')]"

section \<open>The derivations are total on keys of the right length\<close>

lemma hkdf_total: "len \<le> 8160 \<Longrightarrow> \<exists>okm. hkdf_sha256 ikm salt info len = Inr okm \<and> length okm = len"
  using hmac256.expand_loop_total[of len "[]" 255]
  by (simp add: hkdf_sha256_def Let_def)

lemma hkdf_len: "hkdf_sha256 ikm salt info len = Inr okm \<Longrightarrow> length okm = len"
  by (auto simp: hkdf_sha256_def Let_def hmac256.expand_loop_len)

lemma kdf_rk_iff: "(\<exists>r. kdf_rk rk d = Inr r) \<longleftrightarrow> length rk = 32 \<and> length d = 32 \<and> d \<noteq> zeros 32"
  using hkdf_total[of 64 d rk EC_RK_INFO] by (auto simp: kdf_rk_def bindE_eq_Inr)

lemma kdf_rk_len: "kdf_rk rk d = Inr (a, b) \<Longrightarrow> length a = 32 \<and> length b = 32"
  by (auto simp: kdf_rk_def bindE_eq_Inr dest!: hkdf_len split: if_splits)

lemma kdf_ck_Inr: "length ck = 32 \<Longrightarrow> kdf_ck ck = Inr (hmac_sha256 ck [2], hmac_sha256 ck [1])"
  by (simp add: kdf_ck_def)

lemma kdf_ck_eq_Inr: "kdf_ck ck = Inr (ck', mk) \<longleftrightarrow>
    length ck = 32 \<and> ck' = hmac_sha256 ck [2] \<and> mk = hmac_sha256 ck [1]"
  by (auto simp: kdf_ck_def)

lemma kdf_hybrid_total: "length e = 32 \<Longrightarrow> length s = 32 \<Longrightarrow>
    \<exists>k n. kdf_hybrid e s = Inr (k, n) \<and> length k = 32 \<and> length n = 12"
  using hkdf_total[of 44 e s TR_PROTOCOL_INFO] by (auto simp: kdf_hybrid_def bindE_eq_Inr)

text \<open>Both roles expand the same secret; one sends on the chain the other receives on.\<close>

lemma scka_init_mirror: "ratchet_init_bob_scka sk =
    bindE (ratchet_init_alice_scka sk) (\<lambda>a.
      Inr \<lparr>si_rk = si_rk a, si_ck_send = si_ck_recv a, si_ck_recv = si_ck_send a\<rparr>)"
  by (cases "hkdf_sha256 sk (zeros 32) SCKA_INIT_INFO 96")
     (simp_all add: ratchet_init_bob_scka_def ratchet_init_alice_scka_def)

lemma scka_init_total: "length sk = 32 \<Longrightarrow> \<exists>a. ratchet_init_alice_scka sk = Inr a \<and>
    length (si_rk a) = 32 \<and> length (si_ck_send a) = 32 \<and> length (si_ck_recv a) = 32"
  using hkdf_total[of 96 sk "zeros 32" SCKA_INIT_INFO]
  by (auto simp: ratchet_init_alice_scka_def slice_def)

section \<open>AckV2 plaintexts\<close>

lemma ack_lengths: "length ACK_DOMAIN = 12" "ACK_PLAINTEXT_LEN = 197"
  by (simp_all add: ACK_DOMAIN_def ACK_PLAINTEXT_LEN_def asc_def)

definition wf_ack :: "ack_v2 \<Rightarrow> bool" where
  "wf_ack a \<longleftrightarrow> length (ak_message_id a) = 16 \<and> length (ak_object_digest a) = 32 \<and>
     ak_status a \<in> {1, 2} \<and> length (ak_nonce a) = 12 \<and> length (ak_cert_hash a) = 32 \<and>
     length (ak_session_id a) = 32 \<and> uint_fits 8 (ak_created_at_ms a)"

definition ack_body :: "ack_v2 \<Rightarrow> bytes" where
  "ack_body a = ak_message_id a @ ak_object_digest a @ u8 (ak_status a) @ ak_nonce a @
     be_bytes 8 (ak_created_at_ms a) @ ak_cert_hash a @ ak_session_id a"

lemma ack_signing_iff: "ack_signing_bytes a = Inr b \<longleftrightarrow> wf_ack a \<and> b = ACK_DOMAIN @ ack_body a"
  by (auto simp: ack_signing_bytes_def bindE_eq_Inr to_bytes_fits wf_ack_def ack_body_def u8_def
      if_Inl_eq_Inr)

lemma encode_ack_iff: "encode_ack_plaintext a = Inr b \<longleftrightarrow>
    wf_ack a \<and> length (ak_signature a) = 64 \<and> b = ack_body a @ ak_signature a"
  by (auto simp: encode_ack_plaintext_def bindE_eq_Inr ack_signing_iff if_Inl_eq_Inr)

lemma length_ack_body: "wf_ack a \<Longrightarrow> length (ack_body a) = 133"
  by (auto simp: wf_ack_def ack_body_def)

lemma slice_mid: "length a = i \<Longrightarrow> length b = j - i \<Longrightarrow> i \<le> j \<Longrightarrow> slice (a @ b @ c) i j = b"
  by (simp add: slice_def)

lemma decode_ack_body: "wf_ack a \<Longrightarrow> length (ak_signature a) = 64 \<Longrightarrow>
    decode_ack_plaintext (ack_body a @ ak_signature a) = Inr a"
  using length_ack_body[of a]
  by (cases a) (auto simp: decode_ack_plaintext_def ack_lengths wf_ack_def ack_body_def slice_def
      nth_append u8_def uint_fits_def uint_word_of_int)

lemma slice_append:
  assumes "i \<le> j" "j \<le> k"
  shows "slice b i j @ slice b j k = slice b i k"
proof -
  have "take k b = take j b @ drop j (take k b)"
    using assms(2) by (metis append_take_drop_id min.absorb1 take_take)
  moreover have "drop i (take j b @ drop j (take k b)) = drop i (take j b) @ drop j (take k b)"
    using assms by (cases "j \<le> length b") auto
  ultimately show ?thesis by (simp add: slice_def)
qed

lemma slice_one: "i < length b \<Longrightarrow> slice b i (Suc i) = [b ! i]"
  by (simp add: slice_def take_Suc_conv_app_nth)

lemma decode_ack_dest:
  assumes "decode_ack_plaintext b = Inr a" "ak_status a \<in> {1, 2}"
  shows "encode_ack_plaintext a = Inr b"
proof -
  have len: "length b = 197" and a: "a = \<lparr>ak_message_id = slice b 0 16, ak_object_digest = slice b 16 48,
      ak_status = uint (b ! 48), ak_nonce = slice b 49 61,
      ak_created_at_ms = from_bytes (slice b 61 69), ak_cert_hash = slice b 69 101,
      ak_session_id = slice b 101 133, ak_signature = slice b 133 197\<rparr>"
    using assms(1) by (auto simp: decode_ack_plaintext_def ack_lengths split: if_splits)
  have be: "be_bytes 8 (from_bytes (slice b 61 69)) = slice b 61 69"
    using be_from_bytes[of "slice b 61 69"] len by (simp add: slice_def)
  have fits: "uint_fits 8 (from_bytes (slice b 61 69))"
    using from_bytes_bounds[of "slice b 61 69"] len by (simp add: slice_def uint_fits_def)
  have "slice b 0 16 @ slice b 16 48 @ slice b 48 (Suc 48) @ slice b 49 61 @ slice b 61 69 @
      slice b 69 101 @ slice b 101 133 @ slice b 133 197 = b"
    using len by (simp add: slice_append) (simp add: slice_def)
  then have whole: "ack_body a @ ak_signature a = b"
    using len slice_one[of 48 b] by (simp add: a ack_body_def u8_def be)
  have lens: "length (slice b i j) = j - i" if "j \<le> 197" for i j
    using len that by (simp add: slice_def)
  show ?thesis
    using assms(2) fits unfolding encode_ack_iff whole by (simp add: a wf_ack_def lens)
qed

end
