(* ===== verification/RatchetState.thy ===== *)
theory RatchetState
  imports Ratchet
begin

text \<open>
  \<open>hybrid_ratchet_v2_state.py\<close>: SCKA epochs and chains, the symmetric EC receive chain with skipped
  keys, the commit ledger, routing and mailbox tags, the mailbox catch-up plan and the crash-order
  machine of a receive commit.
\<close>

definition SCKA_RK_INFO :: bytes where "SCKA_RK_INFO = SPQR_PROTOCOL_INFO"
definition ROUTE_INFO_PREFIX :: bytes where "ROUTE_INFO_PREFIX = PROFILE @ [0] @ asc ''route'' @ [0]"
definition ROUTE_TAG_DOMAIN :: bytes where "ROUTE_TAG_DOMAIN = asc ''ATSAM/v2/route''"
definition MAILBOX_TAG_DOMAIN :: bytes where "MAILBOX_TAG_DOMAIN = asc ''ATSAM/v2/mailbox''"
definition STORE_TAG_DOMAIN :: bytes where "STORE_TAG_DOMAIN = asc ''raven/relay-tag/v1''"
definition MS_PER_DAY :: int where "MS_PER_DAY = 86400000"

section \<open>SCKA epochs\<close>

definition kdf_scka_rk :: "bytes \<Rightarrow> bytes \<Rightarrow> (bytes \<times> bytes) res" where
  "kdf_scka_rk rk ss =
     (if length rk \<noteq> 32 \<or> length ss \<noteq> 32 then Inl (ValueError ''rk and ss must be 32 bytes'')
      else if ss = zeros 32 then Inl (ValueError ''non-contributory SCKA ss rejected'')
      else bindE (hkdf_sha256 ss rk SCKA_RK_INFO 64) (\<lambda>okm. Inr (take 32 okm, drop 32 okm)))"

definition kdf_scka_ck :: "bytes \<Rightarrow> (bytes \<times> bytes) res" where
  "kdf_scka_ck ck = kdf_ck ck"

record scka_state =
  ss_rk :: bytes
  ss_ck_send :: bytes
  ss_ck_recv :: bytes
  ss_sending_epoch :: int
  ss_receiving_epoch :: int
  ss_send_ctr :: int
  ss_recv_ctr :: int

definition scka_fingerprint :: "scka_state \<Rightarrow> bytes res" where
  "scka_fingerprint s =
     bindE (joinE [Inr (ss_rk s), Inr (ss_ck_send s), Inr (ss_ck_recv s), to_bytes (ss_sending_epoch s) 4,
       to_bytes (ss_receiving_epoch s) 4, to_bytes (ss_send_ctr s) 4, to_bytes (ss_recv_ctr s) 4])
     (\<lambda>m. Inr (sha256 m))"

definition scka_from_init :: "bool \<Rightarrow> bytes \<Rightarrow> scka_state res" where
  "scka_from_init alice sk_scka =
     bindE (if alice then ratchet_init_alice_scka sk_scka else ratchet_init_bob_scka sk_scka) (\<lambda>init.
     Inr \<lparr>ss_rk = si_rk init, ss_ck_send = si_ck_send init, ss_ck_recv = si_ck_recv init,
          ss_sending_epoch = 0, ss_receiving_epoch = 0, ss_send_ctr = 0, ss_recv_ctr = 0\<rparr>)"

definition scka_epoch_promote_initiator :: "scka_state \<Rightarrow> bytes \<Rightarrow> scka_state res" where
  "scka_epoch_promote_initiator s ss =
     bindE (kdf_scka_rk (ss_rk s) ss) (\<lambda>(rk2, ck).
     Inr (s\<lparr>ss_rk := rk2, ss_ck_send := ck, ss_sending_epoch := ss_sending_epoch s + 1,
            ss_send_ctr := 0\<rparr>))"

definition scka_epoch_promote_responder :: "scka_state \<Rightarrow> bytes \<Rightarrow> scka_state res" where
  "scka_epoch_promote_responder s ss =
     bindE (kdf_scka_rk (ss_rk s) ss) (\<lambda>(rk2, ck).
     Inr (s\<lparr>ss_rk := rk2, ss_ck_recv := ck, ss_receiving_epoch := ss_receiving_epoch s + 1,
            ss_recv_ctr := 0\<rparr>))"

definition scka_next_send_mk :: "scka_state \<Rightarrow> (scka_state \<times> bytes) res" where
  "scka_next_send_mk s =
     bindE (kdf_scka_ck (ss_ck_send s)) (\<lambda>(ck2, mk).
     Inr (s\<lparr>ss_ck_send := ck2, ss_send_ctr := ss_send_ctr s + 1\<rparr>, mk))"

definition scka_next_recv_mk :: "scka_state \<Rightarrow> (scka_state \<times> bytes) res" where
  "scka_next_recv_mk s =
     bindE (kdf_scka_ck (ss_ck_recv s)) (\<lambda>(ck2, mk).
     Inr (s\<lparr>ss_ck_recv := ck2, ss_recv_ctr := ss_recv_ctr s + 1\<rparr>, mk))"

section \<open>The EC receive chain\<close>

definition mk_key :: "bytes \<Rightarrow> int \<Rightarrow> bytes res" where
  "mk_key dh_pub n = bindE (to_bytes n 4) (\<lambda>b. Inr (dh_pub @ b))"

record ec_recv_state =
  er_ck :: bytes
  er_n :: int
  er_dh_pub :: bytes
  er_mkskipped :: "(bytes, bytes) dict"

definition skipped_items :: "(bytes, bytes) dict \<Rightarrow> bytes" where
  "skipped_items d = concat (sort (map (\<lambda>(k, v). k @ v) d))"

definition ec_recv_fingerprint :: "ec_recv_state \<Rightarrow> bytes res" where
  "ec_recv_fingerprint s =
     bindE (joinE [Inr (er_ck s), Inr (er_dh_pub s), to_bytes (er_n s) 4,
                   Inr (skipped_items (er_mkskipped s))]) (\<lambda>m. Inr (sha256 m))"

record ec_send_state =
  es_ck :: bytes
  es_n :: int
  es_dh_pub :: bytes

definition ec_send_mk :: "ec_send_state \<Rightarrow> (ec_send_state \<times> bytes) res" where
  "ec_send_mk s = bindE (kdf_ck (es_ck s)) (\<lambda>(ck2, mk). Inr (s\<lparr>es_ck := ck2, es_n := es_n s + 1\<rparr>, mk))"

text \<open>
  The loop \<open>while n < until_n\<close> over the chain, with the way a skipped key is stored as an argument
  (this module assigns to the dictionary, the triple ratchet checks its cap first); \<open>k\<close> is the
  number of turns left.
\<close>

primrec skip_chain :: "(bytes \<Rightarrow> bytes \<Rightarrow> 'd \<Rightarrow> 'd res) \<Rightarrow> bytes \<Rightarrow> nat \<Rightarrow> bytes \<Rightarrow> int \<Rightarrow> 'd \<Rightarrow> (bytes \<times> 'd) res" where
  "skip_chain ins dh 0 ck n skipped = Inr (ck, skipped)"
| "skip_chain ins dh (Suc k) ck n skipped =
     bindE (kdf_ck ck) (\<lambda>(ck, mk).
     bindE (mk_key dh n) (\<lambda>key.
     bindE (ins key mk skipped) (\<lambda>skipped.
     skip_chain ins dh k ck (n + 1) skipped)))"

definition assign_skipped :: "bytes \<Rightarrow> bytes \<Rightarrow> (bytes, bytes) dict \<Rightarrow> (bytes, bytes) dict res" where
  "assign_skipped key mk skipped = Inr (AList.update key mk skipped)"

definition ec_skip_keys :: "ec_recv_state \<Rightarrow> int \<Rightarrow> int \<Rightarrow> ec_recv_state res" where
  "ec_skip_keys s until_n max_skip =
     (if until_n < er_n s then Inl (ValueError ''until_n behind current n'')
      else if until_n - er_n s > max_skip then Inl (ValueError ''MAX_SKIP exceeded'')
      else bindE (skip_chain assign_skipped (er_dh_pub s) (nat (until_n - er_n s)) (er_ck s) (er_n s) (er_mkskipped s))
             (\<lambda>(ck, skipped). Inr (s\<lparr>er_ck := ck, er_n := until_n, er_mkskipped := skipped\<rparr>)))"

definition ec_try_skipped :: "ec_recv_state \<Rightarrow> bytes \<Rightarrow> int \<Rightarrow> (bytes option \<times> ec_recv_state) res" where
  "ec_try_skipped s dh_pub n =
     bindE (mk_key dh_pub n) (\<lambda>key.
     case map_of (er_mkskipped s) key of
       None \<Rightarrow> Inr (None, s)
     | Some mk \<Rightarrow> Inr (Some mk, s\<lparr>er_mkskipped := AList.delete key (er_mkskipped s)\<rparr>))"

definition ec_recv_in_order :: "ec_recv_state \<Rightarrow> (ec_recv_state \<times> bytes) res" where
  "ec_recv_in_order s =
     bindE (kdf_ck (er_ck s)) (\<lambda>(ck2, mk). Inr (s\<lparr>er_ck := ck2, er_n := er_n s + 1\<rparr>, mk))"

definition ec_recv_message :: "ec_recv_state \<Rightarrow> bytes \<Rightarrow> int \<Rightarrow> int \<Rightarrow> (ec_recv_state \<times> bytes) res" where
  "ec_recv_message s dh_pub n max_skip =
     (if dh_pub \<noteq> er_dh_pub s then Inl (ValueError ''DH ratchet not modeled in this KAT path'')
      else bindE (ec_try_skipped s dh_pub n) (\<lambda>(mk, s').
        case mk of
          Some mk \<Rightarrow> Inr (s', mk)
        | None \<Rightarrow>
            if n < er_n s then Inl (ValueError ''replay of consumed index'')
            else bindE (if n > er_n s then ec_skip_keys s n max_skip else Inr s) ec_recv_in_order))"

section \<open>The commit ledger\<close>

record accept_key =
  ac_session_id :: bytes
  ac_dh_pub :: bytes
  ac_n :: int
  ac_scka_epoch :: int
  ac_scka_ctr :: int

definition packed :: "accept_key \<Rightarrow> bytes res" where
  "packed k = joinE [Inr (ac_session_id k), Inr (ac_dh_pub k), to_bytes (ac_n k) 4,
     to_bytes (ac_scka_epoch k) 4, to_bytes (ac_scka_ctr k) 4]"

text \<open>The set of accepted keys is a list without repetitions.\<close>

record commit_ledger =
  cl_accepted_keys :: "bytes list"
  cl_digest_to_ack :: "(bytes, bytes) dict"
  cl_mutation_count :: int

definition empty_ledger :: commit_ledger where
  "empty_ledger = \<lparr>cl_accepted_keys = [], cl_digest_to_ack = [], cl_mutation_count = 0\<rparr>"

definition ledger_fingerprint :: "commit_ledger \<Rightarrow> bytes res" where
  "ledger_fingerprint l =
     bindE (to_bytes (cl_mutation_count l) 8) (\<lambda>c.
     Inr (sha256 (concat (sort (cl_accepted_keys l)) @ skipped_items (cl_digest_to_ack l) @ c)))"

definition commit_accept :: "commit_ledger \<Rightarrow> accept_key \<Rightarrow> bytes \<Rightarrow> bytes \<Rightarrow> (commit_ledger \<times> string) res" where
  "commit_accept l key object_digest retained_ack =
     bindE (packed key) (\<lambda>p.
     if p \<in> set (cl_accepted_keys l) then Inr (l, ''replay_no_mutation'')
     else if map_of (cl_digest_to_ack l) object_digest \<noteq> None then Inr (l, ''duplicate_committed'')
     else Inr (\<lparr>cl_accepted_keys = cl_accepted_keys l @ [p],
                cl_digest_to_ack = AList.update object_digest retained_ack (cl_digest_to_ack l),
                cl_mutation_count = cl_mutation_count l + 1\<rparr>, ''accepted''))"

definition duplicate_ack_exact :: "commit_ledger \<Rightarrow> bytes \<Rightarrow> bytes option" where
  "duplicate_ack_exact l object_digest = map_of (cl_digest_to_ack l) object_digest"

section \<open>Routing and mailbox tags\<close>

unbundle bit_operations_syntax

definition k_route :: "bytes \<Rightarrow> int \<Rightarrow> bytes res" where
  "k_route k_route_master direction =
     (if length k_route_master \<noteq> 32 then Inl (ValueError ''k_route_master'')
      else if direction \<notin> {0, 1} then Inl (ValueError ''direction'')
      else hkdf_sha256 k_route_master (zeros 32) (ROUTE_INFO_PREFIX @ [word_of_int direction]) 32)"

definition routing_counter :: "int \<Rightarrow> int \<Rightarrow> int \<Rightarrow> int" where
  "routing_counter n app_type direction =
     push_bit 8 (n AND 0xFFFFFFFFFFFFFFFF) OR push_bit 1 (app_type AND 0x7F) OR (direction AND 1)"

definition routing_tag :: "bytes \<Rightarrow> int \<Rightarrow> int \<Rightarrow> int \<Rightarrow> int \<Rightarrow> bytes \<Rightarrow> bytes res" where
  "routing_tag k_route_d created_at_ms n app_type direction session_id =
     bindE (joinE [Inr ROUTE_TAG_DOMAIN, to_bytes (created_at_ms div 1000) 8,
                   to_bytes (routing_counter n app_type direction) 8, Inr session_id])
       (\<lambda>msg. Inr (take 16 (hmac_sha256 k_route_d msg)))"

definition mailbox_tag :: "bytes \<Rightarrow> int \<Rightarrow> int \<Rightarrow> bytes \<Rightarrow> bytes res" where
  "mailbox_tag k_route_d unix_ms direction session_id =
     bindE (joinE [Inr MAILBOX_TAG_DOMAIN, to_bytes (unix_ms div MS_PER_DAY) 8, to_bytes direction 8,
                   Inr session_id])
       (\<lambda>msg. Inr (take 16 (hmac_sha256 k_route_d msg)))"

definition store_tag :: "bytes \<Rightarrow> bytes" where
  "store_tag mailbox_tag_bytes = take 16 (sha256 (STORE_TAG_DOMAIN @ mailbox_tag_bytes))"

section \<open>Mailbox catch-up\<close>

record mailbox_plan =
  mp_today :: int
  mp_ttl_horizon :: int
  mp_late_arrival_floor :: int
  mp_historical_days :: "int list"
  mp_always_repoll_days :: "int list"

definition mailbox_catchup_plan :: "int \<Rightarrow> int \<Rightarrow> int \<Rightarrow> int \<Rightarrow> mailbox_plan" where
  "mailbox_catchup_plan now_ms catchup_cursor_day mailbox_ttl_days late_arrival_days =
     (let today = now_ms div MS_PER_DAY;
          ttl_horizon = today - mailbox_ttl_days;
          late_arrival_floor = today - late_arrival_days;
          start = max (catchup_cursor_day + 1) ttl_horizon;
          historical = (if start < today then [start .. today - 1] else []);
          always = sort (remdups [max late_arrival_floor ttl_horizon .. today])
      in \<lparr>mp_today = today, mp_ttl_horizon = ttl_horizon, mp_late_arrival_floor = late_arrival_floor,
          mp_historical_days = historical, mp_always_repoll_days = always\<rparr>)"

section \<open>Candidate decryption\<close>

definition candidate_decrypt :: "crypto \<Rightarrow> bytes \<Rightarrow> bytes \<Rightarrow> bytes \<Rightarrow> bytes \<Rightarrow> bytes \<Rightarrow> (string, pyval) dict" where
  "candidate_decrypt c key nonce ciphertext aad live_fp =
     (case aead_open c key nonce ciphertext aad of
        Inr pt \<Rightarrow>
          [(''open_result'', PStr ''ok''),
           (''plaintext_hex'', PStr (bytes_hex pt)),
           (''durable_mutation'', PBool True),
           (''promote_live_head'', PBool True),
           (''live_fp_after_hex'', PStr (bytes_hex (sha256 (live_fp @ [1]))))]
      | Inl _ \<Rightarrow>
          [(''open_result'', PStr ''fail''),
           (''durable_mutation'', PBool False),
           (''promote_live_head'', PBool False),
           (''live_fp_after_hex'', PStr (bytes_hex live_fp))])"

section \<open>The crash-order machine of a receive commit\<close>

text \<open>The values of the attribute \<open>state\<close>.\<close>

datatype commit_phase = Idle | Candidate | Derived | AeadOk | Pending | SqlCommitted
  | SkippedPersisted | Finalized | Cleared

record commit_machine =
  cm_state :: commit_phase
  cm_durable_mutation :: bool
  cm_skipped_persisted :: bool
  cm_epoch_promoted :: bool
  cm_epoch_on_candidate :: bool
  cm_generation :: int

definition fresh_machine :: commit_machine where
  "fresh_machine = \<lparr>cm_state = Idle, cm_durable_mutation = False, cm_skipped_persisted = False,
     cm_epoch_promoted = False, cm_epoch_on_candidate = False, cm_generation = 0\<rparr>"

text \<open>Every \<open>raise\<close> of \<open>apply\<close> comes before its assignments, so an error leaves the machine as it was.\<close>

definition commit_apply :: "commit_machine \<Rightarrow> string \<Rightarrow> commit_machine res" where
  "commit_apply m action =
     (if action = ''clone_candidate'' then
        (if cm_state m \<noteq> Idle then Inl (CrashMachineError ''bad'') else Inr (m\<lparr>cm_state := Candidate\<rparr>))
      else if action = ''derive_keys_on_candidate'' then
        (if cm_state m \<noteq> Candidate then Inl (CrashMachineError ''bad'') else Inr (m\<lparr>cm_state := Derived\<rparr>))
      else if action = ''aead_ok'' then
        (if cm_state m \<notin> {Derived} then Inl (CrashMachineError ''bad'') else Inr (m\<lparr>cm_state := AeadOk\<rparr>))
      else if action = ''write_PENDING_inbound'' then
        (if cm_state m \<noteq> AeadOk then Inl (CrashMachineError ''bad'') else Inr (m\<lparr>cm_state := Pending\<rparr>))
      else if action = ''sql_commit_receipt_dedup'' then
        (if cm_state m \<noteq> Pending then Inl (CrashMachineError ''bad'')
         else Inr (m\<lparr>cm_state := SqlCommitted, cm_durable_mutation := True\<rparr>))
      else if action = ''persist_MKSKIPPED'' then
        (if cm_state m \<noteq> SqlCommitted then Inl (CrashMachineError ''bad'')
         else Inr (m\<lparr>cm_skipped_persisted := True, cm_state := SkippedPersisted\<rparr>))
      else if action = ''FINALIZE_head'' then
        (if cm_state m \<notin> {SqlCommitted, SkippedPersisted} then Inl (CrashMachineError ''finalize_requires_sql'')
         else if cm_epoch_on_candidate m then Inl (CrashMachineError ''use_commit_epoch_with_finalize'')
         else Inr (m\<lparr>cm_generation := cm_generation m + 1, cm_state := Finalized\<rparr>))
      else if action = ''promote_scka_epoch_on_candidate'' then
        (if cm_state m \<notin> {Derived, AeadOk} then Inl (CrashMachineError ''bad'')
         else Inr (m\<lparr>cm_epoch_on_candidate := True\<rparr>))
      else if action = ''commit_epoch_with_finalize'' then
        (if cm_state m \<notin> {SqlCommitted, SkippedPersisted} then Inl (CrashMachineError ''epoch_requires_sql'')
         else if \<not> cm_epoch_on_candidate m then Inl (CrashMachineError ''epoch_requires_pending'')
         else if \<not> cm_durable_mutation m then Inl (CrashMachineError ''epoch_requires_sql'')
         else Inr (m\<lparr>cm_epoch_promoted := True, cm_generation := cm_generation m + 1, cm_state := Finalized\<rparr>))
      else if action = ''clear_PENDING'' then
        (if cm_state m \<noteq> Finalized then Inl (CrashMachineError ''bad'') else Inr (m\<lparr>cm_state := Cleared\<rparr>))
      else if action = ''FINALIZE_before_sql'' then Inl (CrashMachineError ''finalize_before_sql_forbidden'')
      else if action = ''promote_epoch_before_sql'' then Inl (CrashMachineError ''epoch_before_sql_forbidden'')
      else Inl (CrashMachineError (''unknown:'' @ action)))"

section \<open>Known-answer drivers\<close>

definition assertE :: "bool \<Rightarrow> unit res" where
  "assertE b = (if b then Inr () else Inl (AssertionError ''''))"

definition hexv :: "bytes \<Rightarrow> pyval" where
  "hexv b = PStr (bytes_hex b)"

definition run_braid_epoch_matrix :: "bytes \<Rightarrow> bytes \<Rightarrow> bytes \<Rightarrow> (string, pyval) dict res" where
  "run_braid_epoch_matrix sk_scka ss1 ss2 =
     bindE (scka_from_init True sk_scka) (\<lambda>alice.
     bindE (scka_from_init False sk_scka) (\<lambda>bob.
     bindE (assertE (ss_ck_send alice = ss_ck_recv bob)) (\<lambda>_.
     bindE (scka_epoch_promote_initiator alice ss1) (\<lambda>alice1i.
     bindE (scka_epoch_promote_responder bob ss1) (\<lambda>bob1r.
     bindE (assertE (ss_rk alice1i = ss_rk bob1r)) (\<lambda>_.
     bindE (assertE (ss_ck_send alice1i = ss_ck_recv bob1r)) (\<lambda>_.
     bindE (scka_next_send_mk alice1i) (\<lambda>(alice1, a_mk).
     bindE (scka_next_recv_mk bob1r) (\<lambda>(bob1, b_mk).
     bindE (assertE (a_mk = b_mk)) (\<lambda>_.
     bindE (scka_epoch_promote_initiator bob1 ss2) (\<lambda>bob2i.
     bindE (scka_epoch_promote_responder alice1 ss2) (\<lambda>alice2r.
     bindE (assertE (ss_rk bob2i = ss_rk alice2r)) (\<lambda>_.
     bindE (assertE (ss_ck_send bob2i = ss_ck_recv alice2r)) (\<lambda>_.
     bindE (scka_next_send_mk bob2i) (\<lambda>(bob2, b_mk2).
     bindE (scka_next_recv_mk alice2r) (\<lambda>(alice2, a_mk2).
     bindE (assertE (b_mk2 = a_mk2)) (\<lambda>_.
     Inr [(''epoch1'', PDict
            [(''rk_hex'', hexv (ss_rk alice1i)),
             (''alice_ck_send_hex'', hexv (ss_ck_send alice1i)),
             (''bob_ck_recv_hex'', hexv (ss_ck_recv bob1r)),
             (''alice_send_equals_bob_recv'', PBool (ss_ck_send alice1i = ss_ck_recv bob1r)),
             (''mk_hex'', hexv a_mk),
             (''alice_sending_epoch'', PInt (ss_sending_epoch alice1i)),
             (''bob_receiving_epoch'', PInt (ss_receiving_epoch bob1r))]),
          (''epoch2'', PDict
            [(''rk_hex'', hexv (ss_rk bob2i)),
             (''bob_ck_send_hex'', hexv (ss_ck_send bob2i)),
             (''alice_ck_recv_hex'', hexv (ss_ck_recv alice2r)),
             (''bob_send_equals_alice_recv'', PBool (ss_ck_send bob2i = ss_ck_recv alice2r)),
             (''mk_hex'', hexv b_mk2),
             (''bob_sending_epoch'', PInt (ss_sending_epoch bob2i)),
             (''alice_receiving_epoch'', PInt (ss_receiving_epoch alice2r))]),
          (''directions_reordered'', PBool True)])))))))))))))))))"

text \<open>The sender's first \<open>k\<close> message keys, and the receiver taking indices in a given order.\<close>

primrec send_mks :: "nat \<Rightarrow> ec_send_state \<Rightarrow> (bytes list) res" where
  "send_mks 0 s = Inr []"
| "send_mks (Suc k) s = bindE (ec_send_mk s) (\<lambda>(s, mk). bindE (send_mks k s) (\<lambda>mks. Inr (mk # mks)))"

primrec recv_in_order :: "bytes list \<Rightarrow> bytes \<Rightarrow> nat list \<Rightarrow> ec_recv_state \<Rightarrow>
    (ec_recv_state \<times> pyval list) res" where
  "recv_in_order mks dh_pub [] r = Inr (r, [])"
| "recv_in_order mks dh_pub (i # is) r =
     bindE (ec_recv_message r dh_pub (int i) MAX_SKIP) (\<lambda>(r, mk).
     bindE (assertE (mk = mks ! i)) (\<lambda>_.
     bindE (recv_in_order mks dh_pub is r) (\<lambda>(r, rest). Inr (r, hexv mk # rest))))"

definition run_ec_ooo_matrix :: "bytes \<Rightarrow> bytes \<Rightarrow> (string, pyval) dict res" where
  "run_ec_ooo_matrix ck0 dh_pub =
     bindE (send_mks 4 \<lparr>es_ck = ck0, es_n = 0, es_dh_pub = dh_pub\<rparr>) (\<lambda>mks.
     bindE (recv_in_order mks dh_pub [0, 3, 1, 2]
              \<lparr>er_ck = ck0, er_n = 0, er_dh_pub = dh_pub, er_mkskipped = []\<rparr>) (\<lambda>(recv, recovered).
     Inr [(''send_mks_hex'', PList (map hexv mks)),
          (''receive_order'', PList (map PInt [0, 3, 1, 2])),
          (''recovered_mks_hex'', PList recovered),
          (''final_skipped_count'', PInt (int (length (er_mkskipped recv)))),
          (''final_n'', PInt (er_n recv)),
          (''ooo_ok'', PBool True)]))"

section \<open>Symmetric chains\<close>

definition ck_at :: "bytes \<Rightarrow> nat \<Rightarrow> bytes" where
  "ck_at ck0 i = ((\<lambda>ck. hmac_sha256 ck [2]) ^^ i) ck0"

definition mk_at :: "bytes \<Rightarrow> nat \<Rightarrow> bytes" where
  "mk_at ck0 i = hmac_sha256 (ck_at ck0 i) [1]"

definition skey :: "bytes \<Rightarrow> nat \<Rightarrow> bytes" where
  "skey dh i = dh @ be_bytes 4 (int i)"

lemma ck_at_0 [simp]: "ck_at ck0 0 = ck0"
  by (simp add: ck_at_def)

lemma ck_at_Suc: "ck_at ck0 (Suc i) = hmac_sha256 (ck_at ck0 i) [2]"
  by (simp add: ck_at_def)

lemma length_ck_at [simp]: "length ck0 = 32 \<Longrightarrow> length (ck_at ck0 i) = 32"
  by (cases i) (simp_all add: ck_at_Suc)

lemma length_mk_at [simp]: "length (mk_at ck0 i) = 32"
  by (simp add: mk_at_def)

lemma kdf_ck_at [simp]: "length ck0 = 32 \<Longrightarrow> kdf_ck (ck_at ck0 i) = Inr (ck_at ck0 (Suc i), mk_at ck0 i)"
  by (simp add: kdf_ck_Inr mk_at_def ck_at_Suc)

lemma mk_key_Inr: "mk_key dh (int i) = Inr b \<longleftrightarrow> i < 2 ^ 32 \<and> b = skey dh i"
  by (auto simp: mk_key_def bindE_eq_Inr to_bytes_eq_Inr skey_def)

lemma mk_key_int [simp]: "i < 4294967296 \<Longrightarrow> mk_key dh (int i) = Inr (skey dh i)"
  by (simp add: mk_key_Inr)

lemma skey_inj: "i < 2 ^ 32 \<Longrightarrow> j < 2 ^ 32 \<Longrightarrow> skey dh i = skey dh j \<longleftrightarrow> i = j"
  using u32.enc_inj[of "int i" "int j"] by (auto simp: skey_def uint_fits_def)

text \<open>
  What the skip loop needs of the place where skipped keys go: a successful store of a new key
  adds exactly that key.
\<close>

locale skip_store =
  fixes get :: "'d \<Rightarrow> bytes \<Rightarrow> bytes option"
    and ins :: "bytes \<Rightarrow> bytes \<Rightarrow> 'd \<Rightarrow> 'd res"
    and ok :: "'d \<Rightarrow> bool"
  assumes ins_new: "ok d \<Longrightarrow> get d k = None \<Longrightarrow> ins k v d = Inr d' \<Longrightarrow> ok d' \<and> get d' = (get d)(k \<mapsto> v)"
begin

text \<open>Skipping from index \<open>n\<close> stores the chain's keys \<open>n\<close> to \<open>n + k - 1\<close> and nothing else.\<close>

lemma skip_chain_stores:
  assumes "skip_chain ins dh k (ck_at ck0 n) (int n) d = Inr (ck', d')"
    and "length ck0 = 32" "n + k \<le> 2 ^ 32" "ok d"
    and "\<And>i. n \<le> i \<Longrightarrow> i < n + k \<Longrightarrow> get d (skey dh i) = None"
  shows "ck' = ck_at ck0 (n + k) \<and> ok d' \<and>
    (\<forall>i. n \<le> i \<and> i < n + k \<longrightarrow> get d' (skey dh i) = Some (mk_at ck0 i)) \<and>
    (\<forall>x. (\<forall>i. n \<le> i \<and> i < n + k \<longrightarrow> x \<noteq> skey dh i) \<longrightarrow> get d' x = get d x)"
  using assms(1,3-5)
proof (induction k arbitrary: n d)
  case (Suc k)
  from Suc.prems(1) assms(2) obtain d1 where
    d1: "ins (skey dh n) (mk_at ck0 n) d = Inr d1"
    and rest: "skip_chain ins dh k (ck_at ck0 (Suc n)) (int (Suc n)) d1 = Inr (ck', d')"
    by (auto simp: bindE_eq_Inr mk_key_Inr add.commute)
  have g1: "ok d1" "get d1 = (get d)(skey dh n \<mapsto> mk_at ck0 n)"
    using ins_new[OF Suc.prems(3) _ d1] Suc.prems(4)[of n] by simp_all
  have ne: "skey dh i \<noteq> skey dh n" if "Suc n \<le> i" "i < Suc n + k" for i
    using that Suc.prems(2) skey_inj[of i n dh] by simp
  have IH: "ck' = ck_at ck0 (Suc n + k) \<and> ok d' \<and>
    (\<forall>i. Suc n \<le> i \<and> i < Suc n + k \<longrightarrow> get d' (skey dh i) = Some (mk_at ck0 i)) \<and>
    (\<forall>x. (\<forall>i. Suc n \<le> i \<and> i < Suc n + k \<longrightarrow> x \<noteq> skey dh i) \<longrightarrow> get d' x = get d1 x)"
    using Suc.prems ne by (intro Suc.IH[OF rest _ g1(1)]) (auto simp: g1)
  have first: "get d' (skey dh n) = Some (mk_at ck0 n)"
    using IH ne by (metis g1(2) fun_upd_same)
  then have "get d' (skey dh i) = Some (mk_at ck0 i)" if "n \<le> i \<and> i < n + Suc k" for i
    using IH that by (cases "i = n") auto
  moreover have "get d' x = get d x" if "\<forall>i. n \<le> i \<and> i < n + Suc k \<longrightarrow> x \<noteq> skey dh i" for x
    using IH that by (auto simp: g1)
  ultimately show ?case using IH by auto
qed auto

end

section \<open>A receiver's view of a chain\<close>

lemma delete_map_of: "map_of (AList.delete k d) = (map_of d)(k := None)"
  by (rule delete_conv')

text \<open>
  The receiver of chain \<open>ck0\<close> under \<open>dh\<close> after the indices in \<open>used\<close>: it stands at index \<open>n\<close> of the
  chain with chain key \<open>ck\<close>, and its store \<open>d\<close> holds exactly the passed and unused keys.
\<close>

definition chain_view :: "bytes \<Rightarrow> bytes \<Rightarrow> nat set \<Rightarrow> int \<Rightarrow> bytes \<Rightarrow> (bytes, bytes) dict \<Rightarrow> bool" where
  "chain_view ck0 dh used n ck d \<longleftrightarrow>
     length ck0 = 32 \<and> (\<exists>m \<le> 2 ^ 32. n = int m \<and> ck = ck_at ck0 m \<and> used \<subseteq> {..<m} \<and>
        (\<forall>i < 2 ^ 32. map_of d (skey dh i) = (if i < m \<and> i \<notin> used then Some (mk_at ck0 i) else None)))"

lemma chain_view_start: "length ck0 = 32 \<Longrightarrow> (\<And>i. i < 2 ^ 32 \<Longrightarrow> map_of d (skey dh i) = None) \<Longrightarrow>
    chain_view ck0 dh {} 0 ck0 d"
  by (auto simp: chain_view_def)

lemma chain_viewE:
  assumes "chain_view ck0 dh used n ck d"
  obtains m where "length ck0 = 32" "m \<le> 2 ^ 32" "n = int m" "ck = ck_at ck0 m" "used \<subseteq> {..<m}"
    "\<And>i. i < 2 ^ 32 \<Longrightarrow> map_of d (skey dh i) = (if i < m \<and> i \<notin> used then Some (mk_at ck0 i) else None)"
  using assms by (auto simp: chain_view_def)

lemma chain_view_take_old:
  assumes "chain_view ck0 dh used (int m) ck d" "i < m" "i \<notin> used" "i < 2 ^ 32"
  shows "chain_view ck0 dh (insert i used) (int m) ck (AList.delete (skey dh i) d)"
  using assms by (elim chain_viewE) (auto simp: chain_view_def delete_map_of skey_inj intro!: exI[of _ m])

locale dict_skip_store = skip_store map_of ins ok
  for ins :: "bytes \<Rightarrow> bytes \<Rightarrow> (bytes, bytes) dict \<Rightarrow> (bytes, bytes) dict res" and ok
begin

lemma skip_take_view:
  assumes view: "chain_view ck0 dh used (int m) ck d" and ok: "ok d" and i: "m \<le> i" "i < 2 ^ 32"
    and sc: "skip_chain ins dh (i - m) ck (int m) d = Inr (ck', d')"
  shows "ck' = ck_at ck0 i \<and> ok d' \<and>
    chain_view ck0 dh (insert i used) (int i + 1) (ck_at ck0 (Suc i)) d'"
proof -
  from view have ck0: "length ck0 = 32" and m: "ck = ck_at ck0 m" "used \<subseteq> {..<m}"
    and sk: "\<And>j. j < 2 ^ 32 \<Longrightarrow> map_of d (skey dh j) = (if j < m \<and> j \<notin> used then Some (mk_at ck0 j) else None)"
    by (auto elim!: chain_viewE)
  have st: "ck' = ck_at ck0 i" "ok d'"
    "\<And>j. m \<le> j \<Longrightarrow> j < i \<Longrightarrow> map_of d' (skey dh j) = Some (mk_at ck0 j)"
    "\<And>x. (\<forall>j. m \<le> j \<and> j < i \<longrightarrow> x \<noteq> skey dh j) \<Longrightarrow> map_of d' x = map_of d x"
    using skip_chain_stores[OF sc[unfolded m(1)] ck0 _ ok] sk i by auto
  have "map_of d' (skey dh j) = (if j < Suc i \<and> j \<notin> insert i used then Some (mk_at ck0 j) else None)"
    if "j < 2 ^ 32" for j
  proof (cases "m \<le> j \<and> j < i")
    case True
    then show ?thesis using st(3)[of j] m(2) by auto
  next
    case False
    then have "map_of d' (skey dh j) = map_of d (skey dh j)"
      using that i by (intro st(4)) (auto simp: skey_inj)
    then show ?thesis using sk[OF that] False i by auto
  qed
  then show ?thesis using st(1,2) ck0 m(2) i
    by (auto simp: chain_view_def intro!: exI[of _ "Suc i"])
qed

end

interpretation dict_store: dict_skip_store assign_skipped wf_dict
  by unfold_locales (auto simp: assign_skipped_def update_conv')

lemma skip_chain_assign_total: "length ck0 = 32 \<Longrightarrow> n + k \<le> 2 ^ 32 \<Longrightarrow>
    \<exists>r. skip_chain assign_skipped dh k (ck_at ck0 n) (int n) d = Inr r"
proof (induction k arbitrary: n d)
  case (Suc k)
  from Suc.IH[of "Suc n"] Suc.prems show ?case
    by (auto simp: assign_skipped_def add.commute)
qed simp

section \<open>The receiver recovers the sender's keys in any order\<close>

definition recv_inv :: "bytes \<Rightarrow> bytes \<Rightarrow> nat set \<Rightarrow> ec_recv_state \<Rightarrow> bool" where
  "recv_inv ck0 dh used s \<longleftrightarrow> er_dh_pub s = dh \<and> wf_dict (er_mkskipped s) \<and>
     chain_view ck0 dh used (er_n s) (er_ck s) (er_mkskipped s)"

lemma recv_inv_start: "length ck0 = 32 \<Longrightarrow>
    recv_inv ck0 dh {} \<lparr>er_ck = ck0, er_n = 0, er_dh_pub = dh, er_mkskipped = []\<rparr>"
  by (simp add: recv_inv_def chain_view_start)

lemma ec_recv_message_spec:
  assumes inv: "recv_inv ck0 dh used s" and i: "i < 2 ^ 32"
  shows "if i \<in> used then ec_recv_message s dh (int i) max_skip = Inl (ValueError ''replay of consumed index'')
    else if int i - er_n s > max_skip \<and> int i > er_n s
    then ec_recv_message s dh (int i) max_skip = Inl (ValueError ''MAX_SKIP exceeded'')
    else \<exists>s'. ec_recv_message s dh (int i) max_skip = Inr (s', mk_at ck0 i) \<and>
      recv_inv ck0 dh (insert i used) s' \<and> er_n s' = max (er_n s) (int i + 1)"
proof -
  from inv have dh: "er_dh_pub s = dh" and wfd: "wf_dict (er_mkskipped s)"
    and view: "chain_view ck0 dh used (er_n s) (er_ck s) (er_mkskipped s)"
    by (auto simp: recv_inv_def)
  from view obtain n where n: "n \<le> 2 ^ 32" "er_n s = int n" "er_ck s = ck_at ck0 n" "used \<subseteq> {..<n}"
    and ck0: "length ck0 = 32"
    and sk: "map_of (er_mkskipped s) (skey dh i) = (if i < n \<and> i \<notin> used then Some (mk_at ck0 i) else None)"
    using i by (elim chain_viewE) blast
  have try_eq: "ec_try_skipped s dh (int i) =
      (if i < n \<and> i \<notin> used then Inr (Some (mk_at ck0 i), s\<lparr>er_mkskipped := AList.delete (skey dh i) (er_mkskipped s)\<rparr>)
       else Inr (None, s))"
    using i sk by (simp add: ec_try_skipped_def)
  consider (used) "i \<in> used" | (old) "i < n" "i \<notin> used" | (new) "n \<le> i"
    using n(4) by force
  then show ?thesis
  proof cases
    case used
    then show ?thesis using n by (auto simp: ec_recv_message_def try_eq dh)
  next
    case old
    then show ?thesis using n dh wfd chain_view_take_old[OF view[unfolded n(2)] old i]
      by (auto simp: ec_recv_message_def try_eq recv_inv_def)
  next
    case new
    then have iu: "i \<notin> used" using n(4) by auto
    show ?thesis
    proof (cases "int i - er_n s > max_skip \<and> int i > er_n s")
      case True
      then show ?thesis using new iu n
        by (auto simp: ec_recv_message_def try_eq dh ec_skip_keys_def)
    next
      case False
      obtain ck' d' where sc: "skip_chain assign_skipped dh (i - n) (er_ck s) (int n) (er_mkskipped s) = Inr (ck', d')"
        using skip_chain_assign_total[OF ck0, of n "i - n" dh "er_mkskipped s"] new i n(3) by auto
      note st = dict_store.skip_take_view[OF view[unfolded n(2)] wfd new i sc]
      let ?s = "s\<lparr>er_ck := ck_at ck0 i, er_n := int i, er_mkskipped := d'\<rparr>"
      have adv: "(if int i > er_n s then ec_skip_keys s (int i) max_skip else Inr s) = Inr ?s"
      proof (cases "i = n")
        case True
        then show ?thesis using sc n by (cases s) simp
      next
        case F2: False
        then show ?thesis using new n False sc st dh
          by (simp add: ec_skip_keys_def nat_diff_distrib')
      qed
      have "ec_recv_message s dh (int i) max_skip =
          Inr (?s\<lparr>er_ck := ck_at ck0 (Suc i), er_n := int i + 1\<rparr>, mk_at ck0 i)"
        using new iu n adv ck0 by (simp add: ec_recv_message_def try_eq dh ec_recv_in_order_def)
      then show ?thesis using False iu new n st dh by (auto simp: recv_inv_def)
    qed
  qed
qed

primrec ec_recv_all :: "ec_recv_state \<Rightarrow> bytes \<Rightarrow> int \<Rightarrow> nat list \<Rightarrow> (ec_recv_state \<times> bytes list) res" where
  "ec_recv_all s dh max_skip [] = Inr (s, [])"
| "ec_recv_all s dh max_skip (i # is) =
     bindE (ec_recv_message s dh (int i) max_skip) (\<lambda>(s, mk).
     bindE (ec_recv_all s dh max_skip is) (\<lambda>(s, mks). Inr (s, mk # mks)))"

lemma ec_recv_all_any_order:
  assumes "recv_inv ck0 dh used s" "distinct order" "set order \<inter> used = {}"
    and "\<And>i. i \<in> set order \<Longrightarrow> int i \<le> max_skip \<and> i < 2 ^ 32"
  shows "\<exists>s'. ec_recv_all s dh max_skip order = Inr (s', map (mk_at ck0) order) \<and>
    recv_inv ck0 dh (used \<union> set order) s' \<and>
    er_n s' = foldl (\<lambda>n i. max n (int i + 1)) (er_n s) order"
  using assms
proof (induction order arbitrary: s used)
  case (Cons i order)
  have i: "i \<notin> used" "int i \<le> max_skip" "i < 2 ^ 32" using Cons.prems by auto
  have "er_n s \<ge> 0" using Cons.prems(1) by (auto simp: recv_inv_def elim!: chain_viewE)
  then obtain s1 where s1: "ec_recv_message s dh (int i) max_skip = Inr (s1, mk_at ck0 i)"
    "recv_inv ck0 dh (insert i used) s1" "er_n s1 = max (er_n s) (int i + 1)"
    using ec_recv_message_spec[OF Cons.prems(1) i(3), of max_skip] i by (auto split: if_splits)
  from Cons.IH[OF s1(2)] Cons.prems obtain s' where
    "ec_recv_all s1 dh max_skip order = Inr (s', map (mk_at ck0) order)"
    "recv_inv ck0 dh (insert i used \<union> set order) s'"
    "er_n s' = foldl (\<lambda>n i. max n (int i + 1)) (er_n s1) order"
    by auto
  then show ?case using s1 by simp
qed simp

lemma send_mks_at: "length ck0 = 32 \<Longrightarrow>
    send_mks k \<lparr>es_ck = ck_at ck0 i, es_n = n, es_dh_pub = dh\<rparr> = Inr (map (mk_at ck0) [i..<i + k])"
proof (induction k arbitrary: i n)
  case (Suc k)
  from Suc.IH[of "Suc i" "n + 1"] Suc.prems show ?case
    by (simp add: ec_send_mk_def upt_conv_Cons del: upt_Suc)
qed simp

lemma send_mks_bad: "length (es_ck s) \<noteq> 32 \<Longrightarrow> send_mks (Suc k) s = Inl (ValueError ''ck must be 32 bytes'')"
  by (simp add: ec_send_mk_def kdf_ck_def)

lemma recv_in_order_all: "ec_recv_all r dh MAX_SKIP order = Inr (r', map ((!) mks) order) \<Longrightarrow>
    recv_in_order mks dh order r = Inr (r', map (\<lambda>i. hexv (mks ! i)) order)"
  by (induction order arbitrary: r) (auto simp: bindE_eq_Inr assertE_def)

section \<open>SCKA epochs agree\<close>

text \<open>One party's sending chain is the other's receiving chain, under the same root.\<close>

definition scka_wf :: "scka_state \<Rightarrow> bool" where
  "scka_wf s \<longleftrightarrow> length (ss_rk s) = 32 \<and> length (ss_ck_send s) = 32 \<and> length (ss_ck_recv s) = 32"

definition scka_synced :: "scka_state \<Rightarrow> scka_state \<Rightarrow> bool" where
  "scka_synced a b \<longleftrightarrow> scka_wf a \<and> scka_wf b \<and> ss_rk a = ss_rk b \<and>
     ss_ck_send a = ss_ck_recv b \<and> ss_ck_recv a = ss_ck_send b \<and>
     ss_sending_epoch a = ss_receiving_epoch b \<and> ss_receiving_epoch a = ss_sending_epoch b \<and>
     ss_send_ctr a = ss_recv_ctr b \<and> ss_recv_ctr a = ss_send_ctr b"

lemma scka_synced_sym: "scka_synced a b \<Longrightarrow> scka_synced b a"
  by (auto simp: scka_synced_def)

lemma kdf_scka_rk_iff: "(\<exists>r. kdf_scka_rk rk ss = Inr r) \<longleftrightarrow> length rk = 32 \<and> length ss = 32 \<and> ss \<noteq> zeros 32"
  using hkdf_total[of 64 ss rk SCKA_RK_INFO] by (auto simp: kdf_scka_rk_def bindE_eq_Inr)

lemma kdf_scka_rk_len: "kdf_scka_rk rk ss = Inr (a, b) \<Longrightarrow> length a = 32 \<and> length b = 32"
  by (auto simp: kdf_scka_rk_def bindE_eq_Inr dest!: hkdf_len split: if_splits)

lemma scka_init_synced: "length sk = 32 \<Longrightarrow>
    \<exists>a b. scka_from_init True sk = Inr a \<and> scka_from_init False sk = Inr b \<and> scka_synced a b"
  using scka_init_total[of sk]
  by (auto simp: scka_from_init_def scka_init_mirror scka_synced_def scka_wf_def)

lemma scka_promote_synced: "scka_synced a b \<Longrightarrow> length ss = 32 \<Longrightarrow> ss \<noteq> zeros 32 \<Longrightarrow>
    \<exists>a' b'. scka_epoch_promote_initiator a ss = Inr a' \<and> scka_epoch_promote_responder b ss = Inr b' \<and>
      scka_synced a' b' \<and> ss_sending_epoch a' = ss_sending_epoch a + 1 \<and> ss_send_ctr a' = 0"
  using kdf_scka_rk_iff[of "ss_rk a" ss] kdf_scka_rk_len[of "ss_rk a" ss]
  by (fastforce simp: scka_epoch_promote_initiator_def scka_epoch_promote_responder_def
      scka_synced_def scka_wf_def)

lemma scka_message_synced: "scka_synced a b \<Longrightarrow>
    \<exists>a' b' mk. scka_next_send_mk a = Inr (a', mk) \<and> scka_next_recv_mk b = Inr (b', mk) \<and>
      scka_synced a' b' \<and> length mk = 32"
  by (simp add: scka_next_send_mk_def scka_next_recv_mk_def kdf_scka_ck_def kdf_ck_Inr
      scka_synced_def scka_wf_def)

section \<open>The ledger commits once\<close>

definition wf_ledger :: "commit_ledger \<Rightarrow> bool" where
  "wf_ledger l \<longleftrightarrow> distinct (cl_accepted_keys l) \<and> wf_dict (cl_digest_to_ack l) \<and>
     int (length (cl_accepted_keys l)) = cl_mutation_count l \<and>
     int (length (cl_digest_to_ack l)) = cl_mutation_count l"

lemma wf_ledger_empty: "wf_ledger empty_ledger"
  by (simp add: wf_ledger_def empty_ledger_def)

lemma commit_accept_cases:
  assumes "commit_accept l key od ack = Inr (l', r)"
  shows "\<exists>p. packed key = Inr p \<and>
    (p \<in> set (cl_accepted_keys l) \<and> l' = l \<and> r = ''replay_no_mutation'' \<or>
     p \<notin> set (cl_accepted_keys l) \<and> od \<in> dom (map_of (cl_digest_to_ack l)) \<and> l' = l \<and> r = ''duplicate_committed'' \<or>
     p \<notin> set (cl_accepted_keys l) \<and> od \<notin> dom (map_of (cl_digest_to_ack l)) \<and> r = ''accepted'' \<and>
     set (cl_accepted_keys l') = insert p (set (cl_accepted_keys l)) \<and>
     map_of (cl_digest_to_ack l') = (map_of (cl_digest_to_ack l))(od \<mapsto> ack) \<and>
     cl_mutation_count l' = cl_mutation_count l + 1)"
  using assms by (auto simp: commit_accept_def bindE_eq_Inr update_conv' split: if_splits)

lemma commit_accept_wf: "wf_ledger l \<Longrightarrow> commit_accept l key od ack = Inr (l', r) \<Longrightarrow> wf_ledger l'"
  by (auto simp: commit_accept_def bindE_eq_Inr wf_ledger_def length_update_new split: if_splits)

text \<open>A run of commits, with the verdict of each.\<close>

primrec commit_all :: "commit_ledger \<Rightarrow> (accept_key \<times> bytes \<times> bytes) list \<Rightarrow> (commit_ledger \<times> string list) res" where
  "commit_all l [] = Inr (l, [])"
| "commit_all l (c # cs) = (case c of (key, od, ack) \<Rightarrow>
     bindE (commit_accept l key od ack) (\<lambda>(l, r).
     bindE (commit_all l cs) (\<lambda>(l, rs). Inr (l, r # rs))))"

lemma commit_all_stable:
  assumes "commit_all l cs = Inr (l', rs)" "wf_ledger l"
  shows "wf_ledger l' \<and> set (cl_accepted_keys l) \<subseteq> set (cl_accepted_keys l') \<and>
    map_of (cl_digest_to_ack l) \<subseteq>\<^sub>m map_of (cl_digest_to_ack l') \<and>
    cl_mutation_count l' = cl_mutation_count l + int (length (filter (\<lambda>r. r = ''accepted'') rs))"
  using assms
proof (induction cs arbitrary: l rs)
  case (Cons c cs)
  obtain key od ack where c: "c = (key, od, ack)" by (cases c)
  from Cons.prems(1) obtain l1 r rs1 where 1: "commit_accept l key od ack = Inr (l1, r)"
    and rest: "commit_all l1 cs = Inr (l', rs1)" and rs: "rs = r # rs1"
    by (auto simp: c bindE_eq_Inr)
  note wf1 = commit_accept_wf[OF Cons.prems(2) 1]
  have "set (cl_accepted_keys l) \<subseteq> set (cl_accepted_keys l1) \<and>
      map_of (cl_digest_to_ack l) \<subseteq>\<^sub>m map_of (cl_digest_to_ack l1) \<and>
      cl_mutation_count l1 = cl_mutation_count l + (if r = ''accepted'' then 1 else 0)"
    using commit_accept_cases[OF 1] by (auto simp: map_le_def)
  with Cons.IH[OF rest wf1] show ?case
    by (auto simp: rs intro: map_le_trans)
qed (auto simp: map_le_def)

section \<open>Mailbox catch-up covers every open day\<close>

lemma mailbox_days: 
  fixes now cursor ttl late :: int
  defines "p \<equiv> mailbox_catchup_plan now cursor ttl late"
  shows "set (mp_historical_days p) = {max (cursor + 1) (mp_ttl_horizon p) ..< mp_today p}"
    and "set (mp_always_repoll_days p) = {max (mp_late_arrival_floor p) (mp_ttl_horizon p) .. mp_today p}"
    and "sorted_wrt (<) (mp_historical_days p)" "sorted_wrt (<) (mp_always_repoll_days p)"
  unfolding p_def by (auto simp: mailbox_catchup_plan_def Let_def strict_sorted_iff)

section \<open>Receive commits only after SQL\<close>

inductive commit_reachable :: "commit_machine \<Rightarrow> bool" where
  fresh: "commit_reachable fresh_machine"
| step: "commit_reachable m \<Longrightarrow> commit_apply m a = Inr m' \<Longrightarrow> commit_reachable m'"

definition past_sql :: "commit_phase \<Rightarrow> bool" where
  "past_sql p \<longleftrightarrow> p \<in> {SqlCommitted, SkippedPersisted, Finalized, Cleared}"

definition commit_inv :: "commit_machine \<Rightarrow> bool" where
  "commit_inv m \<longleftrightarrow>
     (cm_durable_mutation m \<longleftrightarrow> past_sql (cm_state m)) \<and>
     cm_generation m = (if cm_state m \<in> {Finalized, Cleared} then 1 else 0) \<and>
     (cm_epoch_promoted m \<longleftrightarrow> cm_epoch_on_candidate m \<and> cm_state m \<in> {Finalized, Cleared}) \<and>
     (cm_skipped_persisted m \<longrightarrow> cm_durable_mutation m) \<and>
     (cm_epoch_on_candidate m \<longrightarrow> cm_state m \<notin> {Idle, Candidate})"

lemma commit_apply_cases:
  assumes "commit_apply m a = Inr m'"
  obtains "cm_state m = Idle" "m' = m\<lparr>cm_state := Candidate\<rparr>"
  | "cm_state m = Candidate" "m' = m\<lparr>cm_state := Derived\<rparr>"
  | "cm_state m = Derived" "m' = m\<lparr>cm_state := AeadOk\<rparr>"
  | "cm_state m = AeadOk" "m' = m\<lparr>cm_state := Pending\<rparr>"
  | "cm_state m = Pending" "m' = m\<lparr>cm_state := SqlCommitted, cm_durable_mutation := True\<rparr>"
  | "cm_state m = SqlCommitted" "m' = m\<lparr>cm_skipped_persisted := True, cm_state := SkippedPersisted\<rparr>"
  | "cm_state m \<in> {SqlCommitted, SkippedPersisted}" "\<not> cm_epoch_on_candidate m"
    "m' = m\<lparr>cm_generation := cm_generation m + 1, cm_state := Finalized\<rparr>"
  | "cm_state m \<in> {Derived, AeadOk}" "m' = m\<lparr>cm_epoch_on_candidate := True\<rparr>"
  | "cm_state m \<in> {SqlCommitted, SkippedPersisted}" "cm_epoch_on_candidate m" "cm_durable_mutation m"
    "m' = m\<lparr>cm_epoch_promoted := True, cm_generation := cm_generation m + 1, cm_state := Finalized\<rparr>"
  | "cm_state m = Finalized" "m' = m\<lparr>cm_state := Cleared\<rparr>"
proof -
  show ?thesis
    using assms unfolding commit_apply_def
    by (elim if_InlE if_dropE) (use that in \<open>simp_all\<close>)
qed

lemma commit_step_inv: "commit_inv m \<Longrightarrow> commit_apply m a = Inr m' \<Longrightarrow> commit_inv m'"
  by (erule commit_apply_cases) (auto simp: commit_inv_def past_sql_def)

lemma commit_reachable_inv: "commit_reachable m \<Longrightarrow> commit_inv m"
proof (induction rule: commit_reachable.induct)
  case fresh
  then show ?case by (simp add: commit_inv_def fresh_machine_def past_sql_def)
qed (blast intro: commit_step_inv)

lemma run_ec_ooo_iff: "(\<exists>r. run_ec_ooo_matrix ck0 dh = Inr r) \<longleftrightarrow> length ck0 = 32"
proof
  assume "\<exists>r. run_ec_ooo_matrix ck0 dh = Inr r"
  then show "length ck0 = 32"
    by (auto simp: run_ec_ooo_matrix_def bindE_eq_Inr ec_send_mk_def kdf_ck_eq_Inr numeral_eq_Suc)
next
  assume ck0: "length ck0 = 32"
  let ?mks = "map (mk_at ck0) [0..<4]"
  have mks: "send_mks 4 \<lparr>es_ck = ck0, es_n = 0, es_dh_pub = dh\<rparr> = Inr ?mks"
    using send_mks_at[OF ck0, of 4 0 0 dh] by simp
  obtain r where "ec_recv_all \<lparr>er_ck = ck0, er_n = 0, er_dh_pub = dh, er_mkskipped = []\<rparr> dh MAX_SKIP [0, 3, 1, 2] =
      Inr (r, map (mk_at ck0) [0, 3, 1, 2])"
    using ec_recv_all_any_order[OF recv_inv_start[OF ck0], of "[0, 3, 1, 2]" MAX_SKIP dh]
    by (force simp: MAX_SKIP_def simp del: ec_recv_all.simps)
  moreover have "map (mk_at ck0) [0, 3, 1, 2] = map ((!) ?mks) [0, 3, 1, 2]"
    by (simp add: nth_append numeral_2_eq_2)
  ultimately have "recv_in_order ?mks dh [0, 3, 1, 2] \<lparr>er_ck = ck0, er_n = 0, er_dh_pub = dh, er_mkskipped = []\<rparr> =
      Inr (r, map (\<lambda>i. hexv (?mks ! i)) [0, 3, 1, 2])"
    using recv_in_order_all by metis
  then show "\<exists>r. run_ec_ooo_matrix ck0 dh = Inr r"
    unfolding run_ec_ooo_matrix_def mks by (simp del: recv_in_order.simps)
qed

lemma assertE_True [simp]: "assertE True = Inr ()"
  by (simp add: assertE_def)

lemma run_braid_epoch_iff: "(\<exists>r. run_braid_epoch_matrix sk ss1 ss2 = Inr r) \<longleftrightarrow>
    length sk = 32 \<and> length ss1 = 32 \<and> ss1 \<noteq> zeros 32 \<and> length ss2 = 32 \<and> ss2 \<noteq> zeros 32"
  (is "?l \<longleftrightarrow> ?r")
proof
  assume ?l
  then show ?r
    by (auto simp: run_braid_epoch_matrix_def bindE_eq_Inr scka_from_init_def ratchet_init_alice_scka_def
        scka_epoch_promote_initiator_def kdf_scka_rk_def split: if_splits)
next
  assume r: ?r
  then obtain a b where 0: "scka_from_init True sk = Inr a" "scka_from_init False sk = Inr b" "scka_synced a b"
    using scka_init_synced by blast
  then obtain a1 b1 where 1: "scka_epoch_promote_initiator a ss1 = Inr a1"
    "scka_epoch_promote_responder b ss1 = Inr b1" "scka_synced a1 b1"
    using scka_promote_synced r by blast
  then obtain a2 b2 mk where 2: "scka_next_send_mk a1 = Inr (a2, mk)" "scka_next_recv_mk b1 = Inr (b2, mk)"
    "scka_synced a2 b2"
    using scka_message_synced by blast
  then obtain b3 a3 where 3: "scka_epoch_promote_initiator b2 ss2 = Inr b3"
    "scka_epoch_promote_responder a2 ss2 = Inr a3" "scka_synced b3 a3"
    using scka_promote_synced[OF scka_synced_sym[OF 2(3)]] r by blast
  then obtain b4 a4 mk2 where 4: "scka_next_send_mk b3 = Inr (b4, mk2)" "scka_next_recv_mk a3 = Inr (a4, mk2)"
    using scka_message_synced by blast
  show ?l
    using 0(3) 1(3) 3(3) unfolding run_braid_epoch_matrix_def 0(1,2)
    by (simp add: 1(1,2) 2(1,2) 3(1,2) 4 scka_synced_def)
qed

text \<open>What a verdict on a key, a digest and an acknowledgement says of every later ledger.\<close>

definition verdict_kept :: "commit_ledger \<Rightarrow> accept_key \<times> bytes \<times> bytes \<Rightarrow> string \<Rightarrow> bool" where
  "verdict_kept l c r \<longleftrightarrow> (case c of (key, od, ack) \<Rightarrow> \<exists>p. packed key = Inr p \<and>
     (r = ''accepted'' \<and> p \<in> set (cl_accepted_keys l) \<and> map_of (cl_digest_to_ack l) od = Some ack \<or>
      r = ''replay_no_mutation'' \<and> p \<in> set (cl_accepted_keys l) \<or>
      r = ''duplicate_committed'' \<and> od \<in> dom (map_of (cl_digest_to_ack l))))"

lemma commit_all_seen:
  assumes "commit_all l cs = Inr (l', rs)" "wf_ledger l"
  shows "list_all2 (verdict_kept l') cs rs"
  using assms
proof (induction cs arbitrary: l rs)
  case (Cons c cs)
  obtain key od ack where c: "c = (key, od, ack)" by (cases c)
  from Cons.prems(1) obtain l1 r rs1 where 1: "commit_accept l key od ack = Inr (l1, r)"
    and rest: "commit_all l1 cs = Inr (l', rs1)" and rs: "rs = r # rs1"
    by (auto simp: c bindE_eq_Inr)
  note wf1 = commit_accept_wf[OF Cons.prems(2) 1]
  have "set (cl_accepted_keys l1) \<subseteq> set (cl_accepted_keys l')"
    "map_of (cl_digest_to_ack l1) \<subseteq>\<^sub>m map_of (cl_digest_to_ack l')"
    using commit_all_stable[OF rest wf1] by auto
  moreover have "verdict_kept l1 c r"
    using commit_accept_cases[OF 1] by (auto simp: verdict_kept_def c)
  ultimately have "verdict_kept l' c r" by (force simp: verdict_kept_def c map_le_def dom_def)
  with Cons.IH[OF rest wf1] show ?case by (simp add: rs)
qed simp

primrec commit_run :: "commit_machine \<Rightarrow> string list \<Rightarrow> commit_machine res" where
  "commit_run m [] = Inr m"
| "commit_run m (a # as) = bindE (commit_apply m a) (\<lambda>m. commit_run m as)"

lemma commit_run_reachable: "commit_reachable m \<Longrightarrow> commit_run m as = Inr m' \<Longrightarrow> commit_reachable m'"
  by (induction as arbitrary: m) (auto simp: bindE_eq_Inr intro: commit_reachable.step)

lemma commit_run_epoch: "commit_run fresh_machine
    [''clone_candidate'', ''derive_keys_on_candidate'', ''promote_scka_epoch_on_candidate'', ''aead_ok'',
     ''write_PENDING_inbound'', ''sql_commit_receipt_dedup'', ''commit_epoch_with_finalize''] =
    Inr \<lparr>cm_state = Finalized, cm_durable_mutation = True, cm_skipped_persisted = False,
      cm_epoch_promoted = True, cm_epoch_on_candidate = True, cm_generation = 1\<rparr>"
  by code_simp

section \<open>Correctness\<close>

text \<open>
  C11: Out-of-order delivery. A receiver that starts on the sender's chain and is given distinct
  message indices up to \<open>MAX_SKIP\<close> in any order recovers exactly the sender's message keys, and
  afterwards refuses each of those indices as a replay.
\<close>

theorem ooo_delivery_exactly_once:
  assumes "length ck0 = 32" "distinct order" "list_all (\<lambda>i. i < k \<and> int i \<le> MAX_SKIP) order"
  shows "\<exists>mks r. send_mks k \<lparr>es_ck = ck0, es_n = 0, es_dh_pub = dh\<rparr> = Inr mks \<and>
    ec_recv_all \<lparr>er_ck = ck0, er_n = 0, er_dh_pub = dh, er_mkskipped = []\<rparr> dh MAX_SKIP order =
      Inr (r, map ((!) mks) order) \<and>
    list_all (\<lambda>i. ec_recv_message r dh (int i) MAX_SKIP = Inl (ValueError ''replay of consumed index'')) order"
proof -
  have ix: "int i \<le> MAX_SKIP \<and> i < 2 ^ 32 \<and> i < k" if "i \<in> set order" for i
    using assms(3) that by (auto simp: list_all_iff MAX_SKIP_def)
  obtain r where r: "ec_recv_all \<lparr>er_ck = ck0, er_n = 0, er_dh_pub = dh, er_mkskipped = []\<rparr> dh MAX_SKIP order =
      Inr (r, map (mk_at ck0) order)" "recv_inv ck0 dh ({} \<union> set order) r"
    using ec_recv_all_any_order[OF recv_inv_start[OF assms(1)] assms(2)] ix by blast
  have "map (mk_at ck0) order = map ((!) (map (mk_at ck0) [0..<k])) order"
    using ix by simp
  moreover have "ec_recv_message r dh (int i) MAX_SKIP = Inl (ValueError ''replay of consumed index'')"
    if "i \<in> set order" for i
    using ec_recv_message_spec[OF r(2), of i MAX_SKIP] ix[OF that] that by simp
  ultimately show ?thesis
    using r(1) send_mks_at[OF assms(1), of k 0 0 dh] by (auto simp: list_all_iff)
qed

lemma ooo_delivery_exactly_once_witness:
  "\<exists>mks r. send_mks 4 \<lparr>es_ck = zeros 32, es_n = 0, es_dh_pub = zeros 32\<rparr> = Inr mks \<and>
    ec_recv_all \<lparr>er_ck = zeros 32, er_n = 0, er_dh_pub = zeros 32, er_mkskipped = []\<rparr> (zeros 32) MAX_SKIP
      [0, 3, 1, 2] = Inr (r, map ((!) mks) [0, 3, 1, 2]) \<and>
    list_all (\<lambda>i. ec_recv_message r (zeros 32) (int i) MAX_SKIP = Inl (ValueError ''replay of consumed index''))
      [0, 3, 1, 2]"
  by (rule ooo_delivery_exactly_once) (simp_all add: MAX_SKIP_def)

text \<open>
  The known-answer drivers never fail their assertions: the out-of-order matrix returns for
  exactly the 32-byte chain keys, and the two-epoch matrix for exactly 32-byte secrets that are not zero.
\<close>

theorem kat_drivers_total:
  "((\<exists>r. run_ec_ooo_matrix ck0 dh_pub = Inr r) \<longleftrightarrow> length ck0 = 32) \<and>
   ((\<exists>r. run_braid_epoch_matrix sk ss1 ss2 = Inr r) \<longleftrightarrow>
      length sk = 32 \<and> length ss1 = 32 \<and> ss1 \<noteq> zeros 32 \<and> length ss2 = 32 \<and> ss2 \<noteq> zeros 32)"
  using run_ec_ooo_iff run_braid_epoch_iff by blast

text \<open>
  C23: The commit ledger accepts once. Over any run of commits on a well-formed ledger the number of
  mutations grows by exactly the number of accepted verdicts, and no accepted key and no retained receipt
  is lost or changed. Afterwards a key that the run accepted, or refused as a replay, is refused as a
  replay under whatever digest and acknowledgement, without a mutation; a digest that the run accepted,
  or refused as a duplicate, is refused under whatever key, without a mutation; and the receipt
  of an accepted commit is the acknowledgement it came with. (A key that was only refused because its
  digest was a duplicate stays free.)
\<close>

theorem ledger_commits_once:
  assumes "wf_ledger l0" "commit_all l0 cs = Inr (l, verdicts)"
  shows "wf_ledger l \<and>
    cl_mutation_count l = cl_mutation_count l0 + int (length (filter (\<lambda>r. r = ''accepted'') verdicts)) \<and>
    set (cl_accepted_keys l0) \<subseteq> set (cl_accepted_keys l) \<and>
    (\<forall>od ack. duplicate_ack_exact l0 od = Some ack \<longrightarrow> duplicate_ack_exact l od = Some ack) \<and>
    list_all2 (\<lambda>(key, od, ack) r.
      (r = ''accepted'' \<or> r = ''replay_no_mutation'' \<or> r = ''duplicate_committed'') \<and>
      (r \<noteq> ''duplicate_committed'' \<longrightarrow> (\<forall>od' ack'. commit_accept l key od' ack' = Inr (l, ''replay_no_mutation''))) \<and>
      (r \<noteq> ''replay_no_mutation'' \<longrightarrow> (\<forall>key' ack' l' r'. commit_accept l key' od ack' = Inr (l', r') \<longrightarrow>
         l' = l \<and> r' \<noteq> ''accepted'')) \<and>
      (r = ''accepted'' \<longrightarrow> duplicate_ack_exact l od = Some ack)) cs verdicts"
proof -
  have "list_all2 (\<lambda>(key, od, ack) r.
      (r = ''accepted'' \<or> r = ''replay_no_mutation'' \<or> r = ''duplicate_committed'') \<and>
      (r \<noteq> ''duplicate_committed'' \<longrightarrow> (\<forall>od' ack'. commit_accept l key od' ack' = Inr (l, ''replay_no_mutation''))) \<and>
      (r \<noteq> ''replay_no_mutation'' \<longrightarrow> (\<forall>key' ack' l' r'. commit_accept l key' od ack' = Inr (l', r') \<longrightarrow>
         l' = l \<and> r' \<noteq> ''accepted'')) \<and>
      (r = ''accepted'' \<longrightarrow> duplicate_ack_exact l od = Some ack)) cs verdicts"
    using commit_all_seen[OF assms(2,1)]
    by (rule list_all2_mono)
      (auto simp: verdict_kept_def commit_accept_def duplicate_ack_exact_def bindE_eq_Inr split: if_splits)
  then show ?thesis
    using commit_all_stable[OF assms(2,1)] by (auto simp: duplicate_ack_exact_def map_le_def dom_def)
qed

lemma ledger_commits_once_witness:
  "\<exists>l verdicts. wf_ledger l \<and> cl_mutation_count l = int (length (filter (\<lambda>r. r = ''accepted'') verdicts)) \<and>
    verdicts = [''accepted'', ''replay_no_mutation''] \<and>
    commit_accept l \<lparr>ac_session_id = [1], ac_dh_pub = [2], ac_n = 0, ac_scka_epoch = 0, ac_scka_ctr = 0\<rparr> [5] [6] =
      Inr (l, ''replay_no_mutation'')"
proof -
  let ?k = "\<lparr>ac_session_id = [1], ac_dh_pub = [2], ac_n = 0, ac_scka_epoch = 0, ac_scka_ctr = 0\<rparr>"
  let ?vs = "[''accepted'', ''replay_no_mutation'']"
  obtain l where "commit_all empty_ledger [(?k, [7], [8]), (?k, [9], [8])] = Inr (l, ?vs)"
    by (simp add: commit_accept_def packed_def empty_ledger_def)
  from ledger_commits_once[OF wf_ledger_empty this] show ?thesis
    by (intro exI[of _ l] exI[of _ ?vs]) (simp add: empty_ledger_def)
qed

text \<open>
  C22: The crash-order machine makes nothing durable before the SQL commit: in every reachable state
  the mutation is durable exactly after that commit, the head generation moves once and only at
  finalisation, and an epoch is promoted exactly when it was pending and the head is finalised.
\<close>

theorem crash_order_safe:
  assumes "commit_reachable m"
  shows "(cm_durable_mutation m \<longleftrightarrow> past_sql (cm_state m)) \<and>
    cm_generation m = (if cm_state m \<in> {Finalized, Cleared} then 1 else 0) \<and>
    (cm_epoch_promoted m \<longleftrightarrow> cm_epoch_on_candidate m \<and> cm_state m \<in> {Finalized, Cleared}) \<and>
    (\<not> cm_skipped_persisted m \<or> cm_durable_mutation m)"
  using commit_reachable_inv[OF assms] by (auto simp: commit_inv_def)

lemma crash_order_safe_witness:
  "let m = \<lparr>cm_state = Finalized, cm_durable_mutation = True, cm_skipped_persisted = False,
      cm_epoch_promoted = True, cm_epoch_on_candidate = True, cm_generation = 1\<rparr> in
   (cm_durable_mutation m \<longleftrightarrow> past_sql (cm_state m)) \<and>
    cm_generation m = (if cm_state m \<in> {Finalized, Cleared} then 1 else 0) \<and>
    (cm_epoch_promoted m \<longleftrightarrow> cm_epoch_on_candidate m \<and> cm_state m \<in> {Finalized, Cleared}) \<and>
    (\<not> cm_skipped_persisted m \<or> cm_durable_mutation m)"
  unfolding Let_def
  by (rule crash_order_safe, rule commit_run_reachable[OF commit_reachable.fresh commit_run_epoch])

text \<open>
  The catch-up plan polls every mailbox day that is still open and not yet caught up, exactly
  the open days of the late-arrival window again, none that the TTL has closed and none twice.
\<close>

theorem mailbox_plan_covers:
  assumes "0 \<le> late" "0 \<le> ttl"
  shows "let p = mailbox_catchup_plan now cursor ttl late in
    {max (cursor + 1) (mp_ttl_horizon p) .. mp_today p} \<subseteq>
      set (mp_historical_days p) \<union> set (mp_always_repoll_days p) \<and>
    set (mp_historical_days p) \<union> set (mp_always_repoll_days p) \<subseteq> {mp_ttl_horizon p .. mp_today p} \<and>
    set (mp_always_repoll_days p) = {mp_today p - late .. mp_today p} \<inter> {mp_ttl_horizon p .. mp_today p} \<and>
    distinct (mp_historical_days p) \<and> distinct (mp_always_repoll_days p)"
proof -
  let ?p = "mailbox_catchup_plan now cursor ttl late"
  have "mp_late_arrival_floor ?p = mp_today ?p - late" "mp_ttl_horizon ?p = mp_today ?p - ttl"
    by (simp_all add: mailbox_catchup_plan_def Let_def)
  moreover have "distinct (mp_historical_days ?p)" "distinct (mp_always_repoll_days ?p)"
    using mailbox_days(3,4) sorted_wrt_less_distinct by blast+
  ultimately show ?thesis using assms by (auto simp: Let_def mailbox_days(1,2))
qed

lemma mailbox_plan_covers_witness:
  "let p = mailbox_catchup_plan 864000000 3 30 7 in
    {max (3 + 1) (mp_ttl_horizon p) .. mp_today p} \<subseteq>
      set (mp_historical_days p) \<union> set (mp_always_repoll_days p) \<and>
    set (mp_historical_days p) \<union> set (mp_always_repoll_days p) \<subseteq> {mp_ttl_horizon p .. mp_today p} \<and>
    set (mp_always_repoll_days p) = {mp_today p - 7 .. mp_today p} \<inter> {mp_ttl_horizon p .. mp_today p} \<and>
    distinct (mp_historical_days p) \<and> distinct (mp_always_repoll_days p)"
  by (rule mailbox_plan_covers) simp_all

end
