(* ===== verification/TripleRatchet.thy ===== *)
theory TripleRatchet
  imports RatchetState
begin

text \<open>
  \<open>hybrid_ratchet_v2_tr.py\<close>: X25519 with its input checks, the EC double ratchet with its skipped
  keys, the Braid chunk codec with its binding digest and the reassembly of chunks. The lemmas show
  that both parties of the double ratchet stay on the same chains across DH turns, under the
  commutativity of X25519.
\<close>

definition BRAID_CHUNK_DOMAIN :: bytes where "BRAID_CHUNK_DOMAIN = asc ''ATSAM/v2/braid-chunk''"
definition BRAID_MAGIC :: bytes where "BRAID_MAGIC = asc ''RVBC1'' @ zeros 3"
definition BRAID_HEADER_LEN :: nat where "BRAID_HEADER_LEN = 8 + 8 + 1 + 4 + 2"
definition BRAID_DIGEST_LEN :: nat where "BRAID_DIGEST_LEN = 32"
definition BRAID_MAX_TOTAL_PAYLOAD_BYTES :: nat where "BRAID_MAX_TOTAL_PAYLOAD_BYTES = 8192"
definition TR_MAX_PAYLOAD :: nat where "TR_MAX_PAYLOAD = BRAID_MAX_TOTAL_PAYLOAD_BYTES"
definition TR_MAX_CHUNKS :: nat where "TR_MAX_CHUNKS = 64"
definition MAX_MKSKIPPED_RETAINED :: nat where "MAX_MKSKIPPED_RETAINED = 2000"
definition BRAID_MLKEM768_HEADER_SIZE :: int where "BRAID_MLKEM768_HEADER_SIZE = 64"
definition BRAID_MLKEM768_EK_VECTOR_SIZE :: int where "BRAID_MLKEM768_EK_VECTOR_SIZE = 1152"
definition BRAID_MLKEM768_EK_FIPS_SIZE :: int where "BRAID_MLKEM768_EK_FIPS_SIZE = 1184"
definition BRAID_MLKEM768_CT1_SIZE :: int where "BRAID_MLKEM768_CT1_SIZE = 960"
definition BRAID_MLKEM768_CT2_SIZE :: int where "BRAID_MLKEM768_CT2_SIZE = 128"
definition CHUNK_NONE :: int where "CHUNK_NONE = 0"
definition CHUNK_HDR :: int where "CHUNK_HDR = 1"
definition CHUNK_EK :: int where "CHUNK_EK = 2"
definition CHUNK_EK_CT1_ACK :: int where "CHUNK_EK_CT1_ACK = 3"
definition CHUNK_CT1_ACK :: int where "CHUNK_CT1_ACK = 4"
definition CHUNK_CT1 :: int where "CHUNK_CT1 = 5"
definition CHUNK_CT2 :: int where "CHUNK_CT2 = 6"
definition BRAID_ALLOWED_TYPES :: "int set" where "BRAID_ALLOWED_TYPES = set [0..6]"
definition BRAID_EMPTY_PAYLOAD_TYPES :: "int set" where "BRAID_EMPTY_PAYLOAD_TYPES = {CHUNK_NONE, CHUNK_CT1_ACK}"
definition BRAID_DATA_PAYLOAD_TYPES :: "int set" where
  "BRAID_DATA_PAYLOAD_TYPES = BRAID_ALLOWED_TYPES - BRAID_EMPTY_PAYLOAD_TYPES"

definition require_session_id :: "bytes \<Rightarrow> bytes res" where
  "require_session_id session_id =
     (if length session_id \<noteq> 32 then Inl (ValueError ''session_id must be 32 bytes'') else Inr session_id)"

definition require_epoch_u64 :: "int \<Rightarrow> int res" where
  "require_epoch_u64 epoch =
     (if epoch < 0 \<or> epoch > 0xFFFFFFFFFFFFFFFF then Inl (ValueError ''braid epoch must be u64'') else Inr epoch)"

definition validate_braid_payload_rules :: "int \<Rightarrow> bytes \<Rightarrow> int \<Rightarrow> unit res" where
  "validate_braid_payload_rules typ payload chunk_index =
     (if typ \<notin> BRAID_ALLOWED_TYPES then Inl (ValueError ''unknown braid chunk type'')
      else if typ \<in> BRAID_EMPTY_PAYLOAD_TYPES then
        (if length payload \<noteq> 0 then Inl (ValueError ''braid empty-type payload must be empty'')
         else if chunk_index \<noteq> 0 then Inl (ValueError ''braid empty-type chunk_index must be 0'')
         else Inr ())
      else if typ \<in> BRAID_DATA_PAYLOAD_TYPES then
        (if length payload = 0 then Inl (ValueError ''braid data-type payload must be non-empty'') else Inr ())
      else Inr ())"

section \<open>X25519 with its checks\<close>

definition x25519_public :: "crypto \<Rightarrow> bytes \<Rightarrow> bytes res" where
  "x25519_public c priv =
     (if length priv \<noteq> 32 \<or> priv = zeros 32 then Inl (ValueError ''all-zero X25519 rejected'')
      else x_public c priv)"

definition x25519_dh :: "crypto \<Rightarrow> bytes \<Rightarrow> bytes \<Rightarrow> bytes res" where
  "x25519_dh c priv pub =
     (if length priv \<noteq> 32 \<or> length pub \<noteq> 32 then Inl (ValueError ''X25519 length'')
      else if priv = zeros 32 \<or> pub = zeros 32 then Inl (ValueError ''all-zero X25519 rejected'')
      else case x_exchange c priv pub of
          Inl _ \<Rightarrow> Inl (ValueError ''invalid X25519 input'')
        | Inr ss \<Rightarrow> if ss = zeros 32 then Inl (ValueError ''non-contributory DH rejected'') else Inr ss)"

section \<open>The EC double ratchet\<close>

record ec_dr_state =
  dr_rk :: bytes
  dr_dhs_priv :: bytes
  dr_dhs_pub :: bytes
  dr_dhr_pub :: "bytes option"
  dr_cks :: "bytes option"
  dr_ckr :: "bytes option"
  dr_ns :: int
  dr_nr :: int
  dr_pn :: int
  dr_mkskipped :: "(bytes, bytes) dict"

text \<open>\<open>x or bytes(32)\<close>.\<close>

definition or_zeros :: "bytes option \<Rightarrow> bytes" where
  "or_zeros x = (case x of None \<Rightarrow> zeros 32 | Some b \<Rightarrow> if b = [] then zeros 32 else b)"

definition ec_dr_fingerprint :: "ec_dr_state \<Rightarrow> bytes res" where
  "ec_dr_fingerprint s =
     bindE (joinE [Inr (dr_rk s), Inr (dr_dhs_pub s), Inr (or_zeros (dr_dhr_pub s)),
       Inr (or_zeros (dr_cks s)), Inr (or_zeros (dr_ckr s)), to_bytes (dr_ns s) 4, to_bytes (dr_nr s) 4,
       to_bytes (dr_pn s) 4, Inr (skipped_items (dr_mkskipped s))]) (\<lambda>m. Inr (sha256 m))"

definition ec_dr_init_alice :: "crypto \<Rightarrow> bytes \<Rightarrow> bytes \<Rightarrow> bytes \<Rightarrow> ec_dr_state res" where
  "ec_dr_init_alice c rk0 alice_priv bob_pub =
     bindE (x25519_dh c alice_priv bob_pub) (\<lambda>ss.
     bindE (kdf_rk rk0 ss) (\<lambda>(rk1, cks).
     bindE (x25519_public c alice_priv) (\<lambda>pub.
     Inr \<lparr>dr_rk = rk1, dr_dhs_priv = alice_priv, dr_dhs_pub = pub, dr_dhr_pub = Some bob_pub,
          dr_cks = Some cks, dr_ckr = None, dr_ns = 0, dr_nr = 0, dr_pn = 0, dr_mkskipped = []\<rparr>)))"

definition ec_dr_init_bob :: "crypto \<Rightarrow> bytes \<Rightarrow> bytes \<Rightarrow> ec_dr_state res" where
  "ec_dr_init_bob c rk0 bob_priv =
     bindE (x25519_public c bob_priv) (\<lambda>pub.
     Inr \<lparr>dr_rk = rk0, dr_dhs_priv = bob_priv, dr_dhs_pub = pub, dr_dhr_pub = None,
          dr_cks = None, dr_ckr = None, dr_ns = 0, dr_nr = 0, dr_pn = 0, dr_mkskipped = []\<rparr>)"

definition ec_dr_encrypt :: "ec_dr_state \<Rightarrow> (ec_dr_state \<times> ec_header \<times> bytes) res" where
  "ec_dr_encrypt s =
     (case dr_cks s of
        None \<Rightarrow> Inl (ValueError ''no sending chain'')
      | Some cks \<Rightarrow>
          bindE (kdf_ck cks) (\<lambda>(ck2, mk).
          Inr (s\<lparr>dr_cks := Some ck2, dr_ns := dr_ns s + 1\<rparr>,
               \<lparr>eh_dh_pub = dr_dhs_pub s, eh_pn = dr_pn s, eh_n = dr_ns s\<rparr>, mk)))"

definition dh_ratchet :: "crypto \<Rightarrow> ec_dr_state \<Rightarrow> bytes \<Rightarrow> bytes \<Rightarrow> ec_dr_state res" where
  "dh_ratchet c s their_dh new_local_priv =
     bindE (x25519_dh c (dr_dhs_priv s) their_dh) (\<lambda>ss1.
     bindE (kdf_rk (dr_rk s) ss1) (\<lambda>(rk1, ckr).
     bindE (x25519_public c new_local_priv) (\<lambda>local_pub.
     bindE (x25519_dh c new_local_priv their_dh) (\<lambda>ss2.
     bindE (kdf_rk rk1 ss2) (\<lambda>(rk2, cks).
     Inr (s\<lparr>dr_rk := rk2, dr_dhs_priv := new_local_priv, dr_dhs_pub := local_pub,
            dr_dhr_pub := Some their_dh, dr_cks := Some cks, dr_ckr := Some ckr,
            dr_ns := 0, dr_nr := 0, dr_pn := dr_ns s\<rparr>))))))"

definition insert_skipped :: "nat \<Rightarrow> bytes \<Rightarrow> bytes \<Rightarrow> (bytes, bytes) dict \<Rightarrow> (bytes, bytes) dict res" where
  "insert_skipped max_mkskipped k mk_i skipped =
     (if map_of skipped k \<noteq> None then Inr skipped
      else if length skipped \<ge> max_mkskipped then Inl (ValueError ''MAX_MKSKIPPED_RETAINED exceeded'')
      else Inr (AList.update k mk_i skipped))"

text \<open>The two skipping blocks of \<open>ec_dr_decrypt\<close>: store the keys up to \<open>until\<close> and advance to it.\<close>

definition dr_skip_to :: "nat \<Rightarrow> ec_dr_state \<Rightarrow> bytes \<Rightarrow> bytes \<Rightarrow> int \<Rightarrow> ec_dr_state res" where
  "dr_skip_to max_mkskipped s dhr ck until =
     bindE (skip_chain (insert_skipped max_mkskipped) dhr (nat (until - dr_nr s)) ck (dr_nr s) (dr_mkskipped s))
       (\<lambda>(ck, skipped). Inr (s\<lparr>dr_ckr := Some ck, dr_nr := until, dr_mkskipped := skipped\<rparr>))"

text \<open>The part of \<open>ec_dr_decrypt\<close> behind the DH ratchet: the message's key on the receiving chain.\<close>

definition dr_chain_step :: "int \<Rightarrow> nat \<Rightarrow> bytes \<Rightarrow> int \<Rightarrow> ec_dr_state \<Rightarrow> (ec_dr_state \<times> bytes) res" where
  "dr_chain_step max_skip max_mkskipped dh n st =
     (case dr_ckr st of
        None \<Rightarrow> Inl (ValueError ''no receiving chain'')
      | Some ck \<Rightarrow>
          if n < dr_nr st then Inl (ValueError ''replay of consumed index'')
          else bindE (if n > dr_nr st then
                        (if n - dr_nr st > max_skip then Inl (ValueError ''MAX_SKIP exceeded'')
                         else dr_skip_to max_mkskipped st dh ck n)
                      else Inr st) (\<lambda>st.
          case dr_ckr st of
            None \<Rightarrow> Inl (ValueError ''ck must be 32 bytes'')
          | Some ck \<Rightarrow>
              bindE (kdf_ck ck) (\<lambda>(ck2, mk).
              Inr (st\<lparr>dr_ckr := Some ck2, dr_nr := dr_nr st + 1\<rparr>, mk))))"

definition ec_dr_decrypt :: "crypto \<Rightarrow> ec_dr_state \<Rightarrow> ec_header \<Rightarrow> int \<Rightarrow> bytes option \<Rightarrow> nat \<Rightarrow>
    (ec_dr_state \<times> bytes) res" where
  "ec_dr_decrypt c state header max_skip new_local_priv max_mkskipped =
     (let dh = eh_dh_pub header; n = eh_n header; pn = eh_pn header in
      bindE (mk_key dh n) (\<lambda>key.
      case map_of (dr_mkskipped state) key of
        Some mk \<Rightarrow> Inr (state\<lparr>dr_mkskipped := AList.delete key (dr_mkskipped state)\<rparr>, mk)
      | None \<Rightarrow>
      bindE (if dr_dhr_pub state = None \<or> dr_dhr_pub state \<noteq> Some dh then
               bindE (case (dr_dhr_pub state, dr_ckr state) of
                   (Some dhr, Some ck) \<Rightarrow>
                     if pn < dr_nr state then Inl (ValueError ''pn behind nr'')
                     else if pn - dr_nr state > max_skip then Inl (ValueError ''MAX_SKIP exceeded'')
                     else dr_skip_to max_mkskipped state dhr ck pn
                 | _ \<Rightarrow> Inr state) (\<lambda>st.
               case new_local_priv of
                 None \<Rightarrow> Inl (ValueError ''DH ratchet requires new_local_priv'')
               | Some p \<Rightarrow> dh_ratchet c st dh p)
             else Inr state) (\<lambda>st.
      dr_chain_step max_skip max_mkskipped dh n st)))"

section \<open>The capped store\<close>

definition capped :: "nat \<Rightarrow> (bytes, bytes) dict \<Rightarrow> bool" where
  "capped cap d \<longleftrightarrow> wf_dict d \<and> length d \<le> cap"

lemma insert_skipped_capped: "insert_skipped cap k v d = Inr d' \<Longrightarrow> capped cap d \<Longrightarrow> capped cap d'"
  by (auto simp: insert_skipped_def capped_def length_update_new split: if_splits)

interpretation capped_store: dict_skip_store "insert_skipped cap" "capped cap" for cap
  by unfold_locales
     (auto simp: insert_skipped_def capped_def length_update_new update_conv' split: if_splits)

lemma skip_chain_capped: "skip_chain (insert_skipped cap) dh k ck n d = Inr (ck', d') \<Longrightarrow> capped cap d \<Longrightarrow> capped cap d'"
proof (induction k arbitrary: ck n d)
  case (Suc k)
  then show ?case by (auto simp: bindE_eq_Inr dest: insert_skipped_capped)
qed simp

lemma skip_chain_room: "length ck0 = 32 \<Longrightarrow> n + k \<le> 2 ^ 32 \<Longrightarrow> length d + k \<le> cap \<Longrightarrow>
    \<exists>ck' d'. skip_chain (insert_skipped cap) dh k (ck_at ck0 n) (int n) d = Inr (ck', d') \<and> length d' \<le> length d + k"
proof (induction k arbitrary: n d)
  case (Suc k)
  obtain d1 where d1: "insert_skipped cap (skey dh n) (mk_at ck0 n) d = Inr d1" "length d1 \<le> Suc (length d)"
    using Suc.prems(3) by (cases "map_of d (skey dh n)") (auto simp: insert_skipped_def length_update_new)
  with Suc.IH[of "Suc n" d1] Suc.prems show ?case
    by (fastforce simp: add.commute)
qed auto

lemma skip_chain_full: "length ck0 = 32 \<Longrightarrow> n + k \<le> 2 ^ 32 \<Longrightarrow> cap < length d + k \<Longrightarrow> length d \<le> cap \<Longrightarrow>
    (\<And>i. n \<le> i \<Longrightarrow> i < 2 ^ 32 \<Longrightarrow> map_of d (skey dh i) = None) \<Longrightarrow>
    skip_chain (insert_skipped cap) dh k (ck_at ck0 n) (int n) d = Inl (ValueError ''MAX_MKSKIPPED_RETAINED exceeded'')"
proof (induction k arbitrary: n d)
  case (Suc k)
  have n: "n < 2 ^ 32" "map_of d (skey dh n) = None" using Suc.prems by auto
  show ?case
  proof (cases "length d < cap")
    case True
    let ?d = "AList.update (skey dh n) (mk_at ck0 n) d"
    have "map_of ?d (skey dh i) = None" if "Suc n \<le> i" "i < 2 ^ 32" for i
      using that Suc.prems(5)[of i] n(1) by (simp add: update_conv' skey_inj)
    then have "skip_chain (insert_skipped cap) dh k (ck_at ck0 (Suc n)) (int (Suc n)) ?d =
        Inl (ValueError ''MAX_MKSKIPPED_RETAINED exceeded'')"
      using Suc.prems(1-3) True n(2) by (intro Suc.IH) (simp_all add: length_update_new)
    moreover have "insert_skipped cap (skey dh n) (mk_at ck0 n) d = Inr ?d" using n True by (simp add: insert_skipped_def)
    ultimately show ?thesis using Suc.prems(1) n(1) by (simp add: add.commute)
  next
    case False
    then have "insert_skipped cap (skey dh n) (mk_at ck0 n) d = Inl (ValueError ''MAX_MKSKIPPED_RETAINED exceeded'')"
      using n by (simp add: insert_skipped_def)
    then show ?thesis using Suc.prems(1) n(1) by simp
  qed
qed simp

section \<open>Receiving on an established chain\<close>

definition dr_recv :: "bytes \<Rightarrow> bytes \<Rightarrow> nat set \<Rightarrow> nat \<Rightarrow> ec_dr_state \<Rightarrow> bool" where
  "dr_recv ck0 dh used cap s \<longleftrightarrow> dr_dhr_pub s = Some dh \<and> capped cap (dr_mkskipped s) \<and>
     (\<exists>ck. dr_ckr s = Some ck \<and> chain_view ck0 dh used (dr_nr s) ck (dr_mkskipped s))"

text \<open>What a step on the receiving side leaves alone.\<close>

definition same_sender :: "ec_dr_state \<Rightarrow> ec_dr_state \<Rightarrow> bool" where
  "same_sender s s' \<longleftrightarrow> dr_rk s' = dr_rk s \<and> dr_dhs_priv s' = dr_dhs_priv s \<and> dr_dhs_pub s' = dr_dhs_pub s \<and>
     dr_dhr_pub s' = dr_dhr_pub s \<and> dr_cks s' = dr_cks s \<and> dr_ns s' = dr_ns s \<and> dr_pn s' = dr_pn s"

lemma dr_chain_step_spec:
  assumes inv: "dr_recv ck0 dh used cap s" and n: "dr_nr s = int n" and i: "n \<le> i" "i < 2 ^ 32"
    and skip: "i = n \<or> int i - dr_nr s \<le> ms" and room: "length (dr_mkskipped s) + (i - n) \<le> cap"
  shows "\<exists>s'. dr_chain_step ms cap dh (int i) s = Inr (s', mk_at ck0 i) \<and>
    dr_recv ck0 dh (insert i used) cap s' \<and> same_sender s s'"
proof -
  from inv obtain ck where dh: "dr_dhr_pub s = Some dh" and cap: "capped cap (dr_mkskipped s)"
    and ckr: "dr_ckr s = Some ck" and view: "chain_view ck0 dh used (int n) ck (dr_mkskipped s)"
    by (auto simp: dr_recv_def n)
  from view have ck0: "length ck0 = 32" and ck: "ck = ck_at ck0 n"
    by (auto elim!: chain_viewE)
  obtain ck' d' where sc: "skip_chain (insert_skipped cap) dh (i - n) ck (int n) (dr_mkskipped s) = Inr (ck', d')"
    using skip_chain_room[OF ck0, of n "i - n" "dr_mkskipped s" cap dh] i room ck by auto
  note st = capped_store.skip_take_view[OF view cap i sc]
  let ?s = "s\<lparr>dr_ckr := Some (ck_at ck0 i), dr_nr := int i, dr_mkskipped := d'\<rparr>"
  have adv: "(if int i > dr_nr s then
           (if int i - dr_nr s > ms then Inl (ValueError ''MAX_SKIP exceeded'') else dr_skip_to cap s dh ck (int i))
         else Inr s) = Inr ?s"
  proof (cases "i = n")
    case eq: True
    then show ?thesis using sc n ckr ck by (cases s) simp
  next
    case neq: False
    then show ?thesis using i n skip neq sc st
      by (simp add: dr_skip_to_def nat_diff_distrib')
  qed
  have "dr_chain_step ms cap dh (int i) s = Inr (?s\<lparr>dr_ckr := Some (ck_at ck0 (Suc i)), dr_nr := int i + 1\<rparr>, mk_at ck0 i)"
    unfolding dr_chain_step_def ckr option.case adv using n i ck0 by simp
  then show ?thesis using st dh by (auto simp: dr_recv_def same_sender_def)
qed

lemma dr_receive_spec:
  assumes inv: "dr_recv ck0 dh used cap s" and i: "i < 2 ^ 32"
    and hdr: "eh_dh_pub h = dh" "eh_n h = int i"
  shows "if i \<in> used then ec_dr_decrypt c s h ms np cap = Inl (ValueError ''replay of consumed index'')
    else if int i - dr_nr s > ms \<and> int i > dr_nr s
    then ec_dr_decrypt c s h ms np cap = Inl (ValueError ''MAX_SKIP exceeded'')
    else if int i > dr_nr s \<and> length (dr_mkskipped s) + nat (int i - dr_nr s) > cap
    then ec_dr_decrypt c s h ms np cap = Inl (ValueError ''MAX_MKSKIPPED_RETAINED exceeded'')
    else \<exists>s'. ec_dr_decrypt c s h ms np cap = Inr (s', mk_at ck0 i) \<and>
      dr_recv ck0 dh (insert i used) cap s' \<and> same_sender s s'"
proof -
  from inv obtain ck where dh: "dr_dhr_pub s = Some dh" and cap: "capped cap (dr_mkskipped s)"
    and ckr: "dr_ckr s = Some ck" and view: "chain_view ck0 dh used (dr_nr s) ck (dr_mkskipped s)"
    by (auto simp: dr_recv_def)
  from view obtain n where n: "n \<le> 2 ^ 32" "dr_nr s = int n" "ck = ck_at ck0 n" "used \<subseteq> {..<n}"
    and ck0: "length ck0 = 32"
    and sk: "map_of (dr_mkskipped s) (skey dh i) = (if i < n \<and> i \<notin> used then Some (mk_at ck0 i) else None)"
    using i by (elim chain_viewE) blast
  note def = ec_dr_decrypt_def Let_def hdr mk_key_int[OF i[simplified]] dh
  consider (used) "i \<in> used" | (old) "i < n" "i \<notin> used" | (new) "n \<le> i"
    using n(4) by force
  then show ?thesis
  proof cases
    case used
    then show ?thesis using n sk by (auto simp: def dr_chain_step_def ckr)
  next
    case old
    have "capped cap (AList.delete (skey dh i) (dr_mkskipped s))"
      using cap length_delete_le[of "skey dh i" "dr_mkskipped s"] by (simp add: capped_def)
    then show ?thesis using n dh ckr sk chain_view_take_old[OF view[unfolded n(2)] old i] old
      by (auto simp: def dr_recv_def same_sender_def)
  next
    case new
    then have iu: "i \<notin> used" and none: "map_of (dr_mkskipped s) (skey dh i) = None"
      using n(4) sk by auto
    have step: "ec_dr_decrypt c s h ms np cap = dr_chain_step ms cap dh (int i) s"
      by (simp add: def none)
    have room: "length (dr_mkskipped s) + (i - n) \<le> cap"
      if "\<not> (int i > dr_nr s \<and> length (dr_mkskipped s) + nat (int i - dr_nr s) > cap)"
      using that cap new n(2) by (cases "i = n") (auto simp: capped_def nat_diff_distrib')
    have full: "dr_skip_to cap s dh ck (int i) = Inl (ValueError ''MAX_MKSKIPPED_RETAINED exceeded'')"
      if "n < i" "cap < length (dr_mkskipped s) + (i - n)"
    proof -
      have "map_of (dr_mkskipped s) (skey dh j) = None" if "n \<le> j" "j < 2 ^ 32" for j
        using view n(2) that by (elim chain_viewE) auto
      then show ?thesis
        using that skip_chain_full[OF ck0, of n "i - n" cap "dr_mkskipped s" dh] cap i n(2,3)
        by (simp add: dr_skip_to_def nat_diff_distrib' capped_def)
    qed
    show ?thesis
      using iu new n(2) room full dr_chain_step_spec[OF inv n(2) new i, of ms] ckr
      by (auto simp: step dr_chain_step_def nat_diff_distrib')
  qed
qed

section \<open>DH turns\<close>

text \<open>
  X25519 commutes: what \<open>x25519_dh\<close> gives the holder of one private key with the other's public key
  is what it gives the other.
\<close>

definition dh_commutes :: "crypto \<Rightarrow> bool" where
  "dh_commutes c \<longleftrightarrow> (\<forall>a b A B. x25519_public c a = Inr A \<longrightarrow> x25519_public c b = Inr B \<longrightarrow>
     x25519_dh c a B = x25519_dh c b A)"

definition fresh_dh :: "(bytes, bytes) dict \<Rightarrow> bytes \<Rightarrow> bool" where
  "fresh_dh d dh \<longleftrightarrow> (\<forall>i < 2 ^ 32. map_of d (skey dh i) = None)"

definition old_ok :: "nat \<Rightarrow> ec_dr_state \<Rightarrow> bool" where
  "old_ok cap s \<longleftrightarrow> capped cap (dr_mkskipped s) \<and>
     (dr_ckr s = None \<or> (\<exists>ck0 dh used. dr_recv ck0 dh used cap s))"

text \<open>
  It is \<open>P\<close>'s turn: \<open>P\<close> sends on chain \<open>ck0\<close> under a DH key that \<open>Q\<close> has not seen, and \<open>Q\<close> will derive
  the same root and chain from it.
\<close>

definition dr_turn :: "crypto \<Rightarrow> nat \<Rightarrow> ec_dr_state \<Rightarrow> ec_dr_state \<Rightarrow> bytes \<Rightarrow> bool" where
  "dr_turn c cap P Q ck0 \<longleftrightarrow>
     x25519_public c (dr_dhs_priv P) = Inr (dr_dhs_pub P) \<and>
     x25519_public c (dr_dhs_priv Q) = Inr (dr_dhs_pub Q) \<and>
     dr_dhr_pub P = Some (dr_dhs_pub Q) \<and> dr_dhr_pub Q \<noteq> Some (dr_dhs_pub P) \<and>
     length ck0 = 32 \<and> (\<exists>k. dr_ns P = int k \<and> dr_cks P = Some (ck_at ck0 k)) \<and>
     (\<exists>ss. x25519_dh c (dr_dhs_priv Q) (dr_dhs_pub P) = Inr ss \<and> kdf_rk (dr_rk Q) ss = Inr (dr_rk P, ck0)) \<and>
     fresh_dh (dr_mkskipped Q) (dr_dhs_pub P) \<and> old_ok cap P \<and> old_ok cap Q"

lemma dh_commutesD: "dh_commutes c \<Longrightarrow> x25519_public c a = Inr A \<Longrightarrow> x25519_public c b = Inr B \<Longrightarrow>
    x25519_dh c a B = x25519_dh c b A"
  unfolding dh_commutes_def by blast

lemma skey_dh: "skey dh i = skey dh' j \<Longrightarrow> dh = dh'"
  by (simp add: skey_def)

lemma dr_init_turn:
  assumes "dh_commutes c" "x25519_public c b = Inr B"
    and "ec_dr_init_alice c rk0 a B = Inr P" "ec_dr_init_bob c rk0 b = Inr Q"
  shows "\<exists>ck0. dr_turn c cap P Q ck0"
proof -
  from assms(3) obtain ss rk1 cks A where P: "x25519_dh c a B = Inr ss" "kdf_rk rk0 ss = Inr (rk1, cks)"
    "x25519_public c a = Inr A" "P = \<lparr>dr_rk = rk1, dr_dhs_priv = a, dr_dhs_pub = A, dr_dhr_pub = Some B,
      dr_cks = Some cks, dr_ckr = None, dr_ns = 0, dr_nr = 0, dr_pn = 0, dr_mkskipped = []\<rparr>"
    by (auto simp: ec_dr_init_alice_def bindE_eq_Inr)
  have Q: "Q = \<lparr>dr_rk = rk0, dr_dhs_priv = b, dr_dhs_pub = B, dr_dhr_pub = None,
      dr_cks = None, dr_ckr = None, dr_ns = 0, dr_nr = 0, dr_pn = 0, dr_mkskipped = []\<rparr>"
    using assms(2,4) by (simp add: ec_dr_init_bob_def)
  have "x25519_dh c b A = Inr ss"
    using dh_commutesD[OF assms(1) P(3) assms(2)] P(1) by simp
  moreover have "\<exists>k. (0 :: int) = int k \<and> cks = ck_at cks k"
    by (rule exI[of _ 0]) simp
  ultimately have "dr_turn c cap P Q cks"
    using assms(2) P(2,3) kdf_rk_len[OF P(2)] unfolding dr_turn_def P(4) Q
    by (simp add: fresh_dh_def old_ok_def capped_def)
  then show ?thesis ..
qed

lemma dr_encrypt_turn:
  assumes "dr_turn c cap P Q ck0" "dr_ns P = int k"
  shows "\<exists>P'. ec_dr_encrypt P = Inr (P', \<lparr>eh_dh_pub = dr_dhs_pub P, eh_pn = dr_pn P, eh_n = int k\<rparr>, mk_at ck0 k) \<and>
    dr_turn c cap P' Q ck0 \<and> dr_ns P' = int (Suc k) \<and> dr_pn P' = dr_pn P \<and> dr_dhs_pub P' = dr_dhs_pub P"
proof -
  have cks: "dr_cks P = Some (ck_at ck0 k)" "length ck0 = 32"
    using assms by (auto simp: dr_turn_def)
  let ?P = "P\<lparr>dr_cks := Some (ck_at ck0 (Suc k)), dr_ns := int k + 1\<rparr>"
  have "ec_dr_encrypt P = Inr (?P, \<lparr>eh_dh_pub = dr_dhs_pub P, eh_pn = dr_pn P, eh_n = int k\<rparr>, mk_at ck0 k)"
    using cks assms(2) by (simp add: ec_dr_encrypt_def)
  moreover have "dr_turn c cap ?P Q ck0"
    using assms(1) by (auto simp: dr_turn_def old_ok_def dr_recv_def intro!: exI[of _ "Suc k"])
  ultimately show ?thesis by auto
qed

text \<open>Further messages on an established chain do not disturb whose turn it is.\<close>

lemma dr_turn_same_sender:
  assumes "dr_turn c cap P Q ck0" "same_sender P P'" "old_ok cap P'"
  shows "dr_turn c cap P' Q ck0"
  using assms unfolding dr_turn_def same_sender_def by simp

lemma dr_skip_to_spec:
  assumes inv: "dr_recv ck0 dh used cap s" and until: "dr_nr s \<le> until" "until \<le> 2 ^ 32"
    and room: "length (dr_mkskipped s) + nat (until - dr_nr s) \<le> cap"
  shows "\<exists>ck s'. dr_ckr s = Some ck \<and> dr_skip_to cap s dh ck until = Inr s' \<and> capped cap (dr_mkskipped s') \<and>
    length (dr_mkskipped s') \<le> length (dr_mkskipped s) + nat (until - dr_nr s) \<and> same_sender s s' \<and>
    (\<forall>dh'. dh' \<noteq> dh \<longrightarrow> fresh_dh (dr_mkskipped s) dh' \<longrightarrow> fresh_dh (dr_mkskipped s') dh')"
proof -
  from inv obtain ck where cap: "capped cap (dr_mkskipped s)" and ckr: "dr_ckr s = Some ck"
    and view: "chain_view ck0 dh used (dr_nr s) ck (dr_mkskipped s)"
    by (auto simp: dr_recv_def)
  from view obtain n where n: "dr_nr s = int n" "ck = ck_at ck0 n" "used \<subseteq> {..<n}"
    and ck0: "length ck0 = 32"
    and sk: "\<And>i. i < 2 ^ 32 \<Longrightarrow> map_of (dr_mkskipped s) (skey dh i) = (if i < n \<and> i \<notin> used then Some (mk_at ck0 i) else None)"
    by (elim chain_viewE) blast
  let ?k = "nat (until - int n)"
  have k: "n + ?k \<le> 2 ^ 32" "length (dr_mkskipped s) + ?k \<le> cap" using until room n(1) by auto
  obtain ck' d' where sc: "skip_chain (insert_skipped cap) dh ?k (ck_at ck0 n) (int n) (dr_mkskipped s) = Inr (ck', d')"
    and len: "length d' \<le> length (dr_mkskipped s) + ?k"
    using skip_chain_room[OF ck0 k] by blast
  have frame: "\<And>x. (\<forall>i. n \<le> i \<and> i < n + ?k \<longrightarrow> x \<noteq> skey dh i) \<Longrightarrow> map_of d' x = map_of (dr_mkskipped s) x"
    using capped_store.skip_chain_stores[OF sc ck0 k(1) cap] sk k(1) by auto
  have "fresh_dh d' dh'" if "dh' \<noteq> dh" "fresh_dh (dr_mkskipped s) dh'" for dh'
    using that frame skey_dh by (metis fresh_dh_def)
  then show ?thesis
    using sc len skip_chain_capped[OF sc cap] ckr n by (auto simp: dr_skip_to_def same_sender_def)
qed

text \<open>The conditions of a turn that the network decides: the header in bounds, room for the skipped keys.\<close>

definition turn_header_ok :: "ec_dr_state \<Rightarrow> ec_header \<Rightarrow> nat \<Rightarrow> int \<Rightarrow> nat \<Rightarrow> bool" where
  "turn_header_ok Q h i ms cap \<longleftrightarrow> eh_n h = int i \<and> i < 2 ^ 32 \<and> int i \<le> ms \<and>
     (case dr_ckr Q of
        None \<Rightarrow> length (dr_mkskipped Q) + i \<le> cap
      | Some _ \<Rightarrow> dr_nr Q \<le> eh_pn h \<and> eh_pn h - dr_nr Q \<le> ms \<and> eh_pn h \<le> 2 ^ 32 \<and>
                  length (dr_mkskipped Q) + nat (eh_pn h - dr_nr Q) + i \<le> cap)"

lemma dh_phase:
  assumes turn: "dr_turn c cap P Q ck0" and hok: "turn_header_ok Q h i ms cap"
  shows "\<exists>st. (case (dr_dhr_pub Q, dr_ckr Q) of
                 (Some dhr, Some ck) \<Rightarrow>
                   if eh_pn h < dr_nr Q then Inl (ValueError ''pn behind nr'')
                   else if eh_pn h - dr_nr Q > ms then Inl (ValueError ''MAX_SKIP exceeded'')
                   else dr_skip_to cap Q dhr ck (eh_pn h)
               | _ \<Rightarrow> Inr Q) = Inr st \<and>
    same_sender Q st \<and> capped cap (dr_mkskipped st) \<and> length (dr_mkskipped st) + i \<le> cap \<and>
    fresh_dh (dr_mkskipped st) (dr_dhs_pub P)"
proof (cases "dr_ckr Q")
  case None
  then show ?thesis using turn hok
    by (auto simp: dr_turn_def old_ok_def turn_header_ok_def same_sender_def split: option.split)
next
  case (Some ck)
  then obtain ck' dhr used where old: "dr_recv ck' dhr used cap Q"
    using turn by (auto simp: dr_turn_def old_ok_def)
  have dhr: "dr_dhr_pub Q = Some dhr" "dhr \<noteq> dr_dhs_pub P" and fresh: "fresh_dh (dr_mkskipped Q) (dr_dhs_pub P)"
    using old turn by (auto simp: dr_recv_def dr_turn_def)
  have b: "dr_nr Q \<le> eh_pn h" "eh_pn h - dr_nr Q \<le> ms" "eh_pn h \<le> 2 ^ 32"
    "length (dr_mkskipped Q) + nat (eh_pn h - dr_nr Q) + i \<le> cap"
    using hok Some by (auto simp: turn_header_ok_def)
  from dr_skip_to_spec[OF old b(1,3)] b(4) Some obtain st where
    "dr_skip_to cap Q dhr ck (eh_pn h) = Inr st" "capped cap (dr_mkskipped st)" "same_sender Q st"
    "length (dr_mkskipped st) \<le> length (dr_mkskipped Q) + nat (eh_pn h - dr_nr Q)"
    "fresh_dh (dr_mkskipped st) (dr_dhs_pub P)"
    using dhr(2) fresh by auto
  then show ?thesis using Some dhr(1) b by auto
qed

lemma dr_turn_step:
  assumes comm: "dh_commutes c" and turn: "dr_turn c cap P Q ck0"
    and hok: "turn_header_ok Q h i ms cap" "eh_dh_pub h = dr_dhs_pub P"
    and new: "x25519_public c b = Inr B" "B \<noteq> dr_dhs_pub Q" "fresh_dh (dr_mkskipped P) B"
    and contrib: "x25519_dh c b (dr_dhs_pub P) = Inr ss2" "length ss2 = 32" "ss2 \<noteq> zeros 32"
  shows "\<exists>Q' ck1. ec_dr_decrypt c Q h ms (Some b) cap = Inr (Q', mk_at ck0 i) \<and>
    dr_recv ck0 (dr_dhs_pub P) {i} cap Q' \<and> dr_turn c cap Q' P ck1 \<and> dr_dhs_pub Q' = B \<and>
    dr_pn Q' = dr_ns Q \<and> dr_ns Q' = 0"
proof -
  obtain st where st: "same_sender Q st" "capped cap (dr_mkskipped st)" "length (dr_mkskipped st) + i \<le> cap"
    "fresh_dh (dr_mkskipped st) (dr_dhs_pub P)"
    and phase: "(case (dr_dhr_pub Q, dr_ckr Q) of
                 (Some dhr, Some ck) \<Rightarrow>
                   if eh_pn h < dr_nr Q then Inl (ValueError ''pn behind nr'')
                   else if eh_pn h - dr_nr Q > ms then Inl (ValueError ''MAX_SKIP exceeded'')
                   else dr_skip_to cap Q dhr ck (eh_pn h)
               | _ \<Rightarrow> Inr Q) = Inr st"
    using dh_phase[OF turn hok(1)] by blast
  obtain ss where ss: "x25519_dh c (dr_dhs_priv Q) (dr_dhs_pub P) = Inr ss" "kdf_rk (dr_rk Q) ss = Inr (dr_rk P, ck0)"
    using turn by (auto simp: dr_turn_def)
  have "length (dr_rk P) = 32" and ck0: "length ck0 = 32" using kdf_rk_len[OF ss(2)] by auto
  then obtain rk2 cks where rk2: "kdf_rk (dr_rk P) ss2 = Inr (rk2, cks)"
    using kdf_rk_iff[of "dr_rk P" ss2] contrib by auto
  let ?r = "st\<lparr>dr_rk := rk2, dr_dhs_priv := b, dr_dhs_pub := B, dr_dhr_pub := Some (dr_dhs_pub P),
     dr_cks := Some cks, dr_ckr := Some ck0, dr_ns := 0, dr_nr := 0, dr_pn := dr_ns Q\<rparr>"
  have ratchet: "dh_ratchet c st (dr_dhs_pub P) b = Inr ?r"
    using st(1) ss rk2 new contrib by (simp add: dh_ratchet_def same_sender_def)
  have view: "dr_recv ck0 (dr_dhs_pub P) {} cap ?r"
    using st ck0 by (auto simp: dr_recv_def fresh_dh_def intro!: chain_view_start)
  have i: "i < 2 ^ 32" "int i \<le> ms" "eh_n h = int i" using hok(1) by (auto simp: turn_header_ok_def)
  obtain Q' where Q': "dr_chain_step ms cap (dr_dhs_pub P) (int i) ?r = Inr (Q', mk_at ck0 i)"
    "dr_recv ck0 (dr_dhs_pub P) {i} cap Q'" "same_sender ?r Q'"
    using dr_chain_step_spec[OF view, of 0 i ms] i st(3) by auto
  have fresh: "map_of (dr_mkskipped Q) (skey (dr_dhs_pub P) i) = None" and
    dhr: "dr_dhr_pub Q \<noteq> Some (dr_dhs_pub P)"
    using turn i(1) by (auto simp: dr_turn_def fresh_dh_def)
  have run: "ec_dr_decrypt c Q h ms (Some b) cap = Inr (Q', mk_at ck0 i)"
    unfolding ec_dr_decrypt_def Let_def phase hok(2) i(3) using i(1) dhr
    by (simp add: fresh ratchet Q'(1))
  have Qf: "dr_rk Q' = rk2" "dr_dhs_priv Q' = b" "dr_dhs_pub Q' = B" "dr_dhr_pub Q' = Some (dr_dhs_pub P)"
    "dr_cks Q' = Some cks" "dr_ns Q' = 0" "dr_pn Q' = dr_ns Q"
    using Q'(3) by (simp_all add: same_sender_def)
  have pubP: "x25519_public c (dr_dhs_priv P) = Inr (dr_dhs_pub P)" "dr_dhr_pub P = Some (dr_dhs_pub Q)" "old_ok cap P"
    using turn by (auto simp: dr_turn_def)
  have "x25519_dh c (dr_dhs_priv P) B = Inr ss2"
    using dh_commutesD[OF comm pubP(1) new(1)] contrib(1) by simp
  moreover have "\<exists>k. (0 :: int) = int k \<and> cks = ck_at cks k"
    by (rule exI[of _ 0]) simp
  moreover have "old_ok cap Q'"
    using Q'(2) by (auto simp: old_ok_def dr_recv_def)
  ultimately have "dr_turn c cap Q' P cks"
    unfolding dr_turn_def Qf using pubP new kdf_rk_len[OF rk2] rk2 by simp
  then show ?thesis using run Q'(2) Qf by blast
qed

section \<open>Braid chunks\<close>

record braid_chunk =
  br_epoch :: int
  br_type :: int
  br_index :: int
  br_payload :: bytes
  br_session_id :: bytes
  br_binding_digest :: bytes

definition braid_binding :: "braid_chunk \<Rightarrow> bytes res" where
  "braid_binding ch =
     bindE (require_session_id (br_session_id ch)) (\<lambda>sid.
     bindE (require_epoch_u64 (br_epoch ch)) (\<lambda>epoch.
     bindE (joinE [Inr BRAID_CHUNK_DOMAIN, to_bytes epoch 8, Inr [word_of_int (br_type ch)],
                   to_bytes (br_index ch) 4, Inr (br_payload ch), Inr sid]) (\<lambda>m. Inr (sha256 m))))"

definition encode_braid_chunk :: "braid_chunk \<Rightarrow> bytes res" where
  "encode_braid_chunk ch =
     bindE (require_session_id (br_session_id ch)) (\<lambda>_.
     bindE (require_epoch_u64 (br_epoch ch)) (\<lambda>_.
     bindE (validate_braid_payload_rules (br_type ch) (br_payload ch) (br_index ch)) (\<lambda>_.
     if length (br_payload ch) > TR_MAX_PAYLOAD then Inl (ValueError ''braid payload exceeds max'')
     else bindE (braid_binding ch) (\<lambda>dig.
       joinE [Inr BRAID_MAGIC, to_bytes (br_epoch ch) 8, to_bytes (br_type ch) 1, to_bytes (br_index ch) 4,
              to_bytes (int (length (br_payload ch))) 2, Inr (br_payload ch), Inr dig]))))"

definition decode_braid_chunk :: "bytes \<Rightarrow> bytes \<Rightarrow> braid_chunk res" where
  "decode_braid_chunk wire session_id =
     bindE (require_session_id session_id) (\<lambda>session_id.
     if length wire < BRAID_HEADER_LEN + BRAID_DIGEST_LEN then Inl (ValueError ''short braid chunk'')
     else if take 8 wire \<noteq> BRAID_MAGIC then Inl (ValueError ''bad braid magic'')
     else let typ = uint (wire ! 16) in
     if typ \<notin> BRAID_ALLOWED_TYPES then Inl (ValueError ''unknown braid chunk type'')
     else let plen = nat (from_bytes (slice wire 21 23)) in
     if length wire \<noteq> BRAID_HEADER_LEN + plen + BRAID_DIGEST_LEN
     then Inl (ValueError ''braid chunk length mismatch'')
     else if plen > TR_MAX_PAYLOAD then Inl (ValueError ''braid payload exceeds max'')
     else let epoch = from_bytes (slice wire 8 16);
              idx = from_bytes (slice wire 17 21);
              payload = slice wire 23 (23 + plen);
              dig = slice wire (23 + plen) (23 + plen + BRAID_DIGEST_LEN) in
     bindE (validate_braid_payload_rules typ payload idx) (\<lambda>_.
     let chunk = \<lparr>br_epoch = epoch, br_type = typ, br_index = idx, br_payload = payload,
                  br_session_id = session_id, br_binding_digest = dig\<rparr> in
     bindE (braid_binding chunk) (\<lambda>b.
     if b \<noteq> dig then Inl (ValueError ''braid chunk tamper'') else Inr chunk)))"

section \<open>Reassembly\<close>

record braid_reassembly =
  ra_epoch :: int
  ra_expected_count :: int
  ra_parts :: "(int, bytes) dict"
  ra_promoted :: bool
  ra_deleted_prev_dk :: bool
  ra_prev_dk :: "bytes option"
  ra_total_payload_bytes :: nat
  ra_max_chunks :: nat
  ra_max_total_bytes :: nat

definition new_reassembly :: "int \<Rightarrow> int \<Rightarrow> nat \<Rightarrow> nat \<Rightarrow> braid_reassembly res" where
  "new_reassembly epoch expected_count max_chunks max_total_bytes =
     (if expected_count \<le> 0 \<or> expected_count > int max_chunks
      then Inl (ValueError ''braid expected_count out of bounds'')
      else Inr \<lparr>ra_epoch = epoch, ra_expected_count = expected_count, ra_parts = [], ra_promoted = False,
                ra_deleted_prev_dk = False, ra_prev_dk = None, ra_total_payload_bytes = 0,
                ra_max_chunks = max_chunks, ra_max_total_bytes = max_total_bytes\<rparr>)"

definition ingest :: "braid_reassembly \<Rightarrow> braid_chunk \<Rightarrow> braid_reassembly \<times> string" where
  "ingest r ch =
     (if br_epoch ch \<noteq> ra_epoch r then (r, ''epoch_mismatch'')
      else if br_type ch \<notin> BRAID_ALLOWED_TYPES then (r, ''unknown_type'')
      else if br_index ch \<ge> ra_expected_count r then (r, ''index_out_of_range'')
      else if map_of (ra_parts r) (br_index ch) \<noteq> None then (r, ''duplicate_chunk'')
      else if length (ra_parts r) \<ge> ra_max_chunks r then (r, ''chunk_cap_exceeded'')
      else let nxt = ra_total_payload_bytes r + length (br_payload ch) in
      if nxt > ra_max_total_bytes r then (r, ''byte_cap_exceeded'')
      else (r\<lparr>ra_parts := AList.update (br_index ch) (br_payload ch) (ra_parts r),
              ra_total_payload_bytes := nxt\<rparr>, ''stored''))"

definition try_complete :: "braid_reassembly \<Rightarrow> bytes option" where
  "try_complete r =
     (if list_ex (\<lambda>i. map_of (ra_parts r) i = None) [0 .. ra_expected_count r - 1] then None
      else Some (concat (map (\<lambda>i. the (map_of (ra_parts r) i)) [0 .. ra_expected_count r - 1])))"

definition promote_with_ss :: "braid_reassembly \<Rightarrow> bytes \<Rightarrow> bytes \<Rightarrow> (braid_reassembly \<times> bytes) res" where
  "promote_with_ss r ss prev_dk =
     (if ra_promoted r then Inl (ValueError ''already promoted'')
      else if try_complete r = None then Inl (ValueError ''incomplete'')
      else Inr (r\<lparr>ra_prev_dk := Some (zeros (length prev_dk)), ra_deleted_prev_dk := True,
                  ra_promoted := True\<rparr>, ss))"

section \<open>The chunk codec is canonical\<close>

definition wf_braid_chunk :: "braid_chunk \<Rightarrow> bool" where
  "wf_braid_chunk ch \<longleftrightarrow> length (br_session_id ch) = 32 \<and> uint_fits 8 (br_epoch ch) \<and> uint_fits 4 (br_index ch) \<and>
     length (br_payload ch) \<le> 8192 \<and>
     validate_braid_payload_rules (br_type ch) (br_payload ch) (br_index ch) = Inr ()"

definition braid_digest_of :: "braid_chunk \<Rightarrow> bytes" where
  "braid_digest_of ch = sha256 (BRAID_CHUNK_DOMAIN @ be_bytes 8 (br_epoch ch) @ [word_of_int (br_type ch)] @
     be_bytes 4 (br_index ch) @ br_payload ch @ br_session_id ch)"

definition braid_chunk_wire :: "braid_chunk \<Rightarrow> bytes" where
  "braid_chunk_wire ch = BRAID_MAGIC @ be_bytes 8 (br_epoch ch) @ u8 (br_type ch) @ be_bytes 4 (br_index ch) @
     be_bytes 2 (int (length (br_payload ch))) @ br_payload ch @ braid_digest_of ch"

lemma length_BRAID_MAGIC [simp]: "length BRAID_MAGIC = 8"
  by (simp add: BRAID_MAGIC_def)

lemma payload_rules_type: "validate_braid_payload_rules t p i = Inr u \<Longrightarrow> t \<in> {0..6}"
  by (auto simp: validate_braid_payload_rules_def BRAID_ALLOWED_TYPES_def split: if_splits)

lemma require_epoch_iff: "require_epoch_u64 e = Inr x \<longleftrightarrow> uint_fits 8 e \<and> x = e"
  by (auto simp: require_epoch_u64_def uint_fits_def)

lemma braid_binding_iff: "braid_binding ch = Inr d \<longleftrightarrow>
    length (br_session_id ch) = 32 \<and> uint_fits 8 (br_epoch ch) \<and> uint_fits 4 (br_index ch) \<and> d = braid_digest_of ch"
  by (auto simp: braid_binding_def require_session_id_def bindE_eq_Inr require_epoch_iff to_bytes_fits
      braid_digest_of_def)

lemma encode_braid_chunk_iff: "encode_braid_chunk ch = Inr w \<longleftrightarrow> wf_braid_chunk ch \<and> w = braid_chunk_wire ch"
  by (auto simp: encode_braid_chunk_def require_session_id_def bindE_eq_Inr require_epoch_iff to_bytes_fits
      braid_binding_iff wf_braid_chunk_def braid_chunk_wire_def TR_MAX_PAYLOAD_def BRAID_MAX_TOTAL_PAYLOAD_BYTES_def
      u8_def uint_fits_def dest: payload_rules_type)

lemma decode_braid_chunk_wire:
  assumes "wf_braid_chunk ch" "br_binding_digest ch = braid_digest_of ch"
  shows "decode_braid_chunk (braid_chunk_wire ch) (br_session_id ch) = Inr ch"
proof -
  have t: "br_type ch \<in> {0..6}" "byte_fits (br_type ch)" "br_type ch \<in> BRAID_ALLOWED_TYPES"
    using assms(1) payload_rules_type
    by (fastforce simp: wf_braid_chunk_def byte_fits_def BRAID_ALLOWED_TYPES_def)+
  let ?e = "be_bytes 8 (br_epoch ch)" and ?t = "u8 (br_type ch)" and ?i = "be_bytes 4 (br_index ch)"
    and ?l = "be_bytes 2 (int (length (br_payload ch)))"
  have w: "braid_chunk_wire ch = BRAID_MAGIC @ ?e @ ?t @ ?i @ ?l @ br_payload ch @ braid_digest_of ch"
    by (simp add: braid_chunk_wire_def)
  have len: "length (braid_digest_of ch) = 32" "length (br_payload ch) \<le> 8192"
    using assms(1) by (simp_all add: braid_digest_of_def wf_braid_chunk_def)
  have "take 8 (braid_chunk_wire ch) = BRAID_MAGIC" "uint (braid_chunk_wire ch ! 16) = br_type ch"
    "slice (braid_chunk_wire ch) 8 16 = ?e" "slice (braid_chunk_wire ch) 17 21 = ?i"
    "slice (braid_chunk_wire ch) 21 23 = ?l"
    using t(2) len(1) by (simp_all add: w slice_def nth_append u8_def)
  moreover have "slice (braid_chunk_wire ch) 23 (23 + length (br_payload ch)) = br_payload ch"
    using slice_mid[of "BRAID_MAGIC @ ?e @ ?t @ ?i @ ?l" 23 "br_payload ch" "23 + length (br_payload ch)" "braid_digest_of ch"]
    by (simp add: w)
  moreover have "slice (braid_chunk_wire ch) (23 + length (br_payload ch)) (23 + length (br_payload ch) + 32) = braid_digest_of ch"
    using slice_mid[of "BRAID_MAGIC @ ?e @ ?t @ ?i @ ?l @ br_payload ch" "23 + length (br_payload ch)"
        "braid_digest_of ch" "23 + length (br_payload ch) + 32" "[]"] len(1)
    by (simp add: w)
  moreover have "length (braid_chunk_wire ch) = 55 + length (br_payload ch)"
    using len(1) by (simp add: w)
  moreover have "braid_binding ch = Inr (braid_digest_of ch)"
    using assms(1) by (simp add: braid_binding_iff wf_braid_chunk_def)
  ultimately show ?thesis
    using assms t(3) len
    by (cases ch) (simp add: decode_braid_chunk_def require_session_id_def wf_braid_chunk_def Let_def uint_fits_def
        BRAID_HEADER_LEN_def BRAID_DIGEST_LEN_def TR_MAX_PAYLOAD_def BRAID_MAX_TOTAL_PAYLOAD_BYTES_def)
qed

lemma decode_braid_chunk_dest:
  assumes "decode_braid_chunk w sid = Inr ch"
  shows "wf_braid_chunk ch \<and> w = braid_chunk_wire ch \<and> br_session_id ch = sid \<and>
    br_binding_digest ch = braid_digest_of ch"
proof -
  define pl where pl: "pl = nat (from_bytes (slice w 21 23))"
  let ?ch = "\<lparr>br_epoch = from_bytes (slice w 8 16), br_type = uint (w ! 16), br_index = from_bytes (slice w 17 21),
      br_payload = slice w 23 (23 + pl), br_session_id = sid,
      br_binding_digest = slice w (23 + pl) (23 + pl + 32)\<rparr>"
  have "length sid = 32 \<and> take 8 w = BRAID_MAGIC \<and> length w = 55 + pl \<and> pl \<le> 8192 \<and>
      validate_braid_payload_rules (uint (w ! 16)) (slice w 23 (23 + pl)) (from_bytes (slice w 17 21)) = Inr () \<and>
      braid_binding ?ch = Inr (slice w (23 + pl) (23 + pl + 32)) \<and> ch = ?ch"
    using assms unfolding decode_braid_chunk_def require_session_id_def Let_def BRAID_HEADER_LEN_def
      BRAID_DIGEST_LEN_def TR_MAX_PAYLOAD_def BRAID_MAX_TOTAL_PAYLOAD_BYTES_def bindE_eq_Inr if_Inl_eq_Inr
      pl
    by (elim exE conjE) simp
  then have ch: "ch = ?ch" and sid: "length sid = 32" and magic: "take 8 w = BRAID_MAGIC" and len: "length w = 55 + pl"
    and plen: "pl \<le> 8192"
    and rules: "validate_braid_payload_rules (uint (w ! 16)) (slice w 23 (23 + pl)) (from_bytes (slice w 17 21)) = Inr ()"
    and bind: "braid_binding ?ch = Inr (slice w (23 + pl) (23 + pl + 32))"
    by - (elim conjE, assumption)+
  have lens: "length (slice w i j) = j - i" if "j \<le> 23 + pl + 32" for i j
    using len that by (simp add: slice_def)
  have be: "be_bytes 8 (from_bytes (slice w 8 16)) = slice w 8 16"
    "be_bytes 4 (from_bytes (slice w 17 21)) = slice w 17 21"
    "be_bytes 2 (from_bytes (slice w 21 23)) = slice w 21 23"
    using be_from_bytes[of "slice w 8 16"] be_from_bytes[of "slice w 17 21"] be_from_bytes[of "slice w 21 23"]
    by (simp_all add: lens)
  have nn: "0 \<le> from_bytes (slice w 21 23)" using from_bytes_bounds by blast
  have dig: "slice w (23 + pl) (23 + pl + 32) = braid_digest_of ch"
    using bind ch by (simp add: braid_binding_iff)
  have fits: "uint_fits 8 (from_bytes (slice w 8 16))" "uint_fits 4 (from_bytes (slice w 17 21))"
    using bind by (simp_all add: braid_binding_iff)
  have "w = slice w 0 8 @ slice w 8 16 @ slice w 16 (Suc 16) @ slice w 17 21 @ slice w 21 23 @
      slice w 23 (23 + pl) @ slice w (23 + pl) (23 + pl + 32)"
    using len by (simp add: slice_append) (simp add: slice_def)
  moreover have "slice w 16 (Suc 16) = [w ! 16]" using len by (intro slice_one) simp
  moreover have "slice w 0 8 = BRAID_MAGIC" using magic by (simp add: slice_def)
  ultimately have w: "w = BRAID_MAGIC @ slice w 8 16 @ [w ! 16] @ slice w 17 21 @ slice w 21 23 @
      slice w 23 (23 + pl) @ braid_digest_of ch"
    unfolding dig by metis
  have "int pl = from_bytes (slice w 21 23)" using nn by (simp add: pl)
  then have "braid_chunk_wire ch = w"
    by (subst w) (simp add: braid_chunk_wire_def ch u8_def be lens)
  then show ?thesis using sid rules plen fits dig lens by (auto simp: wf_braid_chunk_def ch)
qed

lemma decode_braid_chunk_iff: "decode_braid_chunk w sid = Inr ch \<longleftrightarrow>
    encode_braid_chunk ch = Inr w \<and> br_session_id ch = sid \<and> braid_binding ch = Inr (br_binding_digest ch)"
  using decode_braid_chunk_wire[of ch] decode_braid_chunk_dest[of w sid ch]
  by (auto simp: encode_braid_chunk_iff braid_binding_iff wf_braid_chunk_def)

section \<open>Reassembly collects every chunk once\<close>

definition reassembly_inv :: "braid_reassembly \<Rightarrow> bool" where
  "reassembly_inv r \<longleftrightarrow> wf_dict (ra_parts r) \<and> length (ra_parts r) \<le> ra_max_chunks r \<and>
     ra_total_payload_bytes r = sum_list (map (length \<circ> snd) (ra_parts r)) \<and>
     ra_total_payload_bytes r \<le> ra_max_total_bytes r \<and>
     dom (map_of (ra_parts r)) \<subseteq> {..<ra_expected_count r}"

lemma sum_update_new: "map_of d k = None \<Longrightarrow>
    sum_list (map (length \<circ> snd) (AList.update k v d)) = sum_list (map (length \<circ> snd) d) + length v"
  by (induction d) (auto split: if_splits)

lemma ingest_inv: "reassembly_inv r \<Longrightarrow> reassembly_inv (fst (ingest r ch))"
  by (auto simp: ingest_def Let_def reassembly_inv_def sum_update_new length_update_new update_conv')

definition collected :: "int \<Rightarrow> bytes list \<Rightarrow> nat \<Rightarrow> nat \<Rightarrow> nat set \<Rightarrow> braid_reassembly \<Rightarrow> bool" where
  "collected epoch ps mc mb D r \<longleftrightarrow> ra_epoch r = epoch \<and> ra_expected_count r = int (length ps) \<and>
     ra_max_chunks r = mc \<and> ra_max_total_bytes r = mb \<and> \<not> ra_promoted r \<and> D \<subseteq> {..<length ps} \<and>
     (\<forall>i. map_of (ra_parts r) i = (if 0 \<le> i \<and> nat i \<in> D then Some (ps ! nat i) else None)) \<and>
     length (ra_parts r) = card D \<and> ra_total_payload_bytes r = (\<Sum>j \<in> D. length (ps ! j))"

lemma ingest_collected:
  assumes inv: "collected epoch ps mc mb D r" and i: "i < length ps"
    and caps: "length ps \<le> mc" "sum_list (map length ps) \<le> mb"
    and ch: "br_epoch ch = epoch" "br_type ch \<in> BRAID_ALLOWED_TYPES" "br_index ch = int i" "br_payload ch = ps ! i"
  shows "ingest r ch = (fst (ingest r ch), if i \<in> D then ''duplicate_chunk'' else ''stored'') \<and>
    collected epoch ps mc mb (insert i D) (fst (ingest r ch))"
proof (cases "i \<in> D")
  case True
  then show ?thesis using inv i ch by (auto simp: ingest_def collected_def insert_absorb)
next
  case False
  have fin: "finite D" "D \<subseteq> {..<length ps}"
    using inv by (auto simp: collected_def intro: finite_subset[of D "{..<length ps}"])
  have "card (insert i D) \<le> length ps"
    using fin i card_mono[of "{..<length ps}" "insert i D"] by auto
  then have room: "card D < mc" using False fin caps by simp
  have "(\<Sum>j \<in> insert i D. length (ps ! j)) \<le> (\<Sum>j < length ps. length (ps ! j))"
    using fin i by (intro sum_mono2) auto
  also have "\<dots> = sum_list (map length ps)"
    by (simp add: sum_list_sum_nth atLeast0LessThan)
  finally have bytes: "(\<Sum>j \<in> D. length (ps ! j)) + length (ps ! i) \<le> mb"
    using False fin caps by simp
  have new: "map_of (ra_parts r) (int i) = None"
    using inv False by (simp add: collected_def)
  let ?r = "r\<lparr>ra_parts := AList.update (int i) (ps ! i) (ra_parts r),
              ra_total_payload_bytes := (\<Sum>j \<in> D. length (ps ! j)) + length (ps ! i)\<rparr>"
  have step: "ingest r ch = (?r, ''stored'')"
    using inv i ch new room bytes by (simp add: ingest_def collected_def)
  have "collected epoch ps mc mb (insert i D) ?r"
    using inv i False fin new by (auto simp: collected_def update_conv' length_update_new)
  then show ?thesis using step False by simp
qed

lemma collected_complete: "collected epoch ps mc mb {..<length ps} r \<Longrightarrow> try_complete r = Some (concat ps)"
proof -
  assume c: "collected epoch ps mc mb {..<length ps} r"
  have at: "map_of (ra_parts r) i = Some (ps ! nat i)" if "i \<in> set [0 .. int (length ps) - 1]" for i
    using c that by (auto simp: collected_def)
  have "map (\<lambda>i. the (map_of (ra_parts r) i)) [0 .. int (length ps) - 1] =
      map (\<lambda>i. ps ! nat i) [0 .. int (length ps) - 1]"
    using at by (intro map_cong) auto
  also have "\<dots> = ps"
    by (rule nth_equalityI) simp_all
  finally show ?thesis
    using c at by (auto simp: try_complete_def list_ex_iff collected_def)
qed

lemma not_complete: "collected epoch ps mc mb D r \<Longrightarrow> i < length ps \<Longrightarrow> i \<notin> D \<Longrightarrow> try_complete r = None"
  by (auto simp: try_complete_def list_ex_iff collected_def intro!: bexI[of _ "int i"])

text \<open>The chunks of a body cut into pieces, delivered in the given order.\<close>

definition piece_chunk :: "int \<Rightarrow> int \<Rightarrow> bytes \<Rightarrow> bytes list \<Rightarrow> nat \<Rightarrow> braid_chunk" where
  "piece_chunk epoch typ sid ps i = \<lparr>br_epoch = epoch, br_type = typ, br_index = int i, br_payload = ps ! i,
     br_session_id = sid, br_binding_digest = []\<rparr>"

definition deliver :: "braid_reassembly \<Rightarrow> braid_chunk list \<Rightarrow> braid_reassembly" where
  "deliver r chs = foldl (\<lambda>r ch. fst (ingest r ch)) r chs"

lemma deliver_collected:
  assumes "collected epoch ps mc mb D r" "length ps \<le> mc" "sum_list (map length ps) \<le> mb"
    and "typ \<in> BRAID_ALLOWED_TYPES" "set order \<subseteq> {..<length ps}"
  shows "collected epoch ps mc mb (D \<union> set order) (deliver r (map (piece_chunk epoch typ sid ps) order))"
  using assms(1,5)
proof (induction order arbitrary: D r)
  case (Cons i order)
  have "collected epoch ps mc mb (insert i D) (fst (ingest r (piece_chunk epoch typ sid ps i)))"
    using ingest_collected[OF Cons.prems(1) _ assms(2,3), of i "piece_chunk epoch typ sid ps i"] Cons.prems(2) assms(4)
    by (simp add: piece_chunk_def)
  from Cons.IH[OF this] Cons.prems(2) show ?case by (simp add: deliver_def)
qed (simp add: deliver_def)

lemma new_reassembly_collected: "0 < length ps \<Longrightarrow> length ps \<le> mc \<Longrightarrow>
    \<exists>r. new_reassembly epoch (int (length ps)) mc mb = Inr r \<and> collected epoch ps mc mb {} r"
  by (simp add: new_reassembly_def collected_def)

section \<open>An instance of the primitives\<close>

text \<open>A concrete record for the witnesses: a commutative exchange, a tag-appending seal.\<close>

definition example_crypto :: crypto where
  "example_crypto = \<lparr>x_public = Inr, x_exchange = (\<lambda>a b. Inr (map2 (XOR) a b)),
     aead_encrypt = (\<lambda>key nonce plain aad. Inr (plain @ zeros 16)),
     aead_decrypt = (\<lambda>key nonce ct aad. if length ct < 16 then Inl InvalidTag else Inr (take (length ct - 16) ct)),
     ed_load_public = (\<lambda>pub. if length pub = 32 then Inr () else Inl (ValueError ''length'')),
     ed_load_private = (\<lambda>priv. if length priv = 32 then Inr () else Inl (ValueError ''length'')),
     ed_public = Inr, ed_sign = (\<lambda>priv m. Inr (priv @ take 32 (m @ zeros 32))),
     ed_verify = (\<lambda>pub sig m. if sig = pub @ take 32 (m @ zeros 32) then Inr () else Inl InvalidSignature)\<rparr>"

lemma map2_xor_commute: "map2 (XOR) a b = map2 (XOR) b (a :: bytes)"
  by (induction a b rule: list_induct2') (simp_all add: xor.commute)

lemma example_commutes: "dh_commutes example_crypto"
  unfolding dh_commutes_def
  by (auto simp: example_crypto_def x25519_public_def x25519_dh_def split: if_splits)
     (metis map2_xor_commute)+

section \<open>Correctness\<close>

text \<open>
  A double-ratchet session starts in step. If Alice initialises against Bob's public key and
  Bob initialises from the same root, it is Alice's turn; her next message carries the chain's
  key of its index, and she keeps the turn while she sends.
\<close>

theorem double_ratchet_start:
  assumes "dh_commutes c" "x25519_public c b = Inr B"
    and "ec_dr_init_alice c rk0 a B = Inr P" "ec_dr_init_bob c rk0 b = Inr Q"
  shows "\<exists>ck0 P'. dr_turn c cap P Q ck0 \<and>
    ec_dr_encrypt P = Inr (P', \<lparr>eh_dh_pub = dr_dhs_pub P, eh_pn = 0, eh_n = 0\<rparr>, mk_at ck0 0) \<and>
    dr_turn c cap P' Q ck0"
proof -
  obtain ck0 where t: "dr_turn c cap P Q ck0" using dr_init_turn[OF assms] ..
  have "dr_ns P = int 0" "dr_pn P = 0" using assms(3) by (auto simp: ec_dr_init_alice_def bindE_eq_Inr)
  with dr_encrypt_turn[OF t this(1)] t show ?thesis by auto
qed

lemma example_init:
  "x25519_public example_crypto (replicate 32 2) = Inr (replicate 32 2)"
  "\<exists>P. ec_dr_init_alice example_crypto (replicate 32 9) (replicate 32 1) (replicate 32 2) = Inr P \<and>
     dr_dhs_pub P = replicate 32 1 \<and> dr_mkskipped P = [] \<and> dr_ckr P = None"
  "ec_dr_init_bob example_crypto (replicate 32 9) (replicate 32 2) =
     Inr \<lparr>dr_rk = replicate 32 9, dr_dhs_priv = replicate 32 2, dr_dhs_pub = replicate 32 2, dr_dhr_pub = None,
          dr_cks = None, dr_ckr = None, dr_ns = 0, dr_nr = 0, dr_pn = 0, dr_mkskipped = []\<rparr>"
proof -
  have x: "x25519_dh example_crypto (replicate 32 1) (replicate 32 2) = Inr (replicate 32 3)"
    "replicate 32 3 \<noteq> zeros 32"
    by (simp_all add: x25519_dh_def example_crypto_def zeros_def zip_replicate)
  obtain rk ck where "kdf_rk (replicate 32 9) (replicate 32 3) = Inr (rk, ck)"
    using kdf_rk_iff[of "replicate 32 9" "replicate 32 3"] x(2) by auto
  then show "\<exists>P. ec_dr_init_alice example_crypto (replicate 32 9) (replicate 32 1) (replicate 32 2) = Inr P \<and>
     dr_dhs_pub P = replicate 32 1 \<and> dr_mkskipped P = [] \<and> dr_ckr P = None"
    using x by (simp add: ec_dr_init_alice_def x25519_public_def) (simp add: example_crypto_def zeros_def)
qed (simp_all add: ec_dr_init_bob_def x25519_public_def example_crypto_def zeros_def)

lemma double_ratchet_start_witness:
  "\<exists>P Q ck0 P'. dr_turn example_crypto 2000 P Q ck0 \<and>
    ec_dr_encrypt P = Inr (P', \<lparr>eh_dh_pub = dr_dhs_pub P, eh_pn = 0, eh_n = 0\<rparr>, mk_at ck0 0) \<and>
    dr_turn example_crypto 2000 P' Q ck0"
  using example_init(2) double_ratchet_start[OF example_commutes example_init(1) _ example_init(3), of "replicate 32 1"]
  by blast

text \<open>
  C14: A DH turn keeps the parties in step. When it is \<open>P\<close>'s turn, \<open>Q\<close> takes a message of \<open>P\<close>'s chain
  whose header is in bounds (the first of that chain to arrive, whatever its index), recovers
  exactly the key \<open>P\<close> derived for that index, and it becomes \<open>Q\<close>'s turn on a fresh chain.
\<close>

theorem double_ratchet_turn:
  assumes "dh_commutes c" "dr_turn c cap P Q ck0"
    and "turn_header_ok Q h i ms cap" "eh_dh_pub h = dr_dhs_pub P"
    and "x25519_public c b = Inr B" "B \<noteq> dr_dhs_pub Q" "fresh_dh (dr_mkskipped P) B"
    and "x25519_dh c b (dr_dhs_pub P) = Inr ss2" "length ss2 = 32" "ss2 \<noteq> zeros 32"
  shows "\<exists>Q' ck1. ec_dr_decrypt c Q h ms (Some b) cap = Inr (Q', mk_at ck0 i) \<and>
    dr_recv ck0 (dr_dhs_pub P) {i} cap Q' \<and> dr_turn c cap Q' P ck1 \<and> dr_dhs_pub Q' = B \<and>
    dr_pn Q' = dr_ns Q \<and> dr_ns Q' = 0"
  by (rule dr_turn_step[OF assms])

lemma double_ratchet_turn_witness:
  "\<exists>Q Q' P ck0 ck1. ec_dr_decrypt example_crypto Q \<lparr>eh_dh_pub = replicate 32 1, eh_pn = 0, eh_n = 3\<rparr> 1000
       (Some (replicate 32 4)) 2000 = Inr (Q', mk_at ck0 3) \<and>
    dr_recv ck0 (dr_dhs_pub P) {3} 2000 Q' \<and> dr_turn example_crypto 2000 Q' P ck1 \<and>
    dr_dhs_pub Q' = replicate 32 4 \<and> dr_pn Q' = dr_ns Q \<and> dr_ns Q' = 0"
proof -
  obtain P where P: "ec_dr_init_alice example_crypto (replicate 32 9) (replicate 32 1) (replicate 32 2) = Inr P"
    "dr_dhs_pub P = replicate 32 1" "dr_mkskipped P = []"
    using example_init(2) by blast
  let ?Q = "\<lparr>dr_rk = replicate 32 9, dr_dhs_priv = replicate 32 2, dr_dhs_pub = replicate 32 2, dr_dhr_pub = None,
     dr_cks = None, dr_ckr = None, dr_ns = 0, dr_nr = 0, dr_pn = 0, dr_mkskipped = []\<rparr>"
  obtain ck0 where t: "dr_turn example_crypto 2000 P ?Q ck0"
    using dr_init_turn[OF example_commutes example_init(1) P(1) example_init(3)] by blast
  have dh: "x25519_dh example_crypto (replicate 32 4) (dr_dhs_pub P) = Inr (replicate 32 5)"
    by (simp add: P(2) x25519_dh_def example_crypto_def zeros_def zip_replicate)
  have "\<exists>Q' ck1. ec_dr_decrypt example_crypto ?Q \<lparr>eh_dh_pub = replicate 32 1, eh_pn = 0, eh_n = 3\<rparr> 1000
       (Some (replicate 32 4)) 2000 = Inr (Q', mk_at ck0 3) \<and>
    dr_recv ck0 (dr_dhs_pub P) {3} 2000 Q' \<and> dr_turn example_crypto 2000 Q' P ck1 \<and>
    dr_dhs_pub Q' = replicate 32 4 \<and> dr_pn Q' = dr_ns ?Q \<and> dr_ns Q' = 0"
    by (rule double_ratchet_turn[OF example_commutes t _ _ _ _ _ dh])
       (simp_all add: turn_header_ok_def P fresh_dh_def zeros_def x25519_public_def, simp add: example_crypto_def)
  then show ?thesis by blast
qed

text \<open>
  C17: On an established chain the outcome of every index below \<open>2 ^ 32\<close> is determined: used indices are
  replays, indices beyond the skip bound are refused, so are those whose skipped keys would overflow
  the retention cap, and every other index yields the chain's key and leaves the sending side alone.
\<close>

theorem double_ratchet_chain:
  assumes "dr_recv ck0 dh used cap s" "i < 2 ^ 32" "eh_dh_pub h = dh" "eh_n h = int i"
  shows "if i \<in> used then ec_dr_decrypt c s h ms np cap = Inl (ValueError ''replay of consumed index'')
    else if int i - dr_nr s > ms \<and> int i > dr_nr s
    then ec_dr_decrypt c s h ms np cap = Inl (ValueError ''MAX_SKIP exceeded'')
    else if int i > dr_nr s \<and> length (dr_mkskipped s) + nat (int i - dr_nr s) > cap
    then ec_dr_decrypt c s h ms np cap = Inl (ValueError ''MAX_MKSKIPPED_RETAINED exceeded'')
    else \<exists>s'. ec_dr_decrypt c s h ms np cap = Inr (s', mk_at ck0 i) \<and>
      dr_recv ck0 dh (insert i used) cap s' \<and> same_sender s s'"
  by (rule dr_receive_spec[OF assms])

definition example_receiver :: ec_dr_state where
  "example_receiver = \<lparr>dr_rk = zeros 32, dr_dhs_priv = replicate 32 2, dr_dhs_pub = replicate 32 2,
     dr_dhr_pub = Some (replicate 32 1), dr_cks = None, dr_ckr = Some (zeros 32), dr_ns = 0, dr_nr = 0,
     dr_pn = 0, dr_mkskipped = []\<rparr>"

lemma double_ratchet_chain_witness:
  "\<exists>s'. ec_dr_decrypt example_crypto example_receiver \<lparr>eh_dh_pub = replicate 32 1, eh_pn = 0, eh_n = 7\<rparr> 1000 None 2000 =
      Inr (s', mk_at (zeros 32) 7) \<and>
    dr_recv (zeros 32) (replicate 32 1) (insert 7 {}) 2000 s' \<and> same_sender example_receiver s'"
proof -
  have "dr_recv (zeros 32) (replicate 32 1) {} 2000 example_receiver"
    by (auto simp: dr_recv_def example_receiver_def capped_def intro!: chain_view_start)
  from double_ratchet_chain[OF this, of 7 "\<lparr>eh_dh_pub = replicate 32 1, eh_pn = 0, eh_n = 7\<rparr>" example_crypto 1000 None]
  show ?thesis by (simp add: example_receiver_def)
qed

lemma dr_skip_to_capped: "dr_skip_to cap s dh ck until = Inr s' \<Longrightarrow> capped cap (dr_mkskipped s) \<Longrightarrow>
    capped cap (dr_mkskipped s')"
  by (auto simp: dr_skip_to_def bindE_eq_Inr dest: skip_chain_capped)

lemma dr_chain_step_capped: "dr_chain_step ms cap dh n s = Inr (s', mk) \<Longrightarrow> capped cap (dr_mkskipped s) \<Longrightarrow>
    capped cap (dr_mkskipped s')"
  by (auto simp: dr_chain_step_def bindE_eq_Inr split: option.splits if_splits) (drule (1) dr_skip_to_capped)

lemma dh_ratchet_skipped: "dh_ratchet c s dh p = Inr s' \<Longrightarrow> dr_mkskipped s' = dr_mkskipped s"
  by (auto simp: dh_ratchet_def bindE_eq_Inr)

text \<open>
  C17: The number of retained skipped keys never exceeds the cap: whatever the header, a decryption
  that returns keeps the store of skipped keys a dictionary of at most \<open>max_mkskipped\<close> entries.
\<close>

theorem skipped_keys_bounded:
  assumes "ec_dr_decrypt c s h ms np cap = Inr (s', mk)" "capped cap (dr_mkskipped s)"
  shows "capped cap (dr_mkskipped s')"
proof (cases "mk_key (eh_dh_pub h) (eh_n h)")
  case (Inr key)
  show ?thesis
  proof (cases "map_of (dr_mkskipped s) key")
    case None
    obtain st where st: "dr_chain_step ms cap (eh_dh_pub h) (eh_n h) st = Inr (s', mk)"
      "st = s \<or> (\<exists>s1 p. dh_ratchet c s1 (eh_dh_pub h) p = Inr st \<and>
         (s1 = s \<or> (\<exists>dhr ck. dr_skip_to cap s dhr ck (eh_pn h) = Inr s1)))"
      using assms(1) Inr None
      by (auto simp: ec_dr_decrypt_def Let_def bindE_eq_Inr split: if_splits option.splits) blast+
    then have "capped cap (dr_mkskipped st)"
      using assms(2) by (auto simp: dh_ratchet_skipped elim: dr_skip_to_capped)
    with st(1) show ?thesis by (rule dr_chain_step_capped)
  next
    case (Some v)
    then have "s' = s\<lparr>dr_mkskipped := AList.delete key (dr_mkskipped s)\<rparr>"
      using assms(1) Inr by (simp add: ec_dr_decrypt_def Let_def)
    then show ?thesis
      using assms(2) length_delete_le[of key "dr_mkskipped s"] by (simp add: capped_def distinct_delete wf_dict_def)
  qed
qed (use assms(1) in \<open>simp add: ec_dr_decrypt_def Let_def\<close>)

lemma skipped_keys_bounded_witness:
  "\<exists>s'. ec_dr_decrypt example_crypto (example_receiver\<lparr>dr_mkskipped := [(replicate 32 1 @ be_bytes 4 0, zeros 32)]\<rparr>)
      \<lparr>eh_dh_pub = replicate 32 1, eh_pn = 0, eh_n = 0\<rparr> 1000 None 2000 = Inr (s', zeros 32) \<and>
    capped 2000 (dr_mkskipped s')"
proof -
  let ?s = "example_receiver\<lparr>dr_mkskipped := [(replicate 32 1 @ be_bytes 4 0, zeros 32)]\<rparr>"
  let ?h = "\<lparr>eh_dh_pub = replicate 32 1, eh_pn = 0, eh_n = 0\<rparr>"
  have e: "ec_dr_decrypt example_crypto ?s ?h 1000 None 2000 = Inr (?s\<lparr>dr_mkskipped := []\<rparr>, zeros 32)"
    by (simp add: ec_dr_decrypt_def mk_key_def)
  have "capped 2000 (dr_mkskipped (?s\<lparr>dr_mkskipped := []\<rparr>))"
    by (rule skipped_keys_bounded[OF e]) (simp add: capped_def wf_dict_def)
  with e show ?thesis by blast
qed

text \<open>
  The Braid chunk codec is canonical and bound to its session: a byte string decodes under a
  session exactly when the encoder writes it for that session's chunk, and the decoded digest is the
  binding of the decoded fields.
\<close>

theorem braid_chunk_codec:
  "decode_braid_chunk w sid = Inr ch \<longleftrightarrow>
     encode_braid_chunk ch = Inr w \<and> br_session_id ch = sid \<and> braid_binding ch = Inr (br_binding_digest ch)"
  by (rule decode_braid_chunk_iff)

text \<open>
  Reassembly is insensitive to order and repetition: within the caps, delivering the pieces of a
  body in any order, any of them repeatedly, completes exactly when every piece has arrived, and
  then with the body itself.
\<close>

theorem reassembly_any_order:
  assumes "new_reassembly epoch (int (length ps)) mc mb = Inr r" "sum_list (map length ps) \<le> mb"
    and "typ \<in> BRAID_ALLOWED_TYPES" "set order \<subseteq> {..<length ps}"
  shows "try_complete (deliver r (map (piece_chunk epoch typ sid ps) order)) =
    (if set order = {..<length ps} then Some (concat ps) else None)"
proof -
  have n: "0 < length ps" "length ps \<le> mc"
    using assms(1) by (auto simp: new_reassembly_def split: if_splits)
  have "collected epoch ps mc mb ({} \<union> set order) (deliver r (map (piece_chunk epoch typ sid ps) order))"
    using new_reassembly_collected[OF n, of epoch mb] assms(1) by (intro deliver_collected n(2) assms(2-4)) auto
  then have c: "collected epoch ps mc mb (set order) (deliver r (map (piece_chunk epoch typ sid ps) order))" by simp
  show ?thesis
  proof (cases "set order = {..<length ps}")
    case True
    then show ?thesis using c collected_complete[of epoch ps mc mb] by simp
  next
    case False
    then obtain i where "i < length ps" "i \<notin> set order" using assms(4) by auto
    with c False show ?thesis by (simp add: not_complete)
  qed
qed

lemma reassembly_any_order_witness:
  "try_complete (deliver (projr (new_reassembly 1 2 64 8192)) (map (piece_chunk 1 5 (zeros 32) [[1], [2, 3]]) [1, 0, 1])) =
    Some [1, 2, 3]"
proof -
  obtain r where r: "new_reassembly 1 (int (length [[1], [2, 3 :: byte]])) 64 8192 = Inr r"
    by (simp add: new_reassembly_def)
  have "set [1, 0, 1] = {..<length [[1], [2, 3 :: byte]]}" by auto
  with reassembly_any_order[OF r, of 5 "[1, 0, 1]" "zeros 32"] show ?thesis
    using r by (simp add: BRAID_ALLOWED_TYPES_def)
qed

end
