(* ===== verification/BraidSteps.thy ===== *)
theory BraidSteps
  imports BraidWire BraidAuth BraidState TripleRatchet
begin

text \<open>
  The building blocks of \<open>full_braid_transition.py\<close>: the material records, systematic chunks, the
  RVBO1 and RVBJ1 encoders, frame validation, the inbound chunk sets, the bridge between RVFT1 and
  the EC double ratchet, the AEAD confirmation of a send and of a receive, and one handler per
  supported agent state. A handler mutates the candidate state in place; here it returns the new
  state, and a handler that raises leaves no candidate behind.
\<close>

section \<open>Constants and material\<close>

definition CW :: nat where "CW = 32"
definition L_HDR :: nat where "L_HDR = 96"
definition L_CT1 :: nat where "L_CT1 = 960"
definition L_CT2 :: nat where "L_CT2 = 160"
definition WIRE_HDR :: int where "WIRE_HDR = 1"
definition WIRE_CT1 :: int where "WIRE_CT1 = 5"
definition WIRE_CT2 :: int where "WIRE_CT2 = 6"
definition BRAID_RVOR_TTL_MS :: int where "BRAID_RVOR_TTL_MS = 604800000"
definition RVBJ1_HEADER_LEN :: nat where "RVBJ1_HEADER_LEN = 366"
definition INTENT_NORMAL :: int where "INTENT_NORMAL = 0"
definition AGENT_EK_SENT_CT1_RECEIVED :: int where "AGENT_EK_SENT_CT1_RECEIVED = 4"
definition AGENT_HEADER_RECEIVED :: int where "AGENT_HEADER_RECEIVED = 6"
definition AGENT_CT1_SAMPLED :: int where "AGENT_CT1_SAMPLED = 7"
definition FLAG_CT1_ACK_APPLIED :: int where "FLAG_CT1_ACK_APPLIED = 4"

lemmas step_consts = CW_def L_HDR_def L_CT1_def L_CT2_def WIRE_HDR_def WIRE_CT1_def WIRE_CT2_def
  BRAID_RVOR_TTL_MS_def RVBJ1_HEADER_LEN_def INTENT_NORMAL_def AGENT_EK_SENT_CT1_RECEIVED_def
  AGENT_HEADER_RECEIVED_def AGENT_CT1_SAMPLED_def FLAG_CT1_ACK_APPLIED_def AGENT_KEYS_UNSAMPLED_def
  AGENT_KEYS_SAMPLED_def AGENT_NO_HEADER_RECEIVED_def SOURCE_KIND_HDR_def SOURCE_KIND_EK_def
  SOURCE_KIND_CT1_def SOURCE_KIND_CT2_def

record keygen_material =
  km_dk :: bytes
  km_header :: bytes
  km_ek_vector :: bytes

definition KeygenMaterial :: "bytes \<Rightarrow> bytes \<Rightarrow> bytes \<Rightarrow> keygen_material res" where
  "KeygenMaterial dk header ek_vector =
     (if length dk \<noteq> 2400 \<or> length header \<noteq> 64 \<or> length ek_vector \<noteq> 1152
      then Inl (ValueError ''keygen material lengths'')
      else Inr \<lparr>km_dk = dk, km_header = header, km_ek_vector = ek_vector\<rparr>)"

record promote_material =
  pm_shared_secret :: bytes
  pm_encaps_state :: bytes
  pm_ct1 :: bytes

definition PromoteMaterial :: "bytes \<Rightarrow> bytes \<Rightarrow> bytes \<Rightarrow> promote_material res" where
  "PromoteMaterial shared_secret encaps_state ct1 =
     (if length shared_secret \<noteq> 32 then Inl (ValueError ''promote shared secret length'')
      else if encaps_state \<noteq> [] \<and> length encaps_state \<noteq> 2080 then Inl (ValueError ''promote encaps state length'')
      else if ct1 \<noteq> [] \<and> length ct1 \<noteq> L_CT1 then Inl (ValueError ''promote ct1 length'')
      else Inr \<lparr>pm_shared_secret = shared_secret, pm_encaps_state = encaps_state, pm_ct1 = ct1\<rparr>)"

definition mlkem_encaps_shared_secret :: "bytes \<Rightarrow> bytes \<Rightarrow> bytes res" where
  "mlkem_encaps_shared_secret header coins =
     (if length header \<noteq> 64 then Inl (ValueError ''ML-KEM header length'')
      else if length coins \<noteq> 32 then Inl (ValueError ''ML-KEM coins length'')
      else Inr (take 32 (sha3_512 (coins @ drop 32 header))))"

section \<open>Chunks, outputs and the journal header\<close>

definition systematic_chunk :: "bytes \<Rightarrow> int \<Rightarrow> bytes res" where
  "systematic_chunk source index =
     (if length source mod CW \<noteq> 0 then Inl (ValueError ''source len'')
      else let n = int (length source div CW) in
        if index < 0 \<or> index \<ge> n then Inl (ValueError ''systematic index out of range'')
        else Inr (take CW (drop (nat index * CW) source)))"

definition encode_rvbo1_frames :: "bytes list \<Rightarrow> bytes option \<Rightarrow> bytes option \<Rightarrow> bytes res" where
  "encode_rvbo1_frames frames ch_out sealed_ct =
     joinE ([Inr RVBO1_MAGIC, u16be RVBO1_SCHEMA, u16be (int (length frames))] @
       concat (map (\<lambda>f. [u32be (int (length f)), Inr f]) frames) @
       [(if (ch_out = None) \<noteq> (sealed_ct = None) then Inl (ValueError ''RVBO1 ch_out/sealed_ct pair'') else Inr []),
        (case ch_out of None \<Rightarrow> Inr (u8 0)
         | Some ch \<Rightarrow> if length ch \<noteq> RVCH1_LEN then Inl (ValueError ''RVBO1 ch_out length'') else Inr (u8 1 @ ch)),
        (case sealed_ct of None \<Rightarrow> Inr (u8 0)
         | Some ct \<Rightarrow> joinE [Inr (u8 1), u32be (int (length ct)), Inr ct])])"

record rvbj1_fields =
  bj_session_id :: bytes
  bj_role :: int
  bj_direction :: int
  bj_intent_kind :: int
  bj_generation :: int
  bj_transition_id :: bytes
  bj_execution :: bytes
  bj_input_d :: bytes
  bj_before_d :: bytes
  bj_prepared_d :: bytes
  bj_promoted_d :: bytes
  bj_cleared_d :: bytes
  bj_output_d :: bytes
  bj_object_d :: bytes
  bj_retention_origin_ms :: int
  bj_retention_expiry_ms :: int
  bj_candidate_len :: int
  bj_outputs_len :: int

definition RVBJ1_MAGIC :: bytes where "RVBJ1_MAGIC = asc ''RVBJ1'' @ zeros 3"

definition encode_rvbj1_header :: "rvbj1_fields \<Rightarrow> bytes res" where
  "encode_rvbj1_header j =
     bindE (joinE [Inr RVBJ1_MAGIC, u16be 1, Inr (bj_session_id j), Inr (u8 (bj_role j)),
       Inr (u8 (bj_direction j)), Inr (u8 (bj_intent_kind j)), Inr (u8 0), u64be (bj_generation j),
       Inr (bj_transition_id j), Inr (bj_execution j), Inr (bj_input_d j), Inr (bj_before_d j),
       Inr (bj_prepared_d j), Inr (bj_promoted_d j), Inr (bj_cleared_d j), Inr (bj_output_d j),
       Inr (bj_object_d j), u64be (bj_retention_origin_ms j), u64be (bj_retention_expiry_ms j),
       u32be (bj_candidate_len j), u32be (bj_outputs_len j)]) (\<lambda>out.
     if length out \<noteq> RVBJ1_HEADER_LEN
     then Inl (AssertionError (''rvbj1 header len '' @ dec_nat (length out))) else Inr out)"

section \<open>Role, chunk contract and binding\<close>

definition validate_role_mode :: "int \<Rightarrow> int \<Rightarrow> int \<Rightarrow> unit res" where
  "validate_role_mode role op direction =
     (let expected = map_of [((ROLE_ALICE, OP_SEND), DIR_A2B), ((ROLE_ALICE, OP_RECEIVE), DIR_B2A),
                             ((ROLE_BOB, OP_SEND), DIR_B2A), ((ROLE_BOB, OP_RECEIVE), DIR_A2B)] (role, op)
      in if expected = None \<or> Some direction \<noteq> expected then Inl (ValueError ''role/op/direction'') else Inr ())"

definition validate_chunk_contract :: "rvbc1 \<Rightarrow> unit res" where
  "validate_chunk_contract frame =
     (if bc_chunk_type frame \<in> {0, 4} then
        (if bc_index frame \<noteq> 0 \<or> bc_payload frame \<noteq> [] then Inl (ValueError ''rvbc1 chunk contract'') else Inr ())
      else if bc_chunk_type frame \<in> {1, 2, 3, 5, 6} then
        (if bc_index frame > 63 \<or> length (bc_payload frame) \<noteq> CW
         then Inl (ValueError ''rvbc1 chunk contract'') else Inr ())
      else Inl (ValueError ''rvbc1 chunk type''))"

definition verify_frame_binding :: "rvbc1 \<Rightarrow> int \<Rightarrow> bytes \<Rightarrow> unit res" where
  "verify_frame_binding frame direction session_id =
     bindE (binding_digest direction (bc_epoch frame) (bc_chunk_type frame) (bc_index frame)
              (bc_payload frame) session_id) (\<lambda>expected.
     if \<not> compare_digest expected (bc_binding frame) then Inl (ValueError ''binding digest mismatch'') else Inr ())"

definition decode_and_validate_frame :: "rvfb1_state \<Rightarrow> rvbi1 \<Rightarrow> rvbc1 res" where
  "decode_and_validate_frame state inp =
     (case bi_frame inp of
        None \<Rightarrow> Inl (ValueError ''receive frame'')
      | Some f \<Rightarrow>
          bindE (decode_rvbc1 f) (\<lambda>frame.
          bindE (verify_frame_binding frame (bi_direction inp) (fp_session_id (fs_prefix state))) (\<lambda>_.
          bindE (validate_chunk_contract frame) (\<lambda>_. Inr frame))))"

section \<open>Inbound chunk sets\<close>

text \<open>\<open>bitmap[index // 8] |= 1 << (index % 8)\<close> on a \<open>bytearray\<close>.\<close>

definition bitmap_set :: "bytes \<Rightarrow> int \<Rightarrow> bytes res" where
  "bitmap_set bitmap index =
     (let j = index div 8; n = int (length bitmap) in
      if - n \<le> j \<and> j < n
      then let k = nat (j mod n) in Inr (bitmap[k := bitmap ! k OR push_bit (nat (index mod 8)) 1])
      else Inl (IndexError ''bytearray index out of range''))"

definition apply_hdr_receive :: "rvfb1_state \<Rightarrow> rvbc1 \<Rightarrow> rvfb1_state res" where
  "apply_hdr_receive state frame =
     (if fp_agent (fs_prefix state) \<noteq> AGENT_NO_HEADER_RECEIVED then Inl (ValueError ''expected NoHeaderReceived'')
      else let ep = fp_agent_epoch (fs_prefix state) in
      if bc_epoch frame \<noteq> ep \<or> bc_chunk_type frame \<noteq> WIRE_HDR
      then Inl (ValueError ''hdr receive frame mismatch'')
      else case fs_inbound_sets state of
        [inbound] \<Rightarrow>
          if is_source_kind inbound \<noteq> SOURCE_KIND_HDR \<or> is_chunks inbound \<noteq> []
          then Inl (ValueError ''bob inbound not empty hdr'')
          else bindE (bitmap_set (is_bitmap inbound) (bc_index frame)) (\<lambda>bitmap.
            Inr (state\<lparr>fs_inbound_sets := [inbound\<lparr>is_bitmap := bitmap,
                          is_chunks := [\<lparr>ic_index = bc_index frame, ic_payload = bc_payload frame\<rparr>]\<rparr>],
                       fs_prefix := (fs_prefix state)\<lparr>fp_recv_epoch := ep - 1\<rparr>\<rparr>))
      | _ \<Rightarrow> Inl (ValueError ''bob inbound sets''))"

definition empty_inbound_set :: "int \<Rightarrow> int \<Rightarrow> int \<Rightarrow> inbound_set res" where
  "empty_inbound_set direction epoch source_kind =
     (case SOURCE_LENGTHS source_kind of
        None \<Rightarrow> Inl (KeyError (py_str source_kind))
      | Some expected_len \<Rightarrow>
          Inr \<lparr>is_direction = direction, is_epoch = epoch, is_source_kind = source_kind,
               is_expected_source_len = expected_len, is_max_index = 63, is_bitmap = zeros 8, is_chunks = []\<rparr>)"

text \<open>The in-place update of the first element that \<open>next(...)\<close> finds.\<close>

primrec update_first :: "('a \<Rightarrow> bool) \<Rightarrow> 'a \<Rightarrow> 'a list \<Rightarrow> 'a list" where
  "update_first P y [] = []"
| "update_first P y (x # xs) = (if P x then y # xs else x # update_first P y xs)"

text \<open>One chunk into a set: a repeated index must carry the same payload.\<close>

definition insert_chunk :: "inbound_set \<Rightarrow> rvbc1 \<Rightarrow> inbound_set res" where
  "insert_chunk inbound frame =
     (case List.find (\<lambda>c. ic_index c = bc_index frame) (is_chunks inbound) of
        Some existing \<Rightarrow>
          if ic_payload existing \<noteq> bc_payload frame then Inl (ValueError ''conflicting inbound chunk'')
          else Inr inbound
      | None \<Rightarrow>
          bindE (bitmap_set (is_bitmap inbound) (bc_index frame)) (\<lambda>bitmap.
          Inr (inbound\<lparr>is_bitmap := bitmap, is_chunks := sort_key ic_index
                 (is_chunks inbound @ [\<lparr>ic_index = bc_index frame, ic_payload = bc_payload frame\<rparr>])\<rparr>)))"

text \<open>The source, once every systematic index below \<open>needed\<close> is present.\<close>

definition join_chunks :: "inbound_set \<Rightarrow> bytes option" where
  "join_chunks inbound =
     (let needed = is_expected_source_len inbound div int CW;
          by_index = map_of (rev (map (\<lambda>c. (ic_index c, ic_payload c)) (is_chunks inbound)))
      in if list_all (\<lambda>i. by_index i \<noteq> None) [0 .. needed - 1]
         then Some (concat (map (\<lambda>i. the (by_index i)) [0 .. needed - 1])) else None)"

definition insert_systematic_frame :: "rvfb1_state \<Rightarrow> int \<Rightarrow> rvbc1 \<Rightarrow> int \<Rightarrow> (rvfb1_state \<times> bytes option) res" where
  "insert_systematic_frame state direction frame source_kind =
     (let found = (\<lambda>s. is_key s = (direction, bc_epoch frame, source_kind)) in
      bindE (case List.find found (fs_inbound_sets state) of
               Some inbound \<Rightarrow> Inr (inbound, fs_inbound_sets state)
             | None \<Rightarrow> bindE (empty_inbound_set direction (bc_epoch frame) source_kind) (\<lambda>inbound.
                 Inr (inbound, sort_key is_key (fs_inbound_sets state @ [inbound])))) (\<lambda>(inbound, sets).
      case SOURCE_LENGTHS source_kind of
        None \<Rightarrow> Inl (KeyError (py_str source_kind))
      | Some expected_len \<Rightarrow>
      if is_expected_source_len inbound \<noteq> expected_len \<or> is_max_index inbound \<noteq> 63 \<or> length (is_bitmap inbound) \<noteq> 8
      then Inl (ValueError ''inbound set contract'')
      else bindE (insert_chunk inbound frame) (\<lambda>inbound.
      Inr (state\<lparr>fs_inbound_sets := update_first found inbound sets\<rparr>, join_chunks inbound))))"

section \<open>TLVs and the active send\<close>

definition tlv_value :: "rvfb1_state \<Rightarrow> int \<Rightarrow> nat \<Rightarrow> bytes res" where
  "tlv_value state tag len =
     (case List.find (\<lambda>e. te_tag e = tag) (fs_tlvs state) of
        None \<Rightarrow> Inl (ValueError (''TLV '' @ py_str tag @ '' length''))
      | Some e \<Rightarrow> if length (te_value e) \<noteq> len then Inl (ValueError (''TLV '' @ py_str tag @ '' length''))
                  else Inr (te_value e))"

definition header_from_tlvs :: "rvfb1_state \<Rightarrow> bytes res" where
  "header_from_tlvs state = joinE [tlv_value state 2 32, tlv_value state 3 32]"

definition new_active_send :: "int \<Rightarrow> int \<Rightarrow> int \<Rightarrow> int \<Rightarrow> bytes \<Rightarrow> active_send" where
  "new_active_send direction epoch wire_type source_kind source =
     \<lparr>as_direction = direction, as_epoch = epoch, as_wire_type = wire_type, as_source_kind = source_kind,
      as_source_len = int (length source), as_source_digest = send_source_digest source,
      as_source_bytes = source, as_next_spqr_index = 0\<rparr>"

definition emit_active :: "rvfb1_state \<Rightarrow> (rvfb1_state \<times> rvbc1) res" where
  "emit_active state =
     (case fs_active_send state of
        None \<Rightarrow> Inl (ValueError ''active send required'')
      | Some active \<Rightarrow>
          if as_epoch active \<noteq> fp_agent_epoch (fs_prefix state) \<or> as_next_spqr_index active > 63
          then Inl (ValueError ''active send contract'')
          else let index = as_next_spqr_index active in
          bindE (systematic_chunk (as_source_bytes active) index) (\<lambda>payload.
          bindE (binding_digest (as_direction active) (as_epoch active) (as_wire_type active) index payload
                   (fp_session_id (fs_prefix state))) (\<lambda>binding.
          Inr (state\<lparr>fs_active_send := Some (active\<lparr>as_next_spqr_index := index + 1\<rparr>)\<rparr>,
               \<lparr>bc_epoch = as_epoch active, bc_chunk_type = as_wire_type active, bc_index = index,
                bc_payload = payload, bc_binding = binding\<rparr>))))"

definition apply_keys_unsampled_send :: "rvfb1_state \<Rightarrow> keygen_material \<Rightarrow> int \<Rightarrow> (rvfb1_state \<times> bytes) res" where
  "apply_keys_unsampled_send state material direction =
     (let p = fs_prefix state; ep = fp_agent_epoch p; header = km_header material in
      if fp_agent p \<noteq> AGENT_KEYS_UNSAMPLED then Inl (ValueError ''expected KeysUnsampled'')
      else bindE (AuthState (fp_auth_root p) (fp_auth_mac_key p)) (\<lambda>auth.
      bindE (mac_hdr auth ep header) (\<lambda>tag.
      let source = header @ tag in
      if length source \<noteq> L_HDR then Inl (ValueError ''hdr source len'')
      else bindE (systematic_chunk source 0) (\<lambda>payload.
      bindE (binding_digest direction ep WIRE_HDR 0 payload (fp_session_id p)) (\<lambda>binding.
      bindE (encode_rvbc1 \<lparr>bc_epoch = ep, bc_chunk_type = WIRE_HDR, bc_index = 0,
                           bc_payload = payload, bc_binding = binding\<rparr>) (\<lambda>frame_bytes.
      Inr (state\<lparr>fs_tlvs := [\<lparr>te_tag = 1, te_value = km_dk material\<rparr>, \<lparr>te_tag = 2, te_value = take 32 header\<rparr>,
                             \<lparr>te_tag = 3, te_value = drop 32 header\<rparr>,
                             \<lparr>te_tag = 4, te_value = km_ek_vector material\<rparr>, \<lparr>te_tag = 8, te_value = header\<rparr>],
                 fs_active_send := Some \<lparr>as_direction = direction, as_epoch = ep, as_wire_type = WIRE_HDR,
                    as_source_kind = SOURCE_KIND_HDR, as_source_len = int (length source),
                    as_source_digest = send_source_digest source, as_source_bytes = source,
                    as_next_spqr_index = 1\<rparr>,
                 fs_prefix := p\<lparr>fp_agent := AGENT_KEYS_SAMPLED, fp_send_epoch := ep - 1\<rparr>\<rparr>,
           frame_bytes)))))))"

section \<open>RVFT1 and the ratchets\<close>

definition rvft1_to_ec :: "rvft1 \<Rightarrow> ec_dr_state res" where
  "rvft1_to_ec v =
     bindE (mapE (\<lambda>e. bindE (to_bytes (ese_n e) 4) (\<lambda>n. Inr (ese_dh_pub e @ n, ese_mk e))) (ec_skipped v)) (\<lambda>items.
     Inr \<lparr>dr_rk = ec_rk v, dr_dhs_priv = ec_dhs_priv v, dr_dhs_pub = ec_dhs_pub v,
          dr_dhr_pub = (if ec_dhr_present v = 1 then Some (ec_dhr_pub v) else None),
          dr_cks = (if ec_ck_send_present v = 1 then Some (ec_ck_send v) else None),
          dr_ckr = (if ec_ck_recv_present v = 1 then Some (ec_ck_recv v) else None),
          dr_ns = ec_ns v, dr_nr = ec_nr v, dr_pn = ec_pn v,
          dr_mkskipped = fold (\<lambda>(k, mk) d. AList.update k mk d) items []\<rparr>)"

definition apply_ec_to_rvft1 :: "rvft1 \<Rightarrow> ec_dr_state \<Rightarrow> rvft1" where
  "apply_ec_to_rvft1 v s =
     v\<lparr>ec_rk := dr_rk s, ec_dhs_priv := dr_dhs_priv s, ec_dhs_pub := dr_dhs_pub s,
       ec_dhr_present := of_bool (dr_dhr_pub s \<noteq> None), ec_dhr_pub := or_zeros (dr_dhr_pub s),
       ec_ck_send_present := of_bool (dr_cks s \<noteq> None), ec_ck_send := or_zeros (dr_cks s),
       ec_ck_recv_present := of_bool (dr_ckr s \<noteq> None), ec_ck_recv := or_zeros (dr_ckr s),
       ec_ns := dr_ns s, ec_nr := dr_nr s, ec_pn := dr_pn s,
       ec_skipped := map (\<lambda>(key, mk). \<lparr>ese_dh_pub = take 32 key, ese_n = from_bytes (drop 32 key), ese_mk = mk\<rparr>)
         (sort (dr_mkskipped s))\<rparr>"

definition insert_scka_chain :: "scka_chain_entry list \<Rightarrow> scka_chain_entry \<Rightarrow> scka_chain_entry list" where
  "insert_scka_chain chain entry =
     (let chain = sort_key sce_epoch (filter (\<lambda>e. sce_epoch e \<noteq> sce_epoch entry) chain @ [entry])
      in if length chain > MAX_SCKA_CHAIN then tl chain else chain)"

definition promote_scka_send :: "rvft1 \<Rightarrow> int \<Rightarrow> bytes \<Rightarrow> rvft1 res" where
  "promote_scka_send v epoch output_key =
     bindE (kdf_scka_rk (scka_rk v) output_key) (\<lambda>(root, chain_key).
     Inr (v\<lparr>scka_rk := root, scka_sending_epoch := epoch,
            scka_send_chain := insert_scka_chain (scka_send_chain v) \<lparr>sce_epoch = epoch, sce_ck = chain_key, sce_n = 0\<rparr>\<rparr>))"

definition promote_scka_receive :: "rvft1 \<Rightarrow> int \<Rightarrow> bytes \<Rightarrow> rvft1 res" where
  "promote_scka_receive v epoch output_key =
     bindE (kdf_scka_rk (scka_rk v) output_key) (\<lambda>(root, chain_key).
     Inr (v\<lparr>scka_rk := root, scka_receiving_epoch := epoch,
            scka_recv_chain := insert_scka_chain (scka_recv_chain v) \<lparr>sce_epoch = epoch, sce_ck = chain_key, sce_n = 0\<rparr>\<rparr>))"

section \<open>Admitted trust and associated data\<close>

definition transcript_addr_binding :: "bytes \<Rightarrow> int \<Rightarrow> bytes \<Rightarrow> bytes \<Rightarrow> bytes res" where
  "transcript_addr_binding session_id party cert_digest identity_pub =
     (if party \<notin> {0..255} then Inl (ValueError ''bytes must be in range(0, 256)'')
      else Inr (sha256 (asc ''ATSAM/v2/full-braid/transcript-addr'' @ session_id @ [word_of_int party] @
                        cert_digest @ identity_pub)))"

definition expected_rvba1 :: "bytes \<Rightarrow> int \<Rightarrow> admitted_trust \<Rightarrow> bytes res" where
  "expected_rvba1 session_id direction evidence =
     (let sender_cert = (if direction = DIR_A2B then initiator_cert_digest evidence else responder_cert_digest evidence) in
      bindE (joinE [Inr (asc ''RVBA1'' @ zeros 3), u16be 1, Inr (sha256 PROFILE), Inr session_id, u16be 1, u16be 4,
        Inr (u8 direction), Inr (u8 0),
        transcript_addr_binding session_id 0 (initiator_cert_digest evidence) (initiator_identity_pub evidence),
        transcript_addr_binding session_id 1 (responder_cert_digest evidence) (responder_identity_pub evidence),
        Inr sender_cert]) (\<lambda>out.
      if length out \<noteq> RVBA1_LEN then Inl (AssertionError ''RVBA1 length'') else Inr out))"

definition validate_rvba1 :: "rvfb1_state \<Rightarrow> rvbi1 \<Rightarrow> rvbe1 \<Rightarrow> unit res" where
  "validate_rvba1 state inp env =
     (case be_admitted_trust env of
        None \<Rightarrow> Inl (ValueError ''admitted trust required'')
      | Some evidence \<Rightarrow>
          bindE (expected_rvba1 (fp_session_id (fs_prefix state)) (bi_direction inp) evidence) (\<lambda>expected.
          if \<not> compare_digest (bm_aad (bi_mutation inp)) expected
          then Inl (ValueError ''RVBA1 admitted trust'') else Inr ()))"

definition effective_ad :: "bytes \<Rightarrow> bytes \<Rightarrow> bytes \<Rightarrow> bytes res" where
  "effective_ad rvba1 rvch1 rvbc1 =
     joinE [u32be (int (length rvba1)), Inr rvba1, u32be (int (length rvch1)), Inr rvch1,
            u32be (int (length rvbc1)), Inr rvbc1]"

definition check_ec_mk_oracle :: "rvbm1 \<Rightarrow> bytes \<Rightarrow> unit res" where
  "check_ec_mk_oracle mutation message_key =
     (if bm_ec_mk_oracle_len mutation = 0 then
        (if bm_ec_mk_oracle mutation \<noteq> zeros 32 then Inl (ValueError ''EC message-key oracle'') else Inr ())
      else if bm_ec_mk_oracle_len mutation = 32 then
        (if \<not> compare_digest (bm_ec_mk_oracle mutation) message_key
         then Inl (ValueError ''EC message-key oracle mismatch'') else Inr ())
      else Inl (ValueError ''EC message-key oracle length''))"

definition send_rvch1 :: "rvft1 \<Rightarrow> int \<Rightarrow> int \<Rightarrow> rvch1" where
  "send_rvch1 v direction epoch =
     \<lparr>ch_ec_dh_pub = ec_dhs_pub v, ch_ec_pn = ec_pn v, ch_ec_n = ec_ns v, ch_scka_epoch = epoch,
      ch_scka_pn = scka_send_pn v,
      ch_scka_n = (case List.find (\<lambda>e. sce_epoch e = epoch) (scka_send_chain v) of None \<Rightarrow> 0 | Some e \<Rightarrow> sce_n e),
      ch_direction = direction\<rparr>"

section \<open>Confirming a send and a receive\<close>

definition confirm_send :: "crypto \<Rightarrow> rvfb1_state \<Rightarrow> rvbi1 \<Rightarrow> rvbe1 \<Rightarrow> rvbc1 \<Rightarrow> bytes \<Rightarrow> int \<Rightarrow>
    (rvfb1_state \<times> bytes \<times> bytes) res" where
  "confirm_send c state inp env frame output_key epoch =
     (let mutation = bi_mutation inp in
      if bm_needs_aead mutation \<noteq> 1 \<or> bm_mode mutation \<noteq> MODE_SEAL_COMPARE
      then Inl (ValueError ''send AEAD mutation'')
      else bindE (validate_rvba1 state inp env) (\<lambda>_.
      bindE (decode_rvft1 (fs_tr_bytes state)) (\<lambda>tr.
      let ch = send_rvch1 tr (bi_direction inp) epoch in
      bindE (rvft1_to_ec tr) (\<lambda>current.
      bindE (ec_dr_encrypt current) (\<lambda>(ec_candidate, header, ec_mk).
      if eh_dh_pub header \<noteq> ch_ec_dh_pub ch \<or> eh_pn header \<noteq> ch_ec_pn ch \<or> eh_n header \<noteq> ch_ec_n ch
      then Inl (ValueError ''send RVCH1 context'')
      else bindE (encode_rvch1 ch) (\<lambda>ch_bytes.
      bindE (encode_rvbc1 frame) (\<lambda>frame_bytes.
      bindE (effective_ad (bm_aad mutation) ch_bytes frame_bytes) (\<lambda>aad.
      bindE (check_ec_mk_oracle mutation ec_mk) (\<lambda>_.
      bindE (kdf_hybrid ec_mk output_key) (\<lambda>(key, nonce).
      bindE (aead_seal c key nonce (bm_body mutation) aad) (\<lambda>sealed.
      if bm_expected_ct mutation \<noteq> Some sealed then Inl (ValueError ''AEAD seal comparison'')
      else bindE (encode_rvft1 (apply_ec_to_rvft1 tr ec_candidate)) (\<lambda>tr_bytes.
      Inr (state\<lparr>fs_tr_bytes := tr_bytes\<rparr>, ch_bytes, sealed)))))))))))))"

definition materialize_ec_dh_priv :: "crypto \<Rightarrow> bytes \<Rightarrow> bytes \<Rightarrow> int \<Rightarrow> bytes res" where
  "materialize_ec_dh_priv c seed session_id generation =
     (if length seed \<noteq> 32 then Inl (ValueError ''EC DH seed length'')
      else bindE (to_bytes generation 8) (\<lambda>g.
      let v = hmac_sha256 seed (asc ''ATSAM/v2/full-braid/ec-dh-seed'' @ session_id @ g) in
      bindE (x25519_public c v) (\<lambda>_. Inr v)))"

definition confirm_receive :: "crypto \<Rightarrow> rvfb1_state \<Rightarrow> rvbi1 \<Rightarrow> rvbe1 \<Rightarrow> rvbc1 \<Rightarrow> bytes \<Rightarrow> int \<Rightarrow> rvfb1_state res" where
  "confirm_receive c state inp env frame output_key epoch =
     (let mutation = bi_mutation inp in
      if bm_needs_aead mutation \<noteq> 1 \<or> bm_mode mutation \<noteq> MODE_OPEN then Inl (ValueError ''receive AEAD mutation'')
      else case bi_ch inp of None \<Rightarrow> Inl (ValueError ''receive AEAD mutation'')
      | Some ch \<Rightarrow>
      bindE (validate_rvba1 state inp env) (\<lambda>_.
      if bi_expected_ch inp \<noteq> None \<and> bi_expected_ch inp \<noteq> Some ch then Inl (ValueError ''receive expected RVCH1'')
      else if ch_direction ch \<noteq> bi_direction inp \<or> ch_scka_epoch ch \<noteq> epoch
      then Inl (ValueError ''receive RVCH1 context'')
      else bindE (decode_rvft1 (fs_tr_bytes state)) (\<lambda>tr.
      if ec_dhr_present tr = 1 \<and> ch_ec_dh_pub ch = ec_dhr_pub tr \<and> ch_ec_n ch < ec_nr tr
      then Inl (ValueError ''receive EC counter rewind'')
      else bindE (if be_ec_dh_seed env \<noteq> []
                  then bindE (materialize_ec_dh_priv c (be_ec_dh_seed env) (fp_session_id (fs_prefix state))
                                (fp_generation (fs_prefix state))) (\<lambda>p. Inr (Some p))
                  else Inr None) (\<lambda>new_local.
      bindE (rvft1_to_ec tr) (\<lambda>current.
      bindE (ec_dr_decrypt c current \<lparr>eh_dh_pub = ch_ec_dh_pub ch, eh_pn = ch_ec_pn ch, eh_n = ch_ec_n ch\<rparr>
               MAX_SKIP new_local MAX_MKSKIPPED_RETAINED) (\<lambda>(ec_candidate, ec_mk).
      bindE (encode_rvch1 ch) (\<lambda>ch_bytes.
      bindE (encode_rvbc1 frame) (\<lambda>frame_bytes.
      bindE (effective_ad (bm_aad mutation) ch_bytes frame_bytes) (\<lambda>aad.
      bindE (check_ec_mk_oracle mutation ec_mk) (\<lambda>_.
      bindE (kdf_hybrid ec_mk output_key) (\<lambda>(key, nonce).
      bindE (aead_open c key nonce (bm_body mutation) aad) (\<lambda>plaintext.
      if length plaintext > BRAID_MAX_AEAD_PLAINTEXT_BYTES then Inl (ValueError ''AEAD plaintext length'')
      else bindE (encode_rvft1 (apply_ec_to_rvft1 tr ec_candidate)) (\<lambda>tr_bytes.
      Inr (state\<lparr>fs_tr_bytes := tr_bytes\<rparr>))))))))))))))"

section \<open>The handlers of the promoting agents\<close>

definition apply_header_received_send :: "crypto \<Rightarrow> rvfb1_state \<Rightarrow> rvbi1 \<Rightarrow> rvbe1 \<Rightarrow> promote_material \<Rightarrow>
    (rvfb1_state \<times> rvbc1 \<times> bytes \<times> bytes \<times> int) res" where
  "apply_header_received_send c state inp env material =
     (if fp_agent (fs_prefix state) \<noteq> AGENT_HEADER_RECEIVED then Inl (ValueError ''expected HeaderReceived'')
      else if pm_encaps_state material = [] \<or> pm_ct1 material = [] then Inl (ValueError ''Encaps1 material required'')
      else bindE (header_from_tlvs state) (\<lambda>header.
      bindE (mlkem_encaps_shared_secret header (be_encaps_coins env)) (\<lambda>derived_secret.
      if \<not> compare_digest derived_secret (pm_shared_secret material)
      then Inl (ValueError ''Encaps1 shared-secret oracle mismatch'')
      else if drop (length (pm_encaps_state material) - 32) (pm_encaps_state material) \<noteq> be_encaps_coins env
      then Inl (ValueError ''Encaps1 state randomness mismatch'')
      else let epoch = fp_agent_epoch (fs_prefix state) in
      bindE (kdf_ok (pm_shared_secret material) epoch) (\<lambda>output_key.
      bindE (AuthState (fp_auth_root (fs_prefix state)) (fp_auth_mac_key (fs_prefix state))) (\<lambda>auth.
      bindE (auth_update auth epoch output_key) (\<lambda>auth.
      bindE (tlv_value state 2 32) (\<lambda>rho.
      bindE (tlv_value state 3 32) (\<lambda>hek.
      let state = state\<lparr>
            fs_tlvs := [\<lparr>te_tag = 2, te_value = rho\<rparr>, \<lparr>te_tag = 3, te_value = hek\<rparr>,
                        \<lparr>te_tag = 5, te_value = pm_encaps_state material\<rparr>,
                        \<lparr>te_tag = 6, te_value = pm_ct1 material\<rparr>],
            fs_active_send := Some (new_active_send (bi_direction inp) epoch WIRE_CT1 SOURCE_KIND_CT1 (pm_ct1 material)),
            fs_prefix := (fs_prefix state)\<lparr>fp_auth_root := auth_root_key auth, fp_auth_mac_key := auth_mac_key auth,
                                           fp_agent := AGENT_CT1_SAMPLED\<rparr>\<rparr> in
      bindE (emit_active state) (\<lambda>(state, frame).
      bindE (confirm_send c state inp env frame output_key epoch) (\<lambda>(state, ch_out, sealed_ct).
      bindE (decode_rvft1 (fs_tr_bytes state)) (\<lambda>tr.
      bindE (promote_scka_send tr epoch output_key) (\<lambda>tr.
      bindE (encode_rvft1 tr) (\<lambda>tr_bytes.
      Inr (state\<lparr>fs_tr_bytes := tr_bytes, fs_prefix := (fs_prefix state)\<lparr>fp_send_epoch := epoch - 1\<rparr>\<rparr>,
           frame, ch_out, sealed_ct, epoch))))))))))))))"

definition apply_ek_sent_ct1_received_receive :: "crypto \<Rightarrow> rvfb1_state \<Rightarrow> rvbi1 \<Rightarrow> rvbe1 \<Rightarrow> rvbc1 \<Rightarrow>
    promote_material \<Rightarrow> (rvfb1_state \<times> int) res" where
  "apply_ek_sent_ct1_received_receive c state inp env frame material =
     (let epoch = fp_agent_epoch (fs_prefix state) in
      if fp_agent (fs_prefix state) \<noteq> AGENT_EK_SENT_CT1_RECEIVED then Inl (ValueError ''expected EkSentCt1Received'')
      else if bc_epoch frame \<noteq> epoch \<or> bc_chunk_type frame \<noteq> WIRE_CT2
      then Inl (ValueError ''CT2 receive frame mismatch'')
      else bindE (insert_systematic_frame state (bi_direction inp) frame SOURCE_KIND_CT2) (\<lambda>(state, source).
      case source of None \<Rightarrow> Inl (ValueError ''CT2 source incomplete'')
      | Some source \<Rightarrow>
      if length source \<noteq> L_CT2 then Inl (ValueError ''CT2 source incomplete'')
      else let ct2 = take 128 source; expected_mac = drop 128 source in
      bindE (tlv_value state 1 2400) (\<lambda>_.
      bindE (tlv_value state 6 L_CT1) (\<lambda>ct1.
      bindE (kdf_ok (pm_shared_secret material) epoch) (\<lambda>output_key.
      bindE (AuthState (fp_auth_root (fs_prefix state)) (fp_auth_mac_key (fs_prefix state))) (\<lambda>auth.
      bindE (auth_update auth epoch output_key) (\<lambda>auth.
      bindE (verify_ct auth epoch (ct1 @ ct2) expected_mac) (\<lambda>ok.
      if \<not> ok then Inl (ValueError ''CT2 authenticator'')
      else let state = state\<lparr>fs_prefix := (fs_prefix state)\<lparr>fp_auth_root := auth_root_key auth,
                                                             fp_auth_mac_key := auth_mac_key auth\<rparr>\<rparr> in
      bindE (confirm_receive c state inp env frame output_key epoch) (\<lambda>state.
      bindE (decode_rvft1 (fs_tr_bytes state)) (\<lambda>tr.
      bindE (promote_scka_receive tr epoch output_key) (\<lambda>tr.
      bindE (encode_rvft1 tr) (\<lambda>tr_bytes.
      bindE (empty_inbound_set (bi_direction inp) (epoch + 1) SOURCE_KIND_HDR) (\<lambda>inbound.
      Inr (state\<lparr>fs_tr_bytes := tr_bytes,
             fs_prefix := (fs_prefix state)\<lparr>fp_agent_epoch := epoch + 1, fp_recv_epoch := epoch - 1,
                fp_agent := AGENT_NO_HEADER_RECEIVED,
                fp_flags := fp_flags (fs_prefix state) AND NOT FLAG_CT1_ACK_APPLIED\<rparr>,
             fs_tlvs := [], fs_active_send := None, fs_inbound_sets := [inbound]\<rparr>, epoch))))))))))))))"

section \<open>Chunks and frames\<close>

lemma systematic_chunk_iff: "systematic_chunk source i = Inr p \<longleftrightarrow>
    32 dvd length source \<and> 0 \<le> i \<and> i < int (length source div 32) \<and> p = take 32 (drop (nat i * 32) source)"
  by (auto simp: systematic_chunk_def Let_def CW_def mod_eq_0_iff_dvd not_le not_less)

lemma systematic_chunk_len: "systematic_chunk source i = Inr p \<Longrightarrow> length p = 32"
proof -
  assume a: "systematic_chunk source i = Inr p"
  then obtain n where n: "length source = 32 * n" "0 \<le> i" "i < int n" "p = take 32 (drop (nat i * 32) source)"
    by (auto simp: systematic_chunk_iff elim!: dvdE)
  then have "nat i * 32 + 32 \<le> length source" by auto
  then show ?thesis using n by simp
qed

lemma systematic_chunks_join: "length source = n * 32 \<Longrightarrow>
    concat (map (\<lambda>i. take 32 (drop (i * 32) source)) [0..<n]) = source"
proof (induction n arbitrary: source)
  case (Suc n)
  have "concat (map (\<lambda>i. take 32 (drop (i * 32) (drop 32 source))) [0..<n]) = drop 32 source"
    using Suc.prems by (intro Suc.IH) simp
  then have "concat (map (\<lambda>i. take 32 (drop (i * 32 + 32) source)) [0..<n]) = drop 32 source"
    by (simp add: add.commute)
  moreover have "[0..<Suc n] = 0 # map Suc [0..<n]" by (simp add: upt_conv_Cons map_Suc_upt del: upt_Suc)
  ultimately show ?case by (simp add: comp_def add.commute del: upt_Suc)
qed simp

lemma verify_frame_binding_iff: "verify_frame_binding fr d sid = Inr u \<longleftrightarrow>
    binding_digest d (bc_epoch fr) (bc_chunk_type fr) (bc_index fr) (bc_payload fr) sid = Inr (bc_binding fr)"
  by (auto simp: verify_frame_binding_def bindE_eq_Inr compare_digest_def)

lemma validate_chunk_contract_iff: "validate_chunk_contract fr = Inr u \<longleftrightarrow>
    (bc_chunk_type fr \<in> {0, 4} \<and> bc_index fr = 0 \<and> bc_payload fr = []) \<or>
    (bc_chunk_type fr \<in> {1, 2, 3, 5, 6} \<and> bc_index fr \<le> 63 \<and> length (bc_payload fr) = 32)"
  by (auto simp: validate_chunk_contract_def CW_def)

text \<open>A frame a peer takes: it decodes, its binding is right and it keeps the chunk contract.\<close>

definition frame_accepted :: "bytes \<Rightarrow> int \<Rightarrow> bytes \<Rightarrow> rvbc1 \<Rightarrow> bool" where
  "frame_accepted f d sid fr \<longleftrightarrow> decode_rvbc1 f = Inr fr \<and> verify_frame_binding fr d sid = Inr () \<and>
     validate_chunk_contract fr = Inr ()"

lemma decode_and_validate_iff: "decode_and_validate_frame state inp = Inr fr \<longleftrightarrow>
    (\<exists>f. bi_frame inp = Some f \<and> frame_accepted f (bi_direction inp) (fp_session_id (fs_prefix state)) fr)"
  by (auto simp: decode_and_validate_frame_def frame_accepted_def bindE_eq_Inr split: option.splits)

lemma frame_acceptedI: "encode_rvbc1 fr = Inr f \<Longrightarrow>
    binding_digest d (bc_epoch fr) (bc_chunk_type fr) (bc_index fr) (bc_payload fr) sid = Inr (bc_binding fr) \<Longrightarrow>
    bc_chunk_type fr \<in> {1, 2, 3, 5, 6} \<Longrightarrow> bc_index fr \<le> 63 \<Longrightarrow> length (bc_payload fr) = 32 \<Longrightarrow>
    frame_accepted f d sid fr"
  by (auto simp: frame_accepted_def decode_rvbc1_iff_encode verify_frame_binding_iff validate_chunk_contract_iff byte_fits_def)

lemma emit_active_spec:
  assumes "emit_active st = Inr (st', fr)"
  shows "\<exists>a. fs_active_send st = Some a \<and> st' = st\<lparr>fs_active_send := Some (a\<lparr>as_next_spqr_index := as_next_spqr_index a + 1\<rparr>)\<rparr> \<and>
    systematic_chunk (as_source_bytes a) (as_next_spqr_index a) = Inr (bc_payload fr) \<and>
    bc_epoch fr = as_epoch a \<and> bc_chunk_type fr = as_wire_type a \<and> bc_index fr = as_next_spqr_index a \<and>
    as_next_spqr_index a \<le> 63 \<and>
    binding_digest (as_direction a) (bc_epoch fr) (bc_chunk_type fr) (bc_index fr) (bc_payload fr)
      (fp_session_id (fs_prefix st)) = Inr (bc_binding fr)"
  using assms by (auto simp: emit_active_def bindE_eq_Inr Let_def split: option.splits if_splits)

lemma keys_unsampled_send_spec:
  assumes "apply_keys_unsampled_send st km d = Inr (st', f)"
  shows "\<exists>auth tag fr. AuthState (fp_auth_root (fs_prefix st)) (fp_auth_mac_key (fs_prefix st)) = Inr auth \<and>
    mac_hdr auth (fp_agent_epoch (fs_prefix st)) (km_header km) = Inr tag \<and>
    length (km_header km @ tag) = 96 \<and>
    frame_accepted f d (fp_session_id (fs_prefix st)) fr \<and>
    bc_epoch fr = fp_agent_epoch (fs_prefix st) \<and> bc_chunk_type fr = 1 \<and> bc_index fr = 0 \<and>
    bc_payload fr = take 32 (km_header km @ tag) \<and>
    fp_agent (fs_prefix st) = 0 \<and>
    st' = st\<lparr>fs_tlvs := fs_tlvs st', fs_active_send := Some \<lparr>as_direction = d, as_epoch = fp_agent_epoch (fs_prefix st),
        as_wire_type = 1, as_source_kind = 1, as_source_len = 96,
        as_source_digest = send_source_digest (km_header km @ tag), as_source_bytes = km_header km @ tag,
        as_next_spqr_index = 1\<rparr>,
      fs_prefix := (fs_prefix st)\<lparr>fp_agent := 1, fp_send_epoch := fp_agent_epoch (fs_prefix st) - 1\<rparr>\<rparr>"
proof -
  obtain auth tag payload binding where *:
    "AuthState (fp_auth_root (fs_prefix st)) (fp_auth_mac_key (fs_prefix st)) = Inr auth"
    "mac_hdr auth (fp_agent_epoch (fs_prefix st)) (km_header km) = Inr tag"
    "length (km_header km @ tag) = 96" "fp_agent (fs_prefix st) = 0"
    "systematic_chunk (km_header km @ tag) 0 = Inr payload"
    "binding_digest d (fp_agent_epoch (fs_prefix st)) 1 0 payload (fp_session_id (fs_prefix st)) = Inr binding"
    "encode_rvbc1 \<lparr>bc_epoch = fp_agent_epoch (fs_prefix st), bc_chunk_type = 1, bc_index = 0,
        bc_payload = payload, bc_binding = binding\<rparr> = Inr f" (is "encode_rvbc1 ?fr = _")
    "st' = st\<lparr>fs_tlvs := fs_tlvs st', fs_active_send := Some \<lparr>as_direction = d, as_epoch = fp_agent_epoch (fs_prefix st),
        as_wire_type = 1, as_source_kind = 1, as_source_len = 96,
        as_source_digest = send_source_digest (km_header km @ tag), as_source_bytes = km_header km @ tag,
        as_next_spqr_index = 1\<rparr>,
      fs_prefix := (fs_prefix st)\<lparr>fp_agent := 1, fp_send_epoch := fp_agent_epoch (fs_prefix st) - 1\<rparr>\<rparr>"
    using assms
    by (auto simp: apply_keys_unsampled_send_def bindE_eq_Inr Let_def step_consts split: if_splits)
  have "frame_accepted f d (fp_session_id (fs_prefix st)) ?fr"
    using *(5-7) by (intro frame_acceptedI) (auto dest: systematic_chunk_len)
  with * show ?thesis by (intro exI[of _ auth] exI[of _ tag] exI[of _ ?fr]) (auto simp: systematic_chunk_iff)
qed

lemma keys_unsampled_send_prefix:
  assumes "apply_keys_unsampled_send st km d = Inr (st', f)"
  shows "fs_prefix st' = (fs_prefix st)\<lparr>fp_agent := 1, fp_send_epoch := fp_agent_epoch (fs_prefix st) - 1\<rparr>"
  using keys_unsampled_send_spec[OF assms]
  by (elim exE conjE) (drule arg_cong[of _ _ fs_prefix], simp)

end
