(* ===== verification/BraidTransition.thy ===== *)
theory BraidTransition
  imports BraidSteps
begin

text \<open>
  The transition of \<open>full_braid_transition.py\<close>: \<open>transition\<close> takes the canonical bytes of a state,
  an input and an environment to a candidate state, and \<open>transition_prepare\<close> wraps it in a replay
  record, a pending prefix and the journal header of the two-phase commit.
\<close>

section \<open>Results\<close>

record pipeline_meta =
  pl_sending_epoch :: int
  pl_receiving_epoch :: int
  pl_output_key_epoch :: int
  pl_flags :: int
  pl_terminal_reason :: int
  pl_pending_phase :: int
  pl_transition_id :: bytes

definition meta_as_dict :: "pipeline_meta \<Rightarrow> (string, pyval) dict" where
  "meta_as_dict m =
     [(''sending_epoch'', PInt (pl_sending_epoch m)), (''receiving_epoch'', PInt (pl_receiving_epoch m)),
      (''output_key_epoch'', PInt (pl_output_key_epoch m)), (''flags'', PInt (pl_flags m)),
      (''terminal_reason'', PInt (pl_terminal_reason m)), (''pending_phase'', PInt (pl_pending_phase m)),
      (''transition_id_hex'', PStr (bytes_hex (pl_transition_id m)))]"

record pipeline_result =
  pr_candidate_bytes :: bytes
  pr_outputs_bytes :: bytes
  pr_intent_bytes :: bytes
  pr_meta :: pipeline_meta

record transition_meta =
  tm_sending_epoch :: int
  tm_receiving_epoch :: int
  tm_output_key_epoch :: "int option"
  tm_flags :: int

record transition_result =
  tn_disposition :: string
  tn_candidate_bytes :: bytes
  tn_frame_bytes :: "bytes option"
  tn_ch_out_bytes :: "bytes option"
  tn_sealed_ct :: "bytes option"
  tn_meta :: transition_meta

section \<open>The two-phase commit\<close>

definition promoted_state :: "rvfb1_state \<Rightarrow> rvfb1_state" where
  "promoted_state prepared = prepared\<lparr>fs_prefix := (fs_prefix prepared)\<lparr>fp_pending_phase := 2,
     fp_flags := fp_flags (fs_prefix prepared) OR 1\<rparr>\<rparr>"

definition cleared_state :: "rvfb1_state \<Rightarrow> rvfb1_state" where
  "cleared_state promoted = promoted\<lparr>fs_prefix := (fs_prefix promoted)\<lparr>fp_pending_phase := 0,
     fp_pending_transition_id := zeros 32, fp_pending_before_digest := zeros 32,
     fp_pending_output_digest := zeros 32, fp_pending_execution_digest := zeros 32,
     fp_flags := fp_flags (fs_prefix promoted) AND NOT 1,
     fp_generation := fp_generation (fs_prefix promoted) + 1\<rparr>\<rparr>"

definition promoted_and_cleared :: "rvfb1_state \<Rightarrow> (bytes \<times> bytes) res" where
  "promoted_and_cleared prepared =
     (let promoted = promoted_state prepared in
      bindE (encode_rvfb1 promoted) (\<lambda>promoted_bytes.
      bindE (encode_rvfb1 (cleared_state promoted)) (\<lambda>cleared_bytes. Inr (promoted_bytes, cleared_bytes))))"

definition prepare_candidate :: "rvfb1_state \<Rightarrow> bytes \<Rightarrow> rvfb1_state \<Rightarrow> int \<Rightarrow> bytes \<Rightarrow> bytes \<Rightarrow> bytes \<Rightarrow> bytes \<Rightarrow>
    int \<Rightarrow> int \<Rightarrow> int option \<Rightarrow> pipeline_result res" where
  "prepare_candidate before before_bytes candidate direction execution input_d object_d outputs
       retention_origin_ms meta_flags output_key_epoch =
     (let p = fs_prefix before in
      bindE (state_digest 1 before_bytes) (\<lambda>before_digest.
      let output_d = output_digest outputs in
      bindE (transition_id_digest (fp_session_id p) (fp_role p) direction (fp_generation p) execution before_digest)
        (\<lambda>transition_id.
      let candidate = candidate\<lparr>
            fs_replays := sort_key rr_transition_id (fs_replays candidate @
              [\<lparr>rr_transition_id = transition_id, rr_execution_digest = execution, rr_output_digest = output_d,
                rr_output_len = int (length outputs), rr_flags = meta_flags\<rparr>]),
            fs_prefix := (fs_prefix candidate)\<lparr>fp_flags := fp_flags (fs_prefix candidate) AND NOT 1,
              fp_pending_phase := 1, fp_pending_transition_id := transition_id,
              fp_pending_before_digest := before_digest, fp_pending_output_digest := output_d,
              fp_pending_execution_digest := execution\<rparr>\<rparr> in
      bindE (encode_rvfb1 candidate) (\<lambda>candidate_bytes.
      bindE (promoted_and_cleared candidate) (\<lambda>(promoted_bytes, cleared_bytes).
      bindE (state_digest 1 candidate_bytes) (\<lambda>prepared_d.
      bindE (state_digest 1 promoted_bytes) (\<lambda>promoted_d.
      bindE (state_digest 1 cleared_bytes) (\<lambda>cleared_d.
      bindE (encode_rvbj1_header \<lparr>bj_session_id = fp_session_id p, bj_role = fp_role p, bj_direction = direction,
           bj_intent_kind = INTENT_NORMAL, bj_generation = fp_generation p, bj_transition_id = transition_id,
           bj_execution = execution, bj_input_d = input_d, bj_before_d = before_digest, bj_prepared_d = prepared_d,
           bj_promoted_d = promoted_d, bj_cleared_d = cleared_d, bj_output_d = output_d, bj_object_d = object_d,
           bj_retention_origin_ms = retention_origin_ms,
           bj_retention_expiry_ms = retention_origin_ms + BRAID_RVOR_TTL_MS,
           bj_candidate_len = int (length candidate_bytes), bj_outputs_len = int (length outputs)\<rparr>) (\<lambda>header.
      Inr \<lparr>pr_candidate_bytes = candidate_bytes, pr_outputs_bytes = outputs,
           pr_intent_bytes = header @ candidate_bytes @ outputs,
           pr_meta = \<lparr>pl_sending_epoch = fp_send_epoch (fs_prefix candidate),
             pl_receiving_epoch = fp_recv_epoch (fs_prefix candidate),
             pl_output_key_epoch = (case output_key_epoch of None \<Rightarrow> 0 | Some e \<Rightarrow> e), pl_flags = meta_flags,
             pl_terminal_reason = fp_terminal_reason (fs_prefix candidate),
             pl_pending_phase = fp_pending_phase (fs_prefix candidate), pl_transition_id = transition_id\<rparr>\<rparr>)))))))))"

section \<open>The transition\<close>

text \<open>The send and the receive branch: candidate, frame, RVCH1, sealed body and the output-key epoch.\<close>

definition transition_send :: "crypto \<Rightarrow> rvfb1_state \<Rightarrow> rvbi1 \<Rightarrow> rvbe1 \<Rightarrow> keygen_material option \<Rightarrow>
    promote_material option \<Rightarrow> (rvfb1_state \<times> bytes option \<times> bytes option \<times> bytes option \<times> int option) res" where
  "transition_send c candidate inp env keygen promote =
     (if fp_agent (fs_prefix candidate) = AGENT_KEYS_UNSAMPLED then
        (case keygen of None \<Rightarrow> Inl (ValueError ''keygen material required for send'')
         | Some km \<Rightarrow>
             if length (be_keygen_seed env) \<noteq> 64 then Inl (ValueError ''keygen seed required'')
             else bindE (apply_keys_unsampled_send candidate km (bi_direction inp)) (\<lambda>(candidate, frame_bytes).
                  Inr (candidate, Some frame_bytes, None, None, None)))
      else if fp_agent (fs_prefix candidate) = AGENT_HEADER_RECEIVED then
        (case promote of None \<Rightarrow> Inl (ValueError ''promote material required for send'')
         | Some pm \<Rightarrow>
             bindE (apply_header_received_send c candidate inp env pm) (\<lambda>(candidate, frame, ch_out, sealed_ct, epoch).
             bindE (encode_rvbc1 frame) (\<lambda>frame_bytes.
             Inr (candidate, Some frame_bytes, Some ch_out, Some sealed_ct, Some epoch))))
      else Inl (ValueError ''unsupported send agent''))"

definition transition_receive :: "crypto \<Rightarrow> rvfb1_state \<Rightarrow> rvfb1_state \<Rightarrow> rvbi1 \<Rightarrow> rvbe1 \<Rightarrow>
    promote_material option \<Rightarrow> (rvfb1_state \<times> bytes option \<times> bytes option \<times> bytes option \<times> int option) res" where
  "transition_receive c before candidate inp env promote =
     bindE (decode_and_validate_frame before inp) (\<lambda>frame.
     if fp_agent (fs_prefix candidate) = AGENT_NO_HEADER_RECEIVED then
       bindE (apply_hdr_receive candidate frame) (\<lambda>candidate. Inr (candidate, None, None, None, None))
     else if fp_agent (fs_prefix candidate) = AGENT_EK_SENT_CT1_RECEIVED then
       (case promote of None \<Rightarrow> Inl (ValueError ''promote material required for receive'')
        | Some pm \<Rightarrow>
            bindE (apply_ek_sent_ct1_received_receive c candidate inp env frame pm) (\<lambda>(candidate, epoch).
            Inr (candidate, None, None, None, Some epoch)))
     else Inl (ValueError ''unsupported receive agent''))"

definition transition :: "crypto \<Rightarrow> bytes \<Rightarrow> bytes \<Rightarrow> bytes \<Rightarrow> keygen_material option \<Rightarrow> promote_material option \<Rightarrow>
    transition_result res" where
  "transition c st_bytes input_bytes env_bytes keygen promote =
     bindE (decode_rvfb1 st_bytes) (\<lambda>before.
     bindE (encode_rvfb1 before) (\<lambda>again.
     if again \<noteq> st_bytes then Inl (ValueError ''before state not canonical'')
     else if fp_pending_phase (fs_prefix before) \<noteq> 0 then Inl (ValueError ''pending phase'')
     else bindE (decode_rvbi1 input_bytes) (\<lambda>inp.
     bindE (encode_rvbi1 inp) (\<lambda>again.
     if again \<noteq> input_bytes then Inl (ValueError ''input not canonical'')
     else bindE (decode_rvbe1 env_bytes) (\<lambda>env.
     bindE (encode_rvbe1 env) (\<lambda>again.
     if again \<noteq> env_bytes then Inl (ValueError ''env not canonical'')
     else bindE (validate_role_mode (fp_role (fs_prefix before)) (bi_op inp) (bi_direction inp)) (\<lambda>_.
     bindE (decode_rvfb1 st_bytes) (\<lambda>candidate.
     bindE (if bi_op inp = OP_SEND then transition_send c candidate inp env keygen promote
            else if bi_op inp = OP_RECEIVE then transition_receive c before candidate inp env promote
            else Inl (ValueError ''unsupported op'')) (\<lambda>(candidate, frame_bytes, ch_out, sealed_ct, output_key_epoch).
     bindE (encode_rvfb1 candidate) (\<lambda>candidate_bytes.
     Inr \<lparr>tn_disposition = ''accept'', tn_candidate_bytes = candidate_bytes, tn_frame_bytes = frame_bytes,
          tn_ch_out_bytes = ch_out, tn_sealed_ct = sealed_ct,
          tn_meta = \<lparr>tm_sending_epoch = fp_send_epoch (fs_prefix candidate),
            tm_receiving_epoch = fp_recv_epoch (fs_prefix candidate), tm_output_key_epoch = output_key_epoch,
            tm_flags = 0\<rparr>\<rparr>))))))))))"

definition transition_prepare :: "crypto \<Rightarrow> bytes \<Rightarrow> bytes \<Rightarrow> bytes \<Rightarrow> keygen_material option \<Rightarrow>
    promote_material option \<Rightarrow> pipeline_result res" where
  "transition_prepare c st_bytes input_bytes env_bytes keygen promote =
     bindE (decode_rvfb1 st_bytes) (\<lambda>before.
     bindE (decode_rvbi1 input_bytes) (\<lambda>inp.
     bindE (decode_rvbe1 env_bytes) (\<lambda>env.
     bindE (transition c st_bytes input_bytes env_bytes keygen promote) (\<lambda>transitioned.
     bindE (decode_rvfb1 (tn_candidate_bytes transitioned)) (\<lambda>candidate.
     bindE (case tn_frame_bytes transitioned of None \<Rightarrow> encode_empty_rvbo1
            | Some f \<Rightarrow> encode_rvbo1_frames [f] (tn_ch_out_bytes transitioned) (tn_sealed_ct transitioned)) (\<lambda>outputs.
     bindE (execution_digest input_bytes env_bytes) (\<lambda>execution.
     prepare_candidate before st_bytes candidate (bi_direction inp) execution (input_digest input_bytes)
       (case bi_object_digest inp of None \<Rightarrow> zeros 32 | Some d \<Rightarrow> if d = [] then zeros 32 else d) outputs
       (be_clock env) (tm_flags (tn_meta transitioned)) (tm_output_key_epoch (tn_meta transitioned)))))))))"

section \<open>What the handlers change\<close>

text \<open>What no transition touches: the session's identity, its terminal reason and pending fields, objects and replays.\<close>

definition same_session :: "rvfb1_state \<Rightarrow> rvfb1_state \<Rightarrow> bool" where
  "same_session st st' \<longleftrightarrow> (let p = fs_prefix st; q = fs_prefix st' in
     fp_session_id q = fp_session_id p \<and> fp_role q = fp_role p \<and> fp_generation q = fp_generation p \<and>
     fp_terminal_reason q = fp_terminal_reason p \<and> fp_pending_phase q = fp_pending_phase p \<and>
     fs_objects st' = fs_objects st \<and> fs_replays st' = fs_replays st)"

text \<open>The abstract machine: agent and epochs, as the handlers move them.\<close>

record epoch_view =
  ev_agent :: int
  ev_epoch :: int
  ev_send :: int
  ev_recv :: int

definition view :: "rvfb1_state \<Rightarrow> epoch_view" where
  "view st = \<lparr>ev_agent = fp_agent (fs_prefix st), ev_epoch = fp_agent_epoch (fs_prefix st),
     ev_send = fp_send_epoch (fs_prefix st), ev_recv = fp_recv_epoch (fs_prefix st)\<rparr>"

inductive epoch_step :: "int \<Rightarrow> epoch_view \<Rightarrow> epoch_view \<Rightarrow> bool" where
  sample_keys: "ev_agent v = AGENT_KEYS_UNSAMPLED \<Longrightarrow>
    epoch_step OP_SEND v (v\<lparr>ev_agent := AGENT_KEYS_SAMPLED, ev_send := ev_epoch v - 1\<rparr>)"
| sample_ct1: "ev_agent v = AGENT_HEADER_RECEIVED \<Longrightarrow>
    epoch_step OP_SEND v (v\<lparr>ev_agent := AGENT_CT1_SAMPLED, ev_send := ev_epoch v - 1\<rparr>)"
| receive_hdr: "ev_agent v = AGENT_NO_HEADER_RECEIVED \<Longrightarrow>
    epoch_step OP_RECEIVE v (v\<lparr>ev_recv := ev_epoch v - 1\<rparr>)"
| receive_ct2: "ev_agent v = AGENT_EK_SENT_CT1_RECEIVED \<Longrightarrow>
    epoch_step OP_RECEIVE v (v\<lparr>ev_agent := AGENT_NO_HEADER_RECEIVED, ev_epoch := ev_epoch v + 1, ev_recv := ev_epoch v - 1\<rparr>)"

inductive_cases epoch_stepE: "epoch_step op v v'"

lemma confirm_send_spec:
  "confirm_send c st inp env fr ok ep = Inr (st', ch, ct) \<Longrightarrow> st' = st\<lparr>fs_tr_bytes := fs_tr_bytes st'\<rparr> \<and>
     bm_expected_ct (bi_mutation inp) = Some ct \<and> length ch = RVCH1_LEN"
  unfolding confirm_send_def Let_def
  by (clarsimp simp: bindE_eq_Inr if_Inl_eq_Inr encode_rvch1_iff rvch1_fields_fit_def RVCH1_LEN_def)

lemma confirm_receive_spec:
  "confirm_receive c st inp env fr ok ep = Inr st' \<Longrightarrow> st' = st\<lparr>fs_tr_bytes := fs_tr_bytes st'\<rparr>"
  unfolding confirm_receive_def Let_def
  by (auto simp: bindE_eq_Inr if_Inl_eq_Inr split: option.splits)

lemma insert_systematic_only:
  "insert_systematic_frame st d fr k = Inr (st', src) \<Longrightarrow> st' = st\<lparr>fs_inbound_sets := fs_inbound_sets st'\<rparr>"
  unfolding insert_systematic_frame_def Let_def
  by (auto simp: bindE_eq_Inr if_Inl_eq_Inr split: option.splits)

lemma header_received_send_spec:
  assumes "apply_header_received_send c st inp env pm = Inr (st', fr, ch, ct, ep)"
  shows "same_session st st' \<and> epoch_step OP_SEND (view st) (view st') \<and> ep = fp_agent_epoch (fs_prefix st) \<and>
    fs_inbound_sets st' = fs_inbound_sets st \<and> length ch = RVCH1_LEN \<and> bm_expected_ct (bi_mutation inp) = Some ct \<and>
    (\<forall>f. encode_rvbc1 fr = Inr f \<longrightarrow> frame_accepted f (bi_direction inp) (fp_session_id (fs_prefix st)) fr) \<and>
    bc_epoch fr = ep \<and> bc_chunk_type fr = WIRE_CT1 \<and> bc_index fr = 0 \<and> bc_payload fr = take 32 (pm_ct1 pm) \<and>
    fs_active_send st' = Some ((new_active_send (bi_direction inp) ep WIRE_CT1 SOURCE_KIND_CT1 (pm_ct1 pm))
      \<lparr>as_next_spqr_index := 1\<rparr>)"
proof -
  from assms obtain root mac tlvs st1 st2 ok tr tr_bytes where
    ag: "fp_agent (fs_prefix st) = AGENT_HEADER_RECEIVED" and ep: "ep = fp_agent_epoch (fs_prefix st)"
    and em: "emit_active (st\<lparr>fs_tlvs := tlvs,
        fs_active_send := Some (new_active_send (bi_direction inp) ep WIRE_CT1 SOURCE_KIND_CT1 (pm_ct1 pm)),
        fs_prefix := (fs_prefix st)\<lparr>fp_auth_root := root, fp_auth_mac_key := mac, fp_agent := AGENT_CT1_SAMPLED\<rparr>\<rparr>) = Inr (st1, fr)"
    and cs: "confirm_send c st1 inp env fr ok ep = Inr (st2, ch, ct)"
    and st': "st' = st2\<lparr>fs_tr_bytes := tr_bytes, fs_prefix := (fs_prefix st2)\<lparr>fp_send_epoch := ep - 1\<rparr>\<rparr>"
    unfolding apply_header_received_send_def Let_def
    by (clarsimp simp: bindE_eq_Inr if_Inl_eq_Inr)
  note e = emit_active_spec[OF em] and s = confirm_send_spec[OF cs]
  from e have fr: "systematic_chunk (pm_ct1 pm) 0 = Inr (bc_payload fr)" "bc_epoch fr = ep" "bc_chunk_type fr = WIRE_CT1"
    "bc_index fr = 0"
    "binding_digest (bi_direction inp) (bc_epoch fr) (bc_chunk_type fr) (bc_index fr) (bc_payload fr)
      (fp_session_id (fs_prefix st)) = Inr (bc_binding fr)"
    and st1: "st1 = st\<lparr>fs_tlvs := tlvs,
        fs_active_send := Some ((new_active_send (bi_direction inp) ep WIRE_CT1 SOURCE_KIND_CT1 (pm_ct1 pm))\<lparr>as_next_spqr_index := 1\<rparr>),
        fs_prefix := (fs_prefix st)\<lparr>fp_auth_root := root, fp_auth_mac_key := mac, fp_agent := AGENT_CT1_SAMPLED\<rparr>\<rparr>"
    by (auto simp: new_active_send_def)
  have "frame_accepted f (bi_direction inp) (fp_session_id (fs_prefix st)) fr" if "encode_rvbc1 fr = Inr f" for f
    using that fr by (intro frame_acceptedI) (auto simp: WIRE_CT1_def dest: systematic_chunk_len)
  moreover have "bc_payload fr = take 32 (pm_ct1 pm)" using fr(1) by (simp add: systematic_chunk_iff)
  moreover obtain tb where st2: "st2 = st1\<lparr>fs_tr_bytes := tb\<rparr>" using s by blast
  have "epoch_step OP_SEND (view st) ((view st)\<lparr>ev_agent := AGENT_CT1_SAMPLED, ev_send := ev_epoch (view st) - 1\<rparr>)"
    by (rule sample_ct1) (simp add: view_def ag)
  then have "epoch_step OP_SEND (view st) (view st')" by (simp add: view_def st' st2 st1 ep)
  ultimately show ?thesis using fr s ep by (simp add: st' st2 st1 same_session_def)
qed

lemma ct2_receive_spec:
  assumes "apply_ek_sent_ct1_received_receive c st inp env fr pm = Inr (st', ep)"
  shows "same_session st st' \<and> epoch_step OP_RECEIVE (view st) (view st') \<and> ep = fp_agent_epoch (fs_prefix st) \<and>
    fs_active_send st' = None \<and> fs_tlvs st' = [] \<and>
    empty_inbound_set (bi_direction inp) (ep + 1) SOURCE_KIND_HDR = Inr (hd (fs_inbound_sets st')) \<and>
    length (fs_inbound_sets st') = 1 \<and> bc_chunk_type fr = WIRE_CT2"
proof -
  from assms obtain src st1 root mac st2 ok tr_bytes inbound where
    ag: "fp_agent (fs_prefix st) = AGENT_EK_SENT_CT1_RECEIVED" and ep: "ep = fp_agent_epoch (fs_prefix st)"
    and ty: "bc_chunk_type fr = WIRE_CT2"
    and ins: "insert_systematic_frame st (bi_direction inp) fr SOURCE_KIND_CT2 = Inr (st1, Some src)"
    and cr: "confirm_receive c (st1\<lparr>fs_prefix := (fs_prefix st1)\<lparr>fp_auth_root := root, fp_auth_mac_key := mac\<rparr>\<rparr>)
        inp env fr ok ep = Inr st2"
    and em: "empty_inbound_set (bi_direction inp) (ep + 1) SOURCE_KIND_HDR = Inr inbound"
    and st': "st' = st2\<lparr>fs_tr_bytes := tr_bytes,
             fs_prefix := (fs_prefix st2)\<lparr>fp_agent_epoch := ep + 1, fp_recv_epoch := ep - 1,
                fp_agent := AGENT_NO_HEADER_RECEIVED,
                fp_flags := fp_flags (fs_prefix st2) AND NOT FLAG_CT1_ACK_APPLIED\<rparr>,
             fs_tlvs := [], fs_active_send := None, fs_inbound_sets := [inbound]\<rparr>"
    unfolding apply_ek_sent_ct1_received_receive_def Let_def
    by (clarsimp simp: bindE_eq_Inr if_Inl_eq_Inr split: option.splits)
  obtain sets where st1: "st1 = st\<lparr>fs_inbound_sets := sets\<rparr>" using insert_systematic_only[OF ins] by blast
  obtain tb where st2: "st2 = st1\<lparr>fs_prefix := (fs_prefix st1)\<lparr>fp_auth_root := root, fp_auth_mac_key := mac\<rparr>,
      fs_tr_bytes := tb\<rparr>"
    using confirm_receive_spec[OF cr] by auto
  have "epoch_step OP_RECEIVE (view st) ((view st)\<lparr>ev_agent := AGENT_NO_HEADER_RECEIVED,
      ev_epoch := ev_epoch (view st) + 1, ev_recv := ev_epoch (view st) - 1\<rparr>)"
    by (rule receive_ct2) (simp add: view_def ag)
  then have "epoch_step OP_RECEIVE (view st) (view st')" by (simp add: view_def st' st2 st1 ep)
  then show ?thesis using ep em ty by (simp add: st' st2 st1 same_session_def)
qed

lemma hdr_receive_spec:
  assumes "apply_hdr_receive st fr = Inr st'"
  shows "same_session st st' \<and> epoch_step OP_RECEIVE (view st) (view st') \<and> bc_chunk_type fr = WIRE_HDR \<and>
    bc_epoch fr = fp_agent_epoch (fs_prefix st) \<and> fs_active_send st' = fs_active_send st \<and> fs_tlvs st' = fs_tlvs st \<and>
    fs_tr_bytes st' = fs_tr_bytes st \<and>
    (\<exists>s bm. fs_inbound_sets st = [s] \<and> is_chunks s = [] \<and> is_source_kind s = SOURCE_KIND_HDR \<and>
       bitmap_set (is_bitmap s) (bc_index fr) = Inr bm \<and>
       fs_inbound_sets st' = [s\<lparr>is_bitmap := bm, is_chunks := [\<lparr>ic_index = bc_index fr, ic_payload = bc_payload fr\<rparr>]\<rparr>])"
proof -
  from assms obtain s bm where *: "fp_agent (fs_prefix st) = AGENT_NO_HEADER_RECEIVED"
    "bc_epoch fr = fp_agent_epoch (fs_prefix st)" "bc_chunk_type fr = WIRE_HDR" "fs_inbound_sets st = [s]"
    "is_source_kind s = SOURCE_KIND_HDR" "is_chunks s = []" "bitmap_set (is_bitmap s) (bc_index fr) = Inr bm"
    "st' = st\<lparr>fs_inbound_sets := [s\<lparr>is_bitmap := bm, is_chunks := [\<lparr>ic_index = bc_index fr, ic_payload = bc_payload fr\<rparr>]\<rparr>],
       fs_prefix := (fs_prefix st)\<lparr>fp_recv_epoch := fp_agent_epoch (fs_prefix st) - 1\<rparr>\<rparr>"
    unfolding apply_hdr_receive_def Let_def
    by (auto simp: bindE_eq_Inr split: if_splits list.splits)
  have "epoch_step OP_RECEIVE (view st) ((view st)\<lparr>ev_recv := ev_epoch (view st) - 1\<rparr>)"
    by (rule receive_hdr) (simp add: view_def *(1))
  then have "epoch_step OP_RECEIVE (view st) (view st')" by (simp add: view_def *(8))
  then show ?thesis using * by (simp add: same_session_def)
qed

section \<open>Accepted transitions\<close>

lemma rvfb1_decode_iff: "decode_rvfb1 bs = Inr st \<longleftrightarrow> encode_rvfb1 st = Inr bs"
  by (auto simp: encode_rvfb1_iff decode_rvfb1_wire dest: decode_rvfb1_dest)

text \<open>The facts an accepted transition rests on: canonical inputs, no pending phase, the role's mode.\<close>

definition inputs_ok :: "bytes \<Rightarrow> bytes \<Rightarrow> bytes \<Rightarrow> rvfb1_state \<Rightarrow> rvbi1 \<Rightarrow> rvbe1 \<Rightarrow> bool" where
  "inputs_ok sb ib eb before inp env \<longleftrightarrow> encode_rvfb1 before = Inr sb \<and> fp_pending_phase (fs_prefix before) = 0 \<and>
     decode_rvbi1 ib = Inr inp \<and> encode_rvbi1 inp = Inr ib \<and> decode_rvbe1 eb = Inr env \<and> encode_rvbe1 env = Inr eb \<and>
     validate_role_mode (fp_role (fs_prefix before)) (bi_op inp) (bi_direction inp) = Inr ()"

lemma inputs_ok_decode: "inputs_ok sb ib eb before inp env \<Longrightarrow> decode_rvfb1 sb = Inr before"
  by (simp add: inputs_ok_def rvfb1_decode_iff)

definition transition_branch :: "crypto \<Rightarrow> rvfb1_state \<Rightarrow> rvbi1 \<Rightarrow> rvbe1 \<Rightarrow> keygen_material option \<Rightarrow> promote_material option \<Rightarrow>
    (rvfb1_state \<times> bytes option \<times> bytes option \<times> bytes option \<times> int option) res" where
  "transition_branch c before inp env kg pm =
     (if bi_op inp = OP_SEND then transition_send c before inp env kg pm
      else if bi_op inp = OP_RECEIVE then transition_receive c before before inp env pm
      else Inl (ValueError ''unsupported op''))"

lemma transition_ok: "inputs_ok sb ib eb before inp env \<Longrightarrow>
    transition c sb ib eb kg pm =
      bindE (transition_branch c before inp env kg pm) (\<lambda>(candidate, frame_bytes, ch_out, sealed_ct, output_key_epoch).
      bindE (encode_rvfb1 candidate) (\<lambda>candidate_bytes.
      Inr \<lparr>tn_disposition = ''accept'', tn_candidate_bytes = candidate_bytes, tn_frame_bytes = frame_bytes,
          tn_ch_out_bytes = ch_out, tn_sealed_ct = sealed_ct,
          tn_meta = \<lparr>tm_sending_epoch = fp_send_epoch (fs_prefix candidate),
            tm_receiving_epoch = fp_recv_epoch (fs_prefix candidate), tm_output_key_epoch = output_key_epoch,
            tm_flags = 0\<rparr>\<rparr>))"
  using inputs_ok_decode[of sb ib eb before inp env]
  by (simp add: transition_def transition_branch_def inputs_ok_def)

lemma transition_inputs: "transition c sb ib eb kg pm = Inr r \<Longrightarrow> \<exists>before inp env. inputs_ok sb ib eb before inp env"
  by (auto simp: transition_def inputs_ok_def bindE_eq_Inr rvfb1_decode_iff if_Inl_eq_Inr)

lemma transition_accept:
  assumes "transition c sb ib eb kg pm = Inr r"
  obtains before inp env cand fb ch ct oke where "inputs_ok sb ib eb before inp env"
    "transition_branch c before inp env kg pm = Inr (cand, fb, ch, ct, oke)"
    "encode_rvfb1 cand = Inr (tn_candidate_bytes r)" "tn_frame_bytes r = fb" "tn_ch_out_bytes r = ch"
    "tn_sealed_ct r = ct" "tm_output_key_epoch (tn_meta r) = oke" "tm_flags (tn_meta r) = 0"
    "tm_sending_epoch (tn_meta r) = fp_send_epoch (fs_prefix cand)"
    "tm_receiving_epoch (tn_meta r) = fp_recv_epoch (fs_prefix cand)"
proof -
  obtain before inp env where ok: "inputs_ok sb ib eb before inp env" using transition_inputs[OF assms] by blast
  show ?thesis
    using assms that[OF ok] unfolding transition_ok[OF ok] by (auto simp: bindE_eq_Inr)
qed

text \<open>What either branch gives: the abstract step, the session kept, and the frame (of a send only) in order.\<close>

definition sent_frame_ok :: "rvfb1_state \<Rightarrow> rvbi1 \<Rightarrow> bytes option \<Rightarrow> bool" where
  "sent_frame_ok before inp fb \<longleftrightarrow> (case fb of
     None \<Rightarrow> bi_op inp = OP_RECEIVE
   | Some f \<Rightarrow> bi_op inp = OP_SEND \<and> (\<exists>fr. frame_accepted f (bi_direction inp) (fp_session_id (fs_prefix before)) fr \<and>
       bc_epoch fr = fp_agent_epoch (fs_prefix before) \<and> bc_index fr = 0))"

lemma ops_apart: "OP_SEND \<noteq> OP_RECEIVE"
  by (simp add: OP_SEND_def OP_RECEIVE_def)

lemma transition_send_spec:
  assumes "transition_send c st inp env kg pm = Inr (cand, fb, ch, ct, oke)" "bi_op inp = OP_SEND"
  shows "same_session st cand \<and> epoch_step OP_SEND (view st) (view cand) \<and> sent_frame_ok st inp fb"
proof (cases "fp_agent (fs_prefix st) = AGENT_KEYS_UNSAMPLED")
  case True
  with assms(1) obtain km f where a: "apply_keys_unsampled_send st km (bi_direction inp) = Inr (cand, f)" "fb = Some f"
    by (auto simp: transition_send_def bindE_eq_Inr split: option.splits if_splits)
  obtain fr tlvs act where fr: "frame_accepted f (bi_direction inp) (fp_session_id (fs_prefix st)) fr"
      "bc_epoch fr = fp_agent_epoch (fs_prefix st)" "bc_index fr = 0"
    and st: "cand = st\<lparr>fs_tlvs := tlvs, fs_active_send := act,
      fs_prefix := (fs_prefix st)\<lparr>fp_agent := 1, fp_send_epoch := fp_agent_epoch (fs_prefix st) - 1\<rparr>\<rparr>"
    using keys_unsampled_send_spec[OF a(1)] by blast
  have "epoch_step OP_SEND (view st) ((view st)\<lparr>ev_agent := AGENT_KEYS_SAMPLED, ev_send := ev_epoch (view st) - 1\<rparr>)"
    by (rule sample_keys) (simp add: view_def True)
  then have "epoch_step OP_SEND (view st) (view cand)" by (simp add: view_def st AGENT_KEYS_SAMPLED_def)
  then show ?thesis using fr assms(2) a(2) by (auto simp: st same_session_def sent_frame_ok_def)
next
  case False
  with assms(1) obtain m fr f ch' ct' ep where a: "apply_header_received_send c st inp env m = Inr (cand, fr, ch', ct', ep)"
    "encode_rvbc1 fr = Inr f" "fb = Some f"
    by (auto simp: transition_send_def bindE_eq_Inr split: option.splits if_splits)
  then show ?thesis
    using header_received_send_spec[OF a(1)] assms(2) by (auto simp: sent_frame_ok_def)
qed

lemma transition_receive_spec:
  assumes "transition_receive c st st inp env pm = Inr (cand, fb, ch, ct, oke)" "bi_op inp = OP_RECEIVE"
  shows "same_session st cand \<and> epoch_step OP_RECEIVE (view st) (view cand) \<and> sent_frame_ok st inp fb"
  using assms
  by (auto simp: transition_receive_def bindE_eq_Inr sent_frame_ok_def split: if_splits option.splits
      dest: hdr_receive_spec ct2_receive_spec)

lemma transition_branch_spec:
  assumes "transition_branch c st inp env kg pm = Inr (cand, fb, ch, ct, oke)"
  shows "same_session st cand \<and> epoch_step (bi_op inp) (view st) (view cand) \<and> sent_frame_ok st inp fb"
  using assms transition_send_spec transition_receive_spec
  by (auto simp: transition_branch_def split: if_splits)

lemma transition_spec:
  assumes "transition c sb ib eb kg pm = Inr r"
  obtains before inp env cand where "inputs_ok sb ib eb before inp env"
    "decode_rvfb1 (tn_candidate_bytes r) = Inr cand" "same_session before cand"
    "epoch_step (bi_op inp) (view before) (view cand)" "sent_frame_ok before inp (tn_frame_bytes r)"
    "tm_flags (tn_meta r) = 0" "tm_sending_epoch (tn_meta r) = fp_send_epoch (fs_prefix cand)"
    "tm_receiving_epoch (tn_meta r) = fp_recv_epoch (fs_prefix cand)"
proof -
  obtain before inp env cand fb ch ct oke where *: "inputs_ok sb ib eb before inp env"
    "transition_branch c before inp env kg pm = Inr (cand, fb, ch, ct, oke)"
    "encode_rvfb1 cand = Inr (tn_candidate_bytes r)" "tn_frame_bytes r = fb" "tm_flags (tn_meta r) = 0"
    "tm_sending_epoch (tn_meta r) = fp_send_epoch (fs_prefix cand)"
    "tm_receiving_epoch (tn_meta r) = fp_recv_epoch (fs_prefix cand)"
    using transition_accept[OF assms] by metis
  show ?thesis
    using transition_branch_spec[OF *(2)] *(1,3-7) that[of before inp env cand] by (simp add: rvfb1_decode_iff)
qed

end
