(* ===== verification/BraidChunks.thy ===== *)
theory BraidChunks
  imports BraidSteps
begin

text \<open>
  The inbound chunk sets of \<open>full_braid_transition.py\<close> at work: a set is viewed as the map from index
  to payload, and inserting systematic frames keeps the set valid, refuses conflicts and
  reassembles the source in any order.
\<close>

lemma bit_set_byte: "k < 8 \<Longrightarrow> bit (b OR push_bit k 1 :: byte) j \<longleftrightarrow> j = k \<or> bit b j"
  by (auto simp: bit_simps)

lemma bitmap_set_in:
  assumes "length bm = 8" "0 \<le> i" "i < 64"
  shows "bitmap_set bm i = Inr (bm[nat (i div 8) := bm ! nat (i div 8) OR push_bit (nat (i mod 8)) 1])"
proof -
  have "i div 8 < 8" "0 \<le> i div 8" using assms by auto
  then show ?thesis using assms by (simp add: bitmap_set_def Let_def)
qed

lemma bitmap_set_get:
  assumes "length bm = 8" "0 \<le> i" "i < 64" "0 \<le> j" "j < 64" "bitmap_set bm i = Inr bm'"
  shows "length bm' = 8 \<and> bitmap_get bm' j = Inr (j = i \<or> bitmap_get bm j = Inr True)"
proof -
  have b: "bm' = bm[nat (i div 8) := bm ! nat (i div 8) OR push_bit (nat (i mod 8)) 1]"
    using assms by (simp add: bitmap_set_in)
  then have len: "length bm' = 8" using assms by simp
  have "bit (bm' ! nat (j div 8)) (nat (j mod 8)) \<longleftrightarrow> j = i \<or> bit (bm ! nat (j div 8)) (nat (j mod 8))"
  proof (cases "j div 8 = i div 8")
    case True
    have "nat (i div 8) < 8" "nat (i mod 8) < 8" using assms by auto
    moreover have "j = i \<longleftrightarrow> nat (j mod 8) = nat (i mod 8)" using True assms
      by (metis div_mult_mod_eq nat_0_le pos_mod_sign zero_less_numeral)
    ultimately show ?thesis using True assms(1) by (auto simp: b bit_simps)
  next
    case False
    then have "nat (j div 8) \<noteq> nat (i div 8)" using assms by (metis eq_nat_nat_iff div_int_pos_iff zero_less_numeral order_less_imp_le)
    then show ?thesis using False by (auto simp: b)
  qed
  then show ?thesis using len assms by (simp add: bitmap_get_in)
qed

definition chunks_map :: "inbound_set \<Rightarrow> int \<Rightarrow> bytes option" where
  "chunks_map s = map_of (map (\<lambda>c. (ic_index c, ic_payload c)) (is_chunks s))"

lemma find_index: "List.find (\<lambda>c. ic_index c = i) cs = None \<longleftrightarrow> map_of (map (\<lambda>c. (ic_index c, ic_payload c)) cs) i = None"
  "List.find (\<lambda>c. ic_index c = i) cs = Some c \<Longrightarrow> map_of (map (\<lambda>c. (ic_index c, ic_payload c)) cs) i = Some (ic_payload c)"
  by (induction cs) (auto split: if_splits)

lemma inbound_indices:
  assumes "validate_inbound_set s = Inr ()"
  shows "distinct (map ic_index (is_chunks s))" "sorted_wrt (<) (map ic_index (is_chunks s))"
proof -
  have "map ic_index (is_chunks s) = filter (chunk_bit s) [0..63]" using assms by (simp add: validate_inbound_iff)
  then show "distinct (map ic_index (is_chunks s))" "sorted_wrt (<) (map ic_index (is_chunks s))"
    by (auto simp: strict_sorted_iff sorted_wrt_filter)
qed

lemma index_map: "map fst (map (\<lambda>c. (ic_index c, ic_payload c)) cs) = map ic_index cs"
  by simp

lemma insert_chunk_spec:
  assumes v: "validate_inbound_set s = Inr ()" and i: "0 \<le> bc_index fr" "bc_index fr \<le> 63"
    and p: "length (bc_payload fr) = 32"
  shows "case chunks_map s (bc_index fr) of
      Some p \<Rightarrow> insert_chunk s fr = (if p = bc_payload fr then Inr s else Inl (ValueError ''conflicting inbound chunk''))
    | None \<Rightarrow> \<exists>s'. insert_chunk s fr = Inr s' \<and> validate_inbound_set s' = Inr () \<and> is_key s' = is_key s \<and>
        chunks_map s' = (chunks_map s)(bc_index fr \<mapsto> bc_payload fr)"
proof (cases "List.find (\<lambda>c. ic_index c = bc_index fr) (is_chunks s)")
  case (Some c)
  then show ?thesis
    using find_index(2)[OF Some] by (auto simp: chunks_map_def insert_chunk_def)
next
  case None
  let ?c = "\<lparr>ic_index = bc_index fr, ic_payload = bc_payload fr\<rparr>"
  have len: "length (is_bitmap s) = 8" and ix: "map ic_index (is_chunks s) = filter (chunk_bit s) [0..63]"
    using v by (simp_all add: validate_inbound_iff)
  obtain bm where bm: "bitmap_set (is_bitmap s) (bc_index fr) = Inr bm"
    using bitmap_set_in[OF len i(1)] i by auto
  let ?cs = "sort_key ic_index (is_chunks s @ [?c])"
  let ?s = "s\<lparr>is_bitmap := bm, is_chunks := ?cs\<rparr>"
  have new: "bc_index fr \<notin> ic_index ` set (is_chunks s)" and old: "chunks_map s (bc_index fr) = None"
    using None by (auto simp: find_index(1) chunks_map_def map_of_eq_None_iff image_image find_None_iff)
  have bit: "length bm = 8" "\<And>j. 0 \<le> j \<Longrightarrow> j \<le> 63 \<Longrightarrow> chunk_bit ?s j = (j = bc_index fr \<or> chunk_bit s j)"
    using bitmap_set_get[OF len i(1) _ _ _ bm] i by (auto simp: chunk_bit_def)
  have dist: "distinct (map ic_index (is_chunks s @ [?c]))"
    using inbound_indices(1)[OF v] new by simp
  then have dist': "distinct (map ic_index ?cs)"
    by (metis distinct_map distinct_sort set_sort)
  have "map ic_index ?cs = filter (chunk_bit ?s) [0..63]"
  proof (rule sorted_distinct_set_unique)
    show "sorted (map ic_index ?cs)" by simp
    show "sorted (filter (chunk_bit ?s) [0..63])" by (intro sorted_wrt_filter) simp
    show "distinct (filter (chunk_bit ?s) [0..63])" by (rule distinct_filter) simp
    have "set (map ic_index ?cs) = insert (bc_index fr) (set (filter (chunk_bit s) [0..63]))"
      unfolding ix[symmetric] by auto
    also have "\<dots> = set (filter (chunk_bit ?s) [0..63])"
      using bit(2) i by auto
    finally show "set (map ic_index ?cs) = set (filter (chunk_bit ?s) [0..63])" .
  qed (rule dist')
  moreover have "chunk_bit ?s = chunk_bit (s\<lparr>is_bitmap := bm\<rparr>)"
    by (rule ext) (simp add: chunk_bit_def)
  ultimately have "validate_inbound_set ?s = Inr ()"
    using v bit(1) p by (auto simp: validate_inbound_iff chunk_bit_def[abs_def])
  moreover have "map_of (map (\<lambda>c. (ic_index c, ic_payload c)) ?cs) =
      map_of ((bc_index fr, bc_payload fr) # map (\<lambda>c. (ic_index c, ic_payload c)) (is_chunks s))"
    by (subst map_of_inject_set) (use dist dist' in \<open>auto simp: comp_def\<close>)
  ultimately have "insert_chunk s fr = Inr ?s \<and> validate_inbound_set ?s = Inr () \<and> is_key ?s = is_key s \<and>
      chunks_map ?s = (chunks_map s)(bc_index fr \<mapsto> bc_payload fr)"
    using None bm by (simp add: insert_chunk_def is_key_def chunks_map_def)
  then show ?thesis unfolding old option.case by blast
qed

lemma join_chunks_eq:
  assumes "validate_inbound_set s = Inr ()"
  shows "join_chunks s = (let n = is_expected_source_len s div 32 in
    if \<forall>i. 0 \<le> i \<and> i < n \<longrightarrow> chunks_map s i \<noteq> None then Some (concat (map (\<lambda>i. the (chunks_map s i)) [0..n - 1])) else None)"
proof -
  have "map_of (rev (map (\<lambda>c. (ic_index c, ic_payload c)) (is_chunks s))) = chunks_map s"
    unfolding chunks_map_def
    by (subst map_of_inject_set)
      (use inbound_indices(1)[OF assms] in \<open>auto simp: comp_def rev_map[symmetric]\<close>)
  then show ?thesis by (auto simp: join_chunks_def Let_def CW_def list_all_iff)
qed

section \<open>Reassembling a source\<close>

lemma update_first_find: "List.find P xs = Some x \<Longrightarrow> P y \<Longrightarrow> List.find P (update_first P y xs) = Some y"
  by (induction xs) (auto split: if_splits)

lemma update_first_map: "List.find P xs = Some x \<Longrightarrow> f y = f x \<Longrightarrow> map f (update_first P y xs) = map f xs"
  by (induction xs) (auto split: if_splits)

lemma set_update_first: "set (update_first P y xs) \<subseteq> insert y (set xs)"
  by (induction xs) auto

text \<open>What a state knows of one source: the payloads of the set under the source's key.\<close>

definition set_at :: "rvfb1_state \<Rightarrow> int \<times> int \<times> int \<Rightarrow> inbound_set option" where
  "set_at st key = List.find (\<lambda>s. is_key s = key) (fs_inbound_sets st)"

definition sets_ok :: "rvfb1_state \<Rightarrow> bool" where
  "sets_ok st \<longleftrightarrow> sorted_wrt (<) (map is_key (fs_inbound_sets st)) \<and>
     (\<forall>s \<in> set (fs_inbound_sets st). validate_inbound_set s = Inr ())"

definition known_chunks :: "rvfb1_state \<Rightarrow> int \<times> int \<times> int \<Rightarrow> int \<Rightarrow> bytes option" where
  "known_chunks st key = (case set_at st key of None \<Rightarrow> (\<lambda>_. None) | Some s \<Rightarrow> chunks_map s)"

lemma find_sorted_key:
  assumes "List.find (\<lambda>s. is_key s = key) sets = None" "is_key x = key"
  shows "List.find (\<lambda>s. is_key s = key) (sort_key is_key (sets @ [x])) = Some x"
proof -
  have none: "\<forall>s \<in> set sets. is_key s \<noteq> key" using assms(1) by (auto simp: find_None_iff)
  have "List.find (\<lambda>s. is_key s = key) (sort_key is_key (sets @ [x])) \<noteq> None"
    using assms(2) by (auto simp: find_None_iff)
  then obtain s where s: "List.find (\<lambda>s. is_key s = key) (sort_key is_key (sets @ [x])) = Some s" by blast
  then have "s \<in> set (sets @ [x]) \<and> is_key s = key" using find_Some_iff_mem[OF s] by simp
  then have "s = x" using none by auto
  with s show ?thesis by simp
qed

lemma empty_set_valid: "empty_inbound_set d e k = Inr s \<Longrightarrow> d \<in> {0, 1} \<Longrightarrow>
    validate_inbound_set s = Inr () \<and> is_key s = (d, e, k) \<and> chunks_map s = (\<lambda>_. None)"
proof -
  assume a: "empty_inbound_set d e k = Inr s" "d \<in> {0, 1}"
  have "bitmap_get (zeros 8) i \<noteq> Inr True" for i
    by (simp add: bitmap_get_def Let_def zeros_def)
  with a show ?thesis
    by (auto simp: empty_inbound_set_def validate_inbound_iff is_key_def chunks_map_def chunk_bit_def split: option.splits)
qed

lemma sorted_insert_key:
  assumes "sorted_wrt (<) (map is_key sets)" "is_key x \<notin> is_key ` set sets"
  shows "sorted_wrt (<) (map is_key (sort_key is_key (sets @ [x])))"
proof -
  have "distinct (map is_key (sets @ [x]))" using assms by (simp add: strict_sorted_iff)
  then have "distinct (map is_key (sort_key is_key (sets @ [x])))"
    by (metis distinct_map distinct_sort set_sort)
  then show ?thesis by (simp add: strict_sorted_iff)
qed

text \<open>
  One frame: either its index is known with another payload and it is refused, or the set's map is
  extended at its index, the sets stay valid and sorted, and the source comes back as soon as every
  index below the kind's number of chunks is known.
\<close>

lemma insert_systematic_spec:
  assumes ok: "sets_ok st" and d: "d \<in> {0, 1}" and k: "SOURCE_LENGTHS k = Some len"
    and i: "0 \<le> bc_index fr" "bc_index fr \<le> 63" and p: "length (bc_payload fr) = 32"
    and key: "key = (d, bc_epoch fr, k)"
  shows "if known_chunks st key (bc_index fr) \<notin> {None, Some (bc_payload fr)}
    then insert_systematic_frame st d fr k = Inl (ValueError ''conflicting inbound chunk'')
    else \<exists>st' r. insert_systematic_frame st d fr k = Inr (st', r) \<and> sets_ok st' \<and>
      st' = st\<lparr>fs_inbound_sets := fs_inbound_sets st'\<rparr> \<and>
      known_chunks st' key = (known_chunks st key)(bc_index fr \<mapsto> bc_payload fr) \<and>
      r = (if \<forall>i. 0 \<le> i \<and> i < len div 32 \<longrightarrow> known_chunks st' key i \<noteq> None
           then Some (concat (map (\<lambda>i. the (known_chunks st' key i)) [0..len div 32 - 1])) else None)"
proof -
  let ?found = "\<lambda>s. is_key s = key"
  obtain inb sets where start: "(case List.find ?found (fs_inbound_sets st) of
        Some inbound \<Rightarrow> Inr (inbound, fs_inbound_sets st)
      | None \<Rightarrow> bindE (empty_inbound_set d (bc_epoch fr) k) (\<lambda>inbound.
          Inr (inbound, sort_key is_key (fs_inbound_sets st @ [inbound])))) = Inr (inb, sets)"
    and inb: "List.find ?found sets = Some inb" "validate_inbound_set inb = Inr ()" "is_key inb = key"
      "chunks_map inb = known_chunks st key"
    and sets: "sorted_wrt (<) (map is_key sets)" "\<forall>s \<in> set sets. validate_inbound_set s = Inr ()"
  proof (cases "List.find ?found (fs_inbound_sets st)")
    case (Some s)
    then show ?thesis
      using that[of s "fs_inbound_sets st"] ok find_Some_iff_mem[OF Some]
      by (simp add: sets_ok_def known_chunks_def set_at_def)
  next
    case None
    obtain x where x: "empty_inbound_set d (bc_epoch fr) k = Inr x" using k by (simp add: empty_inbound_set_def)
    note xv = empty_set_valid[OF x d]
    have "is_key x \<notin> is_key ` set (fs_inbound_sets st)" using None xv key by (auto simp: find_None_iff)
    then show ?thesis
      using that[of x "sort_key is_key (fs_inbound_sets st @ [x])"] ok None x xv key
        find_sorted_key[OF None] sorted_insert_key[of "fs_inbound_sets st" x]
      by (simp add: sets_ok_def known_chunks_def set_at_def)
  qed
  have kk: "is_source_kind inb = k" using inb(3) key by (simp add: is_key_def)
  then have contract: "is_expected_source_len inb = len" "is_max_index inb = 63" "length (is_bitmap inb) = 8"
    using inb(2) k by (simp_all add: validate_inbound_iff)
  have eq: "insert_systematic_frame st d fr k = bindE (insert_chunk inb fr) (\<lambda>inbound.
      Inr (st\<lparr>fs_inbound_sets := update_first ?found inbound sets\<rparr>, join_chunks inbound))"
    using start contract k by (simp add: insert_systematic_frame_def key[symmetric])
  note ins = insert_chunk_spec[OF inb(2) i p, unfolded inb(4)]
  have fin: "\<exists>st' r. insert_systematic_frame st d fr k = Inr (st', r) \<and> sets_ok st' \<and>
      st' = st\<lparr>fs_inbound_sets := fs_inbound_sets st'\<rparr> \<and>
      known_chunks st' key = (known_chunks st key)(bc_index fr \<mapsto> bc_payload fr) \<and>
      r = (if \<forall>i. 0 \<le> i \<and> i < len div 32 \<longrightarrow> known_chunks st' key i \<noteq> None
           then Some (concat (map (\<lambda>i. the (known_chunks st' key i)) [0..len div 32 - 1])) else None)"
    if s': "insert_chunk inb fr = Inr s'" "validate_inbound_set s' = Inr ()" "is_key s' = key"
      "chunks_map s' = (known_chunks st key)(bc_index fr \<mapsto> bc_payload fr)" for s'
  proof -
    let ?st = "st\<lparr>fs_inbound_sets := update_first ?found s' sets\<rparr>"
    have "sets_ok ?st"
      using sets s' inb update_first_map[OF inb(1), of is_key s'] set_update_first[of ?found s' sets]
      by (auto simp: sets_ok_def)
    moreover have kc: "known_chunks ?st key = chunks_map s'"
      using update_first_find[OF inb(1), of s'] s'(3) by (simp add: known_chunks_def set_at_def)
    moreover have "is_expected_source_len s' = len"
      using s'(2,3) key k by (simp add: validate_inbound_iff is_key_def)
    ultimately show ?thesis
      using eq s' join_chunks_eq[OF s'(2)] by (auto simp: Let_def)
  qed
  show ?thesis
  proof (cases "known_chunks st key (bc_index fr)")
    case None
    then obtain s' where "insert_chunk inb fr = Inr s'" "validate_inbound_set s' = Inr ()" "is_key s' = is_key inb"
      "chunks_map s' = (known_chunks st key)(bc_index fr \<mapsto> bc_payload fr)" using ins by auto
    from fin[OF this(1,2) _ this(4)] this(3) inb(3) None show ?thesis by simp
  next
    case (Some p)
    show ?thesis
    proof (cases "p = bc_payload fr")
      case True
      then have "(known_chunks st key)(bc_index fr \<mapsto> bc_payload fr) = known_chunks st key" using Some by auto
      then show ?thesis using fin[of inb] ins Some True inb by simp
    next
      case False
      then show ?thesis using ins Some eq by simp
    qed
  qed
qed

section \<open>Any order\<close>

primrec insert_frames :: "rvfb1_state \<Rightarrow> int \<Rightarrow> int \<Rightarrow> rvbc1 list \<Rightarrow> bytes option \<Rightarrow> (rvfb1_state \<times> bytes option) res" where
  "insert_frames st d k [] acc = Inr (st, acc)"
| "insert_frames st d k (fr # frs) acc =
     bindE (insert_systematic_frame st d fr k) (\<lambda>(st, r). insert_frames st d k frs r)"

lemma upto_int_upt: "[0..int n - 1] = map int [0..<n]"
proof (induction n)
  case (Suc n)
  have "[0..int (Suc n) - 1] = [0..int n - 1] @ [int n]"
    using upto_rec2[of 0 "int n"] by simp
  with Suc.IH show ?case by simp
qed simp

text \<open>The frames a sender cuts from a source, by index.\<close>

definition chunk_frame :: "int \<Rightarrow> int \<Rightarrow> bytes \<Rightarrow> nat \<Rightarrow> rvbc1" where
  "chunk_frame e t source i = \<lparr>bc_epoch = e, bc_chunk_type = t, bc_index = int i,
     bc_payload = take CW (drop (i * CW) source), bc_binding = zeros 32\<rparr>"

definition holds_source :: "rvfb1_state \<Rightarrow> int \<times> int \<times> int \<Rightarrow> bytes \<Rightarrow> nat set \<Rightarrow> bool" where
  "holds_source st key source D \<longleftrightarrow> sets_ok st \<and>
     known_chunks st key = (\<lambda>i. if 0 \<le> i \<and> nat i \<in> D then Some (take CW (drop (nat i * CW) source)) else None)"

lemma insert_frames_spec:
  assumes "holds_source st (d, e, k) source D" "d \<in> {0, 1}" "SOURCE_LENGTHS k = Some (int (length source))"
    and "length source = n * 32" "n \<le> 64" "set order \<subseteq> {..<n}" "D \<subseteq> {..<n}"
    and "acc = (if {..<n} \<subseteq> D then Some source else None)"
  shows "\<exists>st'. insert_frames st d k (map (chunk_frame e t source) order) acc =
      Inr (st', if {..<n} \<subseteq> D \<union> set order then Some source else None) \<and>
    holds_source st' (d, e, k) source (D \<union> set order)"
  using assms
proof (induction order arbitrary: st D acc)
  case (Cons i order)
  let ?fr = "chunk_frame e t source i" and ?key = "(d, e, k)"
  have i: "i < n" using Cons.prems(6) by simp
  have "i * 32 + 32 \<le> n * 32" using i by simp
  then have p: "length (take CW (drop (i * CW) source)) = 32" using Cons.prems(4) by (simp add: CW_def)
  have kn: "known_chunks st ?key = (\<lambda>i. if 0 \<le> i \<and> nat i \<in> D then Some (take CW (drop (nat i * CW) source)) else None)"
    and ok: "sets_ok st" using Cons.prems(1) by (simp_all add: holds_source_def)
  obtain st' r where st': "insert_systematic_frame st d ?fr k = Inr (st', r)" "sets_ok st'"
    "known_chunks st' ?key = (known_chunks st ?key)(int i \<mapsto> take CW (drop (i * CW) source))"
    and r: "r = (if \<forall>i. 0 \<le> i \<and> i < int (length source) div 32 \<longrightarrow> known_chunks st' ?key i \<noteq> None
        then Some (concat (map (\<lambda>i. the (known_chunks st' ?key i)) [0..int (length source) div 32 - 1])) else None)"
  proof -
    have fr: "0 \<le> bc_index ?fr" "bc_index ?fr \<le> 63" "length (bc_payload ?fr) = 32" "?key = (d, bc_epoch ?fr, k)"
      using i p Cons.prems(5) by (simp_all add: chunk_frame_def)
    have "\<not> known_chunks st ?key (bc_index ?fr) \<notin> {None, Some (bc_payload ?fr)}"
      by (simp add: kn chunk_frame_def)
    with insert_systematic_spec[OF ok Cons.prems(2,3) fr] obtain st' r where
      "insert_systematic_frame st d ?fr k = Inr (st', r)" "sets_ok st'"
      "known_chunks st' ?key = (known_chunks st ?key)(bc_index ?fr \<mapsto> bc_payload ?fr)"
      "r = (if \<forall>i. 0 \<le> i \<and> i < int (length source) div 32 \<longrightarrow> known_chunks st' ?key i \<noteq> None
        then Some (concat (map (\<lambda>i. the (known_chunks st' ?key i)) [0..int (length source) div 32 - 1])) else None)"
      by (simp only: if_False) (elim exE conjE, rule that, assumption+)
    then show ?thesis using that by (simp add: chunk_frame_def)
  qed
  have kn': "known_chunks st' ?key =
      (\<lambda>j. if 0 \<le> j \<and> nat j \<in> insert i D then Some (take CW (drop (nat j * CW) source)) else None)"
    unfolding st'(3) kn by (auto simp: fun_eq_iff)
  have n: "int (length source) div 32 = int n" using Cons.prems(4) by simp
  have "(\<forall>j. 0 \<le> j \<and> j < int n \<longrightarrow> known_chunks st' ?key j \<noteq> None) \<longleftrightarrow> {..<n} \<subseteq> insert i D"
  proof
    assume a: "\<forall>j. 0 \<le> j \<and> j < int n \<longrightarrow> known_chunks st' ?key j \<noteq> None"
    show "{..<n} \<subseteq> insert i D"
    proof
      fix j assume "j \<in> {..<n}"
      then show "j \<in> insert i D" using a[rule_format, of "int j"] by (simp add: kn' split: if_splits)
    qed
  next
    assume sub: "{..<n} \<subseteq> insert i D"
    have "nat j \<in> insert i D" if "0 \<le> j" "j < int n" for j
      using that sub by (simp add: subset_iff)
    then show "\<forall>j. 0 \<le> j \<and> j < int n \<longrightarrow> known_chunks st' ?key j \<noteq> None" by (auto simp: kn')
  qed
  moreover have "concat (map (\<lambda>j. the (known_chunks st' ?key j)) [0..int n - 1]) = source" if "{..<n} \<subseteq> insert i D"
  proof -
    have "[0..int n - 1] = map int [0..<n]"
      by (rule upto_int_upt)
    then have "concat (map (\<lambda>j. the (known_chunks st' ?key j)) [0..int n - 1]) =
        concat (map (\<lambda>j. take 32 (drop (j * 32) source)) [0..<n])"
      using that by (auto simp: kn' CW_def subset_iff intro!: arg_cong[of _ _ concat])
    then show ?thesis using systematic_chunks_join[OF Cons.prems(4)] by simp
  qed
  ultimately have r': "r = (if {..<n} \<subseteq> insert i D then Some source else None)"
    using r n by simp
  have h: "holds_source st' ?key source (insert i D)" using st'(2) kn' by (simp add: holds_source_def)
  have "\<exists>st''. insert_frames st' d k (map (chunk_frame e t source) order) r =
      Inr (st'', if {..<n} \<subseteq> insert i D \<union> set order then Some source else None) \<and>
    holds_source st'' ?key source (insert i D \<union> set order)"
    using Cons.prems(6,7) i by (intro Cons.IH[OF h Cons.prems(2-5) _ _ r']) auto
  then show ?case using st'(1) by simp
qed simp

text \<open>
  C25: The systematic chunks of a source reassemble in any order. Starting without the source's set,
  inserting the chunks of a source of the kind's length in any order, any of them repeatedly, never
  fails, keeps every inbound set valid and returns the source exactly when the last missing chunk
  has arrived.
\<close>

theorem systematic_any_order:
  assumes "sets_ok st" "known_chunks st (d, e, k) = (\<lambda>_. None)" "d \<in> {0, 1}"
    and "SOURCE_LENGTHS k = Some (int (length source))" "set order \<subseteq> {..<length source div 32}"
  shows "\<exists>st'. insert_frames st d k (map (chunk_frame e t source) order) None =
      Inr (st', if {..<length source div 32} \<subseteq> set order then Some source else None) \<and> sets_ok st'"
proof -
  have len: "length source = (length source div 32) * 32" "length source div 32 \<le> 64" "0 < length source div 32"
    using assms(4) by (auto simp: SOURCE_LENGTHS_def step_consts split: if_splits)
  have "holds_source st (d, e, k) source {}" using assms(1,2) by (simp add: holds_source_def)
  from insert_frames_spec[OF this assms(3,4) len(1,2) assms(5), of None t] len(3)
  obtain st' where "insert_frames st d k (map (chunk_frame e t source) order) None =
      Inr (st', if {..<length source div 32} \<subseteq> {} \<union> set order then Some source else None)"
    "holds_source st' (d, e, k) source ({} \<union> set order)"
    by (auto simp: lessThan_empty_iff)
  then show ?thesis by (simp add: holds_source_def)
qed

definition example_state :: rvfb1_state where
  "example_state = \<lparr>fs_prefix = \<lparr>fp_session_id = replicate 32 7, fp_role = 1, fp_generation = 3, fp_agent = 5,
       fp_terminal_reason = 0, fp_auth_root = replicate 32 8, fp_auth_mac_key = replicate 32 9,
       fp_agent_epoch = 1, fp_send_epoch = 0, fp_recv_epoch = 0, fp_flags = 0, fp_pending_phase = 0,
       fp_pending_transition_id = zeros 32, fp_pending_before_digest = zeros 32,
       fp_pending_output_digest = zeros 32, fp_pending_execution_digest = zeros 32\<rparr>,
     fs_inbound_sets = [], fs_active_send = None, fs_objects = [], fs_replays = [], fs_tlvs = [],
     fs_tr_bytes = RVFT1_MAGIC\<rparr>"

lemma systematic_any_order_witness:
  "\<exists>st'. insert_frames example_state 0 1 (map (chunk_frame 1 1 (replicate 96 5)) [2, 0, 2, 1]) None =
     Inr (st', Some (replicate 96 5)) \<and> sets_ok st'"
proof -
  have o: "{..<length (replicate 96 (5 :: byte)) div 32} \<subseteq> set [2, 0, 2, 1]" by auto
  have "sets_ok example_state" "known_chunks example_state (0, 1, 1) = (\<lambda>_. None)" "(0::int) \<in> {0, 1}"
    "SOURCE_LENGTHS 1 = Some (int (length (replicate 96 (5 :: byte))))"
    "set [2, 0, 2, 1] \<subseteq> {..<length (replicate 96 (5 :: byte)) div 32}"
    by (auto simp: sets_ok_def known_chunks_def set_at_def example_state_def SOURCE_LENGTHS_def step_consts)
  from systematic_any_order[OF this, of 1] o show ?thesis by simp
qed

end
