(* ===== verification/BraidPipeline.thy ===== *)
theory BraidPipeline
  imports BraidTransition BraidChunks
begin

text \<open>
  What \<open>transition\<close> and \<open>transition_prepare\<close> of \<open>full_braid_transition.py\<close> guarantee: every accepted
  transition refines the abstract agent and epoch machine and keeps the session; forged frames are
  refused before any step; the sender's first header chunk is taken by its peer; and the prepared
  journal is well formed, locks the state until it is cleared and cannot be replayed.
\<close>

section \<open>Runs of transitions\<close>

inductive transition_run :: "crypto \<Rightarrow> bytes \<Rightarrow> bytes \<Rightarrow> bool" for c where
  stay: "transition_run c sb sb"
| step: "transition_run c sb sb' \<Longrightarrow> transition c sb' ib eb kg pm = Inr r \<Longrightarrow>
    transition_run c sb (tn_candidate_bytes r)"

lemma epoch_step_bounds: "epoch_step op v v' \<Longrightarrow> ev_send v < ev_epoch v \<and> ev_recv v < ev_epoch v \<Longrightarrow>
    ev_epoch v \<le> ev_epoch v' \<and> ev_send v' < ev_epoch v' \<and> ev_recv v' < ev_epoch v'"
  by (erule epoch_stepE) auto

lemma same_session_trans: "same_session a b \<Longrightarrow> same_session b d \<Longrightarrow> same_session a d"
  by (simp add: same_session_def Let_def)

lemma same_session_refl [simp]: "same_session a a"
  by (simp add: same_session_def)

lemma transition_run_inv:
  assumes "transition_run c sb sb'" "decode_rvfb1 sb = Inr st"
    and "ev_send (view st) < ev_epoch (view st) \<and> ev_recv (view st) < ev_epoch (view st)"
  shows "\<exists>st'. decode_rvfb1 sb' = Inr st' \<and> same_session st st' \<and> ev_epoch (view st) \<le> ev_epoch (view st') \<and>
    ev_send (view st') < ev_epoch (view st') \<and> ev_recv (view st') < ev_epoch (view st')"
  using assms
proof (induction rule: transition_run.induct)
  case (step sb sb' ib eb kg pm r)
  then obtain st1 where st1: "decode_rvfb1 sb' = Inr st1" "same_session st st1"
    "ev_epoch (view st) \<le> ev_epoch (view st1)"
    "ev_send (view st1) < ev_epoch (view st1) \<and> ev_recv (view st1) < ev_epoch (view st1)" by blast
  obtain before inp env cand where t: "inputs_ok sb' ib eb before inp env"
    "decode_rvfb1 (tn_candidate_bytes r) = Inr cand" "same_session before cand"
    "epoch_step (bi_op inp) (view before) (view cand)"
    using transition_spec[OF step.hyps(2)] by metis
  have "before = st1" using inputs_ok_decode[OF t(1)] st1(1) by simp
  with t(2-4) st1(2-4) epoch_step_bounds[of "bi_op inp" "view st1" "view cand"] same_session_trans
  show ?case by (intro exI[of _ cand]) auto
qed (simp add: view_def)

section \<open>Concrete inputs\<close>

definition plain_receive :: "int \<Rightarrow> bytes \<Rightarrow> rvbi1" where
  "plain_receive d f = \<lparr>bi_op = 1, bi_direction = d, bi_ch = None, bi_expected_ch = None,
     bi_object_digest = Some (zeros 32), bi_frame = Some f, bi_mutation = no_aead\<rparr>"

lemma plain_receive_canonical:
  assumes "wf_frame f" "byte_fits d"
  shows "decode_rvbi1 (rvbi1_wire (plain_receive d f)) = Inr (plain_receive d f) \<and>
    encode_rvbi1 (plain_receive d f) = Inr (rvbi1_wire (plain_receive d f))"
proof -
  have fit: "rvbm1_fields_fit no_aead" by (simp add: rvbm1_fields_fit_def no_aead_def)
  have "rvbi1_fields_fit (plain_receive d f)"
    using assms fit by (simp add: rvbi1_fields_fit_def plain_receive_def validate_rvbi1_contract_def wire_consts
        no_aead_def validate_rvbm1_contract_def)
  then show ?thesis
    using fit assms(2) encode_rvbi1_iff[of "plain_receive d f"] decode_rvbi1_wire
    by (simp add: plain_receive_def)
qed

lemma default_env_canonical: "uint_fits 8 t \<Longrightarrow>
    decode_rvbe1 (rvbe1_wire (default_caps t)) = Inr (default_caps t) \<and>
    encode_rvbe1 (default_caps t) = Inr (rvbe1_wire (default_caps t))"
proof -
  assume "uint_fits 8 t"
  then have "rvbe1_fields_fit (default_caps t)"
    by (simp add: rvbe1_fields_fit_def default_caps_def validate_rvbe1_caps_iff wire_consts uint_fits_def)
  then show ?thesis
    using decode_rvbe1_wire encode_rvbe1_iff[of "default_caps t"] by (simp add: default_caps_def)
qed

text \<open>Bob waits for Alice's header: one empty set for direction A to B of epoch 1.\<close>

definition example_bob :: rvfb1_state where
  "example_bob = example_state\<lparr>fs_inbound_sets := [\<lparr>is_direction = 0, is_epoch = 1, is_source_kind = 1,
     is_expected_source_len = 96, is_max_index = 63, is_bitmap = zeros 8, is_chunks = []\<rparr>]\<rparr>"

lemma example_bob_valid: "wf_rvfb1 example_bob"
proof -
  have "empty_inbound_set 0 1 1 = Inr (hd (fs_inbound_sets example_bob))"
    by (simp add: empty_inbound_set_def example_bob_def SOURCE_LENGTHS_def step_consts)
  then have "validate_inbound_set (hd (fs_inbound_sets example_bob)) = Inr ()"
    using empty_set_valid by simp
  then have "validate_state example_bob = Inr ()"
    by (simp add: validate_state_iff) (simp add: example_bob_def example_state_def validate_tlvs_for_agent_def
        TLV_MATRIX_def TLV_MATRIX_rows_def validate_active_send_def)
  moreover have "state_widths example_bob"
    by (simp add: state_widths_def example_bob_def example_state_def wf_prefix_def wf_inbound_def wf_active_def
        uint_fits_def byte_fits_def)
  ultimately show ?thesis by (simp add: wf_rvfb1_def)
qed

definition example_frame :: "byte \<Rightarrow> rvbc1" where
  "example_frame w = \<lparr>bc_epoch = 1, bc_chunk_type = 1, bc_index = 0, bc_payload = replicate 32 5,
     bc_binding = sha256 (binding_preimage 0 1 1 0 (replicate 32 w) (replicate 32 7))\<rparr>"

lemma bob_inputs_ok:
  assumes "wf_frame f"
  shows "inputs_ok (rvfb1_wire example_bob) (rvbi1_wire (plain_receive 0 f)) (rvbe1_wire (default_caps 0))
    example_bob (plain_receive 0 f) (default_caps 0)"
  using plain_receive_canonical[OF assms, of 0] default_env_canonical[of 0] example_bob_valid
  by (simp add: inputs_ok_def encode_rvfb1_iff uint_fits_def)
    (simp add: example_bob_def example_state_def plain_receive_def validate_role_mode_def state_consts wire_consts tr_consts)

lemma example_inputs_ok:
  "inputs_ok (rvfb1_wire example_bob) (rvbi1_wire (plain_receive 0 (rvbc1_wire (example_frame w))))
     (rvbe1_wire (default_caps 0)) example_bob (plain_receive 0 (rvbc1_wire (example_frame w))) (default_caps 0)"
proof (rule bob_inputs_ok)
  have "wf_rvbc1 (example_frame w)" by (simp add: wf_rvbc1_def example_frame_def uint_fits_def byte_fits_def)
  then show "wf_frame (rvbc1_wire (example_frame w))" by (auto simp: wf_frame_def)
qed

lemma example_frame_decodes: "decode_rvbc1 (rvbc1_wire (example_frame w)) = Inr (example_frame w)"
  by (rule decode_rvbc1_wire) (simp add: wf_rvbc1_def example_frame_def uint_fits_def byte_fits_def)

section \<open>A header chunk is taken\<close>

lemma hdr_receive_accepted:
  assumes ok: "inputs_ok sb ib eb B inp env" and op: "bi_op inp = OP_RECEIVE" and f: "bi_frame inp = Some f"
    and fr: "frame_accepted f (bi_direction inp) (fp_session_id (fs_prefix B)) fr" "bc_chunk_type fr = 1"
      "bc_epoch fr = fp_agent_epoch (fs_prefix B)"
    and B: "fp_agent (fs_prefix B) = AGENT_NO_HEADER_RECEIVED" "1 \<le> fp_agent_epoch (fs_prefix B)"
      "fs_inbound_sets B = [s]" "is_source_kind s = SOURCE_KIND_HDR" "is_chunks s = []"
  shows "\<exists>r B'. transition c sb ib eb kg pm = Inr r \<and> decode_rvfb1 (tn_candidate_bytes r) = Inr B' \<and>
    tn_frame_bytes r = None \<and> known_chunks B' (is_key s) = [bc_index fr \<mapsto> bc_payload fr] \<and>
    B' = B\<lparr>fs_inbound_sets := fs_inbound_sets B',
           fs_prefix := (fs_prefix B)\<lparr>fp_recv_epoch := fp_agent_epoch (fs_prefix B) - 1\<rparr>\<rparr>"
proof -
  have wf: "wf_rvfb1 B" using ok by (simp add: inputs_ok_def encode_rvfb1_iff)
  have wfr: "wf_rvbc1 fr" using fr(1) decode_rvbc1_dest by (auto simp: frame_accepted_def)
  have ix: "0 \<le> bc_index fr" "bc_index fr \<le> 63" "length (bc_payload fr) = 32"
    using fr wfr by (auto simp: frame_accepted_def validate_chunk_contract_iff wf_rvbc1_def uint_fits_def)
  have vs: "validate_inbound_set s = Inr ()" using wf B(3) by (simp add: wf_rvfb1_def validate_state_iff)
  have len: "length (is_bitmap s) = 8" using vs by (simp add: validate_inbound_iff)
  obtain bm where bm: "bitmap_set (is_bitmap s) (bc_index fr) = Inr bm" using bitmap_set_in[OF len ix(1)] ix(2) by auto
  let ?s = "s\<lparr>is_bitmap := bm, is_chunks := [\<lparr>ic_index = bc_index fr, ic_payload = bc_payload fr\<rparr>]\<rparr>"
  have "insert_chunk s fr = Inr ?s" using B(5) bm by (simp add: insert_chunk_def)
  moreover have none: "chunks_map s (bc_index fr) = None" using B(5) by (simp add: chunks_map_def)
  ultimately have s': "validate_inbound_set ?s = Inr ()" "is_key ?s = is_key s"
    "chunks_map ?s = (chunks_map s)(bc_index fr \<mapsto> bc_payload fr)"
    using insert_chunk_spec[OF vs ix] by auto
  let ?B = "B\<lparr>fs_inbound_sets := [?s], fs_prefix := (fs_prefix B)\<lparr>fp_recv_epoch := fp_agent_epoch (fs_prefix B) - 1\<rparr>\<rparr>"
  have "apply_hdr_receive B fr = Inr ?B"
    using fr B bm by (simp add: apply_hdr_receive_def WIRE_HDR_def Let_def)
  moreover have "decode_and_validate_frame B inp = Inr fr" using f fr(1) by (simp add: decode_and_validate_iff)
  ultimately have br: "transition_branch c B inp env kg pm = Inr (?B, None, None, None, None)"
    using op B(1) ops_apart by (simp add: transition_branch_def transition_receive_def)
  have "validate_state ?B = Inr ()" using wf s' B(3) by (simp add: wf_rvfb1_def validate_state_iff is_key_def)
  moreover have "state_widths ?B"
    using wf B(2,3) ix by (auto simp: wf_rvfb1_def state_widths_def wf_prefix_def wf_inbound_def wf_chunk_def uint_fits_def
        bitmap_set_get[OF len ix(1) _ _ _ bm, of 0])
  ultimately have enc: "encode_rvfb1 ?B = Inr (rvfb1_wire ?B)" by (simp add: encode_rvfb1_iff wf_rvfb1_def)
  have "known_chunks ?B (is_key s) = [bc_index fr \<mapsto> bc_payload fr]"
    using s' B(5) by (simp add: known_chunks_def set_at_def chunks_map_def)
  then show ?thesis
    unfolding transition_ok[OF ok] br using enc by (simp add: rvfb1_decode_iff) (rule exI[of _ ?B], simp)
qed

lemma example_frame_accepted: "frame_accepted (rvbc1_wire (example_frame 5)) 0 (replicate 32 7) (example_frame 5)"
  by (simp add: frame_accepted_def example_frame_decodes verify_frame_binding_iff validate_chunk_contract_iff)
     (simp add: example_frame_def binding_digest_eq_Inr uint_fits_def)

lemma example_accepted: "\<exists>r. transition c (rvfb1_wire example_bob)
    (rvbi1_wire (plain_receive 0 (rvbc1_wire (example_frame 5)))) (rvbe1_wire (default_caps 0)) kg pm = Inr r"
proof -
  let ?s = "hd (fs_inbound_sets example_bob)"
  have B: "fp_agent (fs_prefix example_bob) = AGENT_NO_HEADER_RECEIVED" "1 \<le> fp_agent_epoch (fs_prefix example_bob)"
    "fs_inbound_sets example_bob = [?s]" "is_source_kind ?s = SOURCE_KIND_HDR" "is_chunks ?s = []"
    "fp_session_id (fs_prefix example_bob) = replicate 32 7" "fp_agent_epoch (fs_prefix example_bob) = 1"
    by (simp_all add: example_bob_def example_state_def step_consts)
  have "frame_accepted (rvbc1_wire (example_frame 5)) (bi_direction (plain_receive 0 (rvbc1_wire (example_frame 5))))
      (fp_session_id (fs_prefix example_bob)) (example_frame 5)"
    using example_frame_accepted by (simp add: plain_receive_def B(6))
  from hdr_receive_accepted[OF example_inputs_ok _ _ this _ _ B(1-5)] B(7) show ?thesis
    by (force simp: plain_receive_def OP_RECEIVE_def example_frame_def)
qed

section \<open>A header send is accepted\<close>

lemma keys_unsampled_accepted:
  assumes ok: "inputs_ok sb ib eb A inp env" and op: "bi_op inp = OP_SEND"
    and A: "fp_agent (fs_prefix A) = AGENT_KEYS_UNSAMPLED" "1 \<le> fp_agent_epoch (fs_prefix A)"
    and km: "KeygenMaterial (km_dk km) (km_header km) (km_ek_vector km) = Inr km" "length (be_keygen_seed env) = 64"
  shows "\<exists>r f. transition c sb ib eb (Some km) pm = Inr r \<and> tn_frame_bytes r = Some f"
proof -
  let ?p = "fs_prefix A" and ?d = "bi_direction inp"
  have wf: "wf_rvfb1 A" using ok by (simp add: inputs_ok_def encode_rvfb1_iff)
  then have p: "wf_prefix ?p" by (simp add: wf_rvfb1_def state_widths_def)
  have lens: "length (km_dk km) = 2400" "length (km_header km) = 64" "length (km_ek_vector km) = 1152"
    using km(1) by (auto simp: KeygenMaterial_def split: if_splits)
  obtain auth where auth: "AuthState (fp_auth_root ?p) (fp_auth_mac_key ?p) = Inr auth"
    using p by (auto simp: AuthState_def wf_prefix_def)
  obtain tag where tag: "mac_hdr auth (fp_agent_epoch ?p) (km_header km) = Inr tag"
    using p by (auto simp: mac_hdr_def auth_mac_def bindE_eq_Inr to_bytes_fits wf_prefix_def)
  have len: "length (km_header km @ tag) = 96" using mac_lens(1)[OF tag] lens by simp
  let ?pl = "take 32 (km_header km @ tag)"
  have pl: "systematic_chunk (km_header km @ tag) 0 = Inr ?pl" "length ?pl = 32"
    unfolding systematic_chunk_iff len by (use len in simp_all)
  obtain b where b: "binding_digest ?d (fp_agent_epoch ?p) WIRE_HDR 0 ?pl (fp_session_id ?p) = Inr b"
    using p by (auto simp: binding_digest_eq_Inr wf_prefix_def uint_fits_def)
  have dir: "?d \<in> {0, 1}"
    using ok op by (auto simp: inputs_ok_def validate_role_mode_def Let_def state_consts wire_consts tr_consts split: if_splits)
  let ?fr = "\<lparr>bc_epoch = fp_agent_epoch ?p, bc_chunk_type = WIRE_HDR, bc_index = 0, bc_payload = ?pl, bc_binding = b\<rparr>"
  have "wf_rvbc1 ?fr"
    using p pl(2) digest_lengths(8)[OF b] by (simp add: wf_rvbc1_def wf_prefix_def WIRE_HDR_def byte_fits_def uint_fits_def)
  then have f: "encode_rvbc1 ?fr = Inr (rvbc1_wire ?fr)"
    by (subst encode_rvbc1_iff) (simp_all add: WIRE_HDR_def byte_fits_def)
  let ?src = "km_header km @ tag"
  let ?cand = "A\<lparr>fs_tlvs := [\<lparr>te_tag = 1, te_value = km_dk km\<rparr>, \<lparr>te_tag = 2, te_value = take 32 (km_header km)\<rparr>,
       \<lparr>te_tag = 3, te_value = drop 32 (km_header km)\<rparr>, \<lparr>te_tag = 4, te_value = km_ek_vector km\<rparr>,
       \<lparr>te_tag = 8, te_value = km_header km\<rparr>],
     fs_active_send := Some \<lparr>as_direction = ?d, as_epoch = fp_agent_epoch ?p, as_wire_type = WIRE_HDR,
       as_source_kind = SOURCE_KIND_HDR, as_source_len = int (length ?src), as_source_digest = send_source_digest ?src,
       as_source_bytes = ?src, as_next_spqr_index = 1\<rparr>,
     fs_prefix := ?p\<lparr>fp_agent := AGENT_KEYS_SAMPLED, fp_send_epoch := fp_agent_epoch ?p - 1\<rparr>\<rparr>"
  have cand: "apply_keys_unsampled_send A km ?d = Inr (?cand, rvbc1_wire ?fr)"
    using A(1) auth tag len pl(1) b f by (simp add: apply_keys_unsampled_send_def Let_def L_HDR_def)
  have "validate_tlvs_for_agent 1 (fs_tlvs ?cand) = Inr ()"
    using lens by (simp add: validate_tlvs_for_agent_def TLV_MATRIX_def TLV_MATRIX_rows_def TLV_LENGTHS_def)
  moreover have "validate_active_send (fs_active_send ?cand) = Inr ()"
    using dir by (auto simp: validate_active_send_def tr_consts state_consts require_len_def)
  ultimately have "validate_state ?cand = Inr ()"
    using wf by (simp add: wf_rvfb1_def validate_state_iff AGENT_KEYS_SAMPLED_def)
  moreover have "state_widths ?cand"
    using wf A(2) len lens dir p by (auto simp: wf_rvfb1_def state_widths_def wf_prefix_def wf_active_def wf_tlv_def
        uint_fits_def byte_fits_def step_consts)
  ultimately have "encode_rvfb1 ?cand = Inr (rvfb1_wire ?cand)" by (simp add: encode_rvfb1_iff wf_rvfb1_def)
  moreover have "transition_branch c A inp env (Some km) pm = Inr (?cand, Some (rvbc1_wire ?fr), None, None, None)"
    using op A(1) km(2) cand by (simp add: transition_branch_def transition_send_def)
  ultimately show ?thesis unfolding transition_ok[OF ok] by simp
qed

definition plain_send :: "int \<Rightarrow> rvbi1" where
  "plain_send d = \<lparr>bi_op = 0, bi_direction = d, bi_ch = None, bi_expected_ch = None, bi_object_digest = None,
     bi_frame = None, bi_mutation = no_aead\<rparr>"

definition seed_env :: rvbe1 where
  "seed_env = (default_caps 0)\<lparr>be_keygen_seed := replicate 64 1\<rparr>"

definition example_alice :: rvfb1_state where
  "example_alice = example_state\<lparr>fs_prefix := (fs_prefix example_state)\<lparr>fp_role := 0, fp_agent := 0\<rparr>\<rparr>"

definition example_km :: keygen_material where
  "example_km = \<lparr>km_dk = replicate 2400 1, km_header = replicate 64 2, km_ek_vector = replicate 1152 3\<rparr>"

lemma example_alice_ok:
  "inputs_ok (rvfb1_wire example_alice) (rvbi1_wire (plain_send 0)) (rvbe1_wire seed_env) example_alice (plain_send 0) seed_env"
proof -
  have fit: "rvbm1_fields_fit no_aead" by (simp add: rvbm1_fields_fit_def no_aead_def)
  have "rvbi1_fields_fit (plain_send 0)"
    using fit by (simp add: rvbi1_fields_fit_def plain_send_def validate_rvbi1_contract_def wire_consts
        no_aead_def validate_rvbm1_contract_def)
  then have i: "decode_rvbi1 (rvbi1_wire (plain_send 0)) = Inr (plain_send 0)"
    "encode_rvbi1 (plain_send 0) = Inr (rvbi1_wire (plain_send 0))"
    using fit encode_rvbi1_iff[of "plain_send 0"] decode_rvbi1_wire by (simp_all add: plain_send_def)
  have "rvbe1_fields_fit seed_env"
    by (simp add: rvbe1_fields_fit_def seed_env_def default_caps_def validate_rvbe1_caps_iff wire_consts uint_fits_def)
  then have e: "decode_rvbe1 (rvbe1_wire seed_env) = Inr seed_env" "encode_rvbe1 seed_env = Inr (rvbe1_wire seed_env)"
    using decode_rvbe1_wire encode_rvbe1_iff[of seed_env] by (simp_all add: seed_env_def default_caps_def)
  have "validate_state example_alice = Inr ()"
    by (simp add: validate_state_iff) (simp add: example_alice_def example_state_def validate_tlvs_for_agent_def
        TLV_MATRIX_def TLV_MATRIX_rows_def validate_active_send_def)
  moreover have "state_widths example_alice"
    by (simp add: state_widths_def example_alice_def example_state_def wf_prefix_def wf_active_def uint_fits_def byte_fits_def)
  ultimately have "encode_rvfb1 example_alice = Inr (rvfb1_wire example_alice)"
    by (simp add: wf_rvfb1_def encode_rvfb1_iff)
  with i e show ?thesis
    by (simp add: inputs_ok_def)
      (simp add: example_alice_def example_state_def plain_send_def validate_role_mode_def state_consts wire_consts tr_consts)
qed

lemma example_km_ok: "KeygenMaterial (km_dk example_km) (km_header example_km) (km_ek_vector example_km) = Inr example_km"
  by (simp add: KeygenMaterial_def example_km_def)

lemma example_alice_fields: "bi_op (plain_send 0) = OP_SEND" "fp_agent (fs_prefix example_alice) = AGENT_KEYS_UNSAMPLED"
  "1 \<le> fp_agent_epoch (fs_prefix example_alice)" "length (be_keygen_seed seed_env) = 64"
  by (simp_all add: plain_send_def example_alice_def example_state_def seed_env_def step_consts wire_consts)

section \<open>Correctness of the transition\<close>

text \<open>
  C1: Every accepted transition refines the abstract machine. The state, the input and the environment
  it is given are canonical: each decodes, and encodes back to the very bytes given. No commit is
  pending and the operation suits the role and the direction. The candidate bytes are the canonical
  form of a state that makes one abstract step of agent and epochs and keeps the session's identity,
  objects and replays; a send carries a frame that the peer's checks accept, a receive none; and the
  reported epochs are the candidate's.
\<close>

theorem transition_refines_epochs:
  assumes "transition c sb ib eb kg pm = Inr r"
  shows "\<exists>before inp env cand.
    decode_rvfb1 sb = Inr before \<and> encode_rvfb1 before = Inr sb \<and> fp_pending_phase (fs_prefix before) = 0 \<and>
    decode_rvbi1 ib = Inr inp \<and> encode_rvbi1 inp = Inr ib \<and> decode_rvbe1 eb = Inr env \<and> encode_rvbe1 env = Inr eb \<and>
    validate_role_mode (fp_role (fs_prefix before)) (bi_op inp) (bi_direction inp) = Inr () \<and>
    encode_rvfb1 cand = Inr (tn_candidate_bytes r) \<and> decode_rvfb1 (tn_candidate_bytes r) = Inr cand \<and>
    same_session before cand \<and> epoch_step (bi_op inp) (view before) (view cand) \<and>
    sent_frame_ok before inp (tn_frame_bytes r) \<and>
    tm_sending_epoch (tn_meta r) = fp_send_epoch (fs_prefix cand) \<and>
    tm_receiving_epoch (tn_meta r) = fp_recv_epoch (fs_prefix cand)"
proof -
  obtain before inp env cand where *: "inputs_ok sb ib eb before inp env"
    "decode_rvfb1 (tn_candidate_bytes r) = Inr cand" "same_session before cand"
    "epoch_step (bi_op inp) (view before) (view cand)" "sent_frame_ok before inp (tn_frame_bytes r)"
    "tm_sending_epoch (tn_meta r) = fp_send_epoch (fs_prefix cand)"
    "tm_receiving_epoch (tn_meta r) = fp_recv_epoch (fs_prefix cand)"
    using transition_spec[OF assms] by metis
  then show ?thesis
    using inputs_ok_decode[OF *(1)] by (intro exI[of _ before] exI[of _ inp] exI[of _ env] exI[of _ cand])
      (simp add: inputs_ok_def rvfb1_decode_iff)
qed

lemma transition_refines_epochs_witness:
  "\<exists>r before (inp :: rvbi1) cand. transition example_crypto (rvfb1_wire example_bob)
      (rvbi1_wire (plain_receive 0 (rvbc1_wire (example_frame 5)))) (rvbe1_wire (default_caps 0)) None None = Inr r \<and>
    encode_rvfb1 cand = Inr (tn_candidate_bytes r) \<and> epoch_step (bi_op inp) (view before) (view cand)"
proof -
  obtain r where r: "transition example_crypto (rvfb1_wire example_bob)
      (rvbi1_wire (plain_receive 0 (rvbc1_wire (example_frame 5)))) (rvbe1_wire (default_caps 0)) None None = Inr r"
    using example_accepted by blast
  from transition_refines_epochs[OF r] r show ?thesis
    by (elim exE conjE) (intro exI conjI, assumption+)
qed

text \<open>
  Along every run of accepted transitions the epochs stay ordered: from a state whose sending and
  receiving epochs lie below its agent epoch, every state reached has them below its agent epoch,
  the agent epoch never falls, and the session's identity, generation, objects and replays are kept.
\<close>

theorem transition_run_epochs:
  assumes "transition_run c sb sb'" "decode_rvfb1 sb = Inr st"
    and "fp_send_epoch (fs_prefix st) < fp_agent_epoch (fs_prefix st)"
    and "fp_recv_epoch (fs_prefix st) < fp_agent_epoch (fs_prefix st)"
  shows "\<exists>st'. decode_rvfb1 sb' = Inr st' \<and> same_session st st' \<and>
    fp_agent_epoch (fs_prefix st) \<le> fp_agent_epoch (fs_prefix st') \<and>
    fp_send_epoch (fs_prefix st') < fp_agent_epoch (fs_prefix st') \<and>
    fp_recv_epoch (fs_prefix st') < fp_agent_epoch (fs_prefix st')"
  using transition_run_inv[OF assms(1,2)] assms(3,4) by (simp add: view_def)

lemma transition_run_epochs_witness:
  "\<exists>r st'. transition example_crypto (rvfb1_wire example_bob)
      (rvbi1_wire (plain_receive 0 (rvbc1_wire (example_frame 5)))) (rvbe1_wire (default_caps 0)) None None = Inr r \<and>
    decode_rvfb1 (tn_candidate_bytes r) = Inr st' \<and> fp_recv_epoch (fs_prefix st') < fp_agent_epoch (fs_prefix st')"
proof -
  obtain r where r: "transition example_crypto (rvfb1_wire example_bob)
      (rvbi1_wire (plain_receive 0 (rvbc1_wire (example_frame 5)))) (rvbe1_wire (default_caps 0)) None None = Inr r"
    using example_accepted by blast
  have run: "transition_run example_crypto (rvfb1_wire example_bob) (tn_candidate_bytes r)"
    by (rule transition_run.step[OF transition_run.stay r])
  have dec: "decode_rvfb1 (rvfb1_wire example_bob) = Inr example_bob"
    using example_bob_valid by (rule decode_rvfb1_wire)
  have "fp_send_epoch (fs_prefix example_bob) < fp_agent_epoch (fs_prefix example_bob)"
    "fp_recv_epoch (fs_prefix example_bob) < fp_agent_epoch (fs_prefix example_bob)"
    by (simp_all add: example_bob_def example_state_def)
  from transition_run_epochs[OF run dec this] r show ?thesis by blast
qed

text \<open>
  A frame is checked before anything else happens. Whatever the agent and the material, a
  receive whose frame does not carry the binding digest of its own fields under the session and the
  direction is refused with the binding error, and a wrong chunk shape with the contract error.
\<close>

theorem forged_frame_refused:
  assumes "inputs_ok sb ib eb before inp env" "bi_op inp = OP_RECEIVE" "bi_frame inp = Some f"
    and "decode_rvbc1 f = Inr fr"
    and "binding_digest (bi_direction inp) (bc_epoch fr) (bc_chunk_type fr) (bc_index fr) (bc_payload fr)
      (fp_session_id (fs_prefix before)) \<noteq> Inr (bc_binding fr)"
  shows "transition c sb ib eb kg pm = Inl (ValueError ''binding digest mismatch'')"
proof -
  have "length (fp_session_id (fs_prefix before)) = 32" "wf_rvbc1 fr"
    using assms(1,4) decode_rvbc1_dest
    by (auto simp: inputs_ok_def encode_rvfb1_iff wf_rvfb1_def state_widths_def wf_prefix_def)
  then obtain h where "binding_digest (bi_direction inp) (bc_epoch fr) (bc_chunk_type fr) (bc_index fr) (bc_payload fr)
      (fp_session_id (fs_prefix before)) = Inr h"
    by (auto simp: binding_digest_eq_Inr wf_rvbc1_def)
  then have "decode_and_validate_frame before inp = Inl (ValueError ''binding digest mismatch'')"
    using assms(3-5) by (simp add: decode_and_validate_frame_def verify_frame_binding_def compare_digest_def)
  then show ?thesis
    using ops_apart assms(2) unfolding transition_ok[OF assms(1)]
    by (simp add: transition_branch_def transition_receive_def)
qed

definition forged_frame :: rvbc1 where
  "forged_frame = (example_frame 5)\<lparr>bc_binding := map NOT (bc_binding (example_frame 5))\<rparr>"

lemma forged_frame_refused_witness:
  "transition example_crypto (rvfb1_wire example_bob) (rvbi1_wire (plain_receive 0 (rvbc1_wire forged_frame)))
      (rvbe1_wire (default_caps 0)) None None = Inl (ValueError ''binding digest mismatch'')"
proof -
  have wf: "wf_rvbc1 forged_frame"
    by (simp add: wf_rvbc1_def forged_frame_def example_frame_def uint_fits_def byte_fits_def)
  then have fr: "wf_frame (rvbc1_wire forged_frame)" by (auto simp: wf_frame_def)
  have "map NOT h \<noteq> h" if "length h = 32" for h :: bytes
  proof
    assume "map NOT h = h"
    then have "NOT (hd h) = hd h" using that by (metis list.map_sel(1) list.size(3) zero_neq_numeral)
    then have "bit (NOT (hd h)) 0 = bit (hd h) 0" by (rule arg_cong)
    then show False by (simp add: bit_not_iff)
  qed
  then have "bc_binding forged_frame \<noteq> sha256 (binding_preimage 0 1 1 0 (replicate 32 5) (replicate 32 7))"
    by (simp add: forged_frame_def example_frame_def)
  then show ?thesis
    by (intro forged_frame_refused[OF bob_inputs_ok[OF fr] _ _ decode_rvbc1_wire[OF wf]])
      (auto simp: plain_receive_def OP_RECEIVE_def binding_digest_eq_Inr forged_frame_def example_frame_def
        example_bob_def example_state_def)
qed

text \<open>
  A header send is always possible: with a canonical unsampled state of epoch at least 1, a
  canonical send input, a keygen seed and well-formed keygen material the transition is accepted
  and emits a frame.
\<close>

theorem header_send_accepted:
  assumes "inputs_ok sb ib eb A inp env" "bi_op inp = OP_SEND" "fp_agent (fs_prefix A) = AGENT_KEYS_UNSAMPLED"
    and "1 \<le> fp_agent_epoch (fs_prefix A)" "length (be_keygen_seed env) = 64"
    and "KeygenMaterial (km_dk km) (km_header km) (km_ek_vector km) = Inr km"
  shows "\<exists>r f. transition c sb ib eb (Some km) pm = Inr r \<and> tn_frame_bytes r = Some f"
  by (rule keys_unsampled_accepted[OF assms(1-4,6,5)])

lemma header_send_accepted_witness:
  "\<exists>r f. transition example_crypto (rvfb1_wire example_alice) (rvbi1_wire (plain_send 0)) (rvbe1_wire seed_env)
      (Some example_km) None = Inr r \<and> tn_frame_bytes r = Some f"
  by (rule header_send_accepted[OF example_alice_ok example_alice_fields example_km_ok])

text \<open>
  C24: The first header chunk is delivered. When Alice's accepted send of an unsampled agent is given
  to a peer of the same session and epoch that waits for a header, the peer's transition is accepted
  and its header set then holds chunk 0 of Alice's header.
\<close>

theorem header_chunk_delivered:
  assumes "transition c sbA ibA ebA (Some km) pmA = Inr rA" "tn_frame_bytes rA = Some f"
    and "decode_rvfb1 sbA = Inr A" "fp_agent (fs_prefix A) = AGENT_KEYS_UNSAMPLED" "length (km_header km) = 64"
    and "inputs_ok sbB ibB ebB B (plain_receive (if fp_role (fs_prefix A) = ROLE_ALICE then DIR_A2B else DIR_B2A) f) env"
    and "fp_session_id (fs_prefix B) = fp_session_id (fs_prefix A)" "fp_agent_epoch (fs_prefix B) = fp_agent_epoch (fs_prefix A)"
    and "fp_agent (fs_prefix B) = AGENT_NO_HEADER_RECEIVED" "fs_inbound_sets B = [s]"
    and "is_source_kind s = SOURCE_KIND_HDR" "is_chunks s = []"
  shows "\<exists>rB B'. transition c sbB ibB ebB kg pm = Inr rB \<and> decode_rvfb1 (tn_candidate_bytes rB) = Inr B' \<and>
    known_chunks B' (is_key s) = [0 \<mapsto> take 32 (km_header km)]"
proof -
  obtain before inp envA cand fb ch ct oke where t: "inputs_ok sbA ibA ebA before inp envA"
    "transition_branch c before inp envA (Some km) pmA = Inr (cand, fb, ch, ct, oke)"
    "encode_rvfb1 cand = Inr (tn_candidate_bytes rA)" "tn_frame_bytes rA = fb"
    using transition_accept[OF assms(1)] by metis
  have A: "before = A" using inputs_ok_decode[OF t(1)] assms(3) by simp
  have op: "bi_op inp = OP_SEND"
    using transition_branch_spec[OF t(2)] t(4)[unfolded assms(2)] by (auto simp: sent_frame_ok_def split: option.splits)
  then have "apply_keys_unsampled_send A km (bi_direction inp) = Inr (cand, f)"
    using t(2,4) assms(2,4) A by (auto simp: transition_branch_def transition_send_def bindE_eq_Inr split: if_splits)
  note ks = this
  from keys_unsampled_send_spec[OF ks] obtain fr tag where
    fr: "frame_accepted f (bi_direction inp) (fp_session_id (fs_prefix A)) fr" "bc_epoch fr = fp_agent_epoch (fs_prefix A)"
      "bc_chunk_type fr = 1" "bc_index fr = 0" "bc_payload fr = take 32 (km_header km @ tag)"
    by (elim exE conjE) (rule that)
  have send: "fp_send_epoch (fs_prefix cand) = fp_agent_epoch (fs_prefix A) - 1"
    by (simp add: keys_unsampled_send_prefix[OF ks])
  have dir: "bi_direction inp = (if fp_role (fs_prefix A) = ROLE_ALICE then DIR_A2B else DIR_B2A)"
    using t(1) op A by (auto simp: inputs_ok_def validate_role_mode_def Let_def state_consts wire_consts tr_consts
        split: if_splits)
  have "0 \<le> fp_send_epoch (fs_prefix cand)"
    using t(3) by (simp add: encode_rvfb1_iff wf_rvfb1_def state_widths_def wf_prefix_def uint_fits_def)
  then have ep: "1 \<le> fp_agent_epoch (fs_prefix B)" using send assms(8) by simp
  show ?thesis
    using hdr_receive_accepted[where c = c and kg = kg and pm = pm, OF assms(6) _ _ _ fr(3) _ assms(9) ep assms(10-12)]
      fr assms(5,7,8) dir
    by (auto simp: plain_receive_def OP_RECEIVE_def)
qed


lemma header_chunk_delivered_witness:
  "\<exists>rA f rB B'. transition example_crypto (rvfb1_wire example_alice) (rvbi1_wire (plain_send 0)) (rvbe1_wire seed_env)
      (Some example_km) None = Inr rA \<and> tn_frame_bytes rA = Some f \<and>
    transition example_crypto (rvfb1_wire example_bob) (rvbi1_wire (plain_receive 0 f)) (rvbe1_wire (default_caps 0))
      None None = Inr rB \<and> decode_rvfb1 (tn_candidate_bytes rB) = Inr B' \<and>
    known_chunks B' (0, 1, 1) = [0 \<mapsto> replicate 32 2]"
proof -
  obtain rA f where A: "transition example_crypto (rvfb1_wire example_alice) (rvbi1_wire (plain_send 0))
      (rvbe1_wire seed_env) (Some example_km) None = Inr rA" "tn_frame_bytes rA = Some f"
    using keys_unsampled_accepted[OF example_alice_ok example_alice_fields(1-3) example_km_ok example_alice_fields(4)]
    by blast
  obtain inp before where "sent_frame_ok before inp (tn_frame_bytes rA)" using transition_spec[OF A(1)] by metis
  then obtain fr where "decode_rvbc1 f = Inr fr" using A(2) by (auto simp: sent_frame_ok_def frame_accepted_def)
  then have wf: "wf_frame f" using decode_rvbc1_dest by (auto simp: wf_frame_def)
  note ok = bob_inputs_ok[OF wf]
  have "(if fp_role (fs_prefix example_alice) = ROLE_ALICE then DIR_A2B else DIR_B2A) = 0"
    by (simp add: example_alice_def example_state_def state_consts tr_consts)
  note ok' = ok[folded this]
  have decA: "decode_rvfb1 (rvfb1_wire example_alice) = Inr example_alice"
    using inputs_ok_decode[OF example_alice_ok] .
  let ?s = "hd (fs_inbound_sets example_bob)"
  have h: "length (km_header example_km) = 64" "take 32 (km_header example_km) = replicate 32 2" "is_key ?s = (0, 1, 1)"
    by (simp_all add: example_km_def is_key_def example_bob_def)
  have B: "fp_session_id (fs_prefix example_bob) = fp_session_id (fs_prefix example_alice)"
    "fp_agent_epoch (fs_prefix example_bob) = fp_agent_epoch (fs_prefix example_alice)"
    "fp_agent (fs_prefix example_bob) = AGENT_NO_HEADER_RECEIVED" "fs_inbound_sets example_bob = [?s]"
    "is_source_kind ?s = SOURCE_KIND_HDR" "is_chunks ?s = []"
    by (simp_all add: example_bob_def example_alice_def example_state_def step_consts)
  from header_chunk_delivered[where c = example_crypto and kg = None and pm = None,
      OF A decA example_alice_fields(2) h(1) ok' B] A h(2,3)
  obtain rB B' where "transition example_crypto (rvfb1_wire example_bob) (rvbi1_wire (plain_receive 0 f))
      (rvbe1_wire (default_caps 0)) None None = Inr rB" "decode_rvfb1 (tn_candidate_bytes rB) = Inr B'"
    "known_chunks B' (0, 1, 1) = [0 \<mapsto> replicate 32 2]"
    by (auto simp: \<open>(if fp_role (fs_prefix example_alice) = ROLE_ALICE then DIR_A2B else DIR_B2A) = 0\<close>)
  with A show ?thesis by blast
qed

section \<open>The prepared journal\<close>

lemma distinct_sort_key_map: "distinct (map f (sort_key f xs)) \<longleftrightarrow> distinct (map f xs)"
  by (simp add: distinct_map)

lemma rvbj1_header_length: "encode_rvbj1_header j = Inr h \<Longrightarrow> length h = 366"
  unfolding encode_rvbj1_header_def bindE_eq_Inr
  by (elim exE conjE, simp only: if_Inl_eq_Inr sum.inject RVBJ1_HEADER_LEN_def not_not, elim conjE, hypsubst, assumption)

definition journal_of :: "rvfb1_state \<Rightarrow> bytes \<Rightarrow> bytes \<Rightarrow> bytes \<Rightarrow> int \<Rightarrow> rvfb1_state \<Rightarrow> bytes \<Rightarrow> bytes \<Rightarrow> bool" where
  "journal_of before sb ib eb d cand outputs tid \<longleftrightarrow> (let p = fs_prefix cand; b = fs_prefix before in
     state_digest 1 sb = Inr (fp_pending_before_digest p) \<and>
     execution_digest ib eb = Inr (fp_pending_execution_digest p) \<and>
     fp_pending_output_digest p = output_digest outputs \<and> fp_pending_transition_id p = tid \<and>
     transition_id_digest (fp_session_id b) (fp_role b) d (fp_generation b)
       (fp_pending_execution_digest p) (fp_pending_before_digest p) = Inr tid \<and>
     fp_pending_phase p = 1 \<and> \<not> bit (fp_flags p) 0 \<and> fp_generation p = fp_generation b)"

definition prepared_with :: "rvfb1_state \<Rightarrow> bytes \<Rightarrow> bytes \<Rightarrow> bytes \<Rightarrow> int \<Rightarrow> pipeline_result \<Rightarrow> rvfb1_state \<Rightarrow> replay_record \<Rightarrow> bool" where
  "prepared_with before sb ib eb d r cand rec \<longleftrightarrow> encode_rvfb1 cand = Inr (pr_candidate_bytes r) \<and>
    (\<exists>header. pr_intent_bytes r = header @ pr_candidate_bytes r @ pr_outputs_bytes r \<and> length header = 366) \<and>
    journal_of before sb ib eb d cand (pr_outputs_bytes r) (pl_transition_id (pr_meta r)) \<and>
    (\<exists>pb. encode_rvfb1 (promoted_state cand) = Inr pb) \<and> (\<exists>cb. encode_rvfb1 (cleared_state (promoted_state cand)) = Inr cb) \<and>
    fs_replays cand = sort_key rr_transition_id (fs_replays before @ [rec]) \<and>
    rr_transition_id rec = pl_transition_id (pr_meta r) \<and> rr_output_digest rec = output_digest (pr_outputs_bytes r) \<and>
    rr_output_len rec = int (length (pr_outputs_bytes r))"

lemma prepare_candidate_spec:
  assumes "prepare_candidate before sb cand0 d x input_d object_d outputs t flags oke = Inr r"
    and x: "execution_digest ib eb = Inr x" and same: "same_session before cand0" and gen: "fp_generation (fs_prefix cand0) = fp_generation (fs_prefix before)"
  shows "\<exists>cand rec. prepared_with before sb ib eb d r cand rec \<and> view cand = view cand0"
proof -
  let ?b = "fs_prefix before"
  obtain bd tid where bd: "state_digest 1 sb = Inr bd"
    "transition_id_digest (fp_session_id ?b) (fp_role ?b) d (fp_generation ?b) x bd = Inr tid"
    using assms(1) by (auto simp: prepare_candidate_def bindE_eq_Inr Let_def)
  let ?rec = "\<lparr>rr_transition_id = tid, rr_execution_digest = x, rr_output_digest = output_digest outputs,
      rr_output_len = int (length outputs), rr_flags = flags\<rparr>"
  let ?cand = "cand0\<lparr>fs_replays := sort_key rr_transition_id (fs_replays cand0 @ [?rec]),
      fs_prefix := (fs_prefix cand0)\<lparr>fp_flags := fp_flags (fs_prefix cand0) AND NOT 1, fp_pending_phase := 1,
        fp_pending_transition_id := tid, fp_pending_before_digest := bd,
        fp_pending_output_digest := output_digest outputs, fp_pending_execution_digest := x\<rparr>\<rparr>"
  have "\<exists>cand header pb cb. cand = ?cand \<and> encode_rvfb1 cand = Inr (pr_candidate_bytes r) \<and>
    promoted_and_cleared cand = Inr (pb, cb) \<and> length header = 366 \<and> pr_outputs_bytes r = outputs \<and>
    pr_intent_bytes r = header @ pr_candidate_bytes r @ pr_outputs_bytes r \<and> pl_transition_id (pr_meta r) = tid"
    using assms(1) bd unfolding prepare_candidate_def Let_def
    by (auto simp: bindE_eq_Inr dest: rvbj1_header_length)
  then obtain cand header pb cb where c: "cand = ?cand" and *: "encode_rvfb1 cand = Inr (pr_candidate_bytes r)"
    "promoted_and_cleared cand = Inr (pb, cb)" "length header = 366" "pr_outputs_bytes r = outputs"
    "pr_intent_bytes r = header @ pr_candidate_bytes r @ pr_outputs_bytes r" "pl_transition_id (pr_meta r) = tid"
    by (elim exE conjE) (rule that)
  have "journal_of before sb ib eb d cand outputs tid"
    using bd x gen unfolding c by (simp add: journal_of_def bit_simps)
  moreover have "view cand = view cand0" unfolding c by (simp add: view_def)
  moreover have "fs_replays cand = sort_key rr_transition_id (fs_replays before @ [?rec])"
    using same unfolding c by (simp add: same_session_def Let_def)
  ultimately show ?thesis
    using * by (intro exI[of _ cand] exI[of _ ?rec])
      (auto simp: prepared_with_def promoted_and_cleared_def bindE_eq_Inr Let_def)
qed

lemma transition_prepare_spec:
  assumes "transition_prepare c sb ib eb kg pm = Inr r"
  obtains before inp env cand0 cand rec where "inputs_ok sb ib eb before inp env" "same_session before cand0"
    "epoch_step (bi_op inp) (view before) (view cand)" "prepared_with before sb ib eb (bi_direction inp) r cand rec"
proof -
  obtain t cand0 before inp outputs x object_d clock flags oke where *: "transition c sb ib eb kg pm = Inr t"
    "decode_rvfb1 sb = Inr before" "decode_rvbi1 ib = Inr inp"
    "decode_rvfb1 (tn_candidate_bytes t) = Inr cand0" "execution_digest ib eb = Inr x"
    "prepare_candidate before sb cand0 (bi_direction inp) x (input_digest ib) object_d outputs clock flags oke = Inr r"
    using assms unfolding transition_prepare_def bindE_eq_Inr by (elim exE conjE) (rule that)
  obtain b i e cand1 where t: "inputs_ok sb ib eb b i e" "decode_rvfb1 (tn_candidate_bytes t) = Inr cand1"
    "same_session b cand1" "epoch_step (bi_op i) (view b) (view cand1)"
    using transition_spec[OF *(1)] by metis
  have eq: "b = before" "i = inp" "cand1 = cand0"
    using t(1,2) *(2-4) inputs_ok_decode[OF t(1)] by (simp_all add: inputs_ok_def)
  have "fp_generation (fs_prefix cand0) = fp_generation (fs_prefix before)"
    using t(3) by (simp add: eq same_session_def Let_def)
  from prepare_candidate_spec[OF *(6,5) t(3)[unfolded eq] this] obtain cand rec where
    "prepared_with before sb ib eb (bi_direction inp) r cand rec" "view cand = view cand0" by blast
  then show ?thesis using t(1,3,4) that[of before inp e cand0 cand rec] by (simp add: eq)
qed

text \<open>
  C18: A prepared transition is journaled once. The journal is a 366-byte header, the candidate and
  the outputs; the candidate is canonical, carries the pending digests of exactly these inputs and
  outputs and one new replay record under a transition id that the window did not hold; and its
  promoted and its cleared successor are canonical states too.
\<close>

theorem prepared_journal:
  assumes "transition_prepare c sb ib eb kg pm = Inr r"
  shows "\<exists>before inp cand rec. decode_rvfb1 sb = Inr before \<and> decode_rvbi1 ib = Inr inp \<and>
    prepared_with before sb ib eb (bi_direction inp) r cand rec \<and> epoch_step (bi_op inp) (view before) (view cand) \<and>
    set (fs_replays cand) = insert rec (set (fs_replays before)) \<and>
    pl_transition_id (pr_meta r) \<notin> rr_transition_id ` set (fs_replays before) \<and> length (fs_replays before) < 64"
proof -
  obtain before inp env cand0 cand rec where ok: "inputs_ok sb ib eb before inp env"
    and st: "epoch_step (bi_op inp) (view before) (view cand)"
    and p: "prepared_with before sb ib eb (bi_direction inp) r cand rec"
    by (rule transition_prepare_spec[OF assms])
  from p have rep: "fs_replays cand = sort_key rr_transition_id (fs_replays before @ [rec])"
    "rr_transition_id rec = pl_transition_id (pr_meta r)" and "validate_state cand = Inr ()"
    by (simp_all add: prepared_with_def encode_rvfb1_iff wf_rvfb1_def)
  then have "sorted_wrt (<) (map rr_transition_id (fs_replays cand))" "length (fs_replays cand) \<le> 64"
    by (simp_all add: validate_state_iff)
  then have "rr_transition_id rec \<notin> rr_transition_id ` set (fs_replays before)" "length (fs_replays before) < 64"
    using sorted_wrt_less_distinct[of "map rr_transition_id (fs_replays cand)"] unfolding rep(1) distinct_sort_key_map
    by auto
  moreover have "set (fs_replays cand) = insert rec (set (fs_replays before))" by (auto simp: rep(1))
  moreover have "decode_rvfb1 sb = Inr before" "decode_rvbi1 ib = Inr inp"
    using ok inputs_ok_decode[OF ok] by (simp_all add: inputs_ok_def)
  ultimately show ?thesis using p st rep(2) by (intro exI[of _ before] exI[of _ inp] exI[of _ cand] exI[of _ rec]) simp
qed

text \<open>
  C19: Preparing locks the state. From the candidate of a prepared transition, and from its promoted
  form, every further transition is refused as pending; the cleared form has no pending phase, the
  next generation and the awaiting flag down.
\<close>

theorem prepared_state_locked:
  assumes "transition_prepare c sb ib eb kg pm = Inr r" "decode_rvfb1 (pr_candidate_bytes r) = Inr cand"
  shows "transition c (pr_candidate_bytes r) ib2 eb2 kg2 pm2 = Inl (ValueError ''pending phase'') \<and>
    (\<exists>pb. encode_rvfb1 (promoted_state cand) = Inr pb \<and> transition c pb ib2 eb2 kg2 pm2 = Inl (ValueError ''pending phase'')) \<and>
    (let p = fs_prefix (cleared_state (promoted_state cand)) in
       fp_pending_phase p = 0 \<and> fp_generation p = fp_generation (fs_prefix cand) + 1 \<and> \<not> bit (fp_flags p) 0 \<and>
       fp_pending_transition_id p = zeros 32)"
proof -
  obtain before cand' rec and inp :: rvbi1 where p: "prepared_with before sb ib eb (bi_direction inp) r cand' rec"
    by (rule transition_prepare_spec[OF assms(1)]) (rule that)
  then have eq: "cand' = cand" using assms(2) rvfb1_decode_iff[of "pr_candidate_bytes r" cand'] by (simp add: prepared_with_def)
  from p have ph: "fp_pending_phase (fs_prefix cand) = 1" and pb: "\<exists>pb. encode_rvfb1 (promoted_state cand) = Inr pb"
    by (simp_all add: eq prepared_with_def journal_of_def Let_def)
  have locked: "transition c b ib2 eb2 kg2 pm2 = Inl (ValueError ''pending phase'')"
    if "encode_rvfb1 s = Inr b" "fp_pending_phase (fs_prefix s) \<noteq> 0" for s b
    using that rvfb1_decode_iff[of b s] by (simp add: transition_def)
  have "transition c (pr_candidate_bytes r) ib2 eb2 kg2 pm2 = Inl (ValueError ''pending phase'')"
    using assms(2) ph by (intro locked[of cand]) (simp_all add: rvfb1_decode_iff)
  moreover have "fp_pending_phase (fs_prefix (promoted_state cand)) \<noteq> 0" by (simp add: promoted_state_def)
  moreover have "fp_pending_phase (fs_prefix (cleared_state (promoted_state cand))) = 0"
    "fp_generation (fs_prefix (cleared_state (promoted_state cand))) = fp_generation (fs_prefix cand) + 1"
    "\<not> bit (fp_flags (fs_prefix (cleared_state (promoted_state cand)))) 0"
    "fp_pending_transition_id (fs_prefix (cleared_state (promoted_state cand))) = zeros 32"
    by (simp_all add: promoted_state_def cleared_state_def bit_simps)
  ultimately show ?thesis using pb locked by (auto simp: Let_def)
qed

section \<open>A prepared example\<close>

definition example_next :: rvfb1_state where
  "example_next = example_bob\<lparr>fs_inbound_sets := [\<lparr>is_direction = 0, is_epoch = 1, is_source_kind = 1,
     is_expected_source_len = 96, is_max_index = 63, is_bitmap = 1 # zeros 7,
     is_chunks = [\<lparr>ic_index = 0, ic_payload = replicate 32 5\<rparr>]\<rparr>]\<rparr>"

abbreviation example_input :: bytes where
  "example_input \<equiv> rvbi1_wire (plain_receive 0 (rvbc1_wire (example_frame 5)))"

lemma example_transition:
  "\<exists>t. transition c (rvfb1_wire example_bob) example_input (rvbe1_wire (default_caps 0)) kg pm = Inr t \<and>
     decode_rvfb1 (tn_candidate_bytes t) = Inr example_next \<and> tn_frame_bytes t = None \<and> tm_flags (tn_meta t) = 0 \<and>
     wf_rvfb1 example_next"
proof -
  have "apply_hdr_receive example_bob (example_frame 5) = Inr example_next"
    by (simp add: apply_hdr_receive_def example_bob_def example_state_def example_frame_def example_next_def step_consts
        bitmap_set_def zeros_def numeral_eq_Suc)
  moreover have "decode_and_validate_frame example_bob (plain_receive 0 (rvbc1_wire (example_frame 5))) = Inr (example_frame 5)"
    using example_frame_accepted
    by (auto simp: decode_and_validate_iff) (simp add: plain_receive_def example_bob_def example_state_def)
  ultimately have br: "transition_branch c example_bob (plain_receive 0 (rvbc1_wire (example_frame 5))) (default_caps 0) kg pm =
      Inr (example_next, None, None, None, None)"
    by (simp add: transition_branch_def transition_receive_def)
      (simp add: plain_receive_def wire_consts example_bob_def example_state_def step_consts)
  obtain t where t: "transition c (rvfb1_wire example_bob) example_input (rvbe1_wire (default_caps 0)) kg pm = Inr t"
    using example_accepted by blast
  then have "encode_rvfb1 example_next = Inr (tn_candidate_bytes t) \<and> tn_frame_bytes t = None \<and> tm_flags (tn_meta t) = 0"
    unfolding transition_ok[OF example_inputs_ok] br by (auto simp: bindE_eq_Inr)
  then show ?thesis using t by (auto simp: rvfb1_decode_iff encode_rvfb1_iff)
qed

text \<open>The candidate of the example, for any digests of the right length; it, its promoted and its cleared form are canonical.\<close>

definition example_candidate :: "bytes \<Rightarrow> bytes \<Rightarrow> bytes \<Rightarrow> bytes \<Rightarrow> rvfb1_state" where
  "example_candidate tid bd od x = example_next\<lparr>
     fs_replays := [\<lparr>rr_transition_id = tid, rr_execution_digest = x, rr_output_digest = od, rr_output_len = 14, rr_flags = 0\<rparr>],
     fs_prefix := (fs_prefix example_next)\<lparr>fp_flags := 0, fp_pending_phase := 1, fp_pending_transition_id := tid,
       fp_pending_before_digest := bd, fp_pending_output_digest := od, fp_pending_execution_digest := x\<rparr>\<rparr>"

lemma example_candidate_wf:
  assumes "length tid = 32" "length bd = 32" "length od = 32" "length x = 32"
  shows "wf_rvfb1 (example_candidate tid bd od x)" "wf_rvfb1 (promoted_state (example_candidate tid bd od x))"
    "wf_rvfb1 (cleared_state (promoted_state (example_candidate tid bd od x)))"
    "uint_fits 4 (int (length (rvfb1_wire (example_candidate tid bd od x))))"
proof -
  have nx: "state_widths example_next" "validate_state example_next = Inr ()"
    using example_transition by (auto simp: wf_rvfb1_def)
  have v: "validate_state (example_candidate tid bd od x) = Inr ()"
    using nx(2) assms by (simp add: validate_state_iff) (simp add: example_candidate_def)
  have w: "state_widths (example_candidate tid bd od x)"
    using nx(1) assms by (simp add: state_widths_def wf_prefix_def example_candidate_def wf_replay_def uint_fits_def byte_fits_def)
  show "wf_rvfb1 (example_candidate tid bd od x)" using v w by (simp add: wf_rvfb1_def)
  have flags: "fp_flags (fs_prefix (example_candidate tid bd od x)) = 0" "fp_generation (fs_prefix (example_candidate tid bd od x)) = 3"
    by (simp_all add: example_candidate_def example_next_def example_bob_def example_state_def)
  show "wf_rvfb1 (promoted_state (example_candidate tid bd od x))"
    using v w flags by (simp add: wf_rvfb1_def validate_state_iff promoted_state_def state_widths_def wf_prefix_def
        uint_fits_def byte_fits_def)
  show "wf_rvfb1 (cleared_state (promoted_state (example_candidate tid bd od x)))"
    using v w flags by (simp add: wf_rvfb1_def validate_state_iff promoted_state_def cleared_state_def state_widths_def
        wf_prefix_def uint_fits_def byte_fits_def)
  have "length (prefix_wire (fs_prefix (example_candidate tid bd od x))) = 275"
    using w by (simp add: state_widths_def)
  then show "uint_fits 4 (int (length (rvfb1_wire (example_candidate tid bd od x))))"
    using assms by (simp add: rvfb1_wire_def)
      (simp add: example_candidate_def example_next_def example_bob_def example_state_def capped_wire_def inbound_wire_def
        chunk_wire_def blob_wire_def active_wire_def replay_wire_def uint_fits_def)
qed

lemma example_prepared:
  "\<exists>r. transition_prepare c (rvfb1_wire example_bob) example_input (rvbe1_wire (default_caps 0)) kg pm = Inr r"
proof -
  obtain t where t: "transition c (rvfb1_wire example_bob) example_input (rvbe1_wire (default_caps 0)) kg pm = Inr t"
    "decode_rvfb1 (tn_candidate_bytes t) = Inr example_next" "tn_frame_bytes t = None" "tm_flags (tn_meta t) = 0"
    using example_transition by blast
  let ?ob = "RVBO1_MAGIC @ be_bytes 2 1 @ be_bytes 2 0 @ [0, 0]"
  have ob: "length ?ob = 14" by (simp add: RVBO1_MAGIC_def)
  have "length (rvbc1_wire (example_frame 5)) = 87" by (subst length_rvbc1_wire) (simp_all add: example_frame_def)
  then have "uint_fits 4 (int (length example_input))" "uint_fits 4 (int (length (rvbe1_wire (default_caps 0))))"
    by (simp_all add: rvbi1_wire_def plain_receive_def opt_wire_def frame_wire_def rvbm1_wire_def no_aead_def
        rvbe1_wire_def default_caps_def uint_fits_def)
  then obtain x where x: "execution_digest example_input (rvbe1_wire (default_caps 0)) = Inr x"
    by (auto simp: execution_digest_def bindE_eq_Inr write_iffs)
  obtain bd where bd: "state_digest 1 (rvfb1_wire example_bob) = Inr bd"
    by (auto simp: state_digest_def bindE_eq_Inr write_iffs uint_fits_def)
  have lens: "length x = 32" "length bd = 32" using digest_lengths(1,3) bd x by auto
  obtain tid where tid: "transition_id_digest (replicate 32 7) 1 0 3 x bd = Inr tid"
    using lens by (auto simp: transition_id_digest_def bindE_eq_Inr write_iffs uint_fits_def)
  have ltid: "length tid = 32" by (rule digest_lengths(9)[OF tid])
  let ?c = "example_candidate tid bd (output_digest ?ob) x"
  note wf = example_candidate_wf[OF ltid lens(2) digest_lengths(4) lens(1), of ?ob]
  have sd: "\<exists>h. state_digest 1 b = Inr h \<and> length h = 32" for b
    by (auto simp: state_digest_def bindE_eq_Inr write_iffs uint_fits_def)
  obtain h1 h2 h3 where h: "state_digest 1 (rvfb1_wire ?c) = Inr h1" "state_digest 1 (rvfb1_wire (promoted_state ?c)) = Inr h2"
    "state_digest 1 (rvfb1_wire (cleared_state (promoted_state ?c))) = Inr h3" "length h1 = 32" "length h2 = 32" "length h3 = 32"
    using sd by metis
  have pre: "fp_session_id (fs_prefix example_bob) = replicate 32 7" "fp_role (fs_prefix example_bob) = 1"
    "fp_generation (fs_prefix example_bob) = 3" "fs_replays example_next = []" "fp_flags (fs_prefix example_next) = 0"
    by (simp_all add: example_next_def example_bob_def example_state_def)
  have cand: "example_next\<lparr>fs_replays := sort_key rr_transition_id (fs_replays example_next @
              [\<lparr>rr_transition_id = tid, rr_execution_digest = x, rr_output_digest = output_digest ?ob,
                rr_output_len = int (length ?ob), rr_flags = 0\<rparr>]),
            fs_prefix := (fs_prefix example_next)\<lparr>fp_flags := fp_flags (fs_prefix example_next) AND NOT 1,
              fp_pending_phase := 1, fp_pending_transition_id := tid,
              fp_pending_before_digest := bd, fp_pending_output_digest := output_digest ?ob,
              fp_pending_execution_digest := x\<rparr>\<rparr> = ?c"
    unfolding ob by (simp add: example_candidate_def pre)
  have enc: "encode_rvfb1 ?c = Inr (rvfb1_wire ?c)" using wf(1) by (simp add: encode_rvfb1_iff)
  have pc: "promoted_and_cleared ?c = Inr (rvfb1_wire (promoted_state ?c), rvfb1_wire (cleared_state (promoted_state ?c)))"
    using wf by (simp add: promoted_and_cleared_def Let_def encode_rvfb1_iff[THEN iffD2])
  have hd: "\<exists>h. encode_rvbj1_header \<lparr>bj_session_id = replicate 32 7, bj_role = 1, bj_direction = 0,
           bj_intent_kind = INTENT_NORMAL, bj_generation = 3, bj_transition_id = tid,
           bj_execution = x, bj_input_d = input_digest example_input, bj_before_d = bd, bj_prepared_d = h1,
           bj_promoted_d = h2, bj_cleared_d = h3, bj_output_d = output_digest ?ob, bj_object_d = zeros 32,
           bj_retention_origin_ms = 0, bj_retention_expiry_ms = 0 + BRAID_RVOR_TTL_MS,
           bj_candidate_len = int (length (rvfb1_wire ?c)), bj_outputs_len = int (length ?ob)\<rparr> = Inr h"
    unfolding ob using wf(4) ltid lens h(4-6)
    by (auto simp: encode_rvbj1_header_def bindE_eq_Inr write_iffs uint_fits_def BRAID_RVOR_TTL_MS_def RVBJ1_MAGIC_def
        RVBJ1_HEADER_LEN_def)
  have dec: "decode_rvfb1 (rvfb1_wire example_bob) = Inr example_bob" "decode_rvbi1 example_input = Inr (plain_receive 0 (rvbc1_wire (example_frame 5)))"
    "decode_rvbe1 (rvbe1_wire (default_caps 0)) = Inr (default_caps 0)"
    using inputs_ok_decode[OF example_inputs_ok] example_inputs_ok[of 5] by (simp_all add: inputs_ok_def)
  have inp: "bi_direction (plain_receive 0 f) = 0" "bi_object_digest (plain_receive 0 f) = Some (zeros 32)" "zeros 32 \<noteq> []"
    "be_clock (default_caps 0) = 0" for f
    by (simp_all add: plain_receive_def default_caps_def zeros_def)
  have "\<exists>r. prepare_candidate example_bob (rvfb1_wire example_bob) example_next 0 x (input_digest example_input) (zeros 32)
      ?ob 0 0 (tm_output_key_epoch (tn_meta t)) = Inr r"
    unfolding prepare_candidate_def Let_def bd pre(1-3) bindE_simps tid cand enc pc prod.case h
    using hd by (auto simp: bindE_eq_Inr)
  then show ?thesis
    by (simp add: transition_prepare_def dec t inp x encode_empty_rvbo1_eq)
qed

lemma prepared_journal_witness:
  "\<exists>r before (inp :: rvbi1) cand rec.
    transition_prepare example_crypto (rvfb1_wire example_bob) example_input (rvbe1_wire (default_caps 0)) None None = Inr r \<and>
    prepared_with before (rvfb1_wire example_bob) example_input (rvbe1_wire (default_caps 0)) (bi_direction inp) r cand rec \<and>
    length (fs_replays before) < 64"
proof -
  obtain r where r: "transition_prepare example_crypto (rvfb1_wire example_bob) example_input (rvbe1_wire (default_caps 0))
      None None = Inr r" using example_prepared by blast
  from prepared_journal[OF r] r show ?thesis
    by (elim exE conjE) (intro exI conjI, assumption+)
qed

lemma prepared_state_locked_witness:
  "\<exists>r. transition_prepare example_crypto (rvfb1_wire example_bob) example_input (rvbe1_wire (default_caps 0)) None None = Inr r \<and>
    transition example_crypto (pr_candidate_bytes r) example_input (rvbe1_wire (default_caps 0)) None None =
      Inl (ValueError ''pending phase'')"
proof -
  obtain r where r: "transition_prepare example_crypto (rvfb1_wire example_bob) example_input (rvbe1_wire (default_caps 0))
      None None = Inr r" using example_prepared by blast
  obtain before cand rec and inp :: rvbi1 where
    "prepared_with before (rvfb1_wire example_bob) example_input (rvbe1_wire (default_caps 0)) (bi_direction inp) r cand rec"
    by (rule transition_prepare_spec[OF r]) (rule that)
  then have "decode_rvfb1 (pr_candidate_bytes r) = Inr cand" by (simp add: prepared_with_def rvfb1_decode_iff)
  from prepared_state_locked[OF r this] r show ?thesis by blast
qed

end
