(* ===== verification/Anchor.thy ===== *)
theory Anchor
  imports Codec Hashes
begin

text \<open>
  \<open>full_braid_protected_anchor.py\<close>: the keys derived from the protected seed, the authenticated
  RVFA1 anchor record of 204 bytes, and the append-only log of anchors that decides whether a
  record is appended, an exact replay or corrupt.
\<close>

section \<open>Key derivation and scopes\<close>

definition anchor_hkdf_sha256 :: "bytes \<Rightarrow> bytes \<Rightarrow> bytes \<Rightarrow> nat \<Rightarrow> bytes res" where
  "anchor_hkdf_sha256 ikm salt info len =
     (let salt = (if salt = [] then zeros 32 else salt);
          prk = hmac_sha256 salt ikm
      in expand_loop hmac_sha256 prk info len 255 [] [])"

definition RVFA1_LEN :: nat where "RVFA1_LEN = 204"
definition RVFA1_PREFIX_LEN :: nat where "RVFA1_PREFIX_LEN = 172"
definition SEED_LEN :: nat where "SEED_LEN = 32"
definition INITIAL_ANCHOR_SEQ :: int where "INITIAL_ANCHOR_SEQ = 1"
definition SCOPE_DOMAIN :: bytes where "SCOPE_DOMAIN = asc ''ATSAM/v2/full-braid/durable/platform-scope''"
definition RECORD_DOMAIN :: bytes where "RECORD_DOMAIN = asc ''ATSAM/v2/full-braid/durable/record''"
definition APPLE_APP_ID :: bytes where "APPLE_APP_ID = asc ''app.raven.ios''"
definition APPLE_LOGICAL_ROOT :: bytes where "APPLE_LOGICAL_ROOT = asc ''group.app.raven.fullbraid''"
definition TERMINAL_APP_ID :: bytes where "TERMINAL_APP_ID = asc ''app.raven.node''"
definition FORBIDDEN_APPLE_ROOTS :: "bytes list" where
  "FORBIDDEN_APPLE_ROOTS = [asc ''group.app.raven.shared'', asc ''group.app.raven.ios'']"
definition HKDF_ZERO_SALT :: bytes where "HKDF_ZERO_SALT = zeros 32"
definition INFO_STATE :: bytes where "INFO_STATE = asc ''ATSAM/v2/full-braid/durable/state-aead''"
definition INFO_INDEX :: bytes where "INFO_INDEX = asc ''ATSAM/v2/full-braid/durable/index''"
definition INFO_SQL :: bytes where "INFO_SQL = asc ''ATSAM/v2/full-braid/durable/sqlcipher''"
definition INFO_LOCAL :: bytes where "INFO_LOCAL = asc ''ATSAM/v2/full-braid/durable/domain-local''"
definition INFO_ANCHOR :: bytes where "INFO_ANCHOR = asc ''ATSAM/v2/full-braid/durable/anchor''"
definition INFO_SQL_SALT :: bytes where "INFO_SQL_SALT = asc ''ATSAM/v2/full-braid/durable/sqlcipher-salt''"
definition INFO_STATE_RECORD :: bytes where "INFO_STATE_RECORD = asc ''ATSAM/v2/full-braid/durable/state-record''"
definition INFO_STAGE :: bytes where "INFO_STAGE = asc ''ATSAM/v2/full-braid/durable/domain-stage''"
definition RVFA1_MAGIC :: bytes where "RVFA1_MAGIC = asc ''RVFA1'' @ [0, 0, 0]"
definition RVFA1_SCHEMA :: int where "RVFA1_SCHEMA = 1"

definition require_len :: "bytes \<Rightarrow> nat \<Rightarrow> string \<Rightarrow> bytes res" where
  "require_len value len name =
     (if length value \<noteq> len then Inl (CodecError (name @ '' must be '' @ py_str (int len) @ '' bytes''))
      else Inr value)"

definition scope_id :: "bytes \<Rightarrow> bytes \<Rightarrow> bytes res" where
  "scope_id platform_app_id logical_root_id =
     (if platform_app_id = [] \<or> logical_root_id = []
      then Inl (CodecError ''scope components must be non-empty'')
      else if logical_root_id \<in> set FORBIDDEN_APPLE_ROOTS
      then Inl (CodecError ''forbidden Raven App Group fallback'')
      else bindE (joinE [Inr SCOPE_DOMAIN, u32be (int (length platform_app_id)), Inr platform_app_id,
                         u32be (int (length logical_root_id)), Inr logical_root_id]) (\<lambda>m.
           Inr (sha256 m)))"

definition apple_scope_id :: "bytes res" where
  "apple_scope_id = scope_id APPLE_APP_ID APPLE_LOGICAL_ROOT"

definition terminal_scope_id :: "bytes \<Rightarrow> bytes res" where
  "terminal_scope_id canonical_root_bytes = scope_id TERMINAL_APP_ID canonical_root_bytes"

record derived_keys =
  dk_state :: bytes
  dk_index :: bytes
  dk_sql :: bytes
  dk_local :: bytes
  dk_anchor :: bytes
  dk_sql_salt :: bytes

definition derive_store_keys :: "bytes \<Rightarrow> derived_keys res" where
  "derive_store_keys seed32 =
     bindE (require_len seed32 SEED_LEN ''seed'') (\<lambda>seed.
     bindE (anchor_hkdf_sha256 seed HKDF_ZERO_SALT INFO_STATE 32) (\<lambda>k_state.
     bindE (anchor_hkdf_sha256 seed HKDF_ZERO_SALT INFO_INDEX 32) (\<lambda>k_index.
     bindE (anchor_hkdf_sha256 seed HKDF_ZERO_SALT INFO_SQL 32) (\<lambda>k_sql.
     bindE (anchor_hkdf_sha256 seed HKDF_ZERO_SALT INFO_LOCAL 32) (\<lambda>k_local.
     bindE (anchor_hkdf_sha256 seed HKDF_ZERO_SALT INFO_ANCHOR 32) (\<lambda>k_anchor.
     bindE (anchor_hkdf_sha256 seed HKDF_ZERO_SALT INFO_SQL_SALT 16) (\<lambda>k_sql_salt.
     Inr \<lparr>dk_state = k_state, dk_index = k_index, dk_sql = k_sql, dk_local = k_local,
          dk_anchor = k_anchor, dk_sql_salt = k_sql_salt\<rparr>)))))))"

definition record_key :: "bytes \<Rightarrow> bytes \<Rightarrow> bytes res" where
  "record_key k_index session_id =
     bindE (require_len k_index 32 ''k_index'') (\<lambda>_.
     bindE (require_len session_id 32 ''session_id'') (\<lambda>sid.
     Inr (hmac_sha256 k_index (RECORD_DOMAIN @ sid))))"

definition k_state_record :: "bytes \<Rightarrow> bytes \<Rightarrow> bytes res" where
  "k_state_record k_state record_key32 =
     bindE (require_len k_state 32 ''k_state'') (\<lambda>k.
     bindE (require_len record_key32 32 ''record_key'') (\<lambda>rk.
     anchor_hkdf_sha256 k rk INFO_STATE_RECORD 32))"

definition k_stage_transition :: "bytes \<Rightarrow> bytes \<Rightarrow> bytes res" where
  "k_stage_transition k_local transition_id =
     bindE (require_len k_local 32 ''k_local'') (\<lambda>k.
     bindE (require_len transition_id 32 ''transition_id'') (\<lambda>tid.
     anchor_hkdf_sha256 k tid INFO_STAGE 32))"

section \<open>The anchor record\<close>

text \<open>\<open>Rvfa1Status\<close> is an \<open>IntEnum\<close>, ordered by its values.\<close>

datatype rvfa1_status = HEAD | DELETING | TOMBSTONE

fun status_int :: "rvfa1_status \<Rightarrow> int" where
  "status_int HEAD = 1"
| "status_int DELETING = 2"
| "status_int TOMBSTONE = 3"

instantiation rvfa1_status :: linorder
begin

definition less_eq_rvfa1_status :: "rvfa1_status \<Rightarrow> rvfa1_status \<Rightarrow> bool" where
  "less_eq_rvfa1_status a b \<longleftrightarrow> status_int a \<le> status_int b"

definition less_rvfa1_status :: "rvfa1_status \<Rightarrow> rvfa1_status \<Rightarrow> bool" where
  "less_rvfa1_status a b \<longleftrightarrow> status_int a < status_int b"

instance
proof
  fix a b :: rvfa1_status
  show "a \<le> b \<Longrightarrow> b \<le> a \<Longrightarrow> a = b"
    by (cases a; cases b; simp add: less_eq_rvfa1_status_def)
qed (auto simp: less_eq_rvfa1_status_def less_rvfa1_status_def)

end

definition status_of_byte :: "int \<Rightarrow> rvfa1_status res" where
  "status_of_byte n =
     (if n = 1 then Inr HEAD else if n = 2 then Inr DELETING else if n = 3 then Inr TOMBSTONE
      else Inl (ValueError (py_str n @ '' is not a valid Rvfa1Status'')))"

datatype append_decision = APPENDED | EXACT_REPLAY | CORRUPT

record rvfa1 =
  fa_status :: rvfa1_status
  fa_role :: int
  fa_record_key :: bytes
  fa_session_id :: bytes
  fa_anchor_seq :: int
  fa_generation :: int
  fa_cleared_state_digest :: bytes
  fa_cleared_store_revision :: int
  fa_transition_id :: bytes
  fa_horizon_ms :: int
  fa_hmac :: bytes

definition prefix_bytes :: "rvfa1 \<Rightarrow> bytes res" where
  "prefix_bytes s =
     (if fa_role s \<noteq> 0 \<and> fa_role s \<noteq> 1 then Inl (CodecError ''role must be 0 or 1'')
      else if fa_anchor_seq s < 0 \<or> fa_anchor_seq s > 0xFFFFFFFFFFFFFFFF
      then Inl (CodecError ''anchor_seq out of range'')
      else if fa_generation s < 0 \<or> fa_generation s > 0xFFFFFFFFFFFFFFFF
      then Inl (CodecError ''generation out of range'')
      else if fa_cleared_store_revision s < 0 \<or> fa_cleared_store_revision s > 0xFFFFFFFFFFFFFFFF
      then Inl (CodecError ''cleared_store_revision out of range'')
      else if fa_horizon_ms s < 0 \<or> fa_horizon_ms s > 0xFFFFFFFFFFFFFFFF
      then Inl (CodecError ''horizon_ms out of range'')
      else joinE
        [Inr RVFA1_MAGIC, u16be RVFA1_SCHEMA,
         Inr [word_of_int (status_int (fa_status s)), word_of_int (fa_role s)],
         require_len (fa_record_key s) 32 ''record_key'',
         require_len (fa_session_id s) 32 ''session_id'',
         u64be (fa_anchor_seq s), u64be (fa_generation s),
         require_len (fa_cleared_state_digest s) 32 ''cleared_state_digest'',
         u64be (fa_cleared_store_revision s),
         require_len (fa_transition_id s) 32 ''transition_id'',
         u64be (fa_horizon_ms s)])"

definition encode_rvfa1 :: "rvfa1 \<Rightarrow> bytes \<Rightarrow> bytes res" where
  "encode_rvfa1 r k_anchor =
     bindE (prefix_bytes r) (\<lambda>prefix.
     bindE (require_len k_anchor 32 ''k_anchor'') (\<lambda>k.
     let tag = hmac_sha256 k prefix; provided = fa_hmac r in
     if provided \<noteq> [] \<and> provided \<noteq> zeros 32 \<and> provided \<noteq> tag
     then Inl (CodecError ''provided hmac does not match K_anchor'')
     else let out = prefix @ tag in
     if length out \<noteq> RVFA1_LEN then Inl (CodecError ''RVFA1 length mismatch'')
     else Inr out))"

definition decode_rvfa1 :: "bytes \<Rightarrow> bytes \<Rightarrow> rvfa1 res" where
  "decode_rvfa1 raw k_anchor =
     bindE (require_len raw RVFA1_LEN ''rvfa1'') (\<lambda>blob.
     if take 8 blob \<noteq> RVFA1_MAGIC then Inl (CodecError ''bad magic'')
     else if from_bytes (slice blob 8 10) \<noteq> RVFA1_SCHEMA then Inl (CodecError ''bad schema'')
     else case status_of_byte (uint (blob ! 10)) of
       Inl _ \<Rightarrow> Inl (CodecError ''bad status'')
     | Inr status \<Rightarrow>
     let role = uint (blob ! 11) in
     if role \<noteq> 0 \<and> role \<noteq> 1 then Inl (CodecError ''bad role'')
     else let prefix = take RVFA1_PREFIX_LEN blob; tag = drop RVFA1_PREFIX_LEN blob in
     bindE (require_len k_anchor 32 ''k_anchor'') (\<lambda>k.
     if \<not> compare_digest tag (hmac_sha256 k prefix) then Inl (CodecError ''bad hmac'')
     else Inr
       \<lparr>fa_status = status, fa_role = role,
        fa_record_key = slice blob 12 44, fa_session_id = slice blob 44 76,
        fa_anchor_seq = from_bytes (slice blob 76 84), fa_generation = from_bytes (slice blob 84 92),
        fa_cleared_state_digest = slice blob 92 124,
        fa_cleared_store_revision = from_bytes (slice blob 124 132),
        fa_transition_id = slice blob 132 164,
        fa_horizon_ms = from_bytes (slice blob 164 172), fa_hmac = tag\<rparr>))"

section \<open>The append decision\<close>

definition identity_key :: "bytes \<Rightarrow> int \<Rightarrow> (bytes \<times> int) res" where
  "identity_key record_key32 anchor_seq =
     bindE (require_len record_key32 32 ''record_key'') (\<lambda>rk. Inr (rk, anchor_seq))"

definition record_invariants_ok :: "rvfa1 \<Rightarrow> bytes \<Rightarrow> bool res" where
  "record_invariants_ok item k_index =
     bindE (record_key k_index (fa_session_id item)) (\<lambda>rk.
     if rk \<noteq> fa_record_key item then Inr False
     else let is_initial = fa_anchor_seq item = INITIAL_ANCHOR_SEQ in
     Inr (case fa_status item of
       HEAD \<Rightarrow>
         (if fa_horizon_ms item \<noteq> 0 then False
          else if is_initial then fa_transition_id item = zeros 32
          else fa_transition_id item \<noteq> zeros 32)
     | DELETING \<Rightarrow>
         \<not> (is_initial \<or> fa_horizon_ms item = 0 \<or> fa_transition_id item = zeros 32)
     | TOMBSTONE \<Rightarrow>
         \<not> (is_initial \<or> fa_horizon_ms item = 0 \<or> fa_transition_id item \<noteq> zeros 32)))"

fun status_transition_ok :: "rvfa1_status option \<Rightarrow> rvfa1_status \<Rightarrow> bool" where
  "status_transition_ok None nxt \<longleftrightarrow> nxt = HEAD"
| "status_transition_ok (Some HEAD) nxt \<longleftrightarrow> nxt = HEAD \<or> nxt = DELETING"
| "status_transition_ok (Some DELETING) nxt \<longleftrightarrow> nxt = TOMBSTONE"
| "status_transition_ok (Some TOMBSTONE) nxt \<longleftrightarrow> False"

text \<open>The loop over the ordered records, from position \<open>idx\<close> with the status before it.\<close>

fun chain_from :: "rvfa1_status option \<Rightarrow> nat \<Rightarrow> rvfa1 list \<Rightarrow> bool" where
  "chain_from prev idx [] \<longleftrightarrow> True"
| "chain_from prev idx (item # rest) \<longleftrightarrow>
     (if fa_anchor_seq item \<noteq> INITIAL_ANCHOR_SEQ + int idx then False
      else if idx > 0 \<and> \<not> status_transition_ok prev (fa_status item) then False
      else chain_from (Some (fa_status item)) (idx + 1) rest)"

definition established_chain_ok :: "rvfa1 list \<Rightarrow> bool" where
  "established_chain_ok same_record =
     (if same_record = [] then True
      else let ordered = sort_key fa_anchor_seq same_record in
      if fa_anchor_seq (hd ordered) \<noteq> INITIAL_ANCHOR_SEQ then False
      else if \<not> status_transition_ok None (fa_status (hd ordered)) then False
      else chain_from None 0 ordered)"

text \<open>
  The loop over the stored records: \<open>None\<close> is the early return \<open>CORRUPT\<close>; otherwise the
  dictionary of identities seen and the parsed records of the candidate's key, in stored order.
\<close>

fun parse_existing :: "rvfa1 \<Rightarrow> bytes \<Rightarrow> bytes \<Rightarrow> bytes list \<Rightarrow> (bytes \<times> int, bytes) dict \<Rightarrow> rvfa1 list \<Rightarrow>
    ((bytes \<times> int, bytes) dict \<times> rvfa1 list) option res" where
  "parse_existing candidate k_anchor k_index [] seen parsed = Inr (Some (seen, parsed))"
| "parse_existing candidate k_anchor k_index (raw # raws) seen parsed =
     (case bindE (decode_rvfa1 raw k_anchor) (\<lambda>item.
           bindE (record_invariants_ok item k_index) (\<lambda>ok. Inr (item, ok))) of
       Inl (CodecError _) \<Rightarrow> Inr None
     | Inl e \<Rightarrow> Inl e
     | Inr (item, ok) \<Rightarrow>
       if \<not> ok then Inr None
       else bindE (identity_key (fa_record_key item) (fa_anchor_seq item)) (\<lambda>key.
         if map_of seen key \<noteq> None then Inr None
         else if fa_record_key item \<noteq> fa_record_key candidate
         then parse_existing candidate k_anchor k_index raws seen parsed
         else if fa_session_id item \<noteq> fa_session_id candidate \<or> fa_role item \<noteq> fa_role candidate
         then Inr None
         else parse_existing candidate k_anchor k_index raws (AList.update key raw seen) (parsed @ [item])))"

text \<open>Python's \<open>max(xs, key=f)\<close>: the first element with the greatest key.\<close>

definition max_by :: "('a \<Rightarrow> 'k::linorder) \<Rightarrow> 'a list \<Rightarrow> 'a" where
  "max_by f xs = foldl (\<lambda>m x. if f m < f x then x else m) (hd xs) (tl xs)"

definition classify_append :: "bytes list \<Rightarrow> bytes \<Rightarrow> bytes \<Rightarrow> bytes \<Rightarrow> append_decision res" where
  "classify_append existing_raw candidate_raw k_anchor k_index =
     (case bindE (decode_rvfa1 candidate_raw k_anchor) (\<lambda>candidate.
           bindE (record_invariants_ok candidate k_index) (\<lambda>ok. Inr (candidate, ok))) of
       Inl (CodecError _) \<Rightarrow> Inr CORRUPT
     | Inl e \<Rightarrow> Inl e
     | Inr (candidate, ok) \<Rightarrow>
     if \<not> ok then Inr CORRUPT
     else bindE (parse_existing candidate k_anchor k_index existing_raw [] []) (\<lambda>r. case r of
       None \<Rightarrow> Inr CORRUPT
     | Some (seen, same_record) \<Rightarrow>
     if \<not> established_chain_ok same_record then Inr CORRUPT
     else bindE (identity_key (fa_record_key candidate) (fa_anchor_seq candidate)) (\<lambda>key.
     case map_of seen key of
       Some same \<Rightarrow> if same = candidate_raw then Inr EXACT_REPLAY else Inr CORRUPT
     | None \<Rightarrow>
     if same_record = []
     then if fa_anchor_seq candidate \<noteq> INITIAL_ANCHOR_SEQ then Inr CORRUPT
          else if \<not> status_transition_ok None (fa_status candidate) then Inr CORRUPT
          else Inr APPENDED
     else let highest_item = max_by fa_anchor_seq same_record; highest = fa_anchor_seq highest_item in
     if highest = 0xFFFFFFFFFFFFFFFF then Inr CORRUPT
     else if fa_anchor_seq candidate \<noteq> highest + 1 then Inr CORRUPT
     else if \<not> status_transition_ok (Some (fa_status highest_item)) (fa_status candidate) then Inr CORRUPT
     else Inr APPENDED)))"

definition open_rollback_class :: "int \<Rightarrow> bytes \<Rightarrow> int \<Rightarrow> int \<Rightarrow> bytes \<Rightarrow> int \<Rightarrow> string res" where
  "open_rollback_class anchor_generation anchor_digest anchor_revision file_generation file_digest file_revision =
     bindE (require_len anchor_digest 32 ''anchor_digest'') (\<lambda>_.
     bindE (require_len file_digest 32 ''file_digest'') (\<lambda>_.
     if anchor_generation > file_generation then Inr ''container_behind_anchor''
     else if anchor_generation < file_generation then Inr ''anchor_behind_container''
     else if anchor_digest \<noteq> file_digest then Inr ''digest_mismatch''
     else if anchor_revision > file_revision then Inr ''container_behind_anchor''
     else if anchor_revision < file_revision then Inr ''anchor_behind_container''
     else Inr ''aligned''))"

section \<open>The record is an authenticated codec\<close>

definition wf_rvfa1 :: "rvfa1 \<Rightarrow> bool" where
  "wf_rvfa1 r \<longleftrightarrow> (fa_role r = 0 \<or> fa_role r = 1) \<and> length (fa_record_key r) = 32 \<and>
     length (fa_session_id r) = 32 \<and> uint_fits 8 (fa_anchor_seq r) \<and> uint_fits 8 (fa_generation r) \<and>
     length (fa_cleared_state_digest r) = 32 \<and> uint_fits 8 (fa_cleared_store_revision r) \<and>
     length (fa_transition_id r) = 32 \<and> uint_fits 8 (fa_horizon_ms r)"

definition rvfa1_prefix :: "rvfa1 \<Rightarrow> bytes" where
  "rvfa1_prefix r = RVFA1_MAGIC @ be_bytes 2 1 @ [word_of_int (status_int (fa_status r)), word_of_int (fa_role r)] @
     fa_record_key r @ fa_session_id r @ be_bytes 8 (fa_anchor_seq r) @ be_bytes 8 (fa_generation r) @
     fa_cleared_state_digest r @ be_bytes 8 (fa_cleared_store_revision r) @ fa_transition_id r @
     be_bytes 8 (fa_horizon_ms r)"

lemma require_len_iff [res_simps]: "require_len v n nm = Inr x \<longleftrightarrow> length v = n \<and> x = v"
  by (auto simp: require_len_def)

lemma require_len_eq [simp]: "length v = n \<Longrightarrow> require_len v n nm = Inr v"
  by (simp add: require_len_def)

lemma require_len_Inl: "require_len v n nm = Inl e \<Longrightarrow> \<exists>m. e = CodecError m"
  by (auto simp: require_len_def split: if_splits)

lemma prefix_bytes_iff [res_simps]: "prefix_bytes r = Inr p \<longleftrightarrow> wf_rvfa1 r \<and> p = rvfa1_prefix r"
  by (auto simp: prefix_bytes_def bindE_eq_Inr if_Inl_eq_Inr write_iffs require_len_iff wf_rvfa1_def
      rvfa1_prefix_def uint_fits_def RVFA1_SCHEMA_def)

lemma length_rvfa1_magic [simp]: "length RVFA1_MAGIC = 8"
  by (simp add: RVFA1_MAGIC_def)

lemma length_rvfa1_prefix [simp]: "wf_rvfa1 r \<Longrightarrow> length (rvfa1_prefix r) = 172"
  by (simp add: wf_rvfa1_def rvfa1_prefix_def)

lemma encode_rvfa1_iff:
  "encode_rvfa1 r k = Inr raw \<longleftrightarrow> wf_rvfa1 r \<and> length k = 32 \<and>
     fa_hmac r \<in> {[], zeros 32, hmac_sha256 k (rvfa1_prefix r)} \<and>
     raw = rvfa1_prefix r @ hmac_sha256 k (rvfa1_prefix r)"
  by (auto simp: encode_rvfa1_def bindE_eq_Inr if_Inl_eq_Inr prefix_bytes_iff require_len_iff Let_def
      RVFA1_LEN_def)

lemma status_of_byte_iff: "status_of_byte n = Inr s \<longleftrightarrow> n = status_int s"
  by (cases s) (auto simp: status_of_byte_def)

lemma status_int_inj [simp]: "status_int a = status_int b \<longleftrightarrow> a = b"
  by (cases a; cases b) simp_all

lemma status_int_byte [simp]: "uint (word_of_int (status_int s) :: byte) = status_int s"
  by (cases s) simp_all

lemma status_of_byte_status [simp]: "status_of_byte (status_int s) = Inr s"
  by (simp add: status_of_byte_iff)

text \<open>Cutting a string at fixed offsets.\<close>

lemma slice_join: "i \<le> j \<Longrightarrow> j \<le> k \<Longrightarrow> slice d i j @ slice d j k = slice d i k"
  by (auto simp: slice_def drop_take le_iff_add take_add add.commute)

lemma be_from_bytes_len: "length bs = k \<Longrightarrow> be_bytes k (from_bytes bs) = bs"
  by (metis be_from_bytes)

lemma fits_from_bytes: "length bs = k \<Longrightarrow> uint_fits k (from_bytes bs)"
  using from_bytes_bounds[of bs] by (auto simp: uint_fits_def)

lemma length_slice: "j \<le> length d \<Longrightarrow> length (slice d i j) = j - i"
  by (simp add: slice_def)

definition parsed_prefix :: "bytes \<Rightarrow> rvfa1_status \<Rightarrow> rvfa1" where
  "parsed_prefix blob st =
     \<lparr>fa_status = st, fa_role = uint (blob ! 11),
      fa_record_key = slice blob 12 44, fa_session_id = slice blob 44 76,
      fa_anchor_seq = from_bytes (slice blob 76 84), fa_generation = from_bytes (slice blob 84 92),
      fa_cleared_state_digest = slice blob 92 124,
      fa_cleared_store_revision = from_bytes (slice blob 124 132),
      fa_transition_id = slice blob 132 164,
      fa_horizon_ms = from_bytes (slice blob 164 172), fa_hmac = drop 172 blob\<rparr>"

lemma decode_rvfa1_iff:
  "decode_rvfa1 raw k = Inr r \<longleftrightarrow>
     length raw = 204 \<and> take 8 raw = RVFA1_MAGIC \<and> from_bytes (slice raw 8 10) = 1 \<and>
     uint (raw ! 10) = status_int (fa_status r) \<and> (raw ! 11 = 0 \<or> raw ! 11 = 1) \<and> length k = 32 \<and>
     drop 172 raw = hmac_sha256 k (take 172 raw) \<and> r = parsed_prefix raw (fa_status r)"
  by (cases "status_of_byte (uint (raw ! 10))")
    (auto simp: decode_rvfa1_def bindE_eq_Inr if_Inl_eq_Inr require_len_iff Let_def RVFA1_LEN_def
      RVFA1_SCHEMA_def RVFA1_PREFIX_LEN_def compare_digest_def parsed_prefix_def status_of_byte_iff)

lemma parsed_prefix_wf:
  "length raw = 204 \<Longrightarrow> raw ! 11 = 0 \<or> raw ! 11 = 1 \<Longrightarrow> wf_rvfa1 (parsed_prefix raw st)"
  by (auto simp: parsed_prefix_def wf_rvfa1_def length_slice fits_from_bytes)

lemma parsed_prefix_inv:
  assumes "length raw = 204" "take 8 raw = RVFA1_MAGIC" "from_bytes (slice raw 8 10) = 1"
    "uint (raw ! 10) = status_int st"
  shows "rvfa1_prefix (parsed_prefix raw st) = take 172 raw"
proof -
  have two: "slice raw 10 12 = [raw ! 10, raw ! 11]"
    using assms(1) by (simp add: slice_def drop_take numeral_2_eq_2 take_Suc_conv_app_nth nth_drop)
  have "take 172 raw = take 8 raw @ slice raw 8 10 @ slice raw 10 12 @ slice raw 12 44 @ slice raw 44 76 @
      slice raw 76 84 @ slice raw 84 92 @ slice raw 92 124 @ slice raw 124 132 @ slice raw 132 164 @ slice raw 164 172"
    by (simp add: slice_join) (simp add: slice_def drop_take flip: take_add)
  moreover have "be_bytes 2 1 = slice raw 8 10"
    using assms(1,3) be_from_bytes_len[of "slice raw 8 10" 2] by (simp add: length_slice)
  moreover have "word_of_int (status_int st) = raw ! 10"
    using assms(4) by (metis word_of_int_uint)
  ultimately show ?thesis
    using assms(1,2) two by (simp add: rvfa1_prefix_def parsed_prefix_def be_from_bytes_len length_slice)
qed

lemma parsed_of_prefix:
  assumes "wf_rvfa1 r" "length tag = 32"
  shows "parsed_prefix (rvfa1_prefix r @ tag) (fa_status r) = r\<lparr>fa_hmac := tag\<rparr>"
  using assms by (simp add: parsed_prefix_def rvfa1_prefix_def slice_def wf_rvfa1_def nth_append uint_fits_def)
    (cases r; auto)


lemma decode_encode_rvfa1:
  "encode_rvfa1 r k = Inr raw \<Longrightarrow> decode_rvfa1 raw k = Inr (r\<lparr>fa_hmac := drop 172 raw\<rparr>)"
  by (clarsimp simp: encode_rvfa1_iff decode_rvfa1_iff)
    (auto simp: parsed_of_prefix, auto simp: wf_rvfa1_def rvfa1_prefix_def nth_append slice_def)

text \<open>
  A byte string decodes under the anchor key as a record exactly when the encoder writes it
  under that key for the record with its tag, so nothing without the tag of its prefix is read.
\<close>

theorem rvfa1_authenticated_codec:
  "decode_rvfa1 raw k_anchor = Inr r \<longleftrightarrow>
     encode_rvfa1 r k_anchor = Inr raw \<and> fa_hmac r = hmac_sha256 k_anchor (take RVFA1_PREFIX_LEN raw)"
proof
  assume "decode_rvfa1 raw k_anchor = Inr r"
  then have d: "length raw = 204" "take 8 raw = RVFA1_MAGIC" "from_bytes (slice raw 8 10) = 1"
    "uint (raw ! 10) = status_int (fa_status r)" "raw ! 11 = 0 \<or> raw ! 11 = 1" "length k_anchor = 32"
    "drop 172 raw = hmac_sha256 k_anchor (take 172 raw)" "r = parsed_prefix raw (fa_status r)"
    by (simp_all add: decode_rvfa1_iff)
  moreover have "fa_hmac r = drop 172 raw"
    by (subst d(8)) (simp add: parsed_prefix_def)
  ultimately have "wf_rvfa1 r" "rvfa1_prefix r = take 172 raw" "fa_hmac r = drop 172 raw"
    using parsed_prefix_wf[of raw "fa_status r"] parsed_prefix_inv[of raw "fa_status r"] by simp_all
  then show "encode_rvfa1 r k_anchor = Inr raw \<and> fa_hmac r = hmac_sha256 k_anchor (take RVFA1_PREFIX_LEN raw)"
    using d(6,7) by (simp add: encode_rvfa1_iff RVFA1_PREFIX_LEN_def) (metis append_take_drop_id)
next
  assume e: "encode_rvfa1 r k_anchor = Inr raw \<and> fa_hmac r = hmac_sha256 k_anchor (take RVFA1_PREFIX_LEN raw)"
  then have "drop 172 raw = fa_hmac r"
    by (auto simp: encode_rvfa1_iff RVFA1_PREFIX_LEN_def)
  with e decode_encode_rvfa1[of r k_anchor raw] show "decode_rvfa1 raw k_anchor = Inr r"
    by simp
qed


section \<open>The log of anchors\<close>

text \<open>A stored record that decodes under the anchor key and meets the record invariants.\<close>

definition good_anchor :: "bytes \<Rightarrow> bytes \<Rightarrow> bytes \<Rightarrow> rvfa1 option" where
  "good_anchor ka ki raw =
     (case decode_rvfa1 raw ka of
        Inl _ \<Rightarrow> None
      | Inr r \<Rightarrow> if record_invariants_ok r ki = Inr True then Some r else None)"

text \<open>The records of one key in a log, in stored order.\<close>

definition key_records :: "bytes \<Rightarrow> bytes \<Rightarrow> bytes \<Rightarrow> bytes list \<Rightarrow> rvfa1 list" where
  "key_records ka ki rk log = filter (\<lambda>r. fa_record_key r = rk) (List.map_filter (good_anchor ka ki) log)"

definition same_owner :: "rvfa1 \<Rightarrow> rvfa1 \<Rightarrow> bool" where
  "same_owner a b \<longleftrightarrow> fa_session_id a = fa_session_id b \<and> fa_role a = fa_role b"

text \<open>The chain of one key: sequence numbers \<open>1..N\<close>, one owner, and legal status edges from HEAD.\<close>

fun status_path :: "rvfa1_status option \<Rightarrow> rvfa1_status list \<Rightarrow> bool" where
  "status_path prev [] \<longleftrightarrow> True"
| "status_path prev (s # ss) \<longleftrightarrow> status_transition_ok prev s \<and> status_path (Some s) ss"

definition anchor_chain :: "rvfa1 list \<Rightarrow> bool" where
  "anchor_chain rs \<longleftrightarrow> (\<forall>i < length rs. fa_anchor_seq (rs ! i) = int i + 1) \<and>
     status_path None (map fa_status rs) \<and> (\<forall>r \<in> set rs. same_owner (hd rs) r)"

inductive anchor_log :: "bytes \<Rightarrow> bytes \<Rightarrow> bytes list \<Rightarrow> bool" for ka ki where
  empty: "anchor_log ka ki []"
| append: "anchor_log ka ki log \<Longrightarrow> classify_append log raw ka ki = Inr APPENDED \<Longrightarrow>
    anchor_log ka ki (log @ [raw])"

definition log_ok :: "bytes \<Rightarrow> bytes \<Rightarrow> bytes list \<Rightarrow> bool" where
  "log_ok ka ki log \<longleftrightarrow> (\<forall>raw \<in> set log. good_anchor ka ki raw \<noteq> None) \<and>
     (\<forall>rk. anchor_chain (key_records ka ki rk log))"

lemma key_records_simps [simp]:
  "key_records ka ki rk [] = []"
  "key_records ka ki rk (raw # log) =
     (case good_anchor ka ki raw of
        None \<Rightarrow> key_records ka ki rk log
      | Some r \<Rightarrow> if fa_record_key r = rk then r # key_records ka ki rk log else key_records ka ki rk log)"
  by (auto simp: key_records_def List.map_filter_simps split: option.split)

lemma key_records_append:
  "key_records ka ki rk (xs @ ys) = key_records ka ki rk xs @ key_records ka ki rk ys"
  by (induction xs) (auto split: option.split)

subsection \<open>The decision on a chain\<close>

lemma decode_Inl: "decode_rvfa1 raw k = Inl e \<Longrightarrow> \<exists>m. e = CodecError m"
  by (auto simp: decode_rvfa1_def bindE_eq_Inl Let_def require_len_def split: if_splits sum.splits)

lemma record_invariants_Inl: "record_invariants_ok r k = Inl e \<Longrightarrow> \<exists>m. e = CodecError m"
  by (auto simp: record_invariants_ok_def record_key_def bindE_eq_Inl Let_def require_len_def split: if_splits)

lemma decoded_key_len: "decode_rvfa1 raw k = Inr r \<Longrightarrow> length (fa_record_key r) = 32"
  by (metis decode_rvfa1_iff parsed_prefix_wf wf_rvfa1_def)


lemma good_anchor_iff:
  "good_anchor ka ki raw = Some r \<longleftrightarrow> decode_rvfa1 raw ka = Inr r \<and> record_invariants_ok r ki = Inr True"
  by (auto simp: good_anchor_def split: sum.splits if_splits)

lemma chain_from_Suc:
  "0 < idx \<Longrightarrow> \<forall>i < length rs. fa_anchor_seq (rs ! i) = int idx + int i + 1 \<Longrightarrow>
     chain_from prev idx rs \<longleftrightarrow> status_path prev (map fa_status rs)"
proof (induction rs arbitrary: prev idx)
  case (Cons r rs)
  have "\<forall>i < length rs. fa_anchor_seq (rs ! i) = int (Suc idx) + int i + 1"
    using Cons.prems(2) unfolding length_Cons All_less_Suc2 by simp
  with Cons.prems Cons.IH[of "Suc idx" "Some (fa_status r)"] show ?case
    by (auto simp: INITIAL_ANCHOR_SEQ_def dest!: spec[of _ 0])
qed simp

lemma anchor_chain_sorted: "anchor_chain rs \<Longrightarrow> sorted (map fa_anchor_seq rs)"
  by (simp add: anchor_chain_def sorted_iff_nth_mono)

lemma anchor_chain_established: "anchor_chain rs \<Longrightarrow> established_chain_ok rs"
proof (cases rs)
  case (Cons r rest)
  assume c: "anchor_chain rs"
  then have "\<forall>i < length rest. fa_anchor_seq (rest ! i) = int 1 + int i + 1"
    using Cons by (auto simp: anchor_chain_def dest!: spec[of _ "Suc _"])
  moreover from c have "sort_key fa_anchor_seq rs = rs"
    by (simp add: anchor_chain_sorted sort_key_id_if_sorted)
  ultimately show ?thesis
    using c Cons chain_from_Suc[of 1 rest "Some (fa_status r)"]
    by (auto simp: established_chain_ok_def anchor_chain_def INITIAL_ANCHOR_SEQ_def dest!: spec[of _ 0])
qed (simp add: established_chain_ok_def)

lemma max_by_snoc: "xs \<noteq> [] \<Longrightarrow>
    max_by f (xs @ [x]) = (if f (max_by f xs) < f x then x else max_by f xs)"
  by (cases xs) (simp_all add: max_by_def)

lemma status_path_snoc: "status_path prev (ss @ [s]) \<longleftrightarrow>
    status_path prev ss \<and> status_transition_ok (if ss = [] then prev else Some (last ss)) s"
  by (induction ss arbitrary: prev) auto

lemma anchor_chain_snoc:
  "anchor_chain (rs @ [c]) \<longleftrightarrow> anchor_chain rs \<and> (rs \<noteq> [] \<longrightarrow> same_owner (hd rs) c) \<and>
     fa_anchor_seq c = int (length rs) + 1 \<and>
     status_transition_ok (if rs = [] then None else Some (fa_status (last rs))) (fa_status c)"
  by (cases "rs = []") (auto simp: anchor_chain_def status_path_snoc All_less_Suc nth_append last_map
      same_owner_def)

lemma anchor_chain_max: "anchor_chain rs \<Longrightarrow> rs \<noteq> [] \<Longrightarrow>
    max_by fa_anchor_seq rs = last rs \<and> fa_anchor_seq (last rs) = int (length rs)"
proof (induction rs rule: rev_induct)
  case (snoc c rs)
  then show ?case
    by (cases "rs = []") (simp_all add: anchor_chain_snoc max_by_snoc, use anchor_chain_snoc[of "[]" c] in \<open>simp add: max_by_def\<close>)
qed simp

lemma anchor_chain_mem: "anchor_chain rs \<Longrightarrow>
    (\<exists>r \<in> set rs. fa_anchor_seq r = n) \<longleftrightarrow> 1 \<le> n \<and> n \<le> int (length rs)"
proof (induction rs rule: rev_induct)
  case (snoc c rs)
  then show ?case by (auto simp: anchor_chain_snoc)
qed simp

lemma anchor_chain_distinct: "anchor_chain rs \<Longrightarrow> distinct (map fa_anchor_seq rs)"
  by (simp add: anchor_chain_def distinct_conv_nth)

subsection \<open>Reading a log of good records\<close>

text \<open>The identities the loop records, and the list of raw records of a key.\<close>

fun seen_of :: "bytes \<Rightarrow> bytes \<Rightarrow> bytes \<Rightarrow> bytes list \<Rightarrow> ((bytes \<times> int) \<times> bytes) list" where
  "seen_of ka ki rk [] = []"
| "seen_of ka ki rk (raw # log) =
     (case good_anchor ka ki raw of
        None \<Rightarrow> seen_of ka ki rk log
      | Some r \<Rightarrow> if fa_record_key r = rk then ((rk, fa_anchor_seq r), raw) # seen_of ka ki rk log
                  else seen_of ka ki rk log)"

lemma parse_existing_ok:
  assumes "\<forall>raw \<in> set log. good_anchor ka ki raw \<noteq> None"
    and "\<forall>r \<in> set (key_records ka ki (fa_record_key c) log). same_owner r c"
    and "distinct (map fa_anchor_seq (key_records ka ki (fa_record_key c) log))"
    and "\<forall>r \<in> set (key_records ka ki (fa_record_key c) log). map_of seen (fa_record_key c, fa_anchor_seq r) = None"
    and "\<forall>k \<in> dom (map_of seen). fst k = fa_record_key c"
  shows "parse_existing c ka ki log seen parsed =
    Inr (Some (seen @ seen_of ka ki (fa_record_key c) log, parsed @ key_records ka ki (fa_record_key c) log))"
  using assms
proof (induction log arbitrary: seen parsed)
  case (Cons raw log)
  then obtain r where g: "decode_rvfa1 raw ka = Inr r" "record_invariants_ok r ki = Inr True"
    "good_anchor ka ki raw = Some r"
    by (auto simp: good_anchor_iff)
  note len = decoded_key_len[OF g(1)]
  show ?case
  proof (cases "fa_record_key r = fa_record_key c")
    case False
    then have "map_of seen (fa_record_key r, fa_anchor_seq r) = None"
      using Cons.prems(5) by (metis domIff fst_conv)
    with False Cons g len show ?thesis
      by (simp add: identity_key_def)
  next
    case True
    let ?seen = "seen @ [((fa_record_key c, fa_anchor_seq r), raw)]"
    have "parse_existing c ka ki log ?seen (parsed @ [r]) =
      Inr (Some (?seen @ seen_of ka ki (fa_record_key c) log,
                 (parsed @ [r]) @ key_records ka ki (fa_record_key c) log))"
      by (rule Cons.IH) (use Cons.prems g True in \<open>auto simp: map_add_def split: option.splits if_splits,
          metis image_eqI\<close>)
    with True Cons.prems g len show ?thesis
      by (simp add: identity_key_def same_owner_def update_fresh)
  qed
qed simp

lemma parse_existing_foreign:
  assumes "\<forall>raw \<in> set log. good_anchor ka ki raw \<noteq> None"
    and "\<exists>r \<in> set (key_records ka ki (fa_record_key c) log). \<not> same_owner r c"
    and "\<forall>k \<in> dom (map_of seen). fst k = fa_record_key c"
  shows "parse_existing c ka ki log seen parsed = Inr None"
  using assms
proof (induction log arbitrary: seen parsed)
  case (Cons raw log)
  then obtain r where g: "decode_rvfa1 raw ka = Inr r" "record_invariants_ok r ki = Inr True"
    "good_anchor ka ki raw = Some r"
    by (auto simp: good_anchor_iff)
  note len = decoded_key_len[OF g(1)]
  show ?case
    using Cons.prems g len
    by (auto simp: identity_key_def same_owner_def update_conv' split: option.splits if_splits intro!: Cons.IH)
qed simp

lemma seen_of_None: "map_of (seen_of ka ki rk log) (rk, n) = None \<longleftrightarrow>
    (\<forall>r \<in> set (key_records ka ki rk log). fa_anchor_seq r \<noteq> n)"
  by (induction log) (auto split: option.split)

lemma seen_of_Some: "map_of (seen_of ka ki rk log) k = Some raw \<Longrightarrow> raw \<in> set log"
  by (induction log) (auto split: option.splits if_splits)

lemma mem_key_records:
  "raw \<in> set log \<Longrightarrow> good_anchor ka ki raw = Some c \<Longrightarrow> c \<in> set (key_records ka ki (fa_record_key c) log)"
  by (induction log) (auto split: option.split)

lemma seen_of_mem: "raw \<in> set log \<Longrightarrow> good_anchor ka ki raw = Some c \<Longrightarrow>
    distinct (map fa_anchor_seq (key_records ka ki (fa_record_key c) log)) \<Longrightarrow>
    map_of (seen_of ka ki (fa_record_key c) log) (fa_record_key c, fa_anchor_seq c) = Some raw"
proof (induction log)
  case (Cons x log)
  then show ?case
    by (auto split: option.splits if_splits dest: mem_key_records[of raw log]) (metis image_eqI mem_key_records)
qed simp

lemma classify_append_bad:
  assumes "good_anchor ka ki raw = None"
  shows "classify_append log raw ka ki = Inr CORRUPT"
proof (cases "decode_rvfa1 raw ka")
  case (Inl e)
  then show ?thesis using decode_Inl[OF Inl] by (auto simp: classify_append_def)
next
  case (Inr r)
  show ?thesis
  proof (cases "record_invariants_ok r ki")
    case inl: (Inl e)
    then show ?thesis using Inr record_invariants_Inl[OF inl] by (auto simp: classify_append_def)
  next
    case (Inr b)
    with \<open>decode_rvfa1 raw ka = Inr r\<close> assms show ?thesis
      by (cases b) (simp_all add: classify_append_def good_anchor_def)
  qed
qed

text \<open>What the decision should be: replay what is stored, append what extends the key's chain.\<close>

definition anchor_decision :: "bytes \<Rightarrow> bytes \<Rightarrow> bytes list \<Rightarrow> bytes \<Rightarrow> append_decision" where
  "anchor_decision ka ki log raw =
     (case good_anchor ka ki raw of
        None \<Rightarrow> CORRUPT
      | Some c \<Rightarrow>
          if raw \<in> set log then EXACT_REPLAY
          else if anchor_chain (key_records ka ki (fa_record_key c) log @ [c]) then APPENDED
          else CORRUPT)"

lemma chain_owner: "anchor_chain rs \<Longrightarrow> r \<in> set rs \<Longrightarrow> r' \<in> set rs \<Longrightarrow> same_owner r r'"
  unfolding anchor_chain_def same_owner_def by metis

lemma good_anchor_seq: "good_anchor ka ki raw = Some c \<Longrightarrow> fa_anchor_seq c \<le> 0xFFFFFFFFFFFFFFFF"
proof -
  assume "good_anchor ka ki raw = Some c"
  then have "wf_rvfa1 c" by (metis good_anchor_iff decode_rvfa1_iff parsed_prefix_wf)
  then show ?thesis by (simp add: wf_rvfa1_def uint_fits_def)
qed

lemma classify_append_log_ok:
  assumes "log_ok ka ki log"
  shows "classify_append log raw ka ki = Inr (anchor_decision ka ki log raw)"
proof (cases "good_anchor ka ki raw")
  case None
  then show ?thesis by (simp add: classify_append_bad anchor_decision_def)
next
  case (Some c)
  let ?rk = "fa_record_key c"
  let ?rs = "key_records ka ki ?rk log"
  have g: "decode_rvfa1 raw ka = Inr c" "record_invariants_ok c ki = Inr True" and ch: "anchor_chain ?rs"
    and good: "\<forall>raw \<in> set log. good_anchor ka ki raw \<noteq> None"
    using Some assms by (auto simp: good_anchor_iff log_ok_def)
  have key: "identity_key ?rk (fa_anchor_seq c) = Inr (?rk, fa_anchor_seq c)"
    using decoded_key_len[OF g(1)] by (simp add: identity_key_def)
  show ?thesis
  proof (cases "\<forall>r \<in> set ?rs. same_owner r c")
    case False
    then have "parse_existing c ka ki log [] [] = Inr None"
      using parse_existing_foreign[OF good] by simp
    moreover have "raw \<notin> set log"
      using False chain_owner[OF ch] mem_key_records[OF _ Some, of log] by blast
    moreover have "\<not> anchor_chain (?rs @ [c])"
      using False ch by (auto simp: anchor_chain_snoc) (metis anchor_chain_def list.set_sel(1) chain_owner
        empty_iff list.set(1) same_owner_def)
    ultimately show ?thesis
      using Some g by (simp add: classify_append_def anchor_decision_def)
  next
    case True
    have p: "parse_existing c ka ki log [] [] = Inr (Some (seen_of ka ki ?rk log, ?rs))"
      using parse_existing_ok[OF good True anchor_chain_distinct[OF ch], of "[]"] by simp
    note e = anchor_chain_established[OF ch]
    show ?thesis
    proof (cases "map_of (seen_of ka ki ?rk log) (?rk, fa_anchor_seq c)")
      case same: (Some same)
      then have "same = raw \<longleftrightarrow> raw \<in> set log"
        using seen_of_Some[OF same] seen_of_mem[OF _ Some anchor_chain_distinct[OF ch]] by auto
      moreover have "\<not> anchor_chain (?rs @ [c])"
        using same seen_of_None[of ka ki ?rk log "fa_anchor_seq c"] anchor_chain_mem[OF ch, of "fa_anchor_seq c"]
        by (auto simp: anchor_chain_snoc)
      ultimately show ?thesis
        using Some g p e key same by (simp add: classify_append_def anchor_decision_def)
    next
      case None
      then have "raw \<notin> set log"
        using seen_of_mem[OF _ Some anchor_chain_distinct[OF ch]] by auto
      moreover have "anchor_chain (?rs @ [c]) \<longleftrightarrow> fa_anchor_seq c = int (length ?rs) + 1 \<and>
          status_transition_ok (if ?rs = [] then None else Some (fa_status (last ?rs))) (fa_status c)"
        using True ch by (auto simp: anchor_chain_snoc)
      ultimately show ?thesis
        using Some g p e key None anchor_chain_max[OF ch] good_anchor_seq[OF Some]
        by (auto simp: classify_append_def anchor_decision_def Let_def INITIAL_ANCHOR_SEQ_def)
    qed
  qed
qed

lemma log_ok_append:
  assumes "log_ok ka ki log" "anchor_decision ka ki log raw = APPENDED"
  shows "log_ok ka ki (log @ [raw])"
proof -
  obtain c where c: "good_anchor ka ki raw = Some c" "anchor_chain (key_records ka ki (fa_record_key c) log @ [c])"
    using assms(2) by (auto simp: anchor_decision_def split: option.splits if_splits)
  with assms(1) show ?thesis by (auto simp: log_ok_def key_records_append)
qed

lemma anchor_log_ok: "anchor_log ka ki log \<Longrightarrow> log_ok ka ki log"
proof (induction rule: anchor_log.induct)
  case empty
  then show ?case by (simp add: log_ok_def anchor_chain_def)
next
  case (append log raw)
  then show ?case using classify_append_log_ok[of ka ki log raw] log_ok_append by simp
qed

lemma anchor_log_step:
  "anchor_log ka ki log \<Longrightarrow> anchor_decision ka ki log raw = APPENDED \<Longrightarrow> anchor_log ka ki (log @ [raw])"
  using classify_append_log_ok[OF anchor_log_ok] by (auto intro: anchor_log.append)

section \<open>What the log of anchors guarantees\<close>

text \<open>
  C12: On every log built by accepted appends, the append decision is the abstract one: a stored
  byte string is an exact replay, a good record that extends its key's chain by the next sequence
  number, the same owner and a legal status edge is appended, everything else is corrupt.
\<close>

theorem append_decision_exact:
  assumes "anchor_log k_anchor k_index log"
  shows "classify_append log raw k_anchor k_index = Inr (anchor_decision k_anchor k_index log raw)"
  by (rule classify_append_log_ok[OF anchor_log_ok[OF assms]])

text \<open>The life of a key: \<open>h\<close> heads, then \<open>d\<close> deletions and \<open>t\<close> tombstones.\<close>

definition life_cycle :: "nat \<Rightarrow> nat \<Rightarrow> nat \<Rightarrow> rvfa1_status list" where
  "life_cycle h d t = replicate h HEAD @ replicate d DELETING @ replicate t TOMBSTONE"

lemma life_cycle_head: "HEAD # life_cycle h d t = life_cycle (Suc h) d t"
  by (simp add: life_cycle_def)

lemma status_path_tombstone: "status_path (Some TOMBSTONE) ss \<longleftrightarrow> ss = []"
  by (cases ss) simp_all

lemma status_path_deleting: "status_path (Some DELETING) ss \<longleftrightarrow> ss = [] \<or> ss = [TOMBSTONE]"
  by (cases ss) (auto simp: status_path_tombstone)

lemma status_path_shape:
  "status_path (Some HEAD) ss \<Longrightarrow> \<exists>h d t. ss = life_cycle h d t \<and> t \<le> d \<and> d \<le> 1"
proof (induction ss)
  case Nil
  have "[] = life_cycle 0 0 0" by (simp add: life_cycle_def)
  then show ?case by blast
next
  case (Cons s ss)
  from Cons.prems consider "s = HEAD" "status_path (Some HEAD) ss" | "s = DELETING" "ss = []"
    | "s = DELETING" "ss = [TOMBSTONE]"
    by (auto simp: status_path_deleting)
  then show ?case
  proof cases
    case 1
    with Cons.IH life_cycle_head show ?thesis by metis
  next
    case 2
    then have "s # ss = life_cycle 0 1 0" by (simp add: life_cycle_def)
    then show ?thesis by fastforce
  next
    case 3
    then have "s # ss = life_cycle 0 1 1" by (simp add: life_cycle_def)
    then show ?thesis by fastforce
  qed
qed

lemma chain_status_shape:
  assumes "anchor_chain rs"
  shows "\<exists>h d t. map fa_status rs = life_cycle h d t \<and> t \<le> d \<and> d \<le> 1"
proof (cases rs)
  case Nil
  then have "map fa_status rs = life_cycle 0 0 0" by (simp add: life_cycle_def)
  then show ?thesis by fastforce
next
  case (Cons r rest)
  with assms have "fa_status r = HEAD" "status_path (Some HEAD) (map fa_status rest)"
    by (auto simp: anchor_chain_def)
  with Cons status_path_shape[of "map fa_status rest"] life_cycle_head show ?thesis
    by (metis list.simps(9))
qed

text \<open>
  C5: In every log built by accepted appends the records of each key are numbered 1, 2, 3, ... in
  stored order, belong to one session and role, and run through HEAD, then at most one DELETING,
  then at most one TOMBSTONE, after which nothing of that key is appended; every stored record is
  recognised as an exact replay.
\<close>

theorem anchor_log_chain:
  assumes "anchor_log k_anchor k_index log"
  shows "(\<forall>i < length (key_records k_anchor k_index rk log).
            fa_anchor_seq (key_records k_anchor k_index rk log ! i) = int i + 1) \<and>
         list_all (same_owner (hd (key_records k_anchor k_index rk log))) (key_records k_anchor k_index rk log) \<and>
         (\<exists>h d t. map fa_status (key_records k_anchor k_index rk log) = life_cycle h d t \<and>
              t \<le> d \<and> d \<le> 1 \<and>
              (0 < t \<longrightarrow> (\<forall>raw c. good_anchor k_anchor k_index raw = Some c \<and> fa_record_key c = rk \<longrightarrow>
                 classify_append log raw k_anchor k_index \<noteq> Inr APPENDED))) \<and>
         list_all (\<lambda>raw. classify_append log raw k_anchor k_index = Inr EXACT_REPLAY) log"
proof -
  note ok = anchor_log_ok[OF assms]
  let ?rs = "key_records k_anchor k_index rk log"
  have ch: "anchor_chain ?rs" using ok by (simp add: log_ok_def)
  then obtain h d t where sh: "map fa_status ?rs = life_cycle h d t" "t \<le> d" "d \<le> 1"
    using chain_status_shape by blast
  have final: "classify_append log raw k_anchor k_index \<noteq> Inr APPENDED"
    if "0 < t" "good_anchor k_anchor k_index raw = Some c" "fa_record_key c = rk" for raw c
  proof -
    have "last (map fa_status ?rs) = TOMBSTONE" "?rs \<noteq> []"
      using sh(1) that(1) by (auto simp: life_cycle_def)
    then show ?thesis
      using that by (auto simp: classify_append_log_ok[OF ok] anchor_decision_def anchor_chain_snoc last_map)
  qed
  have "list_all (\<lambda>raw. classify_append log raw k_anchor k_index = Inr EXACT_REPLAY) log"
    using ok by (auto simp: list_all_iff classify_append_log_ok[OF ok] anchor_decision_def log_ok_def
        split: option.split)
  moreover from ch have "list_all (same_owner (hd ?rs)) ?rs" "\<forall>i < length ?rs. fa_anchor_seq (?rs ! i) = int i + 1"
    by (simp_all add: anchor_chain_def list_all_iff)
  ultimately show ?thesis using sh final by blast
qed

section \<open>Derived keys and the rollback class\<close>

lemma anchor_hkdf_total:
  "len \<le> 8160 \<Longrightarrow> \<exists>okm. anchor_hkdf_sha256 ikm salt info len = Inr okm \<and> length okm = len"
  using hmac256.expand_loop_total[of len "[]" 255] by (simp add: anchor_hkdf_sha256_def Let_def)

lemma derive_store_keys_total:
  assumes "length seed = 32"
  shows "\<exists>k. derive_store_keys seed = Inr k \<and> map length [dk_state k, dk_index k, dk_sql k, dk_local k,
           dk_anchor k, dk_sql_salt k] = [32, 32, 32, 32, 32, 16]"
proof -
  note h = anchor_hkdf_total[where ikm = seed and salt = HKDF_ZERO_SALT]
  show ?thesis
    using assms h[of 32 INFO_STATE] h[of 32 INFO_INDEX] h[of 32 INFO_SQL] h[of 32 INFO_LOCAL]
      h[of 32 INFO_ANCHOR] h[of 16 INFO_SQL_SALT]
    by (auto simp: derive_store_keys_def SEED_LEN_def)
qed

lemma open_rollback_aligned:
  "open_rollback_class ag ad ar fg fd fr = Inr ''aligned'' \<longleftrightarrow>
     length ad = 32 \<and> ag = fg \<and> ad = fd \<and> ar = fr"
  by (auto simp: open_rollback_class_def bindE_eq_Inr require_len_iff split: if_splits)

lemma open_rollback_mirror:
  "open_rollback_class ag ad ar fg fd fr = Inr ''anchor_behind_container'' \<longleftrightarrow>
     open_rollback_class fg fd fr ag ad ar = Inr ''container_behind_anchor''"
  by (auto simp: open_rollback_class_def bindE_eq_Inr require_len_iff split: if_splits)

section \<open>An example log\<close>

definition ex_anchor_key :: bytes where "ex_anchor_key = replicate 32 1"
definition ex_index_key :: bytes where "ex_index_key = replicate 32 2"

definition ex_anchor :: "rvfa1_status \<Rightarrow> int \<Rightarrow> bytes \<Rightarrow> int \<Rightarrow> rvfa1" where
  "ex_anchor st n tid horizon =
     \<lparr>fa_status = st, fa_role = 0, fa_record_key = hmac_sha256 ex_index_key (RECORD_DOMAIN @ zeros 32),
      fa_session_id = zeros 32, fa_anchor_seq = n, fa_generation = n, fa_cleared_state_digest = zeros 32,
      fa_cleared_store_revision = n, fa_transition_id = tid, fa_horizon_ms = horizon, fa_hmac = []\<rparr>"

definition ex_raw :: "rvfa1 \<Rightarrow> bytes" where
  "ex_raw r = rvfa1_prefix r @ hmac_sha256 ex_anchor_key (rvfa1_prefix r)"

definition ex_log :: "bytes list" where
  "ex_log = [ex_raw (ex_anchor HEAD 1 (zeros 32) 0), ex_raw (ex_anchor DELETING 2 (replicate 32 3) 9)]"

definition ex_tombstone :: bytes where
  "ex_tombstone = ex_raw (ex_anchor TOMBSTONE 3 (zeros 32) 9)"

lemma good_ex_raw:
  assumes "wf_rvfa1 r" "fa_hmac r = []" "record_invariants_ok (r\<lparr>fa_hmac := h\<rparr>) ex_index_key = Inr True"
    "h = hmac_sha256 ex_anchor_key (rvfa1_prefix r)"
  shows "good_anchor ex_anchor_key ex_index_key (ex_raw r) = Some (r\<lparr>fa_hmac := h\<rparr>)"
proof -
  have "encode_rvfa1 r ex_anchor_key = Inr (ex_raw r)"
    using assms(1,2) by (simp add: encode_rvfa1_iff ex_raw_def ex_anchor_key_def)
  from decode_encode_rvfa1[OF this] assms show ?thesis
    by (simp add: good_anchor_iff ex_raw_def)
qed

lemma zeros_ne_ones [simp]: "zeros 32 \<noteq> replicate 32 3" "replicate 32 3 \<noteq> zeros 32"
  by (simp_all add: zeros_def)

lemma good_ex:
  "good_anchor ex_anchor_key ex_index_key (ex_raw (ex_anchor HEAD 1 (zeros 32) 0)) =
     Some (ex_anchor HEAD 1 (zeros 32) 0
       \<lparr>fa_hmac := hmac_sha256 ex_anchor_key (rvfa1_prefix (ex_anchor HEAD 1 (zeros 32) 0))\<rparr>)"
  "good_anchor ex_anchor_key ex_index_key (ex_raw (ex_anchor DELETING 2 (replicate 32 3) 9)) =
     Some (ex_anchor DELETING 2 (replicate 32 3) 9
       \<lparr>fa_hmac := hmac_sha256 ex_anchor_key (rvfa1_prefix (ex_anchor DELETING 2 (replicate 32 3) 9))\<rparr>)"
  "good_anchor ex_anchor_key ex_index_key ex_tombstone =
     Some (ex_anchor TOMBSTONE 3 (zeros 32) 9
       \<lparr>fa_hmac := hmac_sha256 ex_anchor_key (rvfa1_prefix (ex_anchor TOMBSTONE 3 (zeros 32) 9))\<rparr>)"
  unfolding ex_tombstone_def
  by (rule good_ex_raw; simp add: ex_anchor_def wf_rvfa1_def uint_fits_def record_invariants_ok_def record_key_def
      ex_index_key_def INITIAL_ANCHOR_SEQ_def)+

lemma ex_records:
  "key_records ex_anchor_key ex_index_key (hmac_sha256 ex_index_key (RECORD_DOMAIN @ zeros 32)) ex_log =
     map (\<lambda>r. r\<lparr>fa_hmac := hmac_sha256 ex_anchor_key (rvfa1_prefix r)\<rparr>)
       [ex_anchor HEAD 1 (zeros 32) 0, ex_anchor DELETING 2 (replicate 32 3) 9]"
  by (simp add: ex_log_def good_ex) (simp add: ex_anchor_def)

lemma ex_raw_ne: "good_anchor ka ki a = Some r \<Longrightarrow> good_anchor ka ki b = Some s \<Longrightarrow>
    fa_anchor_seq r \<noteq> fa_anchor_seq s \<Longrightarrow> a \<noteq> b"
  by auto

lemma ex_log_ok: "anchor_log ex_anchor_key ex_index_key ex_log"
proof -
  let ?a = "ex_raw (ex_anchor HEAD 1 (zeros 32) 0)"
  let ?b = "ex_raw (ex_anchor DELETING 2 (replicate 32 3) 9)"
  have ne: "?b \<noteq> ?a"
    by (rule ex_raw_ne[OF good_ex(2) good_ex(1)]) (simp add: ex_anchor_def)
  have "anchor_decision ex_anchor_key ex_index_key [] ?a = APPENDED"
    by (simp add: anchor_decision_def good_ex(1)) (simp add: ex_anchor_def anchor_chain_def same_owner_def)
  from anchor_log_step[OF anchor_log.empty this]
  have 1: "anchor_log ex_anchor_key ex_index_key [?a]" by simp
  have "anchor_decision ex_anchor_key ex_index_key [?a] ?b = APPENDED"
    using ne by (simp add: anchor_decision_def good_ex) (simp add: ex_anchor_def anchor_chain_def same_owner_def All_less_Suc)
  from anchor_log_step[OF 1 this] show ?thesis by (simp add: ex_log_def)
qed

lemma ex_decision: "anchor_decision ex_anchor_key ex_index_key ex_log ex_tombstone = APPENDED"
proof -
  have "ex_tombstone \<notin> set ex_log"
    unfolding ex_log_def using ex_raw_ne[OF good_ex(3) good_ex(1)] ex_raw_ne[OF good_ex(3) good_ex(2)]
    by (simp add: ex_anchor_def)
  moreover have "fa_record_key (ex_anchor TOMBSTONE 3 (zeros 32) 9) =
      hmac_sha256 ex_index_key (RECORD_DOMAIN @ zeros 32)"
    by (simp add: ex_anchor_def)
  ultimately show ?thesis
    by (simp add: anchor_decision_def good_ex ex_records)
      (simp add: ex_anchor_def anchor_chain_def same_owner_def All_less_Suc numeral_2_eq_2)
qed

theorem append_decision_exact_witness:
  "classify_append ex_log ex_tombstone ex_anchor_key ex_index_key = Inr APPENDED"
  using append_decision_exact[OF ex_log_ok, of ex_tombstone] by (simp add: ex_decision)

lemma ex_log_all_ok: "anchor_log ex_anchor_key ex_index_key (ex_log @ [ex_tombstone])"
  by (rule anchor_log_step[OF ex_log_ok ex_decision])

theorem anchor_log_chain_witness:
  "classify_append (ex_log @ [ex_tombstone]) ex_tombstone ex_anchor_key ex_index_key = Inr EXACT_REPLAY"
  using anchor_log_chain[OF ex_log_all_ok] by simp

end
