(* ===== verification/PyText.thy ===== *)
theory PyText
  imports Codec Ratchet "HOL-Library.Char_ord"
begin

text \<open>
  The operations of Python's \<open>str\<close>, \<open>bytes.fromhex\<close> and \<open>base64\<close> that the agent code uses. A
  string is a list of characters with code points below 256; case mapping is that of ASCII, the
  only letters these modules fold.
\<close>

section \<open>Encodings\<close>

definition utf8_char :: "char \<Rightarrow> bytes" where
  "utf8_char c = (let n = of_char c :: int in
     if n < 128 then [word_of_int n] else [word_of_int (192 + n div 64), word_of_int (128 + n mod 64)])"

definition utf8 :: "string \<Rightarrow> bytes" where
  "utf8 s = concat (map utf8_char s)"

definition lower_char :: "char \<Rightarrow> char" where
  "lower_char c = (let n = of_char c :: nat in if 65 \<le> n \<and> n \<le> 90 then char_of (n + 32) else c)"

definition upper_char :: "char \<Rightarrow> char" where
  "upper_char c = (let n = of_char c :: nat in if 97 \<le> n \<and> n \<le> 122 then char_of (n - 32) else c)"

definition str_lower :: "string \<Rightarrow> string" where
  "str_lower s = map lower_char s"

definition str_upper :: "string \<Rightarrow> string" where
  "str_upper s = map upper_char s"

text \<open>ASCII white space: \<open>bytes.fromhex\<close> skips it between bytes; \<open>str.strip\<close> removes a few more characters.\<close>

definition is_space :: "char \<Rightarrow> bool" where
  "is_space c \<longleftrightarrow> (of_char c :: nat) \<in> {9, 10, 11, 12, 13, 32}"

definition is_strip :: "char \<Rightarrow> bool" where
  "is_strip c \<longleftrightarrow> (of_char c :: nat) \<in> {9, 10, 11, 12, 13, 28, 29, 30, 31, 32, 133, 160}"

definition str_strip :: "string \<Rightarrow> string" where
  "str_strip s = rev (dropWhile is_strip (rev (dropWhile is_strip s)))"

section \<open>Hexadecimal\<close>

definition hex_val :: "char \<Rightarrow> nat option" where
  "hex_val c = (let n = of_char c :: nat in
     if 48 \<le> n \<and> n \<le> 57 then Some (n - 48)
     else if 97 \<le> n \<and> n \<le> 102 then Some (n - 87)
     else if 65 \<le> n \<and> n \<le> 70 then Some (n - 55) else None)"

fun fromhex :: "string \<Rightarrow> bytes res" where
  "fromhex [] = Inr []"
| "fromhex (c # cs) =
     (if is_space c then fromhex cs
      else case (hex_val c, cs) of
        (Some h, d # ds) \<Rightarrow>
          (case hex_val d of
             Some l \<Rightarrow> bindE (fromhex ds) (\<lambda>bs. Inr (word_of_nat (16 * h + l) # bs))
           | None \<Rightarrow> Inl (ValueError ''non-hexadecimal number found in fromhex() arg''))
      | _ \<Rightarrow> Inl (ValueError ''non-hexadecimal number found in fromhex() arg''))"

section \<open>Base 64\<close>

text \<open>The alphabet \<open>A..Z a..z 0..9 + /\<close>.\<close>

definition b64_digit :: "nat \<Rightarrow> char" where
  "b64_digit n = char_of
     (if n < 26 then n + 65 else if n < 52 then n + 71 else if n < 62 then n - 4
      else if n = 62 then 43 else 47)"

fun b64encode :: "bytes \<Rightarrow> string" where
  "b64encode (a # b # c # rest) =
     (let n = unat a * 65536 + unat b * 256 + unat c in
      [b64_digit (n div 262144), b64_digit (n div 4096 mod 64), b64_digit (n div 64 mod 64), b64_digit (n mod 64)]
        @ b64encode rest)"
| "b64encode [a, b] =
     (let n = unat a * 1024 + unat b * 4 in
      [b64_digit (n div 4096), b64_digit (n div 64 mod 64), b64_digit (n mod 64), CHR ''=''])"
| "b64encode [a] =
     (let n = unat a * 16 in [b64_digit (n div 64), b64_digit (n mod 64), CHR ''='', CHR ''=''])"
| "b64encode [] = []"

definition b64_val :: "char \<Rightarrow> nat option" where
  "b64_val c = (let n = of_char c :: nat in
     if 65 \<le> n \<and> n \<le> 90 then Some (n - 65)
     else if 97 \<le> n \<and> n \<le> 122 then Some (n - 71)
     else if 48 \<le> n \<and> n \<le> 57 then Some (n + 4)
     else if n = 43 then Some 62 else if n = 47 then Some 63 else None)"

text \<open>
  \<open>base64.b64decode(s, validate=True)\<close>: only alphabet characters and the padding that completes
  the last group are accepted; the unused low bits of the last digit are ignored, as CPython does.
\<close>

definition b64_error :: py_exc where
  "b64_error = ValueError ''invalid base64''"

fun b64decode :: "string \<Rightarrow> bytes res" where
  "b64decode [] = Inr []"
| "b64decode (p # q # r # s # rest) =
     (case (b64_val p, b64_val q, b64_val r, b64_val s) of
        (Some a, Some b, Some c, Some d) \<Rightarrow>
          bindE (b64decode rest) (\<lambda>bs.
            let n = a * 262144 + b * 4096 + c * 64 + d in
            Inr (word_of_nat (n div 65536) # word_of_nat (n div 256 mod 256) # word_of_nat (n mod 256) # bs))
      | (Some a, Some b, Some c, None) \<Rightarrow>
          if s = CHR ''='' \<and> rest = []
          then let n = a * 4096 + b * 64 + c in Inr [word_of_nat (n div 1024), word_of_nat (n div 4 mod 256)]
          else Inl b64_error
      | (Some a, Some b, None, None) \<Rightarrow>
          if r = CHR ''='' \<and> s = CHR ''='' \<and> rest = []
          then let n = a * 64 + b in Inr [word_of_nat (n div 16)]
          else Inl b64_error
      | _ \<Rightarrow> Inl b64_error)"
| "b64decode _ = Inl b64_error"


section \<open>Decoding inverts encoding\<close>

lemma hex_digit_val: "n < 16 \<Longrightarrow> hex_val (hex_digit n) = Some n \<and> \<not> is_space (hex_digit n)"
proof -
  have "list_all (\<lambda>n. hex_val (hex_digit n) = Some n \<and> \<not> is_space (hex_digit n)) [0..<16]"
    by code_simp
  then show "n < 16 \<Longrightarrow> ?thesis" by (simp add: list_all_iff)
qed

lemma unat_byte_less [simp]: "unat (b :: byte) < 256"
  using uint_byte_bounds[of b] by (simp add: unat_eq_nat_uint nat_less_iff del: nat_uint_eq)

lemma hex_join: "word_of_nat (16 * (unat b div 16) + unat b mod 16) = (b :: byte)"
  by simp

lemma fromhex_hex [simp]: "fromhex (bytes_hex bs) = Inr bs"
proof (induction bs)
  case (Cons b bs)
  have "unat b div 16 < 16" using unat_byte_less[of b] by linarith
  with hex_digit_val[of "unat b div 16"] hex_digit_val[of "unat b mod 16"] Cons hex_join[of b]
  show ?case by (simp add: bytes_hex_def)
qed (simp add: bytes_hex_def)

lemma length_bytes_hex [simp]: "length (bytes_hex bs) = 2 * length bs"
  by (induction bs) (simp_all add: bytes_hex_def)

lemma b64_digit_val: "n < 64 \<Longrightarrow> b64_val (b64_digit n) = Some n"
  by (auto simp: b64_val_def b64_digit_def Let_def)

lemma b64_pad_val [simp]: "b64_val (CHR ''='') = None"
  by code_simp

lemma cut_at: "(y :: nat) < k \<Longrightarrow> (x * k + y) div k = x" "(y :: nat) < k \<Longrightarrow> (x * k + y) mod k = y"
  by simp_all

lemma regroup_step:
  "(q3 :: nat) * 64 + r2 = q2 \<Longrightarrow> q2 * 64 + r1 = q1 \<Longrightarrow> q1 * 64 + r0 = n \<Longrightarrow>
     q3 * 262144 + r2 * 4096 + r1 * 64 + r0 = n \<and> q2 * 4096 + r1 * 64 + r0 = n"
  by linarith

lemma b64_regroup:
  "(n :: nat) div 262144 * 262144 + n div 4096 mod 64 * 4096 + n div 64 mod 64 * 64 + n mod 64 = n"
  "n div 4096 * 4096 + n div 64 mod 64 * 64 + n mod 64 = n"
proof -
  have "n div 64 div 64 = n div 4096" "n div 4096 div 64 = n div 262144"
    by (simp_all add: div_mult2_eq[symmetric])
  then show "n div 262144 * 262144 + n div 4096 mod 64 * 4096 + n div 64 mod 64 * 64 + n mod 64 = n"
    "n div 4096 * 4096 + n div 64 mod 64 * 64 + n mod 64 = n"
    using regroup_step[OF div_mult_mod_eq[of "n div 4096" 64] _ div_mult_mod_eq[of n 64]]
      div_mult_mod_eq[of "n div 64" 64] by simp_all
qed

lemma b64decode_encode [simp]: "b64decode (b64encode bs) = Inr bs"
proof (induction bs rule: b64encode.induct)
  case (1 a b c rest)
  let ?n = "unat a * 65536 + unat b * 256 + unat c"
  have lt: "?n < 16777216" using unat_byte_less[of a] unat_byte_less[of b] unat_byte_less[of c] by linarith
  have "?n = unat a * 65536 + (unat b * 256 + unat c)" "?n = (unat a * 256 + unat b) * 256 + unat c"
    by simp_all
  moreover have "unat b * 256 + unat c < 65536"
    using unat_byte_less[of b] unat_byte_less[of c] by linarith
  ultimately have d: "?n div 65536 = unat a" "?n div 256 mod 256 = unat b" "?n mod 256 = unat c"
    using cut_at unat_byte_less[of b] unat_byte_less[of c] by metis+
  have "?n div 262144 < 64" using lt by linarith
  then show ?case
    using 1 d by (simp add: Let_def b64_digit_val b64_regroup del: One_nat_def)
next
  case (2 a b)
  let ?n = "unat a * 1024 + unat b * 4"
  have lt: "?n < 262144" using unat_byte_less[of a] unat_byte_less[of b] by linarith
  have "?n = unat a * 1024 + unat b * 4" "?n = (unat a * 256 + unat b) * 4 + 0" by simp_all
  moreover have "unat b * 4 < 1024" "(0 :: nat) < 4" using unat_byte_less[of b] by simp_all
  ultimately have d: "?n div 1024 = unat a" "?n div 4 mod 256 = unat b"
    using cut_at unat_byte_less[of b] by metis+
  have "?n div 4096 < 64" using lt by linarith
  then show ?case
    using d by (simp add: Let_def b64_digit_val b64_regroup del: One_nat_def)
next
  case (3 a)
  define n where "n = unat a * 16"
  then have "n div 64 < 64" "n div 16 = unat a" using unat_byte_less[of a] by linarith+
  then show ?case
    using div_mult_mod_eq[of n 64] by (simp add: Let_def b64_digit_val n_def[symmetric] del: One_nat_def)
qed simp

end
