(* ===== verification/TaskStore.thy ===== *)
theory TaskStore
  imports Complex_Main PyText
begin

text \<open>
  \<open>team_agents/task_store.py\<close>: the bounded, owner-scoped store of A2A tasks. The \<open>Task\<close> message,
  the owner resolver, the page tokens and the clock belong to the a2a package and the system: a
  task is the record of the fields the store reads, the others being one byte string, and the
  functions are the fields of \<open>a2a\<close>. Clock readings are exact numbers, one argument per
  operation, in any order. Every operation holds the store's lock while it reads or writes, so it
  is one step on the store; an error carries the store it leaves behind.
\<close>

section \<open>Tasks and the a2a package\<close>

datatype task_state =
    TASK_STATE_COMPLETED
  | TASK_STATE_CANCELED
  | TASK_STATE_FAILED
  | TASK_STATE_REJECTED
  | TASK_STATE_UNSPECIFIED
  | TASK_STATE_ACTIVE nat

record task_status =
  ts_state :: task_state
  ts_timestamp :: "string option"

record task =
  tk_id :: string
  tk_context_id :: string
  tk_status :: "task_status option"
  tk_rest :: bytes

record 'c a2a =
  resolve_owner :: "'c \<Rightarrow> string"
  byte_size :: "task \<Rightarrow> nat"
  encode_page_token :: "string \<Rightarrow> string"
  decode_page_token :: "string \<Rightarrow> string res"
  default_page_size :: int

record list_request =
  lr_context_id :: string
  lr_status :: task_state
  lr_after :: "string option"
  lr_page_token :: string
  lr_page_size :: int

record list_response =
  lp_next_page_token :: "string option"
  lp_tasks :: "task list"
  lp_total_size :: int
  lp_page_size :: int

section \<open>The store\<close>

definition MAX_OWNER_KEY_BYTES :: nat where "MAX_OWNER_KEY_BYTES = 1024"
definition MAX_TASK_ID_KEY_BYTES :: nat where "MAX_TASK_ID_KEY_BYTES = 4096"
definition ENTRY_OVERHEAD_BYTES :: int where "ENTRY_OVERHEAD_BYTES = 512"
definition TERMINAL_STATES :: "task_state list" where
  "TERMINAL_STATES = [TASK_STATE_COMPLETED, TASK_STATE_CANCELED, TASK_STATE_FAILED, TASK_STATE_REJECTED]"

record entry =
  en_task :: task
  en_updated_at :: rat
  en_size :: int

type_synonym store_key = "string \<times> string"

record task_store =
  max_count :: int
  max_bytes :: int
  ttl_seconds :: rat
  entries :: "(store_key, entry) dict"
  total_bytes :: int

definition new_store :: "int \<Rightarrow> int \<Rightarrow> rat \<Rightarrow> task_store res" where
  "new_store count bytes ttl =
     (if count \<le> 0 \<or> bytes \<le> 0 \<or> ttl \<le> 0 then Inl (ValueError ''task-store limits must be positive'')
      else Inr \<lparr>max_count = count, max_bytes = bytes, ttl_seconds = ttl, entries = [], total_bytes = 0\<rparr>)"

definition store_owner :: "'c a2a \<Rightarrow> 'c \<Rightarrow> string res" where
  "store_owner env context =
     (let owner = resolve_owner env context in
      if length (utf8 owner) > MAX_OWNER_KEY_BYTES then Inl (InvalidParamsError ''oversized task owner'')
      else Inr owner)"

text \<open>\<open>task.status.state\<close>: the default when the message has no status.\<close>

definition state_of :: "task \<Rightarrow> task_state" where
  "state_of task = (case tk_status task of None \<Rightarrow> TASK_STATE_UNSPECIFIED | Some s \<Rightarrow> ts_state s)"

definition terminal :: "task \<Rightarrow> bool" where
  "terminal task \<longleftrightarrow> state_of task \<in> set TERMINAL_STATES"

definition rejected :: "task \<Rightarrow> bool" where
  "rejected task \<longleftrightarrow> state_of task = TASK_STATE_REJECTED"

definition entry_size :: "'c a2a \<Rightarrow> task \<Rightarrow> string \<Rightarrow> int" where
  "entry_size env task owner = int (byte_size env task) + int (length (utf8 owner)) + ENTRY_OVERHEAD_BYTES"

definition remove_locked :: "store_key \<Rightarrow> task_store \<Rightarrow> task_store" where
  "remove_locked key st =
     (case map_of (entries st) key of
        None \<Rightarrow> st
      | Some entry \<Rightarrow> st\<lparr>entries := AList.delete key (entries st), total_bytes := total_bytes st - en_size entry\<rparr>)"

definition expired :: "rat \<Rightarrow> rat \<Rightarrow> entry \<Rightarrow> bool" where
  "expired ttl now entry \<longleftrightarrow> terminal (en_task entry) \<and> now - en_updated_at entry \<ge> ttl"

definition prune_expired_locked :: "rat \<Rightarrow> task_store \<Rightarrow> task_store" where
  "prune_expired_locked now st =
     fold remove_locked (map fst (filter (\<lambda>(key, entry). expired (ttl_seconds st) now entry) (entries st))) st"

text \<open>The loop over the candidates, oldest first, from the projected count and bytes.\<close>

fun pick_victims :: "task_store \<Rightarrow> (rat \<times> store_key) list \<Rightarrow> int \<Rightarrow> int \<Rightarrow> store_key list \<Rightarrow> store_key list res" where
  "pick_victims st [] count bytes victims =
     Inl (TaskStoreCapacityError ''task store capacity exhausted by active or oversized work'')"
| "pick_victims st ((_, victim) # rest) count bytes victims =
     (case map_of (entries st) victim of
        None \<Rightarrow> Inl (KeyError ''victim'')
      | Some entry \<Rightarrow>
          let victims = victims @ [victim]; count = count - 1; bytes = bytes - en_size entry in
          if count \<le> max_count st \<and> bytes \<le> max_bytes st then Inr victims
          else pick_victims st rest count bytes victims)"

definition eviction_candidates :: "store_key \<Rightarrow> task_store \<Rightarrow> (rat \<times> store_key) list" where
  "eviction_candidates key st =
     sort_key (\<lambda>item. (fst item, snd item))
       (map (\<lambda>(other, entry). (en_updated_at entry, other))
          (filter (\<lambda>(other, entry). other \<noteq> key \<and> terminal (en_task entry)) (entries st)))"

definition evictions_for_locked :: "store_key \<Rightarrow> int \<Rightarrow> task_store \<Rightarrow> store_key list res" where
  "evictions_for_locked key incoming_size st =
     (let existing = map_of (entries st) key;
          count = int (length (entries st)) + (if existing \<noteq> None then 0 else 1);
          bytes = total_bytes st - (case existing of Some e \<Rightarrow> en_size e | None \<Rightarrow> 0) + incoming_size in
      if count \<le> max_count st \<and> bytes \<le> max_bytes st then Inr []
      else pick_victims st (eviction_candidates key st) count bytes [])"

section \<open>Operations\<close>

definition save_task :: "'c a2a \<Rightarrow> rat \<Rightarrow> task \<Rightarrow> 'c \<Rightarrow> task_store \<Rightarrow> unit res \<times> task_store" where
  "save_task env now task context st =
     (case store_owner env context of
        Inl e \<Rightarrow> (Inl e, st)
      | Inr owner \<Rightarrow>
      let task_id = tk_id task in
      if task_id = [] \<or> length (utf8 task_id) > MAX_TASK_ID_KEY_BYTES
      then (Inl (InvalidParamsError ''invalid or oversized task id''), st)
      else let key = (owner, task_id) in
      if rejected task
      then let st = prune_expired_locked now st in
        (Inr (), (case map_of (entries st) key of
                    Some existing \<Rightarrow> if rejected (en_task existing) then remove_locked key st else st
                  | None \<Rightarrow> st))
      else let copied = task; size = entry_size env copied owner in
      if size > max_bytes st
      then (Inl (TaskStoreCapacityError ''task exceeds the task-store byte limit''), st)
      else let st = prune_expired_locked now st in
      (case evictions_for_locked key size st of
        Inl e \<Rightarrow> (Inl e, st)
      | Inr victims \<Rightarrow>
          let st = remove_locked key (fold remove_locked victims st) in
          (Inr (), st\<lparr>entries := AList.update key \<lparr>en_task = copied, en_updated_at = now, en_size = size\<rparr> (entries st),
                      total_bytes := total_bytes st + size\<rparr>)))"

definition get_task :: "'c a2a \<Rightarrow> rat \<Rightarrow> string \<Rightarrow> 'c \<Rightarrow> task_store \<Rightarrow> task option res \<times> task_store" where
  "get_task env now task_id context st =
     (case store_owner env context of
        Inl e \<Rightarrow> (Inl e, st)
      | Inr owner \<Rightarrow>
      if length (utf8 task_id) > MAX_TASK_ID_KEY_BYTES
      then (Inl (InvalidParamsError ''oversized task id''), st)
      else let st = prune_expired_locked now st in
        (Inr (map_option en_task (map_of (entries st) (owner, task_id))), st))"

definition has_timestamp :: "task \<Rightarrow> bool" where
  "has_timestamp task \<longleftrightarrow> (case tk_status task of None \<Rightarrow> False | Some s \<Rightarrow> ts_timestamp s \<noteq> None)"

definition timestamp_text :: "task \<Rightarrow> string" where
  "timestamp_text task =
     (case tk_status task of None \<Rightarrow> [] | Some s \<Rightarrow> (case ts_timestamp s of None \<Rightarrow> [] | Some t \<Rightarrow> t))"

definition list_key :: "task \<Rightarrow> bool \<times> string \<times> string" where
  "list_key task = (has_timestamp task, timestamp_text task, tk_id task)"

definition matching_tasks :: "list_request \<Rightarrow> task list \<Rightarrow> task list" where
  "matching_tasks params tasks =
     (let tasks = (if lr_context_id params \<noteq> [] then filter (\<lambda>t. tk_context_id t = lr_context_id params) tasks else tasks);
          tasks = (if lr_status params \<noteq> TASK_STATE_UNSPECIFIED then filter (\<lambda>t. state_of t = lr_status params) tasks else tasks);
          tasks = (case lr_after params of None \<Rightarrow> tasks
                   | Some threshold \<Rightarrow> filter (\<lambda>t. has_timestamp t \<and> threshold \<le> timestamp_text t) tasks)
      in rev (sort_key list_key (rev tasks)))"

text \<open>The position of a task in the page order: the loop with its \<open>else\<close> clause.\<close>

fun find_task :: "string \<Rightarrow> nat \<Rightarrow> task list \<Rightarrow> nat option" where
  "find_task task_id n [] = None"
| "find_task task_id n (t # ts) = (if tk_id t = task_id then Some n else find_task task_id (n + 1) ts)"

definition page_of :: "'c a2a \<Rightarrow> list_request \<Rightarrow> int \<Rightarrow> task list \<Rightarrow> list_response res" where
  "page_of env params limit tasks =
     (let total_size = int (length tasks) in
      bindE (if lr_page_token params = [] then Inr 0
             else bindE (decode_page_token env (lr_page_token params)) (\<lambda>start_task_id.
               case find_task start_task_id 0 tasks of
                 Some n \<Rightarrow> Inr n
               | None \<Rightarrow> Inl (InvalidParamsError (''Invalid page token: '' @ lr_page_token params)))) (\<lambda>start_idx.
      let page_size = (if lr_page_size params \<noteq> 0 then lr_page_size params else default_page_size env) in
      if page_size \<le> 0 then Inl (InvalidParamsError ''page size must be positive'')
      else let end_idx = start_idx + nat (min page_size limit);
               next_token = (if int end_idx < total_size then Some (encode_page_token env (tk_id (tasks ! end_idx))) else None)
           in Inr \<lparr>lp_next_page_token = next_token, lp_tasks = drop start_idx (take end_idx tasks),
                   lp_total_size = total_size, lp_page_size = min page_size limit\<rparr>))"

definition list_tasks :: "'c a2a \<Rightarrow> rat \<Rightarrow> list_request \<Rightarrow> 'c \<Rightarrow> task_store \<Rightarrow> list_response res \<times> task_store" where
  "list_tasks env now params context st =
     (case store_owner env context of
        Inl e \<Rightarrow> (Inl e, st)
      | Inr owner \<Rightarrow>
      let st = prune_expired_locked now st;
          tasks = map (\<lambda>(_, entry). en_task entry) (filter (\<lambda>((entry_owner, _), _). entry_owner = owner) (entries st))
      in (page_of env params (max_count st) (matching_tasks params tasks), st))"

definition delete_task :: "'c a2a \<Rightarrow> rat \<Rightarrow> string \<Rightarrow> 'c \<Rightarrow> task_store \<Rightarrow> unit res \<times> task_store" where
  "delete_task env now task_id context st =
     (case store_owner env context of
        Inl e \<Rightarrow> (Inl e, st)
      | Inr owner \<Rightarrow> (Inr (), remove_locked (owner, task_id) (prune_expired_locked now st)))"

definition store_stats :: "rat \<Rightarrow> task_store \<Rightarrow> (string, int) dict \<times> task_store" where
  "store_stats now st =
     (let st = prune_expired_locked now st in
      ([(''count'', int (length (entries st))), (''bytes'', total_bytes st),
        (''owners'', int (length (remdups (map (fst \<circ> fst) (entries st)))))], st))"

section \<open>Accounting\<close>

text \<open>What the entries of a store satisfy: distinct keys, each entry its task's, sizes accounted for.\<close>

definition entry_ok :: "'c a2a \<Rightarrow> store_key \<Rightarrow> entry \<Rightarrow> bool" where
  "entry_ok env key e \<longleftrightarrow> tk_id (en_task e) = snd key \<and> snd key \<noteq> [] \<and>
     length (utf8 (snd key)) \<le> MAX_TASK_ID_KEY_BYTES \<and> length (utf8 (fst key)) \<le> MAX_OWNER_KEY_BYTES \<and>
     en_size e = entry_size env (en_task e) (fst key) \<and> \<not> rejected (en_task e)"

definition accounted :: "'c a2a \<Rightarrow> task_store \<Rightarrow> bool" where
  "accounted env st \<longleftrightarrow> wf_dict (entries st) \<and>
     total_bytes st = sum_list (map (\<lambda>(_, e). en_size e) (entries st)) \<and>
     list_all (\<lambda>(k, e). entry_ok env k e) (entries st)"

definition within_limits :: "task_store \<Rightarrow> bool" where
  "within_limits st \<longleftrightarrow> int (length (entries st)) \<le> max_count st \<and> total_bytes st \<le> max_bytes st"

definition size_at :: "task_store \<Rightarrow> store_key \<Rightarrow> int" where
  "size_at st key = (case map_of (entries st) key of None \<Rightarrow> 0 | Some e \<Rightarrow> en_size e)"

definition limits :: "task_store \<Rightarrow> int \<times> int \<times> rat" where
  "limits st = (max_count st, max_bytes st, ttl_seconds st)"

lemma limits_eq: "limits st = limits st' \<longleftrightarrow>
    max_count st = max_count st' \<and> max_bytes st = max_bytes st' \<and> ttl_seconds st = ttl_seconds st'"
  by (simp add: limits_def)

lemma entry_size_nonneg [simp]: "0 \<le> entry_size env t o'"
  by (simp add: entry_size_def ENTRY_OVERHEAD_BYTES_def)

lemma accounted_entry: "accounted env st \<Longrightarrow> map_of (entries st) k = Some e \<Longrightarrow> entry_ok env k e"
  by (auto simp: accounted_def list_all_iff dest: map_of_SomeD)

lemma size_at_nonneg: "accounted env st \<Longrightarrow> 0 \<le> size_at st k"
  by (auto simp: size_at_def entry_ok_def dest: accounted_entry split: option.split)

lemma delete_absent: "map_of d k = None \<Longrightarrow> AList.delete k d = d"
  by (auto simp: AList.delete_eq filter_id_conv map_of_eq_None_iff image_iff)

lemma sum_delete: "wf_dict d \<Longrightarrow> map_of d k = Some e \<Longrightarrow>
    sum_list (map (\<lambda>(_, e). en_size e) (AList.delete k d)) = sum_list (map (\<lambda>(_, e). en_size e) d) - en_size e"
proof (induction d)
  case (Cons p d)
  obtain k' e' where p: "p = (k', e')" by fastforce
  show ?case
  proof (cases "k' = k")
    case True
    with Cons.prems p have "AList.delete k d = d" "e' = e"
      by (auto simp: wf_dict_def map_of_eq_None_iff intro!: delete_absent)
    with True p show ?thesis by simp
  next
    case False
    with Cons p show ?thesis by (simp add: wf_dict_def)
  qed
qed simp

lemma length_delete: "wf_dict d \<Longrightarrow> int (length (AList.delete k d)) = int (length d) - (if map_of d k = None then 0 else 1)"
proof (induction d)
  case (Cons p d)
  obtain k' e' where p: "p = (k', e')" by fastforce
  show ?case
  proof (cases "k' = k")
    case True
    with Cons.prems p have "AList.delete k d = d"
      by (auto simp: wf_dict_def map_of_eq_None_iff intro!: delete_absent)
    with True p show ?thesis by simp
  next
    case False
    with Cons p show ?thesis by (simp add: wf_dict_def)
  qed
qed simp

lemma remove_entries [simp]: "entries (remove_locked k st) = AList.delete k (entries st)"
  by (simp add: remove_locked_def delete_absent split: option.split)

lemma remove_limits [simp]: "limits (remove_locked k st) = limits st"
  by (simp add: remove_locked_def limits_def split: option.split)

lemma remove_limit_fields [simp]:
  "max_count (remove_locked k st) = max_count st" "max_bytes (remove_locked k st) = max_bytes st"
  "ttl_seconds (remove_locked k st) = ttl_seconds st"
  using remove_limits[of k st] unfolding limits_eq by blast+

lemma remove_total: "total_bytes (remove_locked k st) = total_bytes st - size_at st k"
  by (simp add: remove_locked_def size_at_def split: option.split)

lemma remove_accounted: "accounted env st \<Longrightarrow> accounted env (remove_locked k st)"
proof (cases "map_of (entries st) k")
  case None
  then show "accounted env st \<Longrightarrow> ?thesis" by (simp add: remove_locked_def)
next
  case (Some e)
  have "set (AList.delete k (entries st)) \<subseteq> set (entries st)" by (auto simp: AList.delete_eq)
  with Some show "accounted env st \<Longrightarrow> ?thesis"
    by (auto simp: accounted_def remove_total size_at_def sum_delete list_all_iff)
qed

lemma size_at_remove: "size_at (remove_locked k st) k' = (if k = k' then 0 else size_at st k')"
  by (simp add: size_at_def delete_conv')

lemma fold_remove:
  assumes "accounted env st"
  shows "accounted env (fold remove_locked ks st) \<and> limits (fold remove_locked ks st) = limits st \<and>
    entries (fold remove_locked ks st) = filter (\<lambda>(k, _). k \<notin> set ks) (entries st)"
  using assms
proof (induction ks arbitrary: st)
  case (Cons k ks)
  from Cons.IH[OF remove_accounted[OF Cons.prems, of k]] show ?case
    by (auto simp: AList.delete_eq intro!: filter_cong)
qed (simp add: filter_id_conv)

lemma fold_remove_total:
  assumes "accounted env st" "distinct ks" "set ks \<subseteq> dom (map_of (entries st))"
  shows "total_bytes (fold remove_locked ks st) = total_bytes st - sum_list (map (size_at st) ks) \<and>
    int (length (entries (fold remove_locked ks st))) = int (length (entries st)) - int (length ks)"
  using assms
proof (induction ks arbitrary: st)
  case (Cons k ks)
  have "set ks \<subseteq> dom (map_of (entries (remove_locked k st)))"
    using Cons.prems by (auto simp: delete_conv')
  from Cons.IH[OF remove_accounted[OF Cons.prems(1), of k] _ this] Cons.prems
  have "total_bytes (fold remove_locked ks (remove_locked k st)) =
      total_bytes (remove_locked k st) - sum_list (map (size_at (remove_locked k st)) ks)"
    "int (length (entries (fold remove_locked ks (remove_locked k st)))) =
      int (length (entries (remove_locked k st))) - int (length ks)"
    by simp_all
  moreover have "map (size_at (remove_locked k st)) ks = map (size_at st) ks"
    using Cons.prems(2) by (auto simp: size_at_remove)
  moreover have "int (length (entries (remove_locked k st))) = int (length (entries st)) - 1"
    using Cons.prems by (auto simp: length_delete accounted_def)
  ultimately show ?case by (simp add: remove_total)
qed simp

lemma prune_spec:
  assumes "accounted env st"
  shows "accounted env (prune_expired_locked now st) \<and> limits (prune_expired_locked now st) = limits st \<and>
    entries (prune_expired_locked now st) = filter (\<lambda>(k, e). \<not> expired (ttl_seconds st) now e) (entries st)"
proof -
  let ?ex = "filter (\<lambda>(k, e). expired (ttl_seconds st) now e) (entries st)"
  have d: "distinct (map fst (entries st))" using assms by (simp add: accounted_def wf_dict_def)
  have "k \<in> set (map fst ?ex) \<longleftrightarrow> expired (ttl_seconds st) now e" if "(k, e) \<in> set (entries st)" for k e
  proof
    assume "k \<in> set (map fst ?ex)"
    then obtain e' where "(k, e') \<in> set (entries st)" "expired (ttl_seconds st) now e'" by auto
    with eq_key_imp_eq_value[OF d that] show "expired (ttl_seconds st) now e" by blast
  qed (use that in force)
  then have "filter (\<lambda>(k, _). k \<notin> set (map fst ?ex)) (entries st) =
      filter (\<lambda>(k, e). \<not> expired (ttl_seconds st) now e) (entries st)"
    by (intro filter_cong) auto
  with fold_remove[OF assms] show ?thesis by (simp add: prune_expired_locked_def)
qed

lemma map_of_filter_key: "P k \<Longrightarrow> map_of (filter (\<lambda>(k, _). P k) d) k = map_of d k"
  by (induction d) auto

section \<open>Evictions\<close>

lemma pick_victims_Inr:
  assumes "pick_victims st cands count bytes victims = Inr out"
  shows "\<exists>n. n \<le> length cands \<and> out = victims @ map snd (take n cands) \<and> count - int n \<le> max_count st \<and>
    bytes - sum_list (map (size_at st) (map snd (take n cands))) \<le> max_bytes st"
  using assms
proof (induction cands arbitrary: count bytes victims)
  case (Cons c cands)
  obtain t v where c: "c = (t, v)" by (cases c)
  with Cons.prems obtain e where e: "map_of (entries st) v = Some e"
    by (auto split: option.splits)
  show ?case
  proof (cases "count - 1 \<le> max_count st \<and> bytes - en_size e \<le> max_bytes st")
    case True
    with Cons.prems c e show ?thesis by (intro exI[of _ 1]) (simp add: size_at_def)
  next
    case False
    with Cons.prems c e have "pick_victims st cands (count - 1) (bytes - en_size e) (victims @ [v]) = Inr out"
      by simp
    from Cons.IH[OF this] obtain n where "n \<le> length cands" "out = victims @ [v] @ map snd (take n cands)"
      "count - 1 - int n \<le> max_count st"
      "bytes - en_size e - sum_list (map (size_at st) (map snd (take n cands))) \<le> max_bytes st"
      by auto
    moreover have "size_at st v = en_size e" using e by (simp add: size_at_def)
    ultimately show ?thesis using c by (intro exI[of _ "Suc n"]) (simp add: algebra_simps)
  qed
qed simp

lemma pick_victims_Inl:
  assumes "pick_victims st cands count bytes victims = Inl err" "set (map snd cands) \<subseteq> dom (map_of (entries st))"
    and "\<not> (count \<le> max_count st \<and> bytes \<le> max_bytes st)"
  shows "err = TaskStoreCapacityError ''task store capacity exhausted by active or oversized work'' \<and>
    \<not> (count - int (length cands) \<le> max_count st \<and>
       bytes - sum_list (map (size_at st) (map snd cands)) \<le> max_bytes st)"
  using assms
proof (induction cands arbitrary: count bytes victims)
  case (Cons c cands)
  obtain t v where c: "c = (t, v)" by (cases c)
  with Cons.prems(2) obtain e where e: "map_of (entries st) v = Some e" by auto
  with Cons.prems(1) c have n: "\<not> (count - 1 \<le> max_count st \<and> bytes - en_size e \<le> max_bytes st)"
    by (auto split: if_splits)
  with Cons.prems(1) c e have "pick_victims st cands (count - 1) (bytes - en_size e) (victims @ [v]) = Inl err"
    by auto
  from Cons.IH[OF this _ n] Cons.prems(2) c e show ?case
    by (simp add: size_at_def algebra_simps)
qed simp

definition active_others :: "store_key \<Rightarrow> task_store \<Rightarrow> (store_key, entry) dict" where
  "active_others key st = filter (\<lambda>(k, e). k \<noteq> key \<and> \<not> terminal (en_task e)) (entries st)"

text \<open>A task fits when it fits beside the active tasks of the store, its own old entry aside.\<close>

definition fits :: "store_key \<Rightarrow> int \<Rightarrow> task_store \<Rightarrow> bool" where
  "fits key sz st \<longleftrightarrow> int (length (active_others key st)) + 1 \<le> max_count st \<and>
     sum_list (map (\<lambda>(_, e). en_size e) (active_others key st)) + sz \<le> max_bytes st"

lemma candidate_keys:
  assumes "accounted env st"
  shows "distinct (map snd (eviction_candidates key st))"
    and "k \<in> set (map snd (eviction_candidates key st)) \<longleftrightarrow>
      (\<exists>e. map_of (entries st) k = Some e \<and> k \<noteq> key \<and> terminal (en_task e))"
proof -
  have w: "distinct (map fst (entries st))" using assms by (simp add: accounted_def wf_dict_def)
  let ?f = "filter (\<lambda>(other, entry). other \<noteq> key \<and> terminal (en_task entry)) (entries st)"
  let ?g = "\<lambda>(other, entry). (en_updated_at entry, other)"
  have f: "distinct (map fst ?f)" using w by (simp add: distinct_map_filter)
  have "map snd (map ?g ?f) = map fst ?f" by auto
  with f have "distinct (map snd (map ?g ?f))" by (simp only:)
  then have "distinct (map ?g ?f)" "inj_on snd (set (map ?g ?f))"
    by (simp_all only: distinct_map[of snd])
  then show "distinct (map snd (eviction_candidates key st))"
    by (simp only: eviction_candidates_def distinct_map[of snd] distinct_sort set_sort simp_thms)
  have "set (map snd (eviction_candidates key st)) =
      {k. \<exists>e. (k, e) \<in> set (entries st) \<and> k \<noteq> key \<and> terminal (en_task e)}"
    by (force simp: eviction_candidates_def)
  then show "k \<in> set (map snd (eviction_candidates key st)) \<longleftrightarrow>
      (\<exists>e. map_of (entries st) k = Some e \<and> k \<noteq> key \<and> terminal (en_task e))"
    by (simp only: map_of_eq_Some_iff[OF w] mem_Collect_eq)
qed

text \<open>The count and the bytes of the active tasks, from those of the store.\<close>

lemma active_totals:
  fixes key :: store_key
  assumes "accounted env st"
  defines "cs \<equiv> map snd (eviction_candidates key st)"
  shows "int (length (active_others key st)) =
      int (length (entries st)) - int (length cs) - (if map_of (entries st) key = None then 0 else 1)"
    and "sum_list (map (\<lambda>(_, e). en_size e) (active_others key st)) =
      total_bytes st - sum_list (map (size_at st) cs) - size_at st key"
proof -
  let ?st = "fold remove_locked cs st"
  have sub: "set cs \<subseteq> dom (map_of (entries st))" "key \<notin> set cs"
    unfolding cs_def using candidate_keys(2)[OF assms(1)] by blast+
  have d: "distinct cs" unfolding cs_def by (rule candidate_keys(1)[OF assms(1)])
  note f = fold_remove[OF assms(1), of cs] fold_remove_total[OF assms(1) d sub(1)]
  have w: "distinct (map fst (entries st))" using assms(1) by (simp add: accounted_def wf_dict_def)
  have a: "accounted env (remove_locked key ?st)" using f remove_accounted by blast
  have "filter (\<lambda>(k, _). key \<noteq> k) (filter (\<lambda>(k, _). k \<notin> set cs) (entries st)) = active_others key st"
    unfolding active_others_def filter_filter
    by (rule filter_cong) (use w candidate_keys(2)[OF assms(1), of _ key] in \<open>auto simp: cs_def map_of_eq_Some_iff dest: eq_key_imp_eq_value[OF w]\<close>)
  then have e: "entries (remove_locked key ?st) = active_others key st"
    using f by (simp add: AList.delete_eq case_prod_unfold)
  have m: "map_of (entries ?st) key = map_of (entries st) key"
    using f sub(2) by (simp add: map_of_filter_key)
  show "int (length (active_others key st)) =
      int (length (entries st)) - int (length cs) - (if map_of (entries st) key = None then 0 else 1)"
  proof -
    have "wf_dict (entries ?st)" using f(1) unfolding accounted_def by blast
    then have "int (length (entries (remove_locked key ?st))) =
        int (length (entries ?st)) - (if map_of (entries st) key = None then 0 else 1)"
      using length_delete[of "entries ?st" key] m by simp
    with f(2) show ?thesis unfolding e by linarith
  qed
  show "sum_list (map (\<lambda>(_, e). en_size e) (active_others key st)) =
      total_bytes st - sum_list (map (size_at st) cs) - size_at st key"
    using a f remove_total[of key ?st] m unfolding accounted_def e by (simp add: size_at_def)
qed

lemma evictions_spec:
  assumes "accounted env st" "0 \<le> sz"
  shows "case evictions_for_locked key sz st of
      Inl err \<Rightarrow> \<not> fits key sz st \<and>
        err = TaskStoreCapacityError ''task store capacity exhausted by active or oversized work''
    | Inr vs \<Rightarrow> fits key sz st \<and> distinct vs \<and>
        (\<forall>k \<in> set vs. k \<noteq> key \<and> (\<exists>e. map_of (entries st) k = Some e \<and> terminal (en_task e))) \<and>
        int (length (entries (remove_locked key (fold remove_locked vs st)))) + 1 \<le> max_count st \<and>
        total_bytes (remove_locked key (fold remove_locked vs st)) + sz \<le> max_bytes st"
proof -
  define ex where "ex = (if map_of (entries st) key = None then 0 else (1 :: int))"
  define count where "count = int (length (entries st)) + 1 - ex"
  define bytes where "bytes = total_bytes st - size_at st key + sz"
  define cs where "cs = map snd (eviction_candidates key st)"
  have unfold: "evictions_for_locked key sz st =
      (if count \<le> max_count st \<and> bytes \<le> max_bytes st then Inr []
       else pick_victims st (eviction_candidates key st) count bytes [])"
    by (cases "map_of (entries st) key")
      (simp_all add: evictions_for_locked_def Let_def count_def bytes_def ex_def size_at_def)
  note keys = candidate_keys[OF assms(1), where key = key, folded cs_def]
  have cs: "distinct cs" "set cs \<subseteq> dom (map_of (entries st))" "key \<notin> set cs"
    by (rule keys(1)) (auto simp: keys(2))
  have fits: "fits key sz st \<longleftrightarrow> count - int (length cs) \<le> max_count st \<and>
      bytes - sum_list (map (size_at st) cs) \<le> max_bytes st"
    unfolding fits_def count_def bytes_def active_totals[OF assms(1), of key, folded cs_def ex_def]
    by (simp add: algebra_simps)
  have nonneg: "0 \<le> sum_list (map (size_at st) ks)" for ks
    by (rule sum_list_nonneg) (auto simp: size_at_nonneg[OF assms(1)])
  have after: "int (length (entries (remove_locked key (fold remove_locked vs st)))) + 1 = count - int (length vs) \<and>
      total_bytes (remove_locked key (fold remove_locked vs st)) + sz = bytes - sum_list (map (size_at st) vs)"
    if "distinct vs" "set vs \<subseteq> dom (map_of (entries st))" "key \<notin> set vs" for vs
  proof -
    let ?st = "fold remove_locked vs st"
    have a: "accounted env ?st" and e: "entries ?st = filter (\<lambda>(k, _). k \<notin> set vs) (entries st)"
      using fold_remove[OF assms(1)] by blast+
    note t = fold_remove_total[OF assms(1) that(1,2)]
    have m: "map_of (entries ?st) key = map_of (entries st) key"
      unfolding e using that(3) by (simp add: map_of_filter_key)
    have "wf_dict (entries ?st)" using a unfolding accounted_def by blast
    then have "int (length (entries (remove_locked key ?st))) = int (length (entries ?st)) - ex"
      using length_delete[of "entries ?st" key] m by (simp add: ex_def)
    moreover have "size_at ?st key = size_at st key" using m by (simp add: size_at_def)
    ultimately show ?thesis using t unfolding remove_total count_def bytes_def by linarith
  qed
  show ?thesis
  proof (cases "count \<le> max_count st \<and> bytes \<le> max_bytes st")
    case True
    then have "fits key sz st" unfolding fits using nonneg[of cs] by simp
    with True unfold after[of "[]"] show ?thesis by simp
  next
    case False
    show ?thesis
    proof (cases "pick_victims st (eviction_candidates key st) count bytes []")
      case (Inl err)
      from pick_victims_Inl[OF Inl _ False] cs(2) False show ?thesis
        unfolding unfold Inl fits cs_def by simp
    next
      case (Inr vs)
      from pick_victims_Inr[OF Inr] obtain n where n: "vs = take n cs" "count - int n \<le> max_count st"
        "bytes - sum_list (map (size_at st) vs) \<le> max_bytes st" "n \<le> length cs"
        by (auto simp: cs_def take_map)
      have split: "sum_list (map (size_at st) cs) = sum_list (map (size_at st) vs) + sum_list (map (size_at st) (drop n cs))"
        unfolding n(1) by (metis append_take_drop_id map_append sum_list_append)
      then have f: "fits key sz st" unfolding fits using n nonneg[of "drop n cs"] by linarith
      have sub: "set vs \<subseteq> set cs" unfolding n(1) by (rule set_take_subset)
      have d: "distinct vs" unfolding n(1) using cs(1) by simp
      have t: "\<forall>k \<in> set vs. k \<noteq> key \<and> (\<exists>e. map_of (entries st) k = Some e \<and> terminal (en_task e))"
        using sub by (auto simp: keys(2) dest!: subsetD)
      have "set vs \<subseteq> dom (map_of (entries st))" "key \<notin> set vs" using sub cs by blast+
      note a = conjunct1[OF after[OF d this]] conjunct2[OF after[OF d this]]
      have l: "length vs = n" unfolding n(1) using n(4) by simp
      have ev: "evictions_for_locked key sz st = Inr vs" using False Inr by (simp only: unfold if_False)
      show ?thesis
        unfolding ev sum.case using f d t a n(2,3) l by (intro conjI) (assumption | linarith)+
    qed
  qed
qed

section \<open>Operations keep the store in order\<close>

definition store_ok :: "'c a2a \<Rightarrow> task_store \<Rightarrow> bool" where
  "store_ok env st \<longleftrightarrow> accounted env st \<and> within_limits st \<and> 0 < max_count st \<and> 0 < max_bytes st \<and> 0 < ttl_seconds st"

lemma sum_filter_le: "list_all (\<lambda>x. 0 \<le> f x) xs \<Longrightarrow> sum_list (map f (filter P xs)) \<le> (sum_list (map f xs) :: int)"
  by (induction xs) auto

lemma shrink_ok:
  assumes "store_ok env st" "accounted env st'" "limits st' = limits st" "entries st' = filter P (entries st)"
  shows "store_ok env st'"
proof -
  have "list_all (\<lambda>x. 0 \<le> (\<lambda>(_, e). en_size e) x) (entries st)"
    using assms(1) by (auto simp: store_ok_def accounted_def list_all_iff entry_ok_def)
  from sum_filter_le[OF this, of P] have "total_bytes st' \<le> total_bytes st"
    using assms by (simp add: store_ok_def accounted_def)
  moreover have "length (entries st') \<le> length (entries st)"
    using assms(4) by simp
  ultimately show ?thesis
    using assms(1-3) by (auto simp: store_ok_def within_limits_def limits_def)
qed

lemma prune_ok: "store_ok env st \<Longrightarrow> store_ok env (prune_expired_locked now st)"
  by (rule shrink_ok[where st = st and P = "\<lambda>(k, e). \<not> expired (ttl_seconds st) now e"])
    (use prune_spec[of env st now] in \<open>simp_all add: store_ok_def\<close>)

lemma remove_ok: "store_ok env st \<Longrightarrow> store_ok env (remove_locked k st)"
  by (rule shrink_ok[where st = st and P = "\<lambda>(k', _). k \<noteq> k'"])
    (simp_all add: store_ok_def remove_accounted AList.delete_eq)

text \<open>What a save of a task that is not rejected does, once owner, identifier and size are valid.\<close>

definition stored :: "store_key \<Rightarrow> entry \<Rightarrow> task_store \<Rightarrow> task_store" where
  "stored key e st = st\<lparr>entries := AList.update key e (entries st), total_bytes := total_bytes st + en_size e\<rparr>"

lemma stored_ok:
  assumes "store_ok env st" "map_of (entries st) key = None" "entry_ok env key e"
    and "int (length (entries st)) + 1 \<le> max_count st" "total_bytes st + en_size e \<le> max_bytes st"
  shows "store_ok env (stored key e st)"
proof -
  have u: "entries (stored key e st) = entries st @ [(key, e)]"
    using assms(2) by (simp add: stored_def update_fresh)
  have "wf_dict (entries (stored key e st))"
    using assms(1) by (simp add: stored_def store_ok_def accounted_def)
  with u assms show ?thesis
    by (simp add: store_ok_def accounted_def within_limits_def stored_def)
qed

lemma save_task_cases:
  fixes now :: rat
  assumes ok: "store_ok env st"
    and o: "store_owner env ctx = Inr ow" and idv: "tk_id t \<noteq> []" "length (utf8 (tk_id t)) \<le> MAX_TASK_ID_KEY_BYTES"
    and rej: "\<not> rejected t" and size: "entry_size env t ow \<le> max_bytes st"
  defines "pr \<equiv> prune_expired_locked now st"
  defines "e \<equiv> \<lparr>en_task = t, en_updated_at = now, en_size = entry_size env t ow\<rparr>"
  shows "\<not> fits (ow, tk_id t) (en_size e) pr \<and>
      save_task env now t ctx st =
        (Inl (TaskStoreCapacityError ''task store capacity exhausted by active or oversized work''), pr) \<or>
    fits (ow, tk_id t) (en_size e) pr \<and>
      (\<exists>vs. (\<forall>k \<in> set vs. k \<noteq> (ow, tk_id t) \<and> (\<exists>e. map_of (entries pr) k = Some e \<and> terminal (en_task e))) \<and>
        save_task env now t ctx st =
          (Inr (), stored (ow, tk_id t) e (remove_locked (ow, tk_id t) (fold remove_locked vs pr))) \<and>
        store_ok env (snd (save_task env now t ctx st)))"
proof -
  let ?key = "(ow, tk_id t)"
  have pr: "store_ok env pr" "limits pr = limits st" "accounted env pr"
    using ok prune_ok prune_spec[of env st now] by (auto simp: pr_def store_ok_def)
  have sv: "save_task env now t ctx st =
      (case evictions_for_locked ?key (en_size e) pr of
         Inl err \<Rightarrow> (Inl err, pr)
       | Inr vs \<Rightarrow> (Inr (), stored ?key e (remove_locked ?key (fold remove_locked vs pr))))"
    using o idv rej size by (simp add: save_task_def Let_def pr_def e_def stored_def not_less split: sum.split)
  have ow: "length (utf8 ow) \<le> MAX_OWNER_KEY_BYTES"
    using o by (auto simp: store_owner_def Let_def split: if_splits)
  have eok: "entry_ok env ?key e" using idv rej ow by (simp add: entry_ok_def e_def)
  have spec: "case evictions_for_locked ?key (en_size e) pr of
      Inl err \<Rightarrow> \<not> fits ?key (en_size e) pr \<and>
        err = TaskStoreCapacityError ''task store capacity exhausted by active or oversized work''
    | Inr vs \<Rightarrow> fits ?key (en_size e) pr \<and> distinct vs \<and>
        (\<forall>k \<in> set vs. k \<noteq> ?key \<and> (\<exists>e. map_of (entries pr) k = Some e \<and> terminal (en_task e))) \<and>
        int (length (entries (remove_locked ?key (fold remove_locked vs pr)))) + 1 \<le> max_count pr \<and>
        total_bytes (remove_locked ?key (fold remove_locked vs pr)) + en_size e \<le> max_bytes pr"
    by (rule evictions_spec[OF pr(3)]) (simp add: e_def)
  show ?thesis
  proof (cases "evictions_for_locked ?key (en_size e) pr")
    case (Inl err)
    with spec sv show ?thesis by simp
  next
    case (Inr vs)
    let ?r = "remove_locked ?key (fold remove_locked vs pr)"
    have f: "store_ok env (fold remove_locked vs pr)" "limits (fold remove_locked vs pr) = limits pr"
      using fold_remove[OF pr(3), of vs] shrink_ok[OF pr(1)] by blast+
    have "store_ok env (stored ?key e ?r)"
      by (rule stored_ok[OF remove_ok[OF f(1)] _ eok])
        (use spec Inr f(2) remove_limits[of ?key "fold remove_locked vs pr"]
         in \<open>simp_all add: limits_eq delete_conv'\<close>)
    with spec sv Inr show ?thesis by auto
  qed
qed

section \<open>Runs of operations\<close>

datatype 'c store_op =
    SaveOp task 'c
  | GetOp string 'c
  | ListOp list_request 'c
  | DeleteOp string 'c
  | StatsOp

fun store_step :: "'c a2a \<Rightarrow> rat \<times> 'c store_op \<Rightarrow> task_store \<Rightarrow> task_store" where
  "store_step env (now, SaveOp t ctx) st = snd (save_task env now t ctx st)"
| "store_step env (now, GetOp i ctx) st = snd (get_task env now i ctx st)"
| "store_step env (now, ListOp r ctx) st = snd (list_tasks env now r ctx st)"
| "store_step env (now, DeleteOp i ctx) st = snd (delete_task env now i ctx st)"
| "store_step env (now, StatsOp) st = snd (store_stats now st)"

definition run_store :: "'c a2a \<Rightarrow> (rat \<times> 'c store_op) list \<Rightarrow> task_store \<Rightarrow> task_store" where
  "run_store env ops st = fold (store_step env) ops st"

text \<open>The entry an operation names, which it may replace or remove.\<close>

fun op_target :: "'c a2a \<Rightarrow> 'c store_op \<Rightarrow> store_key option" where
  "op_target env (SaveOp t ctx) = (case store_owner env ctx of Inl _ \<Rightarrow> None | Inr ow \<Rightarrow> Some (ow, tk_id t))"
| "op_target env (DeleteOp i ctx) = (case store_owner env ctx of Inl _ \<Rightarrow> None | Inr ow \<Rightarrow> Some (ow, i))"
| "op_target env _ = None"

text \<open>Every operation leaves the store alone, or prunes it, or prunes and then removes or saves.\<close>

definition kept :: "'c a2a \<Rightarrow> store_key option \<Rightarrow> task_store \<Rightarrow> task_store \<Rightarrow> bool" where
  "kept env target st st' \<longleftrightarrow> store_ok env st' \<and> limits st' = limits st \<and>
     (\<forall>k e. map_of (entries st) k = Some e \<and> \<not> terminal (en_task e) \<and> target \<noteq> Some k \<longrightarrow>
        map_of (entries st') k = Some e)"

lemma kept_refl: "store_ok env st \<Longrightarrow> kept env target st st"
  by (simp add: kept_def)

lemma kept_trans: "kept env None st st1 \<Longrightarrow> kept env target st1 st2 \<Longrightarrow> kept env target st st2"
  unfolding kept_def by auto

lemma kept_None: "kept env None st st' \<Longrightarrow> kept env target st st'"
  by (simp add: kept_def)

lemma kept_prune:
  assumes "store_ok env st"
  shows "kept env None st (prune_expired_locked now st)"
proof -
  have a: "accounted env st" using assms by (simp add: store_ok_def)
  note p = prune_spec[OF a, of now]
  have d: "distinct (map fst (entries st))" "distinct (map fst (entries (prune_expired_locked now st)))"
    using a p by (auto simp: accounted_def wf_dict_def)
  have "map_of (entries (prune_expired_locked now st)) k = Some e"
    if "map_of (entries st) k = Some e" "\<not> terminal (en_task e)" for k e
    using that p unfolding map_of_eq_Some_iff[OF d(1)] map_of_eq_Some_iff[OF d(2)] by (simp add: expired_def)
  with prune_ok[OF assms] p show ?thesis by (simp add: kept_def)
qed

lemma kept_remove: "store_ok env st \<Longrightarrow> kept env (Some k) st (remove_locked k st)"
  by (auto simp: kept_def remove_ok delete_conv')

lemma kept_save:
  assumes "store_ok env st"
  shows "kept env (op_target env (SaveOp t ctx)) st (snd (save_task env now t ctx st))"
proof (cases "store_owner env ctx")
  case (Inl err)
  with assms show ?thesis by (simp add: save_task_def kept_refl)
next
  case o: (Inr ow)
  let ?key = "(ow, tk_id t)"
  note pr = kept_prune[OF assms, of now]
  have prok: "store_ok env (prune_expired_locked now st)" using pr by (simp add: kept_def)
  consider (bad_id) "tk_id t = [] \<or> MAX_TASK_ID_KEY_BYTES < length (utf8 (tk_id t))"
    | (rej) "\<not> (tk_id t = [] \<or> MAX_TASK_ID_KEY_BYTES < length (utf8 (tk_id t)))" "rejected t"
    | (big) "\<not> (tk_id t = [] \<or> MAX_TASK_ID_KEY_BYTES < length (utf8 (tk_id t)))" "\<not> rejected t"
        "max_bytes st < entry_size env t ow"
    | (save) "tk_id t \<noteq> []" "length (utf8 (tk_id t)) \<le> MAX_TASK_ID_KEY_BYTES" "\<not> rejected t"
        "entry_size env t ow \<le> max_bytes st"
    by linarith
  then show ?thesis
  proof cases
    case rej
    then show ?thesis
      using o kept_None[OF pr] kept_trans[OF pr kept_remove[OF prok]]
      by (auto simp: save_task_def Let_def split: option.split)
  next
    case save
    from save_task_cases[OF assms o save, of now] show ?thesis
    proof (elim disjE conjE exE)
      fix vs
      let ?pr = "prune_expired_locked now st"
      let ?e = "\<lparr>en_task = t, en_updated_at = now, en_size = entry_size env t ow\<rparr>"
      assume vs: "\<forall>k \<in> set vs. k \<noteq> ?key \<and> (\<exists>e. map_of (entries ?pr) k = Some e \<and> terminal (en_task e))"
        and sv: "save_task env now t ctx st =
          (Inr (), stored ?key ?e (remove_locked ?key (fold remove_locked vs ?pr)))"
        and ok: "store_ok env (snd (save_task env now t ctx st))"
      have f: "entries (fold remove_locked vs ?pr) = filter (\<lambda>(k, _). k \<notin> set vs) (entries ?pr)"
        "limits (fold remove_locked vs ?pr) = limits ?pr"
        using fold_remove[of env ?pr vs] prok by (auto simp: store_ok_def)
      have "map_of (entries (snd (save_task env now t ctx st))) k = Some e"
        if "map_of (entries ?pr) k = Some e" "\<not> terminal (en_task e)" "k \<noteq> ?key" for k e
      proof -
        have "k \<notin> set vs" using vs that by auto
        with that f show ?thesis
          by (simp add: sv stored_def update_conv' delete_conv' map_of_filter_key)
      qed
      moreover have "limits (snd (save_task env now t ctx st)) = limits ?pr"
        using f by (simp add: sv stored_def limits_def)
      ultimately have "kept env (Some ?key) ?pr (snd (save_task env now t ctx st))"
        using ok by (auto simp: kept_def)
      from kept_trans[OF pr this] o show ?thesis by simp
    qed (use o kept_None[OF pr] in simp)
  qed (use o assms in \<open>auto simp: save_task_def Let_def kept_refl\<close>)
qed

lemma kept_step:
  assumes "store_ok env st"
  shows "kept env (op_target env op) st (store_step env (now, op) st)"
proof (cases op)
  case (SaveOp t ctx)
  with kept_save[OF assms] show ?thesis by simp
next
  case (DeleteOp i ctx)
  have "store_ok env (prune_expired_locked now st)" by (rule prune_ok[OF assms])
  with DeleteOp kept_trans[OF kept_prune[OF assms] kept_remove] kept_refl[OF assms] show ?thesis
    by (auto simp: delete_task_def split: sum.split)
qed (use kept_prune[OF assms] kept_refl[OF assms] in
  \<open>auto simp: get_task_def list_tasks_def store_stats_def Let_def split: sum.split\<close>)

lemma run_store_ok:
  "store_ok env st \<Longrightarrow> store_ok env (run_store env ops st) \<and> limits (run_store env ops st) = limits st"
proof (induction ops arbitrary: st)
  case (Cons op ops)
  obtain now o' where "op = (now, o')" by (cases op)
  with kept_step[OF Cons.prems, of o' now] have "store_ok env (store_step env op st)"
    "limits (store_step env op st) = limits st"
    by (simp_all add: kept_def)
  with Cons.IH show ?case by (simp add: run_store_def)
qed (simp add: run_store_def)

lemma new_store_ok: "new_store c b ttl = Inr st \<Longrightarrow> store_ok env st \<and> limits st = (c, b, ttl)"
  by (auto simp: new_store_def store_ok_def accounted_def within_limits_def limits_def split: if_splits)

text \<open>
  C3: Whatever operations run on a new store, at whatever clock readings, it holds at most the
  configured number of tasks and bytes, its byte counter is the exact sum of its entries, and
  every entry lies under its own owner and identifier, within their bounds, and is not rejected.
\<close>

theorem task_store_bounded:
  assumes "new_store count bytes ttl = Inr st0"
  shows "let st = run_store env ops st0 in
    int (length (entries st)) \<le> count \<and> total_bytes st \<le> bytes \<and> wf_dict (entries st) \<and>
    total_bytes st = sum_list (map (\<lambda>(k, e). entry_size env (en_task e) (fst k)) (entries st)) \<and>
    list_all (\<lambda>(k, e). tk_id (en_task e) = snd k \<and> snd k \<noteq> [] \<and> length (utf8 (snd k)) \<le> 4096 \<and>
      length (utf8 (fst k)) \<le> 1024 \<and> \<not> rejected (en_task e)) (entries st)"
proof -
  let ?st = "run_store env ops st0"
  have ok: "accounted env ?st" "within_limits ?st" "limits ?st = (count, bytes, ttl)"
    using run_store_ok[of env st0 ops] new_store_ok[OF assms, of env] by (auto simp: store_ok_def)
  then have l: "max_count ?st = count" "max_bytes ?st = bytes" by (simp_all add: limits_def)
  have e: "list_all (\<lambda>(k, e). entry_ok env k e) (entries ?st)" using ok by (simp add: accounted_def)
  then have "map (\<lambda>(_, e). en_size e) (entries ?st) = map (\<lambda>(k, e). entry_size env (en_task e) (fst k)) (entries ?st)"
    by (auto simp: list_all_iff entry_ok_def)
  with ok l have "total_bytes ?st = sum_list (map (\<lambda>(k, e). entry_size env (en_task e) (fst k)) (entries ?st))"
    by (simp add: accounted_def)
  with ok l e show ?thesis
    by (auto simp: accounted_def within_limits_def Let_def list_all_iff entry_ok_def
        MAX_TASK_ID_KEY_BYTES_def MAX_OWNER_KEY_BYTES_def)
qed

text \<open>
  C10: An active task is never evicted, expired or replaced by operations that do not name it:
  along every run that does not save or delete under its owner and identifier it stays as it is.
\<close>

theorem active_tasks_survive:
  assumes "store_ok env st" "map_of (entries st) (ow, i) = Some e" "\<not> terminal (en_task e)"
    and "list_all (\<lambda>(now, op). op_target env op \<noteq> Some (ow, i)) ops"
  shows "map_of (entries (run_store env ops st)) (ow, i) = Some e"
  using assms
proof (induction ops arbitrary: st)
  case (Cons op ops)
  obtain now o' where op: "op = (now, o')" by (cases op)
  with kept_step[OF Cons.prems(1), of o' now] Cons.prems have "store_ok env (store_step env op st)"
    "map_of (entries (store_step env op st)) (ow, i) = Some e"
    by (simp_all add: kept_def)
  with Cons.IH Cons.prems show ?case by (simp add: run_store_def)
qed (simp add: run_store_def)

section \<open>Admission and read back\<close>

lemma get_after_save:
  assumes "store_ok env st'" "map_of (entries st') (ow, tk_id t) = Some e" "en_task e = t"
    and "store_owner env ctx = Inr ow" "length (utf8 (tk_id t)) \<le> MAX_TASK_ID_KEY_BYTES"
    and "\<not> expired (ttl_seconds st') later e"
  shows "fst (get_task env later (tk_id t) ctx st') = Inr (Some t)"
proof -
  have a: "accounted env st'" using assms(1) by (simp add: store_ok_def)
  note p = prune_spec[OF a, of later]
  have d: "distinct (map fst (entries st'))" "distinct (map fst (entries (prune_expired_locked later st')))"
    using a p by (auto simp: accounted_def wf_dict_def)
  have "map_of (entries (prune_expired_locked later st')) (ow, tk_id t) = Some e"
    using assms(2,6) p unfolding map_of_eq_Some_iff[OF d(1)] map_of_eq_Some_iff[OF d(2)] by simp
  with assms(3-5) show ?thesis by (simp add: get_task_def Let_def)
qed

text \<open>
  C27: A valid save is admitted exactly when the task fits beside the unexpired active tasks, all
  finished ones evicted; it then succeeds, and its owner reads it back until it has finished and
  its time to live has passed. Otherwise it is refused with the capacity error and only expired
  entries are gone.
\<close>

theorem save_admission_exact:
  assumes "store_ok env st" "store_owner env ctx = Inr ow"
    and "tk_id t \<noteq> []" "length (utf8 (tk_id t)) \<le> MAX_TASK_ID_KEY_BYTES"
    and "\<not> rejected t" "entry_size env t ow \<le> max_bytes st"
  shows "if fits (ow, tk_id t) (entry_size env t ow) (prune_expired_locked now st)
    then fst (save_task env now t ctx st) = Inr () \<and>
      (\<not> terminal t \<or> later - now < ttl_seconds st \<longrightarrow>
        fst (get_task env later (tk_id t) ctx (snd (save_task env now t ctx st))) = Inr (Some t))
    else save_task env now t ctx st =
      (Inl (TaskStoreCapacityError ''task store capacity exhausted by active or oversized work''),
       prune_expired_locked now st)"
proof -
  let ?pr = "prune_expired_locked now st"
  let ?e = "\<lparr>en_task = t, en_updated_at = now, en_size = entry_size env t ow\<rparr>"
  let ?sv = "save_task env now t ctx st"
  have lim: "limits (snd ?sv) = limits st"
    using kept_save[OF assms(1)] by (simp add: kept_def)
  from save_task_cases[OF assms, of now] show ?thesis
  proof (elim disjE conjE exE)
    fix vs
    assume f: "fits (ow, tk_id t) (en_size ?e) ?pr" and ok: "store_ok env (snd ?sv)"
      and sv: "?sv = (Inr (), stored (ow, tk_id t) ?e (remove_locked (ow, tk_id t) (fold remove_locked vs ?pr)))"
    have "map_of (entries (snd ?sv)) (ow, tk_id t) = Some ?e"
      by (simp add: sv stored_def update_conv')
    from get_after_save[OF ok this _ assms(2,4), of later] lim
    have "\<not> terminal t \<or> later - now < ttl_seconds st \<longrightarrow>
        fst (get_task env later (tk_id t) ctx (snd ?sv)) = Inr (Some t)"
      by (auto simp: expired_def limits_def)
    with f show ?thesis by (simp add: sv)
  qed simp
qed

section \<open>Walking the pages of a list\<close>
























section \<open>An example store\<close>

definition ex_a2a :: "string a2a" where
  "ex_a2a = \<lparr>resolve_owner = (\<lambda>c. c), byte_size = (\<lambda>t. length (tk_rest t)),
     encode_page_token = (\<lambda>i. CHR ''p'' # i), decode_page_token = (\<lambda>s. Inr (tl s)), default_page_size = 50\<rparr>"

definition ex_task :: "string \<Rightarrow> task_state \<Rightarrow> task" where
  "ex_task i s = \<lparr>tk_id = i, tk_context_id = ''c'', tk_status = Some \<lparr>ts_state = s, ts_timestamp = None\<rparr>, tk_rest = []\<rparr>"

definition ex_entry :: "string \<Rightarrow> task_state \<Rightarrow> entry" where
  "ex_entry i s = \<lparr>en_task = ex_task i s, en_updated_at = 1, en_size = 513\<rparr>"

text \<open>Owner \<open>a\<close> holds an active and a finished task, in a store that is full.\<close>

definition ex_store :: task_store where
  "ex_store = \<lparr>max_count = 2, max_bytes = 2000, ttl_seconds = 60,
     entries = [((''a'', ''t''), ex_entry ''t'' (TASK_STATE_ACTIVE 2)), ((''a'', ''u''), ex_entry ''u'' TASK_STATE_COMPLETED)],
     total_bytes = 1026\<rparr>"

lemma utf8_a [simp]: "length (utf8 ''a'') = 1" "length (utf8 ''t'') = 1" "length (utf8 ''u'') = 1" "length (utf8 ''v'') = 1"
  by (simp_all add: utf8_def utf8_char_def)

lemma ex_store_ok: "store_ok ex_a2a ex_store"
  by (simp add: store_ok_def accounted_def within_limits_def ex_store_def wf_dict_def entry_ok_def ex_entry_def
      ex_task_def ex_a2a_def entry_size_def ENTRY_OVERHEAD_BYTES_def rejected_def state_of_def
      MAX_TASK_ID_KEY_BYTES_def MAX_OWNER_KEY_BYTES_def)

lemma ex_owner: "store_owner ex_a2a ''a'' = Inr ''a''"
  by (simp add: store_owner_def ex_a2a_def MAX_OWNER_KEY_BYTES_def)

theorem task_store_bounded_witness:
  "\<exists>st0. new_store 2 2000 60 = Inr st0 \<and>
     total_bytes (run_store ex_a2a [(0, SaveOp (ex_task ''t'' TASK_STATE_COMPLETED) ''a'')] st0) \<le> 2000"
proof -
  obtain st0 where "new_store 2 2000 60 = Inr st0" by (simp add: new_store_def)
  with task_store_bounded[OF this, of ex_a2a "[(0, SaveOp (ex_task ''t'' TASK_STATE_COMPLETED) ''a'')]"]
  show ?thesis by (auto simp: Let_def)
qed

theorem active_tasks_survive_witness:
  "map_of (entries (run_store ex_a2a [(100, SaveOp (ex_task ''v'' (TASK_STATE_ACTIVE 1)) ''a'')] ex_store)) (''a'', ''t'') =
     Some (ex_entry ''t'' (TASK_STATE_ACTIVE 2))"
  by (rule active_tasks_survive[OF ex_store_ok])
    (simp_all add: ex_store_def ex_entry_def ex_task_def terminal_def TERMINAL_STATES_def state_of_def ex_owner)

lemma ex_prune: "prune_expired_locked 30 ex_store = ex_store"
  by (simp add: prune_expired_locked_def ex_store_def ex_entry_def ex_task_def expired_def)

theorem save_admission_exact_witness:
  "fst (save_task ex_a2a 30 (ex_task ''v'' (TASK_STATE_ACTIVE 1)) ''a'' ex_store) = Inr ()"
proof -
  let ?t = "ex_task ''v'' (TASK_STATE_ACTIVE 1)"
  have "entry_size ex_a2a ?t ''a'' = 513"
    by (simp add: entry_size_def ex_a2a_def ex_task_def ENTRY_OVERHEAD_BYTES_def)
  moreover have "fits (''a'', ''v'') 513 ex_store"
    by (simp add: fits_def active_others_def ex_store_def ex_entry_def ex_task_def terminal_def TERMINAL_STATES_def
        state_of_def)
  ultimately show ?thesis
    using save_admission_exact[OF ex_store_ok ex_owner, of ?t 30 0]
    by (simp add: ex_prune) (simp add: ex_task_def rejected_def state_of_def MAX_TASK_ID_KEY_BYTES_def ex_store_def)
qed









end
