(* ===== verification/Address.thy ===== *)
theory Address
  imports PyText
begin

text \<open>
  \<open>bech32m.py\<close>, \<open>address.py\<close>, \<open>fingerprint.py\<close> and \<open>_canon.py\<close>: the Bech32m text encoding with
  its BCH checksum, the RVN1 address of an identity key with its display form, the device
  fingerprint and the length-prefix framing of signed records. Integers are Python's, with the
  bit operations on \<open>int\<close>.
\<close>

section \<open>Bech32m\<close>

definition CHARSET :: string where "CHARSET = ''qpzry9x8gf2tvdw0s3jn54khce6mua7l''"
definition BECH32M_CONST :: int where "BECH32M_CONST = 0x2bc830a3"

definition bech32_gen :: "int list" where
  "bech32_gen = [0x3b6a57b2, 0x26508e6d, 0x1ea119fa, 0x3d4233dd, 0x2a1462b3]"

definition polymod_step :: "int \<Rightarrow> int \<Rightarrow> int" where
  "polymod_step chk v =
     (let b = drop_bit 25 chk;
          chk = push_bit 5 (chk AND 0x1ffffff) XOR v
      in foldl (\<lambda>chk i. chk XOR (if drop_bit i b AND 1 \<noteq> 0 then bech32_gen ! i else 0)) chk [0..<5])"

definition polymod :: "int list \<Rightarrow> int" where
  "polymod values = foldl polymod_step 1 values"

definition hrp_expand :: "string \<Rightarrow> int list" where
  "hrp_expand hrp = map (\<lambda>c. drop_bit 5 (of_char c)) hrp @ [0] @ map (\<lambda>c. of_char c AND 31) hrp"

definition create_checksum :: "string \<Rightarrow> int list \<Rightarrow> int list" where
  "create_checksum hrp dat =
     (let values = hrp_expand hrp @ dat;
          pm = polymod (values @ [0, 0, 0, 0, 0, 0]) XOR BECH32M_CONST
      in map (\<lambda>i. drop_bit (5 * (5 - i)) pm AND 31) [0..<6])"

definition verify_checksum :: "string \<Rightarrow> int list \<Rightarrow> bool" where
  "verify_checksum hrp dat \<longleftrightarrow> polymod (hrp_expand hrp @ dat) = BECH32M_CONST"

text \<open>
  The inner loop \<open>while bits >= tobits\<close>; the group sizes are 5 and 8, and the guard on zero only
  keeps the function total.
\<close>

fun drain_bits :: "nat \<Rightarrow> int \<Rightarrow> nat \<Rightarrow> int list \<Rightarrow> nat \<times> int list" where
  "drain_bits tobits acc bits ret =
     (if tobits = 0 \<or> bits < tobits then (bits, ret)
      else let bits = bits - tobits in
        drain_bits tobits acc bits (ret @ [drop_bit bits acc AND (push_bit tobits 1 - 1)]))"

declare drain_bits.simps [simp del]

fun regroup :: "nat \<Rightarrow> nat \<Rightarrow> int list \<Rightarrow> int \<Rightarrow> nat \<Rightarrow> int list \<Rightarrow> (int \<times> nat \<times> int list) option" where
  "regroup frombits tobits [] acc bits ret = Some (acc, bits, ret)"
| "regroup frombits tobits (value # rest) acc bits ret =
     (if value < 0 \<or> drop_bit frombits value \<noteq> 0 then None
      else let acc = push_bit frombits acc OR value;
               (bits, ret) = drain_bits tobits acc (bits + frombits) ret
           in regroup frombits tobits rest acc bits ret)"

definition convertbits :: "int list \<Rightarrow> nat \<Rightarrow> nat \<Rightarrow> bool \<Rightarrow> int list option" where
  "convertbits dat frombits tobits pad =
     (let maxv = push_bit tobits 1 - 1 in
      case regroup frombits tobits dat 0 0 [] of
        None \<Rightarrow> None
      | Some (acc, bits, ret) \<Rightarrow>
          if pad then (if bits \<noteq> 0 then Some (ret @ [push_bit (tobits - bits) acc AND maxv]) else Some ret)
          else if bits \<ge> frombits \<or> push_bit (tobits - bits) acc AND maxv \<noteq> 0 then None
          else Some ret)"

text \<open>\<open>CHARSET.index(c)\<close>, which raises when the character is not there.\<close>

definition charset_index :: "char \<Rightarrow> int option" where
  "charset_index c = map_option int (List.find (\<lambda>i. CHARSET ! i = c) [0..<32])"

text \<open>\<open>_convertbits\<close> with padding never returns \<open>None\<close> on bytes; the \<open>TypeError\<close> is \<open>None + list\<close>.\<close>

definition bech32m_encode :: "string \<Rightarrow> bytes \<Rightarrow> string res" where
  "bech32m_encode hrp payload =
     (case convertbits (map uint payload) 8 5 True of
        None \<Rightarrow> Inl (TypeError ''unsupported operand type(s) for +'')
      | Some dat \<Rightarrow> Inr (hrp @ ''1'' @ map (\<lambda>d. CHARSET ! nat d) (dat @ create_checksum hrp dat)))"

text \<open>\<open>s.rfind("1")\<close>; -1 when absent, so the test \<open>pos < 1\<close> refuses it.\<close>

definition rfind_one :: "string \<Rightarrow> int" where
  "rfind_one s = int (length (dropWhile (\<lambda>c. c \<noteq> CHR ''1'') (rev s))) - 1"

fun index_all :: "string \<Rightarrow> int list option" where
  "index_all [] = Some []"
| "index_all (c # cs) =
     (case charset_index c of None \<Rightarrow> None
      | Some i \<Rightarrow> (case index_all cs of None \<Rightarrow> None | Some is \<Rightarrow> Some (i # is)))"

definition bech32m_decode :: "string \<Rightarrow> (string \<times> bytes) option" where
  "bech32m_decode s =
     (if list_ex (\<lambda>c. (of_char c :: nat) < 33 \<or> (of_char c :: nat) > 126) s then None
      else if str_lower s \<noteq> s \<and> str_upper s \<noteq> s then None
      else let s = str_lower s; pos = rfind_one s in
      if pos < 1 \<or> pos + 7 > int (length s) then None
      else let hrp = take (nat pos) s in
      case index_all (drop (nat pos + 1) s) of
        None \<Rightarrow> None
      | Some dat \<Rightarrow>
          if \<not> verify_checksum hrp dat then None
          else (case convertbits (take (length dat - 6) dat) 5 8 False of
                  None \<Rightarrow> None
                | Some payload \<Rightarrow> Some (hrp, map word_of_int payload)))"

section \<open>Addresses\<close>

definition ADDRESS_VERSION :: byte where "ADDRESS_VERSION = 1"

definition address_encode :: "bytes \<Rightarrow> string res" where
  "address_encode identity_ed_pub =
     (let addr_hash = take 20 (sha256 identity_ed_pub);
          payload = [ADDRESS_VERSION] @ addr_hash
      in bech32m_encode ''rvn'' payload)"

definition address_decode :: "string \<Rightarrow> (bytes \<times> int) option" where
  "address_decode addr =
     (case bech32m_decode (str_strip addr) of
        None \<Rightarrow> None
      | Some (hrp, payload) \<Rightarrow>
          if hrp \<noteq> ''rvn'' \<or> length payload \<noteq> 21 then None
          else Some (drop 1 payload, uint (payload ! 0)))"

text \<open>\<open>addr.split("1", 1)[1]\<close> and the joins of four-character groups.\<close>

definition after_one :: "string \<Rightarrow> string res" where
  "after_one addr =
     (case dropWhile (\<lambda>c. c \<noteq> CHR ''1'') addr of
        [] \<Rightarrow> Inl (IndexError ''list index out of range'')
      | _ # rest \<Rightarrow> Inr rest)"

fun join_dash :: "string list \<Rightarrow> string" where
  "join_dash [] = []"
| "join_dash [g] = g"
| "join_dash (g # gs) = g @ ''-'' @ join_dash gs"

definition group4 :: "string \<Rightarrow> string" where
  "group4 s = join_dash (chunks_of 4 s)"

definition to_display :: "string \<Rightarrow> string res" where
  "to_display addr = bindE (after_one addr) (\<lambda>d. Inr (''rvn1:'' @ group4 (str_upper d)))"

text \<open>\<open>str.replace(old, "")\<close> for a non-empty \<open>old\<close>: occurrences are removed from the left.\<close>

fun remove_all :: "string \<Rightarrow> string \<Rightarrow> string" where
  "remove_all old [] = []"
| "remove_all old (c # cs) =
     (if old \<noteq> [] \<and> take (length old) (c # cs) = old
      then remove_all old (drop (length old) (c # cs))
      else c # remove_all old cs)"

definition from_display :: "string \<Rightarrow> string" where
  "from_display disp =
     (let body = str_lower (remove_all ''-'' (remove_all ''rvn1:'' disp)) in ''rvn1'' @ body)"

section \<open>Fingerprints and framing\<close>

definition device_fingerprint_v1 :: "bytes \<Rightarrow> string" where
  "device_fingerprint_v1 ed_pub =
     (let h = sha256 ed_pub;
          b64 = remove_all ''/'' (remove_all ''+'' (b64encode (take 9 h)))
      in group4 (take 12 b64))"

definition mesh_v1_hex_fingerprint :: "bytes \<Rightarrow> string" where
  "mesh_v1_hex_fingerprint ed_pub = group4 (str_upper (bytes_hex (take 6 (sha256 ed_pub))))"

definition LP_MAX_LEN :: nat where "LP_MAX_LEN = 0xFFFF"

definition lp :: "bytes \<Rightarrow> bytes res" where
  "lp b =
     (if length b > LP_MAX_LEN then Inl (ValueError ''lp field exceeds 65535 bytes'')
      else joinE [to_bytes (int (length b)) 2, Inr b])"

definition canon_u64 :: "int \<Rightarrow> bytes res" where
  "canon_u64 n = to_bytes n 8"

section \<open>The checksum is linear\<close>

definition gen_sum :: "int \<Rightarrow> int" where
  "gen_sum b = (if bit b 0 then 0x3b6a57b2 else 0) XOR (if bit b 1 then 0x26508e6d else 0) XOR
     (if bit b 2 then 0x1ea119fa else 0) XOR (if bit b 3 then 0x3d4233dd else 0) XOR
     (if bit b 4 then 0x2a1462b3 else 0)"

lemma odd_drop: "drop_bit i (b :: int) AND 1 \<noteq> 0 \<longleftrightarrow> bit b i"
  by (simp add: and_one_eq bit_iff_odd_drop_bit mod_2_eq_odd)

lemma mask25: "(a :: int) AND 0x1ffffff = take_bit 25 a"
  by (simp add: take_bit_eq_mask mask_eq_exp_minus_1)

lemma polymod_step_eq:
  "polymod_step a v = push_bit 5 (take_bit 25 a) XOR v XOR gen_sum (drop_bit 25 a)"
  by (simp add: polymod_step_def Let_def upt_rec bech32_gen_def gen_sum_def odd_drop mask25
      numeral_eq_Suc xor.assoc)

lemma if_xor: "(if p \<noteq> q then g else (0 :: int)) = (if p then g else 0) XOR (if q then g else 0)"
  by simp

lemma gen_sum_xor: "gen_sum (a XOR b) = gen_sum a XOR gen_sum b"
  unfolding gen_sum_def bit_xor_iff if_xor by (simp only: ac_simps)

lemma polymod_step_linear:
  "polymod_step (a XOR b) (v XOR w) = polymod_step a v XOR polymod_step b w"
  unfolding polymod_step_eq drop_bit_xor take_bit_xor push_bit_xor gen_sum_xor
  by (simp only: ac_simps)

lemma fold_step_linear: "length vs = length ws \<Longrightarrow>
    foldl polymod_step (a XOR b) (map2 (XOR) vs ws) = foldl polymod_step a vs XOR foldl polymod_step b ws"
proof (induction vs ws arbitrary: a b rule: list_induct2)
  case (Cons v vs w ws)
  then show ?case by (simp add: polymod_step_linear)
qed simp

lemma step_small:
  assumes "0 \<le> a" "a < 2 ^ 25" "0 \<le> v" "v < 32"
  shows "polymod_step a v = 32 * a + v"
proof -
  have a: "take_bit 25 a = a" "drop_bit 25 a = 0"
    using assms by (simp_all add: take_bit_int_eq_self drop_bit_eq_div)
  have v: "take_bit 5 v = v" using assms by (simp add: take_bit_int_eq_self)
  have "push_bit 5 a AND v = 0"
    by (subst v[symmetric]) (rule bit_eqI, simp add: bit_and_iff bit_push_bit_iff bit_take_bit_iff)
  then have "push_bit 5 a XOR v = push_bit 5 a + v"
    by (simp add: disjunctive_add_eq_xor)
  then show ?thesis by (simp add: polymod_step_eq a gen_sum_def push_bit_eq_mult)
qed

lemma take_bit_gen_sum: "take_bit 30 (gen_sum b) = gen_sum b"
  unfolding gen_sum_def take_bit_xor by (simp split del: if_split add: if_distrib[of "take_bit 30"] take_bit_int_eq_self cong: if_cong)

lemma step_bounded:
  assumes "0 \<le> v" "v < 32"
  shows "take_bit 30 (polymod_step a v) = polymod_step a v"
proof -
  have "take_bit 30 v = v" using assms by (simp add: take_bit_int_eq_self)
  then show ?thesis
    by (simp add: polymod_step_eq take_bit_xor take_bit_gen_sum take_bit_push_bit)
qed

lemma fold_digits:
  assumes "0 \<le> p" "p < 2 ^ 30"
  shows "foldl polymod_step 0 (map (\<lambda>i. drop_bit (5 * (5 - i)) p AND 31) [0..<6]) = p"
proof -
  define d where "d n = p div 32 ^ n mod 32" for n
  have dig: "drop_bit (5 * n) p AND 31 = d n" for n
  proof -
    have "x AND 31 = x mod 32" for x :: int
      using take_bit_eq_mask[of 5 x] by (simp add: mask_eq_exp_minus_1 take_bit_eq_mod)
    then show ?thesis by (simp add: d_def drop_bit_eq_div power_mult)
  qed
  have step: "polymod_step (p div 32 ^ Suc n) (d n) = p div 32 ^ n" for n
  proof -
    have "p div (32 ^ n * 32) = p div 32 ^ n div 32" "p div (32 * 32 ^ n) = p div 32 div 32 ^ n"
      by (rule zdiv_zmult2_eq, simp)+
    then have q: "p div 32 ^ Suc n = p div 32 ^ n div 32" "p div 32 ^ Suc n = p div 32 div 32 ^ n"
      by (simp_all only: power_Suc mult.commute)
    then have e: "32 * (p div 32 ^ Suc n) + d n = p div 32 ^ n"
      using div_mult_mod_eq[of "p div 32 ^ n" 32] by (simp add: d_def q(1))
    have "p div 32 ^ Suc n = p div 32 div 32 ^ n" by (rule q(2))
    also have "\<dots> \<le> p div 32" using assms zdiv_mono2[of "p div 32" 1 "32 ^ n"] by (simp add: pos_imp_zdiv_nonneg_iff)
    also have "\<dots> < 2 ^ 25" using assms by simp
    finally show ?thesis
      using assms e by (subst step_small) (simp_all add: d_def pos_imp_zdiv_nonneg_iff)
  qed
  have z: "p div 32 ^ Suc 5 = 0" using assms by simp
  have "foldl polymod_step (p div 32 ^ Suc 5) [d 5, d 4, d 3, d 2, d 1, d 0] = p"
    using step[of 5] step[of 4] step[of 3] step[of 2] step[of 1] step[of 0]
    by (simp del: power_Suc add: numeral_eq_Suc)
  moreover have "map (\<lambda>i. drop_bit (5 * (5 - i)) p AND 31) [0..<6] = [d 5, d 4, d 3, d 2, d 1, d 0]"
    using dig[of 5] dig[of 4] dig[of 3] dig[of 2] dig[of 1] dig[of 0] by (simp add: upt_rec)
  ultimately show ?thesis by (simp only: z)
qed

lemma checksum_ok: "verify_checksum hrp (dat @ create_checksum hrp dat)"
proof -
  define a where "a = polymod (hrp_expand hrp @ dat)"
  define q where "q = foldl polymod_step a [0, 0, 0, 0, 0, 0]"
  let ?cs = "create_checksum hrp dat"
  have q: "polymod ((hrp_expand hrp @ dat) @ [0, 0, 0, 0, 0, 0]) = q"
    by (simp add: a_def q_def polymod_def)
  have "take_bit 30 q = q" by (simp add: q_def step_bounded)
  then have "take_bit 30 (q XOR BECH32M_CONST) = q XOR BECH32M_CONST"
    by (simp add: take_bit_xor BECH32M_CONST_def)
  then have b: "0 \<le> q XOR BECH32M_CONST" "q XOR BECH32M_CONST < 2 ^ 30"
    by (metis take_bit_nonnegative, metis take_bit_int_less_exp)
  have "foldl polymod_step a ?cs = foldl polymod_step (a XOR 0) (map2 (XOR) [0, 0, 0, 0, 0, 0] ?cs)"
    by (simp add: create_checksum_def Let_def upt_rec)
  also have "\<dots> = q XOR foldl polymod_step 0 ?cs"
    unfolding q_def by (rule fold_step_linear) (simp add: create_checksum_def Let_def)
  also have "foldl polymod_step 0 ?cs = q XOR BECH32M_CONST"
    using fold_digits[OF b] q by (simp add: create_checksum_def Let_def)
  finally have "foldl polymod_step a ?cs = BECH32M_CONST"
    by (simp flip: xor.assoc)
  then show ?thesis by (simp add: verify_checksum_def a_def polymod_def)
qed

section \<open>Regrouping bits\<close>

text \<open>The \<open>n\<close> low bits of a number, most significant first, and a sequence of such groups.\<close>

definition blist :: "nat \<Rightarrow> int \<Rightarrow> bool list" where
  "blist n a = map (\<lambda>i. bit a (n - 1 - i)) [0..<n]"

definition groups :: "nat \<Rightarrow> int list \<Rightarrow> bool list" where
  "groups t xs = concat (map (blist t) xs)"

definition in_range :: "nat \<Rightarrow> int list \<Rightarrow> bool" where
  "in_range t xs \<longleftrightarrow> list_all (\<lambda>x. 0 \<le> x \<and> x < 2 ^ t) xs"

lemma length_blist [simp]: "length (blist n a) = n"
  by (simp add: blist_def)

lemma blist_0 [simp]: "blist 0 a = []"
  by (simp add: blist_def)

lemma groups_simps [simp]:
  "groups t [] = []" "groups t (x # xs) = blist t x @ groups t xs" "groups t (xs @ ys) = groups t xs @ groups t ys"
  by (simp_all add: groups_def)

lemma length_groups [simp]: "length (groups t xs) = length xs * t"
  by (induction xs) simp_all

lemma in_range_simps [simp]:
  "in_range t []" "in_range t (x # xs) \<longleftrightarrow> 0 \<le> x \<and> x < 2 ^ t \<and> in_range t xs"
  "in_range t (xs @ ys) \<longleftrightarrow> in_range t xs \<and> in_range t ys"
  by (simp_all add: in_range_def)

lemma blist_add: "blist (m + n) a = blist m (drop_bit n a) @ blist n a"
  by (rule nth_equalityI) (auto simp: blist_def nth_append bit_drop_bit_eq intro!: arg_cong[where f = "bit a"])

lemma blist_eq_iff: "blist n a = blist n b \<longleftrightarrow> take_bit n a = take_bit n b"
proof
  assume e: "blist n a = blist n b"
  show "take_bit n a = take_bit n b"
  proof (rule bit_eqI)
    fix i
    show "bit (take_bit n a) i = bit (take_bit n b) i"
      using arg_cong[OF e, of "\<lambda>l. l ! (n - 1 - i)"] by (cases "i < n") (simp_all add: blist_def bit_take_bit_iff)
  qed
next
  assume e: "take_bit n a = take_bit n b"
  have "bit a i = bit b i" if "i < n" for i
    using arg_cong[OF e, of "\<lambda>x. bit x i"] that by (simp add: bit_take_bit_iff)
  then show "blist n a = blist n b" by (simp add: blist_def)
qed

lemma blist_take [simp]: "blist n (take_bit n a) = blist n a"
  by (simp add: blist_eq_iff)

lemma blist_zero: "blist n 0 = replicate n False"
  by (simp add: blist_def map_replicate_const)

lemma blist_push: "blist (m + n) (push_bit n a OR v) = blist m a @ blist n v" if "0 \<le> v" "v < 2 ^ n"
proof -
  have "drop_bit n v = 0" using that by (simp add: drop_bit_eq_div)
  moreover have "take_bit n (push_bit n a OR v) = take_bit n v"
    by (simp add: take_bit_or take_bit_push_bit)
  ultimately show ?thesis
    by (simp add: blist_add drop_bit_or blist_eq_iff drop_bit_push_bit_int)
qed

lemma groups_inj: "groups t xs = groups t ys \<Longrightarrow> length xs = length ys \<Longrightarrow> in_range t xs \<Longrightarrow> in_range t ys \<Longrightarrow> xs = ys"
proof (induction xs ys rule: list_induct2')
  case (4 x xs y ys)
  then have "blist t x = blist t y" "groups t xs = groups t ys" by simp_all
  with 4 show ?case by (simp add: blist_eq_iff take_bit_int_eq_self)
qed simp_all

lemma maxv_take: "x AND (push_bit t 1 - 1) = take_bit t (x :: int)" "x AND (2 ^ t - 1) = take_bit t (x :: int)"
  by (simp_all add: take_bit_eq_mask mask_eq_exp_minus_1 push_bit_eq_mult)

lemma drain_bits_spec:
  assumes "0 < t" "drain_bits t acc bits ret = (b, ret')"
  shows "b < t \<and> groups t ret' @ blist b acc = groups t ret @ blist bits acc \<and> (in_range t ret \<longrightarrow> in_range t ret')"
  using assms
proof (induction t acc bits ret rule: drain_bits.induct)
  case (1 t acc bits ret)
  show ?case
  proof (cases "bits < t")
    case True
    with 1 show ?thesis by (subst (asm) (2) drain_bits.simps) simp
  next
    case False
    define k where "k = bits - t"
    then have k: "bits = t + k" using False by simp
    have "drain_bits t acc k (ret @ [take_bit t (drop_bit k acc)]) = (b, ret')"
      using 1(3) False 1(2) by (subst (asm) drain_bits.simps) (simp add: maxv_take k)
    with 1(1)[OF _ k_def 1(2)] False 1(2) show ?thesis
      by (simp add: maxv_take k blist_add)
  qed
qed

lemma regroup_spec:
  assumes "0 < t" "regroup f t dat acc bits ret = Some (acc', b, ret')" "bits < t"
  shows "b < t \<and> groups t ret' @ blist b acc' = groups t ret @ blist bits acc @ groups f dat \<and>
     (in_range t ret \<longrightarrow> in_range t ret')"
  using assms(2,3)
proof (induction dat arbitrary: acc bits ret)
  case (Cons v dat)
  obtain b1 ret1 where d: "drain_bits t (push_bit f acc OR v) (bits + f) ret = (b1, ret1)"
    by fastforce
  have v: "0 \<le> v" "v < 2 ^ f" using Cons.prems(1)
    by (auto split: if_splits simp: drop_bit_eq_div zdiv_eq_0_iff)
  from drain_bits_spec[OF assms(1) d]
  have b1: "b1 < t" "groups t ret1 @ blist b1 (push_bit f acc OR v) = groups t ret @ blist bits acc @ blist f v"
    "in_range t ret \<longrightarrow> in_range t ret1"
    by (simp_all add: blist_push[OF v])
  have "regroup f t dat (push_bit f acc OR v) b1 ret1 = Some (acc', b, ret')"
    using Cons.prems(1) d by (simp split: if_splits)
  from Cons.IH[OF this b1(1)] b1 show ?case
    by (metis append_assoc groups_simps(2))
qed simp

lemma regroup_total: "in_range f dat \<Longrightarrow> \<exists>r. regroup f t dat acc bits ret = Some r"
proof (induction dat arbitrary: acc bits ret)
  case (Cons v dat)
  then show ?case by (auto simp: drop_bit_eq_div Let_def split: prod.split)
qed simp

lemma convertbits_pad:
  assumes "0 < t" "in_range f dat"
  shows "\<exists>out p. convertbits dat f t True = Some out \<and> in_range t out \<and> p < t \<and>
    groups t out = groups f dat @ replicate p False"
proof -
  obtain acc b ret where r: "regroup f t dat 0 0 [] = Some (acc, b, ret)"
    using regroup_total[OF assms(2)] by (metis prod_cases3)
  from regroup_spec[OF assms(1) r assms(1)]
  have s: "b < t" "groups t ret @ blist b acc = groups f dat" "in_range t ret" by simp_all
  show ?thesis
  proof (cases "b = 0")
    case True
    with r s show ?thesis by (intro exI[of _ ret] exI[of _ 0]) (simp add: convertbits_def Let_def)
  next
    case False
    let ?x = "push_bit (t - b) acc AND (push_bit t 1 - 1)"
    have "blist t ?x = blist (b + (t - b)) (push_bit (t - b) acc OR 0)"
      using s(1) by (simp add: maxv_take)
    also have "\<dots> = blist b acc @ replicate (t - b) False"
      by (subst blist_push) (simp_all add: blist_zero)
    finally have "blist t ?x = blist b acc @ replicate (t - b) False" .
    moreover have "0 \<le> ?x" "?x < 2 ^ t" by (simp_all add: maxv_take)
    ultimately show ?thesis
      using r s False by (intro exI[of _ "ret @ [?x]"] exI[of _ "t - b"]) (simp add: convertbits_def Let_def)
  qed
qed

lemma convertbits_unpad:
  assumes "in_range f dat" "f \<le> t" "p < f" "in_range t out" "groups f dat = groups t out @ replicate p False"
  shows "convertbits dat f t False = Some out"
proof -
  have t: "0 < t" using assms(2,3) by simp
  obtain acc b ret where r: "regroup f t dat 0 0 [] = Some (acc, b, ret)"
    using regroup_total[OF assms(1)] by (metis prod_cases3)
  from regroup_spec[OF t r t]
  have s: "b < t" "groups t ret @ blist b acc = groups t out @ replicate p False" "in_range t ret"
    using assms(5) by simp_all
  have l: "length ret * t + b = length out * t + p"
    using arg_cong[OF s(2), of length] by simp
  then have "(length ret * t + b) div t = (length out * t + p) div t" by simp
  then have len: "length ret = length out"
    using cut_at(1)[of b t "length ret"] cut_at(1)[of p t "length out"] s(1) assms(2,3) by simp
  then have b: "b = p" using l by simp
  with s(2) len have g: "groups t ret = groups t out" "blist p acc = replicate p False"
    by (simp_all add: append_eq_append_conv)
  then have "ret = out" using groups_inj len s(3) assms(4) by blast
  moreover have "take_bit t (push_bit (t - p) acc) = 0"
  proof -
    have "take_bit p acc = 0" using g(2) blist_eq_iff[of p acc 0] by (simp add: blist_zero)
    then show ?thesis using assms(2,3) by (simp add: take_bit_push_bit)
  qed
  ultimately show ?thesis
    using r b assms(3) by (simp add: convertbits_def Let_def maxv_take)
qed

section \<open>Encoded text decodes\<close>

lemma charset_chars:
  "list_all (\<lambda>c. 33 \<le> (of_char c :: nat) \<and> (of_char c :: nat) \<le> 126 \<and> lower_char c = c \<and> c \<noteq> CHR ''1'') CHARSET"
  by (simp add: CHARSET_def lower_char_def)

lemma length_CHARSET [simp]: "length CHARSET = 32"
  by (simp add: CHARSET_def)

lemma distinct_CHARSET: "distinct CHARSET"
  by (simp add: CHARSET_def)

lemma find_nth: "distinct xs \<Longrightarrow> n < length xs \<Longrightarrow> List.find (\<lambda>i. xs ! i = xs ! n) [0..<length xs] = Some n"
  by (auto simp: find_Some_iff nth_eq_iff_index_eq intro!: exI[of _ n])

lemma charset_index_nth: "n < 32 \<Longrightarrow> charset_index (CHARSET ! n) = Some (int n)"
  using find_nth[OF distinct_CHARSET, of n] by (simp add: charset_index_def)

lemma charset_index_int: "0 \<le> a \<Longrightarrow> a < 32 \<Longrightarrow> charset_index (CHARSET ! nat a) = Some a"
  using charset_index_nth[of "nat a"] by simp

lemma index_all_chars: "in_range 5 dat \<Longrightarrow> index_all (map (\<lambda>d. CHARSET ! nat d) dat) = Some dat"
  by (induction dat) (simp_all add: charset_index_int)

lemma chars_ok: "in_range 5 dat \<Longrightarrow>
    list_all (\<lambda>c. 33 \<le> (of_char c :: nat) \<and> (of_char c :: nat) \<le> 126 \<and> lower_char c = c \<and> c \<noteq> CHR ''1'')
      (map (\<lambda>d. CHARSET ! nat d) dat)"
proof (induction dat)
  case (Cons d dat)
  then have "nat d < length CHARSET" by simp linarith
  then have "CHARSET ! nat d \<in> set CHARSET" by (rule nth_mem)
  with Cons charset_chars[unfolded list_all_iff] show ?case by simp
qed simp

lemma rfind_one_last: "CHR ''1'' \<notin> set cs \<Longrightarrow> rfind_one (hrp @ CHR ''1'' # cs) = int (length hrp)"
proof -
  assume "CHR ''1'' \<notin> set cs"
  then have "dropWhile (\<lambda>c. c \<noteq> CHR ''1'') (rev cs @ CHR ''1'' # rev hrp) = CHR ''1'' # rev hrp"
    by (subst dropWhile_append2) auto
  then show ?thesis by (simp add: rfind_one_def)
qed

text \<open>Human-readable parts the encoder is called with: not empty, printable, lower case.\<close>

definition hrp_ok :: "string \<Rightarrow> bool" where
  "hrp_ok hrp \<longleftrightarrow> hrp \<noteq> [] \<and> list_all (\<lambda>c. 33 \<le> (of_char c :: nat) \<and> (of_char c :: nat) \<le> 126 \<and> lower_char c = c) hrp"

definition bech_text :: "string \<Rightarrow> int list \<Rightarrow> string" where
  "bech_text hrp dat = hrp @ CHR ''1'' # map (\<lambda>d. CHARSET ! nat d) dat"

lemma bech32m_decode_text:
  assumes "hrp_ok hrp" "in_range 5 dat" "6 \<le> length dat"
  shows "bech32m_decode (bech_text hrp dat) =
    (if \<not> verify_checksum hrp dat then None
     else map_option (\<lambda>p. (hrp, map word_of_int p)) (convertbits (take (length dat - 6) dat) 5 8 False))"
proof -
  let ?s = "bech_text hrp dat"
  let ?cs = "map (\<lambda>d. CHARSET ! nat d) dat"
  note cs = chars_ok[OF assms(2)]
  have "\<not> list_ex (\<lambda>c. (of_char c :: nat) < 33 \<or> (of_char c :: nat) > 126) ?s"
    using assms(1) cs by (auto simp: bech_text_def hrp_ok_def list_ex_iff list_all_iff)
  moreover have "str_lower ?s = ?s"
    using assms(1) cs by (auto simp: bech_text_def hrp_ok_def str_lower_def list_all_iff lower_char_def
        intro!: map_idI)
  moreover have "rfind_one ?s = int (length hrp)"
    using cs unfolding bech_text_def by (intro rfind_one_last) (auto simp: list_all_iff)
  moreover have "length ?s = length hrp + 1 + length dat" "take (length hrp) ?s = hrp"
    "drop (length hrp + 1) ?s = ?cs"
    by (simp_all add: bech_text_def)
  moreover have "1 \<le> length hrp" "hrp \<noteq> []"
    using assms(1) by (auto simp: hrp_ok_def Suc_le_eq)
  ultimately show ?thesis
    using assms(2,3) by (simp add: bech32m_decode_def Let_def index_all_chars split: option.split)
qed

lemma checksum_range: "in_range 5 (create_checksum hrp dat)" "length (create_checksum hrp dat) = 6"
proof -
  have "x AND 31 = take_bit 5 x" for x :: int
    by (simp add: take_bit_eq_mask mask_eq_exp_minus_1)
  then show "in_range 5 (create_checksum hrp dat)"
    using take_bit_int_less_exp[of 5]
    by (simp add: create_checksum_def Let_def in_range_def list_all_iff del: take_bit_xor drop_bit_xor)
qed (simp add: create_checksum_def Let_def)

lemma in_range_bytes [simp]: "in_range 8 (map uint (bs :: bytes))"
  by (simp add: in_range_def list_all_iff uint_byte_bounds)

lemma bech32m_encode_text:
  obtains dat where "bech32m_encode hrp payload = Inr (bech_text hrp (dat @ create_checksum hrp dat))"
    "in_range 5 dat" "convertbits dat 5 8 False = Some (map uint payload)"
proof -
  obtain dat p where d: "convertbits (map uint payload) 8 5 True = Some dat" "in_range 5 dat" "p < 5"
    "groups 5 dat = groups 8 (map uint payload) @ replicate p False"
    using convertbits_pad[of 5 8 "map uint payload"] by auto
  then have "convertbits dat 5 8 False = Some (map uint payload)"
    by (intro convertbits_unpad) auto
  with d that[of dat] show ?thesis by (simp add: bech32m_encode_def bech_text_def)
qed

lemma bech32m_roundtrip:
  assumes "hrp_ok hrp"
  shows "\<exists>s. bech32m_encode hrp payload = Inr s \<and> bech32m_decode s = Some (hrp, payload)"
proof -
  obtain dat where d: "bech32m_encode hrp payload = Inr (bech_text hrp (dat @ create_checksum hrp dat))"
    "in_range 5 dat" "convertbits dat 5 8 False = Some (map uint payload)"
    by (rule bech32m_encode_text)
  have "map word_of_int (map uint payload) = payload"
    by (simp add: o_def)
  with d assms checksum_ok[of hrp dat] show ?thesis
    by (simp add: bech32m_decode_text checksum_range)
qed

subsection \<open>A wrong character is always noticed\<close>

lemma gen_sum_low: "take_bit 5 (gen_sum b) = 0 \<Longrightarrow> take_bit 5 b = 0"
proof -
  assume g: "take_bit 5 (gen_sum b) = 0"
  have "\<not> bit b 0 \<and> \<not> bit b 1 \<and> \<not> bit b 2 \<and> \<not> bit b 3 \<and> \<not> bit b 4"
    using g by (cases "bit b 0"; cases "bit b 1"; cases "bit b 2"; cases "bit b 3"; cases "bit b 4")
      (simp_all add: gen_sum_def)
  moreover have "n = 0 \<or> n = 1 \<or> n = 2 \<or> n = 3 \<or> n = 4" if "n < 5" for n :: nat
    using that by linarith
  ultimately show ?thesis
    by (intro bit_eqI) (auto simp: bit_take_bit_iff)
qed

lemma step_zero_inj:
  assumes "0 \<le> a" "a < 2 ^ 30" "polymod_step a 0 = 0"
  shows "a = 0"
proof -
  let ?b = "drop_bit 25 a"
  have "take_bit 5 (polymod_step a 0) = take_bit 5 (gen_sum ?b)"
    by (simp add: polymod_step_eq take_bit_push_bit)
  with assms(3) have "take_bit 5 (gen_sum ?b) = 0" by (metis take_bit_of_0)
  then have "take_bit 5 ?b = 0" by (rule gen_sum_low)
  moreover have "take_bit 5 ?b = ?b"
    using assms(1,2) by (intro take_bit_int_eq_self) (simp_all add: drop_bit_eq_div)
  ultimately have b: "?b = 0" by simp
  with assms(3) have "push_bit 5 (take_bit 25 a) = 0"
    by (simp add: polymod_step_eq gen_sum_def)
  then have "take_bit 25 a = 0" by (simp add: push_bit_eq_mult)
  with b have "push_bit 25 0 + 0 = a"
    using bits_ident[of 25 a] by (simp only:)
  then show ?thesis by simp
qed

lemma fold_zeros_inj:
  "0 \<le> a \<Longrightarrow> a < 2 ^ 30 \<Longrightarrow> foldl polymod_step a (replicate n 0) = 0 \<Longrightarrow> a = 0"
proof (induction n arbitrary: a)
  case (Suc n)
  have "take_bit 30 (polymod_step a 0) = polymod_step a 0" by (rule step_bounded) simp_all
  then have "0 \<le> polymod_step a 0" "polymod_step a 0 < 2 ^ 30"
    by (metis take_bit_nonnegative, metis take_bit_int_less_exp)
  with Suc have "polymod_step a 0 = 0" by simp
  with Suc.prems step_zero_inj show ?case by blast
qed simp

lemma fold_zero_zeros: "foldl polymod_step 0 (replicate n 0) = 0"
  by (induction n) (simp_all add: polymod_step_eq gen_sum_def)

lemma polymod_update:
  assumes "i < length vs" "0 \<le> vs ! i" "vs ! i < 32" "0 \<le> w" "w < 32" "w \<noteq> vs ! i"
  shows "polymod (vs[i := w]) \<noteq> polymod vs"
proof
  assume e: "polymod (vs[i := w]) = polymod vs"
  let ?d = "vs ! i XOR w"
  let ?diff = "replicate i 0 @ ?d # replicate (length vs - Suc i) 0"
  have "vs[i := w] = map2 (XOR) vs ?diff"
    by (rule nth_equalityI) (use assms(1) in \<open>auto simp: nth_list_update nth_append nth_Cons' simp flip: xor.assoc\<close>)
  then have "polymod (vs[i := w]) = polymod vs XOR foldl polymod_step 0 ?diff"
    using fold_step_linear[of vs ?diff 1 0] assms(1) by (simp add: polymod_def)
  with e have "polymod vs XOR (polymod vs XOR foldl polymod_step 0 ?diff) = 0" by simp
  then have z: "foldl polymod_step 0 ?diff = 0"
    by (simp flip: xor.assoc)
  have r: "take_bit 5 ?d = ?d"
    using assms(2-5) by (simp add: take_bit_xor take_bit_int_eq_self)
  then have "0 \<le> ?d" "?d < 32"
    using take_bit_nonnegative[of 5 ?d] take_bit_int_less_exp[of 5 ?d] by simp_all
  with z have "?d = 0"
    using fold_zeros_inj[of ?d "length vs - Suc i"] by (simp add: fold_zero_zeros step_small)
  then have "vs ! i XOR (vs ! i XOR w) = vs ! i" by simp
  then show False using assms(6) by (simp flip: xor.assoc)
qed

section \<open>Addresses and their display form\<close>

lemma address_text:
  obtains dat where "address_encode pub = Inr (bech_text ''rvn'' (dat @ create_checksum ''rvn'' dat))"
    "in_range 5 (dat @ create_checksum ''rvn'' dat)"
    "convertbits dat 5 8 False = Some (map uint (ADDRESS_VERSION # take 20 (sha256 pub)))"
proof -
  obtain dat where d: "bech32m_encode ''rvn'' (ADDRESS_VERSION # take 20 (sha256 pub)) =
      Inr (bech_text ''rvn'' (dat @ create_checksum ''rvn'' dat))" "in_range 5 dat"
    "convertbits dat 5 8 False = Some (map uint (ADDRESS_VERSION # take 20 (sha256 pub)))"
    by (rule bech32m_encode_text)
  show thesis by (rule that[OF _ _ d(3)]) (simp_all add: address_encode_def d(1,2) checksum_range)
qed

lemma rvn_length:
  assumes "bech32m_encode ''rvn'' (ver # h) = Inr v" "length h = 20"
  shows "length v = 44"
proof -
  obtain out p where o: "convertbits (map uint (ver # h)) 8 5 True = Some out" "p < 5"
    "groups 5 out = groups 8 (map uint (ver # h)) @ replicate p False"
  proof -
    have "(0 :: nat) < 5" by simp
    from convertbits_pad[OF this in_range_bytes[of "ver # h"]] show thesis by (elim exE conjE) (rule that)
  qed
  have "length out * 5 = 168 + p"
    using arg_cong[OF o(3), of length] assms(2) by simp
  then have "length out = 34" using o(2) by linarith
  with assms(1) o(1) show ?thesis by (auto simp: bech32m_encode_def Let_def checksum_range)
qed

lemma address_length_44: "address_encode pk = Inr a \<Longrightarrow> length a = 44"
  using rvn_length[of ADDRESS_VERSION "take 20 (sha256 pk)" a] by (simp add: address_encode_def Let_def min_def)

lemma address_length: "address_encode pk = Inr a \<Longrightarrow> length a \<le> 44"
  by (simp add: address_length_44)

lemma hrp_rvn [simp]: "hrp_ok ''rvn''"
  by (simp add: hrp_ok_def lower_char_def)

definition plain_text :: "string \<Rightarrow> bool" where
  "plain_text s \<longleftrightarrow> list_all (\<lambda>c. 33 \<le> (of_char c :: nat) \<and> (of_char c :: nat) \<le> 126) s"

lemma strip_plain: "plain_text s \<Longrightarrow> str_strip s = s"
proof -
  have *: "plain_text s \<Longrightarrow> dropWhile is_strip s = s" for s
    by (cases s) (auto simp: plain_text_def is_strip_def)
  assume "plain_text s"
  then have "plain_text (rev s)" by (simp add: plain_text_def)
  with \<open>plain_text s\<close> show ?thesis by (simp add: str_strip_def *)
qed

lemma bech_text_plain: "hrp_ok hrp \<Longrightarrow> in_range 5 dat \<Longrightarrow> plain_text (bech_text hrp dat)"
  using chars_ok[of dat] by (auto simp: plain_text_def bech_text_def hrp_ok_def list_all_iff)

lemma remove_all_absent: "x \<in> set old \<Longrightarrow> x \<notin> set s \<Longrightarrow> remove_all old s = s"
proof (induction old s rule: remove_all.induct)
  case (2 old c cs)
  then have "take (length old) (c # cs) \<noteq> old"
    by (metis in_set_takeD)
  with 2 show ?case by simp
qed simp

lemma remove_all_prefix: "old \<noteq> [] \<Longrightarrow> remove_all old (old @ s) = remove_all old s"
  by (cases old) simp_all

lemma remove_char_append: "remove_all [x] (s @ t) = remove_all [x] s @ remove_all [x] t"
  by (induction s) simp_all

lemma remove_dash_join: "list_all (\<lambda>g. CHR ''-'' \<notin> set g) gs \<Longrightarrow> remove_all ''-'' (join_dash gs) = concat gs"
  by (induction gs rule: join_dash.induct) (simp_all add: remove_char_append remove_all_absent)

lemma concat_chunks: "0 < n \<Longrightarrow> concat (chunks_of n xs) = xs"
proof (induction n xs rule: chunks_of.induct)
  case (2 n x xs)
  then show ?case by (simp del: take_Suc_Cons drop_Suc_Cons)
qed simp

lemma chunks_set: "g \<in> set (chunks_of n xs) \<Longrightarrow> 0 < n \<Longrightarrow> set g \<subseteq> set xs"
  using concat_chunks[of n xs] by (metis UN_upper set_concat)

lemma join_dash_set: "set (join_dash gs) \<subseteq> insert (CHR ''-'') (\<Union> (set ` set gs))"
  by (induction gs rule: join_dash.induct) auto

lemma group4_remove: "CHR ''-'' \<notin> set s \<Longrightarrow> remove_all ''-'' (group4 s) = s"
  unfolding group4_def using chunks_set[of _ 4 s]
  by (subst remove_dash_join) (auto simp: list_all_iff concat_chunks)

lemma lower_upper: "lower_char c = c \<Longrightarrow> lower_char (upper_char c) = c"
  by (auto simp: lower_char_def upper_char_def Let_def split: if_splits)

lemma of_char_upper: "(of_char (upper_char c) :: nat) =
    (if 97 \<le> (of_char c :: nat) \<and> (of_char c :: nat) \<le> 122 then of_char c - 32 else of_char c)"
  by (auto simp: upper_char_def Let_def)

lemma upper_char_sep: "upper_char c = CHR ''-'' \<longleftrightarrow> c = CHR ''-''" "upper_char c = CHR '':'' \<longleftrightarrow> c = CHR '':''"
proof -
  have "(of_char (CHR ''-'') :: nat) = 45" "(of_char (CHR '':'') :: nat) = 58" by simp_all
  then have e: "d = CHR ''-'' \<longleftrightarrow> (of_char d :: nat) = 45" "d = CHR '':'' \<longleftrightarrow> (of_char d :: nat) = 58" for d
    by (metis of_char_eq_iff)+
  show "upper_char c = CHR ''-'' \<longleftrightarrow> c = CHR ''-''" "upper_char c = CHR '':'' \<longleftrightarrow> c = CHR '':''"
    unfolding e of_char_upper by arith+
qed

lemma charset_seps: "list_all (\<lambda>c. c \<noteq> CHR ''-'' \<and> c \<noteq> CHR '':'') CHARSET"
  by (simp add: CHARSET_def)

lemma charset_upper:
  "list_all (\<lambda>c. lower_char (upper_char c) = c \<and> upper_char c \<noteq> CHR ''-'' \<and> upper_char c \<noteq> CHR '':'') CHARSET"
  unfolding upper_char_sep using charset_chars charset_seps
  unfolding list_all_iff by (metis lower_upper)

lemma charset_text_mem: "in_range 5 dat \<Longrightarrow> set (map (\<lambda>d. CHARSET ! nat d) dat) \<subseteq> set CHARSET"
proof (induction dat)
  case (Cons d dat)
  then have "nat d < length CHARSET" by simp linarith
  then have "CHARSET ! nat d \<in> set CHARSET" by (rule nth_mem)
  with Cons show ?case by simp
qed simp

lemma display_text:
  assumes "in_range 5 dat"
  shows "\<exists>d. to_display (bech_text ''rvn'' dat) = Inr d \<and> from_display d = bech_text ''rvn'' dat"
proof -
  define cs where "cs = map (\<lambda>d. CHARSET ! nat d) dat"
  have cs: "\<forall>c \<in> set cs. lower_char (upper_char c) = c \<and> upper_char c \<noteq> CHR ''-'' \<and> upper_char c \<noteq> CHR '':''"
    using charset_text_mem[OF assms] charset_upper[unfolded list_all_iff] unfolding cs_def by blast
  have dash: "CHR ''-'' \<notin> set (str_upper cs)" and colon: "CHR '':'' \<notin> set (str_upper cs)"
    using cs by (auto simp: str_upper_def)
  have "CHR '':'' \<notin> set (group4 (str_upper cs))"
    using join_dash_set[of "chunks_of 4 (str_upper cs)"] chunks_set[of _ 4 "str_upper cs"] colon
    by (fastforce simp: group4_def)
  then have r: "remove_all ''rvn1:'' (''rvn1:'' @ group4 (str_upper cs)) = group4 (str_upper cs)"
    using remove_all_prefix[of "''rvn1:''"] remove_all_absent[of "CHR '':''" "''rvn1:''"] by simp
  have low: "str_lower (str_upper cs) = cs"
    using cs by (auto simp: str_lower_def str_upper_def intro!: map_idI)
  have "to_display (bech_text ''rvn'' dat) = Inr (''rvn1:'' @ group4 (str_upper cs))"
    by (simp add: to_display_def after_one_def bech_text_def cs_def)
  moreover have "from_display (''rvn1:'' @ group4 (str_upper cs)) = bech_text ''rvn'' dat"
    unfolding from_display_def Let_def r group4_remove[OF dash] low by (simp add: bech_text_def cs_def)
  ultimately show ?thesis by blast
qed

lemma decode_address_text:
  "in_range 5 dat \<Longrightarrow> 6 \<le> length dat \<Longrightarrow> \<not> verify_checksum ''rvn'' dat \<Longrightarrow>
     address_decode (bech_text ''rvn'' dat) = None"
  by (simp add: address_decode_def strip_plain bech_text_plain bech32m_decode_text)

lemma upper_plain: "plain_text s \<Longrightarrow> plain_text (str_upper s)"
  by (fastforce simp: plain_text_def str_upper_def list_all_iff of_char_upper)

lemma upper_upper: "str_upper (str_upper s) = str_upper s"
proof -
  have "upper_char (upper_char c) = upper_char c" for c
    by (subst of_char_eq_iff[symmetric, where 'a = nat]) (simp add: of_char_upper, linarith)
  then show ?thesis by (simp add: str_upper_def)
qed

lemma lower_of_upper: "str_lower s = s \<Longrightarrow> str_lower (str_upper s) = s"
  by (induction s) (simp_all add: str_lower_def str_upper_def lower_upper)

lemma bech32m_decode_upper:
  assumes "plain_text s" "str_lower s = s"
  shows "bech32m_decode (str_upper s) = bech32m_decode s"
proof -
  have p: "\<not> list_ex (\<lambda>c. (of_char c :: nat) < 33 \<or> (of_char c :: nat) > 126) x" if "plain_text x" for x
    using that by (auto simp: plain_text_def list_all_iff list_ex_iff)
  show ?thesis
    unfolding bech32m_decode_def
    by (simp only: p[OF assms(1)] p[OF upper_plain[OF assms(1)]] upper_upper assms(2) lower_of_upper[OF assms(2)] simp_thms if_False)
qed

lemma address_decode_upper: "plain_text s \<Longrightarrow> str_lower s = s \<Longrightarrow> address_decode (str_upper s) = address_decode s"
  by (simp add: address_decode_def strip_plain upper_plain bech32m_decode_upper)

lemma bech_text_lower: "hrp_ok hrp \<Longrightarrow> in_range 5 dat \<Longrightarrow> str_lower (bech_text hrp dat) = bech_text hrp dat"
  using chars_ok[of dat]
  by (auto simp: bech_text_def hrp_ok_def str_lower_def list_all_iff lower_char_def intro!: map_idI)

text \<open>
  C20: Every identity key has an address; the address, and the same text in upper case, decode to
  version 1 and the first 20 bytes of the key's hash, and its display form converts back to the address.
\<close>

theorem address_roundtrip:
  "\<exists>addr disp. address_encode pub = Inr addr \<and> address_decode addr = Some (take 20 (sha256 pub), 1) \<and>
     address_decode (str_upper addr) = Some (take 20 (sha256 pub), 1) \<and>
     to_display addr = Inr disp \<and> from_display disp = addr"
proof -
  obtain dat where d: "address_encode pub = Inr (bech_text ''rvn'' (dat @ create_checksum ''rvn'' dat))"
    "in_range 5 (dat @ create_checksum ''rvn'' dat)"
    "convertbits dat 5 8 False = Some (map uint (ADDRESS_VERSION # take 20 (sha256 pub)))"
    by (rule address_text)
  have "bech32m_decode (bech_text ''rvn'' (dat @ create_checksum ''rvn'' dat)) =
      Some (''rvn'', ADDRESS_VERSION # take 20 (sha256 pub))"
    using d checksum_ok[of "''rvn''" dat] by (simp add: bech32m_decode_text checksum_range o_def)
  then have "address_decode (bech_text ''rvn'' (dat @ create_checksum ''rvn'' dat)) = Some (take 20 (sha256 pub), 1)"
    using d(2) by (simp add: address_decode_def strip_plain bech_text_plain ADDRESS_VERSION_def)
  moreover from this have "address_decode (str_upper (bech_text ''rvn'' (dat @ create_checksum ''rvn'' dat))) =
      Some (take 20 (sha256 pub), 1)"
    using d(2) by (simp add: address_decode_upper bech_text_plain bech_text_lower)
  ultimately show ?thesis using d(1) display_text[OF d(2)] by blast
qed

text \<open>
  C26: Replacing any one character behind the separator of an address by another character of the
  alphabet gives a text that does not decode as an address.
\<close>

theorem address_typo_detected:
  assumes "address_encode pub = Inr addr" and "4 \<le> i" "i < length addr"
    and "c \<in> set CHARSET" "c \<noteq> addr ! i"
  shows "address_decode (addr[i := c]) = None"
proof -
  obtain dat where d: "address_encode pub = Inr (bech_text ''rvn'' (dat @ create_checksum ''rvn'' dat))"
    "in_range 5 (dat @ create_checksum ''rvn'' dat)"
    by (rule address_text)
  define all where "all = dat @ create_checksum ''rvn'' dat"
  have addr: "addr = bech_text ''rvn'' all" and rng: "in_range 5 all" and len: "6 \<le> length all"
    using d assms(1) by (simp_all add: all_def checksum_range)
  define j where "j = i - 4"
  have j: "i = 4 + j" "j < length all" using assms(2,3) addr by (simp_all add: j_def bech_text_def)
  obtain n where n: "n < 32" "c = CHARSET ! n" using assms(4) by (auto simp: in_set_conv_nth)
  have all_j: "0 \<le> all ! j" "all ! j < 32"
    using rng j(2) by (simp_all add: in_range_def list_all_length)
  have ne: "int n \<noteq> all ! j"
  proof
    assume "int n = all ! j"
    then have "nat (all ! j) = n" by (metis nat_int)
    with assms(5) n addr j show False by (simp add: bech_text_def nth_append)
  qed
  have "addr[i := c] = bech_text ''rvn'' (all[j := int n])"
    unfolding addr j(1) n(2) by (simp add: bech_text_def map_update list_update_append flip: numeral_eq_Suc)
  moreover have "in_range 5 (all[j := int n])"
    using rng n j(2) by (auto simp: in_range_def list_all_length nth_list_update)
  moreover have "\<not> verify_checksum ''rvn'' (all[j := int n])"
  proof -
    let ?h = "hrp_expand ''rvn''"
    have "polymod ((?h @ all)[length ?h + j := int n]) \<noteq> polymod (?h @ all)"
      by (rule polymod_update) (use j all_j n ne in \<open>simp_all add: nth_append\<close>)
    moreover have "polymod (?h @ all) = BECH32M_CONST"
      using checksum_ok[of "''rvn''" dat] by (simp add: verify_checksum_def all_def)
    ultimately show ?thesis by (simp add: verify_checksum_def list_update_append)
  qed
  ultimately show ?thesis using len by (simp add: decode_address_text)
qed

theorem address_typo_detected_witness:
  "\<exists>addr c. address_encode (zeros 32) = Inr addr \<and> c \<noteq> addr ! 4 \<and> address_decode (addr[4 := c]) = None"
proof -
  obtain dat where d: "address_encode (zeros 32) = Inr (bech_text ''rvn'' (dat @ create_checksum ''rvn'' dat))"
    by (rule address_text)
  let ?a = "bech_text ''rvn'' (dat @ create_checksum ''rvn'' dat)"
  have len: "4 < length ?a" by (simp add: bech_text_def checksum_range)
  obtain c where c: "c \<in> set CHARSET" "c \<noteq> ?a ! 4"
  proof (cases "?a ! 4 = CHR ''q''")
    case True
    then show ?thesis by (intro that[of "CHR ''p''"]) (simp_all add: CHARSET_def)
  next
    case False
    then show ?thesis by (intro that[of "CHR ''q''"]) (simp_all add: CHARSET_def)
  qed
  from address_typo_detected[OF d _ len c] d c(2) show ?thesis by auto
qed

section \<open>Text that decodes is canonical up to case\<close>

lemma fold_small:
  assumes "in_range 5 ds" "length ds \<le> 6"
  shows "foldl polymod_step 0 ds = foldl (\<lambda>a d. 32 * a + d) 0 ds \<and>
    0 \<le> foldl (\<lambda>a d. 32 * a + d) 0 ds \<and> foldl (\<lambda>a d. 32 * a + d) 0 ds < 32 ^ length ds"
  using assms
proof (induction ds rule: rev_induct)
  case (snoc d ds)
  define h where "h = foldl (\<lambda>a d. 32 * a + d) 0 ds"
  have h: "foldl polymod_step 0 ds = h" "0 \<le> h" "h < 32 ^ length ds" using snoc by (simp_all add: h_def)
  have "(32 :: int) ^ length ds \<le> 32 ^ 5" using snoc(3) by (intro power_increasing) simp_all
  then have "h < 2 ^ 25" using h(3) by simp
  with h snoc(2) step_small[of h d] show ?case by (simp flip: h_def)
qed simp

lemma horner_zero: "in_range 5 ds \<Longrightarrow> foldl (\<lambda>a d. 32 * a + d) (0 :: int) ds = 0 \<Longrightarrow> d \<in> set ds \<Longrightarrow> d = 0"
proof (induction ds rule: rev_induct)
  case (snoc x ds)
  define h where "h = foldl (\<lambda>a d. 32 * a + d) (0 :: int) ds"
  have "32 * h + x = 0" "0 \<le> x" "x < 32" using snoc(2,3) by (simp_all add: h_def)
  then have "x = 0" "h = 0" by presburger+
  with snoc show ?case by (auto simp: h_def)
qed simp

lemma xor_eq_zero: "(a :: int) XOR b = 0 \<Longrightarrow> a = b"
proof -
  assume "a XOR b = 0"
  then have "a XOR (a XOR b) = a" by simp
  then show ?thesis by (simp flip: xor.assoc)
qed

lemma in_range_xor: "in_range 5 xs \<Longrightarrow> in_range 5 ys \<Longrightarrow> length xs = length ys \<Longrightarrow> in_range 5 (map2 (XOR) xs ys)"
proof (induction xs ys rule: list_induct2')
  case (4 x xs y ys)
  have "take_bit 5 (x XOR y) = x XOR y" using 4 by (simp add: take_bit_xor take_bit_int_eq_self)
  then have "0 \<le> x XOR y" "x XOR y < 2 ^ 5" by (metis take_bit_nonnegative, metis take_bit_int_less_exp)
  with 4 show ?case by simp
qed simp_all

lemma checksum_unique:
  assumes "verify_checksum hrp (dat @ cs)" "in_range 5 cs" "length cs = 6"
  shows "cs = create_checksum hrp dat"
proof -
  define a where "a = polymod (hrp_expand hrp @ dat)"
  let ?c = "create_checksum hrp dat"
  let ?x = "map2 (XOR) cs ?c"
  have "foldl polymod_step a cs = BECH32M_CONST" "foldl polymod_step a ?c = BECH32M_CONST"
    using assms(1) checksum_ok[of hrp dat] by (simp_all add: verify_checksum_def a_def polymod_def)
  moreover have "foldl polymod_step (a XOR a) ?x = foldl polymod_step a cs XOR foldl polymod_step a ?c"
    by (rule fold_step_linear) (simp add: assms(3) checksum_range)
  ultimately have z: "foldl polymod_step 0 ?x = 0" by simp
  have r: "in_range 5 ?x" using in_range_xor[OF assms(2) checksum_range(1)] assms(3) by (simp add: checksum_range)
  then have "foldl (\<lambda>a d. 32 * a + d) 0 ?x = 0"
    using fold_small[of ?x] z by (simp add: assms(3) checksum_range)
  then have "\<forall>d \<in> set ?x. d = 0" using horner_zero[OF r] by blast
  then have "cs ! i = ?c ! i" if "i < 6" for i
  proof -
    have l: "length ?x = 6" by (simp add: assms(3) checksum_range)
    have "?x ! i = 0" using \<open>\<forall>d \<in> set ?x. d = 0\<close> nth_mem[of i ?x] that l by metis
    moreover have "?x ! i = cs ! i XOR ?c ! i" using that by (simp add: assms(3) checksum_range)
    ultimately show ?thesis using xor_eq_zero by metis
  qed
  then show ?thesis by (intro nth_equalityI) (simp_all add: assms(3) checksum_range)
qed

lemma pad_unique: "x * 5 = m + b \<Longrightarrow> y * 5 = m + q \<Longrightarrow> b < 5 \<Longrightarrow> q < 5 \<Longrightarrow> b = q \<and> x = (y :: nat)"
  by (cases x y rule: linorder_cases) simp_all

lemma convertbits_unpad_dest:
  assumes "convertbits dat 5 8 False = Some p" "in_range 5 dat"
  shows "in_range 8 p \<and> convertbits p 8 5 True = Some dat"
proof -
  obtain acc b ret where g: "regroup 5 8 dat 0 0 [] = Some (acc, b, ret)"
    using regroup_total[OF assms(2)] by (metis prod_cases3)
  have m: "push_bit 8 1 - 1 = (255 :: int)" by (simp add: push_bit_eq_mult)
  have "(if 5 \<le> b \<or> push_bit (8 - b) acc AND 255 \<noteq> 0 then None else Some ret) = Some p"
    using assms(1) unfolding convertbits_def g Let_def m by simp
  then have "ret = p" "b < 5" "push_bit (8 - b) acc AND 255 = 0"
    unfolding if_split_eq1 by (simp_all split: if_splits)
  moreover have "x AND 255 = take_bit 8 x" for x :: int by (simp add: take_bit_eq_mask mask_eq_exp_minus_1)
  ultimately have r: "regroup 5 8 dat 0 0 [] = Some (acc, b, ret)" "ret = p" "b < 5"
    "take_bit 8 (push_bit (8 - b) acc) = 0" using g by metis+
  from regroup_spec[OF _ r(1)] have s: "groups 8 p @ blist b acc = groups 5 dat" "in_range 8 p"
    using r(2) by simp_all
  have "take_bit b acc = 0"
  proof -
    have "take_bit 8 (push_bit (8 - b) acc) = push_bit (8 - b) (take_bit b acc)"
      using r(3) by (simp add: take_bit_push_bit)
    with r(4) show ?thesis by (simp add: push_bit_eq_mult)
  qed
  then have z: "groups 5 dat = groups 8 p @ replicate b False"
    using s(1) blist_eq_iff[of b acc 0] by (simp add: blist_zero)
  obtain out q where o: "convertbits p 8 5 True = Some out" "in_range 5 out" "q < 5"
    "groups 5 out = groups 8 p @ replicate q False"
    using convertbits_pad[of 5 8 p] s(2) by auto
  have "length dat * 5 = length p * 8 + b" "length out * 5 = length p * 8 + q"
    using arg_cong[OF z, of length] arg_cong[OF o(4), of length] by simp_all
  then have "b = q" "length dat = length out" using pad_unique[OF _ _ r(3) o(3)] by metis+
  moreover have "groups 5 dat = groups 5 out" unfolding z o(4) \<open>b = q\<close> ..
  ultimately have "dat = out" using groups_inj o(2) assms(2) by metis
  then show ?thesis using o(1) s(2) by (simp only:)
qed

lemma charset_index_Some: "charset_index c = Some i \<Longrightarrow> 0 \<le> i \<and> i < 32 \<and> CHARSET ! nat i = c"
  by (auto simp: charset_index_def find_Some_iff)

lemma index_all_Some: "index_all cs = Some dat \<Longrightarrow> in_range 5 dat \<and> map (\<lambda>d. CHARSET ! nat d) dat = cs"
  by (induction cs arbitrary: dat) (auto split: option.splits dest: charset_index_Some)

lemma rfind_split: "rfind_one s = int p \<Longrightarrow> s = take p s @ CHR ''1'' # drop (Suc p) s"
proof -
  assume r: "rfind_one s = int p"
  define t where "t = dropWhile (\<lambda>c. c \<noteq> CHR ''1'') (rev s)"
  have l: "length t = Suc p" using r by (simp add: rfind_one_def t_def)
  then have "t \<noteq> []" by auto
  then have t: "t = CHR ''1'' # tl t" using hd_dropWhile[of _ "rev s"] by (metis (full_types) list.collapse t_def)
  have "rev s = takeWhile (\<lambda>c. c \<noteq> CHR ''1'') (rev s) @ t" by (simp add: t_def)
  then have "s = rev t @ rev (takeWhile (\<lambda>c. c \<noteq> CHR ''1'') (rev s))" by (metis rev_append rev_rev_ident)
  then have s: "s = rev (tl t) @ CHR ''1'' # rev (takeWhile (\<lambda>c. c \<noteq> CHR ''1'') (rev s))" by (subst (asm) t) simp
  have "length (rev (tl t)) = p" using l by simp
  with s show ?thesis by (metis append_eq_conv_conj drop_Suc_Cons drop_drop plus_1_eq_Suc list.sel(3) drop_Suc tl_drop)
qed

lemma bech32m_decode_dest:
  assumes "bech32m_decode s = Some (hrp, payload)"
  shows "bech32m_encode hrp payload = Inr (str_lower s)"
proof -
  define l where "l = str_lower s"
  define p where "p = nat (rfind_one l)"
  obtain dat ps where d: "1 \<le> rfind_one l" "rfind_one l + 7 \<le> int (length l)" "hrp = take p l"
    "index_all (drop (Suc p) l) = Some dat" "verify_checksum hrp dat"
    "convertbits (take (length dat - 6) dat) 5 8 False = Some ps" "payload = map word_of_int ps"
    using assms unfolding bech32m_decode_def Let_def l_def[symmetric] p_def
    by (auto simp: not_less split: if_splits option.splits)
  have l: "l = hrp @ CHR ''1'' # drop (Suc p) l" using rfind_split[of l p] d(1,3) by (simp add: p_def)
  from index_all_Some[OF d(4)] have dat: "in_range 5 dat" "map (\<lambda>c. CHARSET ! nat c) dat = drop (Suc p) l" by blast+
  define body cs where "body = take (length dat - 6) dat" and "cs = drop (length dat - 6) dat"
  have "length dat = length l - Suc p" using arg_cong[OF dat(2), of length] by simp
  then have "6 \<le> length dat" using d(1,2) by (simp add: p_def)
  then have c: "dat = body @ cs" "length cs = 6" by (simp_all add: body_def cs_def)
  then have r: "in_range 5 body" "in_range 5 cs" using dat(1) by (metis in_range_simps(3))+
  from checksum_unique[of hrp body cs] c r(2) d(5) have cs: "cs = create_checksum hrp body" by simp
  from convertbits_unpad_dest[OF d(6)] r(1) have ps: "in_range 8 ps" "convertbits ps 8 5 True = Some body"
    by (simp_all add: body_def)
  have "map uint payload = ps"
    using ps(1) by (auto simp: d(7) in_range_def list_all_iff byte_fits_def intro!: map_idI)
  then show ?thesis using ps(2) cs c(1) l dat(2) by (simp add: bech32m_encode_def l_def[symmetric])
qed

lemma of_char_lower: "(of_char (lower_char c) :: nat) =
    (if 65 \<le> (of_char c :: nat) \<and> (of_char c :: nat) \<le> 90 then of_char c + 32 else of_char c)"
  by (simp add: lower_char_def Let_def)

lemma lower_lower [simp]: "str_lower (str_lower s) = str_lower s"
proof -
  have "lower_char (lower_char c) = lower_char c" for c
    using of_char_lower[of c] by (auto simp: lower_char_def Let_def)
  then show ?thesis by (simp add: str_lower_def)
qed

lemma lower_plain: "plain_text s \<Longrightarrow> plain_text (str_lower s)"
  by (auto simp: plain_text_def str_lower_def list_all_iff of_char_lower)

lemma plain_ex: "list_ex (\<lambda>c. (of_char c :: nat) < 33 \<or> (of_char c :: nat) > 126) s \<longleftrightarrow> \<not> plain_text s"
  by (simp add: plain_text_def list_ex_iff list_all_iff not_le[symmetric])

lemma decode_lower:
  "plain_text s \<Longrightarrow> str_lower s = s \<or> str_upper s = s \<Longrightarrow> bech32m_decode s = bech32m_decode (str_lower s)"
  unfolding bech32m_decode_def plain_ex by (auto simp: lower_plain Let_def)

text \<open>
  Bech32m text is canonical: a text decodes to a pair exactly when it is printable and of one
  case, the readable part is not empty, and its lower case form is what the encoder writes for the
  pair; so each payload has one accepted spelling up to case.
\<close>

theorem bech32m_canonical:
  "bech32m_decode s = Some (hrp, payload) \<longleftrightarrow>
     plain_text s \<and> (str_lower s = s \<or> str_upper s = s) \<and> hrp \<noteq> [] \<and> bech32m_encode hrp payload = Inr (str_lower s)"
proof
  assume d: "bech32m_decode s = Some (hrp, payload)"
  then have "plain_text s" "str_lower s = s \<or> str_upper s = s" "hrp \<noteq> []"
    unfolding bech32m_decode_def plain_ex by (auto simp: Let_def split: if_splits option.splits)
  with bech32m_decode_dest[OF d]
  show "plain_text s \<and> (str_lower s = s \<or> str_upper s = s) \<and> hrp \<noteq> [] \<and> bech32m_encode hrp payload = Inr (str_lower s)"
    by blast
next
  assume a: "plain_text s \<and> (str_lower s = s \<or> str_upper s = s) \<and> hrp \<noteq> [] \<and> bech32m_encode hrp payload = Inr (str_lower s)"
  then obtain dat where "str_lower s = bech_text hrp dat" using bech32m_encode_text[of hrp payload] by (metis sum.inject(2))
  then have h: "set hrp \<subseteq> set (str_lower s)" by (auto simp: bech_text_def)
  have "lower_char c = c" if "c \<in> set (str_lower s)" for c
    using that lower_lower[of s] by (auto simp: str_lower_def)
  then have "hrp_ok hrp" using a h lower_plain[of s] by (auto simp: hrp_ok_def plain_text_def list_all_iff)
  from bech32m_roundtrip[OF this, of payload] a have "bech32m_decode (str_lower s) = Some (hrp, payload)" by auto
  then show "bech32m_decode s = Some (hrp, payload)" using decode_lower[of s] a by simp
qed

end
