(* ===== verification/Layout.thy ===== *)
theory Layout
  imports Address
begin

text \<open>
  Layouts of signed and fixed-width records: cutting a byte string into fields of given widths (as
  \<open>struct.unpack\<close> and the \<open>take\<close> closures of the pairing codecs do), the two-byte length framing of
  \<open>_canon.py\<close>, text as UTF-8 and ASCII, and the verification of an Ed25519 signature over canonical
  signing bytes, with the interface every signed record meets.
\<close>

section \<open>Fields of fixed widths\<close>

primrec cut :: "nat list \<Rightarrow> bytes \<Rightarrow> bytes list" where
  "cut [] bs = []"
| "cut (n # ns) bs = take n bs # cut ns (drop n bs)"

lemma length_cut [simp]: "length (cut ns bs) = length ns"
  by (induction ns arbitrary: bs) simp_all

lemma cut_concat: "map length xs = ns \<Longrightarrow> cut ns (concat xs @ t) = xs"
  by (induction xs arbitrary: ns) auto

lemma cut_concat_all: "map length xs = ns \<Longrightarrow> cut ns (concat xs) = xs"
  using cut_concat[of xs ns "[]"] by simp

lemma concat_cut: "concat (cut ns bs) = take (sum_list ns) bs"
  by (induction ns arbitrary: bs) (simp_all add: take_add)

lemma cut_lengths: "sum_list ns \<le> length bs \<Longrightarrow> map length (cut ns bs) = ns"
  by (induction ns arbitrary: bs) simp_all

text \<open>Cutting is the inverse of joining: the fields of a string of the right length.\<close>

lemma cut_iff: "length bs = sum_list ns \<Longrightarrow> cut ns bs = xs \<longleftrightarrow> map length xs = ns \<and> bs = concat xs"
  using concat_cut[of ns bs] cut_lengths[of ns bs] cut_concat_all[of xs ns] by auto

section \<open>Length-prefixed framing\<close>

definition framed :: "bytes \<Rightarrow> bytes" where
  "framed b = be_bytes 2 (int (length b)) @ b"

lemma lp_iff: "lp b = Inr x \<longleftrightarrow> length b \<le> 65535 \<and> x = framed b"
  by (auto simp: lp_def LP_MAX_LEN_def framed_def)

lemma framed_inj:
  assumes "length a \<le> 65535" "length b \<le> 65535" "framed a @ s = framed b @ t"
  shows "a = b \<and> s = t"
proof -
  have e: "be_bytes 2 (int (length a)) = be_bytes 2 (int (length b)) \<and> a @ s = b @ t"
    using assms(3) by (simp add: framed_def append_eq_append_conv)
  then have "length a = length b" using assms(1,2) be_bytes_inj[of "int (length a)" 2 "int (length b)"] by simp
  with e show ?thesis by simp
qed

lemma framed_concat_inj:
  "list_all (\<lambda>b. length b \<le> 65535) xs \<Longrightarrow> list_all (\<lambda>b. length b \<le> 65535) ys \<Longrightarrow> length xs = length ys \<Longrightarrow>
     concat (map framed xs) = concat (map framed ys) \<Longrightarrow> xs = ys"
proof (induction xs ys rule: list_induct2')
  case (4 x xs y ys)
  with framed_inj[of x y "concat (map framed xs)" "concat (map framed ys)"] show ?case by simp
qed simp_all

lemma byte_word_eq: "0 \<le> a \<Longrightarrow> a < 256 \<Longrightarrow> 0 \<le> b \<Longrightarrow> b < 256 \<Longrightarrow>
    (word_of_int a :: byte) = word_of_int b \<Longrightarrow> a = b"
  by (metis byte_fits_def uint_byte_of_int)

section \<open>Text\<close>

lemma ascii_encode_Inr: "ascii_encode s = Inr b \<longleftrightarrow> list_all (\<lambda>c. of_char c < (128 :: nat)) s \<and> b = asc s"
  by (auto simp: ascii_encode_def)

lemma utf8_char_inj: "utf8_char c @ s = utf8_char d @ t \<Longrightarrow> c = d \<and> s = t"
proof -
  assume e: "utf8_char c @ s = utf8_char d @ t"
  define m n where mn: "m = (of_char c :: int)" "n = (of_char d :: int)"
  have m: "m = int (of_char c)" "n = int (of_char d)" by (simp_all only: mn of_nat_of_char)
  have b: "0 \<le> m" "m < 256" "0 \<le> n" "n < 256"
    using nat_of_char_less_256[of c] nat_of_char_less_256[of d] m by simp_all
  have "m = n \<and> s = t"
  proof (cases "m < 128"; cases "n < 128")
    assume "m < 128" "n < 128"
    with e have "(word_of_int m :: byte) = word_of_int n" "s = t" by (simp_all add: utf8_char_def Let_def mn[symmetric])
    with byte_word_eq[of m n] b show ?thesis by simp
  next
    assume a: "m < 128" "\<not> n < 128"
    with e have "(word_of_int m :: byte) = word_of_int (192 + n div 64)"
      by (simp add: utf8_char_def Let_def mn[symmetric] del: of_int_add)
    moreover have "0 \<le> 192 + n div 64" "192 + n div 64 < 256" using b by linarith+
    ultimately show ?thesis using a b byte_word_eq[of m "192 + n div 64"] by linarith
  next
    assume a: "\<not> m < 128" "n < 128"
    with e have "(word_of_int (192 + m div 64) :: byte) = word_of_int n"
      by (simp add: utf8_char_def Let_def mn[symmetric] del: of_int_add)
    moreover have "0 \<le> 192 + m div 64" "192 + m div 64 < 256" using b by linarith+
    ultimately show ?thesis using a b byte_word_eq[of "192 + m div 64" n] by linarith
  next
    assume a: "\<not> m < 128" "\<not> n < 128"
    with e have w: "(word_of_int (192 + m div 64) :: byte) = word_of_int (192 + n div 64)"
      "(word_of_int (128 + m mod 64) :: byte) = word_of_int (128 + n mod 64)" "s = t"
      by (simp_all add: utf8_char_def Let_def mn[symmetric] del: of_int_add)
    have r: "0 \<le> 192 + m div 64" "192 + m div 64 < 256" "0 \<le> 192 + n div 64" "192 + n div 64 < 256"
      "0 \<le> 128 + m mod 64" "128 + m mod 64 < 256" "0 \<le> 128 + n mod 64" "128 + n mod 64 < 256"
      using b pos_mod_bound[of 64 m] pos_mod_bound[of 64 n] pos_mod_sign[of 64 m] pos_mod_sign[of 64 n] by linarith+
    have "m div 64 = n div 64" "m mod 64 = n mod 64"
      using byte_word_eq[OF r(1-4) w(1)] byte_word_eq[OF r(5-8) w(2)] by linarith+
    then show ?thesis using w(3) by (metis div_mult_mod_eq)
  qed
  then show ?thesis using mn by simp
qed

lemma utf8_Cons: "utf8 (c # s) = utf8_char c @ utf8 s"
  by (simp add: utf8_def)

lemma utf8_inj: "utf8 s = utf8 t \<Longrightarrow> s = t"
proof (induction s arbitrary: t)
  case Nil
  then show ?case by (cases t) (auto simp: utf8_def utf8_char_def Let_def split: if_splits)
next
  case (Cons c s)
  show ?case
  proof (cases t)
    case Nil
    with Cons.prems show ?thesis by (auto simp: utf8_def utf8_char_def Let_def split: if_splits)
  next
    case t: (Cons d t')
    with Cons.prems have "utf8_char c @ utf8 s = utf8_char d @ utf8 t'" by (simp add: utf8_Cons)
    with utf8_char_inj Cons.IH t show ?thesis by blast
  qed
qed

lemma of_char_byte_inj: "(of_char c :: byte) = of_char d \<Longrightarrow> c = d"
proof -
  have u: "(of_char x :: byte) = word_of_int (of_char x)" for x
    by (metis of_int_of_char)
  have r: "(0 :: int) \<le> of_char x" "(of_char x :: int) < 256" for x
    using nat_of_char_less_256[of x] of_nat_of_char[of x, where ?'a = int] by linarith+
  assume "(of_char c :: byte) = of_char d"
  then have "(of_char c :: int) = of_char d" using byte_word_eq[OF r r] u by metis
  then show ?thesis by simp
qed

lemma asc_inj: "asc s = asc t \<Longrightarrow> s = t"
  unfolding asc_def by (rule map_injective) (auto intro: injI of_char_byte_inj)

lemma lp_ok: "length b \<le> 65535 \<Longrightarrow> lp b = Inr (be_bytes 2 (int (length b)) @ b)"
  by (simp add: lp_def LP_MAX_LEN_def)

lemma length_utf8: "length (utf8 s) \<le> 2 * length s"
  by (induction s) (auto simp: utf8_def utf8_char_def Let_def)

lemma bindE_InrE: "bindE m f = Inr y \<Longrightarrow> (\<And>x. m = Inr x \<Longrightarrow> f x = Inr y \<Longrightarrow> P) \<Longrightarrow> P"
  by (cases m) simp_all


text \<open>\<open>bytes.decode("ascii")\<close>.\<close>

definition ascii_decode :: "bytes \<Rightarrow> string res" where
  "ascii_decode bs =
     (if list_all (\<lambda>b. unat b < 128) bs then Inr (map (\<lambda>b. char_of (unat b)) bs)
      else Inl (UnicodeError ''ordinal not in range(128)''))"

lemma unat_of_char: "unat (of_char c :: byte) = of_char c"
proof -
  have r: "(0 :: int) \<le> of_char c" "(of_char c :: int) < 256"
    using nat_of_char_less_256[of c] of_nat_of_char[of c, where ?'a = int] by linarith+
  have "(of_char c :: byte) = word_of_int (of_char c)" by (metis of_int_of_char)
  then have "uint (of_char c :: byte) = of_char c" using r by (simp add: uint_word_of_int)
  then show ?thesis by (metis nat_int of_nat_of_char unat_eq_nat_uint)
qed

lemma ascii_decode_iff: "ascii_decode bs = Inr s \<longleftrightarrow> ascii_encode s = Inr bs"
proof
  assume "ascii_decode bs = Inr s"
  then have b: "\<forall>b \<in> set bs. unat b < 128" "s = map (\<lambda>b. char_of (unat b)) bs"
    by (auto simp: ascii_decode_def list_all_iff split: if_splits)
  have "(of_char (char_of (unat b) :: char) :: byte) = b" if "unat b < 128" for b :: byte
  proof -
    have "unat (of_char (char_of (unat b) :: char) :: byte) = unat b"
      using that by (simp add: unat_of_char)
    then show ?thesis by (simp add: word_unat_eq_iff)
  qed
  with b show "ascii_encode s = Inr bs"
    by (auto simp: ascii_encode_Inr asc_def list_all_iff intro!: map_idI[symmetric])
next
  assume "ascii_encode s = Inr bs"
  then show "ascii_decode bs = Inr s"
    by (auto simp: ascii_encode_Inr ascii_decode_def asc_def list_all_iff unat_of_char intro!: map_idI)
qed

lemma utf8_eq [simp]: "utf8 s = utf8 t \<longleftrightarrow> s = t"
  using utf8_inj by blast

lemma asc_eq [simp]: "asc s = asc t \<longleftrightarrow> s = t"
  using asc_inj by blast

section \<open>Signed records\<close>

text \<open>
  \<open>Ed25519PublicKey.from_public_bytes(pub).verify(sig, signing_bytes(r))\<close> under
  \<open>except (InvalidSignature, ValueError): return False\<close>: any other exception escapes.
\<close>

definition verify_signed :: "crypto \<Rightarrow> bytes \<Rightarrow> bytes \<Rightarrow> bytes res \<Rightarrow> bool res" where
  "verify_signed c pub sig msg =
     (case bindE (ed_load_public c pub) (\<lambda>_. bindE msg (ed_verify c pub sig)) of
        Inr _ \<Rightarrow> Inr True
      | Inl e \<Rightarrow> if e = InvalidSignature \<or> is_value_error e then Inr False else Inl e)"

lemma verify_signed_iff: "verify_signed c pub sig msg = Inr True \<longleftrightarrow>
    ed_load_public c pub = Inr () \<and> (\<exists>m. msg = Inr m \<and> ed_verify c pub sig m = Inr ())"
  by (cases "ed_load_public c pub"; cases msg)
    (auto simp: verify_signed_def split: sum.splits if_splits)

text \<open>The law of Ed25519 the peers rely on: a signature verifies under the public key of its signer.\<close>

definition ed_correct :: "crypto \<Rightarrow> bool" where
  "ed_correct c \<longleftrightarrow> (\<forall>sk pk m sig. ed_public c sk = Inr pk \<and> ed_sign c sk m = Inr sig \<longrightarrow>
     ed_load_public c pk = Inr () \<and> ed_verify c pk sig m = Inr ())"

text \<open>The same clause around a whole verification.\<close>

definition except_false :: "bool res \<Rightarrow> bool res" where
  "except_false r = (case r of Inl e \<Rightarrow> if e = InvalidSignature \<or> is_value_error e then Inr False else Inl e | Inr b \<Rightarrow> Inr b)"

lemma except_false_True [simp]: "except_false r = Inr True \<longleftrightarrow> r = Inr True"
  by (auto simp: except_false_def split: sum.splits if_splits)

text \<open>
  The interface of a signed record: its signing bytes are a domain label and a body, the record is
  refused unless its fields fit, and the body determines the signed fields.
\<close>

locale signed_record =
  fixes sb :: "'a \<Rightarrow> bytes res"
    and label :: bytes
    and ok :: "'a \<Rightarrow> bool"
    and body :: "'a \<Rightarrow> bytes"
    and signed :: "'a \<Rightarrow> 'v"
  assumes sb_iff: "sb r = Inr m \<longleftrightarrow> ok r \<and> m = label @ body r"
    and body_inj: "ok r \<Longrightarrow> ok r' \<Longrightarrow> body r = body r' \<Longrightarrow> signed r = signed r'"
begin

lemma sb_determines: "sb r = Inr m \<Longrightarrow> sb r' = Inr m \<Longrightarrow> signed r = signed r'"
  by (auto simp: sb_iff intro: body_inj)

lemma sb_label: "sb r = Inr m \<Longrightarrow> take (length label) m = label"
  by (auto simp: sb_iff)

lemma verified_bytes: "verify_signed c pub sig (sb r) = Inr True \<Longrightarrow>
    ok r \<and> ed_verify c pub sig (label @ body r) = Inr ()"
  by (auto simp: verify_signed_iff sb_iff)

end

text \<open>Two labels of which neither extends the other keep all their messages apart.\<close>

definition labels_apart :: "bytes \<Rightarrow> bytes \<Rightarrow> bool" where
  "labels_apart a b \<longleftrightarrow> (let n = min (length a) (length b) in take n a \<noteq> take n b)"

lemma labels_apart_messages: "labels_apart a b \<Longrightarrow> a @ s \<noteq> b @ t"
proof
  assume "labels_apart a b" "a @ s = b @ t"
  then have "take (min (length a) (length b)) (a @ s) = take (min (length a) (length b)) (b @ t)" by simp
  then have "take (min (length a) (length b)) a = take (min (length a) (length b)) b" by simp
  with \<open>labels_apart a b\<close> show False by (simp add: labels_apart_def Let_def)
qed

end
