(* ===== verification/Records.thy ===== *)
theory Records
  imports Layout
begin

text \<open>
  The outer envelope (\<open>envelope.py\<close>) and the small signed records: device certificates
  (\<open>device_cert.py\<close>), capabilities (\<open>capabilities.py\<close>), aliases (\<open>alias.py\<close>), acknowledgements
  (\<open>ack.py\<close>) and prekey bundles (\<open>prekey.py\<close>), with the routing and mailbox tags
  (\<open>routing_tag.py\<close>, \<open>store_tags.py\<close>). Every signed record meets the interface \<open>signed_record\<close>.
\<close>

section \<open>Tags\<close>

definition ROUTE_LABEL :: bytes where "ROUTE_LABEL = asc ''rvn1/route''"
definition MAILBOX_LABEL :: bytes where "MAILBOX_LABEL = asc ''rvn1/mailbox''"
definition STORE_DOMAIN :: bytes where "STORE_DOMAIN = asc ''raven/relay-tag/v1''"

definition route_tag_derive :: "bytes \<Rightarrow> int \<Rightarrow> int \<Rightarrow> bytes res" where
  "route_tag_derive k_route epoch counter =
     bindE (joinE [Inr ROUTE_LABEL, to_bytes epoch 8, to_bytes counter 8]) (\<lambda>msg.
     Inr (take 16 (hmac_sha256 k_route msg)))"

definition store_mailbox_tag :: "bytes \<Rightarrow> int \<Rightarrow> int \<Rightarrow> bytes res" where
  "store_mailbox_tag k_route epoch slot =
     (if k_route = [] then Inl (ValueError ''routing key must not be empty'')
      else if \<not> (0 \<le> epoch \<and> epoch \<le> 0xFFFFFFFFFFFFFFFF) then Inl (ValueError ''epoch exceeds u64'')
      else if \<not> (0 \<le> slot \<and> slot \<le> 0xFFFFFFFFFFFFFFFF) then Inl (ValueError ''slot exceeds u64'')
      else bindE (joinE [Inr MAILBOX_LABEL, to_bytes epoch 8, to_bytes slot 8]) (\<lambda>message.
           Inr (take 16 (hmac_sha256 k_route message))))"

definition mailbox_store_tag :: "bytes \<Rightarrow> bytes res" where
  "mailbox_store_tag mailbox =
     (if length mailbox \<noteq> 16 then Inl (ValueError ''mailbox tag must be 16 bytes'')
      else Inr (take 16 (sha256 (STORE_DOMAIN @ mailbox))))"

section \<open>Small signed records\<close>

record device_cert =
  dc_device_ed_pub :: bytes
  dc_device_x_pub :: bytes
  dc_device_id :: string
  dc_not_before :: int
  dc_not_after :: int
  dc_capabilities :: int
  dc_signature :: bytes

definition cert_signing_bytes :: "device_cert \<Rightarrow> bytes res" where
  "cert_signing_bytes r =
     joinE [Inr (asc ''rvn1/devcert''), lp (dc_device_ed_pub r), lp (dc_device_x_pub r),
            lp (utf8 (dc_device_id r)), canon_u64 (dc_not_before r), canon_u64 (dc_not_after r),
            canon_u64 (dc_capabilities r)]"

definition cert_verify :: "crypto \<Rightarrow> device_cert \<Rightarrow> bytes \<Rightarrow> bool res" where
  "cert_verify c r user_identity_ed_pub =
     verify_signed c user_identity_ed_pub (dc_signature r) (cert_signing_bytes r)"

record alias_record =
  al_alias :: string
  al_identity_address :: string
  al_sequence :: int
  al_expires_at :: int
  al_signature :: bytes

definition alias_signing_bytes :: "alias_record \<Rightarrow> bytes res" where
  "alias_signing_bytes r =
     joinE [Inr (asc ''rvn1/alias''), lp (utf8 (al_alias r)), lp (utf8 (al_identity_address r)),
            canon_u64 (al_sequence r), canon_u64 (al_expires_at r)]"

definition alias_verify :: "crypto \<Rightarrow> alias_record \<Rightarrow> bytes \<Rightarrow> bool res" where
  "alias_verify c r identity_ed_pub = verify_signed c identity_ed_pub (al_signature r) (alias_signing_bytes r)"

record capabilities =
  ca_identity_address :: string
  ca_capability_bits :: int
  ca_expires_at :: int
  ca_signature :: bytes

definition caps_signing_bytes :: "capabilities \<Rightarrow> bytes res" where
  "caps_signing_bytes r =
     joinE [Inr (asc ''rvn1/caps''), lp (utf8 (ca_identity_address r)), canon_u64 (ca_capability_bits r),
            canon_u64 (ca_expires_at r)]"

definition caps_verify :: "crypto \<Rightarrow> capabilities \<Rightarrow> bytes \<Rightarrow> bool res" where
  "caps_verify c r identity_ed_pub = verify_signed c identity_ed_pub (ca_signature r) (caps_signing_bytes r)"

record ack =
  aq_message_id :: bytes
  aq_status :: int
  aq_nonce :: bytes
  aq_created_at :: int

definition ack1_signing_bytes :: "ack \<Rightarrow> bytes res" where
  "ack1_signing_bytes a =
     (if length (aq_message_id a) \<noteq> 16 then Inl (ValueError ''acked_message_id must be exactly 16 bytes'')
      else if length (aq_nonce a) \<noteq> 12 then Inl (ValueError ''ack_nonce must be exactly 12 bytes'')
      else if \<not> (0 \<le> aq_status a \<and> aq_status a \<le> 255) then Inl (ValueError ''status must fit in one byte'')
      else joinE [Inr (asc ''rvn1/ack''), Inr (aq_message_id a), Inr [word_of_int (aq_status a)],
                  Inr (aq_nonce a), canon_u64 (aq_created_at a)])"

definition ack1_verify :: "crypto \<Rightarrow> ack \<Rightarrow> bytes \<Rightarrow> bytes \<Rightarrow> bool res" where
  "ack1_verify c a sig signer_ed_pub = verify_signed c signer_ed_pub sig (ack1_signing_bytes a)"

definition PREKEY_DOMAIN :: bytes where "PREKEY_DOMAIN = asc ''rvn1/prekey''"
definition PREKEY_VERSION :: int where "PREKEY_VERSION = 1"
definition PREKEY_MLKEM768_EK_LEN :: nat where "PREKEY_MLKEM768_EK_LEN = 1184"

record prekey_bundle =
  pk_identity_ed25519_pub :: bytes
  pk_device_id :: string
  pk_x25519_pub :: bytes
  pk_mlkem768_ek :: bytes
  pk_signed_prekey_id :: int
  pk_one_time_prekey_id :: int
  pk_one_time_x25519_pub :: "bytes option"
  pk_created_at_ms :: int
  pk_expires_at_ms :: int
  pk_signature :: bytes

definition prekey_signing_bytes :: "prekey_bundle \<Rightarrow> bytes res" where
  "prekey_signing_bytes b =
     (if length (pk_identity_ed25519_pub b) \<noteq> 32 then Inl (ValueError ''identity Ed25519 public key must be 32 bytes'')
      else if length (pk_x25519_pub b) \<noteq> 32 then Inl (ValueError ''X25519 public key must be 32 bytes'')
      else if length (pk_mlkem768_ek b) \<noteq> PREKEY_MLKEM768_EK_LEN
      then Inl (ValueError ''ML-KEM-768 encapsulation key must be 1184 bytes'')
      else if \<not> (0 \<le> pk_signed_prekey_id b \<and> pk_signed_prekey_id b \<le> 0xFFFFFFFF)
      then Inl (ValueError ''signed prekey id exceeds u32'')
      else if \<not> (0 \<le> pk_one_time_prekey_id b \<and> pk_one_time_prekey_id b \<le> 0xFFFFFFFF)
      then Inl (ValueError ''one-time prekey id exceeds u32'')
      else if pk_one_time_prekey_id b = 0 \<and> pk_one_time_x25519_pub b \<noteq> None
      then Inl (ValueError ''one-time public key present with zero id'')
      else if pk_one_time_prekey_id b \<noteq> 0 \<and>
        (case pk_one_time_x25519_pub b of None \<Rightarrow> True | Some k \<Rightarrow> length k \<noteq> 32)
      then Inl (ValueError ''non-zero one-time prekey id requires a 32-byte public key'')
      else joinE [Inr PREKEY_DOMAIN, Inr [word_of_int PREKEY_VERSION], Inr (pk_identity_ed25519_pub b),
                  lp (utf8 (pk_device_id b)), Inr (pk_x25519_pub b), Inr (pk_mlkem768_ek b),
                  to_bytes (pk_signed_prekey_id b) 4, to_bytes (pk_one_time_prekey_id b) 4,
                  Inr (case pk_one_time_x25519_pub b of None \<Rightarrow> [] | Some k \<Rightarrow> k),
                  canon_u64 (pk_created_at_ms b), canon_u64 (pk_expires_at_ms b)])"

definition prekey_verify :: "crypto \<Rightarrow> prekey_bundle \<Rightarrow> bool res" where
  "prekey_verify c b =
     (if length (pk_signature b) \<noteq> 64 then Inr False
      else verify_signed c (pk_identity_ed25519_pub b) (pk_signature b) (prekey_signing_bytes b))"

section \<open>The envelope\<close>

definition ENV_MAGIC :: bytes where "ENV_MAGIC = asc ''RVN1''"
definition ENV_VERSION :: int where "ENV_VERSION = 1"
definition PREFIX_FMT :: "nat list" where
  \<comment> \<open>\<open>">4sBBH16s16sQQQBB12sHIH"\<close>\<close>
  "PREFIX_FMT = [4, 1, 1, 2, 16, 16, 8, 8, 8, 1, 1, 12, 2, 4, 2]"
definition PREFIX_LEN :: nat where "PREFIX_LEN = sum_list PREFIX_FMT"
definition MAX_WIRE_ENVELOPE_BYTES :: nat where "MAX_WIRE_ENVELOPE_BYTES = 1048576"
definition REGISTERED_ENV_TYPES :: "int list" where "REGISTERED_ENV_TYPES = [1, 2, 3, 4]"
definition ALLOWED_FLAGS :: int where "ALLOWED_FLAGS = 3"
definition AUTHENTICATION_LEN :: nat where "AUTHENTICATION_LEN = 64"

record envelope =
  ev_env_type :: int
  ev_flags :: int
  ev_message_id :: bytes
  ev_routing_tag :: bytes
  ev_dest_device_hint :: int
  ev_created_at :: int
  ev_expires_at :: int
  ev_hop_limit :: int
  ev_replication_budget :: int
  ev_anti_replay_nonce :: bytes
  ev_ratchet_header_ciphertext :: bytes
  ev_message_ciphertext :: bytes
  ev_sender_authentication :: bytes

text \<open>
  \<open>struct.pack\<close>: an integer that does not fit raises \<open>struct.error\<close>; a byte string is cut or
  padded with zeros to its width.
\<close>

definition pack_uint :: "nat \<Rightarrow> int \<Rightarrow> bytes res" where
  "pack_uint k n = (if uint_fits k n then Inr (be_bytes k n) else Inl (StructError ''argument out of range''))"

definition pack_str :: "nat \<Rightarrow> bytes \<Rightarrow> bytes" where
  "pack_str k b = take k b @ zeros (k - length b)"

definition pack_prefix :: "envelope \<Rightarrow> int \<Rightarrow> int \<Rightarrow> int \<Rightarrow> int \<Rightarrow> bytes res" where
  "pack_prefix e hint hop budget auth_len =
     joinE [Inr (pack_str 4 ENV_MAGIC), pack_uint 1 ENV_VERSION, pack_uint 1 (ev_env_type e), pack_uint 2 (ev_flags e),
            Inr (pack_str 16 (ev_message_id e)), Inr (pack_str 16 (ev_routing_tag e)), pack_uint 8 hint,
            pack_uint 8 (ev_created_at e), pack_uint 8 (ev_expires_at e), pack_uint 1 hop, pack_uint 1 budget,
            Inr (pack_str 12 (ev_anti_replay_nonce e)), pack_uint 2 (int (length (ev_ratchet_header_ciphertext e))),
            pack_uint 4 (int (length (ev_message_ciphertext e))), pack_uint 2 auth_len]"

definition envelope_pack :: "envelope \<Rightarrow> bytes res" where
  "envelope_pack e =
     bindE (pack_prefix e (ev_dest_device_hint e) (ev_hop_limit e) (ev_replication_budget e)
              (int (length (ev_sender_authentication e)))) (\<lambda>prefix.
     Inr (prefix @ ev_ratchet_header_ciphertext e @ ev_message_ciphertext e @ ev_sender_authentication e))"

definition envelope_unpack :: "bytes \<Rightarrow> envelope option" where
  "envelope_unpack raw =
     (if length raw < PREFIX_LEN \<or> length raw > MAX_WIRE_ENVELOPE_BYTES \<or> take 4 raw \<noteq> ENV_MAGIC \<or>
         uint (raw ! 4) \<noteq> ENV_VERSION
      then None
      else let f = cut PREFIX_FMT (take PREFIX_LEN raw);
               env_type = from_bytes (f ! 2); flags = from_bytes (f ! 3); message_id = f ! 4; routing_tag = f ! 5;
               dest_hint = from_bytes (f ! 6); created_at = from_bytes (f ! 7); expires_at = from_bytes (f ! 8);
               hop_limit = from_bytes (f ! 9); repl = from_bytes (f ! 10); nonce = f ! 11;
               hdr_len = nat (from_bytes (f ! 12)); body_len = nat (from_bytes (f ! 13)); auth_len = nat (from_bytes (f ! 14))
      in if env_type \<notin> set REGISTERED_ENV_TYPES \<or> flags AND NOT ALLOWED_FLAGS \<noteq> 0 \<or> expires_at \<le> created_at \<or>
            auth_len \<noteq> AUTHENTICATION_LEN
      then None
      else let header_end = PREFIX_LEN + hdr_len; body_end = header_end + body_len; authentication_end = body_end + auth_len
      in if authentication_end > MAX_WIRE_ENVELOPE_BYTES \<or> length raw \<noteq> authentication_end then None
      else Some \<lparr>ev_env_type = env_type, ev_flags = flags, ev_message_id = message_id, ev_routing_tag = routing_tag,
                 ev_dest_device_hint = dest_hint, ev_created_at = created_at, ev_expires_at = expires_at,
                 ev_hop_limit = hop_limit, ev_replication_budget = repl, ev_anti_replay_nonce = nonce,
                 ev_ratchet_header_ciphertext = slice raw PREFIX_LEN header_end,
                 ev_message_ciphertext = slice raw header_end body_end,
                 ev_sender_authentication = slice raw body_end authentication_end\<rparr>)"

definition envelope_signing_bytes :: "envelope \<Rightarrow> bytes res" where
  "envelope_signing_bytes e =
     bindE (pack_prefix e 0 0 0 64) (\<lambda>prefix.
     Inr (prefix @ sha256 (ev_ratchet_header_ciphertext e) @ sha256 (ev_message_ciphertext e)))"

definition envelope_verify :: "crypto \<Rightarrow> envelope \<Rightarrow> bytes \<Rightarrow> bool res" where
  "envelope_verify c e signer_ed_pub =
     verify_signed c signer_ed_pub (ev_sender_authentication e) (envelope_signing_bytes e)"

section \<open>The small records are signed records\<close>

lemma framed_append_eq: "length a \<le> 65535 \<Longrightarrow> length b \<le> 65535 \<Longrightarrow> framed a @ s = framed b @ t \<longleftrightarrow> a = b \<and> s = t"
  using framed_inj by blast

lemma framed_eq: "length a \<le> 65535 \<Longrightarrow> length b \<le> 65535 \<Longrightarrow> framed a = framed b \<longleftrightarrow> a = b"
  using framed_append_eq[of a b "[]" "[]"] by simp

lemma be_append_eq: "uint_fits k m \<Longrightarrow> uint_fits k n \<Longrightarrow> be_bytes k m @ s = be_bytes k n @ t \<longleftrightarrow> m = n \<and> s = t"
  by (auto simp: uint_fits_def be_bytes_inj)

lemma be_bytes_eq: "uint_fits k m \<Longrightarrow> uint_fits k n \<Longrightarrow> be_bytes k m = be_bytes k n \<longleftrightarrow> m = n"
  by (auto simp: uint_fits_def be_bytes_inj)

lemma canon_u64_iff: "canon_u64 n = Inr b \<longleftrightarrow> uint_fits 8 n \<and> b = be_bytes 8 n"
  by (simp add: canon_u64_def to_bytes_fits)

lemmas body_simps = framed_append_eq framed_eq be_append_eq be_bytes_eq

lemmas signing_simps = bindE_eq_Inr if_Inl_eq_Inr lp_iff canon_u64_iff to_bytes_fits

definition cert_ok :: "device_cert \<Rightarrow> bool" where
  "cert_ok r \<longleftrightarrow> length (dc_device_ed_pub r) \<le> 65535 \<and> length (dc_device_x_pub r) \<le> 65535 \<and>
     length (utf8 (dc_device_id r)) \<le> 65535 \<and> uint_fits 8 (dc_not_before r) \<and> uint_fits 8 (dc_not_after r) \<and>
     uint_fits 8 (dc_capabilities r)"

definition cert_body :: "device_cert \<Rightarrow> bytes" where
  "cert_body r = framed (dc_device_ed_pub r) @ framed (dc_device_x_pub r) @ framed (utf8 (dc_device_id r)) @
     be_bytes 8 (dc_not_before r) @ be_bytes 8 (dc_not_after r) @ be_bytes 8 (dc_capabilities r)"

interpretation cert: signed_record cert_signing_bytes "asc ''rvn1/devcert''" cert_ok cert_body
  "\<lambda>r. r\<lparr>dc_signature := []\<rparr>"
proof unfold_locales
  show "cert_signing_bytes r = Inr m \<longleftrightarrow> cert_ok r \<and> m = asc ''rvn1/devcert'' @ cert_body r" for r m
    by (auto simp: cert_signing_bytes_def cert_ok_def cert_body_def signing_simps)
  show "cert_ok r \<Longrightarrow> cert_ok r' \<Longrightarrow> cert_body r = cert_body r' \<Longrightarrow> r\<lparr>dc_signature := []\<rparr> = r'\<lparr>dc_signature := []\<rparr>" for r r'
    by (auto simp: cert_ok_def cert_body_def body_simps intro!: device_cert.equality)
qed

definition alias_ok :: "alias_record \<Rightarrow> bool" where
  "alias_ok r \<longleftrightarrow> length (utf8 (al_alias r)) \<le> 65535 \<and> length (utf8 (al_identity_address r)) \<le> 65535 \<and>
     uint_fits 8 (al_sequence r) \<and> uint_fits 8 (al_expires_at r)"

definition alias_body :: "alias_record \<Rightarrow> bytes" where
  "alias_body r = framed (utf8 (al_alias r)) @ framed (utf8 (al_identity_address r)) @
     be_bytes 8 (al_sequence r) @ be_bytes 8 (al_expires_at r)"

interpretation alias_rec: signed_record alias_signing_bytes "asc ''rvn1/alias''" alias_ok alias_body
  "\<lambda>r. r\<lparr>al_signature := []\<rparr>"
proof unfold_locales
  show "alias_signing_bytes r = Inr m \<longleftrightarrow> alias_ok r \<and> m = asc ''rvn1/alias'' @ alias_body r" for r m
    by (auto simp: alias_signing_bytes_def alias_ok_def alias_body_def signing_simps)
  show "alias_ok r \<Longrightarrow> alias_ok r' \<Longrightarrow> alias_body r = alias_body r' \<Longrightarrow> r\<lparr>al_signature := []\<rparr> = r'\<lparr>al_signature := []\<rparr>" for r r'
    by (auto simp: alias_ok_def alias_body_def body_simps intro!: alias_record.equality)
qed

definition caps_ok :: "capabilities \<Rightarrow> bool" where
  "caps_ok r \<longleftrightarrow> length (utf8 (ca_identity_address r)) \<le> 65535 \<and> uint_fits 8 (ca_capability_bits r) \<and>
     uint_fits 8 (ca_expires_at r)"

definition caps_body :: "capabilities \<Rightarrow> bytes" where
  "caps_body r = framed (utf8 (ca_identity_address r)) @ be_bytes 8 (ca_capability_bits r) @ be_bytes 8 (ca_expires_at r)"

interpretation caps: signed_record caps_signing_bytes "asc ''rvn1/caps''" caps_ok caps_body
  "\<lambda>r. r\<lparr>ca_signature := []\<rparr>"
proof unfold_locales
  show "caps_signing_bytes r = Inr m \<longleftrightarrow> caps_ok r \<and> m = asc ''rvn1/caps'' @ caps_body r" for r m
    by (auto simp: caps_signing_bytes_def caps_ok_def caps_body_def signing_simps)
  show "caps_ok r \<Longrightarrow> caps_ok r' \<Longrightarrow> caps_body r = caps_body r' \<Longrightarrow> r\<lparr>ca_signature := []\<rparr> = r'\<lparr>ca_signature := []\<rparr>" for r r'
    by (auto simp: caps_ok_def caps_body_def body_simps intro!: capabilities.equality)
qed

definition ack_ok :: "ack \<Rightarrow> bool" where
  "ack_ok a \<longleftrightarrow> length (aq_message_id a) = 16 \<and> length (aq_nonce a) = 12 \<and> byte_fits (aq_status a) \<and>
     uint_fits 8 (aq_created_at a)"

definition ack_fields :: "ack \<Rightarrow> bytes" where
  "ack_fields a = aq_message_id a @ [word_of_int (aq_status a)] @ aq_nonce a @ be_bytes 8 (aq_created_at a)"

lemma byte_word_fits: "byte_fits a \<Longrightarrow> byte_fits b \<Longrightarrow> (word_of_int a :: byte) = word_of_int b \<longleftrightarrow> a = b"
  by (auto simp: byte_fits_def dest: byte_word_eq)

interpretation ack: signed_record ack1_signing_bytes "asc ''rvn1/ack''" ack_ok ack_fields "\<lambda>a. a"
proof unfold_locales
  show "ack1_signing_bytes a = Inr m \<longleftrightarrow> ack_ok a \<and> m = asc ''rvn1/ack'' @ ack_fields a" for a m
    by (auto simp: ack1_signing_bytes_def ack_ok_def ack_fields_def signing_simps byte_fits_def)
  show "ack_ok a \<Longrightarrow> ack_ok b \<Longrightarrow> ack_fields a = ack_fields b \<Longrightarrow> a = b" for a b
    by (auto simp: ack_ok_def ack_fields_def body_simps byte_word_fits append_eq_append_conv intro!: ack.equality)
qed

definition prekey_ok :: "prekey_bundle \<Rightarrow> bool" where
  "prekey_ok b \<longleftrightarrow> length (pk_identity_ed25519_pub b) = 32 \<and> length (pk_x25519_pub b) = 32 \<and>
     length (pk_mlkem768_ek b) = 1184 \<and> uint_fits 4 (pk_signed_prekey_id b) \<and> uint_fits 4 (pk_one_time_prekey_id b) \<and>
     length (utf8 (pk_device_id b)) \<le> 65535 \<and>
     (case pk_one_time_x25519_pub b of None \<Rightarrow> pk_one_time_prekey_id b = 0
      | Some k \<Rightarrow> pk_one_time_prekey_id b \<noteq> 0 \<and> length k = 32) \<and>
     uint_fits 8 (pk_created_at_ms b) \<and> uint_fits 8 (pk_expires_at_ms b)"

definition prekey_body :: "prekey_bundle \<Rightarrow> bytes" where
  "prekey_body b = [1] @ pk_identity_ed25519_pub b @ framed (utf8 (pk_device_id b)) @ pk_x25519_pub b @ pk_mlkem768_ek b @
     be_bytes 4 (pk_signed_prekey_id b) @ be_bytes 4 (pk_one_time_prekey_id b) @
     (case pk_one_time_x25519_pub b of None \<Rightarrow> [] | Some k \<Rightarrow> k) @ be_bytes 8 (pk_created_at_ms b) @ be_bytes 8 (pk_expires_at_ms b)"

interpretation prekey: signed_record prekey_signing_bytes PREKEY_DOMAIN prekey_ok prekey_body
  "\<lambda>r. r\<lparr>pk_signature := []\<rparr>"
proof unfold_locales
  show "prekey_signing_bytes r = Inr m \<longleftrightarrow> prekey_ok r \<and> m = PREKEY_DOMAIN @ prekey_body r" for r m
    by (cases "pk_one_time_x25519_pub r")
      (auto simp: prekey_signing_bytes_def prekey_ok_def prekey_body_def signing_simps uint_fits_def
        PREKEY_MLKEM768_EK_LEN_def PREKEY_VERSION_def)
  show "prekey_ok r \<Longrightarrow> prekey_ok r' \<Longrightarrow> prekey_body r = prekey_body r' \<Longrightarrow> r\<lparr>pk_signature := []\<rparr> = r'\<lparr>pk_signature := []\<rparr>" for r r'
    by (cases "pk_one_time_x25519_pub r"; cases "pk_one_time_x25519_pub r'"; cases r; cases r')
      (simp_all add: prekey_ok_def prekey_body_def body_simps)
qed

section \<open>The envelope codec\<close>

definition wf_envelope :: "envelope \<Rightarrow> bool" where
  "wf_envelope e \<longleftrightarrow> ev_env_type e \<in> set REGISTERED_ENV_TYPES \<and> uint_fits 2 (ev_flags e) \<and> ev_flags e AND NOT 3 = 0 \<and>
     length (ev_message_id e) = 16 \<and> length (ev_routing_tag e) = 16 \<and> uint_fits 8 (ev_dest_device_hint e) \<and>
     uint_fits 8 (ev_created_at e) \<and> uint_fits 8 (ev_expires_at e) \<and> ev_created_at e < ev_expires_at e \<and>
     uint_fits 1 (ev_hop_limit e) \<and> uint_fits 1 (ev_replication_budget e) \<and> length (ev_anti_replay_nonce e) = 12 \<and>
     length (ev_ratchet_header_ciphertext e) < 65536 \<and> length (ev_sender_authentication e) = 64 \<and>
     86 + length (ev_ratchet_header_ciphertext e) + length (ev_message_ciphertext e) + 64 \<le> 1048576"

definition prefix_fields :: "envelope \<Rightarrow> int \<Rightarrow> int \<Rightarrow> int \<Rightarrow> bytes list" where
  "prefix_fields e hint hop budget =
     [ENV_MAGIC, [1], be_bytes 1 (ev_env_type e), be_bytes 2 (ev_flags e), ev_message_id e, ev_routing_tag e,
      be_bytes 8 hint, be_bytes 8 (ev_created_at e), be_bytes 8 (ev_expires_at e), be_bytes 1 hop, be_bytes 1 budget,
      ev_anti_replay_nonce e, be_bytes 2 (int (length (ev_ratchet_header_ciphertext e))),
      be_bytes 4 (int (length (ev_message_ciphertext e))), be_bytes 2 64]"

lemma pack_uint_iff: "pack_uint k n = Inr b \<longleftrightarrow> uint_fits k n \<and> b = be_bytes k n"
  by (auto simp: pack_uint_def)

lemma pack_str_exact [simp]: "length b = k \<Longrightarrow> pack_str k b = b"
  by (simp add: pack_str_def zeros_def)

lemma env_consts: "PREFIX_LEN = 86" "length ENV_MAGIC = 4"
  by (simp_all add: PREFIX_LEN_def PREFIX_FMT_def ENV_MAGIC_def)

lemma env_type_fits: "t \<in> set REGISTERED_ENV_TYPES \<Longrightarrow> uint_fits 1 t"
  by (auto simp: REGISTERED_ENV_TYPES_def uint_fits_def)

lemma pack_prefix_wf:
  assumes "wf_envelope e" "uint_fits 8 hint" "uint_fits 1 hop" "uint_fits 1 budget"
  shows "pack_prefix e hint hop budget 64 = Inr (concat (prefix_fields e hint hop budget))"
proof -
  have "uint_fits 1 (ev_env_type e)" using assms(1) env_type_fits by (simp add: wf_envelope_def)
  moreover have "uint_fits 2 (int (length (ev_ratchet_header_ciphertext e)))"
    "uint_fits 4 (int (length (ev_message_ciphertext e)))" "uint_fits 2 64" "uint_fits 1 1"
    using assms(1) by (simp_all add: wf_envelope_def uint_fits_def)
  ultimately show ?thesis
    using assms by (simp add: pack_prefix_def pack_uint_def prefix_fields_def wf_envelope_def env_consts ENV_VERSION_def)
qed

lemma prefix_fields_lengths: "wf_envelope e \<Longrightarrow> map length (prefix_fields e h p b) = PREFIX_FMT"
  by (simp add: prefix_fields_def PREFIX_FMT_def wf_envelope_def env_consts)

lemma pack_wf: "wf_envelope e \<Longrightarrow> envelope_pack e =
    Inr (concat (prefix_fields e (ev_dest_device_hint e) (ev_hop_limit e) (ev_replication_budget e)) @
      ev_ratchet_header_ciphertext e @ ev_message_ciphertext e @ ev_sender_authentication e)"
  using pack_prefix_wf[of e "ev_dest_device_hint e" "ev_hop_limit e" "ev_replication_budget e"]
  by (simp add: envelope_pack_def wf_envelope_def)

lemma length_concat_fields: "map length xs = ns \<Longrightarrow> length (concat xs) = sum_list ns"
  by (auto simp: length_concat)

definition env_fields :: "bytes list \<Rightarrow> envelope \<Rightarrow> bool" where
  "env_fields f e \<longleftrightarrow> ev_env_type e = from_bytes (f ! 2) \<and> ev_flags e = from_bytes (f ! 3) \<and> ev_message_id e = f ! 4 \<and>
     ev_routing_tag e = f ! 5 \<and> ev_dest_device_hint e = from_bytes (f ! 6) \<and> ev_created_at e = from_bytes (f ! 7) \<and>
     ev_expires_at e = from_bytes (f ! 8) \<and> ev_hop_limit e = from_bytes (f ! 9) \<and>
     ev_replication_budget e = from_bytes (f ! 10) \<and> ev_anti_replay_nonce e = f ! 11"

lemma unpack_iff:
  "envelope_unpack raw = Some e \<longleftrightarrow>
     (let f = cut PREFIX_FMT (take 86 raw); h = nat (from_bytes (f ! 12)); b = nat (from_bytes (f ! 13)) in
      86 \<le> length raw \<and> length raw \<le> 1048576 \<and> take 4 raw = ENV_MAGIC \<and> raw ! 4 = 1 \<and> env_fields f e \<and>
      ev_env_type e \<in> set REGISTERED_ENV_TYPES \<and> ev_flags e AND NOT 3 = 0 \<and> ev_created_at e < ev_expires_at e \<and>
      nat (from_bytes (f ! 14)) = 64 \<and> length raw = 86 + h + b + 64 \<and>
      ev_ratchet_header_ciphertext e = slice raw 86 (86 + h) \<and> ev_message_ciphertext e = slice raw (86 + h) (86 + h + b) \<and>
      ev_sender_authentication e = slice raw (86 + h + b) (86 + h + b + 64))"
proof -
  define f where "f = cut PREFIX_FMT (take 86 raw)"
  have r: "Some e' = Some e \<longleftrightarrow> ev_env_type e = ev_env_type e' \<and> ev_flags e = ev_flags e' \<and>
      ev_message_id e = ev_message_id e' \<and> ev_routing_tag e = ev_routing_tag e' \<and>
      ev_dest_device_hint e = ev_dest_device_hint e' \<and> ev_created_at e = ev_created_at e' \<and>
      ev_expires_at e = ev_expires_at e' \<and> ev_hop_limit e = ev_hop_limit e' \<and>
      ev_replication_budget e = ev_replication_budget e' \<and> ev_anti_replay_nonce e = ev_anti_replay_nonce e' \<and>
      ev_ratchet_header_ciphertext e = ev_ratchet_header_ciphertext e' \<and>
      ev_message_ciphertext e = ev_message_ciphertext e' \<and> ev_sender_authentication e = ev_sender_authentication e'" for e'
    by (cases e; cases e') auto
  show ?thesis
    unfolding envelope_unpack_def env_consts Let_def f_def[symmetric] env_fields_def
    by (auto simp: r MAX_WIRE_ENVELOPE_BYTES_def ENV_VERSION_def ALLOWED_FLAGS_def AUTHENTICATION_LEN_def)
qed

lemma from_be_fits: "uint_fits k n \<Longrightarrow> from_bytes (be_bytes k n) = n"
  by (simp add: uint_fits_def)

lemma unpack_pack:
  assumes wf: "wf_envelope e" and raw: "envelope_pack e = Inr raw"
  shows "envelope_unpack raw = Some e"
proof -
  let ?fs = "prefix_fields e (ev_dest_device_hint e) (ev_hop_limit e) (ev_replication_budget e)"
  let ?h = "ev_ratchet_header_ciphertext e" and ?b = "ev_message_ciphertext e" and ?a = "ev_sender_authentication e"
  have r: "raw = concat ?fs @ ?h @ ?b @ ?a" using raw pack_wf[OF wf] by simp
  have l: "length (concat ?fs) = 86"
    using length_concat_fields[OF prefix_fields_lengths[OF wf]] by (simp add: PREFIX_FMT_def)
  have c: "cut PREFIX_FMT (take 86 raw) = ?fs"
    using cut_concat_all[OF prefix_fields_lengths[OF wf]] r l by simp
  have w: "uint_fits 1 (ev_env_type e)" "uint_fits 2 (int (length ?h))" "uint_fits 4 (int (length ?b))" "uint_fits 2 64"
    using wf env_type_fits by (simp_all add: wf_envelope_def uint_fits_def)
  have "env_fields ?fs e"
    using wf w(1) unfolding env_fields_def wf_envelope_def
    by (simp add: prefix_fields_def from_be_fits del: be_bytes.simps One_nat_def)
  moreover have "nat (from_bytes (?fs ! 12)) = length ?h" "nat (from_bytes (?fs ! 13)) = length ?b"
    "nat (from_bytes (?fs ! 14)) = 64"
    using w(2-4) by (simp_all add: prefix_fields_def from_be_fits del: be_bytes.simps)
  moreover have "take 4 raw = ENV_MAGIC" "raw ! 4 = 1"
    using r by (simp_all add: prefix_fields_def env_consts nth_append)
  moreover have "slice raw 86 (86 + length ?h) = ?h" "slice raw (86 + length ?h) (86 + length ?h + length ?b) = ?b"
    "slice raw (86 + length ?h + length ?b) (86 + length ?h + length ?b + 64) = ?a"
    "length raw = 86 + length ?h + length ?b + 64"
    using l wf unfolding r by (simp_all add: slice_def wf_envelope_def)
  ultimately show ?thesis
    using wf unfolding unpack_iff c Let_def by (simp add: wf_envelope_def)
qed

lemma list15: "length f = 15 \<Longrightarrow> f = [f ! 0, f ! 1, f ! 2, f ! 3, f ! 4, f ! 5, f ! 6, f ! 7, f ! 8, f ! 9, f ! 10, f ! 11, f ! 12, f ! 13, f ! 14]"
  by (rule nth_equalityI) (auto simp: less_Suc_eq numeral_eq_Suc)

lemma be_from_len: "length b = k \<Longrightarrow> be_bytes k (from_bytes b) = b"
  by auto

lemma fits_from_len: "length b = k \<Longrightarrow> uint_fits k (from_bytes b)"
  using from_bytes_bounds[of b] by (auto simp: uint_fits_def)

lemma nth_cut: "i < length ns \<Longrightarrow> sum_list ns \<le> length bs \<Longrightarrow> length (cut ns bs ! i) = ns ! i"
  using cut_lengths[of ns bs] by (metis length_cut nth_map)

lemma pack_unpack:
  assumes u: "envelope_unpack raw = Some e"
  shows "wf_envelope e \<and> envelope_pack e = Inr raw"
proof -
  define f where "f = cut PREFIX_FMT (take 86 raw)"
  define h b where "h = nat (from_bytes (f ! 12))" and "b = nat (from_bytes (f ! 13))"
  from u[unfolded unpack_iff] have
    d: "86 \<le> length raw" "length raw \<le> 1048576" "take 4 raw = ENV_MAGIC" "raw ! 4 = 1" "env_fields f e"
      "ev_env_type e \<in> set REGISTERED_ENV_TYPES" "ev_flags e AND NOT 3 = 0" "ev_created_at e < ev_expires_at e"
      "nat (from_bytes (f ! 14)) = 64" "length raw = 86 + h + b + 64"
      "ev_ratchet_header_ciphertext e = slice raw 86 (86 + h)" "ev_message_ciphertext e = slice raw (86 + h) (86 + h + b)"
      "ev_sender_authentication e = slice raw (86 + h + b) (86 + h + b + 64)"
    unfolding Let_def f_def[symmetric] h_def[symmetric] b_def[symmetric] by blast+
  have fl: "length f = 15" "length (f ! 2) = 1" "length (f ! 3) = 2" "length (f ! 4) = 16" "length (f ! 5) = 16"
    "length (f ! 6) = 8" "length (f ! 7) = 8" "length (f ! 8) = 8" "length (f ! 9) = 1" "length (f ! 10) = 1"
    "length (f ! 11) = 12" "length (f ! 12) = 2" "length (f ! 13) = 4" "length (f ! 14) = 2"
    using d(1) nth_cut[of _ PREFIX_FMT "take 86 raw"] by (simp_all add: f_def PREFIX_FMT_def min_def)
  have len: "length (ev_ratchet_header_ciphertext e) = h" "length (ev_message_ciphertext e) = b"
    "length (ev_sender_authentication e) = 64"
    using d(10-13) by (simp_all add: slice_def)
  have "int h = from_bytes (f ! 12)" "int b = from_bytes (f ! 13)" "from_bytes (f ! 14) = 64"
    using from_bytes_bounds[of "f ! 12"] from_bytes_bounds[of "f ! 13"] d(9) by (simp_all add: h_def b_def)
  then have bb: "be_bytes 2 (int h) = f ! 12" "be_bytes 4 (int b) = f ! 13" "be_bytes 2 64 = f ! 14" "h < 65536"
    using be_from_len fl(12-14) from_bytes_bounds[of "f ! 12"] by metis+ (use fl(12) from_bytes_bounds[of "f ! 12"] h_def in \<open>simp add: nat_less_iff\<close>)
  have ft: "uint_fits 2 (from_bytes (f ! 3))" "uint_fits 8 (from_bytes (f ! 6))" "uint_fits 8 (from_bytes (f ! 7))"
    "uint_fits 8 (from_bytes (f ! 8))" "uint_fits 1 (from_bytes (f ! 9))" "uint_fits 1 (from_bytes (f ! 10))"
    by (rule fits_from_len; rule fl)+
  have wf: "wf_envelope e"
    using d fl bb(4) len ft unfolding wf_envelope_def env_fields_def by (simp add: del: One_nat_def)
  have f01: "f ! 0 = ENV_MAGIC" "f ! 1 = [1]"
    using d(1,3,4) by (simp_all add: f_def PREFIX_FMT_def min_def drop_take take_Suc_conv_app_nth nth_drop)
  have "prefix_fields e (ev_dest_device_hint e) (ev_hop_limit e) (ev_replication_budget e) = f"
    using d(5) fl bb(1-3) f01 len unfolding prefix_fields_def env_fields_def
    by (subst list15[of f]) (simp_all add: be_from_len del: be_bytes.simps)
  moreover have "concat f = take 86 raw"
    unfolding f_def concat_cut env_consts(1)[unfolded PREFIX_LEN_def] by simp
  moreover have "take 86 raw @ slice raw 86 (86 + h) @ slice raw (86 + h) (86 + h + b) @
      slice raw (86 + h + b) (86 + h + b + 64) = raw"
    using d(10) by (simp add: slice_def drop_take) (simp flip: append_assoc take_add add: d(10))
  ultimately show ?thesis using wf pack_wf[OF wf] d(11-13) by simp
qed

text \<open>
  The envelope codec is canonical: a byte string unpacks to an envelope exactly when the
  envelope is within the documented bounds (registered type, allowed flags, expiry after creation,
  a 64 byte authentication, at most one mebibyte) and packs to that byte string.
\<close>

theorem envelope_codec_canonical:
  "envelope_unpack raw = Some e \<longleftrightarrow> wf_envelope e \<and> envelope_pack e = Inr raw"
  using unpack_pack pack_unpack by blast

section \<open>What the sender of an envelope signs\<close>

definition env_ok :: "envelope \<Rightarrow> bool" where
  "env_ok e \<longleftrightarrow> uint_fits 1 (ev_env_type e) \<and> uint_fits 2 (ev_flags e) \<and> uint_fits 8 (ev_created_at e) \<and>
     uint_fits 8 (ev_expires_at e) \<and> uint_fits 2 (int (length (ev_ratchet_header_ciphertext e))) \<and>
     uint_fits 4 (int (length (ev_message_ciphertext e)))"

definition env_body :: "envelope \<Rightarrow> bytes" where
  "env_body e = [1] @ be_bytes 1 (ev_env_type e) @ be_bytes 2 (ev_flags e) @ pack_str 16 (ev_message_id e) @
     pack_str 16 (ev_routing_tag e) @ be_bytes 8 0 @ be_bytes 8 (ev_created_at e) @ be_bytes 8 (ev_expires_at e) @
     be_bytes 1 0 @ be_bytes 1 0 @ pack_str 12 (ev_anti_replay_nonce e) @
     be_bytes 2 (int (length (ev_ratchet_header_ciphertext e))) @ be_bytes 4 (int (length (ev_message_ciphertext e))) @
     be_bytes 2 64 @ sha256 (ev_ratchet_header_ciphertext e) @ sha256 (ev_message_ciphertext e)"

text \<open>The signed content: no field a relay may change, and the digests of the two ciphertexts.\<close>

record signed_envelope =
  se_env_type :: int
  se_flags :: int
  se_message_id :: bytes
  se_routing_tag :: bytes
  se_created_at :: int
  se_expires_at :: int
  se_nonce :: bytes
  se_header_len :: nat
  se_header_digest :: bytes
  se_body_len :: nat
  se_body_digest :: bytes

definition env_signed :: "envelope \<Rightarrow> signed_envelope" where
  "env_signed e = \<lparr>se_env_type = ev_env_type e, se_flags = ev_flags e, se_message_id = pack_str 16 (ev_message_id e),
     se_routing_tag = pack_str 16 (ev_routing_tag e), se_created_at = ev_created_at e, se_expires_at = ev_expires_at e,
     se_nonce = pack_str 12 (ev_anti_replay_nonce e),
     se_header_len = length (ev_ratchet_header_ciphertext e), se_header_digest = sha256 (ev_ratchet_header_ciphertext e),
     se_body_len = length (ev_message_ciphertext e), se_body_digest = sha256 (ev_message_ciphertext e)\<rparr>"

lemma length_pack_str [simp]: "length (pack_str k b) = k"
  by (simp add: pack_str_def zeros_def)

interpretation env: signed_record envelope_signing_bytes ENV_MAGIC env_ok env_body env_signed
proof unfold_locales
  have k: "uint_fits 1 (1 :: int)" "uint_fits 8 0" "uint_fits 1 0" "uint_fits 2 64" "be_bytes 1 1 = [1]"
    by (simp_all add: uint_fits_def)
  show "envelope_signing_bytes r = Inr m \<longleftrightarrow> env_ok r \<and> m = ENV_MAGIC @ env_body r" for r m
    unfolding envelope_signing_bytes_def pack_prefix_def ENV_VERSION_def joinE_Cons joinE_Nil bindE_simps bindE_eq_Inr
      pack_uint_iff
    by (simp add: k env_ok_def env_body_def env_consts del: be_bytes.simps One_nat_def) blast
  show "env_ok r \<Longrightarrow> env_ok r' \<Longrightarrow> env_body r = env_body r' \<Longrightarrow> env_signed r = env_signed r'" for r r'
    unfolding env_body_def env_signed_def env_ok_def
    by (simp add: body_simps del: be_bytes.simps One_nat_def)
qed

text \<open>
  Relays may change exactly the three fields they need: with any new device hint, hop limit and
  replication budget the verification of an envelope is unchanged. Conversely two envelopes whose
  signing bytes are equal agree on type, flags, identifiers, times, nonce and on lengths and
  SHA-256 digests of both ciphertexts, so no other change keeps the signature valid.
\<close>

theorem envelope_relay_fields:
  "envelope_verify c (e\<lparr>ev_dest_device_hint := hint, ev_hop_limit := hop, ev_replication_budget := budget\<rparr>) pub =
     envelope_verify c e pub \<and>
   (wf_envelope e \<and> wf_envelope e' \<and> envelope_signing_bytes e = envelope_signing_bytes e' \<longrightarrow>
      ev_env_type e = ev_env_type e' \<and> ev_flags e = ev_flags e' \<and> ev_message_id e = ev_message_id e' \<and>
      ev_routing_tag e = ev_routing_tag e' \<and> ev_created_at e = ev_created_at e' \<and>
      ev_expires_at e = ev_expires_at e' \<and> ev_anti_replay_nonce e = ev_anti_replay_nonce e' \<and>
      length (ev_ratchet_header_ciphertext e) = length (ev_ratchet_header_ciphertext e') \<and>
      length (ev_message_ciphertext e) = length (ev_message_ciphertext e') \<and>
      sha256 (ev_ratchet_header_ciphertext e) = sha256 (ev_ratchet_header_ciphertext e') \<and>
      sha256 (ev_message_ciphertext e) = sha256 (ev_message_ciphertext e'))"
proof (rule conjI[rotated], rule impI)
  assume a: "wf_envelope e \<and> wf_envelope e' \<and> envelope_signing_bytes e = envelope_signing_bytes e'"
  then have "env_ok e" using env_type_fits[of "ev_env_type e"] by (simp add: wf_envelope_def env_ok_def uint_fits_def)
  then have "envelope_signing_bytes e = Inr (ENV_MAGIC @ env_body e)" using env.sb_iff by blast
  then have "env_signed e = env_signed e'" using a env.sb_determines by metis
  then show "ev_env_type e = ev_env_type e' \<and> ev_flags e = ev_flags e' \<and> ev_message_id e = ev_message_id e' \<and>
      ev_routing_tag e = ev_routing_tag e' \<and> ev_created_at e = ev_created_at e' \<and>
      ev_expires_at e = ev_expires_at e' \<and> ev_anti_replay_nonce e = ev_anti_replay_nonce e' \<and>
      length (ev_ratchet_header_ciphertext e) = length (ev_ratchet_header_ciphertext e') \<and>
      length (ev_message_ciphertext e) = length (ev_message_ciphertext e') \<and>
      sha256 (ev_ratchet_header_ciphertext e) = sha256 (ev_ratchet_header_ciphertext e') \<and>
      sha256 (ev_message_ciphertext e) = sha256 (ev_message_ciphertext e')"
    using a by (simp add: env_signed_def wf_envelope_def)
qed (simp add: envelope_verify_def envelope_signing_bytes_def pack_prefix_def)

definition ex_envelope :: envelope where
  "ex_envelope = \<lparr>ev_env_type = 1, ev_flags = 1, ev_message_id = zeros 16, ev_routing_tag = zeros 16,
     ev_dest_device_hint = 5, ev_created_at = 100, ev_expires_at = 200, ev_hop_limit = 4, ev_replication_budget = 2,
     ev_anti_replay_nonce = zeros 12, ev_ratchet_header_ciphertext = [1, 2], ev_message_ciphertext = [3],
     ev_sender_authentication = zeros 64\<rparr>"

text \<open>A stand-in for the \<open>cryptography\<close> package under which the named laws hold.\<close>

definition ex_aead :: crypto where
  "ex_aead = \<lparr>x_public = Inr, x_exchange = (\<lambda>a b. Inr a), aead_encrypt = (\<lambda>k n d a. Inr (d @ take 16 k)),
     aead_decrypt = (\<lambda>k n d a. if drop (length d - 16) d = take 16 k then Inr (take (length d - 16) d) else Inl InvalidTag),
     ed_load_public = (\<lambda>pk. Inr ()), ed_load_private = (\<lambda>sk. Inr ()), ed_public = Inr, ed_sign = (\<lambda>sk m. Inr (zeros 64)),
     ed_verify = (\<lambda>pk sig m. if sig = zeros 64 then Inr () else Inl InvalidSignature)\<rparr>"

theorem envelope_relay_fields_witness:
  "wf_envelope ex_envelope \<and> ev_message_id (ex_envelope\<lparr>ev_hop_limit := 3\<rparr>) = ev_message_id ex_envelope \<and>
   envelope_verify ex_aead (ex_envelope\<lparr>ev_dest_device_hint := 9, ev_hop_limit := 3, ev_replication_budget := 1\<rparr>) [] =
     envelope_verify ex_aead ex_envelope []"
proof -
  have "wf_envelope ex_envelope" "wf_envelope (ex_envelope\<lparr>ev_hop_limit := 3\<rparr>)"
    by (simp_all add: wf_envelope_def ex_envelope_def REGISTERED_ENV_TYPES_def uint_fits_def)
  moreover have "envelope_signing_bytes (ex_envelope\<lparr>ev_hop_limit := 3\<rparr>) = envelope_signing_bytes ex_envelope"
    by (simp add: envelope_signing_bytes_def pack_prefix_def)
  ultimately show ?thesis
    using envelope_relay_fields[where c = ex_aead and e = ex_envelope and hint = 9 and hop = 3 and budget = 1 and pub = "[]" and e' = "ex_envelope\<lparr>ev_hop_limit := 3\<rparr>"] by metis
qed

end
