(* ===== verification/Session.thy ===== *)
theory Session
  imports Records
begin

text \<open>
  \<open>indexed_session.py\<close>: canonical addresses, the indexed message and acknowledgement lanes with their
  key derivations, route and mailbox coordinates, and the sealed acknowledgement. Keys come from the
  executable HMAC-SHA256; the ChaCha20-Poly1305 of the \<open>cryptography\<close> package is a parameter.
\<close>

section \<open>Constants\<close>

definition PROFILE_ID :: bytes where "PROFILE_ID = asc ''ATSAM/indexed-session/v1''"
definition SESSION_PRODUCTION_ENABLED :: bool where "SESSION_PRODUCTION_ENABLED = False"
definition RVNA1_MAGIC :: bytes where "RVNA1_MAGIC = asc ''RVNA1'' @ [0, 0, 0]"
definition RVNA1_PROTO :: byte where "RVNA1_PROTO = 3"
definition RVNA1_SUITE :: byte where "RVNA1_SUITE = 1"
definition LABEL_ACK_BASE :: bytes where "LABEL_ACK_BASE = asc ''ATSAM/v1/ack-seal''"
definition LABEL_ROUTE_MASTER :: bytes where "LABEL_ROUTE_MASTER = asc ''ATSAM/v1/GhostRoute/recipient-tag''"
definition LABEL_ROUTE_DIRECTION :: bytes where "LABEL_ROUTE_DIRECTION = asc ''ATSAM/v1/GhostRoute/rvn1-direction''"
definition LABEL_CHAIN_INIT :: bytes where "LABEL_CHAIN_INIT = asc ''ATSAM/v2/chain-init''"
definition LABEL_CHAIN_ADVANCE :: bytes where "LABEL_CHAIN_ADVANCE = asc ''ATSAM/v2/chain-advance''"
definition LABEL_MSG_KEY :: bytes where "LABEL_MSG_KEY = asc ''ATSAM/v2/msg-key''"
definition SALT_MSG_SEAL :: bytes where "SALT_MSG_SEAL = asc ''ATSAM/v2/msg-seal/salt''"
definition SESSION_AAD_DOMAIN :: bytes where "SESSION_AAD_DOMAIN = asc ''ATSAM/v1/msg-seal/aad''"
definition DIRECTION_INITIATOR_TO_RESPONDER :: int where "DIRECTION_INITIATOR_TO_RESPONDER = 0"
definition DIRECTION_RESPONDER_TO_INITIATOR :: int where "DIRECTION_RESPONDER_TO_INITIATOR = 1"
definition SIGNED_ACK_LEN :: nat where "SIGNED_ACK_LEN = 101"
definition ACK_SEALED_WIRE_LEN :: nat where "ACK_SEALED_WIRE_LEN = 143"

section \<open>Addresses and contexts\<close>

definition session_hkdf :: "bytes \<Rightarrow> bytes option \<Rightarrow> bytes \<Rightarrow> bytes res" where
  "session_hkdf ikm salt info =
     (let salt = (case salt of None \<Rightarrow> zeros 32 | Some s \<Rightarrow> s)
      in expand_loop hmac_sha256 (hmac_sha256 salt ikm) info 32 255 [] [])"

definition require_root :: "bytes \<Rightarrow> unit res" where
  "require_root root = (if length root \<noteq> 32 then Inl (ValueError ''K_root must be exactly 32 bytes'') else Inr ())"

definition require_canonical_address :: "string \<Rightarrow> string res" where
  "require_canonical_address value =
     (if value = [] then Inl (ValueError ''address must be a non-empty string'')
      else case ascii_encode value of
        Inl _ \<Rightarrow> Inl (ValueError ''address must be ASCII'')
      | Inr _ \<Rightarrow>
      (case address_decode value of
        None \<Rightarrow> Inl (ValueError ''address must be canonical lowercase RavenAddressV1'')
      | Some (_, version) \<Rightarrow>
          if value \<noteq> str_strip value \<or> value \<noteq> str_lower value
          then Inl (ValueError ''address must be canonical lowercase RavenAddressV1'')
          else if version \<noteq> uint ADDRESS_VERSION then Inl (ValueError ''unsupported Raven address version'')
          else Inr value))"

text \<open>\<open>require_canonical_address(value).encode("ascii")\<close>.\<close>

definition address_ascii_bytes :: "string \<Rightarrow> bytes res" where
  "address_ascii_bytes value = bindE (require_canonical_address value) ascii_encode"

definition session_context :: "string \<Rightarrow> string \<Rightarrow> bytes res" where
  "session_context initiator_address responder_address =
     bindE (address_ascii_bytes initiator_address) (\<lambda>initiator.
     bindE (address_ascii_bytes responder_address) (\<lambda>responder.
     if initiator = responder then Inl (ValueError ''session endpoints must differ'')
     else Inr (PROFILE_ID @ [0] @ initiator @ [0] @ responder)))"

definition endpoints :: "string \<Rightarrow> string \<Rightarrow> int \<Rightarrow> (string \<times> string) res" where
  "endpoints initiator_address responder_address direction =
     bindE (session_context initiator_address responder_address) (\<lambda>_.
     if direction = DIRECTION_INITIATOR_TO_RESPONDER then Inr (initiator_address, responder_address)
     else if direction = DIRECTION_RESPONDER_TO_INITIATOR then Inr (responder_address, initiator_address)
     else Inl (ValueError ''direction must be 0 or 1''))"

section \<open>Message and acknowledgement lanes\<close>

definition initial_chain_key :: "bytes \<Rightarrow> string \<Rightarrow> string \<Rightarrow> bytes res" where
  "initial_chain_key root sender recipient =
     bindE (require_root root) (\<lambda>_.
     bindE (address_ascii_bytes sender) (\<lambda>sender_b.
     bindE (address_ascii_bytes recipient) (\<lambda>recipient_b.
     if sender_b = recipient_b then Inl (ValueError ''chain endpoints must differ'')
     else session_hkdf root None (LABEL_CHAIN_INIT @ [0] @ sender_b @ [0] @ recipient_b))))"

definition advance_chain_key :: "bytes \<Rightarrow> bytes res" where
  "advance_chain_key chain_key =
     (if length chain_key \<noteq> 32 then Inl (ValueError ''chain key must be exactly 32 bytes'')
      else session_hkdf chain_key None LABEL_CHAIN_ADVANCE)"

definition lane_message_key :: "bytes \<Rightarrow> string \<Rightarrow> string \<Rightarrow> bytes res" where
  "lane_message_key chain_key sender recipient =
     (if length chain_key \<noteq> 32 then Inl (ValueError ''chain key must be exactly 32 bytes'')
      else bindE (address_ascii_bytes sender) (\<lambda>sender_b.
           bindE (address_ascii_bytes recipient) (\<lambda>recipient_b.
           session_hkdf chain_key (Some SALT_MSG_SEAL) (LABEL_MSG_KEY @ [0] @ sender_b @ [0] @ recipient_b))))"

primrec advance_times :: "nat \<Rightarrow> bytes \<Rightarrow> bytes res" where
  "advance_times 0 chain_key = Inr chain_key"
| "advance_times (Suc n) chain_key = bindE (advance_chain_key chain_key) (advance_times n)"

definition chain_key_at_index :: "bytes \<Rightarrow> string \<Rightarrow> string \<Rightarrow> int \<Rightarrow> bytes res" where
  "chain_key_at_index root sender recipient index =
     (if \<not> (0 \<le> index \<and> index \<le> 0xFFFFFFFF) then Inl (ValueError ''index must fit u32'')
      else bindE (initial_chain_key root sender recipient) (advance_times (nat index)))"

definition message_key_at_index :: "bytes \<Rightarrow> string \<Rightarrow> string \<Rightarrow> int \<Rightarrow> int \<Rightarrow> bytes res" where
  "message_key_at_index root initiator_address responder_address direction index =
     bindE (endpoints initiator_address responder_address direction) (\<lambda>(sender, recipient).
     bindE (chain_key_at_index root sender recipient index) (\<lambda>ck.
     lane_message_key ck sender recipient))"

definition ack_base_key :: "bytes \<Rightarrow> bytes res" where
  "ack_base_key root = bindE (require_root root) (\<lambda>_. session_hkdf root None LABEL_ACK_BASE)"

definition ack_chain_key_at_index :: "bytes \<Rightarrow> string \<Rightarrow> string \<Rightarrow> int \<Rightarrow> int \<Rightarrow> bytes res" where
  "ack_chain_key_at_index root initiator_address responder_address direction index =
     bindE (endpoints initiator_address responder_address direction) (\<lambda>(sender, recipient).
     bindE (ack_base_key root) (\<lambda>base. chain_key_at_index base sender recipient index))"

definition ack_key_at_index :: "bytes \<Rightarrow> string \<Rightarrow> string \<Rightarrow> int \<Rightarrow> int \<Rightarrow> bytes res" where
  "ack_key_at_index root initiator_address responder_address direction index =
     bindE (endpoints initiator_address responder_address direction) (\<lambda>(sender, recipient).
     bindE (ack_chain_key_at_index root initiator_address responder_address direction index) (\<lambda>ck.
     lane_message_key ck sender recipient))"

section \<open>Routes and mailboxes\<close>

definition route_master_key :: "bytes \<Rightarrow> bytes res" where
  "route_master_key root = bindE (require_root root) (\<lambda>_. session_hkdf root None LABEL_ROUTE_MASTER)"

definition route_direction_key :: "bytes \<Rightarrow> int \<Rightarrow> bytes res" where
  "route_direction_key root direction =
     (if direction \<notin> {DIRECTION_INITIATOR_TO_RESPONDER, DIRECTION_RESPONDER_TO_INITIATOR}
      then Inl (ValueError ''direction must be 0 or 1'')
      else bindE (route_master_key root) (\<lambda>master.
           session_hkdf master None (LABEL_ROUTE_DIRECTION @ [0] @ [word_of_int direction])))"

definition route_coordinates :: "int \<Rightarrow> int \<Rightarrow> int \<Rightarrow> int \<Rightarrow> (int \<times> int) res" where
  "route_coordinates created_at_ms index env_type direction =
     (if \<not> (0 \<le> created_at_ms \<and> created_at_ms \<le> 0xFFFFFFFFFFFFFFFF)
      then Inl (ValueError ''created_at_ms must fit u64'')
      else if \<not> (0 \<le> index \<and> index \<le> 0xFFFFFFFF) then Inl (ValueError ''index must fit u32'')
      else if env_type \<notin> {1, 2, 3, 4} then Inl (ValueError ''env_type must be 1 through 4'')
      else if direction \<notin> {DIRECTION_INITIATOR_TO_RESPONDER, DIRECTION_RESPONDER_TO_INITIATOR}
      then Inl (ValueError ''direction must be 0 or 1'')
      else let epoch = created_at_ms div 1000;
               counter = push_bit 3 index OR push_bit 1 (env_type - 1) OR direction
           in Inr (epoch, counter))"

definition derive_route_tag :: "bytes \<Rightarrow> int \<Rightarrow> int \<Rightarrow> int \<Rightarrow> int \<Rightarrow> bytes res" where
  "derive_route_tag root created_at_ms index env_type direction =
     bindE (route_coordinates created_at_ms index env_type direction) (\<lambda>(epoch, counter).
     bindE (route_direction_key root direction) (\<lambda>k. route_tag_derive k epoch counter))"

definition mailbox_coordinates :: "int \<Rightarrow> int \<Rightarrow> (int \<times> int) res" where
  "mailbox_coordinates unix_ms direction =
     (if \<not> (0 \<le> unix_ms \<and> unix_ms \<le> 0xFFFFFFFFFFFFFFFF) then Inl (ValueError ''unix_ms must fit u64'')
      else if direction \<notin> {DIRECTION_INITIATOR_TO_RESPONDER, DIRECTION_RESPONDER_TO_INITIATOR}
      then Inl (ValueError ''direction must be 0 or 1'')
      else Inr (unix_ms div 86400000, direction))"

definition derive_mailbox_tags :: "bytes \<Rightarrow> int \<Rightarrow> int \<Rightarrow> (bytes \<times> bytes) res" where
  "derive_mailbox_tags root unix_ms direction =
     bindE (mailbox_coordinates unix_ms direction) (\<lambda>(day_epoch, slot).
     bindE (route_direction_key root direction) (\<lambda>k.
     bindE (store_mailbox_tag k day_epoch slot) (\<lambda>mailbox.
     bindE (mailbox_store_tag mailbox) (\<lambda>store. Inr (mailbox, store)))))"

section \<open>Sealed acknowledgements\<close>

definition uuid_text :: "bytes \<Rightarrow> string res" where
  "uuid_text message_id =
     (if length message_id \<noteq> 16 then Inl (ValueError ''message_id must be exactly 16 bytes'')
      else let v = str_upper (bytes_hex message_id) in
        Inr (take 8 v @ ''-'' @ take 4 (drop 8 v) @ ''-'' @ take 4 (drop 12 v) @ ''-'' @ take 4 (drop 16 v) @ ''-'' @ drop 20 v))"

definition build_aad :: "int \<Rightarrow> string \<Rightarrow> string \<Rightarrow> bytes \<Rightarrow> bytes res" where
  "build_aad index sender recipient message_id =
     (if \<not> (0 \<le> index \<and> index \<le> 0xFFFFFFFF) then Inl (ValueError ''index must fit u32'')
      else bindE (address_ascii_bytes sender) (\<lambda>sender_b.
           bindE (address_ascii_bytes recipient) (\<lambda>recipient_b.
           bindE (bindE (uuid_text message_id) ascii_encode) (\<lambda>msg_id_b.
           bindE (joinE [Inr SESSION_AAD_DOMAIN, Inr [0], Inr [RVNA1_PROTO, RVNA1_SUITE], to_bytes index 4, Inr [0],
                         Inr sender_b, Inr [0], Inr recipient_b, Inr [0], Inr msg_id_b]) (\<lambda>m.
           Inr (sha256 m))))))"

record signed_ack =
  sa_record :: ack
  sa_signature :: bytes

definition encode_signed_ack :: "ack \<Rightarrow> bytes \<Rightarrow> bytes res" where
  "encode_signed_ack r signature =
     bindE (ack1_signing_bytes r) (\<lambda>_.
     if aq_status r \<notin> {1, 2} then Inl (ValueError ''ACK status must be delivered(1) or read(2)'')
     else if length signature \<noteq> 64 then Inl (ValueError ''ACK signature must be exactly 64 bytes'')
     else bindE (joinE [Inr (aq_message_id r), Inr [word_of_int (aq_status r)], Inr (aq_nonce r),
                        to_bytes (aq_created_at r) 8, Inr signature]) (\<lambda>out.
          if length out \<noteq> SIGNED_ACK_LEN then Inl (AssertionError '''') else Inr out))"

definition decode_signed_ack :: "bytes \<Rightarrow> signed_ack res" where
  "decode_signed_ack dat =
     (if length dat \<noteq> SIGNED_ACK_LEN then Inl (ValueError ''signed ACK plaintext must be exactly 101 bytes'')
      else let status = uint (dat ! 16) in
        if status \<notin> {1, 2} then Inl (ValueError ''ACK status must be delivered(1) or read(2)'')
        else Inr \<lparr>sa_record = \<lparr>aq_message_id = take 16 dat, aq_status = status, aq_nonce = slice dat 17 29,
                                aq_created_at = from_bytes (slice dat 29 37)\<rparr>,
                  sa_signature = slice dat 37 101\<rparr>)"

definition seal_ack :: "crypto \<Rightarrow> bytes \<Rightarrow> string \<Rightarrow> string \<Rightarrow> int \<Rightarrow> int \<Rightarrow> bytes \<Rightarrow> bytes \<Rightarrow> bytes \<Rightarrow> bytes res" where
  "seal_ack c root initiator_address responder_address direction index outer_message_id plaintext nonce =
     (if length plaintext \<noteq> SIGNED_ACK_LEN then Inl (ValueError ''signed ACK plaintext must be exactly 101 bytes'')
      else bindE (decode_signed_ack plaintext) (\<lambda>_.
      if length nonce \<noteq> 12 then Inl (ValueError ''ChaCha20-Poly1305 nonce must be exactly 12 bytes'')
      else bindE (endpoints initiator_address responder_address direction) (\<lambda>(sender, recipient).
           bindE (ack_key_at_index root initiator_address responder_address direction index) (\<lambda>key.
           bindE (build_aad index sender recipient outer_message_id) (\<lambda>aad.
           bindE (aead_encrypt c key nonce plaintext aad) (\<lambda>ciphertext_and_tag.
           bindE (joinE [Inr RVNA1_MAGIC, Inr [RVNA1_PROTO, RVNA1_SUITE], to_bytes index 4, Inr nonce,
                         Inr ciphertext_and_tag]) (\<lambda>wire.
           if length wire \<noteq> ACK_SEALED_WIRE_LEN then Inl (AssertionError '''') else Inr wire)))))))"

definition open_ack :: "crypto \<Rightarrow> bytes \<Rightarrow> string \<Rightarrow> string \<Rightarrow> int \<Rightarrow> bytes \<Rightarrow> bytes \<Rightarrow> bytes res" where
  "open_ack c root initiator_address responder_address direction outer_message_id wire =
     (if length wire \<noteq> ACK_SEALED_WIRE_LEN then Inl (ValueError ''sealed ACK body must be exactly 143 bytes'')
      else if take 8 wire \<noteq> RVNA1_MAGIC \<or> wire ! 8 \<noteq> RVNA1_PROTO \<or> wire ! 9 \<noteq> RVNA1_SUITE
      then Inl (ValueError ''unsupported sealed ACK header'')
      else let index = from_bytes (slice wire 10 14); nonce = slice wire 14 26 in
        bindE (endpoints initiator_address responder_address direction) (\<lambda>(sender, recipient).
        bindE (ack_key_at_index root initiator_address responder_address direction index) (\<lambda>key.
        bindE (build_aad index sender recipient outer_message_id) (\<lambda>aad.
        bindE (aead_decrypt c key nonce (drop 26 wire) aad) (\<lambda>plaintext.
        if length plaintext \<noteq> SIGNED_ACK_LEN then Inl (ValueError ''opened ACK plaintext has wrong size'')
        else bindE (decode_signed_ack plaintext) (\<lambda>_. Inr plaintext))))))"

section \<open>Canonical addresses\<close>

lemma rvn_encode_plain:
  assumes "bech32m_encode ''rvn'' payload = Inr v"
  shows "plain_text v \<and> str_lower v = v \<and> bech32m_decode v = Some (''rvn'', payload) \<and> v \<noteq> []"
proof -
  obtain dat where v: "v = bech_text ''rvn'' (dat @ create_checksum ''rvn'' dat)" "in_range 5 dat"
    using bech32m_encode_text[of "''rvn''" payload] assms by (metis sum.inject(2))
  have "plain_text v" using v bech_text_plain[OF hrp_rvn, of "dat @ create_checksum ''rvn'' dat"] by (simp add: checksum_range)
  moreover have d: "bech32m_decode v = Some (''rvn'', payload)" using bech32m_roundtrip[OF hrp_rvn, of payload] assms by auto
  moreover have "str_lower v = v" using bech32m_decode_dest[OF d] assms by simp
  ultimately show ?thesis by (auto simp: v(1) bech_text_def)
qed

lemma plain_ascii: "plain_text v \<Longrightarrow> ascii_encode v = Inr (asc v)"
  by (auto simp: ascii_encode_def plain_text_def list_all_iff)

lemma canonical_iff:
  "require_canonical_address v = Inr w \<longleftrightarrow> w = v \<and> (\<exists>h. length h = 20 \<and> bech32m_encode ''rvn'' (1 # h) = Inr v)"
proof
  assume r: "require_canonical_address v = Inr w"
  then obtain h ver where d: "address_decode v = Some (h, ver)" "v = str_strip v" "v = str_lower v" "ver = 1" "w = v"
    by (auto simp: require_canonical_address_def ADDRESS_VERSION_def split: sum.splits option.splits if_splits)
  then obtain payload where p: "bech32m_decode v = Some (''rvn'', payload)" "length payload = 21" "h = drop 1 payload"
    "uint (payload ! 0) = 1"
    by (auto simp: address_decode_def split: option.splits if_splits)
  then have "payload = 1 # h" by (cases payload) auto
  with p(2) bech32m_decode_dest[OF p(1)] d(3,5) show "w = v \<and> (\<exists>h. length h = 20 \<and> bech32m_encode ''rvn'' (1 # h) = Inr v)"
    by auto
next
  assume "w = v \<and> (\<exists>h. length h = 20 \<and> bech32m_encode ''rvn'' (1 # h) = Inr v)"
  then obtain h where h: "w = v" "length h = 20" "bech32m_encode ''rvn'' (1 # h) = Inr v" by blast
  from rvn_encode_plain[OF h(3)] have v: "plain_text v" "str_lower v = v" "bech32m_decode v = Some (''rvn'', 1 # h)" "v \<noteq> []"
    by blast+
  with h(1,2) show "require_canonical_address v = Inr w"
    by (simp add: require_canonical_address_def plain_ascii address_decode_def strip_plain ADDRESS_VERSION_def)
qed

text \<open>
  C33: The addresses accepted as canonical are exactly the encodings of the 20 byte hashes under
  version 1: each is its own result, 44 ASCII characters long, and two of them with the same decoded
  hash are the same text.
\<close>

theorem canonical_addresses_exact:
  "(require_canonical_address v = Inr w \<longleftrightarrow>
      w = v \<and> length v = 44 \<and> ascii_encode v = Inr (asc v) \<and>
      (\<exists>h. length h = 20 \<and> bech32m_encode ''rvn'' (1 # h) = Inr v)) \<and>
   (require_canonical_address v = Inr v \<and> require_canonical_address v' = Inr v' \<and>
      address_decode v = address_decode v' \<longleftrightarrow> require_canonical_address v = Inr v \<and> v = v')"
proof (intro conjI iffI)
  assume "require_canonical_address v = Inr w"
  then obtain h where h: "w = v" "length h = 20" "bech32m_encode ''rvn'' (1 # h) = Inr v"
    by (auto simp: canonical_iff)
  then show "w = v" "length v = 44" "ascii_encode v = Inr (asc v)"
    "\<exists>h. length h = 20 \<and> bech32m_encode ''rvn'' (1 # h) = Inr v"
    using rvn_length[OF h(3,2)] rvn_encode_plain[OF h(3)] plain_ascii by blast+
next
  assume a: "require_canonical_address v = Inr v \<and> require_canonical_address v' = Inr v' \<and>
      address_decode v = address_decode v'"
  then obtain h h' where h: "length h = 20" "bech32m_encode ''rvn'' (1 # h) = Inr v"
    "length h' = 20" "bech32m_encode ''rvn'' (1 # h') = Inr v'"
    unfolding canonical_iff by blast
  note p = rvn_encode_plain[OF h(2)] rvn_encode_plain[OF h(4)]
  then have "address_decode v = Some (h, 1)" "address_decode v' = Some (h', 1)"
    using h(1,3) by (simp_all add: address_decode_def strip_plain)
  then have "h = h'" using a by simp
  then show "v = v'" using h(2,4) by simp
qed (auto simp: canonical_iff)

section \<open>The lanes always derive a key\<close>

definition canonical :: "string \<Rightarrow> bool" where
  "canonical v \<longleftrightarrow> (\<exists>h. length h = 20 \<and> bech32m_encode ''rvn'' (1 # h) = Inr v)"

lemma address_ascii_iff: "address_ascii_bytes v = Inr b \<longleftrightarrow> canonical v \<and> b = asc v"
  using canonical_iff[of v v] rvn_encode_plain plain_ascii
  by (auto simp: address_ascii_bytes_def bindE_eq_Inr canonical_iff canonical_def)

lemma endpoints_iff: "endpoints i r d = Inr (s, t) \<longleftrightarrow>
    canonical i \<and> canonical r \<and> i \<noteq> r \<and> (d = 0 \<and> s = i \<and> t = r \<or> d = 1 \<and> s = r \<and> t = i)"
  by (auto simp: endpoints_def session_context_def bindE_eq_Inr address_ascii_iff DIRECTION_INITIATOR_TO_RESPONDER_def
      DIRECTION_RESPONDER_TO_INITIATOR_def if_Inl_eq_Inr)

lemma session_hkdf_total: "\<exists>k. session_hkdf ikm salt info = Inr k \<and> length k = 32"
  unfolding session_hkdf_def Let_def by (rule hmac256.expand_loop_total) simp

lemma advance_times_total: "length ck = 32 \<Longrightarrow> \<exists>k. advance_times n ck = Inr k \<and> length k = 32"
proof (induction n arbitrary: ck)
  case (Suc n)
  obtain k where k: "session_hkdf ck None LABEL_CHAIN_ADVANCE = Inr k" "length k = 32"
    using session_hkdf_total by blast
  from Suc.IH[OF k(2)] show ?case using Suc.prems by (simp add: advance_chain_key_def k(1))
qed simp

lemma chain_key_total:
  "length root = 32 \<Longrightarrow> canonical s \<Longrightarrow> canonical t \<Longrightarrow> s \<noteq> t \<Longrightarrow> 0 \<le> n \<Longrightarrow> n \<le> 0xFFFFFFFF \<Longrightarrow>
     \<exists>k. chain_key_at_index root s t n = Inr k \<and> length k = 32"
proof -
  assume a: "length root = 32" "canonical s" "canonical t" "s \<noteq> t" "0 \<le> n" "n \<le> 0xFFFFFFFF"
  then have e: "address_ascii_bytes s = Inr (asc s)" "address_ascii_bytes t = Inr (asc t)" by (simp_all add: address_ascii_iff)
  obtain k where k: "session_hkdf root None (LABEL_CHAIN_INIT @ [0] @ asc s @ [0] @ asc t) = Inr k" "length k = 32"
    using session_hkdf_total by blast
  then have "initial_chain_key root s t = Inr k" "length k = 32"
    using a(1,4) by (simp_all add: initial_chain_key_def e require_root_def)
  with advance_times_total[of k "nat n"] a(5,6) show ?thesis by (simp add: chain_key_at_index_def)
qed

lemma lane_key_total: "length ck = 32 \<Longrightarrow> canonical s \<Longrightarrow> canonical t \<Longrightarrow> \<exists>k. lane_message_key ck s t = Inr k \<and> length k = 32"
  using session_hkdf_total by (simp add: lane_message_key_def address_ascii_iff[THEN iffD2])

lemma ack_key_total:
  assumes "length root = 32" "endpoints i r d = Inr (s, t)" "0 \<le> n" "n \<le> 0xFFFFFFFF"
  shows "\<exists>k. ack_key_at_index root i r d n = Inr k \<and> length k = 32"
proof -
  have st: "canonical s" "canonical t" "s \<noteq> t" using assms(2) by (auto simp: endpoints_iff)
  obtain b where b: "session_hkdf root None LABEL_ACK_BASE = Inr b" "length b = 32"
    using session_hkdf_total by blast
  then have "ack_base_key root = Inr b" "length b = 32" using assms(1) by (simp_all add: ack_base_key_def require_root_def)
  moreover from chain_key_total[OF this(2) st assms(3,4)] obtain k where "chain_key_at_index b s t n = Inr k" "length k = 32"
    by blast
  ultimately show ?thesis using lane_key_total[OF _ st(1,2)] assms(2)
    by (simp add: ack_key_at_index_def ack_chain_key_at_index_def)
qed

section \<open>Signed acknowledgements\<close>

lemma decode_signed_ack_iff:
  "decode_signed_ack dat = Inr a \<longleftrightarrow>
     length dat = 101 \<and> uint (dat ! 16) \<in> {1, 2} \<and>
     a = \<lparr>sa_record = \<lparr>aq_message_id = take 16 dat, aq_status = uint (dat ! 16), aq_nonce = slice dat 17 29,
            aq_created_at = from_bytes (slice dat 29 37)\<rparr>, sa_signature = slice dat 37 101\<rparr>"
  by (auto simp: decode_signed_ack_def SIGNED_ACK_LEN_def Let_def)

lemma encode_signed_ack_iff:
  "encode_signed_ack r sig = Inr out \<longleftrightarrow> ack_ok r \<and> aq_status r \<in> {1, 2} \<and> length sig = 64 \<and> out = ack_fields r @ sig"
proof -
  have "length (ack_fields r) = 37" if "ack_ok r" using that by (simp add: ack_ok_def ack_fields_def)
  then show ?thesis
    by (auto simp: encode_signed_ack_def bindE_eq_Inr ack.sb_iff to_bytes_fits SIGNED_ACK_LEN_def if_Inl_eq_Inr)
      (auto simp: ack_ok_def ack_fields_def)
qed

lemma ack_cut:
  assumes "length dat = 101" "byte_fits (uint (dat ! 16))"
  shows "dat = take 16 dat @ [dat ! 16] @ slice dat 17 29 @ slice dat 29 37 @ slice dat 37 101"
proof -
  have "take 17 dat = take 16 dat @ [dat ! 16]" using assms(1) take_Suc_conv_app_nth[of 16 dat] by simp
  moreover have "dat = take 17 dat @ slice dat 17 29 @ slice dat 29 37 @ slice dat 37 101"
    using assms(1) by (simp add: slice_def drop_take) (simp flip: append_assoc take_add)
  ultimately show ?thesis by simp
qed

text \<open>
  The signed acknowledgement codec is canonical: 101 bytes decode to a record and a signature
  exactly when encoding that record with that signature writes those bytes.
\<close>

theorem signed_ack_codec:
  "decode_signed_ack dat = Inr a \<longleftrightarrow> encode_signed_ack (sa_record a) (sa_signature a) = Inr dat"
proof
  assume "decode_signed_ack dat = Inr a"
  then have d: "length dat = 101" "uint (dat ! 16) \<in> {1, 2}"
    "a = \<lparr>sa_record = \<lparr>aq_message_id = take 16 dat, aq_status = uint (dat ! 16), aq_nonce = slice dat 17 29,
       aq_created_at = from_bytes (slice dat 29 37)\<rparr>, sa_signature = slice dat 37 101\<rparr>"
    by (simp_all add: decode_signed_ack_iff)
  have l: "length (slice dat 17 29) = 12" "length (slice dat 29 37) = 8" "length (slice dat 37 101) = 64"
    using d(1) by (simp_all add: slice_def)
  show "encode_signed_ack (sa_record a) (sa_signature a) = Inr dat"
    using d(2) ack_cut[OF d(1)] l be_from_len[OF l(2)] fits_from_len[OF l(2)] d(1)
    unfolding encode_signed_ack_iff d(3) by (simp add: ack_ok_def ack_fields_def)
next
  assume "encode_signed_ack (sa_record a) (sa_signature a) = Inr dat"
  then have e: "ack_ok (sa_record a)" "aq_status (sa_record a) \<in> {1, 2}" "length (sa_signature a) = 64"
    "dat = ack_fields (sa_record a) @ sa_signature a"
    by (simp_all add: encode_signed_ack_iff)
  then have "length dat = 101" "dat ! 16 = word_of_int (aq_status (sa_record a))" "take 16 dat = aq_message_id (sa_record a)"
    "slice dat 17 29 = aq_nonce (sa_record a)" "slice dat 29 37 = be_bytes 8 (aq_created_at (sa_record a))"
    "slice dat 37 101 = sa_signature a"
    by (auto simp: ack_ok_def ack_fields_def slice_def nth_append)
  moreover have "uint (word_of_int (aq_status (sa_record a)) :: byte) = aq_status (sa_record a)"
    "from_bytes (be_bytes 8 (aq_created_at (sa_record a))) = aq_created_at (sa_record a)"
    using e(1) by (simp_all add: ack_ok_def from_be_fits)
  ultimately show "decode_signed_ack dat = Inr a"
    using e(2) by (cases a; cases "sa_record a") (simp add: decode_signed_ack_iff)
qed

section \<open>Sealing and opening\<close>

lemma hex_ascii: "c \<in> set (bytes_hex bs) \<Longrightarrow> (of_char c :: nat) < 128"
proof -
  have d: "(of_char (hex_digit n) :: nat) < 128" if "n < 16" for n
  proof -
    have "list_all (\<lambda>n. (of_char (hex_digit n) :: nat) < 128) [0..<16]" by code_simp
    with that show ?thesis by (simp add: list_all_iff)
  qed
  have u: "unat (b :: byte) div 16 < 16" for b using unat_byte_less[of b] by linarith
  assume "c \<in> set (bytes_hex bs)"
  then show ?thesis using d u by (auto simp: bytes_hex_def)
qed

lemma uuid_ascii: "length mid = 16 \<Longrightarrow> \<exists>u b. uuid_text mid = Inr u \<and> ascii_encode u = Inr b"
proof -
  assume l: "length mid = 16"
  define v where "v = str_upper (bytes_hex mid)"
  have v: "\<forall>c \<in> set v. (of_char c :: nat) < 128"
  proof
    fix c
    assume "c \<in> set v"
    then obtain d where "d \<in> set (bytes_hex mid)" "c = upper_char d" by (auto simp: v_def str_upper_def)
    with hex_ascii[of d mid] show "(of_char c :: nat) < 128" by (auto simp: of_char_upper)
  qed
  obtain u where u: "uuid_text mid = Inr u" "set u \<subseteq> insert (CHR ''-'') (set v)"
    using l set_take_subset[of _ v] set_drop_subset[of _ v] set_take_subset[of 4 "drop _ v"]
    by (fastforce simp: uuid_text_def Let_def v_def dest: in_set_takeD in_set_dropD)
  then have "\<forall>c \<in> set u. (of_char c :: nat) < 128" using v by fastforce
  with u(1) show ?thesis by (simp add: ascii_encode_def list_all_iff)
qed

lemma aad_total:
  "0 \<le> n \<Longrightarrow> n \<le> 0xFFFFFFFF \<Longrightarrow> canonical s \<Longrightarrow> canonical t \<Longrightarrow> length mid = 16 \<Longrightarrow> \<exists>a. build_aad n s t mid = Inr a"
  using uuid_ascii[of mid] by (auto simp: build_aad_def address_ascii_iff[THEN iffD2] to_bytes_def)

text \<open>
  What ChaCha20-Poly1305 documents: with a 32 byte key and a 12 byte nonce encryption succeeds, adds a
  16 byte tag, and decryption under the same key, nonce and associated data returns the plaintext.
\<close>

definition aead_correct :: "crypto \<Rightarrow> bool" where
  "aead_correct c \<longleftrightarrow> (\<forall>k n p a. length k = 32 \<and> length n = 12 \<and> length p < 2 ^ 31 \<longrightarrow>
     (\<exists>ct. aead_encrypt c k n p a = Inr ct \<and> length ct = length p + 16 \<and> aead_decrypt c k n ct a = Inr p))"

definition seal_inputs_ok :: "bytes \<Rightarrow> string \<Rightarrow> string \<Rightarrow> int \<Rightarrow> int \<Rightarrow> bytes \<Rightarrow> bytes \<Rightarrow> bytes \<Rightarrow> bool" where
  "seal_inputs_ok root i r d n mid pt nonce \<longleftrightarrow> length root = 32 \<and> canonical i \<and> canonical r \<and> i \<noteq> r \<and> d \<in> {0, 1} \<and>
     0 \<le> n \<and> n \<le> 0xFFFFFFFF \<and> length mid = 16 \<and> length nonce = 12 \<and> (\<exists>a. decode_signed_ack pt = Inr a)"

lemma seal_ok:
  assumes law: "aead_correct c" and ok: "seal_inputs_ok root i r d n mid pt nonce"
  shows "\<exists>wire. seal_ack c root i r d n mid pt nonce = Inr wire \<and> open_ack c root i r d mid wire = Inr pt"
proof -
  obtain s t where e: "endpoints i r d = Inr (s, t)" "canonical s" "canonical t"
    using ok by (auto simp: endpoints_iff seal_inputs_ok_def)
  obtain key where k: "ack_key_at_index root i r d n = Inr key" "length key = 32"
    using ack_key_total[OF _ e(1)] ok by (auto simp: seal_inputs_ok_def)
  obtain aad where a: "build_aad n s t mid = Inr aad"
    using aad_total[OF _ _ e(2,3)] ok by (auto simp: seal_inputs_ok_def)
  have p: "length pt = 101" using ok by (auto simp: seal_inputs_ok_def decode_signed_ack_iff)
  then obtain ct where ct: "aead_encrypt c key nonce pt aad = Inr ct" "length ct = 117" "aead_decrypt c key nonce ct aad = Inr pt"
  proof -
    have "length key = 32 \<and> length nonce = 12 \<and> length pt < 2 ^ 31" using k(2) ok p by (simp add: seal_inputs_ok_def)
    with law obtain ct where "aead_encrypt c key nonce pt aad = Inr ct" "length ct = length pt + 16"
      "aead_decrypt c key nonce ct aad = Inr pt"
      unfolding aead_correct_def by blast
    with p that show thesis by simp
  qed
  let ?w = "RVNA1_MAGIC @ [RVNA1_PROTO, RVNA1_SUITE] @ be_bytes 4 n @ nonce @ ct"
  have m: "length RVNA1_MAGIC = 8" by (simp add: RVNA1_MAGIC_def)
  have n: "length nonce = 12" "0 \<le> n" "n < 256 ^ 4" using ok by (simp_all add: seal_inputs_ok_def)
  have seal: "seal_ack c root i r d n mid pt nonce = Inr ?w"
    using ok p e(1) k(1) a ct m n
    by (auto simp: seal_ack_def SIGNED_ACK_LEN_def seal_inputs_ok_def to_bytes_def ACK_SEALED_WIRE_LEN_def simp del: be_bytes.simps)
  have w: "length ?w = 143" "take 8 ?w = RVNA1_MAGIC" "?w ! 8 = RVNA1_PROTO" "?w ! 9 = RVNA1_SUITE"
    "slice ?w 10 14 = be_bytes 4 n" "slice ?w 14 26 = nonce" "drop 26 ?w = ct"
    using m n ct(2) by (simp_all add: slice_def nth_append)
  have "from_bytes (be_bytes 4 n) = n" using n by simp
  then have "open_ack c root i r d mid ?w = Inr pt"
    unfolding open_ack_def Let_def w ACK_SEALED_WIRE_LEN_def
    using ok e(1) k(1) a ct(3) p by (auto simp: SIGNED_ACK_LEN_def seal_inputs_ok_def simp del: be_bytes.simps)
  with seal show ?thesis by blast
qed

lemma seal_needs:
  assumes "seal_ack c root i r d n mid pt nonce = Inr wire"
  shows "seal_inputs_ok root i r d n mid pt nonce"
proof -
  obtain a s t key aad where w: "decode_signed_ack pt = Inr a" "length nonce = 12" "endpoints i r d = Inr (s, t)"
    "ack_key_at_index root i r d n = Inr key" "build_aad n s t mid = Inr aad"
    using assms by (auto simp: seal_ack_def bindE_eq_Inr if_Inl_eq_Inr)
  have "0 \<le> n \<and> n \<le> 0xFFFFFFFF \<and> length mid = 16"
    using w(5) by (auto simp: build_aad_def bindE_eq_Inr uuid_text_def if_Inl_eq_Inr)
  moreover have "length root = 32"
    using w(3,4) by (auto simp: ack_key_at_index_def ack_chain_key_at_index_def ack_base_key_def require_root_def
        bindE_eq_Inr if_Inl_eq_Inr)
  ultimately show ?thesis using w by (auto simp: seal_inputs_ok_def endpoints_iff)
qed

text \<open>
  C32: With a correct AEAD, sealing an acknowledgement returns exactly for a 32 byte root, two
  different canonical addresses, a direction, an index of 32 bits, a 16 byte message identifier, a
  12 byte nonce and a valid signed acknowledgement; what it returns is 143 bytes that open under the
  same session, direction and identifier to the same acknowledgement.
\<close>

theorem seal_open_ack:
  assumes "aead_correct c"
  shows "((\<exists>wire. seal_ack c root i r d n mid pt nonce = Inr wire) \<longleftrightarrow> seal_inputs_ok root i r d n mid pt nonce) \<and>
    (seal_ack c root i r d n mid pt nonce = Inr wire \<longrightarrow> length wire = 143 \<and> open_ack c root i r d mid wire = Inr pt)"
proof (rule conjI)
  show "(\<exists>wire. seal_ack c root i r d n mid pt nonce = Inr wire) \<longleftrightarrow> seal_inputs_ok root i r d n mid pt nonce"
    using seal_needs seal_ok[OF assms] by blast
  show "seal_ack c root i r d n mid pt nonce = Inr wire \<longrightarrow> length wire = 143 \<and> open_ack c root i r d mid wire = Inr pt"
  proof
    assume s: "seal_ack c root i r d n mid pt nonce = Inr wire"
    then have "length wire = 143"
      by (auto simp: seal_ack_def bindE_eq_Inr if_Inl_eq_Inr ACK_SEALED_WIRE_LEN_def)
    moreover have "open_ack c root i r d mid wire = Inr pt"
      using seal_ok[OF assms seal_needs[OF s]] s by simp
    ultimately show "length wire = 143 \<and> open_ack c root i r d mid wire = Inr pt" by blast
  qed
qed

definition ex_ack :: bytes where
  "ex_ack = zeros 16 @ [1] @ zeros 20 @ zeros 64"

lemma ex_aead_correct: "aead_correct ex_aead"
  by (simp add: aead_correct_def ex_aead_def)

lemma two_addresses: "\<exists>a b. canonical a \<and> canonical b \<and> a \<noteq> b"
proof -
  obtain a b where "bech32m_encode ''rvn'' (1 # zeros 20) = Inr a" "bech32m_encode ''rvn'' (1 # replicate 20 1) = Inr b"
    using bech32m_encode_text by metis
  then have "bech32m_decode a = Some (''rvn'', 1 # zeros 20)" "bech32m_decode b = Some (''rvn'', 1 # replicate 20 1)"
    "canonical a" "canonical b"
    using rvn_encode_plain by (auto simp: canonical_def intro: exI[of _ "zeros 20"] exI[of _ "replicate 20 1"])
  moreover have "zeros 20 \<noteq> replicate 20 (1 :: byte)" by (simp add: zeros_def)
  ultimately have "canonical a \<and> canonical b \<and> a \<noteq> b" by auto
  then show ?thesis by blast
qed

theorem seal_open_ack_witness:
  "\<exists>a b wire. seal_ack ex_aead (zeros 32) a b 0 7 (zeros 16) ex_ack (zeros 12) = Inr wire \<and> length wire = 143 \<and>
     open_ack ex_aead (zeros 32) a b 0 (zeros 16) wire = Inr ex_ack"
proof -
  obtain a b where ab: "canonical a" "canonical b" "a \<noteq> b" using two_addresses by blast
  have "ex_ack ! 16 = 1" by (simp add: ex_ack_def nth_append)
  then have "seal_inputs_ok (zeros 32) a b 0 7 (zeros 16) ex_ack (zeros 12)"
    using ab by (simp add: seal_inputs_ok_def decode_signed_ack_iff) (simp add: ex_ack_def)
  with seal_open_ack[OF ex_aead_correct, of "zeros 32" a b 0 7 "zeros 16" ex_ack "zeros 12"] show ?thesis by blast
qed

section \<open>Route coordinates\<close>

lemma or_low: "0 \<le> (b :: int) \<Longrightarrow> b < 2 ^ k \<Longrightarrow> push_bit k a OR b = a * 2 ^ k + b"
proof -
  assume b: "0 \<le> b" "b < 2 ^ k"
  have "take_bit k b = b" using b by (simp add: take_bit_int_eq_self)
  then have "push_bit k a AND b = 0"
    by (metis (no_types, lifting) and.commute bit_eq_iff bit_and_iff bit_push_bit_iff bit_take_bit_iff bit_0_eq bot_apply bot_bool_def not_le)
  then show ?thesis by (simp add: disjunctive_add_eq_or push_bit_eq_mult flip: disjunctive_add_eq_or)
qed

lemma route_counter: "0 \<le> t \<Longrightarrow> t < 4 \<Longrightarrow> d \<in> {0, 1} \<Longrightarrow> push_bit 3 n OR push_bit 1 t OR d = n * 8 + t * 2 + (d :: int)"
proof -
  assume a: "0 \<le> t" "t < 4" "d \<in> {0, 1}"
  have "push_bit 1 t OR d = t * 2 + d" using or_low[of d 1 t] a by auto
  moreover have "push_bit 3 n OR (t * 2 + d) = n * 8 + (t * 2 + d)" using or_low[of "t * 2 + d" 3 n] a by auto
  ultimately show ?thesis by (simp add: or.assoc)
qed

lemma route_coordinates_iff: "route_coordinates ms n t d = Inr (e, k) \<longleftrightarrow>
    0 \<le> ms \<and> ms \<le> 0xFFFFFFFFFFFFFFFF \<and> 0 \<le> n \<and> n \<le> 0xFFFFFFFF \<and> 1 \<le> t \<and> t \<le> 4 \<and> d \<in> {0, 1} \<and>
    e = ms div 1000 \<and> k = n * 8 + (t - 1) * 2 + d"
proof -
  have "t \<in> {1, 2, 3, 4} \<longleftrightarrow> 1 \<le> t \<and> t \<le> 4" by auto
  then show ?thesis
    using route_counter[of "t - 1" d n]
    by (auto simp: route_coordinates_def Let_def DIRECTION_INITIATOR_TO_RESPONDER_def DIRECTION_RESPONDER_TO_INITIATOR_def
        if_Inl_eq_Inr)
qed

lemma counter_unique:
  fixes n n' t t' d d' :: int
  assumes "n * 8 + (t - 1) * 2 + d = n' * 8 + (t' - 1) * 2 + d'" "1 \<le> t" "t \<le> 4" "1 \<le> t'" "t' \<le> 4"
    and "0 \<le> d" "d \<le> 1" "0 \<le> d'" "d' \<le> 1"
  shows "n = n' \<and> t = t' \<and> d = d'"
proof -
  define x y where "x = (t - 1) * 2 + d" and "y = (t' - 1) * 2 + d'"
  have x: "0 \<le> x" "x < 8" "0 \<le> y" "y < 8" using assms by (auto simp: x_def y_def)
  have "(n * 8 + x) div 8 = n" "(n' * 8 + y) div 8 = n'" using x by simp_all
  moreover have e: "n * 8 + x = n' * 8 + y" using assms(1) by (simp add: x_def y_def)
  ultimately have n: "n = n'" by metis
  then have "x = y" using e by simp
  moreover have "x div 2 = t - 1" "y div 2 = t' - 1" using assms by (auto simp: x_def y_def)
  ultimately have "t = t'" by simp
  with n \<open>x = y\<close> show ?thesis by (simp add: x_def y_def)
qed

text \<open>
  Route tags exist for all inputs in their documented ranges, never raising from the fixed
  widths, since the counter stays below 2^35; and epoch and counter together determine the second,
  the message index, the envelope type and the direction, so different messages of one second have
  different tag inputs.
\<close>

theorem route_coordinates_injective:
  "(route_coordinates ms n t d = Inr (e, k) \<and> route_coordinates ms' n' t' d' = Inr (e, k) \<longrightarrow>
      ms div 1000 = ms' div 1000 \<and> n = n' \<and> t = t' \<and> d = d' \<and> 0 \<le> k \<and> k < 2 ^ 35) \<and>
   ((\<exists>tag. derive_route_tag root ms n t d = Inr tag) \<longleftrightarrow>
      length root = 32 \<and> 0 \<le> ms \<and> ms < 2 ^ 64 \<and> 0 \<le> n \<and> n < 2 ^ 32 \<and> 1 \<le> t \<and> t \<le> 4 \<and> (d = 0 \<or> d = 1))"
proof (rule conjI)
  show "route_coordinates ms n t d = Inr (e, k) \<and> route_coordinates ms' n' t' d' = Inr (e, k) \<longrightarrow>
      ms div 1000 = ms' div 1000 \<and> n = n' \<and> t = t' \<and> d = d' \<and> 0 \<le> k \<and> k < 2 ^ 35"
    using counter_unique[of n t d n' t' d'] unfolding route_coordinates_iff by auto
  have key: "(\<exists>key. route_direction_key root d = Inr key) \<longleftrightarrow> length root = 32" if "d \<in> {0, 1}"
  proof -
    obtain m where "session_hkdf root None LABEL_ROUTE_MASTER = Inr m" using session_hkdf_total by blast
    moreover obtain k where "session_hkdf m None (LABEL_ROUTE_DIRECTION @ [0] @ [word_of_int d]) = Inr k" using session_hkdf_total by blast
    ultimately show ?thesis using that
      by (auto simp: route_direction_key_def route_master_key_def require_root_def DIRECTION_INITIATOR_TO_RESPONDER_def
          DIRECTION_RESPONDER_TO_INITIATOR_def)
  qed
  have tag: "\<exists>tag. route_tag_derive key e k = Inr tag" if "0 \<le> e" "e < 2 ^ 64" "0 \<le> k" "k < 2 ^ 64" for key e k
    using that by (simp add: route_tag_derive_def to_bytes_def)
  show "(\<exists>tag. derive_route_tag root ms n t d = Inr tag) \<longleftrightarrow>
      length root = 32 \<and> 0 \<le> ms \<and> ms < 2 ^ 64 \<and> 0 \<le> n \<and> n < 2 ^ 32 \<and> 1 \<le> t \<and> t \<le> 4 \<and> (d = 0 \<or> d = 1)"
  proof
    assume "\<exists>tag. derive_route_tag root ms n t d = Inr tag"
    then obtain e k key where c: "route_coordinates ms n t d = Inr (e, k)" "route_direction_key root d = Inr key"
      by (auto simp: derive_route_tag_def bindE_eq_Inr)
    with key show "length root = 32 \<and> 0 \<le> ms \<and> ms < 2 ^ 64 \<and> 0 \<le> n \<and> n < 2 ^ 32 \<and> 1 \<le> t \<and> t \<le> 4 \<and> (d = 0 \<or> d = 1)"
      unfolding route_coordinates_iff by auto
  next
    assume a: "length root = 32 \<and> 0 \<le> ms \<and> ms < 2 ^ 64 \<and> 0 \<le> n \<and> n < 2 ^ 32 \<and> 1 \<le> t \<and> t \<le> 4 \<and> (d = 0 \<or> d = 1)"
    let ?k = "n * 8 + (t - 1) * 2 + d"
    have c: "route_coordinates ms n t d = Inr (ms div 1000, ?k)" unfolding route_coordinates_iff using a by auto
    obtain key where "route_direction_key root d = Inr key" using key a by auto
    moreover have "0 \<le> ms div 1000" "ms div 1000 < 2 ^ 64" "0 \<le> ?k" "?k < 2 ^ 64" using a by auto
    ultimately show "\<exists>tag. derive_route_tag root ms n t d = Inr tag"
      using c tag by (simp add: derive_route_tag_def)
  qed
qed

theorem route_coordinates_injective_witness:
  "route_coordinates 5999 7 2 1 = Inr (5, 59) \<and> route_coordinates 5001 7 2 1 = Inr (5, 59) \<and>
   (5999 :: int) div 1000 = 5001 div 1000 \<and> (59 :: int) < 2 ^ 35"
proof -
  have "route_coordinates 5999 7 2 1 = Inr (5, 59)" "route_coordinates 5001 7 2 1 = Inr (5, 59)"
    unfolding route_coordinates_iff by simp_all
  with route_coordinates_injective[of 5999 7 2 1 5 59 5001 7 2 1 "[]"] show ?thesis by blast
qed

end
