(* ===== verification/Pairing.thy ===== *)
theory Pairing
  imports Session
begin

text \<open>
  Pairing (\<open>pair_init.py\<close>, version 1, and \<open>pair_init_v2.py\<close>, version 2): the signed PairInit and
  PairResponse records, their fixed-width wires, the hashes and keys derived from them, and the
  verification of an offered PairInit against the caller's trusted values. Both versions have the
  same fields; their records are shared here, and what differs (magic, profile, checks, derivations)
  is a definition of each version.
\<close>

section \<open>Constants\<close>

definition PAIR_VERSION :: byte where "PAIR_VERSION = 1"
definition PAIR_SUITE :: byte where "PAIR_SUITE = 1"
definition INIT_MAGIC :: bytes where "INIT_MAGIC = asc ''RVPI1'' @ [0, 0, 0]"
definition RESPONSE_MAGIC :: bytes where "RESPONSE_MAGIC = asc ''RVPR1'' @ [0, 0, 0]"
definition TRANSCRIPT_DOMAIN :: bytes where "TRANSCRIPT_DOMAIN = asc ''ATSAM/v1/transcript''"
definition PAIR_INIT_LABEL :: bytes where "PAIR_INIT_LABEL = asc ''ATSAM/v1/pair-init''"
definition INIT_SIGNING_DOMAIN :: bytes where "INIT_SIGNING_DOMAIN = asc ''rvn1/pair-init''"
definition RESPONSE_SIGNING_DOMAIN :: bytes where "RESPONSE_SIGNING_DOMAIN = asc ''rvn1/pair-response''"
definition CONFIRM_LABEL :: bytes where "CONFIRM_LABEL = asc ''ATSAM/pair-init/v1/confirm''"
definition DEVICE_CERT_HASH_DOMAIN :: bytes where "DEVICE_CERT_HASH_DOMAIN = asc ''rvn1/pair-devcert''"
definition PREKEY_BUNDLE_HASH_DOMAIN :: bytes where "PREKEY_BUNDLE_HASH_DOMAIN = asc ''rvn1/pair-prekey''"
definition SESSION_ID_DOMAIN :: bytes where "SESSION_ID_DOMAIN = asc ''rvn1/pair-session''"
definition INITIATOR_ROLE :: byte where "INITIATOR_ROLE = 0"
definition RESPONDER_ROLE :: byte where "RESPONDER_ROLE = 1"
definition ADDRESS_LEN :: nat where "ADDRESS_LEN = 44"
definition PROFILE_LEN :: nat where "PROFILE_LEN = length PROFILE_ID"

text \<open>The widths of the signed fields behind the profile, in wire order.\<close>

definition INIT_WIDTHS :: "nat list" where
  "INIT_WIDTHS = [44, 44, 16, 32, 32, 32, 32, 32, 32, 32, 32, 32, 4, 4, 1184, 1088, 8, 8]"
definition RESPONSE_WIDTHS :: "nat list" where
  "RESPONSE_WIDTHS = [16, 32, 32, 8, 8, 32]"

definition INIT_SIGNED_PREFIX_LEN :: nat where
  "INIT_SIGNED_PREFIX_LEN = 12 + PROFILE_LEN + sum_list INIT_WIDTHS"
definition INIT_WIRE_LEN :: nat where "INIT_WIRE_LEN = INIT_SIGNED_PREFIX_LEN + 64"
definition RESPONSE_SIGNED_PREFIX_LEN :: nat where
  "RESPONSE_SIGNED_PREFIX_LEN = 12 + PROFILE_LEN + sum_list RESPONSE_WIDTHS"
definition RESPONSE_WIRE_LEN :: nat where "RESPONSE_WIRE_LEN = RESPONSE_SIGNED_PREFIX_LEN + 64"

definition PAIR2_VERSION :: byte where "PAIR2_VERSION = 2"
definition PAIR2_SUITE :: byte where "PAIR2_SUITE = 1"
definition PROFILE2_ID :: bytes where "PROFILE2_ID = asc ''ATSAM/hybrid-ratchet/v2''"
definition PROFILE2_LEN :: nat where "PROFILE2_LEN = length PROFILE2_ID"
definition INIT2_MAGIC :: bytes where "INIT2_MAGIC = asc ''RVPI2'' @ [0, 0, 0]"
definition RESPONSE2_MAGIC :: bytes where "RESPONSE2_MAGIC = asc ''RVPR2'' @ [0, 0, 0]"
definition TRANSCRIPT2_DOMAIN :: bytes where "TRANSCRIPT2_DOMAIN = asc ''ATSAM/v2/transcript''"
definition PAIR2_INIT_LABEL :: bytes where "PAIR2_INIT_LABEL = asc ''ATSAM/v2/pair-init''"
definition INIT2_SIGNING_DOMAIN :: bytes where "INIT2_SIGNING_DOMAIN = asc ''rvn1/pair-init-v2''"
definition RESPONSE2_SIGNING_DOMAIN :: bytes where "RESPONSE2_SIGNING_DOMAIN = asc ''rvn1/pair-response-v2''"
definition CONFIRM2_LABEL :: bytes where "CONFIRM2_LABEL = asc ''ATSAM/v2/pair-init/confirm''"
definition SESSION2_ID_DOMAIN :: bytes where "SESSION2_ID_DOMAIN = asc ''ATSAM/v2/pair-session''"
definition PAIR_EXPAND_INFO_PREFIX :: bytes where
  "PAIR_EXPAND_INFO_PREFIX = asc ''ATSAM/hybrid-ratchet/v2'' @ [0] @ asc ''pair-expand''"
definition INIT2_SIGNED_PREFIX_LEN :: nat where
  "INIT2_SIGNED_PREFIX_LEN = 12 + PROFILE2_LEN + sum_list INIT_WIDTHS"
definition INIT2_WIRE_LEN :: nat where "INIT2_WIRE_LEN = INIT2_SIGNED_PREFIX_LEN + 64"
definition RESPONSE2_SIGNED_PREFIX_LEN :: nat where
  "RESPONSE2_SIGNED_PREFIX_LEN = 12 + PROFILE2_LEN + sum_list RESPONSE_WIDTHS"
definition RESPONSE2_WIRE_LEN :: nat where "RESPONSE2_WIRE_LEN = RESPONSE2_SIGNED_PREFIX_LEN + 64"

section \<open>Records and field checks\<close>

record pair_init =
  pi_initiator_address :: string
  pi_responder_address :: string
  pi_init_id :: bytes
  pi_pairing_nonce :: bytes
  pi_initiator_device_ed_pub :: bytes
  pi_responder_device_ed_pub :: bytes
  pi_initiator_ephemeral_x25519_pub :: bytes
  pi_responder_signed_x25519_pub :: bytes
  pi_responder_one_time_x25519_pub :: bytes
  pi_initiator_device_cert_hash :: bytes
  pi_responder_device_cert_hash :: bytes
  pi_responder_prekey_bundle_hash :: bytes
  pi_signed_prekey_id :: int
  pi_one_time_prekey_id :: int
  pi_responder_mlkem768_ek :: bytes
  pi_mlkem768_ciphertext :: bytes
  pi_created_at_ms :: int
  pi_expires_at_ms :: int
  pi_signature :: bytes

record pair_response =
  pr_init_id :: bytes
  pr_init_hash :: bytes
  pr_responder_device_ed_pub :: bytes
  pr_created_at_ms :: int
  pr_expires_at_ms :: int
  pr_confirmation_tag :: bytes
  pr_signature :: bytes

type_synonym pair_init_v2 = pair_init
type_synonym pair_response_v2 = pair_response

definition pair_u32 :: "int \<Rightarrow> bytes res" where
  "pair_u32 value = (if \<not> (0 \<le> value \<and> value \<le> 0xFFFFFFFF) then Inl (ValueError ''value must fit u32'') else to_bytes value 4)"

definition pair_u64 :: "int \<Rightarrow> bytes res" where
  "pair_u64 value =
     (if \<not> (0 \<le> value \<and> value \<le> 0xFFFFFFFFFFFFFFFF) then Inl (ValueError ''value must fit u64'') else to_bytes value 8)"

definition require_exact :: "bytes \<Rightarrow> nat \<Rightarrow> string \<Rightarrow> bytes res" where
  "require_exact value n field_name =
     (if length value \<noteq> n then Inl (ValueError (field_name @ '' must be exactly '' @ dec_nat n @ '' bytes'')) else Inr value)"

definition pair_address_bytes :: "string \<Rightarrow> string \<Rightarrow> bytes res" where
  "pair_address_bytes value field_name =
     (case address_ascii_bytes value of
        Inl e \<Rightarrow> if is_value_error e then Inl (ValueError (''invalid '' @ field_name)) else Inl e
      | Inr encoded \<Rightarrow>
          if length encoded \<noteq> ADDRESS_LEN then Inl (ValueError (field_name @ '' must be exactly 44 ASCII bytes''))
          else Inr encoded)"

definition pair_validate_time :: "int \<Rightarrow> int \<Rightarrow> unit res" where
  "pair_validate_time created_at_ms expires_at_ms =
     bindE (pair_u64 created_at_ms) (\<lambda>_.
     bindE (pair_u64 expires_at_ms) (\<lambda>_.
     if expires_at_ms \<le> created_at_ms then Inl (ValueError ''expires_at_ms must be greater than created_at_ms'')
     else Inr ()))"

text \<open>Checks in source order: the first that fails raises. \<open>raise_if\<close> is one \<open>if\<close> that raises.\<close>

definition raise_if :: "bool \<Rightarrow> string \<Rightarrow> unit res" where
  "raise_if b m = (if b then Inl (ValueError m) else Inr ())"

definition unitE :: "'a res \<Rightarrow> unit res" where
  "unitE m = bindE m (\<lambda>_. Inr ())"

definition in_order :: "unit res list \<Rightarrow> unit res" where
  "in_order = checkE (\<lambda>m. m)"

lemma check_iffs [simp]:
  "raise_if b m = Inr u \<longleftrightarrow> \<not> b" "unitE m' = Inr u \<longleftrightarrow> (\<exists>x. m' = Inr x)"
  "in_order ms = Inr u \<longleftrightarrow> (\<forall>m \<in> set ms. m = Inr ())"
  by (auto simp: raise_if_def unitE_def in_order_def bindE_eq_Inr checkE_iff)

lemma pair_u_iff: "pair_u32 n = Inr b \<longleftrightarrow> uint_fits 4 n \<and> b = be_bytes 4 n"
  "pair_u64 n = Inr b \<longleftrightarrow> uint_fits 8 n \<and> b = be_bytes 8 n"
  by (auto simp: pair_u32_def pair_u64_def to_bytes_fits uint_fits_def)

lemma require_exact_iff: "require_exact b n m = Inr x \<longleftrightarrow> length b = n \<and> x = b"
  by (auto simp: require_exact_def)

lemma canonical_length: "canonical v \<Longrightarrow> length v = 44"
  by (auto simp: canonical_def rvn_length)

lemma pair_address_iff: "pair_address_bytes a f = Inr b \<longleftrightarrow> canonical a \<and> b = asc a"
proof (cases "address_ascii_bytes a")
  case (Inl e)
  then have "\<not> canonical a" using address_ascii_iff[of a "asc a"] by auto
  with Inl show ?thesis by (simp add: pair_address_bytes_def)
next
  case (Inr x)
  then have "canonical a \<and> x = asc a" using address_ascii_iff by blast
  with Inr show ?thesis by (auto simp: pair_address_bytes_def ADDRESS_LEN_def canonical_length)
qed

lemma pair_time_iff: "pair_validate_time c e = Inr u \<longleftrightarrow> uint_fits 8 c \<and> uint_fits 8 e \<and> c < e"
  by (auto simp: pair_validate_time_def bindE_eq_Inr pair_u_iff if_Inl_eq_Inr)

lemmas pair_iffs = bindE_eq_Inr if_Inl_eq_Inr pair_u_iff require_exact_iff pair_address_iff pair_time_iff

section \<open>PairInit: validation, wire, parsing\<close>

text \<open>\<open>_validate_init\<close> of version 1.\<close>

definition pair_validate_init :: "pair_init \<Rightarrow> bool \<Rightarrow> unit res" where
  "pair_validate_init v require_signature = in_order
     [bindE (pair_address_bytes (pi_initiator_address v) ''initiator_address'') (\<lambda>initiator.
        bindE (pair_address_bytes (pi_responder_address v) ''responder_address'') (\<lambda>responder.
        raise_if (initiator = responder) ''PairInit endpoints must differ'')),
      unitE (require_exact (pi_init_id v) 16 ''init_id''),
      raise_if (pi_init_id v = zeros 16) ''init_id must not be all-zero'',
      unitE (require_exact (pi_pairing_nonce v) 32 ''pairing_nonce''),
      raise_if (pi_pairing_nonce v = zeros 32) ''pairing_nonce must not be all-zero'',
      unitE (require_exact (pi_initiator_device_ed_pub v) 32 ''initiator_device_ed_pub''),
      unitE (require_exact (pi_responder_device_ed_pub v) 32 ''responder_device_ed_pub''),
      raise_if (pi_initiator_device_ed_pub v = zeros 32 \<or> pi_responder_device_ed_pub v = zeros 32)
        ''PairInit device signing keys must not be all-zero'',
      raise_if (pi_initiator_device_ed_pub v = pi_responder_device_ed_pub v) ''PairInit device signing keys must differ'',
      unitE (require_exact (pi_initiator_ephemeral_x25519_pub v) 32 ''initiator_ephemeral_x25519_pub''),
      raise_if (pi_initiator_ephemeral_x25519_pub v = zeros 32) ''initiator_ephemeral_x25519_pub must not be all-zero'',
      unitE (require_exact (pi_responder_signed_x25519_pub v) 32 ''responder_signed_x25519_pub''),
      raise_if (pi_responder_signed_x25519_pub v = zeros 32) ''responder_signed_x25519_pub must not be all-zero'',
      unitE (require_exact (pi_responder_one_time_x25519_pub v) 32 ''responder_one_time_x25519_pub''),
      unitE (require_exact (pi_initiator_device_cert_hash v) 32 ''initiator_device_cert_hash''),
      unitE (require_exact (pi_responder_device_cert_hash v) 32 ''responder_device_cert_hash''),
      unitE (require_exact (pi_responder_prekey_bundle_hash v) 32 ''responder_prekey_bundle_hash''),
      raise_if (list_ex (\<lambda>digest. digest = zeros 32)
          [pi_initiator_device_cert_hash v, pi_responder_device_cert_hash v, pi_responder_prekey_bundle_hash v])
        ''certificate and prekey hashes must not be all-zero'',
      unitE (pair_u32 (pi_signed_prekey_id v)),
      raise_if (pi_signed_prekey_id v = 0) ''signed_prekey_id must be non-zero'',
      unitE (pair_u32 (pi_one_time_prekey_id v)),
      (if pi_one_time_prekey_id v = 0
       then raise_if (pi_responder_one_time_x25519_pub v \<noteq> zeros 32)
              ''zero one_time_prekey_id requires an all-zero one-time key slot''
       else raise_if (pi_responder_one_time_x25519_pub v = zeros 32)
              ''non-zero one_time_prekey_id requires a one-time X25519 key''),
      unitE (require_exact (pi_responder_mlkem768_ek v) 1184 ''responder_mlkem768_ek''),
      raise_if (pi_responder_mlkem768_ek v = zeros 1184) ''responder_mlkem768_ek must not be all-zero'',
      unitE (require_exact (pi_mlkem768_ciphertext v) 1088 ''mlkem768_ciphertext''),
      raise_if (pi_mlkem768_ciphertext v = zeros 1088) ''mlkem768_ciphertext must not be all-zero'',
      pair_validate_time (pi_created_at_ms v) (pi_expires_at_ms v),
      (if require_signature then unitE (require_exact (pi_signature v) 64 ''signature'') else Inr ())]"

text \<open>\<open>_validate_init\<close> of version 2.\<close>

definition pair2_validate_init :: "pair_init_v2 \<Rightarrow> bool \<Rightarrow> unit res" where
  "pair2_validate_init v require_signature = in_order
     [bindE (pair_address_bytes (pi_initiator_address v) ''initiator_address'') (\<lambda>initiator.
        bindE (pair_address_bytes (pi_responder_address v) ''responder_address'') (\<lambda>responder.
        raise_if (initiator = responder) ''PairInit endpoints must differ'')),
      unitE (require_exact (pi_init_id v) 16 ''init_id''),
      raise_if (pi_init_id v = zeros 16) ''init_id must not be all-zero'',
      unitE (require_exact (pi_pairing_nonce v) 32 ''pairing_nonce''),
      raise_if (pi_pairing_nonce v = zeros 32) ''pairing_nonce must not be all-zero'',
      unitE (require_exact (pi_initiator_device_ed_pub v) 32 ''initiator_device_ed_pub''),
      unitE (require_exact (pi_responder_device_ed_pub v) 32 ''responder_device_ed_pub''),
      raise_if (pi_initiator_device_ed_pub v = pi_responder_device_ed_pub v) ''PairInit device signing keys must differ'',
      unitE (require_exact (pi_initiator_ephemeral_x25519_pub v) 32 ''initiator_ephemeral_x25519_pub''),
      unitE (require_exact (pi_responder_signed_x25519_pub v) 32 ''responder_signed_x25519_pub''),
      raise_if (pi_responder_signed_x25519_pub v = zeros 32) ''responder_signed_x25519_pub (SPK) must not be all-zero'',
      unitE (require_exact (pi_responder_one_time_x25519_pub v) 32 ''responder_one_time_x25519_pub''),
      unitE (require_exact (pi_initiator_device_cert_hash v) 32 ''initiator_device_cert_hash''),
      unitE (require_exact (pi_responder_device_cert_hash v) 32 ''responder_device_cert_hash''),
      unitE (require_exact (pi_responder_prekey_bundle_hash v) 32 ''responder_prekey_bundle_hash''),
      unitE (pair_u32 (pi_signed_prekey_id v)),
      raise_if (pi_signed_prekey_id v = 0) ''signed_prekey_id must be non-zero'',
      unitE (pair_u32 (pi_one_time_prekey_id v)),
      (if pi_one_time_prekey_id v = 0
       then raise_if (pi_responder_one_time_x25519_pub v \<noteq> zeros 32)
              ''zero one_time_prekey_id requires an all-zero one-time key slot''
       else raise_if (pi_responder_one_time_x25519_pub v = zeros 32)
              ''non-zero one_time_prekey_id requires a one-time X25519 key''),
      unitE (require_exact (pi_responder_mlkem768_ek v) 1184 ''responder_mlkem768_ek''),
      unitE (require_exact (pi_mlkem768_ciphertext v) 1088 ''mlkem768_ciphertext''),
      pair_validate_time (pi_created_at_ms v) (pi_expires_at_ms v),
      (if require_signature then unitE (require_exact (pi_signature v) 64 ''signature'') else Inr ())]"

text \<open>The head of every pairing wire, and the fields behind it as both versions join them.\<close>

definition pair_head :: "bytes \<Rightarrow> byte \<Rightarrow> byte \<Rightarrow> byte \<Rightarrow> bytes \<Rightarrow> bytes" where
  "pair_head magic version suite role profile = magic @ [version, suite, role, of_nat (length profile)] @ profile"

definition init_parts :: "pair_init \<Rightarrow> bytes res list" where
  "init_parts v =
     [pair_address_bytes (pi_initiator_address v) ''initiator_address'',
      pair_address_bytes (pi_responder_address v) ''responder_address'',
      Inr (pi_init_id v), Inr (pi_pairing_nonce v), Inr (pi_initiator_device_ed_pub v), Inr (pi_responder_device_ed_pub v),
      Inr (pi_initiator_ephemeral_x25519_pub v), Inr (pi_responder_signed_x25519_pub v),
      Inr (pi_responder_one_time_x25519_pub v), Inr (pi_initiator_device_cert_hash v),
      Inr (pi_responder_device_cert_hash v), Inr (pi_responder_prekey_bundle_hash v),
      pair_u32 (pi_signed_prekey_id v), pair_u32 (pi_one_time_prekey_id v), Inr (pi_responder_mlkem768_ek v),
      Inr (pi_mlkem768_ciphertext v), pair_u64 (pi_created_at_ms v), pair_u64 (pi_expires_at_ms v)]"

definition init_signing_bytes :: "pair_init \<Rightarrow> bytes res" where
  "init_signing_bytes v =
     bindE (pair_validate_init v False) (\<lambda>_.
     bindE (joinE (Inr (pair_head INIT_MAGIC PAIR_VERSION PAIR_SUITE INITIATOR_ROLE PROFILE_ID) # init_parts v)) (\<lambda>out.
     if length out \<noteq> INIT_SIGNED_PREFIX_LEN then Inl (AssertionError ''PairInit canonical length mismatch'')
     else Inr (INIT_SIGNING_DOMAIN @ out)))"

definition init2_signing_bytes :: "pair_init_v2 \<Rightarrow> bytes res" where
  "init2_signing_bytes v =
     bindE (pair2_validate_init v False) (\<lambda>_.
     bindE (joinE (Inr (pair_head INIT2_MAGIC PAIR2_VERSION PAIR2_SUITE INITIATOR_ROLE PROFILE2_ID) # init_parts v)) (\<lambda>out.
     if length out \<noteq> INIT2_SIGNED_PREFIX_LEN then Inl (AssertionError ''PairInit V2 canonical length mismatch'')
     else Inr (INIT2_SIGNING_DOMAIN @ out)))"

definition encode_init :: "pair_init \<Rightarrow> bytes res" where
  "encode_init v =
     bindE (pair_validate_init v True) (\<lambda>_.
     bindE (init_signing_bytes v) (\<lambda>sb.
     let wire = drop (length INIT_SIGNING_DOMAIN) sb @ pi_signature v
     in if length wire \<noteq> INIT_WIRE_LEN then Inl (AssertionError ''PairInit wire length mismatch'') else Inr wire))"

definition encode_init2 :: "pair_init_v2 \<Rightarrow> bytes res" where
  "encode_init2 v =
     bindE (pair2_validate_init v True) (\<lambda>_.
     bindE (init2_signing_bytes v) (\<lambda>sb.
     let wire = drop (length INIT2_SIGNING_DOMAIN) sb @ pi_signature v
     in if length wire \<noteq> INIT2_WIRE_LEN then Inl (AssertionError ''PairInit V2 wire length mismatch'') else Inr wire))"

text \<open>The fields cut off one after the other by \<open>take\<close>; the addresses are decoded first.\<close>

definition init_of_fields :: "bytes list \<Rightarrow> pair_init res" where
  "init_of_fields f =
     (case bindE (ascii_decode (f ! 0)) (\<lambda>a. bindE (ascii_decode (f ! 1)) (\<lambda>b. Inr (a, b))) of
        Inl _ \<Rightarrow> Inl (ValueError ''PairInit address is not ASCII'')
      | Inr (initiator_address, responder_address) \<Rightarrow> Inr
         \<lparr>pi_initiator_address = initiator_address, pi_responder_address = responder_address, pi_init_id = f ! 2,
          pi_pairing_nonce = f ! 3, pi_initiator_device_ed_pub = f ! 4, pi_responder_device_ed_pub = f ! 5,
          pi_initiator_ephemeral_x25519_pub = f ! 6, pi_responder_signed_x25519_pub = f ! 7,
          pi_responder_one_time_x25519_pub = f ! 8, pi_initiator_device_cert_hash = f ! 9,
          pi_responder_device_cert_hash = f ! 10, pi_responder_prekey_bundle_hash = f ! 11,
          pi_signed_prekey_id = from_bytes (f ! 12), pi_one_time_prekey_id = from_bytes (f ! 13),
          pi_responder_mlkem768_ek = f ! 14, pi_mlkem768_ciphertext = f ! 15, pi_created_at_ms = from_bytes (f ! 16),
          pi_expires_at_ms = from_bytes (f ! 17), pi_signature = f ! 18\<rparr>)"

definition decode_init :: "bytes \<Rightarrow> pair_init res" where
  "decode_init wire =
     (if length wire \<noteq> INIT_WIRE_LEN then Inl (ValueError ''PairInit wire must be exactly 2788 bytes'')
      else if take 8 wire \<noteq> INIT_MAGIC then Inl (ValueError ''PairInit magic mismatch'')
      else if wire ! 8 \<noteq> PAIR_VERSION \<or> wire ! 9 \<noteq> PAIR_SUITE \<or> wire ! 10 \<noteq> INITIATOR_ROLE
      then Inl (ValueError ''PairInit version, suite, or role mismatch'')
      else if unat (wire ! 11) \<noteq> PROFILE_LEN \<or> slice wire 12 (12 + PROFILE_LEN) \<noteq> PROFILE_ID
      then Inl (ValueError ''PairInit profile mismatch'')
      else bindE (init_of_fields (cut (INIT_WIDTHS @ [64]) (drop (12 + PROFILE_LEN) wire))) (\<lambda>v.
           if 12 + PROFILE_LEN + sum_list (INIT_WIDTHS @ [64]) \<noteq> length wire then Inl (ValueError ''PairInit trailing bytes'')
           else bindE (pair_validate_init v True) (\<lambda>_. Inr v)))"

definition decode_init2 :: "bytes \<Rightarrow> pair_init_v2 res" where
  "decode_init2 wire =
     (if 8 \<le> length wire \<and> take 8 wire = asc ''RVPI1'' @ [0, 0, 0]
      then Inl (ValueError ''PairInit V1 must not be reinterpreted as V2'')
      else if length wire \<noteq> INIT2_WIRE_LEN then Inl (ValueError ''PairInit V2 wire must be exactly 2787 bytes'')
      else if take 8 wire \<noteq> INIT2_MAGIC then Inl (ValueError ''PairInit V2 magic mismatch'')
      else if wire ! 8 \<noteq> PAIR2_VERSION \<or> wire ! 9 \<noteq> PAIR2_SUITE \<or> wire ! 10 \<noteq> INITIATOR_ROLE
      then Inl (ValueError ''PairInit V2 version, suite, or role mismatch'')
      else if unat (wire ! 11) \<noteq> PROFILE2_LEN \<or> slice wire 12 (12 + PROFILE2_LEN) \<noteq> PROFILE2_ID
      then Inl (ValueError ''PairInit V2 profile mismatch'')
      else bindE (init_of_fields (cut (INIT_WIDTHS @ [64]) (drop (12 + PROFILE2_LEN) wire))) (\<lambda>v.
           if 12 + PROFILE2_LEN + sum_list (INIT_WIDTHS @ [64]) \<noteq> length wire then Inl (ValueError ''PairInit V2 trailing bytes'')
           else bindE (pair2_validate_init v True) (\<lambda>_. Inr v)))"

section \<open>PairResponse\<close>

definition pair_validate_response :: "pair_response \<Rightarrow> bool \<Rightarrow> unit res" where
  "pair_validate_response v require_signature = in_order
     [unitE (require_exact (pr_init_id v) 16 ''init_id''),
      raise_if (pr_init_id v = zeros 16) ''init_id must not be all-zero'',
      unitE (require_exact (pr_init_hash v) 32 ''init_hash''),
      unitE (require_exact (pr_responder_device_ed_pub v) 32 ''responder_device_ed_pub''),
      pair_validate_time (pr_created_at_ms v) (pr_expires_at_ms v),
      unitE (require_exact (pr_confirmation_tag v) 32 ''confirmation_tag''),
      raise_if (list_ex (\<lambda>fld. fld = zeros (length fld)) [pr_init_hash v, pr_responder_device_ed_pub v, pr_confirmation_tag v])
        ''PairResponse fixed fields must not be all-zero'',
      (if require_signature then unitE (require_exact (pr_signature v) 64 ''signature'') else Inr ())]"

definition pair2_validate_response :: "pair_response_v2 \<Rightarrow> bool \<Rightarrow> unit res" where
  "pair2_validate_response v require_signature = in_order
     [unitE (require_exact (pr_init_id v) 16 ''init_id''),
      raise_if (pr_init_id v = zeros 16) ''init_id must not be all-zero'',
      unitE (require_exact (pr_init_hash v) 32 ''init_hash''),
      unitE (require_exact (pr_responder_device_ed_pub v) 32 ''responder_device_ed_pub''),
      pair_validate_time (pr_created_at_ms v) (pr_expires_at_ms v),
      unitE (require_exact (pr_confirmation_tag v) 32 ''confirmation_tag''),
      (if require_signature then unitE (require_exact (pr_signature v) 64 ''signature'') else Inr ())]"

definition response_parts :: "pair_response \<Rightarrow> bytes res list" where
  "response_parts v =
     [Inr (pr_init_id v), Inr (pr_init_hash v), Inr (pr_responder_device_ed_pub v), pair_u64 (pr_created_at_ms v),
      pair_u64 (pr_expires_at_ms v), Inr (pr_confirmation_tag v)]"

definition response_signing_bytes :: "pair_response \<Rightarrow> bytes res" where
  "response_signing_bytes v =
     bindE (pair_validate_response v False) (\<lambda>_.
     bindE (joinE (Inr (pair_head RESPONSE_MAGIC PAIR_VERSION PAIR_SUITE RESPONDER_ROLE PROFILE_ID) # response_parts v)) (\<lambda>out.
     if length out \<noteq> RESPONSE_SIGNED_PREFIX_LEN then Inl (AssertionError ''PairResponse canonical length mismatch'')
     else Inr (RESPONSE_SIGNING_DOMAIN @ out)))"

definition response2_signing_bytes :: "pair_response_v2 \<Rightarrow> bytes res" where
  "response2_signing_bytes v =
     bindE (pair2_validate_response v False) (\<lambda>_.
     bindE (joinE (Inr (pair_head RESPONSE2_MAGIC PAIR2_VERSION PAIR2_SUITE RESPONDER_ROLE PROFILE2_ID) # response_parts v)) (\<lambda>out.
     if length out \<noteq> RESPONSE2_SIGNED_PREFIX_LEN then Inl (AssertionError ''PairResponse V2 canonical length mismatch'')
     else Inr (RESPONSE2_SIGNING_DOMAIN @ out)))"

definition encode_response :: "pair_response \<Rightarrow> bytes res" where
  "encode_response v =
     bindE (pair_validate_response v True) (\<lambda>_.
     bindE (response_signing_bytes v) (\<lambda>sb.
     let wire = drop (length RESPONSE_SIGNING_DOMAIN) sb @ pr_signature v
     in if length wire \<noteq> RESPONSE_WIRE_LEN then Inl (AssertionError ''PairResponse wire length mismatch'') else Inr wire))"

definition encode_response2 :: "pair_response_v2 \<Rightarrow> bytes res" where
  "encode_response2 v =
     bindE (pair2_validate_response v True) (\<lambda>_.
     bindE (response2_signing_bytes v) (\<lambda>sb.
     let wire = drop (length RESPONSE2_SIGNING_DOMAIN) sb @ pr_signature v
     in if length wire \<noteq> RESPONSE2_WIRE_LEN then Inl (AssertionError ''PairResponse V2 wire length mismatch'') else Inr wire))"

definition response_of_fields :: "bytes list \<Rightarrow> pair_response" where
  "response_of_fields f =
     \<lparr>pr_init_id = f ! 0, pr_init_hash = f ! 1, pr_responder_device_ed_pub = f ! 2, pr_created_at_ms = from_bytes (f ! 3),
      pr_expires_at_ms = from_bytes (f ! 4), pr_confirmation_tag = f ! 5, pr_signature = f ! 6\<rparr>"

definition decode_response :: "bytes \<Rightarrow> pair_response res" where
  "decode_response wire =
     (if length wire \<noteq> RESPONSE_WIRE_LEN then Inl (ValueError ''PairResponse wire must be exactly 228 bytes'')
      else if take 8 wire \<noteq> RESPONSE_MAGIC then Inl (ValueError ''PairResponse magic mismatch'')
      else if wire ! 8 \<noteq> PAIR_VERSION \<or> wire ! 9 \<noteq> PAIR_SUITE \<or> wire ! 10 \<noteq> RESPONDER_ROLE
      then Inl (ValueError ''PairResponse version, suite, or role mismatch'')
      else if unat (wire ! 11) \<noteq> PROFILE_LEN then Inl (ValueError ''PairResponse profile mismatch'')
      else if slice wire 12 (12 + PROFILE_LEN) \<noteq> PROFILE_ID then Inl (ValueError ''PairResponse profile mismatch'')
      else let v = response_of_fields (cut (RESPONSE_WIDTHS @ [64]) (drop (12 + PROFILE_LEN) wire)) in
           if 12 + PROFILE_LEN + sum_list (RESPONSE_WIDTHS @ [64]) \<noteq> length wire
           then Inl (ValueError ''PairResponse trailing bytes'')
           else bindE (pair_validate_response v True) (\<lambda>_. Inr v))"

definition decode_response2 :: "bytes \<Rightarrow> pair_response_v2 res" where
  "decode_response2 wire =
     (if length wire \<noteq> RESPONSE2_WIRE_LEN then Inl (ValueError ''PairResponse V2 wire must be exactly 227 bytes'')
      else if take 8 wire = asc ''RVPR1'' @ [0, 0, 0]
      then Inl (ValueError ''PairResponse V1 must not be reinterpreted as V2'')
      else if take 8 wire \<noteq> RESPONSE2_MAGIC then Inl (ValueError ''PairResponse V2 magic mismatch'')
      else if wire ! 8 \<noteq> PAIR2_VERSION \<or> wire ! 9 \<noteq> PAIR2_SUITE \<or> wire ! 10 \<noteq> RESPONDER_ROLE
      then Inl (ValueError ''PairResponse V2 version, suite, or role mismatch'')
      else if unat (wire ! 11) \<noteq> PROFILE2_LEN \<or> slice wire 12 (12 + PROFILE2_LEN) \<noteq> PROFILE2_ID
      then Inl (ValueError ''PairResponse V2 profile mismatch'')
      else let v = response_of_fields (cut (RESPONSE_WIDTHS @ [64]) (drop (12 + PROFILE2_LEN) wire)) in
           if 12 + PROFILE2_LEN + sum_list (RESPONSE_WIDTHS @ [64]) \<noteq> length wire
           then Inl (ValueError ''PairResponse V2 trailing bytes'')
           else bindE (pair2_validate_response v True) (\<lambda>_. Inr v))"

section \<open>Hashes, roots and confirmation\<close>

definition device_certificate_hash :: "bytes \<Rightarrow> bytes \<Rightarrow> bytes \<Rightarrow> bytes res" where
  "device_certificate_hash identity_ed25519_pub certificate_signing_bytes signature =
     bindE (require_exact identity_ed25519_pub 32 ''identity_ed25519_pub'') (\<lambda>_.
     if certificate_signing_bytes = [] then Inl (ValueError ''certificate_signing_bytes must be non-empty bytes'')
     else bindE (require_exact signature 64 ''certificate signature'') (\<lambda>_.
       Inr (sha256 (DEVICE_CERT_HASH_DOMAIN @ identity_ed25519_pub @ certificate_signing_bytes @ signature))))"

definition prekey_bundle_hash :: "bytes \<Rightarrow> bytes \<Rightarrow> bytes res" where
  "prekey_bundle_hash bundle_signing_bytes signature =
     (if bundle_signing_bytes = [] then Inl (ValueError ''bundle_signing_bytes must be non-empty bytes'')
      else bindE (require_exact signature 64 ''prekey signature'') (\<lambda>_.
        Inr (sha256 (PREKEY_BUNDLE_HASH_DOMAIN @ bundle_signing_bytes @ signature))))"

definition pair_hkdf :: "bytes \<Rightarrow> bytes \<Rightarrow> bytes \<Rightarrow> bytes res" where
  "pair_hkdf ikm salt info =
     bindE (require_exact salt 32 ''HKDF salt'') (\<lambda>_. Inr (hmac_sha256 (hmac_sha256 salt ikm) (info @ [1])))"

definition init_hash :: "pair_init \<Rightarrow> bytes res" where
  "init_hash v = bindE (encode_init v) (\<lambda>wire. Inr (sha256 (INIT_SIGNING_DOMAIN @ wire)))"

definition pair_session_id :: "pair_init \<Rightarrow> bytes res" where
  "pair_session_id v = bindE (init_hash v) (\<lambda>h. Inr (sha256 (SESSION_ID_DOMAIN @ h)))"

definition transcript_material :: "pair_init \<Rightarrow> bytes res" where
  "transcript_material v =
     bindE (pair_validate_init v True) (\<lambda>_. bindE (encode_init v) (\<lambda>wire. Inr (INIT_SIGNING_DOMAIN @ wire)))"

definition transcript_hash :: "pair_init \<Rightarrow> bytes res" where
  "transcript_hash v = bindE (transcript_material v) (\<lambda>m. Inr (sha256 (TRANSCRIPT_DOMAIN @ m)))"

definition derive_provisional_root :: "bytes \<Rightarrow> bytes \<Rightarrow> pair_init \<Rightarrow> bytes res" where
  "derive_provisional_root z_x z_pq v =
     bindE (require_exact z_x 32 ''z_x'') (\<lambda>_.
     bindE (require_exact z_pq 32 ''z_pq'') (\<lambda>_.
     bindE (transcript_hash v) (\<lambda>digest. pair_hkdf (z_x @ z_pq) digest (PAIR_INIT_LABEL @ digest))))"

definition confirmation_tag :: "bytes \<Rightarrow> bytes \<Rightarrow> bytes res" where
  "confirmation_tag root init_digest =
     bindE (require_exact root 32 ''root'') (\<lambda>_.
     bindE (require_exact init_digest 32 ''init_hash'') (\<lambda>_.
     Inr (hmac_sha256 root (CONFIRM_LABEL @ [0] @ init_digest))))"

record pair_expand_v2 =
  pe_sk_ec :: bytes
  pe_sk_scka :: bytes
  pe_k_route_master :: bytes
  pe_k_confirm :: bytes
  pe_transcript_hash :: bytes
  pe_init_hash_v2 :: bytes
  pe_session_id :: bytes

definition init_hash_v2 :: "bytes \<Rightarrow> bytes res" where
  "init_hash_v2 wire = bindE (require_exact wire INIT2_WIRE_LEN ''pair_init_v2_wire'') (\<lambda>_. Inr (sha256 (PAIR2_INIT_LABEL @ wire)))"

definition transcript2_hash :: "bytes \<Rightarrow> bytes res" where
  "transcript2_hash wire =
     bindE (require_exact wire INIT2_WIRE_LEN ''pair_init_v2_wire'') (\<lambda>_. Inr (sha256 (TRANSCRIPT2_DOMAIN @ PAIR2_INIT_LABEL @ wire)))"

definition pair_expand :: "bytes \<Rightarrow> bytes \<Rightarrow> bytes \<Rightarrow> pair_expand_v2 res" where
  "pair_expand z_x z_pq wire =
     bindE (require_exact z_x 32 ''z_x'') (\<lambda>_.
     bindE (require_exact z_pq 32 ''z_pq'') (\<lambda>_.
     bindE (transcript2_hash wire) (\<lambda>th.
     bindE (init_hash_v2 wire) (\<lambda>ih.
     bindE (hkdf_sha256 (z_x @ z_pq) th (PAIR_EXPAND_INFO_PREFIX @ th) 128) (\<lambda>okm.
     Inr \<lparr>pe_sk_ec = slice okm 0 32, pe_sk_scka = slice okm 32 64, pe_k_route_master = slice okm 64 96,
          pe_k_confirm = slice okm 96 128, pe_transcript_hash = th, pe_init_hash_v2 = ih,
          pe_session_id = sha256 (SESSION2_ID_DOMAIN @ ih)\<rparr>)))))"

definition confirmation_tag2 :: "bytes \<Rightarrow> bytes \<Rightarrow> bytes res" where
  "confirmation_tag2 k_confirm init_digest =
     bindE (require_exact k_confirm 32 ''k_confirm'') (\<lambda>_.
     bindE (require_exact init_digest 32 ''init_hash_v2'') (\<lambda>_.
     Inr (hmac_sha256 k_confirm (CONFIRM2_LABEL @ [0] @ init_digest))))"

text \<open>A table of offsets: each name at the position reached so far, and the total length at the end.\<close>

primrec offsets_from :: "nat \<Rightarrow> (string \<times> nat) list \<Rightarrow> (string, nat) dict" where
  "offsets_from p [] = [(''total_len'', p)]"
| "offsets_from p (nw # rest) = (fst nw, p) # offsets_from (p + snd nw) rest"

definition init2_wire_offsets :: "(string, nat) dict" where
  "init2_wire_offsets = offsets_from 0
     [(''magic'', 8), (''version'', 1), (''suite'', 1), (''role'', 1), (''profile_len'', 1), (''profile'', PROFILE2_LEN),
      (''initiator_address'', ADDRESS_LEN), (''responder_address'', ADDRESS_LEN), (''init_id'', 16),
      (''pairing_nonce'', 32), (''initiator_device_ed_pub'', 32), (''responder_device_ed_pub'', 32),
      (''initiator_ephemeral_x25519_pub'', 32), (''responder_signed_x25519_pub'', 32),
      (''responder_one_time_x25519_pub'', 32), (''initiator_device_cert_hash'', 32), (''responder_device_cert_hash'', 32),
      (''responder_prekey_bundle_hash'', 32), (''signed_prekey_id'', 4), (''one_time_prekey_id'', 4),
      (''responder_mlkem768_ek'', 1184), (''mlkem768_ciphertext'', 1088), (''created_at_ms'', 8), (''expires_at_ms'', 8),
      (''signature'', 64)]"

section \<open>Verification\<close>

text \<open>The caller's trusted values for \<open>verify_init\<close>.\<close>

record pair_expected =
  px_initiator_device_ed_pub :: bytes
  px_responder_device_ed_pub :: bytes
  px_responder_signed_x25519_pub :: bytes
  px_responder_one_time_x25519_pub :: bytes
  px_initiator_device_cert_hash :: bytes
  px_responder_device_cert_hash :: bytes
  px_responder_prekey_bundle_hash :: bytes
  px_signed_prekey_id :: int
  px_one_time_prekey_id :: int
  px_responder_mlkem768_ek :: bytes
  px_trust_not_before_ms :: int
  px_trust_not_after_ms :: int

text \<open>Tests in source order, each returning \<open>False\<close> at once when it fails.\<close>

primrec all_true :: "bool res list \<Rightarrow> bool res" where
  "all_true [] = Inr True"
| "all_true (m # ms) = bindE m (\<lambda>b. if b then all_true ms else Inr False)"

definition pinned :: "bytes \<Rightarrow> bytes \<Rightarrow> nat \<Rightarrow> string \<Rightarrow> bool res" where
  "pinned value expected n field_name = bindE (require_exact expected n field_name) (\<lambda>e. Inr (value = e))"

definition verify_init :: "crypto \<Rightarrow> pair_init \<Rightarrow> bytes \<Rightarrow> bytes \<Rightarrow> pair_expected \<Rightarrow> int \<Rightarrow> bool res" where
  "verify_init c v initiator_identity_ed_pub responder_identity_ed_pub x now_ms = except_false
     (bindE (pair_validate_init v True) (\<lambda>_. all_true
       [bindE (require_exact initiator_identity_ed_pub 32 ''initiator_identity_ed_pub'') (\<lambda>k.
          bindE (address_encode k) (\<lambda>a. Inr (a = pi_initiator_address v))),
        bindE (require_exact responder_identity_ed_pub 32 ''responder_identity_ed_pub'') (\<lambda>k.
          bindE (address_encode k) (\<lambda>a. Inr (a = pi_responder_address v))),
        pinned (pi_initiator_device_ed_pub v) (px_initiator_device_ed_pub x) 32 ''expected_initiator_device_ed_pub'',
        pinned (pi_responder_device_ed_pub v) (px_responder_device_ed_pub x) 32 ''expected_responder_device_ed_pub'',
        pinned (pi_responder_signed_x25519_pub v) (px_responder_signed_x25519_pub x) 32 ''expected_responder_signed_x25519_pub'',
        pinned (pi_responder_one_time_x25519_pub v) (px_responder_one_time_x25519_pub x) 32
          ''expected_responder_one_time_x25519_pub'',
        pinned (pi_initiator_device_cert_hash v) (px_initiator_device_cert_hash x) 32 ''expected_initiator_device_cert_hash'',
        pinned (pi_responder_device_cert_hash v) (px_responder_device_cert_hash x) 32 ''expected_responder_device_cert_hash'',
        pinned (pi_responder_prekey_bundle_hash v) (px_responder_prekey_bundle_hash x) 32
          ''expected_responder_prekey_bundle_hash'',
        Inr (pi_signed_prekey_id v = px_signed_prekey_id x),
        Inr (pi_one_time_prekey_id v = px_one_time_prekey_id x),
        pinned (pi_responder_mlkem768_ek v) (px_responder_mlkem768_ek x) 1184 ''expected_responder_mlkem768_ek'',
        Inr (\<not> (pi_created_at_ms v < px_trust_not_before_ms x \<or> pi_expires_at_ms v > px_trust_not_after_ms x)),
        Inr (pi_created_at_ms v \<le> now_ms \<and> now_ms < pi_expires_at_ms v),
        bindE (ed_load_public c (pi_initiator_device_ed_pub v)) (\<lambda>_.
          bindE (init_signing_bytes v) (\<lambda>sb.
          bindE (ed_verify c (pi_initiator_device_ed_pub v) (pi_signature v) sb) (\<lambda>_. Inr True)))]))"

definition verify_response :: "crypto \<Rightarrow> pair_response \<Rightarrow> pair_init \<Rightarrow> bytes \<Rightarrow> int \<Rightarrow> bool res" where
  "verify_response c v accepted_init root now_ms = except_false
     (bindE (pair_validate_response v True) (\<lambda>_.
      if pr_init_id v \<noteq> pi_init_id accepted_init then Inr False
      else bindE (init_hash accepted_init) (\<lambda>digest. all_true
       [Inr (pr_init_hash v = digest),
        Inr (pr_responder_device_ed_pub v = pi_responder_device_ed_pub accepted_init),
        Inr (\<not> (pr_created_at_ms v < pi_created_at_ms accepted_init \<or> pr_created_at_ms v \<ge> pi_expires_at_ms accepted_init \<or>
             pr_expires_at_ms v > pi_expires_at_ms accepted_init)),
        Inr (pr_created_at_ms v \<le> now_ms \<and> now_ms < pr_expires_at_ms v),
        bindE (confirmation_tag root digest) (\<lambda>tag. Inr (compare_digest (pr_confirmation_tag v) tag)),
        bindE (ed_load_public c (pr_responder_device_ed_pub v)) (\<lambda>_.
          bindE (response_signing_bytes v) (\<lambda>sb.
          bindE (ed_verify c (pr_responder_device_ed_pub v) (pr_signature v) sb) (\<lambda>_. Inr True)))])))"

definition verify_init2_signature :: "crypto \<Rightarrow> pair_init_v2 \<Rightarrow> bool res" where
  "verify_init2_signature c v =
     verify_signed c (pi_initiator_device_ed_pub v) (pi_signature v) (init2_signing_bytes v)"

definition verify_response2_signature :: "crypto \<Rightarrow> pair_response_v2 \<Rightarrow> bool res" where
  "verify_response2_signature c v =
     verify_signed c (pr_responder_device_ed_pub v) (pr_signature v) (response2_signing_bytes v)"

section \<open>The wires are canonical\<close>

text \<open>What validation accepts: version 2, and the further checks of version 1.\<close>

definition init2_ok :: "pair_init \<Rightarrow> bool" where
  "init2_ok v \<longleftrightarrow> canonical (pi_initiator_address v) \<and> canonical (pi_responder_address v) \<and>
     pi_initiator_address v \<noteq> pi_responder_address v \<and>
     length (pi_init_id v) = 16 \<and> pi_init_id v \<noteq> zeros 16 \<and> length (pi_pairing_nonce v) = 32 \<and> pi_pairing_nonce v \<noteq> zeros 32 \<and>
     length (pi_initiator_device_ed_pub v) = 32 \<and> length (pi_responder_device_ed_pub v) = 32 \<and>
     pi_initiator_device_ed_pub v \<noteq> pi_responder_device_ed_pub v \<and> length (pi_initiator_ephemeral_x25519_pub v) = 32 \<and>
     length (pi_responder_signed_x25519_pub v) = 32 \<and> pi_responder_signed_x25519_pub v \<noteq> zeros 32 \<and>
     length (pi_responder_one_time_x25519_pub v) = 32 \<and> length (pi_initiator_device_cert_hash v) = 32 \<and>
     length (pi_responder_device_cert_hash v) = 32 \<and> length (pi_responder_prekey_bundle_hash v) = 32 \<and>
     uint_fits 4 (pi_signed_prekey_id v) \<and> pi_signed_prekey_id v \<noteq> 0 \<and> uint_fits 4 (pi_one_time_prekey_id v) \<and>
     (pi_one_time_prekey_id v = 0 \<longleftrightarrow> pi_responder_one_time_x25519_pub v = zeros 32) \<and>
     length (pi_responder_mlkem768_ek v) = 1184 \<and> length (pi_mlkem768_ciphertext v) = 1088 \<and>
     uint_fits 8 (pi_created_at_ms v) \<and> uint_fits 8 (pi_expires_at_ms v) \<and> pi_created_at_ms v < pi_expires_at_ms v"

definition init_ok :: "pair_init \<Rightarrow> bool" where
  "init_ok v \<longleftrightarrow> init2_ok v \<and> pi_initiator_device_ed_pub v \<noteq> zeros 32 \<and> pi_responder_device_ed_pub v \<noteq> zeros 32 \<and>
     pi_initiator_ephemeral_x25519_pub v \<noteq> zeros 32 \<and> pi_initiator_device_cert_hash v \<noteq> zeros 32 \<and>
     pi_responder_device_cert_hash v \<noteq> zeros 32 \<and> pi_responder_prekey_bundle_hash v \<noteq> zeros 32 \<and>
     pi_responder_mlkem768_ek v \<noteq> zeros 1184 \<and> pi_mlkem768_ciphertext v \<noteq> zeros 1088"

lemma pair2_validate_iff: "pair2_validate_init v s = Inr u \<longleftrightarrow> init2_ok v \<and> (s \<longrightarrow> length (pi_signature v) = 64)"
  by (auto simp: pair2_validate_init_def init2_ok_def pair_iffs asc_eq)

lemma pair_validate_iff: "pair_validate_init v s = Inr u \<longleftrightarrow> init_ok v \<and> (s \<longrightarrow> length (pi_signature v) = 64)"
  by (auto simp: pair_validate_init_def init_ok_def init2_ok_def pair_iffs asc_eq)

definition response2_ok :: "pair_response \<Rightarrow> bool" where
  "response2_ok v \<longleftrightarrow> length (pr_init_id v) = 16 \<and> pr_init_id v \<noteq> zeros 16 \<and> length (pr_init_hash v) = 32 \<and>
     length (pr_responder_device_ed_pub v) = 32 \<and> uint_fits 8 (pr_created_at_ms v) \<and> uint_fits 8 (pr_expires_at_ms v) \<and>
     pr_created_at_ms v < pr_expires_at_ms v \<and> length (pr_confirmation_tag v) = 32"

definition response_ok :: "pair_response \<Rightarrow> bool" where
  "response_ok v \<longleftrightarrow> response2_ok v \<and> pr_init_hash v \<noteq> zeros 32 \<and> pr_responder_device_ed_pub v \<noteq> zeros 32 \<and>
     pr_confirmation_tag v \<noteq> zeros 32"

lemma response2_validate_iff: "pair2_validate_response v s = Inr u \<longleftrightarrow> response2_ok v \<and> (s \<longrightarrow> length (pr_signature v) = 64)"
  by (auto simp: pair2_validate_response_def response2_ok_def pair_iffs)

lemma response_validate_iff: "pair_validate_response v s = Inr u \<longleftrightarrow> response_ok v \<and> (s \<longrightarrow> length (pr_signature v) = 64)"
  by (auto simp: pair_validate_response_def response_ok_def response2_ok_def pair_iffs)

text \<open>The signed fields of a valid record, as they lie in the wire.\<close>

definition init_fields :: "pair_init \<Rightarrow> bytes list" where
  "init_fields v =
     [asc (pi_initiator_address v), asc (pi_responder_address v), pi_init_id v, pi_pairing_nonce v,
      pi_initiator_device_ed_pub v, pi_responder_device_ed_pub v, pi_initiator_ephemeral_x25519_pub v,
      pi_responder_signed_x25519_pub v, pi_responder_one_time_x25519_pub v, pi_initiator_device_cert_hash v,
      pi_responder_device_cert_hash v, pi_responder_prekey_bundle_hash v, be_bytes 4 (pi_signed_prekey_id v),
      be_bytes 4 (pi_one_time_prekey_id v), pi_responder_mlkem768_ek v, pi_mlkem768_ciphertext v,
      be_bytes 8 (pi_created_at_ms v), be_bytes 8 (pi_expires_at_ms v)]"

definition response_fields :: "pair_response \<Rightarrow> bytes list" where
  "response_fields v = [pr_init_id v, pr_init_hash v, pr_responder_device_ed_pub v, be_bytes 8 (pr_created_at_ms v),
     be_bytes 8 (pr_expires_at_ms v), pr_confirmation_tag v]"

lemma init_lengths: "init2_ok v \<Longrightarrow> map length (init_fields v) = INIT_WIDTHS"
  by (simp add: init2_ok_def init_fields_def INIT_WIDTHS_def canonical_length)

lemma response_lengths: "response2_ok v \<Longrightarrow> map length (response_fields v) = RESPONSE_WIDTHS"
  by (simp add: response2_ok_def response_fields_def RESPONSE_WIDTHS_def)

lemma join_init_parts: "init2_ok v \<Longrightarrow> joinE (Inr h # init_parts v) = Inr (h @ concat (init_fields v))"
  by (simp add: init_parts_def init_fields_def init2_ok_def pair_iffs[THEN iffD2])

lemma join_response_parts: "response2_ok v \<Longrightarrow> joinE (Inr h # response_parts v) = Inr (h @ concat (response_fields v))"
  by (simp add: response_parts_def response_fields_def response2_ok_def pair_iffs[THEN iffD2])

text \<open>
  The interface of a pairing record: its signing bytes are domain, head and fields, the wire adds the
  signature, and decoding cuts the fields at their widths and validates. The wire is then canonical.
\<close>

locale pair_wire =
  fixes sb enc :: "'a \<Rightarrow> bytes res"
    and dec :: "bytes \<Rightarrow> 'a res"
    and label head :: bytes
    and widths :: "nat list"
    and pieces :: "'a \<Rightarrow> bytes list"
    and sig :: "'a \<Rightarrow> bytes"
    and parse :: "bytes list \<Rightarrow> 'a res"
    and ok :: "'a \<Rightarrow> bool"
  assumes sb_iff: "sb v = Inr m \<longleftrightarrow> ok v \<and> m = label @ head @ concat (pieces v)"
    and enc_iff: "enc v = Inr w \<longleftrightarrow> ok v \<and> length (sig v) = 64 \<and> w = head @ concat (pieces v) @ sig v"
    and dec_iff: "dec w = Inr v \<longleftrightarrow> length w = length head + sum_list widths + 64 \<and> take (length head) w = head \<and>
        parse (cut (widths @ [64]) (drop (length head) w)) = Inr v \<and> ok v \<and> length (sig v) = 64"
    and lengths: "ok v \<Longrightarrow> map length (pieces v) = widths"
    and parse_iff: "ok v \<Longrightarrow> map length f = widths @ [64] \<Longrightarrow> parse f = Inr v \<longleftrightarrow> f = pieces v @ [sig v]"
begin

theorem dec_enc: "dec w = Inr v \<longleftrightarrow> enc v = Inr w"
proof
  assume "dec w = Inr v"
  then have d: "length w = length head + sum_list widths + 64" "take (length head) w = head"
    "parse (cut (widths @ [64]) (drop (length head) w)) = Inr v" "ok v" "length (sig v) = 64"
    by (simp_all add: dec_iff)
  let ?f = "cut (widths @ [64]) (drop (length head) w)"
  have l: "sum_list (widths @ [64]) = length (drop (length head) w)" using d(1) by simp
  have "?f = pieces v @ [sig v]" using parse_iff[OF d(4), of ?f] cut_lengths[of "widths @ [64]" "drop (length head) w"] l d(3) by simp
  moreover have "concat ?f = drop (length head) w" using concat_cut[of "widths @ [64]" "drop (length head) w"] l by simp
  ultimately have "drop (length head) w = concat (pieces v) @ sig v" by simp
  then have "w = head @ concat (pieces v) @ sig v" using d(2) append_take_drop_id[of "length head" w] by simp
  with d(4,5) show "enc v = Inr w" by (simp add: enc_iff)
next
  assume "enc v = Inr w"
  then have e: "ok v" "length (sig v) = 64" "w = head @ concat (pieces v) @ sig v" by (simp_all add: enc_iff)
  have m: "map length (pieces v @ [sig v]) = widths @ [64]" using lengths[OF e(1)] e(2) by simp
  then have c: "cut (widths @ [64]) (concat (pieces v @ [sig v])) = pieces v @ [sig v]" by (rule cut_concat_all)
  have "sum_list widths = length (concat (pieces v))" using lengths[OF e(1)] by (simp add: length_concat)
  then show "dec w = Inr v" using e c parse_iff[OF e(1) m] by (simp add: dec_iff)
qed

lemma dec_sb: "dec w = Inr v \<Longrightarrow> sb v = Inr (label @ take (length w - 64) w)"
  unfolding dec_enc by (auto simp: enc_iff sb_iff)

lemma dec_head: "dec w = Inr v \<Longrightarrow> take (length head) w = head"
  by (simp add: dec_iff)

lemma enc_length: "enc v = Inr w \<Longrightarrow> length w = length head + sum_list widths + 64"
  using dec_enc[of w v] by (simp add: dec_iff)

lemma enc_total: "ok v \<Longrightarrow> length (sig v) = 64 \<Longrightarrow> enc v = Inr (head @ concat (pieces v) @ sig v)"
  by (simp add: enc_iff)

end

text \<open>A pairing record is a signed record: its pieces are what the signature covers.\<close>

sublocale pair_wire \<subseteq> signed: signed_record sb label ok "\<lambda>v. head @ concat (pieces v)" pieces
proof unfold_locales
  show "sb v = Inr m \<longleftrightarrow> ok v \<and> m = label @ head @ concat (pieces v)" for v m by (rule sb_iff)
  show "pieces v = pieces w" if "ok v" "ok w" "head @ concat (pieces v) = head @ concat (pieces w)" for v w
  proof -
    have "cut widths (concat (pieces v)) = pieces v" "cut widths (concat (pieces w)) = pieces w"
      using that(1,2) lengths cut_concat_all by blast+
    with that(3) show ?thesis by (metis same_append_eq)
  qed
qed

lemma list7: "length xs = 7 \<Longrightarrow> xs = [xs ! 0, xs ! 1, xs ! 2, xs ! 3, xs ! 4, xs ! 5, xs ! 6]"
  by (rule nth_equalityI) (auto simp: less_Suc_eq numeral_eq_Suc)

lemma list19: "length xs = 19 \<Longrightarrow> xs = [xs ! 0, xs ! 1, xs ! 2, xs ! 3, xs ! 4, xs ! 5, xs ! 6, xs ! 7, xs ! 8, xs ! 9, xs ! 10, xs ! 11, xs ! 12, xs ! 13, xs ! 14, xs ! 15, xs ! 16, xs ! 17, xs ! 18]"
  by (rule nth_equalityI) (auto simp: less_Suc_eq numeral_eq_Suc)

lemma be_field: "length b = k \<Longrightarrow> uint_fits k n \<Longrightarrow> from_bytes b = n \<longleftrightarrow> b = be_bytes k n"
  using be_from_len[of b k] from_be_fits[of k n] by auto

lemma ascii_field: "canonical a \<Longrightarrow> ascii_decode b = Inr a \<longleftrightarrow> b = asc a"
  using address_ascii_iff[of a "asc a"] plain_ascii rvn_encode_plain
  by (auto simp: ascii_decode_iff canonical_def)

lemma pair_init_eq_iff: "(w :: pair_init) = v \<longleftrightarrow>
     pi_initiator_address w = pi_initiator_address v \<and>
     pi_responder_address w = pi_responder_address v \<and>
     pi_init_id w = pi_init_id v \<and>
     pi_pairing_nonce w = pi_pairing_nonce v \<and>
     pi_initiator_device_ed_pub w = pi_initiator_device_ed_pub v \<and>
     pi_responder_device_ed_pub w = pi_responder_device_ed_pub v \<and>
     pi_initiator_ephemeral_x25519_pub w = pi_initiator_ephemeral_x25519_pub v \<and>
     pi_responder_signed_x25519_pub w = pi_responder_signed_x25519_pub v \<and>
     pi_responder_one_time_x25519_pub w = pi_responder_one_time_x25519_pub v \<and>
     pi_initiator_device_cert_hash w = pi_initiator_device_cert_hash v \<and>
     pi_responder_device_cert_hash w = pi_responder_device_cert_hash v \<and>
     pi_responder_prekey_bundle_hash w = pi_responder_prekey_bundle_hash v \<and>
     pi_signed_prekey_id w = pi_signed_prekey_id v \<and>
     pi_one_time_prekey_id w = pi_one_time_prekey_id v \<and>
     pi_responder_mlkem768_ek w = pi_responder_mlkem768_ek v \<and>
     pi_mlkem768_ciphertext w = pi_mlkem768_ciphertext v \<and>
     pi_created_at_ms w = pi_created_at_ms v \<and>
     pi_expires_at_ms w = pi_expires_at_ms v \<and>
     pi_signature w = pi_signature v"
  by (cases w; cases v) simp

lemma init_parse_iff:
  assumes ok: "init2_ok v" and m: "map length f = INIT_WIDTHS @ [64]"
  shows "init_of_fields f = Inr v \<longleftrightarrow> f = init_fields v @ [pi_signature v]"
proof -
  have len: "length f = 19" using arg_cong[OF m, of length] by (simp add: INIT_WIDTHS_def)
  obtain f0 f1 f2 f3 f4 f5 f6 f7 f8 f9 f10 f11 f12 f13 f14 f15 f16 f17 f18
    where f: "f = [f0, f1, f2, f3, f4, f5, f6, f7, f8, f9, f10, f11, f12, f13, f14, f15, f16, f17, f18]"
    using list19[OF len] by (rule that)
  have l: "length f12 = 4" "length f13 = 4" "length f16 = 8" "length f17 = 8"
    using m by (simp_all add: f INIT_WIDTHS_def)
  have b: "from_bytes f12 = pi_signed_prekey_id v \<longleftrightarrow> f12 = be_bytes 4 (pi_signed_prekey_id v)"
    "from_bytes f13 = pi_one_time_prekey_id v \<longleftrightarrow> f13 = be_bytes 4 (pi_one_time_prekey_id v)"
    "from_bytes f16 = pi_created_at_ms v \<longleftrightarrow> f16 = be_bytes 8 (pi_created_at_ms v)"
    "from_bytes f17 = pi_expires_at_ms v \<longleftrightarrow> f17 = be_bytes 8 (pi_expires_at_ms v)"
    using ok l by (simp_all add: be_field init2_ok_def)
  have a: "ascii_decode f0 = Inr (pi_initiator_address v) \<longleftrightarrow> f0 = asc (pi_initiator_address v)"
    "ascii_decode f1 = Inr (pi_responder_address v) \<longleftrightarrow> f1 = asc (pi_responder_address v)"
    using ok by (simp_all add: ascii_field init2_ok_def)
  show ?thesis
  proof (cases "\<exists>x y. ascii_decode f0 = Inr x \<and> ascii_decode f1 = Inr y")
    case True
    then obtain x y where xy: "ascii_decode f0 = Inr x" "ascii_decode f1 = Inr y" by blast
    then have "x = pi_initiator_address v \<longleftrightarrow> f0 = asc (pi_initiator_address v)"
      "y = pi_responder_address v \<longleftrightarrow> f1 = asc (pi_responder_address v)" using a by simp_all
    then show ?thesis
      by (simp add: init_of_fields_def f init_fields_def xy pair_init_eq_iff[of _ v] b del: be_bytes.simps)
  next
    case False
    then have "ascii_decode f0 \<noteq> Inr (pi_initiator_address v) \<or> ascii_decode f1 \<noteq> Inr (pi_responder_address v)" by blast
    then have "f \<noteq> init_fields v @ [pi_signature v]" using a by (auto simp: f init_fields_def simp del: be_bytes.simps)
    moreover have "init_of_fields f \<noteq> Inr v" using False
      by (cases "ascii_decode f0"; cases "ascii_decode f1") (simp_all add: init_of_fields_def f)
    ultimately show ?thesis by simp
  qed
qed

lemma response_parse_iff:
  assumes ok: "response2_ok v" and m: "map length f = RESPONSE_WIDTHS @ [64]"
  shows "response_of_fields f = v \<longleftrightarrow> f = response_fields v @ [pr_signature v]"
proof -
  have len: "length f = 7" using arg_cong[OF m, of length] by (simp add: RESPONSE_WIDTHS_def)
  obtain f0 f1 f2 f3 f4 f5 f6 where f: "f = [f0, f1, f2, f3, f4, f5, f6]"
    using list7[OF len] by (rule that)
  have "length f3 = 8" "length f4 = 8" using m by (simp_all add: f RESPONSE_WIDTHS_def)
  then have "from_bytes f3 = pr_created_at_ms v \<longleftrightarrow> f3 = be_bytes 8 (pr_created_at_ms v)"
    "from_bytes f4 = pr_expires_at_ms v \<longleftrightarrow> f4 = be_bytes 8 (pr_expires_at_ms v)"
    using ok by (simp_all add: be_field response2_ok_def)
  then show ?thesis
    by (cases v) (auto simp: response_of_fields_def f response_fields_def)
qed

lemma length_pair_head: "length magic = 8 \<Longrightarrow> length (pair_head magic v s r profile) = 12 + length profile"
  by (simp add: pair_head_def)

lemma pair_head_iff:
  assumes "length magic = 8" "length profile < 256" "12 + length profile \<le> length w"
  shows "take (length (pair_head magic v s r profile)) w = pair_head magic v s r profile \<longleftrightarrow>
    take 8 w = magic \<and> w ! 8 = v \<and> w ! 9 = s \<and> w ! 10 = r \<and> unat (w ! 11) = length profile \<and>
    slice w 12 (12 + length profile) = profile"
proof -
  have "take 12 w = take 8 w @ [w ! 8, w ! 9, w ! 10, w ! 11]"
    using assms(3) take_Suc_conv_app_nth[of 11 w] take_Suc_conv_app_nth[of 10 w] take_Suc_conv_app_nth[of 9 w]
      take_Suc_conv_app_nth[of 8 w] by simp
  then have t: "take (12 + length profile) w = take 8 w @ [w ! 8, w ! 9, w ! 10, w ! 11] @ slice w 12 (12 + length profile)"
  proof -
    have "slice w 12 (12 + length profile) = take (length profile) (drop 12 w)" by (simp add: slice_def drop_take)
    with \<open>take 12 w = _\<close> show ?thesis by (simp add: take_add)
  qed
  have u: "w ! 11 = of_nat (length profile) \<longleftrightarrow> unat (w ! 11) = length profile"
    using assms(2) by (simp add: word_unat_eq_iff unat_of_nat)
  have l: "length (take 8 w) = length magic" using assms by simp
  show ?thesis
    unfolding length_pair_head[OF assms(1)] t unfolding pair_head_def append_eq_append_conv[OF disjI1[OF l]]
    by (auto simp: u)
qed

lemma profile_lengths: "length PROFILE_ID = 24" "length PROFILE2_ID = 23" "PROFILE_LEN = 24" "PROFILE2_LEN = 23"
  by (simp_all add: PROFILE_ID_def PROFILE2_ID_def PROFILE_LEN_def PROFILE2_LEN_def)

lemma pair_magic_lengths [simp]: "length INIT_MAGIC = 8" "length INIT2_MAGIC = 8" "length RESPONSE_MAGIC = 8"
  "length RESPONSE2_MAGIC = 8"
  by (simp_all add: INIT_MAGIC_def INIT2_MAGIC_def RESPONSE_MAGIC_def RESPONSE2_MAGIC_def)

lemma sum_widths: "sum_list INIT_WIDTHS = 2688" "sum_list RESPONSE_WIDTHS = 128"
  by (simp_all add: INIT_WIDTHS_def RESPONSE_WIDTHS_def)

lemmas wire_lens = INIT_WIRE_LEN_def INIT_SIGNED_PREFIX_LEN_def INIT2_WIRE_LEN_def INIT2_SIGNED_PREFIX_LEN_def
  RESPONSE_WIRE_LEN_def RESPONSE_SIGNED_PREFIX_LEN_def RESPONSE2_WIRE_LEN_def RESPONSE2_SIGNED_PREFIX_LEN_def
  profile_lengths sum_widths length_pair_head

lemma fields_total: "init2_ok v \<Longrightarrow> length (concat (init_fields v)) = 2688"
  "response2_ok w \<Longrightarrow> length (concat (response_fields w)) = 128"
  using init_lengths[of v] response_lengths[of w] by (simp_all add: length_concat sum_widths)

lemma ok_weaker: "init_ok v \<Longrightarrow> init2_ok v" "response_ok w \<Longrightarrow> response2_ok w"
  by (simp_all add: init_ok_def response_ok_def)

lemma pair_magics_differ: "INIT2_MAGIC \<noteq> asc ''RVPI1'' @ [0, 0, 0]" "RESPONSE2_MAGIC \<noteq> asc ''RVPR1'' @ [0, 0, 0]"
  by (simp_all add: INIT2_MAGIC_def RESPONSE2_MAGIC_def asc_def)

interpretation init1: pair_wire init_signing_bytes encode_init decode_init INIT_SIGNING_DOMAIN
  "pair_head INIT_MAGIC PAIR_VERSION PAIR_SUITE INITIATOR_ROLE PROFILE_ID" INIT_WIDTHS init_fields pi_signature
  init_of_fields init_ok
proof unfold_locales
  show sb: "init_signing_bytes v = Inr m \<longleftrightarrow> init_ok v \<and> m = INIT_SIGNING_DOMAIN @
      pair_head INIT_MAGIC PAIR_VERSION PAIR_SUITE INITIATOR_ROLE PROFILE_ID @ concat (init_fields v)" for v m
  proof (cases "init_ok v")
    case True
    then have "pair_validate_init v False = Inr ()" by (simp add: pair_validate_iff)
    then show ?thesis using True fields_total(1)[OF ok_weaker(1)[OF True]]
      by (auto simp: init_signing_bytes_def join_init_parts[OF ok_weaker(1)[OF True]] wire_lens simp del: joinE_Cons)
  qed (simp add: init_signing_bytes_def bindE_eq_Inr pair_validate_iff)
  show "encode_init v = Inr w \<longleftrightarrow> init_ok v \<and> length (pi_signature v) = 64 \<and>
      w = pair_head INIT_MAGIC PAIR_VERSION PAIR_SUITE INITIATOR_ROLE PROFILE_ID @ concat (init_fields v) @ pi_signature v" for v w
    using fields_total ok_weaker by (auto simp: encode_init_def bindE_eq_Inr pair_validate_iff sb Let_def wire_lens)
  show "decode_init w = Inr v \<longleftrightarrow>
      length w = length (pair_head INIT_MAGIC PAIR_VERSION PAIR_SUITE INITIATOR_ROLE PROFILE_ID) + sum_list INIT_WIDTHS + 64 \<and>
      take (length (pair_head INIT_MAGIC PAIR_VERSION PAIR_SUITE INITIATOR_ROLE PROFILE_ID)) w =
        pair_head INIT_MAGIC PAIR_VERSION PAIR_SUITE INITIATOR_ROLE PROFILE_ID \<and>
      init_of_fields (cut (INIT_WIDTHS @ [64])
        (drop (length (pair_head INIT_MAGIC PAIR_VERSION PAIR_SUITE INITIATOR_ROLE PROFILE_ID)) w)) = Inr v \<and>
      init_ok v \<and> length (pi_signature v) = 64" for w v
    using pair_head_iff[of INIT_MAGIC PROFILE_ID w PAIR_VERSION PAIR_SUITE INITIATOR_ROLE]
    by (auto simp: decode_init_def wire_lens bindE_eq_Inr if_Inl_eq_Inr pair_validate_iff)
qed (use init_lengths init_parse_iff ok_weaker in blast)+

interpretation init2: pair_wire init2_signing_bytes encode_init2 decode_init2 INIT2_SIGNING_DOMAIN
  "pair_head INIT2_MAGIC PAIR2_VERSION PAIR2_SUITE INITIATOR_ROLE PROFILE2_ID" INIT_WIDTHS init_fields pi_signature
  init_of_fields init2_ok
proof unfold_locales
  show sb: "init2_signing_bytes v = Inr m \<longleftrightarrow> init2_ok v \<and> m = INIT2_SIGNING_DOMAIN @
      pair_head INIT2_MAGIC PAIR2_VERSION PAIR2_SUITE INITIATOR_ROLE PROFILE2_ID @ concat (init_fields v)" for v m
  proof (cases "init2_ok v")
    case True
    then have "pair2_validate_init v False = Inr ()" by (simp add: pair2_validate_iff)
    then show ?thesis using True fields_total(1)[OF True]
      by (auto simp: init2_signing_bytes_def join_init_parts[OF True] wire_lens simp del: joinE_Cons)
  qed (simp add: init2_signing_bytes_def bindE_eq_Inr pair2_validate_iff)
  show "encode_init2 v = Inr w \<longleftrightarrow> init2_ok v \<and> length (pi_signature v) = 64 \<and>
      w = pair_head INIT2_MAGIC PAIR2_VERSION PAIR2_SUITE INITIATOR_ROLE PROFILE2_ID @ concat (init_fields v) @ pi_signature v" for v w
    using fields_total ok_weaker by (auto simp: encode_init2_def bindE_eq_Inr pair2_validate_iff sb Let_def wire_lens)
  show "decode_init2 w = Inr v \<longleftrightarrow>
      length w = length (pair_head INIT2_MAGIC PAIR2_VERSION PAIR2_SUITE INITIATOR_ROLE PROFILE2_ID) + sum_list INIT_WIDTHS + 64 \<and>
      take (length (pair_head INIT2_MAGIC PAIR2_VERSION PAIR2_SUITE INITIATOR_ROLE PROFILE2_ID)) w =
        pair_head INIT2_MAGIC PAIR2_VERSION PAIR2_SUITE INITIATOR_ROLE PROFILE2_ID \<and>
      init_of_fields (cut (INIT_WIDTHS @ [64])
        (drop (length (pair_head INIT2_MAGIC PAIR2_VERSION PAIR2_SUITE INITIATOR_ROLE PROFILE2_ID)) w)) = Inr v \<and>
      init2_ok v \<and> length (pi_signature v) = 64" for w v
    using pair_head_iff[of INIT2_MAGIC PROFILE2_ID w PAIR2_VERSION PAIR2_SUITE INITIATOR_ROLE] pair_magics_differ
    by (auto simp: decode_init2_def wire_lens bindE_eq_Inr if_Inl_eq_Inr pair2_validate_iff)
qed (use init_lengths init_parse_iff in blast)+

interpretation response1: pair_wire response_signing_bytes encode_response decode_response RESPONSE_SIGNING_DOMAIN
  "pair_head RESPONSE_MAGIC PAIR_VERSION PAIR_SUITE RESPONDER_ROLE PROFILE_ID" RESPONSE_WIDTHS response_fields pr_signature
  "\<lambda>f. Inr (response_of_fields f)" response_ok
proof unfold_locales
  show sb: "response_signing_bytes v = Inr m \<longleftrightarrow> response_ok v \<and> m = RESPONSE_SIGNING_DOMAIN @
      pair_head RESPONSE_MAGIC PAIR_VERSION PAIR_SUITE RESPONDER_ROLE PROFILE_ID @ concat (response_fields v)" for v m
  proof (cases "response_ok v")
    case True
    then have "pair_validate_response v False = Inr ()" by (simp add: response_validate_iff)
    then show ?thesis using True fields_total(2)[OF ok_weaker(2)[OF True]]
      by (auto simp: response_signing_bytes_def join_response_parts[OF ok_weaker(2)[OF True]] wire_lens simp del: joinE_Cons)
  qed (simp add: response_signing_bytes_def bindE_eq_Inr response_validate_iff)
  show "encode_response v = Inr w \<longleftrightarrow> response_ok v \<and> length (pr_signature v) = 64 \<and>
      w = pair_head RESPONSE_MAGIC PAIR_VERSION PAIR_SUITE RESPONDER_ROLE PROFILE_ID @ concat (response_fields v) @ pr_signature v" for v w
    using fields_total ok_weaker by (auto simp: encode_response_def bindE_eq_Inr response_validate_iff sb Let_def wire_lens)
  show "decode_response w = Inr v \<longleftrightarrow>
      length w = length (pair_head RESPONSE_MAGIC PAIR_VERSION PAIR_SUITE RESPONDER_ROLE PROFILE_ID) + sum_list RESPONSE_WIDTHS + 64 \<and>
      take (length (pair_head RESPONSE_MAGIC PAIR_VERSION PAIR_SUITE RESPONDER_ROLE PROFILE_ID)) w =
        pair_head RESPONSE_MAGIC PAIR_VERSION PAIR_SUITE RESPONDER_ROLE PROFILE_ID \<and>
      Inr (response_of_fields (cut (RESPONSE_WIDTHS @ [64])
        (drop (length (pair_head RESPONSE_MAGIC PAIR_VERSION PAIR_SUITE RESPONDER_ROLE PROFILE_ID)) w))) = Inr v \<and>
      response_ok v \<and> length (pr_signature v) = 64" for w v
    using pair_head_iff[of RESPONSE_MAGIC PROFILE_ID w PAIR_VERSION PAIR_SUITE RESPONDER_ROLE]
    by (auto simp: decode_response_def wire_lens bindE_eq_Inr if_Inl_eq_Inr response_validate_iff Let_def)
qed (use response_lengths response_parse_iff ok_weaker in auto)+

interpretation response2: pair_wire response2_signing_bytes encode_response2 decode_response2 RESPONSE2_SIGNING_DOMAIN
  "pair_head RESPONSE2_MAGIC PAIR2_VERSION PAIR2_SUITE RESPONDER_ROLE PROFILE2_ID" RESPONSE_WIDTHS response_fields pr_signature
  "\<lambda>f. Inr (response_of_fields f)" response2_ok
proof unfold_locales
  show sb: "response2_signing_bytes v = Inr m \<longleftrightarrow> response2_ok v \<and> m = RESPONSE2_SIGNING_DOMAIN @
      pair_head RESPONSE2_MAGIC PAIR2_VERSION PAIR2_SUITE RESPONDER_ROLE PROFILE2_ID @ concat (response_fields v)" for v m
  proof (cases "response2_ok v")
    case True
    then have "pair2_validate_response v False = Inr ()" by (simp add: response2_validate_iff)
    then show ?thesis using True fields_total(2)[OF True]
      by (auto simp: response2_signing_bytes_def join_response_parts[OF True] wire_lens simp del: joinE_Cons)
  qed (simp add: response2_signing_bytes_def bindE_eq_Inr response2_validate_iff)
  show "encode_response2 v = Inr w \<longleftrightarrow> response2_ok v \<and> length (pr_signature v) = 64 \<and>
      w = pair_head RESPONSE2_MAGIC PAIR2_VERSION PAIR2_SUITE RESPONDER_ROLE PROFILE2_ID @ concat (response_fields v) @ pr_signature v" for v w
    using fields_total ok_weaker by (auto simp: encode_response2_def bindE_eq_Inr response2_validate_iff sb Let_def wire_lens)
  show "decode_response2 w = Inr v \<longleftrightarrow>
      length w = length (pair_head RESPONSE2_MAGIC PAIR2_VERSION PAIR2_SUITE RESPONDER_ROLE PROFILE2_ID) + sum_list RESPONSE_WIDTHS + 64 \<and>
      take (length (pair_head RESPONSE2_MAGIC PAIR2_VERSION PAIR2_SUITE RESPONDER_ROLE PROFILE2_ID)) w =
        pair_head RESPONSE2_MAGIC PAIR2_VERSION PAIR2_SUITE RESPONDER_ROLE PROFILE2_ID \<and>
      Inr (response_of_fields (cut (RESPONSE_WIDTHS @ [64])
        (drop (length (pair_head RESPONSE2_MAGIC PAIR2_VERSION PAIR2_SUITE RESPONDER_ROLE PROFILE2_ID)) w))) = Inr v \<and>
      response2_ok v \<and> length (pr_signature v) = 64" for w v
    using pair_head_iff[of RESPONSE2_MAGIC PROFILE2_ID w PAIR2_VERSION PAIR2_SUITE RESPONDER_ROLE] pair_magics_differ
    by (auto simp: decode_response2_def wire_lens bindE_eq_Inr if_Inl_eq_Inr response2_validate_iff Let_def)
qed (use response_lengths response_parse_iff in auto)+

lemma init_fields_inj: "init2_ok v \<Longrightarrow> init2_ok w \<Longrightarrow> init_fields v = init_fields w \<Longrightarrow>
    v\<lparr>pi_signature := []\<rparr> = w\<lparr>pi_signature := []\<rparr>"
  by (simp add: pair_init_eq_iff init_fields_def init2_ok_def be_bytes_eq del: be_bytes.simps)

lemma response_fields_inj: "response2_ok v \<Longrightarrow> response2_ok w \<Longrightarrow> response_fields v = response_fields w \<Longrightarrow>
    v\<lparr>pr_signature := []\<rparr> = w\<lparr>pr_signature := []\<rparr>"
  by (auto simp: response_fields_def response2_ok_def be_bytes_eq intro!: pair_response.equality simp del: be_bytes.simps)

lemma pair_wire_lengths:
  "encode_init v = Inr w \<Longrightarrow> length w = 2788" "encode_init2 v = Inr w \<Longrightarrow> length w = 2787"
  "encode_response r = Inr w \<Longrightarrow> length w = 228" "encode_response2 r = Inr w \<Longrightarrow> length w = 227"
  by (auto dest!: init1.enc_length init2.enc_length response1.enc_length response2.enc_length simp: wire_lens)

text \<open>
  C35: The four pairing wires are canonical, and no two of them overlap: each decoder returns a record
  exactly for the bytes that the matching encoder writes for it, and a byte string decodes under at
  most one version, as at most one kind of record.
\<close>

theorem pair_wires_canonical:
  "(decode_init w = Inr v \<longleftrightarrow> encode_init v = Inr w) \<and>
   (decode_init2 w = Inr v \<longleftrightarrow> encode_init2 v = Inr w) \<and>
   (decode_response w = Inr r \<longleftrightarrow> encode_response r = Inr w) \<and>
   (decode_response2 w = Inr r \<longleftrightarrow> encode_response2 r = Inr w) \<and>
   length (filter (\<lambda>b. b) [\<exists>v. decode_init w = Inr v, \<exists>v. decode_init2 w = Inr v,
     \<exists>r. decode_response w = Inr r, \<exists>r. decode_response2 w = Inr r]) \<le> 1"
  unfolding init1.dec_enc init2.dec_enc response1.dec_enc response2.dec_enc
  by (auto dest!: pair_wire_lengths)

text \<open>The outcome of tests that stop at the first failure.\<close>

lemma all_true_iff: "all_true ms = Inr True \<longleftrightarrow> (\<forall>m \<in> set ms. m = Inr True)"
  by (induction ms) (auto simp: bindE_eq_Inr)

lemma pinned_iff: "pinned v e n m = Inr True \<longleftrightarrow> length e = n \<and> v = e"
  by (auto simp: pinned_def bindE_eq_Inr require_exact_iff)

text \<open>What the caller of \<open>verify_init\<close> has pinned.\<close>

definition pins_match :: "pair_init \<Rightarrow> pair_expected \<Rightarrow> bool" where
  "pins_match v x \<longleftrightarrow> pi_initiator_device_ed_pub v = px_initiator_device_ed_pub x \<and>
     pi_responder_device_ed_pub v = px_responder_device_ed_pub x \<and>
     pi_responder_signed_x25519_pub v = px_responder_signed_x25519_pub x \<and>
     pi_responder_one_time_x25519_pub v = px_responder_one_time_x25519_pub x \<and>
     pi_initiator_device_cert_hash v = px_initiator_device_cert_hash x \<and>
     pi_responder_device_cert_hash v = px_responder_device_cert_hash x \<and>
     pi_responder_prekey_bundle_hash v = px_responder_prekey_bundle_hash x \<and>
     pi_signed_prekey_id v = px_signed_prekey_id x \<and> pi_one_time_prekey_id v = px_one_time_prekey_id x \<and>
     pi_responder_mlkem768_ek v = px_responder_mlkem768_ek x"

text \<open>
  C16: A PairInit is verified exactly when it has a canonical wire, its addresses are those of the two
  identity keys, every pinned value (device keys, prekeys, certificate and bundle hashes, ML-KEM key)
  is the trusted one, its validity lies inside the trust window and contains the current time, and
  the initiator's device key signed the domain followed by the wire without its signature.
\<close>

theorem verify_init_exact:
  "verify_init c v iid rid x now = Inr True \<longleftrightarrow>
     (\<exists>w. encode_init v = Inr w \<and> decode_init w = Inr v \<and> length iid = 32 \<and> length rid = 32 \<and>
       address_encode iid = Inr (pi_initiator_address v) \<and> address_encode rid = Inr (pi_responder_address v) \<and>
       pins_match v x \<and>
       px_trust_not_before_ms x \<le> pi_created_at_ms v \<and> pi_created_at_ms v \<le> now \<and> now < pi_expires_at_ms v \<and>
       pi_expires_at_ms v \<le> px_trust_not_after_ms x \<and>
       ed_load_public c (pi_initiator_device_ed_pub v) = Inr () \<and>
       ed_verify c (pi_initiator_device_ed_pub v) (drop 2724 w) (INIT_SIGNING_DOMAIN @ take 2724 w) = Inr ())"
proof (cases "init_ok v \<and> length (pi_signature v) = 64")
  case True
  then have ok: "init_ok v" and sig: "length (pi_signature v) = 64" by simp_all
  define h where "h = pair_head INIT_MAGIC PAIR_VERSION PAIR_SUITE INITIATOR_ROLE PROFILE_ID @ concat (init_fields v)"
  have h: "length h = 2724" using fields_total(1)[OF ok_weaker(1)[OF ok]] by (simp add: h_def wire_lens)
  have e: "encode_init v = Inr (h @ pi_signature v)" "init_signing_bytes v = Inr (INIT_SIGNING_DOMAIN @ h)"
    using init1.enc_total[OF ok sig] init1.sb_iff ok by (simp_all add: h_def)
  have val: "pair_validate_init v True = Inr ()" using True by (simp add: pair_validate_iff)
  have l: "length (pi_initiator_device_ed_pub v) = 32" "length (pi_responder_device_ed_pub v) = 32"
    "length (pi_responder_signed_x25519_pub v) = 32" "length (pi_responder_one_time_x25519_pub v) = 32"
    "length (pi_initiator_device_cert_hash v) = 32" "length (pi_responder_device_cert_hash v) = 32"
    "length (pi_responder_prekey_bundle_hash v) = 32" "length (pi_responder_mlkem768_ek v) = 1184"
    using ok by (simp_all add: init_ok_def init2_ok_def)
  have "verify_init c v iid rid x now = Inr True \<longleftrightarrow> length iid = 32 \<and> length rid = 32 \<and>
      address_encode iid = Inr (pi_initiator_address v) \<and> address_encode rid = Inr (pi_responder_address v) \<and>
      pins_match v x \<and> px_trust_not_before_ms x \<le> pi_created_at_ms v \<and> pi_created_at_ms v \<le> now \<and>
      now < pi_expires_at_ms v \<and> pi_expires_at_ms v \<le> px_trust_not_after_ms x \<and>
      ed_load_public c (pi_initiator_device_ed_pub v) = Inr () \<and>
      ed_verify c (pi_initiator_device_ed_pub v) (pi_signature v) (INIT_SIGNING_DOMAIN @ h) = Inr ()"
    unfolding verify_init_def except_false_True val bindE_simps all_true_iff e(2) pins_match_def
    using l by (simp add: pinned_iff bindE_eq_Inr require_exact_iff) (metis linorder_not_less)
  then show ?thesis using e(1) h init1.dec_enc by auto
next
  case False
  then have "encode_init v \<noteq> Inr w" for w using init1.enc_iff by blast
  moreover have "verify_init c v iid rid x now \<noteq> Inr True"
    using False by (auto simp: verify_init_def bindE_eq_Inr pair_validate_iff)
  ultimately show ?thesis by blast
qed

text \<open>
  C34: A PairResponse is verified exactly when it is a valid record for the accepted PairInit: same
  identifier and responder device, the hash of that PairInit's exact signed wire, a validity inside
  the PairInit's that contains the current time, the confirmation tag of the shared root over that
  hash, and the signature of the responder's device.
\<close>

theorem verify_response_exact:
  "verify_response c r v root now = Inr True \<longleftrightarrow>
     (\<exists>w rw. encode_init v = Inr w \<and> encode_response r = Inr rw \<and> length root = 32 \<and>
       pr_init_id r = pi_init_id v \<and> pr_init_hash r = sha256 (INIT_SIGNING_DOMAIN @ w) \<and>
       pr_responder_device_ed_pub r = pi_responder_device_ed_pub v \<and>
       pi_created_at_ms v \<le> pr_created_at_ms r \<and> pr_created_at_ms r \<le> now \<and> now < pr_expires_at_ms r \<and>
       pr_expires_at_ms r \<le> pi_expires_at_ms v \<and>
       pr_confirmation_tag r = hmac_sha256 root (CONFIRM_LABEL @ [0] @ pr_init_hash r) \<and>
       ed_load_public c (pi_responder_device_ed_pub v) = Inr () \<and>
       ed_verify c (pi_responder_device_ed_pub v) (drop 164 rw) (RESPONSE_SIGNING_DOMAIN @ take 164 rw) = Inr ())"
proof (cases "response_ok r \<and> length (pr_signature r) = 64 \<and> (\<exists>w. encode_init v = Inr w)")
  case True
  then obtain w where ok: "response_ok r" and sig: "length (pr_signature r) = 64" and w: "encode_init v = Inr w" by blast
  define h where "h = pair_head RESPONSE_MAGIC PAIR_VERSION PAIR_SUITE RESPONDER_ROLE PROFILE_ID @ concat (response_fields r)"
  have h: "length h = 164" using fields_total(2)[OF ok_weaker(2)[OF ok]] by (simp add: h_def wire_lens)
  have e: "encode_response r = Inr (h @ pr_signature r)" "response_signing_bytes r = Inr (RESPONSE_SIGNING_DOMAIN @ h)"
    using response1.enc_total[OF ok sig] response1.sb_iff ok by (simp_all add: h_def)
  have val: "pair_validate_response r True = Inr ()" using ok sig by (simp add: response_validate_iff)
  have ih: "init_hash v = Inr (sha256 (INIT_SIGNING_DOMAIN @ w))" by (simp add: init_hash_def w)
  have t: "pr_created_at_ms r < pr_expires_at_ms r" using ok by (simp add: response_ok_def response2_ok_def)
  have "verify_response c r v root now = Inr True \<longleftrightarrow> length root = 32 \<and>
       pr_init_id r = pi_init_id v \<and> pr_init_hash r = sha256 (INIT_SIGNING_DOMAIN @ w) \<and>
       pr_responder_device_ed_pub r = pi_responder_device_ed_pub v \<and>
       pi_created_at_ms v \<le> pr_created_at_ms r \<and> pr_created_at_ms r \<le> now \<and> now < pr_expires_at_ms r \<and>
       pr_expires_at_ms r \<le> pi_expires_at_ms v \<and>
       pr_confirmation_tag r = hmac_sha256 root (CONFIRM_LABEL @ [0] @ pr_init_hash r) \<and>
       ed_load_public c (pi_responder_device_ed_pub v) = Inr () \<and>
       ed_verify c (pi_responder_device_ed_pub v) (pr_signature r) (RESPONSE_SIGNING_DOMAIN @ h) = Inr ()"
    unfolding verify_response_def except_false_True val bindE_simps all_true_iff e(2) ih
    using t by (auto simp: confirmation_tag_def bindE_eq_Inr require_exact_iff compare_digest_def)
  then show ?thesis using e(1) h w by auto
next
  case False
  then have "\<not> (\<exists>w rw. encode_init v = Inr w \<and> encode_response r = Inr rw)" using response1.enc_iff by blast
  moreover have "verify_response c r v root now \<noteq> Inr True"
    using False by (auto simp: verify_response_def bindE_eq_Inr response_validate_iff init_hash_def)
  ultimately show ?thesis by blast
qed

end
