(* ===== verification/Ordering.thy ===== *)
theory Ordering
  imports Prelude "HOL-Library.Multiset"
begin

text \<open>
  Sorting by a key, as \<open>sorted(..., key=...)\<close> and \<open>list.sort(key=...)\<close> do: when the keys of the
  elements differ, the sorted list depends on the elements only, not on the order they came in.
\<close>

lemma sort_key_perm: "inj_on f (set xs) \<Longrightarrow> mset xs = mset ys \<Longrightarrow> sort_key f xs = sort_key f ys"
proof (rule properties_for_sort_key)
  assume i: "inj_on f (set xs)" and m: "mset xs = mset ys"
  then have s: "set xs = set ys" by (metis set_mset_mset)
  show "mset (sort_key f ys) = mset xs" using m by simp
  show "sorted (map f (sort_key f ys))" by simp
  fix k
  assume k: "k \<in> set (sort_key f ys)"
  have e: "f k = f x \<longleftrightarrow> k = x" if "x \<in> set xs" for x using that k s i by (auto dest: inj_onD)
  have "filter (\<lambda>x. f k = f x) zs = replicate (count (mset zs) k) k" if "set zs = set xs" for zs
    unfolding replicate_count_mset_eq_filter_eq using that e by (intro filter_cong) auto
  then show "filter (\<lambda>x. f k = f x) (sort_key f ys) = filter (\<lambda>x. f k = f x) xs" using m s by simp
qed

lemma insort_map: "insort_key f (g x) (map g ys) = map g (insort_key (\<lambda>x. f (g x)) x ys)"
  by (induction ys) simp_all

lemma sort_key_map: "sort_key f (map g xs) = map g (sort_key (\<lambda>x. f (g x)) xs)"
  by (induction xs) (simp_all add: insort_map)

end
