(* ===== verification/Revocation.thy ===== *)
theory Revocation
  imports Pairing Ordering
begin

text \<open>
  Device revocations (\<open>device_revocation.py\<close>): the signed record RVDR1 with its wire, and the
  canonical snapshot of a revocation store that is hashed for comparison.
\<close>

section \<open>The record\<close>

definition RVDR1_MAGIC :: bytes where "RVDR1_MAGIC = asc ''RVDR1'' @ [0, 0, 0]"
definition RVDR1_VERSION :: byte where "RVDR1_VERSION = 1"
definition RVDR1_SUITE :: byte where "RVDR1_SUITE = 1"
definition RVDR1_SIGNING_DOMAIN :: bytes where "RVDR1_SIGNING_DOMAIN = asc ''rvn1/device-revocation''"
definition STORE_SNAPSHOT_DOMAIN :: bytes where "STORE_SNAPSHOT_DOMAIN = asc ''rvn1/device-revocation/store-v1''"
definition ID_MIN :: nat where "ID_MIN = 1"
definition ID_MAX :: nat where "ID_MAX = 64"
definition FIXED_PREFIX_LEN :: nat where "FIXED_PREFIX_LEN = 54"

record device_revocation =
  dv_identity_address :: string
  dv_device_id :: bytes
  dv_device_ed_pub :: bytes
  dv_device_x_pub :: bytes
  dv_device_cert_hash :: bytes
  dv_issuer_device_id :: bytes
  dv_issuer_seq :: int
  dv_revocation_id :: bytes
  dv_reason_code :: int
  dv_created_at_ms :: int
  dv_signature :: bytes

definition revocation_require_id :: "string \<Rightarrow> bytes \<Rightarrow> bytes res" where
  "revocation_require_id label raw =
     (if \<not> (ID_MIN \<le> length raw \<and> length raw \<le> ID_MAX) then Inl (ValueError (label @ '' length must be 1..64''))
      else Inr raw)"

definition revocation_require_address :: "string \<Rightarrow> bytes res" where
  "revocation_require_address addr =
     (if length addr \<noteq> ADDRESS_LEN then Inl (ValueError ''identity_address must be exactly 44 ASCII chars'')
      else if address_decode addr = None then Inl (ValueError ''identity_address is not a valid RavenAddressV1'')
      else if addr \<noteq> str_lower addr \<or> take 4 addr \<noteq> ''rvn1''
      then Inl (ValueError ''identity_address must be canonical lowercase'')
      else ascii_encode addr)"

definition revocation_signing_bytes :: "device_revocation \<Rightarrow> bytes res" where
  "revocation_signing_bytes r =
     bindE (revocation_require_id ''device_id'' (dv_device_id r)) (\<lambda>device_id.
     bindE (revocation_require_id ''issuer_device_id'' (dv_issuer_device_id r)) (\<lambda>issuer.
     bindE (revocation_require_address (dv_identity_address r)) (\<lambda>addr.
     if length (dv_device_ed_pub r) \<noteq> 32 \<or> length (dv_device_x_pub r) \<noteq> 32
     then Inl (ValueError ''device pubs must be 32 bytes'')
     else if length (dv_device_cert_hash r) \<noteq> 32 then Inl (ValueError ''device_cert_hash must be 32 bytes'')
     else if length (dv_revocation_id r) \<noteq> 16 \<or> dv_revocation_id r = zeros 16
     then Inl (ValueError ''revocation_id must be 16 nonzero bytes'')
     else if \<not> (0 \<le> dv_reason_code r \<and> dv_reason_code r \<le> 255) then Inl (ValueError ''reason_code out of range'')
     else if dv_issuer_seq r < 0 \<or> dv_issuer_seq r \<ge> 2 ^ 64 then Inl (ValueError ''issuer_seq out of range'')
     else if dv_created_at_ms r < 0 \<or> dv_created_at_ms r \<ge> 2 ^ 64 then Inl (ValueError ''created_at_ms out of range'')
     else joinE [Inr RVDR1_SIGNING_DOMAIN, Inr [RVDR1_VERSION, RVDR1_SUITE], Inr addr, lp device_id,
                 Inr (dv_device_ed_pub r), Inr (dv_device_x_pub r), Inr (dv_device_cert_hash r), lp issuer,
                 canon_u64 (dv_issuer_seq r), Inr (dv_revocation_id r),
                 Inr [word_of_int (dv_reason_code r AND 0xFF)], canon_u64 (dv_created_at_ms r)])))"

definition revocation_encode :: "device_revocation \<Rightarrow> bytes res" where
  "revocation_encode r =
     (if length (dv_signature r) \<noteq> 64 then Inl (ValueError ''signature must be 64 bytes'')
      else bindE (revocation_signing_bytes r) (\<lambda>sb.
        Inr (RVDR1_MAGIC @ drop (length RVDR1_SIGNING_DOMAIN) sb @ dv_signature r)))"

definition read_lp :: "bytes \<Rightarrow> nat \<Rightarrow> (bytes \<times> nat) res" where
  "read_lp buf off =
     (if off + 2 > length buf then Inl (ValueError ''truncated lp'')
      else let n = nat (from_bytes (slice buf off (off + 2))); off = off + 2 in
        if \<not> (ID_MIN \<le> n \<and> n \<le> ID_MAX) then Inl (ValueError ''lp length out of 1..64'')
        else if off + n > length buf then Inl (ValueError ''truncated lp body'')
        else Inr (slice buf off (off + n), off + n))"

text \<open>
  A slice past the end of a Python byte string is shorter, without an error; the single index that
  reads the reason code raises \<open>IndexError\<close> there.
\<close>

definition revocation_decode :: "bytes \<Rightarrow> device_revocation res" where
  "revocation_decode wire =
     (if length wire < FIXED_PREFIX_LEN + 2 + ID_MIN + 32 * 2 + 32 + 2 + ID_MIN + 8 + 16 + 1 + 8 + 64
      then Inl (ValueError ''wire too short'')
      else if take 8 wire \<noteq> RVDR1_MAGIC then Inl (ValueError ''bad magic'')
      else if wire ! 8 \<noteq> RVDR1_VERSION \<or> wire ! 9 \<noteq> RVDR1_SUITE then Inl (ValueError ''bad version/suite'')
      else case ascii_decode (slice wire 10 54) of
        Inl _ \<Rightarrow> Inl (ValueError ''identity_address not ASCII'')
      | Inr identity_address \<Rightarrow>
     bindE (revocation_require_address identity_address) (\<lambda>_.
     bindE (read_lp wire 54) (\<lambda>(device_id, off1).
     let device_ed = slice wire off1 (off1 + 32); device_x = slice wire (off1 + 32) (off1 + 64);
         cert_hash = slice wire (off1 + 64) (off1 + 96) in
     bindE (read_lp wire (off1 + 96)) (\<lambda>(issuer_id, off2).
     let issuer_seq = from_bytes (slice wire off2 (off2 + 8)); rev_id = slice wire (off2 + 8) (off2 + 24) in
     if off2 + 24 \<ge> length wire then Inl (IndexError ''index out of range'')
     else let reason = uint (wire ! (off2 + 24)); created = from_bytes (slice wire (off2 + 25) (off2 + 33));
              sig = slice wire (off2 + 33) (off2 + 97) in
     if off2 + 97 \<noteq> length wire then Inl (ValueError ''trailing bytes'')
     else if rev_id = zeros 16 then Inl (ValueError ''revocation_id all-zero'')
     else Inr \<lparr>dv_identity_address = identity_address, dv_device_id = device_id, dv_device_ed_pub = device_ed,
               dv_device_x_pub = device_x, dv_device_cert_hash = cert_hash, dv_issuer_device_id = issuer_id,
               dv_issuer_seq = issuer_seq, dv_revocation_id = rev_id, dv_reason_code = reason,
               dv_created_at_ms = created, dv_signature = sig\<rparr>))))"

definition revocation_sign :: "crypto \<Rightarrow> device_revocation \<Rightarrow> bytes \<Rightarrow> device_revocation res" where
  "revocation_sign c r identity_ed_priv =
     bindE (ed_load_private c identity_ed_priv) (\<lambda>_.
     bindE (ed_public c identity_ed_priv) (\<lambda>pub.
     bindE (address_encode pub) (\<lambda>a.
     if a \<noteq> dv_identity_address r then Inl (ValueError ''identity_address does not match signing key'')
     else bindE (revocation_signing_bytes r) (\<lambda>sb.
          bindE (ed_sign c identity_ed_priv sb) (\<lambda>sig. Inr (r\<lparr>dv_signature := sig\<rparr>))))))"

definition revocation_verify :: "crypto \<Rightarrow> device_revocation \<Rightarrow> bytes \<Rightarrow> bool res" where
  "revocation_verify c r identity_ed_pub =
     bindE (address_encode identity_ed_pub) (\<lambda>a.
     if a \<noteq> dv_identity_address r then Inr False
     else verify_signed c identity_ed_pub (dv_signature r) (revocation_signing_bytes r))"

definition claim_digest :: "bytes \<Rightarrow> bytes" where
  "claim_digest wire = sha256 wire"

definition revocation_object_digest :: "bytes \<Rightarrow> bytes" where
  "revocation_object_digest wire = claim_digest wire"

definition revocation_wire_offsets :: "bytes \<Rightarrow> bytes \<Rightarrow> (string, nat) dict res" where
  "revocation_wire_offsets device_id issuer_device_id =
     bindE (revocation_require_id ''device_id'' device_id) (\<lambda>device_id.
     bindE (revocation_require_id ''issuer_device_id'' issuer_device_id) (\<lambda>issuer.
     Inr (offsets_from 0
       [(''magic'', 8), (''version'', 1), (''suite'', 1), (''identity_address'', ADDRESS_LEN), (''device_id_len'', 2),
        (''device_id'', length device_id), (''device_ed_pub'', 32), (''device_x_pub'', 32), (''device_cert_hash'', 32),
        (''issuer_device_id_len'', 2), (''issuer_device_id'', length issuer), (''issuer_seq'', 8),
        (''revocation_id'', 16), (''reason_code'', 1), (''created_at_ms'', 8), (''signature'', 64)])))"

section \<open>The store snapshot\<close>

record store_claim =
  sc_exact_record_bytes :: bytes

definition store_claim_digest :: "store_claim \<Rightarrow> bytes" where
  "store_claim_digest c = claim_digest (sc_exact_record_bytes c)"

record exhausted_marker =
  ex_identity_address :: string
  ex_claim_digest :: bytes
  ex_exact_record_bytes :: bytes

record corrupt_marker =
  co_scope :: string
  co_reason_code :: int

text \<open>\<open>sorted(xs, key=key)\<close>: all keys are computed first, and the sort is stable.\<close>

definition sorted_by :: "('a \<Rightarrow> 'k::linorder res) \<Rightarrow> 'a list \<Rightarrow> 'a list res" where
  "sorted_by key xs = bindE (mapE key xs) (\<lambda>ks. Inr (map snd (sort_key fst (zip ks xs))))"

definition snapshot_claim :: "store_claim \<Rightarrow> bytes res" where
  "snapshot_claim c =
     (let d = store_claim_digest c; b = sc_exact_record_bytes c in
      if length d \<noteq> 32 then Inl (ValueError ''bad claim digest'')
      else bindE (to_bytes (int (length b)) 4) (\<lambda>n. Inr (d @ n @ b)))"

definition snapshot_exhausted :: "exhausted_marker \<Rightarrow> bytes res" where
  "snapshot_exhausted e =
     bindE (ascii_encode (ex_identity_address e)) (\<lambda>addr.
     if length (ex_claim_digest e) \<noteq> 32 then Inl (ValueError ''bad exhausted digest'')
     else if claim_digest (ex_exact_record_bytes e) \<noteq> ex_claim_digest e
     then Inl (ValueError ''exhausted blob digest mismatch'')
     else joinE [lp addr, Inr (ex_claim_digest e), to_bytes (int (length (ex_exact_record_bytes e))) 4,
                 Inr (ex_exact_record_bytes e)])"

definition snapshot_corrupt :: "corrupt_marker \<Rightarrow> bytes res" where
  "snapshot_corrupt c =
     (let scope = utf8 (co_scope c) in
      if length scope > 0xFFFF then Inl (ValueError ''corrupt scope too long'')
      else joinE [lp scope, Inr [word_of_int (co_reason_code c AND 0xFF)]])"

definition canonical_store_snapshot ::
    "int \<Rightarrow> store_claim list \<Rightarrow> exhausted_marker list \<Rightarrow> corrupt_marker list \<Rightarrow> bytes res" where
  "canonical_store_snapshot generation claims exhausted corrupt =
     (if generation < 0 \<or> generation \<ge> 2 ^ 64 then Inl (ValueError ''generation out of range'')
      else bindE (sorted_by (\<lambda>c. Inr (store_claim_digest c)) claims) (\<lambda>claims_sorted.
      bindE (sorted_by (\<lambda>e. bindE (ascii_encode (ex_identity_address e)) (\<lambda>a. Inr (a, ex_claim_digest e))) exhausted) (\<lambda>exh_sorted.
      bindE (sorted_by (\<lambda>c. Inr (utf8 (co_scope c))) corrupt) (\<lambda>cor_sorted.
      joinE ([Inr STORE_SNAPSHOT_DOMAIN, Inr [0], canon_u64 generation, to_bytes (int (length claims_sorted)) 4]
        @ map snapshot_claim claims_sorted @ [to_bytes (int (length exh_sorted)) 4]
        @ map snapshot_exhausted exh_sorted @ [to_bytes (int (length cor_sorted)) 4]
        @ map snapshot_corrupt cor_sorted)))))"

definition revocation_store_hash ::
    "int \<Rightarrow> store_claim list \<Rightarrow> exhausted_marker list \<Rightarrow> corrupt_marker list \<Rightarrow> bytes res" where
  "revocation_store_hash generation claims exhausted corrupt =
     bindE (canonical_store_snapshot generation claims exhausted corrupt) (\<lambda>s. Inr (sha256 s))"

section \<open>The wire is canonical\<close>

text \<open>The accepted addresses: encodings of 20 bytes under any version byte.\<close>

definition rvn_text :: "string \<Rightarrow> bool" where
  "rvn_text a \<longleftrightarrow> (\<exists>ver h. length h = 20 \<and> bech32m_encode ''rvn'' (ver # h) = Inr a)"

lemma strip_full: "length (str_strip s) = length s \<Longrightarrow> str_strip s = s"
proof -
  have d: "length (dropWhile is_strip t) \<le> length t" for t :: string by (rule length_dropWhile_le)
  have e: "dropWhile is_strip t = t" if "length (dropWhile is_strip t) = length t" for t :: string
    using that takeWhile_dropWhile_id[of is_strip t] by (metis append_Nil length_append length_0_conv add_cancel_left_left)
  assume a: "length (str_strip s) = length s"
  then have "length (dropWhile is_strip (rev (dropWhile is_strip s))) = length s" by (simp add: str_strip_def)
  then have "length (dropWhile is_strip s) = length s" using d[of s] d[of "rev (dropWhile is_strip s)"] by simp
  then have s: "dropWhile is_strip s = s" by (rule e)
  then have "dropWhile is_strip (rev s) = rev s" using a e[of "rev s"] by (simp add: str_strip_def)
  with s show ?thesis by (simp add: str_strip_def)
qed

lemma revocation_address_iff: "revocation_require_address a = Inr b \<longleftrightarrow> rvn_text a \<and> b = asc a"
proof
  assume r: "revocation_require_address a = Inr b"
  then obtain hv where a: "length a = 44" "address_decode a = Some hv" "a = str_lower a" "ascii_encode a = Inr b"
    by (auto simp: revocation_require_address_def ADDRESS_LEN_def split: if_splits)
  then obtain payload where p: "bech32m_decode (str_strip a) = Some (''rvn'', payload)" "length payload = 21"
    by (auto simp: address_decode_def split: option.splits if_splits)
  then obtain ver h where pl: "payload = ver # h" "length h = 20" by (cases payload) auto
  have e: "bech32m_encode ''rvn'' (ver # h) = Inr (str_lower (str_strip a))"
    using bech32m_decode_dest[OF p(1)] pl(1) by simp
  then have "length (str_strip a) = length a" using rvn_length[OF e pl(2)] a(1) by (simp add: str_lower_def)
  then have "str_strip a = a" by (rule strip_full)
  with e a(3) pl(2) have "rvn_text a" by (auto simp: rvn_text_def)
  with a(4) show "rvn_text a \<and> b = asc a" by (auto simp: ascii_encode_Inr)
next
  assume "rvn_text a \<and> b = asc a"
  then obtain ver h where h: "length h = 20" "bech32m_encode ''rvn'' (ver # h) = Inr a" "b = asc a" by (auto simp: rvn_text_def)
  note p = rvn_encode_plain[OF h(2)]
  obtain dat where "a = bech_text ''rvn'' dat" using bech32m_encode_text[of "''rvn''" "ver # h"] h(2) by (metis sum.inject(2))
  then have "take 4 a = ''rvn1''" by (simp add: bech_text_def)
  moreover have "length a = 44" using rvn_length[OF h(2,1)] .
  ultimately show "revocation_require_address a = Inr b"
    using p h(1,3) by (simp add: revocation_require_address_def ADDRESS_LEN_def address_decode_def strip_plain plain_ascii)
qed

lemma and_255: "(n :: int) AND 0xFF = n mod 256"
  using take_bit_eq_mask[of 8 n] by (simp add: take_bit_eq_mod mask_eq_exp_minus_1)

definition rev_ok :: "device_revocation \<Rightarrow> bool" where
  "rev_ok r \<longleftrightarrow> rvn_text (dv_identity_address r) \<and> 1 \<le> length (dv_device_id r) \<and> length (dv_device_id r) \<le> 64 \<and>
     length (dv_device_ed_pub r) = 32 \<and> length (dv_device_x_pub r) = 32 \<and> length (dv_device_cert_hash r) = 32 \<and>
     1 \<le> length (dv_issuer_device_id r) \<and> length (dv_issuer_device_id r) \<le> 64 \<and> uint_fits 8 (dv_issuer_seq r) \<and>
     length (dv_revocation_id r) = 16 \<and> dv_revocation_id r \<noteq> zeros 16 \<and> byte_fits (dv_reason_code r) \<and>
     uint_fits 8 (dv_created_at_ms r)"

definition rev_body :: "device_revocation \<Rightarrow> bytes" where
  "rev_body r = [RVDR1_VERSION, RVDR1_SUITE] @ asc (dv_identity_address r) @ framed (dv_device_id r) @
     dv_device_ed_pub r @ dv_device_x_pub r @ dv_device_cert_hash r @ framed (dv_issuer_device_id r) @
     be_bytes 8 (dv_issuer_seq r) @ dv_revocation_id r @ [word_of_int (dv_reason_code r)] @ be_bytes 8 (dv_created_at_ms r)"

lemma rvn_text_length: "rvn_text a \<Longrightarrow> length a = 44"
  by (auto simp: rvn_text_def rvn_length)

interpretation rev: signed_record revocation_signing_bytes RVDR1_SIGNING_DOMAIN rev_ok rev_body
  "\<lambda>r. r\<lparr>dv_signature := []\<rparr>"
proof unfold_locales
  show "revocation_signing_bytes r = Inr m \<longleftrightarrow> rev_ok r \<and> m = RVDR1_SIGNING_DOMAIN @ rev_body r" for r m
    by (auto simp: revocation_signing_bytes_def rev_ok_def rev_body_def signing_simps revocation_require_id_def
        revocation_address_iff ID_MIN_def ID_MAX_def and_255 byte_fits_def uint_fits_def simp del: be_bytes.simps)
  show "rev_ok r \<Longrightarrow> rev_ok s \<Longrightarrow> rev_body r = rev_body s \<Longrightarrow> r\<lparr>dv_signature := []\<rparr> = s\<lparr>dv_signature := []\<rparr>" for r s
    by (auto simp: rev_ok_def rev_body_def body_simps byte_word_fits append_eq_append_conv rvn_text_length
        intro!: device_revocation.equality simp del: be_bytes.simps)
qed

lemma length_slice_in: "i \<le> j \<Longrightarrow> j \<le> length b \<Longrightarrow> length (slice b i j) = j - i"
  by (simp add: slice_def)

lemma slice_split: "i \<le> j \<Longrightarrow> j \<le> k \<Longrightarrow> k \<le> length b \<Longrightarrow>
    slice b i k = x @ y \<and> length x = j - i \<longleftrightarrow> slice b i j = x \<and> slice b j k = y"
  using slice_append[of i j k b] by (auto simp: length_slice_in append_eq_append_conv)

lemma read_lp_iff: "read_lp buf off = Inr (d, q) \<longleftrightarrow>
    1 \<le> length d \<and> length d \<le> 64 \<and> q = off + 2 + length d \<and> q \<le> length buf \<and> slice buf off q = framed d"
proof
  define n where "n = nat (from_bytes (slice buf off (off + 2)))"
  assume "read_lp buf off = Inr (d, q)"
  then have r: "off + 2 \<le> length buf" "1 \<le> n" "n \<le> 64" "off + 2 + n \<le> length buf" "d = slice buf (off + 2) (off + 2 + n)"
    "q = off + 2 + n"
    unfolding read_lp_def Let_def n_def[symmetric] ID_MIN_def ID_MAX_def by (auto split: if_splits)
  have l: "length d = n" "length (slice buf off (off + 2)) = 2" using r by (simp_all add: length_slice_in)
  have "int n = from_bytes (slice buf off (off + 2))" using from_bytes_bounds by (simp add: n_def)
  then have "be_bytes 2 (int n) = slice buf off (off + 2)" using be_from_len[OF l(2)] by simp
  then have "framed d = slice buf off (off + 2 + n)" using slice_append[of off "off + 2" "off + 2 + n" buf] r(5) l(1)
    by (simp add: framed_def)
  with r l show "1 \<le> length d \<and> length d \<le> 64 \<and> q = off + 2 + length d \<and> q \<le> length buf \<and> slice buf off q = framed d"
    by simp
next
  assume a: "1 \<le> length d \<and> length d \<le> 64 \<and> q = off + 2 + length d \<and> q \<le> length buf \<and> slice buf off q = framed d"
  then have "slice buf off q = be_bytes 2 (int (length d)) @ d \<and> length (be_bytes 2 (int (length d))) = (off + 2) - off"
    by (auto simp: framed_def simp del: be_bytes.simps)
  then have s: "slice buf off (off + 2) = be_bytes 2 (int (length d)) \<and> slice buf (off + 2) q = d"
    by (rule slice_split[THEN iffD1, rotated 3]) (use a in simp_all)
  have "nat (from_bytes (be_bytes 2 (int (length d)))) = length d" using a by simp
  with a s show "read_lp buf off = Inr (d, q)"
    by (simp add: read_lp_def Let_def ID_MIN_def ID_MAX_def del: be_bytes.simps)
qed

lemma revocation_encode_iff: "revocation_encode r = Inr w \<longleftrightarrow>
    rev_ok r \<and> length (dv_signature r) = 64 \<and> w = RVDR1_MAGIC @ rev_body r @ dv_signature r"
  by (auto simp: revocation_encode_def bindE_eq_Inr rev.sb_iff if_Inl_eq_Inr)

lemma length_rev_body: "rev_ok r \<Longrightarrow> length (rev_body r) = 179 + length (dv_device_id r) + length (dv_issuer_device_id r)"
  by (simp add: rev_body_def rev_ok_def rvn_text_length framed_def)

lemma length_rvdr1_magic [simp]: "length RVDR1_MAGIC = 8"
  by (simp add: RVDR1_MAGIC_def)

text \<open>Cutting a wire at the positions of the record and joining its fields are inverse.\<close>

lemma wire_slices:
  assumes q: "q1 = 56 + n" "q2 = q1 + 98 + m" "length w = q2 + 97"
    and l: "length mg = 8" "length vs = 2" "length a = 44" "length fd = 2 + n" "length ed = 32" "length x = 32" "length h = 32"
      "length fi = 2 + m" "length sq = 8" "length rid = 16" "length rs = 1" "length cr = 8" "length sg = 64"
  shows "w = mg @ vs @ a @ fd @ ed @ x @ h @ fi @ sq @ rid @ rs @ cr @ sg \<longleftrightarrow>
     slice w 0 8 = mg \<and> slice w 8 10 = vs \<and> slice w 10 54 = a \<and> slice w 54 q1 = fd \<and> slice w q1 (q1 + 32) = ed \<and>
     slice w (q1 + 32) (q1 + 64) = x \<and> slice w (q1 + 64) (q1 + 96) = h \<and> slice w (q1 + 96) q2 = fi \<and>
     slice w q2 (q2 + 8) = sq \<and> slice w (q2 + 8) (q2 + 24) = rid \<and> slice w (q2 + 24) (q2 + 25) = rs \<and>
     slice w (q2 + 25) (q2 + 33) = cr \<and> slice w (q2 + 33) (q2 + 97) = sg"
    (is "_ \<longleftrightarrow> ?S")
proof -
  have w: "slice w 0 8 @ slice w 8 10 @ slice w 10 54 @ slice w 54 q1 @ slice w q1 (q1 + 32) @ slice w (q1 + 32) (q1 + 64) @
      slice w (q1 + 64) (q1 + 96) @ slice w (q1 + 96) q2 @ slice w q2 (q2 + 8) @ slice w (q2 + 8) (q2 + 24) @
      slice w (q2 + 24) (q2 + 25) @ slice w (q2 + 25) (q2 + 33) @ slice w (q2 + 33) (q2 + 97) = w" (is "?L = w")
    using q by (simp add: slice_append) (simp add: slice_def)
  have "w = mg @ vs @ a @ fd @ ed @ x @ h @ fi @ sq @ rid @ rs @ cr @ sg \<longleftrightarrow>
      ?L = mg @ vs @ a @ fd @ ed @ x @ h @ fi @ sq @ rid @ rs @ cr @ sg"
    by (simp only: w)
  also have "\<dots> \<longleftrightarrow> ?S"
    using q l by (simp only: append_eq_append_conv length_slice_in le_add1 simp_thms)
      (simp add: append_eq_append_conv length_slice_in)
  finally show ?thesis .
qed

lemma length_framed: "length (framed b) = 2 + length b"
  by (simp add: framed_def)

lemma slice_8_10: "10 \<le> length w \<Longrightarrow> slice w 8 10 = [w ! 8, w ! 9]"
  using take_Suc_conv_app_nth[of 9 w] take_Suc_conv_app_nth[of 8 w] by (simp add: slice_def)

lemma revocation_decode_iff:
  "revocation_decode w = Inr r \<longleftrightarrow>
     (\<exists>q1 q2. 253 \<le> length w \<and> take 8 w = RVDR1_MAGIC \<and> w ! 8 = RVDR1_VERSION \<and> w ! 9 = RVDR1_SUITE \<and>
       ascii_decode (slice w 10 54) = Inr (dv_identity_address r) \<and> rvn_text (dv_identity_address r) \<and>
       read_lp w 54 = Inr (dv_device_id r, q1) \<and> read_lp w (q1 + 96) = Inr (dv_issuer_device_id r, q2) \<and>
       length w = q2 + 97 \<and> slice w (q2 + 8) (q2 + 24) \<noteq> zeros 16 \<and>
       dv_device_ed_pub r = slice w q1 (q1 + 32) \<and> dv_device_x_pub r = slice w (q1 + 32) (q1 + 64) \<and>
       dv_device_cert_hash r = slice w (q1 + 64) (q1 + 96) \<and> dv_issuer_seq r = from_bytes (slice w q2 (q2 + 8)) \<and>
       dv_revocation_id r = slice w (q2 + 8) (q2 + 24) \<and> dv_reason_code r = uint (w ! (q2 + 24)) \<and>
       dv_created_at_ms r = from_bytes (slice w (q2 + 25) (q2 + 33)) \<and> dv_signature r = slice w (q2 + 33) (q2 + 97))"
    (is "?D \<longleftrightarrow> ?R")
proof
  assume D: ?D
  then have c: "253 \<le> length w" "take 8 w = RVDR1_MAGIC" "w ! 8 = RVDR1_VERSION" "w ! 9 = RVDR1_SUITE"
    by (auto simp: revocation_decode_def FIXED_PREFIX_LEN_def ID_MIN_def split: if_splits)
  then have "\<not> length w < 253" by simp
  note head = this revocation_decode_def FIXED_PREFIX_LEN_def ID_MIN_def c Let_def
  from D obtain a where a: "ascii_decode (slice w 10 54) = Inr a" by (cases "ascii_decode (slice w 10 54)") (simp_all add: head)
  from D obtain b where b: "revocation_require_address a = Inr b"
    by (cases "revocation_require_address a") (simp_all add: head a)
  from D have "\<exists>p. read_lp w 54 = Inr p" by (cases "read_lp w 54") (simp_all add: head a b)
  then obtain d q1 where d: "read_lp w 54 = Inr (d, q1)" by auto
  from D have "\<exists>p. read_lp w (q1 + 96) = Inr p" by (cases "read_lp w (q1 + 96)") (simp_all add: head a b d)
  then obtain i q2 where i: "read_lp w (q1 + 96) = Inr (i, q2)" by auto
  from D have f: "length w = q2 + 97" "slice w (q2 + 8) (q2 + 24) \<noteq> zeros 16"
    "r = \<lparr>dv_identity_address = a, dv_device_id = d, dv_device_ed_pub = slice w q1 (q1 + 32), dv_device_x_pub = slice w (q1 + 32) (q1 + 64),
       dv_device_cert_hash = slice w (q1 + 64) (q1 + 96), dv_issuer_device_id = i,
       dv_issuer_seq = from_bytes (slice w q2 (q2 + 8)), dv_revocation_id = slice w (q2 + 8) (q2 + 24), dv_reason_code = uint (w ! (q2 + 24)),
       dv_created_at_ms = from_bytes (slice w (q2 + 25) (q2 + 33)), dv_signature = slice w (q2 + 33) (q2 + 97)\<rparr>"
    by (simp_all add: head a b d i split: if_splits)
  have "rvn_text a" "156 \<le> q2" using b c(1) f(1) by (simp_all add: revocation_address_iff)
  show ?R by (rule exI[of _ q1], rule exI[of _ q2]) (simp add: c a \<open>rvn_text a\<close> \<open>156 \<le> q2\<close> d i f)
next
  assume ?R
  then show ?D unfolding revocation_decode_def Let_def
    using revocation_address_iff[of "dv_identity_address r" "asc (dv_identity_address r)"]
    by (cases r) (auto simp: FIXED_PREFIX_LEN_def ID_MIN_def)
qed

lemma slice_extend: "j \<le> length w \<Longrightarrow> slice (w @ x) i j = slice w i j"
  by (simp add: slice_def)

lemma read_lp_extend: "read_lp w i = Inr v \<Longrightarrow> read_lp (w @ x) i = Inr v"
  by (cases v) (simp add: read_lp_iff slice_extend)

lemma revocation_decode_encode: "revocation_decode w = Inr r \<Longrightarrow> revocation_encode r = Inr w"
proof -
  assume "revocation_decode w = Inr r"
  then obtain q1 q2 where d: "253 \<le> length w" "take 8 w = RVDR1_MAGIC" "w ! 8 = RVDR1_VERSION" "w ! 9 = RVDR1_SUITE"
    "ascii_decode (slice w 10 54) = Inr (dv_identity_address r)" "rvn_text (dv_identity_address r)"
    "read_lp w 54 = Inr (dv_device_id r, q1)" "read_lp w (q1 + 96) = Inr (dv_issuer_device_id r, q2)"
    "length w = q2 + 97" "slice w (q2 + 8) (q2 + 24) \<noteq> zeros 16"
    "dv_device_ed_pub r = slice w q1 (q1 + 32)" "dv_device_x_pub r = slice w (q1 + 32) (q1 + 64)"
    "dv_device_cert_hash r = slice w (q1 + 64) (q1 + 96)" "dv_issuer_seq r = from_bytes (slice w q2 (q2 + 8))"
    "dv_revocation_id r = slice w (q2 + 8) (q2 + 24)" "dv_reason_code r = uint (w ! (q2 + 24))"
    "dv_created_at_ms r = from_bytes (slice w (q2 + 25) (q2 + 33))" "dv_signature r = slice w (q2 + 33) (q2 + 97)"
    unfolding revocation_decode_iff by blast
  note i = d(7)[unfolded read_lp_iff] d(8)[unfolded read_lp_iff]
  have fr: "slice w 54 q1 = framed (dv_device_id r)" "slice w (q1 + 96) q2 = framed (dv_issuer_device_id r)" using i by blast+
  have q: "q1 = 56 + length (dv_device_id r)" "q2 = q1 + 98 + length (dv_issuer_device_id r)" using i by simp_all
  have sl: "length (slice w 10 54) = 44" "length (slice w q1 (q1 + 32)) = 32" "length (slice w (q1 + 32) (q1 + 64)) = 32"
    "length (slice w (q1 + 64) (q1 + 96)) = 32" "length (slice w q2 (q2 + 8)) = 8" "length (slice w (q2 + 8) (q2 + 24)) = 16"
    "length (slice w (q2 + 25) (q2 + 33)) = 8" "length (slice w (q2 + 33) (q2 + 97)) = 64"
    using q d(9) by (simp_all add: length_slice_in)
  have ok: "rev_ok r" using d(6,10-17) i sl by (simp add: rev_ok_def fits_from_len byte_fits_uint)
  have "w = RVDR1_MAGIC @ rev_body r @ dv_signature r"
  proof -
    have "asc (dv_identity_address r) = slice w 10 54" using d(5) by (simp add: ascii_decode_iff ascii_encode_Inr)
    moreover have "slice w (q2 + 24) (q2 + 25) = [w ! (q2 + 24)]"
      using d(9) slice_one[of "q2 + 24" w] by (simp add: add.commute)
    moreover have "slice w 0 8 = RVDR1_MAGIC" using d(2) by (simp add: slice_def)
    moreover have "slice w 8 10 = [RVDR1_VERSION, RVDR1_SUITE]" using slice_8_10[of w] d(1,3,4) by simp
    ultimately show ?thesis
      unfolding rev_body_def append_assoc
      by (subst wire_slices[OF q d(9)]) (use fr sl d(11-18) in \<open>simp_all add: length_framed be_from_len del: be_bytes.simps\<close>)
  qed
  then show "revocation_encode r = Inr w" using ok sl(8) d(18) by (simp add: revocation_encode_iff)
qed

lemma revocation_encode_decode: "revocation_encode r = Inr w \<Longrightarrow> revocation_decode w = Inr r"
proof -
  assume "revocation_encode r = Inr w"
  then have e: "rev_ok r" "length (dv_signature r) = 64" "w = RVDR1_MAGIC @ rev_body r @ dv_signature r"
    by (simp_all add: revocation_encode_iff)
  define q1 q2 where q: "q1 = 56 + length (dv_device_id r)" "q2 = q1 + 98 + length (dv_issuer_device_id r)"
  have len: "length w = q2 + 97" using length_rev_body[OF e(1)] e(2) by (simp add: e(3) q)
  have l: "length (asc (dv_identity_address r)) = 44" "length (dv_device_ed_pub r) = 32" "length (dv_device_x_pub r) = 32"
    "length (dv_device_cert_hash r) = 32" "length (dv_revocation_id r) = 16"
    using e(1) by (simp_all add: rev_ok_def rvn_text_length)
  have "slice w 0 8 = RVDR1_MAGIC \<and> slice w 8 10 = [RVDR1_VERSION, RVDR1_SUITE] \<and> slice w 10 54 = asc (dv_identity_address r) \<and>
    slice w 54 q1 = framed (dv_device_id r) \<and> slice w q1 (q1 + 32) = dv_device_ed_pub r \<and>
    slice w (q1 + 32) (q1 + 64) = dv_device_x_pub r \<and> slice w (q1 + 64) (q1 + 96) = dv_device_cert_hash r \<and>
    slice w (q1 + 96) q2 = framed (dv_issuer_device_id r) \<and> slice w q2 (q2 + 8) = be_bytes 8 (dv_issuer_seq r) \<and>
    slice w (q2 + 8) (q2 + 24) = dv_revocation_id r \<and> slice w (q2 + 24) (q2 + 25) = [word_of_int (dv_reason_code r)] \<and>
    slice w (q2 + 25) (q2 + 33) = be_bytes 8 (dv_created_at_ms r) \<and> slice w (q2 + 33) (q2 + 97) = dv_signature r"
    by (rule iffD1[OF wire_slices[OF q len]]) (use e(2,3) l in \<open>simp_all add: rev_body_def length_framed del: be_bytes.simps\<close>)
  note sl = this
  have p: "253 \<le> length w" using len q e(1) by (simp add: rev_ok_def)
  have "slice w (q2 + 24) (q2 + 25) = [w ! (q2 + 24)]" using len slice_one[of "q2 + 24" w] by (simp add: add.commute)
  then have "w ! (q2 + 24) = word_of_int (dv_reason_code r)" using sl by simp
  then have "uint (w ! (q2 + 24)) = dv_reason_code r" using e(1) uint_byte_of_int by (simp add: rev_ok_def)
  moreover have "[w ! 8, w ! 9] = [RVDR1_VERSION, RVDR1_SUITE]" using slice_8_10[of w] p sl by simp
  moreover have "take 8 w = RVDR1_MAGIC" using sl by (simp add: slice_def)
  moreover have "ascii_decode (slice w 10 54) = Inr (dv_identity_address r)"
    using sl e(1) rvn_encode_plain plain_ascii by (auto simp: ascii_decode_iff rev_ok_def rvn_text_def)
  moreover have "read_lp w 54 = Inr (dv_device_id r, q1)" "read_lp w (q1 + 96) = Inr (dv_issuer_device_id r, q2)"
    using sl e(1) len q by (simp_all add: read_lp_iff rev_ok_def)
  moreover have "from_bytes (be_bytes 8 (dv_issuer_seq r)) = dv_issuer_seq r"
    "from_bytes (be_bytes 8 (dv_created_at_ms r)) = dv_created_at_ms r"
    using e(1) by (simp_all add: rev_ok_def from_be_fits)
  ultimately show "revocation_decode w = Inr r"
    unfolding revocation_decode_iff using sl e(1) len p by (intro exI[of _ q1] exI[of _ q2]) (simp add: rev_ok_def)
qed

lemma revocation_length: "revocation_decode w = Inr r \<Longrightarrow>
    \<exists>d q1 i q2. read_lp w 54 = Inr (d, q1) \<and> read_lp w (q1 + 96) = Inr (i, q2) \<and> length w = q2 + 97"
  unfolding revocation_decode_iff by blast

lemma revocation_prefix_free: "revocation_decode (w @ x) = Inr r' \<Longrightarrow> revocation_decode w = Inr r \<Longrightarrow> x = []"
proof -
  assume "revocation_decode (w @ x) = Inr r'" "revocation_decode w = Inr r"
  then obtain d q1 i q2 d' p1 i' p2 where "read_lp w 54 = Inr (d, q1)" "read_lp w (q1 + 96) = Inr (i, q2)" "length w = q2 + 97"
    "read_lp (w @ x) 54 = Inr (d', p1)" "read_lp (w @ x) (p1 + 96) = Inr (i', p2)" "length (w @ x) = p2 + 97"
    by (metis revocation_length)
  then show "x = []" using read_lp_extend[of w] by fastforce
qed

text \<open>
  C36: The revocation codec is canonical: a byte string decodes to a record exactly when encoding the
  record, with its signature, writes that byte string; and no wire is a proper prefix of another.
\<close>

theorem revocation_codec_canonical:
  "(revocation_decode w = Inr r \<longleftrightarrow> revocation_encode r = Inr w) \<and>
   ((\<exists>r'. revocation_decode (w @ x) = Inr r') \<and> revocation_decode w = Inr r \<longleftrightarrow> x = [] \<and> revocation_decode w = Inr r)"
  using revocation_decode_encode[of w r] revocation_encode_decode[of r w] revocation_prefix_free[of w x] by auto

section \<open>The snapshot does not depend on the order of the store\<close>

lemma sorted_by_total: "(\<And>x. x \<in> set xs \<Longrightarrow> key x = Inr (k x)) \<Longrightarrow> sorted_by key xs = Inr (sort_key k xs)"
proof -
  assume "\<And>x. x \<in> set xs \<Longrightarrow> key x = Inr (k x)"
  then have "mapE key xs = Inr (map k xs)" by (rule mapE_Inr)
  moreover have "zip (map k xs) xs = map (\<lambda>x. (k x, x)) xs" by (induction xs) simp_all
  ultimately show ?thesis by (simp add: sorted_by_def sort_key_map comp_def)
qed

lemma mapE_fails: "(\<And>x. x \<in> set xs \<Longrightarrow> key x = Inl e \<or> (\<exists>k. key x = Inr k)) \<Longrightarrow> \<exists>x \<in> set xs. key x = Inl e \<Longrightarrow> mapE key xs = Inl e"
proof (induction xs)
  case (Cons x xs)
  show ?case
  proof (cases "key x")
    case (Inr k)
    with Cons.prems have "\<exists>y \<in> set xs. key y = Inl e" by auto
    with Cons.IH Cons.prems(1) Inr show ?thesis by simp
  qed (use Cons.prems(1)[of x] in simp)
qed simp

text \<open>Sorting by a key that can only fail in one way depends on the multiset of the list alone.\<close>

lemma sorted_by_perm:
  assumes key: "\<And>x. x \<in> set xs \<Longrightarrow> key x = Inl e \<or> key x = Inr (k x)"
    and inj: "inj_on k (set xs)" and m: "mset xs = mset ys"
  shows "sorted_by key xs = sorted_by key ys"
proof -
  have s: "set xs = set ys" using m by (metis set_mset_mset)
  show ?thesis
  proof (cases "\<exists>x \<in> set xs. key x = Inl e")
    case True
    have a: "x \<in> set xs \<Longrightarrow> key x = Inl e \<or> (\<exists>k. key x = Inr k)" for x using key by blast
    have "mapE key xs = Inl e" "mapE key ys = Inl e"
      using mapE_fails[of xs key e] mapE_fails[of ys key e] a True s by auto
    then show ?thesis by (simp add: sorted_by_def)
  next
    case False
    then have "\<And>x. x \<in> set xs \<Longrightarrow> key x = Inr (k x)" "\<And>x. x \<in> set ys \<Longrightarrow> key x = Inr (k x)" using key s by blast+
    then show ?thesis using sorted_by_total[of xs key k] sorted_by_total[of ys key k] sort_key_perm[OF inj m] by simp
  qed
qed

definition ex_marker :: "int \<Rightarrow> corrupt_marker" where
  "ex_marker n = \<lparr>co_scope = ''a'', co_reason_code = n\<rparr>"

lemma ex_marker_order:
  "canonical_store_snapshot 0 [] [] [ex_marker 1, ex_marker 2] \<noteq> canonical_store_snapshot 0 [] [] [ex_marker 2, ex_marker 1]"
proof -
  have "sorted_by (\<lambda>c. Inr (utf8 (co_scope c))) [ex_marker i, ex_marker j] = Inr [ex_marker i, ex_marker j]" for i j
    by (simp add: sorted_by_def ex_marker_def)
  moreover have "sorted_by (\<lambda>c. Inr (store_claim_digest c)) [] = Inr []" by (simp add: sorted_by_def)
  moreover have "length (utf8 ''a'') \<le> 65535" using length_utf8[of "''a''"] by simp
  moreover have "(1 :: int) AND 255 = 1" "(2 :: int) AND 255 = 2" by simp_all
  ultimately show ?thesis
    by (simp add: canonical_store_snapshot_def snapshot_corrupt_def ex_marker_def Let_def canon_u64_def to_bytes_def
        lp_def LP_MAX_LEN_def sorted_by_def)
qed

text \<open>
  The snapshot of a revocation store depends on its contents only: permuting the claims, the
  exhausted markers and the corrupt markers changes nothing, as long as digests, marker keys and
  scopes tell the entries apart. Where they do not, it can change: two corrupt markers of one scope
  with different reasons are written in the order of the store.
\<close>

theorem snapshot_order_independent:
  fixes cs :: "store_claim list" and es :: "exhausted_marker list" and ks :: "corrupt_marker list"
  assumes "mset cs = mset cs'" "mset es = mset es'" "mset ks = mset ks'"
    and "inj_on store_claim_digest (set cs)" "inj_on (\<lambda>e. (ex_identity_address e, ex_claim_digest e)) (set es)"
    and "inj_on co_scope (set ks)"
  shows "canonical_store_snapshot g cs es ks = canonical_store_snapshot g cs' es' ks' \<and>
    revocation_store_hash g cs es ks = revocation_store_hash g cs' es' ks' \<and>
    canonical_store_snapshot 0 [] [] [ex_marker 1, ex_marker 2] \<noteq> canonical_store_snapshot 0 [] [] [ex_marker 2, ex_marker 1]"
proof -
  let ?k = "\<lambda>e. bindE (ascii_encode (ex_identity_address e)) (\<lambda>a. Inr (a, ex_claim_digest e))"
  have "sorted_by (\<lambda>c. Inr (store_claim_digest c)) cs = sorted_by (\<lambda>c. Inr (store_claim_digest c)) cs'"
    using sorted_by_perm[where key = "\<lambda>c. Inr (store_claim_digest c)" and k = store_claim_digest] assms(1,4) by auto
  moreover have "sorted_by ?k es = sorted_by ?k es'"
  proof (rule sorted_by_perm[where k = "\<lambda>e. (asc (ex_identity_address e), ex_claim_digest e)"])
    show "?k e = Inl (UnicodeError ''ordinal not in range(128)'') \<or> ?k e = Inr (asc (ex_identity_address e), ex_claim_digest e)" for e
      by (simp add: ascii_encode_def)
    show "inj_on (\<lambda>e. (asc (ex_identity_address e), ex_claim_digest e)) (set es)"
      using assms(5) by (auto simp: inj_on_def)
  qed (rule assms)
  moreover have "sorted_by (\<lambda>c. Inr (utf8 (co_scope c))) ks = sorted_by (\<lambda>c. Inr (utf8 (co_scope c))) ks'"
  proof (rule sorted_by_perm[where k = "\<lambda>c. utf8 (co_scope c)"])
    show "inj_on (\<lambda>c. utf8 (co_scope c)) (set ks)" using assms(6) by (auto simp: inj_on_def)
  qed (use assms in auto)
  ultimately have "canonical_store_snapshot g cs es ks = canonical_store_snapshot g cs' es' ks'"
    by (simp add: canonical_store_snapshot_def)
  then show ?thesis using ex_marker_order by (simp add: revocation_store_hash_def)
qed

theorem snapshot_order_independent_witness:
  "canonical_store_snapshot 5 [\<lparr>sc_exact_record_bytes = [1]\<rparr>] [] [ex_marker 1, \<lparr>co_scope = ''b'', co_reason_code = 1\<rparr>] =
   canonical_store_snapshot 5 [\<lparr>sc_exact_record_bytes = [1]\<rparr>] [] [\<lparr>co_scope = ''b'', co_reason_code = 1\<rparr>, ex_marker 1]"
  using snapshot_order_independent[of "[\<lparr>sc_exact_record_bytes = [1]\<rparr>]" "[\<lparr>sc_exact_record_bytes = [1]\<rparr>]" "[]" "[]"
      "[ex_marker 1, \<lparr>co_scope = ''b'', co_reason_code = 1\<rparr>]" "[\<lparr>co_scope = ''b'', co_reason_code = 1\<rparr>, ex_marker 1]"]
  by (simp add: ex_marker_def add_mset_commute)

end
