(* ===== verification/RevocationStore.thy ===== *)
theory RevocationStore
  imports Revocation
begin

text \<open>
  The revocation store of \<open>device_revocation_conformance.py\<close>: verified claims under a quota, the deny
  set they span, markers for exhaustion and corruption, the journal, and the local authorization of
  devices. An operation returns its result and the new store, also when it raises after a change.
\<close>

section \<open>State\<close>

record revoked_target =
  rt_kind :: string
  rt_value_hex :: string
  rt_claim_digest_hex :: string
  rt_revocation_id_hex :: string

record issuer_head =
  ih_issuer_seq :: int
  ih_claim_digest_hex :: string
  ih_fork_flags :: bool

record conformance_store =
  cs_identity_address :: string
  cs_generation :: int
  cs_claims :: "(string, bytes) dict"
  cs_revoked :: "revoked_target list"
  cs_exhausted :: "exhausted_marker list"
  cs_corrupt :: "corrupt_marker list"
  cs_seen_revocation_ids :: "(string, string) dict"
  cs_collisions :: "(string, string) dict list"
  cs_forks :: "(string, pyval) dict list"
  cs_issuer_heads :: "(string, issuer_head) dict"
  cs_max_claims :: int
  cs_journal :: "(string, string) dict option"

definition new_conformance_store :: "string \<Rightarrow> int \<Rightarrow> conformance_store" where
  "new_conformance_store identity_address max_claims =
     \<lparr>cs_identity_address = identity_address, cs_generation = 0, cs_claims = [], cs_revoked = [], cs_exhausted = [],
      cs_corrupt = [], cs_seen_revocation_ids = [], cs_collisions = [], cs_forks = [], cs_issuer_heads = [],
      cs_max_claims = max_claims, cs_journal = None\<rparr>"

definition store_hash :: "conformance_store \<Rightarrow> bytes res" where
  "store_hash s = revocation_store_hash (cs_generation s)
     (map (\<lambda>(_, b). \<lparr>sc_exact_record_bytes = b\<rparr>) (cs_claims s)) (cs_exhausted s) (cs_corrupt s)"

definition str_dict :: "(string, string) dict \<Rightarrow> pyval" where
  "str_dict d = PDict (map (\<lambda>(k, v). (k, PStr v)) d)"

definition target_dict :: "revoked_target \<Rightarrow> pyval" where
  "target_dict t = PDict [(''kind'', PStr (rt_kind t)), (''value_hex'', PStr (rt_value_hex t)),
     (''claim_digest_hex'', PStr (rt_claim_digest_hex t)), (''revocation_id_hex'', PStr (rt_revocation_id_hex t))]"

definition snapshot_dict :: "conformance_store \<Rightarrow> pyval res" where
  "snapshot_dict s =
     bindE (sorted_by (\<lambda>hx. bindE (fromhex hx) (\<lambda>b. Inr (bytes_hex (claim_digest b))))
              (map (\<lambda>(_, b). bytes_hex b) (cs_claims s))) (\<lambda>wires.
     bindE (store_hash s) (\<lambda>h.
     Inr (PDict
       [(''generation'', PInt (cs_generation s)),
        (''claims_wire_hex'', PList (map PStr wires)),
        (''revoked_targets'', PList (map target_dict
           (sort_key (\<lambda>t. (rt_claim_digest_hex t, rt_kind t, rt_value_hex t)) (cs_revoked s)))),
        (''exhausted'', PList (map (\<lambda>e. PDict [(''identity_address'', PStr (ex_identity_address e)),
             (''claim_digest_hex'', PStr (bytes_hex (ex_claim_digest e))),
             (''exact_record_bytes_hex'', PStr (bytes_hex (ex_exact_record_bytes e)))])
           (sort_key (\<lambda>e. (ex_identity_address e, ex_claim_digest e)) (cs_exhausted s)))),
        (''corrupt'', PList (map (\<lambda>c. PDict [(''scope'', PStr (co_scope c)), (''reason_code'', PInt (co_reason_code c))])
           (sort_key co_scope (cs_corrupt s)))),
        (''revocation_id_collisions'', PList (map str_dict (cs_collisions s))),
        (''forks'', PList (map PDict (cs_forks s))),
        (''revocation_store_hash_hex'', PStr (bytes_hex h)),
        (''journal'', case cs_journal s of None \<Rightarrow> PNone | Some j \<Rightarrow> str_dict j)])))"

definition lineage_targets :: "device_revocation \<Rightarrow> bytes \<Rightarrow> revoked_target list" where
  "lineage_targets r cd =
     (let rid = bytes_hex (dv_revocation_id r); cd_h = bytes_hex cd;
          tg = (\<lambda>kind value. \<lparr>rt_kind = kind, rt_value_hex = bytes_hex value, rt_claim_digest_hex = cd_h,
                              rt_revocation_id_hex = rid\<rparr>)
      in [tg ''device_id'' (dv_device_id r), tg ''device_ed_pub'' (dv_device_ed_pub r),
          tg ''device_x_pub'' (dv_device_x_pub r), tg ''device_cert_hash'' (dv_device_cert_hash r)])"

text \<open>What a target denies.\<close>

definition denied :: "revoked_target \<Rightarrow> string \<times> string" where
  "denied t = (rt_kind t, rt_value_hex t)"

definition append_targets :: "revoked_target list \<Rightarrow> revoked_target list \<Rightarrow> revoked_target list" where
  "append_targets revoked targets =
     foldl (\<lambda>rs t. if denied t \<in> denied ` set rs then rs else rs @ [t]) revoked targets"

section \<open>Operations\<close>

definition with_snapshot :: "conformance_store \<Rightarrow> (string \<times> pyval) list \<Rightarrow> pyval res \<times> conformance_store" where
  "with_snapshot s items = (bindE (snapshot_dict s) (\<lambda>snap. Inr (PDict (items @ [(''store'', snap)]))), s)"

definition journal_kind :: "conformance_store \<Rightarrow> string option" where
  "journal_kind s = (case cs_journal s of None \<Rightarrow> None | Some j \<Rightarrow> map_of j ''kind'')"

text \<open>The guards on the journal at the start of \<open>apply_verified_claim\<close>.\<close>

definition check_journal :: "conformance_store \<Rightarrow> bytes \<Rightarrow> string \<Rightarrow> bool \<Rightarrow> unit res" where
  "check_journal s wire cd_h pending_already_written =
     (if pending_already_written then
       (case cs_journal s of
          None \<Rightarrow> Inl (ValueError ''missing_pending'')
        | Some j \<Rightarrow>
            if map_of j ''kind'' = Some ''PENDING_REVOKE_EXHAUSTED'' then Inl (ValueError ''direct_exhausted_consumption'')
            else if map_of j ''kind'' \<noteq> Some ''PENDING_REVOKE'' then Inl (ValueError ''missing_pending'')
            else if map_of j ''exact_record_bytes_hex'' \<noteq> Some (bytes_hex wire) then Inl (ValueError ''pending_bytes_mismatch'')
            else if map_of j ''claim_digest_hex'' \<noteq> Some cd_h then Inl (ValueError ''pending_digest_mismatch'')
            else Inr ())
      else if journal_kind s = Some ''PENDING_REVOKE_EXHAUSTED'' then Inl (ValueError ''direct_exhausted_consumption'')
      else Inr ())"

text \<open>The transition to exhausted, and the normal insert.\<close>

definition exhaust_claim :: "conformance_store \<Rightarrow> bytes \<Rightarrow> bytes \<Rightarrow> conformance_store" where
  "exhaust_claim s wire cd =
     s\<lparr>cs_exhausted := filter (\<lambda>e. ex_claim_digest e \<noteq> cd) (cs_exhausted s) @
          [\<lparr>ex_identity_address = cs_identity_address s, ex_claim_digest = cd, ex_exact_record_bytes = wire\<rparr>],
       cs_journal := Some [(''kind'', ''PENDING_REVOKE_EXHAUSTED''), (''claim_digest_hex'', bytes_hex cd),
                           (''exact_record_bytes_hex'', bytes_hex wire)],
       cs_generation := cs_generation s + 1\<rparr>"

definition note_revocation_id :: "conformance_store \<Rightarrow> string \<Rightarrow> string \<Rightarrow> conformance_store" where
  "note_revocation_id s rid cd_h =
     (case map_of (cs_seen_revocation_ids s) rid of
        Some first \<Rightarrow>
          if first \<noteq> cd_h then s\<lparr>cs_collisions := cs_collisions s @
            [[(''revocation_id_hex'', rid), (''first_claim_digest_hex'', first), (''second_claim_digest_hex'', cd_h)]]\<rparr>
          else s\<lparr>cs_seen_revocation_ids := AList.update rid cd_h (cs_seen_revocation_ids s)\<rparr>
      | None \<Rightarrow> s\<lparr>cs_seen_revocation_ids := AList.update rid cd_h (cs_seen_revocation_ids s)\<rparr>)"

definition note_issuer :: "conformance_store \<Rightarrow> string \<Rightarrow> int \<Rightarrow> string \<Rightarrow> conformance_store" where
  "note_issuer s issuer_key issuer_seq cd_h =
     (let head = map_of (cs_issuer_heads s) issuer_key;
          fork = (case head of None \<Rightarrow> False | Some h \<Rightarrow> ih_issuer_seq h = issuer_seq \<and> ih_claim_digest_hex h \<noteq> cd_h);
          s = (if fork then s\<lparr>cs_forks := cs_forks s @
                 [[(''issuer_device_id_hex'', PStr issuer_key), (''issuer_seq'', PInt issuer_seq),
                   (''first_claim_digest_hex'', PStr (ih_claim_digest_hex (the head))),
                   (''second_claim_digest_hex'', PStr cd_h)]]\<rparr> else s)
      in s\<lparr>cs_issuer_heads := AList.update issuer_key
             \<lparr>ih_issuer_seq = issuer_seq, ih_claim_digest_hex = cd_h, ih_fork_flags = fork\<rparr> (cs_issuer_heads s)\<rparr>)"

definition insert_claim :: "conformance_store \<Rightarrow> device_revocation \<Rightarrow> bytes \<Rightarrow> bytes \<Rightarrow> bool \<Rightarrow> conformance_store" where
  "insert_claim s r wire cd pending_already_written =
     (let cd_h = bytes_hex cd;
          s = note_revocation_id s (bytes_hex (dv_revocation_id r)) cd_h;
          s = note_issuer s (bytes_hex (dv_issuer_device_id r)) (dv_issuer_seq r) cd_h;
          s = s\<lparr>cs_claims := AList.update cd_h wire (cs_claims s)\<rparr>;
          s = s\<lparr>cs_revoked := append_targets (cs_revoked s) (lineage_targets r cd)\<rparr>;
          s = s\<lparr>cs_exhausted := filter (\<lambda>e. ex_claim_digest e \<noteq> cd) (cs_exhausted s)\<rparr>;
          s = (if pending_already_written \<or> journal_kind s = Some ''PENDING_REVOKE'' then s\<lparr>cs_journal := None\<rparr> else s)
      in s\<lparr>cs_generation := cs_generation s + 1\<rparr>)"

definition apply_verified_claim ::
    "crypto \<Rightarrow> conformance_store \<Rightarrow> bytes \<Rightarrow> bytes \<Rightarrow> bool \<Rightarrow> pyval res \<times> conformance_store" where
  "apply_verified_claim c s wire identity_ed_pub pending_already_written =
     (let cd = claim_digest wire; cd_h = bytes_hex cd in
      case bindE (revocation_decode wire) (\<lambda>r.
           if dv_identity_address r \<noteq> cs_identity_address s then Inl (ValueError ''identity_address mismatch'')
           else bindE (revocation_verify c r identity_ed_pub) (\<lambda>ok.
           if \<not> ok then Inl (ValueError ''verify failed'')
           else bindE (check_journal s wire cd_h pending_already_written) (\<lambda>_. Inr r))) of
        Inl e \<Rightarrow> (Inl e, s)
      | Inr r \<Rightarrow>
          if map_of (cs_claims s) cd_h \<noteq> None
          then with_snapshot s [(''result'', PStr ''idempotent''), (''claim_digest_hex'', PStr cd_h)]
          else if cs_corrupt s \<noteq> [] then (Inl (ValueError ''REVOCATION_STORE_CORRUPT - fail closed''), s)
          else if int (length (cs_claims s)) \<ge> cs_max_claims s
          then with_snapshot (exhaust_claim s wire cd) [(''result'', PStr ''exhausted''), (''claim_digest_hex'', PStr cd_h)]
          else with_snapshot (insert_claim s r wire cd pending_already_written)
                 [(''result'', PStr ''applied''), (''claim_digest_hex'', PStr cd_h)])"

definition CORRUPT_TRUNCATED :: int where "CORRUPT_TRUNCATED = 1"
definition CORRUPT_DIGEST_MISMATCH :: int where "CORRUPT_DIGEST_MISMATCH = 2"
definition CORRUPT_BAD_SIGNATURE :: int where "CORRUPT_BAD_SIGNATURE = 3"

definition expand_quota :: "conformance_store \<Rightarrow> int \<Rightarrow> unit res \<times> conformance_store" where
  "expand_quota s new_max =
     (if new_max < cs_max_claims s then (Inl (ValueError ''quota may only expand''), s)
      else (Inr (), s\<lparr>cs_max_claims := new_max\<rparr>))"

definition convert_exhausted_journal_to_pending :: "conformance_store \<Rightarrow> unit res \<times> conformance_store" where
  "convert_exhausted_journal_to_pending s =
     (if journal_kind s \<noteq> Some ''PENDING_REVOKE_EXHAUSTED'' then (Inl (ValueError ''no PENDING_REVOKE_EXHAUSTED journal''), s)
      else case (map_of (the (cs_journal s)) ''claim_digest_hex'', map_of (the (cs_journal s)) ''exact_record_bytes_hex'') of
        (Some d, Some b) \<Rightarrow> (Inr (), s\<lparr>cs_journal := Some [(''kind'', ''PENDING_REVOKE''), (''claim_digest_hex'', d),
           (''exact_record_bytes_hex'', b), (''converted_from'', ''PENDING_REVOKE_EXHAUSTED'')]\<rparr>)
      | _ \<Rightarrow> (Inl (KeyError ''journal''), s))"

text \<open>The reason for which the body of \<open>reverify_journal\<close> raises, or nothing when it returns.\<close>

definition reverify_reason :: "crypto \<Rightarrow> conformance_store \<Rightarrow> bytes \<Rightarrow> bytes \<Rightarrow> bytes option \<Rightarrow> string option" where
  "reverify_reason c s identity_ed_pub wire claimed_digest =
     (if length wire < 54 then Some ''truncated''
      else (case revocation_decode wire of
        Inl _ \<Rightarrow> Some ''reverify_failed''
      | Inr r \<Rightarrow>
          (let cd = claim_digest wire;
               journal_digest = (case cs_journal s of None \<Rightarrow> None | Some j \<Rightarrow> map_of j ''claim_digest_hex'');
               verified = (case revocation_verify c r identity_ed_pub of
                  Inl _ \<Rightarrow> Some ''reverify_failed'' | Inr ok \<Rightarrow> if ok then None else Some ''bad_signature'')
           in if claimed_digest \<noteq> None \<and> claimed_digest \<noteq> Some cd then Some ''digest_mismatch''
              else if journal_digest = None \<or> journal_digest = Some [] then verified
              else (case fromhex (the journal_digest) of
                  Inl _ \<Rightarrow> Some ''reverify_failed''
                | Inr b \<Rightarrow> if b \<noteq> cd then Some ''digest_mismatch'' else verified))))"

definition journal_wire :: "conformance_store \<Rightarrow> bytes option \<Rightarrow> bytes res" where
  "journal_wire s exact_bytes =
     (case exact_bytes of
        Some b \<Rightarrow> Inr b
      | None \<Rightarrow> (case cs_journal s of
          None \<Rightarrow> Inl (ValueError ''no journal'')
        | Some j \<Rightarrow> (case map_of j ''exact_record_bytes_hex'' of
            None \<Rightarrow> Inl (KeyError ''exact_record_bytes_hex'') | Some hx \<Rightarrow> fromhex hx)))"

definition reverify_journal ::
    "crypto \<Rightarrow> conformance_store \<Rightarrow> bytes \<Rightarrow> bytes option \<Rightarrow> bytes option \<Rightarrow> pyval res \<times> conformance_store" where
  "reverify_journal c s identity_ed_pub exact_bytes claimed_digest =
     (case journal_wire s exact_bytes of
        Inl e \<Rightarrow> (Inl e, s)
      | Inr wire \<Rightarrow>
      (case reverify_reason c s identity_ed_pub wire claimed_digest of
        None \<Rightarrow> (Inr (PDict [(''result'', PStr ''ok''), (''claim_digest_hex'', PStr (bytes_hex (claim_digest wire)))]), s)
      | Some reason \<Rightarrow>
          let reason_code = (if reason = ''truncated'' then CORRUPT_TRUNCATED
                else if reason = ''digest_mismatch'' then CORRUPT_DIGEST_MISMATCH
                else if reason = ''bad_signature'' then CORRUPT_BAD_SIGNATURE else 9);
              s = s\<lparr>cs_corrupt := cs_corrupt s @ [\<lparr>co_scope = cs_identity_address s, co_reason_code = reason_code\<rparr>],
                    cs_journal := None, cs_generation := cs_generation s + 1\<rparr>
          in with_snapshot s [(''result'', PStr ''corrupt''), (''reason'', PStr reason), (''reason_code'', PInt reason_code)]))"

datatype authorization = Authorized | Denied string | DeniedTarget string

definition authorize_device ::
    "conformance_store \<Rightarrow> bytes option \<Rightarrow> bytes option \<Rightarrow> bytes option \<Rightarrow> bytes option \<Rightarrow> authorization" where
  "authorize_device s device_id device_ed_pub device_x_pub device_cert_hash =
     (if cs_corrupt s \<noteq> [] then Denied ''REVOCATION_STORE_CORRUPT''
      else if list_ex (\<lambda>e. ex_identity_address e = cs_identity_address s) (cs_exhausted s)
      then Denied ''IDENTITY_REVOKE_EXHAUSTED''
      else case List.find (\<lambda>(kind, val). case val of None \<Rightarrow> False
               | Some v \<Rightarrow> list_ex (\<lambda>t. rt_kind t = kind \<and> rt_value_hex t = v) (cs_revoked s))
             [(''device_id'', map_option bytes_hex device_id), (''device_ed_pub'', map_option bytes_hex device_ed_pub),
              (''device_x_pub'', map_option bytes_hex device_x_pub),
              (''device_cert_hash'', map_option bytes_hex device_cert_hash)] of
        Some (kind, _) \<Rightarrow> DeniedTarget kind
      | None \<Rightarrow> Authorized)"

text \<open>The dictionary that \<open>authorize_device\<close> returns; it echoes the caller's surface.\<close>

definition authorization_dict :: "authorization \<Rightarrow> string \<Rightarrow> pyval" where
  "authorization_dict a surface = PDict (case a of
       Authorized \<Rightarrow> [(''authorized'', PBool True), (''reason'', PStr ''ok''), (''surface'', PStr surface)]
     | Denied reason \<Rightarrow> [(''authorized'', PBool False), (''reason'', PStr reason), (''surface'', PStr surface)]
     | DeniedTarget kind \<Rightarrow> [(''authorized'', PBool False), (''reason'', PStr ''revoked_target''),
         (''matched_kind'', PStr kind), (''surface'', PStr surface)])"

section \<open>The deny set\<close>

text \<open>The kinds and values a record revokes, and those a store denies.\<close>

definition lineage :: "device_revocation \<Rightarrow> (string \<times> string) set" where
  "lineage r = {(''device_id'', bytes_hex (dv_device_id r)), (''device_ed_pub'', bytes_hex (dv_device_ed_pub r)),
     (''device_x_pub'', bytes_hex (dv_device_x_pub r)), (''device_cert_hash'', bytes_hex (dv_device_cert_hash r))}"

definition deny_set :: "conformance_store \<Rightarrow> (string \<times> string) set" where
  "deny_set s = denied ` set (cs_revoked s)"

lemma lineage_targets_denied: "denied ` set (lineage_targets r cd) = lineage r"
  by (simp add: lineage_targets_def lineage_def denied_def Let_def)

lemma append_targets_denied: "denied ` set (append_targets rs ts) = denied ` set rs \<union> denied ` set ts"
  unfolding append_targets_def by (induction ts arbitrary: rs) auto

lemma authorize_iff: "authorize_device s a b x d = Authorized \<longleftrightarrow>
    cs_corrupt s = [] \<and> (\<forall>e \<in> set (cs_exhausted s). ex_identity_address e \<noteq> cs_identity_address s) \<and>
    (\<forall>v. a = Some v \<longrightarrow> (''device_id'', bytes_hex v) \<notin> deny_set s) \<and>
    (\<forall>v. b = Some v \<longrightarrow> (''device_ed_pub'', bytes_hex v) \<notin> deny_set s) \<and>
    (\<forall>v. x = Some v \<longrightarrow> (''device_x_pub'', bytes_hex v) \<notin> deny_set s) \<and>
    (\<forall>v. d = Some v \<longrightarrow> (''device_cert_hash'', bytes_hex v) \<notin> deny_set s)"
proof -
  have l: "list_ex (\<lambda>t. rt_kind t = k \<and> rt_value_hex t = v) (cs_revoked s) \<longleftrightarrow> (k, v) \<in> deny_set s" for k v
    by (auto simp: list_ex_iff deny_set_def denied_def image_iff)
  show ?thesis
    unfolding authorize_device_def l
    by (auto simp: list_ex_iff find_None_iff split: option.splits)
qed

text \<open>What an accepted claim does to the store.\<close>

definition claim_valid :: "crypto \<Rightarrow> conformance_store \<Rightarrow> bytes \<Rightarrow> bytes \<Rightarrow> device_revocation \<Rightarrow> bool" where
  "claim_valid c s pub wire r \<longleftrightarrow> revocation_decode wire = Inr r \<and> dv_identity_address r = cs_identity_address s \<and>
     revocation_verify c r pub = Inr True"

lemma apply_spec:
  assumes "apply_verified_claim c s wire pub p = (res, s')"
  obtains (refused) e where "res = Inl e" "s' = s"
  | (known) r where "claim_valid c s pub wire r" "s' = s" "map_of (cs_claims s) (bytes_hex (claim_digest wire)) \<noteq> None"
  | (exhausted) r where "claim_valid c s pub wire r" "s' = exhaust_claim s wire (claim_digest wire)"
      "int (length (cs_claims s)) \<ge> cs_max_claims s" "map_of (cs_claims s) (bytes_hex (claim_digest wire)) = None"
      "cs_corrupt s = []"
  | (inserted) r where "claim_valid c s pub wire r" "s' = insert_claim s r wire (claim_digest wire) p"
      "int (length (cs_claims s)) < cs_max_claims s" "map_of (cs_claims s) (bytes_hex (claim_digest wire)) = None"
      "cs_corrupt s = []"
proof -
  let ?m = "bindE (revocation_decode wire) (\<lambda>r.
     if dv_identity_address r \<noteq> cs_identity_address s then Inl (ValueError ''identity_address mismatch'')
     else bindE (revocation_verify c r pub) (\<lambda>ok. if \<not> ok then Inl (ValueError ''verify failed'')
       else bindE (check_journal s wire (bytes_hex (claim_digest wire)) p) (\<lambda>_. Inr r)))"
  show thesis
  proof (cases ?m)
    case (Inl e)
    have "(res, s') = (Inl e, s)" using assms unfolding apply_verified_claim_def Let_def Inl by simp
    then show thesis using refused by blast
  next
    case (Inr r)
    then have v: "claim_valid c s pub wire r" by (auto simp: claim_valid_def bindE_eq_Inr if_Inl_eq_Inr)
    have a: "(res, s') = (if map_of (cs_claims s) (bytes_hex (claim_digest wire)) \<noteq> None
          then with_snapshot s [(''result'', PStr ''idempotent''), (''claim_digest_hex'', PStr (bytes_hex (claim_digest wire)))]
          else if cs_corrupt s \<noteq> [] then (Inl (ValueError ''REVOCATION_STORE_CORRUPT - fail closed''), s)
          else if int (length (cs_claims s)) \<ge> cs_max_claims s
          then with_snapshot (exhaust_claim s wire (claim_digest wire))
                 [(''result'', PStr ''exhausted''), (''claim_digest_hex'', PStr (bytes_hex (claim_digest wire)))]
          else with_snapshot (insert_claim s r wire (claim_digest wire) p)
                 [(''result'', PStr ''applied''), (''claim_digest_hex'', PStr (bytes_hex (claim_digest wire)))])"
      using assms unfolding apply_verified_claim_def Let_def Inr by simp
    then show thesis
      using refused known[OF v] exhausted[OF v] inserted[OF v] by (simp add: with_snapshot_def split: if_splits)
  qed
qed

lemma note_fields:
  "cs_identity_address (note_issuer s k n d) = cs_identity_address s" "cs_revoked (note_issuer s k n d) = cs_revoked s"
  "cs_claims (note_issuer s k n d) = cs_claims s" "cs_exhausted (note_issuer s k n d) = cs_exhausted s"
  "cs_corrupt (note_issuer s k n d) = cs_corrupt s" "cs_max_claims (note_issuer s k n d) = cs_max_claims s"
  "cs_generation (note_issuer s k n d) = cs_generation s"
  "cs_identity_address (note_revocation_id s rid d) = cs_identity_address s"
  "cs_revoked (note_revocation_id s rid d) = cs_revoked s" "cs_claims (note_revocation_id s rid d) = cs_claims s"
  "cs_exhausted (note_revocation_id s rid d) = cs_exhausted s" "cs_corrupt (note_revocation_id s rid d) = cs_corrupt s"
  "cs_max_claims (note_revocation_id s rid d) = cs_max_claims s" "cs_generation (note_revocation_id s rid d) = cs_generation s"
  by (simp_all add: note_issuer_def note_revocation_id_def Let_def split: option.split)

lemma insert_claim_fields:
  "cs_identity_address (insert_claim s r w cd p) = cs_identity_address s"
  "deny_set (insert_claim s r w cd p) = deny_set s \<union> lineage r"
  "cs_claims (insert_claim s r w cd p) = AList.update (bytes_hex cd) w (cs_claims s)"
  "cs_exhausted (insert_claim s r w cd p) = filter (\<lambda>e. ex_claim_digest e \<noteq> cd) (cs_exhausted s)"
  "cs_corrupt (insert_claim s r w cd p) = cs_corrupt s" "cs_max_claims (insert_claim s r w cd p) = cs_max_claims s"
  "cs_generation (insert_claim s r w cd p) = cs_generation s + 1"
  by (simp_all add: insert_claim_def Let_def note_fields deny_set_def append_targets_denied lineage_targets_denied)

lemma exhaust_claim_fields:
  "cs_identity_address (exhaust_claim s w cd) = cs_identity_address s" "deny_set (exhaust_claim s w cd) = deny_set s"
  "cs_claims (exhaust_claim s w cd) = cs_claims s" "cs_corrupt (exhaust_claim s w cd) = cs_corrupt s"
  "cs_exhausted (exhaust_claim s w cd) = filter (\<lambda>e. ex_claim_digest e \<noteq> cd) (cs_exhausted s) @
     [\<lparr>ex_identity_address = cs_identity_address s, ex_claim_digest = cd, ex_exact_record_bytes = w\<rparr>]"
  "cs_max_claims (exhaust_claim s w cd) = cs_max_claims s" "cs_generation (exhaust_claim s w cd) = cs_generation s + 1"
  by (simp_all add: exhaust_claim_def deny_set_def)

text \<open>Runs of the operations, with arbitrary arguments.\<close>

datatype revoke_op = ApplyClaim bytes bytes bool | ExpandQuota int | ConvertJournal | ReverifyJournal bytes "bytes option" "bytes option"

fun revoke_step :: "crypto \<Rightarrow> conformance_store \<Rightarrow> revoke_op \<Rightarrow> conformance_store" where
  "revoke_step c s (ApplyClaim wire pub p) = snd (apply_verified_claim c s wire pub p)"
| "revoke_step c s (ExpandQuota n) = snd (expand_quota s n)"
| "revoke_step c s ConvertJournal = snd (convert_exhausted_journal_to_pending s)"
| "revoke_step c s (ReverifyJournal pub b d) = snd (reverify_journal c s pub b d)"

definition revoke_run :: "crypto \<Rightarrow> conformance_store \<Rightarrow> revoke_op list \<Rightarrow> conformance_store" where
  "revoke_run c s ops = foldl (revoke_step c) s ops"

text \<open>The operations other than claims only touch quota, journal, corrupt markers and generation.\<close>

lemma other_steps:
  "\<not> (\<exists>w pub p. op = ApplyClaim w pub p) \<Longrightarrow> s' = revoke_step c s op \<Longrightarrow>
     cs_identity_address s' = cs_identity_address s \<and> cs_claims s' = cs_claims s \<and> cs_revoked s' = cs_revoked s \<and>
     cs_exhausted s' = cs_exhausted s \<and> cs_max_claims s \<le> cs_max_claims s' \<and> cs_generation s \<le> cs_generation s' \<and>
     (\<exists>m. cs_corrupt s' = cs_corrupt s @ m)"
  by (cases op) (auto simp: expand_quota_def convert_exhausted_journal_to_pending_def reverify_journal_def with_snapshot_def
      Let_def split: option.splits sum.splits)

definition store_inv :: "crypto \<Rightarrow> conformance_store \<Rightarrow> bool" where
  "store_inv c s \<longleftrightarrow> wf_dict (cs_claims s) \<and> int (length (cs_claims s)) \<le> cs_max_claims s \<and>
     (\<forall>(k, w) \<in> set (cs_claims s). k = bytes_hex (claim_digest w) \<and> (\<exists>pub r. claim_valid c s pub w r)) \<and>
     deny_set s = (\<Union>w \<in> snd ` set (cs_claims s). \<Union>r \<in> {r. revocation_decode w = Inr r}. lineage r)"

lemma store_inv_deny: "store_inv c s \<Longrightarrow>
    deny_set s = (\<Union>w \<in> set (map snd (cs_claims s)). \<Union>r \<in> {r. revocation_decode w = Inr r}. lineage r)"
  by (simp add: store_inv_def)

lemma lineage_denied: "store_inv c s \<Longrightarrow> w \<in> set (map snd (cs_claims s)) \<Longrightarrow> revocation_decode w = Inr r \<Longrightarrow> lineage r \<subseteq> deny_set s"
  unfolding store_inv_deny by blast

lemma store_inv_new: "0 \<le> n \<Longrightarrow> store_inv c (new_conformance_store a n)"
  by (simp add: store_inv_def new_conformance_store_def deny_set_def)

lemma claim_valid_identity: "cs_identity_address s' = cs_identity_address s \<Longrightarrow> claim_valid c s' = claim_valid c s"
  by (intro ext) (simp add: claim_valid_def)

lemma store_inv_step: "store_inv c s \<Longrightarrow> store_inv c (revoke_step c s op) \<and>
    cs_identity_address (revoke_step c s op) = cs_identity_address s \<and> cs_generation s \<le> cs_generation (revoke_step c s op)"
proof (cases "\<exists>w pub p. op = ApplyClaim w pub p")
  case False
  assume "store_inv c s"
  with other_steps[OF False refl, of c s] claim_valid_identity[of "revoke_step c s op" s c] show ?thesis
    by (auto simp: store_inv_def deny_set_def)
next
  case True
  assume inv: "store_inv c s"
  from True obtain w pub p where op: "op = ApplyClaim w pub p" by blast
  obtain res s' where a: "apply_verified_claim c s w pub p = (res, s')" by fastforce
  then have s': "revoke_step c s op = s'" by (simp add: op)
  from a show ?thesis
  proof (cases rule: apply_spec)
    case (exhausted r)
    then have "claim_valid c s' = claim_valid c s" by (intro claim_valid_identity) (simp add: exhaust_claim_fields)
    with exhausted(2) show ?thesis using inv by (simp add: store_inv_def exhaust_claim_fields s')
  next
    case (inserted r)
    have u: "cs_claims s' = cs_claims s @ [(bytes_hex (claim_digest w), w)]"
      using inserted(4) by (simp add: inserted(2) insert_claim_fields update_fresh)
    have "wf_dict (cs_claims s')" using inv inserted(2) by (simp add: store_inv_def insert_claim_fields)
    moreover have "{r'. revocation_decode w = Inr r'} = {r}" using inserted(1) by (auto simp: claim_valid_def)
    moreover have "claim_valid c s' = claim_valid c s" using inserted(2) by (intro claim_valid_identity) (simp add: insert_claim_fields)
    moreover have "deny_set s' = deny_set s \<union> lineage r" "cs_max_claims s' = cs_max_claims s"
      "cs_identity_address s' = cs_identity_address s" "cs_generation s' = cs_generation s + 1"
      by (simp_all add: inserted(2) insert_claim_fields)
    ultimately show ?thesis using inv inserted(1,3) by (auto simp: store_inv_def u s')
  qed (use inv s' in simp_all)
qed

lemma run_snoc: "revoke_run c s (ops @ [op]) = revoke_step c (revoke_run c s ops) op"
  by (simp add: revoke_run_def)

lemma store_inv_run: "store_inv c s \<Longrightarrow> store_inv c (revoke_run c s ops) \<and>
    cs_identity_address (revoke_run c s ops) = cs_identity_address s \<and> cs_generation s \<le> cs_generation (revoke_run c s ops)"
proof (induction ops rule: rev_induct)
  case (snoc op ops)
  then have 1: "store_inv c (revoke_run c s ops) \<and> cs_identity_address (revoke_run c s ops) = cs_identity_address s \<and>
      cs_generation s \<le> cs_generation (revoke_run c s ops)" by blast
  then have "store_inv c (revoke_run c s ops)" by blast
  from store_inv_step[OF this, of op] 1 show ?case unfolding run_snoc by (metis order_trans)
qed (simp add: revoke_run_def)

text \<open>The wires offered in a run.\<close>

definition wires_of :: "revoke_op list \<Rightarrow> bytes set" where
  "wires_of ops = {w. \<exists>pub p. ApplyClaim w pub p \<in> set ops}"

lemma claims_offered: "snd ` set (cs_claims (revoke_run c (new_conformance_store a n) ops)) \<subseteq> wires_of ops"
proof (induction ops rule: rev_induct)
  case (snoc op ops)
  define s where "s = revoke_run c (new_conformance_store a n) ops"
  have "snd ` set (cs_claims (revoke_step c s op)) \<subseteq> snd ` set (cs_claims s) \<union> wires_of [op]"
  proof (cases "\<exists>w pub p. op = ApplyClaim w pub p")
    case False
    then show ?thesis using other_steps[OF False refl, of c s] by simp
  next
    case True
    then obtain w pub p where op: "op = ApplyClaim w pub p" by blast
    obtain res s' where a: "apply_verified_claim c s w pub p = (res, s')" by fastforce
    from a show ?thesis
      by (cases rule: apply_spec)
        (auto simp: op a insert_claim_fields exhaust_claim_fields wires_of_def update_fresh)
  qed
  moreover have "wires_of (ops @ [op]) = wires_of ops \<union> wires_of [op]" by (auto simp: wires_of_def)
  ultimately show ?case using snoc by (auto simp: run_snoc s_def)
qed (simp add: revoke_run_def new_conformance_store_def)

text \<open>
  C17: In every run from an empty store the claims are at most the quota, each is filed under its own
  digest and verified for the store's identity, the deny set is exactly the union of what the claims
  revoke, and the generation never falls.
\<close>

theorem deny_set_is_union:
  assumes "0 \<le> n" and s: "s = revoke_run c (new_conformance_store a n) ops"
  shows "distinct (map fst (cs_claims s)) \<and> int (length (cs_claims s)) \<le> cs_max_claims s \<and>
    (\<forall>k w. (k, w) \<in> set (cs_claims s) \<longrightarrow> w \<in> wires_of ops \<and> k = bytes_hex (claim_digest w) \<and>
       (\<exists>pub r. revocation_decode w = Inr r \<and> dv_identity_address r = a \<and> revocation_verify c r pub = Inr True)) \<and>
    deny_set s = {t. \<exists>k w r. (k, w) \<in> set (cs_claims s) \<and> revocation_decode w = Inr r \<and> t \<in> lineage r} \<and>
    cs_generation s \<le> cs_generation (revoke_step c s op)"
proof -
  have inv: "store_inv c s" "cs_identity_address s = a"
    using store_inv_run[OF store_inv_new[OF assms(1)], of c a ops] by (simp_all add: s new_conformance_store_def)
  moreover have "snd ` set (cs_claims s) \<subseteq> wires_of ops" unfolding s by (rule claims_offered)
  moreover have "deny_set s = {t. \<exists>k w r. (k, w) \<in> set (cs_claims s) \<and> revocation_decode w = Inr r \<and> t \<in> lineage r}"
    using inv(1) by (force simp: store_inv_def)
  ultimately show ?thesis
    using store_inv_step[OF inv(1), of op] by (auto simp: store_inv_def wf_dict_def claim_valid_def)
qed

section \<open>A revocation is permanent\<close>

definition blocks :: "conformance_store \<Rightarrow> bytes \<Rightarrow> device_revocation \<Rightarrow> bool" where
  "blocks s wire r \<longleftrightarrow>
     (\<exists>e \<in> set (cs_exhausted s). ex_claim_digest e = claim_digest wire \<and> ex_identity_address e = cs_identity_address s) \<or>
     lineage r \<subseteq> deny_set s"

lemma blocks_apply:
  assumes a: "apply_verified_claim c s w pub p = (res, s')" and r: "revocation_decode wire = Inr r"
    and same: "claim_digest w = claim_digest wire \<Longrightarrow> w = wire" and b: "blocks s wire r"
  shows "blocks s' wire r"
  using a
proof (cases rule: apply_spec)
  case (exhausted r')
  then show ?thesis using b by (auto simp: blocks_def exhaust_claim_fields)
next
  case (inserted r')
  show ?thesis
  proof (cases "w = wire")
    case True
    then have "r' = r" using inserted(1) r by (simp add: claim_valid_def)
    then show ?thesis by (simp add: blocks_def inserted(2) insert_claim_fields)
  next
    case False
    then show ?thesis using b same by (auto simp: blocks_def inserted(2) insert_claim_fields)
  qed
qed (use b in simp_all)

lemma blocks_run:
  "blocks s wire r \<Longrightarrow> revocation_decode wire = Inr r \<Longrightarrow>
     \<forall>w \<in> wires_of ops. claim_digest w = claim_digest wire \<longrightarrow> w = wire \<Longrightarrow> blocks (revoke_run c s ops) wire r"
proof (induction ops rule: rev_induct)
  case (snoc op ops)
  then have b: "blocks (revoke_run c s ops) wire r" by (auto simp: wires_of_def)
  show ?case
  proof (cases "\<exists>w pub p. op = ApplyClaim w pub p")
    case False
    then show ?thesis using other_steps[OF False refl, of c "revoke_run c s ops"] b
      by (simp add: run_snoc blocks_def deny_set_def)
  next
    case True
    then obtain w pub p where op: "op = ApplyClaim w pub p" by blast
    have "claim_digest w = claim_digest wire \<Longrightarrow> w = wire" using snoc.prems(3) by (auto simp: wires_of_def op)
    from blocks_apply[OF _ snoc.prems(2) this b] show ?thesis by (simp add: run_snoc op prod_eq_iff)
  qed
qed (simp add: revoke_run_def)

lemma blocks_denied: "blocks s wire r \<Longrightarrow>
    i = Some (dv_device_id r) \<or> e = Some (dv_device_ed_pub r) \<or> x = Some (dv_device_x_pub r) \<or> h = Some (dv_device_cert_hash r) \<Longrightarrow>
    authorize_device s i e x h \<noteq> Authorized"
  unfolding blocks_def authorize_iff lineage_def by auto

lemma blocks_accepted:
  assumes s: "store_inv c s" and a: "apply_verified_claim c s wire pub p = (Inr v, s')"
    and r: "revocation_decode wire = Inr r"
    and same: "\<forall>w \<in> snd ` set (cs_claims s). claim_digest w = claim_digest wire \<longrightarrow> w = wire"
  shows "blocks s' wire r"
  using a
proof (cases rule: apply_spec)
  case (known r')
  then obtain w where w: "(bytes_hex (claim_digest wire), w) \<in> set (cs_claims s)" by (auto dest: map_of_SomeD)
  then have "bytes_hex (claim_digest wire) = bytes_hex (claim_digest w)" using s by (auto simp: store_inv_def)
  then have "claim_digest wire = claim_digest w" by (metis fromhex_hex sum.inject(2))
  have m: "w \<in> set (map snd (cs_claims s))" using w by (metis image_eqI list.set_map snd_conv)
  then have "w = wire" using same[rule_format, of w] \<open>claim_digest wire = claim_digest w\<close> by simp
  then have "lineage r \<subseteq> deny_set s" using lineage_denied[OF s m] r by simp
  then show ?thesis by (simp add: blocks_def known(2))
next
  case (exhausted r')
  then show ?thesis by (simp add: blocks_def exhaust_claim_fields)
next
  case (inserted r')
  then show ?thesis using r by (simp add: blocks_def insert_claim_fields claim_valid_def)
qed simp

text \<open>
  C8: A revocation is permanent. Once an offered claim has been accepted in any way (applied, already
  known, or recorded as exhausted), the store never again authorizes a device presented with the
  identifier, a key or the certificate hash that the claim revokes, whatever operations follow; the
  only proviso is that no other wire of the run has the same SHA-256.
\<close>

theorem revocation_is_permanent:
  assumes "0 \<le> n" and "s = revoke_run c (new_conformance_store a n) before"
    and "apply_verified_claim c s wire pub p = (Inr v, s')" and "revocation_decode wire = Inr r"
    and "\<forall>w \<in> wires_of (before @ after). claim_digest w = claim_digest wire \<longrightarrow> w = wire"
    and "i = Some (dv_device_id r) \<or> e = Some (dv_device_ed_pub r) \<or> x = Some (dv_device_x_pub r) \<or> h = Some (dv_device_cert_hash r)"
  shows "authorize_device (revoke_run c s' after) i e x h \<noteq> Authorized"
proof -
  have inv: "store_inv c s" using assms(1,2) store_inv_run store_inv_new by blast
  have w: "wires_of (before @ after) = wires_of before \<union> wires_of after" by (auto simp: wires_of_def)
  have "blocks s' wire r"
    using blocks_accepted[OF inv assms(3,4)] claims_offered[of c a n before] assms(2,5) w by blast
  then have "blocks (revoke_run c s' after) wire r" using blocks_run assms(4,5) w by blast
  then show ?thesis using assms(6) by (rule blocks_denied)
qed

section \<open>A run with one claim\<close>

definition ex_revocation :: "string \<Rightarrow> device_revocation" where
  "ex_revocation a = \<lparr>dv_identity_address = a, dv_device_id = [1], dv_device_ed_pub = zeros 32, dv_device_x_pub = zeros 32,
     dv_device_cert_hash = zeros 32, dv_issuer_device_id = [2], dv_issuer_seq = 1, dv_revocation_id = 1 # zeros 15,
     dv_reason_code = 0, dv_created_at_ms = 7, dv_signature = zeros 64\<rparr>"

lemma ex_claim: "\<exists>a w. address_encode (zeros 32) = Inr a \<and> length w = 253 \<and> revocation_decode w = Inr (ex_revocation a) \<and>
    revocation_verify ex_aead (ex_revocation a) (zeros 32) = Inr True"
proof -
  obtain a where a: "address_encode (zeros 32) = Inr a"
    using bech32m_encode_text[of "''rvn''"] by (metis address_encode_def)
  then have t: "rvn_text a" by (auto simp: rvn_text_def address_encode_def Let_def intro!: exI)
  have "(1 :: byte) # zeros 15 \<noteq> zeros 16" by (simp add: zeros_def numeral_eq_Suc)
  with t have ok: "rev_ok (ex_revocation a)" by (simp add: rev_ok_def ex_revocation_def uint_fits_def byte_fits_def)
  define w where "w = RVDR1_MAGIC @ rev_body (ex_revocation a) @ zeros 64"
  have s: "dv_signature (ex_revocation a) = zeros 64" "dv_identity_address (ex_revocation a) = a"
    "length (dv_device_id (ex_revocation a)) = 1" "length (dv_issuer_device_id (ex_revocation a)) = 1"
    by (simp_all add: ex_revocation_def)
  have "revocation_encode (ex_revocation a) = Inr w" using ok by (simp add: revocation_encode_iff s w_def)
  then have d: "revocation_decode w = Inr (ex_revocation a)" by (rule revocation_encode_decode)
  have "revocation_signing_bytes (ex_revocation a) = Inr (RVDR1_SIGNING_DOMAIN @ rev_body (ex_revocation a))"
    using rev.sb_iff ok by blast
  then have "revocation_verify ex_aead (ex_revocation a) (zeros 32) = Inr True"
    by (simp add: revocation_verify_def a s verify_signed_def ex_aead_def)
  moreover have "length w = 253" using length_rev_body[OF ok] by (simp add: w_def s)
  ultimately show ?thesis using a d by blast
qed

lemma snapshot_one: "cs_claims s = [(k, w)] \<Longrightarrow> length w < 2 ^ 32 \<Longrightarrow> cs_exhausted s = [] \<Longrightarrow> cs_corrupt s = [] \<Longrightarrow>
    0 \<le> cs_generation s \<Longrightarrow> cs_generation s < 2 ^ 64 \<Longrightarrow> \<exists>v. snapshot_dict s = Inr v"
  by (simp add: snapshot_dict_def store_hash_def revocation_store_hash_def canonical_store_snapshot_def sorted_by_def
      snapshot_claim_def store_claim_digest_def claim_digest_def canon_u64_def to_bytes_def Let_def)

lemma ex_applied:
  assumes "address_encode (zeros 32) = Inr a" "length w = 253" "revocation_decode w = Inr (ex_revocation a)"
    "revocation_verify ex_aead (ex_revocation a) (zeros 32) = Inr True" and n: "1 \<le> n"
  shows "\<exists>v s'. apply_verified_claim ex_aead (new_conformance_store a n) w (zeros 32) False = (Inr v, s') \<and>
    cs_claims s' = [(bytes_hex (claim_digest w), w)] \<and> cs_corrupt s' = [] \<and> cs_exhausted s' = []"
proof -
  define s where "s = new_conformance_store a n"
  define s' where "s' = insert_claim s (ex_revocation a) w (claim_digest w) False"
  have f: "cs_claims s' = [(bytes_hex (claim_digest w), w)]" "cs_corrupt s' = []" "cs_exhausted s' = []" "cs_generation s' = 1"
    by (simp_all add: s'_def insert_claim_fields s_def new_conformance_store_def)
  obtain snap where snap: "snapshot_dict s' = Inr snap" using snapshot_one[OF f(1) _ f(3,2)] assms(2) f(4) by auto
  have "dv_identity_address (ex_revocation a) = a" by (simp add: ex_revocation_def)
  then have "apply_verified_claim ex_aead s w (zeros 32) False =
      with_snapshot s' [(''result'', PStr ''applied''), (''claim_digest_hex'', PStr (bytes_hex (claim_digest w)))]"
    using assms by (simp add: apply_verified_claim_def Let_def check_journal_def journal_kind_def s_def s'_def new_conformance_store_def)
  then show ?thesis using f snap by (simp add: with_snapshot_def s_def)
qed

theorem revocation_is_permanent_witness:
  "\<exists>a w v s'. apply_verified_claim ex_aead (new_conformance_store a 5) w (zeros 32) False = (Inr v, s') \<and>
     authorize_device (revoke_run ex_aead s' [ExpandQuota 9, ReverifyJournal [] None None]) (Some [1]) None None None \<noteq> Authorized"
proof -
  obtain a w where e: "address_encode (zeros 32) = Inr a" "length w = 253" "revocation_decode w = Inr (ex_revocation a)"
    "revocation_verify ex_aead (ex_revocation a) (zeros 32) = Inr True"
    using ex_claim by blast
  from ex_applied[OF e, of 5] obtain v s' where
    s: "apply_verified_claim ex_aead (new_conformance_store a 5) w (zeros 32) False = (Inr v, s')" by auto
  have "wires_of [ExpandQuota 9, ReverifyJournal [] None None] = {}" by (auto simp: wires_of_def)
  moreover have "dv_device_id (ex_revocation a) = [1]" by (simp add: ex_revocation_def)
  ultimately have "authorize_device (revoke_run ex_aead s' [ExpandQuota 9, ReverifyJournal [] None None]) (Some [1]) None None None \<noteq> Authorized"
    using s e(3)
    by (intro revocation_is_permanent[where n = 5 and before = "[]" and wire = w and r = "ex_revocation a" and a = a])
      (auto simp: revoke_run_def)
  with s show ?thesis by blast
qed

theorem deny_set_is_union_witness:
  "\<exists>a w. (''device_id'', bytes_hex [1]) \<in> deny_set (revoke_run ex_aead (new_conformance_store a 5) [ApplyClaim w (zeros 32) False])"
proof -
  obtain a w where e: "address_encode (zeros 32) = Inr a" "length w = 253" "revocation_decode w = Inr (ex_revocation a)"
    "revocation_verify ex_aead (ex_revocation a) (zeros 32) = Inr True"
    using ex_claim by blast
  let ?s = "revoke_run ex_aead (new_conformance_store a 5) [ApplyClaim w (zeros 32) False]"
  have "cs_claims ?s = [(bytes_hex (claim_digest w), w)]" using ex_applied[OF e, of 5] by (auto simp: revoke_run_def)
  with deny_set_is_union[of 5 ?s ex_aead a "[ApplyClaim w (zeros 32) False]" ConvertJournal] e(3)
  have "(''device_id'', bytes_hex [1]) \<in> deny_set ?s" by (simp add: lineage_def ex_revocation_def)
  then show ?thesis by blast
qed

end
