(* ===== verification/Identity.thy ===== *)
theory Identity
  imports Complex_Main Layout
begin

text \<open>
  \<open>team_agents/raven_identity.py\<close>: the replay cache, the signed delegations and HTTP requests of
  the agents, and the checks that pin a public key to an RVN1 address. Ed25519 is that of
  \<open>crypto\<close>; the clock readings and the random nonce are arguments. A value of a metadata
  dictionary is read only through \<open>str()\<close> and \<open>int()\<close>, so it is the pair of the two readings. The
  SQLite table of the durable cache is a dictionary from signature hash to expiry; whether the
  database accepts a transaction is an argument, and a refused transaction changes nothing.
\<close>

definition SIGNING_CONTEXT :: string where "SIGNING_CONTEXT = ''raven.a2a.delegation.v2''"
definition HTTP_SIGNING_CONTEXT :: string where "HTTP_SIGNING_CONTEXT = ''raven.a2a.http-request.v1''"
definition MAX_FUTURE_SKEW_SECONDS :: int where "MAX_FUTURE_SKEW_SECONDS = 60"
definition DEFAULT_DELEGATION_TTL_SECONDS :: int where "DEFAULT_DELEGATION_TTL_SECONDS = 10 * 60"
definition MAX_DELEGATION_TTL_SECONDS :: int where "MAX_DELEGATION_TTL_SECONDS = 24 * 60 * 60"
definition NONCE_BYTES :: nat where "NONCE_BYTES = 16"
definition MAX_REPLAY_ENTRIES :: int where "MAX_REPLAY_ENTRIES = 8192"
definition MAX_REPLAY_DB_BYTES :: int where "MAX_REPLAY_DB_BYTES = 8 * 1024 * 1024"

text \<open>\<open>int(x)\<close> of a float: towards zero.\<close>

definition int_of_float :: "rat \<Rightarrow> int" where
  "int_of_float r = (if r < 0 then - \<lfloor>- r\<rfloor> else \<lfloor>r\<rfloor>)"

section \<open>The replay cache\<close>

record replay_cache =
  rc_ttl :: int
  rc_max_entries :: int
  rc_durable :: bool
  rc_rows :: "(string, int) dict"
  rc_seen :: "(string, rat) dict"

definition new_replay_cache :: "int \<Rightarrow> bool \<Rightarrow> (string, int) dict \<Rightarrow> int \<Rightarrow> int \<Rightarrow> replay_cache res" where
  "new_replay_cache ttl durable rows max_entries max_db_bytes =
     (if max_entries \<le> 0 \<or> max_db_bytes < 64 * 1024
      then Inl (ValueError ''replay-cache bounds must be positive'')
      else Inr \<lparr>rc_ttl = ttl, rc_max_entries = max_entries, rc_durable = durable,
                rc_rows = (if durable then rows else []), rc_seen = []\<rparr>)"

definition signature_key :: "string \<Rightarrow> string res" where
  "signature_key signature_b64 = bindE (ascii_encode signature_b64) (\<lambda>b. Inr (bytes_hex (sha256 b)))"

definition active_count :: "int \<Rightarrow> (string, int) dict \<Rightarrow> int" where
  "active_count now rows = int (length (filter (\<lambda>(_, e). e > now) rows))"

text \<open>The transaction of the durable cache: the result and the rows it commits.\<close>

definition first_time_db :: "bool \<Rightarrow> string \<Rightarrow> rat \<Rightarrow> int \<Rightarrow> int \<Rightarrow> (string, int) dict \<Rightarrow> bool res \<times> (string, int) dict" where
  "first_time_db db_ok key now expiry max_entries rows =
     (let existing = map_of rows key in
      if \<not> db_ok then (Inr False, rows)
      else if (case existing of None \<Rightarrow> False | Some e \<Rightarrow> e > int_of_float now) then (Inr False, rows)
      else if active_count (int_of_float now) rows \<ge> max_entries then (Inr False, rows)
      else if expiry < - (2 ^ 63) \<or> expiry \<ge> 2 ^ 63
      then (Inl (OverflowError ''Python int too large to convert to SQLite INTEGER''), rows)
      else let rows1 = AList.delete key rows @ [(key, expiry)];
               rows2 = filter (\<lambda>(k, e). \<not> (e \<le> int_of_float now \<and> k \<noteq> key)) rows1
           in (Inr True, rows2))"

definition first_time :: "bool \<Rightarrow> rat \<Rightarrow> string \<Rightarrow> int option \<Rightarrow> replay_cache \<Rightarrow> bool res \<times> replay_cache" where
  "first_time db_ok now signature_b64 expires_at rc =
     (case signature_key signature_b64 of
        Inl e \<Rightarrow> (Inl e, rc)
      | Inr key \<Rightarrow>
      let expiry = (case expires_at of Some e \<Rightarrow> e | None \<Rightarrow> int_of_float (now + of_int (rc_ttl rc))) in
      if rc_durable rc
      then let (r, rows) = first_time_db db_ok key now expiry (rc_max_entries rc) (rc_rows rc)
           in (r, rc\<lparr>rc_rows := rows\<rparr>)
      else let seen = filter (\<lambda>(_, ts). \<not> now - ts > of_int (rc_ttl rc)) (rc_seen rc) in
        if map_of seen key \<noteq> None then (Inr False, rc\<lparr>rc_seen := seen\<rparr>)
        else if int (length seen) \<ge> rc_max_entries rc then (Inr False, rc\<lparr>rc_seen := seen\<rparr>)
        else (Inr True, rc\<lparr>rc_seen := AList.update key now seen\<rparr>))"

definition cache_seen :: "bool \<Rightarrow> rat \<Rightarrow> string \<Rightarrow> replay_cache \<Rightarrow> bool res" where
  "cache_seen db_ok now signature_b64 rc =
     bindE (signature_key signature_b64) (\<lambda>key.
     if rc_durable rc
     then if \<not> db_ok then Inl (RuntimeError ''replay cache is unavailable'')
          else Inr (case map_of (rc_rows rc) key of None \<Rightarrow> False | Some e \<Rightarrow> e > int_of_float now)
     else Inr (case map_of (rc_seen rc) key of None \<Rightarrow> False | Some ts \<Rightarrow> now - ts \<le> of_int (rc_ttl rc)))"

definition cache_contains :: "bool \<Rightarrow> rat \<Rightarrow> string \<Rightarrow> replay_cache \<Rightarrow> bool res" where
  "cache_contains db_ok now signature_b64 rc =
     (case cache_seen db_ok now signature_b64 rc of
        Inr b \<Rightarrow> Inr b
      | Inl (UnicodeError _) \<Rightarrow> Inr True
      | Inl (RuntimeError _) \<Rightarrow> Inr True
      | Inl e \<Rightarrow> Inl e)"

section \<open>Addresses and keys\<close>

text \<open>\<open>secrets.compare_digest\<close> of two strings refuses text that is not ASCII.\<close>

definition compare_digest_str :: "string \<Rightarrow> string \<Rightarrow> bool res" where
  "compare_digest_str a b =
     (case (ascii_encode a, ascii_encode b) of
        (Inr _, Inr _) \<Rightarrow> Inr (a = b)
      | _ \<Rightarrow> Inl (TypeError ''comparing strings with non-ASCII characters is not supported''))"

definition public_key_of_hex :: "string \<Rightarrow> bytes res" where
  "public_key_of_hex public_key_hex =
     (case fromhex public_key_hex of
        Inl e \<Rightarrow> Inl (if is_value_error e then ValueError ''public key must be hexadecimal'' else e)
      | Inr public_key \<Rightarrow>
          if length public_key \<noteq> 32 then Inl (ValueError ''public key must be exactly 32 bytes'')
          else Inr public_key)"

definition validate_address_public_key :: "string \<Rightarrow> string \<Rightarrow> bytes res" where
  "validate_address_public_key address public_key_hex =
     bindE (public_key_of_hex public_key_hex) (\<lambda>public_key.
     bindE (address_encode public_key) (\<lambda>derived.
     bindE (compare_digest_str address derived) (\<lambda>same.
     if \<not> same then Inl (ValueError (''RVN address/public-key mismatch: expected '' @ derived))
     else Inr public_key)))"

definition fingerprint_for_public_key :: "string \<Rightarrow> string res" where
  "fingerprint_for_public_key public_key_hex =
     bindE (public_key_of_hex public_key_hex) (\<lambda>public_key. Inr (device_fingerprint_v1 public_key))"

text \<open>
  \<open>load_revocations\<close> on the parsed document. The text of a nested list or dictionary starts with a
  bracket, which no address does, so such an item is invalid whatever its text.
\<close>

definition revoked_text :: "pyval \<Rightarrow> string option" where
  "revoked_text v =
     (case v of PStr s \<Rightarrow> Some s | PInt n \<Rightarrow> Some (py_str n) | PNone \<Rightarrow> Some ''None''
      | PBool b \<Rightarrow> Some (if b then ''True'' else ''False'') | _ \<Rightarrow> None)"

definition revocation_ok :: "string \<Rightarrow> bool" where
  "revocation_ok address =
     (case address_decode address of None \<Rightarrow> False
      | Some (public_hash, version) \<Rightarrow> \<not> (version \<noteq> 1 \<or> length public_hash \<noteq> 20))"

definition revocation_items :: "pyval \<Rightarrow> string set res" where
  "revocation_items raw =
     (case raw of
        PList items \<Rightarrow>
          bindE (mapE (\<lambda>v. case revoked_text v of
                     Some a \<Rightarrow> if revocation_ok a then Inr a else Inl (ValueError ''invalid revoked RVN address'')
                   | None \<Rightarrow> Inl (ValueError ''invalid revoked RVN address'')) items) (\<lambda>xs. Inr (set xs))
      | _ \<Rightarrow> Inl (ValueError ''revocation file must be a JSON list or an object with one''))"

definition load_revocations :: "pyval \<Rightarrow> string set res" where
  "load_revocations raw =
     (case raw of
        PDict d \<Rightarrow> revocation_items (case map_of d ''revoked'' of Some v \<Rightarrow> v | None \<Rightarrow> PList [])
      | _ \<Rightarrow> revocation_items raw)"

section \<open>Identities\<close>

record raven_identity =
  id_sk :: bytes

definition public_bytes :: "crypto \<Rightarrow> raven_identity \<Rightarrow> bytes res" where
  "public_bytes c identity = ed_public c (id_sk identity)"

definition public_hex :: "crypto \<Rightarrow> raven_identity \<Rightarrow> string res" where
  "public_hex c identity = bindE (public_bytes c identity) (\<lambda>b. Inr (bytes_hex b))"

definition identity_address :: "crypto \<Rightarrow> raven_identity \<Rightarrow> string res" where
  "identity_address c identity = bindE (public_bytes c identity) address_encode"

definition display_address :: "crypto \<Rightarrow> raven_identity \<Rightarrow> string res" where
  "display_address c identity = bindE (identity_address c identity) to_display"

definition identity_fingerprint :: "crypto \<Rightarrow> raven_identity \<Rightarrow> string res" where
  "identity_fingerprint c identity = bindE (public_bytes c identity) (\<lambda>b. Inr (device_fingerprint_v1 b))"

definition identity_card :: "crypto \<Rightarrow> raven_identity \<Rightarrow> (string, string) dict res" where
  "identity_card c identity =
     bindE (identity_address c identity) (\<lambda>a.
     bindE (display_address c identity) (\<lambda>d.
     bindE (public_hex c identity) (\<lambda>p.
     bindE (identity_fingerprint c identity) (\<lambda>f.
     Inr [(''address'', a), (''display'', d), (''public_key'', p), (''fingerprint'', f)]))))"

definition identity_sign :: "crypto \<Rightarrow> raven_identity \<Rightarrow> bytes \<Rightarrow> bytes res" where
  "identity_sign c identity dat = ed_sign c (id_sk identity) dat"

section \<open>Signing bytes\<close>

definition http_request_signing_bytes ::
    "string \<Rightarrow> string \<Rightarrow> string \<Rightarrow> string \<Rightarrow> int \<Rightarrow> int \<Rightarrow> bytes \<Rightarrow> string \<Rightarrow> bytes res" where
  "http_request_signing_bytes sender_address recipient_address http_method target issued_at expires_at body nonce =
     (let body_digest = sha256 body in
      bindE (fromhex nonce) (\<lambda>nonce_raw.
      joinE [lp (asc HTTP_SIGNING_CONTEXT), lp (utf8 sender_address), lp (utf8 recipient_address),
             bindE (ascii_encode (str_upper http_method)) lp, bindE (ascii_encode target) lp,
             bindE (ascii_encode (py_str issued_at)) lp, bindE (ascii_encode (py_str expires_at)) lp,
             lp body_digest, lp nonce_raw]))"

definition delegation_signing_bytes ::
    "string \<Rightarrow> string \<Rightarrow> string \<Rightarrow> string \<Rightarrow> int \<Rightarrow> int \<Rightarrow> string \<Rightarrow> string \<Rightarrow> bytes res" where
  "delegation_signing_bytes sender_address recipient_address task_id kind issued_at expires_at task_text nonce =
     (let payload_digest = sha256 (utf8 task_text) in
      bindE (fromhex nonce) (\<lambda>nonce_raw.
      joinE [lp (asc SIGNING_CONTEXT), lp (utf8 sender_address), lp (utf8 recipient_address),
             lp (utf8 task_id), bindE (ascii_encode kind) lp,
             bindE (ascii_encode (py_str issued_at)) lp, bindE (ascii_encode (py_str expires_at)) lp,
             lp payload_digest, lp nonce_raw]))"

section \<open>Metadata values\<close>

record pyobj =
  obj_str :: string
  obj_int :: "int res"

type_synonym metadata = "(string, pyobj) dict"

text \<open>\<open>int(s)\<close> of decimal text: surrounding space, one sign, digits with single underscores.\<close>

fun digits_value :: "int \<Rightarrow> bool \<Rightarrow> string \<Rightarrow> int option" where
  "digits_value acc prev_digit [] = (if prev_digit then Some acc else None)"
| "digits_value acc prev_digit (c # cs) =
     (let n = of_char c :: int in
      if 48 \<le> n \<and> n \<le> 57 then digits_value (10 * acc + (n - 48)) True cs
      else if c = CHR ''_'' \<and> prev_digit then digits_value acc False cs else None)"

definition parse_int :: "string \<Rightarrow> int res" where
  "parse_int s =
     (let t = str_strip s;
          (sign, ds) = (case t of
             c # cs \<Rightarrow> if c = CHR ''-'' then (- 1, cs) else if c = CHR ''+'' then (1, cs) else (1, t)
           | [] \<Rightarrow> (1, t))
      in case digits_value 0 False ds of
           Some n \<Rightarrow> Inr (sign * n)
         | None \<Rightarrow> Inl (ValueError ''invalid literal for int() with base 10''))"

definition str_obj :: "string \<Rightarrow> pyobj" where
  "str_obj s = \<lparr>obj_str = s, obj_int = parse_int s\<rparr>"

definition int_obj :: "int \<Rightarrow> pyobj" where
  "int_obj n = \<lparr>obj_str = py_str n, obj_int = Inr n\<rparr>"

definition field_str :: "metadata \<Rightarrow> string \<Rightarrow> string" where
  "field_str d k = (case map_of d k of None \<Rightarrow> [] | Some v \<Rightarrow> obj_str v)"

definition field_int :: "metadata \<Rightarrow> string \<Rightarrow> int res" where
  "field_int d k = (case map_of d k of None \<Rightarrow> Inr 0 | Some v \<Rightarrow> obj_int v)"

section \<open>Signing\<close>

definition sign_http_request ::
    "crypto \<Rightarrow> raven_identity \<Rightarrow> rat \<Rightarrow> bytes \<Rightarrow> string \<Rightarrow> string \<Rightarrow> string \<Rightarrow> bytes \<Rightarrow> int option \<Rightarrow>
     int option \<Rightarrow> int \<Rightarrow> metadata res" where
  "sign_http_request c identity clock random recipient http_method target body issued_at expires_at ttl_seconds =
     bindE (identity_address c identity) (\<lambda>address.
     bindE (public_hex c identity) (\<lambda>hex.
     bindE (validate_address_public_key address hex) (\<lambda>_.
     if recipient = [] \<or> http_method = [] \<or> take 1 target \<noteq> ''/''
     then Inl (ValueError ''recipient, method and absolute request target are required'')
     else case bindE (ascii_encode http_method) (\<lambda>_. ascii_encode target) of
       Inl _ \<Rightarrow> Inl (ValueError ''HTTP method and request target must be ASCII'')
     | Inr _ \<Rightarrow>
     let now = (case issued_at of None \<Rightarrow> int_of_float clock | Some t \<Rightarrow> t);
         expiry = (case expires_at of None \<Rightarrow> now + ttl_seconds | Some t \<Rightarrow> t);
         lifetime = expiry - now in
     if lifetime \<le> 0 \<or> lifetime > MAX_DELEGATION_TTL_SECONDS
     then Inl (ValueError ''HTTP authorization lifetime is outside the allowed range'')
     else let nonce = bytes_hex random in
     bindE (http_request_signing_bytes address recipient http_method target now expiry body nonce) (\<lambda>dat.
     bindE (identity_sign c identity dat) (\<lambda>signature.
     Inr [(''address'', str_obj address), (''recipient'', str_obj recipient), (''issued_at'', int_obj now),
          (''expires_at'', int_obj expiry), (''nonce'', str_obj nonce), (''algorithm'', str_obj ''ed25519''),
          (''context'', str_obj HTTP_SIGNING_CONTEXT), (''signature'', str_obj (b64encode signature))])))))"

definition sign_delegation ::
    "crypto \<Rightarrow> raven_identity \<Rightarrow> rat \<Rightarrow> bytes \<Rightarrow> string \<Rightarrow> string \<Rightarrow> string \<Rightarrow> string \<Rightarrow> int option \<Rightarrow>
     int option \<Rightarrow> int \<Rightarrow> metadata res" where
  "sign_delegation c identity clock random task_text recipient task_id kind issued_at expires_at ttl_seconds =
     bindE (identity_address c identity) (\<lambda>address.
     bindE (public_hex c identity) (\<lambda>hex.
     bindE (validate_address_public_key address hex) (\<lambda>_.
     if recipient = [] \<or> task_id = [] then Inl (ValueError ''recipient and task_id are required'')
     else if kind \<noteq> ''task'' \<and> kind \<noteq> ''answer'' then Inl (ValueError ''kind must be task or answer'')
     else let now = (case issued_at of None \<Rightarrow> int_of_float clock | Some t \<Rightarrow> t);
         expiry = (case expires_at of None \<Rightarrow> now + ttl_seconds | Some t \<Rightarrow> t);
         lifetime = expiry - now in
     if lifetime \<le> 0 \<or> lifetime > MAX_DELEGATION_TTL_SECONDS
     then Inl (ValueError ''delegation lifetime is outside the allowed range'')
     else let nonce = bytes_hex random in
     bindE (delegation_signing_bytes address recipient task_id kind now expiry task_text nonce) (\<lambda>dat.
     bindE (identity_sign c identity dat) (\<lambda>sig.
     Inr [(''sender'', str_obj address), (''recipient'', str_obj recipient), (''task_id'', str_obj task_id),
          (''kind'', str_obj kind), (''issued_at'', int_obj now), (''expires_at'', int_obj expiry),
          (''nonce'', str_obj nonce), (''algorithm'', str_obj ''ed25519''),
          (''context'', str_obj SIGNING_CONTEXT), (''signature'', str_obj (b64encode sig))])))))"

section \<open>Verifying\<close>

text \<open>The text of an exception, as \<open>str(exc)\<close> puts it into a reason.\<close>

fun exc_text :: "py_exc \<Rightarrow> string" where
  "exc_text (ValueError s) = s"
| "exc_text (CodecError s) = s"
| "exc_text (UnicodeError s) = s"
| "exc_text (OverflowError s) = s"
| "exc_text (AssertionError s) = s"
| "exc_text (TypeError s) = s"
| "exc_text (IndexError s) = s"
| "exc_text (KeyError s) = s"
| "exc_text (RuntimeError s) = s"
| "exc_text (CrashMachineError s) = s"
| "exc_text (InvalidParamsError s) = s"
| "exc_text (TaskStoreCapacityError s) = s"
| "exc_text (StructError s) = s"
| "exc_text (OSError s) = s"
| "exc_text InvalidTag = []"
| "exc_text InvalidSignature = []"

text \<open>What the two handlers of the HTTP verification catch.\<close>

fun is_type_error :: "py_exc \<Rightarrow> bool" where
  "is_type_error (TypeError _) = True"
| "is_type_error _ = False"

definition peer_label :: "string \<Rightarrow> string" where
  "peer_label sender = (if sender \<noteq> [] then sender else ''(none)'')"

text \<open>The bounds both verifications put on issue and expiry, with the reason of the first that fails.\<close>

definition time_bounds :: "string \<Rightarrow> int \<Rightarrow> int \<Rightarrow> int \<Rightarrow> string option" where
  "time_bounds what now issued_at expires_at =
     (if issued_at > now + MAX_FUTURE_SKEW_SECONDS then Some (what @ '' issued too far in the future'')
      else if expires_at \<le> issued_at
      then Some (''invalid '' @ what @ '' expiry'')
      else if expires_at - issued_at > MAX_DELEGATION_TTL_SECONDS
      then Some (what @ '' lifetime exceeds maximum'')
      else if now \<ge> expires_at then Some (what @ '' expired'') else None)"

definition caught_http :: "py_exc \<Rightarrow> bool" where
  "caught_http e \<longleftrightarrow> e = InvalidSignature \<or> is_value_error e \<or> is_type_error e"

definition check_http_signature ::
    "crypto \<Rightarrow> string \<Rightarrow> string \<Rightarrow> string \<Rightarrow> string \<Rightarrow> string \<Rightarrow> string \<Rightarrow> int \<Rightarrow> int \<Rightarrow> bytes \<Rightarrow> string \<Rightarrow> unit res" where
  "check_http_signature c signature_b64 sender key_hex expected_recipient http_method target issued_at expires_at body nonce =
     bindE (b64decode signature_b64) (\<lambda>signature.
     bindE (validate_address_public_key sender key_hex) (\<lambda>public_raw.
     bindE (ed_load_public c public_raw) (\<lambda>_.
     bindE (http_request_signing_bytes sender expected_recipient http_method target issued_at expires_at body nonce) (\<lambda>m.
     ed_verify c public_raw signature m))))"

definition verify_http_request ::
    "crypto \<Rightarrow> metadata \<Rightarrow> string \<Rightarrow> string \<Rightarrow> bytes \<Rightarrow> (string, string) dict \<Rightarrow> string \<Rightarrow> string set \<Rightarrow>
     rat \<Rightarrow> bool \<Rightarrow> rat \<Rightarrow> replay_cache \<Rightarrow> (bool \<times> string \<times> string) res \<times> replay_cache" where
  "verify_http_request c authorization http_method target body trusted_peers expected_recipient revoked
     clock db_ok clock' rc =
     (let sender = field_str authorization ''address''; refuse = (\<lambda>reason. (Inr (False, reason, ''''), rc)) in
      case map_of trusted_peers sender of
        None \<Rightarrow> refuse (''unknown peer: '' @ peer_label sender)
      | Some key_hex \<Rightarrow>
      if sender \<in> revoked then refuse (''revoked peer: '' @ sender)
      else if field_str authorization ''recipient'' \<noteq> expected_recipient
      then refuse ''HTTP authorization recipient mismatch''
      else if field_str authorization ''context'' \<noteq> HTTP_SIGNING_CONTEXT then refuse ''bad HTTP signing context''
      else if str_lower (field_str authorization ''algorithm'') \<noteq> ''ed25519''
      then refuse ''unsupported HTTP signature algorithm''
      else (case bindE (field_int authorization ''issued_at'') (\<lambda>i.
                 bindE (field_int authorization ''expires_at'') (\<lambda>e. Inr (i, e))) of
        Inl e \<Rightarrow> if is_value_error e \<or> is_type_error e then refuse ''bad HTTP authorization time bounds'' else (Inl e, rc)
      | Inr (issued_at, expires_at) \<Rightarrow>
      let now = int_of_float clock in
      (case time_bounds ''HTTP authorization'' now issued_at expires_at of
        Some reason \<Rightarrow> refuse reason
      | None \<Rightarrow>
      let nonce = field_str authorization ''nonce'' in
      (case fromhex nonce of
        Inl e \<Rightarrow> refuse ''bad HTTP authorization nonce''
      | Inr nonce_raw \<Rightarrow>
      if length nonce_raw \<noteq> NONCE_BYTES then refuse ''bad HTTP authorization nonce''
      else let signature_b64 = field_str authorization ''signature'' in
      (case check_http_signature c signature_b64 sender key_hex expected_recipient http_method target
              issued_at expires_at body nonce of
        Inl e \<Rightarrow> if caught_http e then refuse ''HTTP signature invalid'' else (Inl e, rc)
      | Inr _ \<Rightarrow>
      (case first_time db_ok clock' signature_b64 (Some expires_at) rc of
        (Inl e, rc) \<Rightarrow> (Inl e, rc)
      | (Inr fresh, rc) \<Rightarrow>
          if \<not> fresh then (Inr (False, ''HTTP authorization replay'', ''''), rc)
          else (Inr (True, ''HTTP authorization verified'', sender), rc)))))))"

definition verify_delegation ::
    "crypto \<Rightarrow> metadata \<Rightarrow> string \<Rightarrow> (string, string) dict \<Rightarrow> bool \<Rightarrow> string set \<Rightarrow> string \<Rightarrow> string \<Rightarrow> string \<Rightarrow>
     bool \<Rightarrow> rat \<Rightarrow> bool \<Rightarrow> rat \<Rightarrow> replay_cache \<Rightarrow> (bool \<times> string) res \<times> replay_cache" where
  "verify_delegation c meta task_text trusted_peers required revoked expected_recipient expected_task_id
     expected_kind consume_replay clock db_ok clock' rc =
     (let refuse = (\<lambda>reason. (Inr (False, reason), rc)) in
      if meta = []
      then (Inr (\<not> required, if \<not> required then ''no raven metadata'' else ''missing signature''), rc)
      else let sender = field_str meta ''sender'' in
      (case map_of trusted_peers sender of
        None \<Rightarrow> refuse (''unknown peer: '' @ peer_label sender)
      | Some key_hex \<Rightarrow>
      if sender \<in> revoked then refuse (''revoked peer: '' @ sender)
      else if field_str meta ''context'' \<noteq> SIGNING_CONTEXT then refuse ''bad signing context''
      else if expected_recipient = [] \<or> expected_task_id = [] then refuse ''verifier missing recipient or task id''
      else let recipient = field_str meta ''recipient''; task_id = field_str meta ''task_id'';
               kind = field_str meta ''kind'' in
      if recipient \<noteq> expected_recipient then refuse ''delegation recipient mismatch''
      else if task_id \<noteq> expected_task_id then refuse ''delegation task id mismatch''
      else if kind \<noteq> expected_kind then refuse ''delegation kind mismatch''
      else (case bindE (field_int meta ''issued_at'') (\<lambda>i.
                 bindE (field_int meta ''expires_at'') (\<lambda>e. Inr (i, e))) of
        Inl e \<Rightarrow> if is_value_error e \<or> is_type_error e then refuse ''bad delegation time bounds'' else (Inl e, rc)
      | Inr (issued_at, expires_at) \<Rightarrow>
      let now = int_of_float clock in
      (case time_bounds ''delegation'' now issued_at expires_at of
        Some reason \<Rightarrow> refuse reason
      | None \<Rightarrow>
      let nonce = field_str meta ''nonce'' in
      if length nonce \<noteq> NONCE_BYTES * 2 then refuse ''missing or malformed nonce''
      else (case fromhex nonce of
        Inl e \<Rightarrow> refuse ''malformed nonce''
      | Inr _ \<Rightarrow>
      let sig_b64 = field_str meta ''signature'' in
      (case b64decode sig_b64 of
        Inl e \<Rightarrow> refuse ''undecodable signature''
      | Inr sig \<Rightarrow>
      (case bindE (validate_address_public_key sender key_hex) (\<lambda>public_key.
            bindE (ed_load_public c public_key) (\<lambda>_. Inr public_key)) of
        Inl e \<Rightarrow> refuse (''invalid trusted identity for '' @ sender @ '': '' @ exc_text e)
      | Inr public_key \<Rightarrow>
      (case delegation_signing_bytes sender recipient task_id kind issued_at expires_at task_text nonce of
        Inl e \<Rightarrow> (Inl e, rc)
      | Inr dat \<Rightarrow>
      (case ed_verify c public_key sig dat of
        Inl e \<Rightarrow> if e = InvalidSignature then refuse ''signature invalid'' else (Inl e, rc)
      | Inr _ \<Rightarrow>
      if \<not> consume_replay then (Inr (True, ''verified '' @ sender), rc)
      else (case first_time db_ok clock' sig_b64 (Some expires_at) rc of
        (Inl e, rc) \<Rightarrow> (Inl e, rc)
      | (Inr fresh, rc) \<Rightarrow>
          if \<not> fresh then (Inr (False, ''replayed delegation''), rc)
          else (Inr (True, ''verified '' @ sender), rc)))))))))))"

section \<open>What the replay cache guarantees\<close>

lemma first_time_refused:
  assumes "rc_durable rc" "first_time db_ok now sig e rc = (r, rc')" "r \<noteq> Inr True"
  shows "rc' = rc"
  using assms by (auto simp: first_time_def first_time_db_def Let_def split: sum.splits if_splits prod.splits)

lemma first_time_accepted:
  assumes "rc_durable rc" "first_time db_ok now sig (Some e) rc = (Inr True, rc')"
  obtains key where "signature_key sig = Inr key" "db_ok"
    "\<And>x. map_of (rc_rows rc) key = Some x \<Longrightarrow> x \<le> int_of_float now"
    "active_count (int_of_float now) (rc_rows rc) < rc_max_entries rc"
    "rc' = rc\<lparr>rc_rows := filter (\<lambda>(k, x). \<not> (x \<le> int_of_float now \<and> k \<noteq> key)) (AList.delete key (rc_rows rc) @ [(key, e)])\<rparr>"
  using assms by (fastforce simp: first_time_def first_time_db_def Let_def split: sum.splits if_splits prod.splits option.splits)

lemma map_of_append_last: "map_of d k = None \<Longrightarrow> map_of (d @ [(k, v)]) k = Some v"
  by (simp add: map_add_def)

lemma map_of_filter_Some: "distinct (map fst d) \<Longrightarrow> map_of d k = Some v \<Longrightarrow> P (k, v) \<Longrightarrow> map_of (filter P d) k = Some v"
  by (induction d) (auto dest: map_of_SomeD split: if_splits intro: rev_image_eqI)

text \<open>One call of the cache: outcome of the database, clock, signature text and expiry.\<close>

type_synonym cache_call = "bool \<times> rat \<times> string \<times> int"

definition cache_step :: "cache_call \<Rightarrow> replay_cache \<Rightarrow> replay_cache" where
  "cache_step call rc = (case call of (db_ok, now, sig, e) \<Rightarrow> snd (first_time db_ok now sig (Some e) rc))"

text \<open>A durable cache within its bound, and a row that holds a key until an expiry.\<close>

definition cache_ok :: "replay_cache \<Rightarrow> bool" where
  "cache_ok rc \<longleftrightarrow> rc_durable rc \<and> wf_dict (rc_rows rc) \<and> int (length (rc_rows rc)) \<le> rc_max_entries rc"

definition holds :: "string \<Rightarrow> int \<Rightarrow> replay_cache \<Rightarrow> bool" where
  "holds key e rc \<longleftrightarrow> map_of (rc_rows rc) key = Some e"

lemma length_filter_mono: "(\<And>x. P x \<Longrightarrow> R x) \<Longrightarrow> length (filter P xs) \<le> length (filter R xs)"
  by (induction xs) auto

lemma accepted_rows:
  assumes "cache_ok rc" "first_time db_ok now sig (Some e) rc = (Inr True, rc')" "signature_key sig = Inr key"
  shows "cache_ok rc'" "holds key e rc'" "rc_max_entries rc' = rc_max_entries rc"
    and "holds k x rc \<Longrightarrow> int_of_float now < x \<Longrightarrow> k \<noteq> key \<and> holds k x rc'"
proof -
  let ?rows = "AList.delete key (rc_rows rc) @ [(key, e)]"
  obtain a: "\<And>x. map_of (rc_rows rc) key = Some x \<Longrightarrow> x \<le> int_of_float now"
      "active_count (int_of_float now) (rc_rows rc) < rc_max_entries rc" and
    rc': "rc' = rc\<lparr>rc_rows := filter (\<lambda>(k, x). \<not> (x \<le> int_of_float now \<and> k \<noteq> key)) ?rows\<rparr>"
    using assms by (auto simp: cache_ok_def elim: first_time_accepted)
  have wf: "distinct (map fst (rc_rows rc))" using assms(1) by (simp add: cache_ok_def wf_dict_def)
  have d: "distinct (map fst ?rows)" using wf by (auto simp: AList.delete_eq distinct_map_filter)
  have len: "length (filter (\<lambda>(k, x). \<not> (x \<le> int_of_float now \<and> k \<noteq> key)) (AList.delete key (rc_rows rc))) \<le>
      length (filter (\<lambda>(k, x). int_of_float now < x) (rc_rows rc))"
    unfolding AList.delete_eq filter_filter by (rule length_filter_mono) auto
  show "cache_ok rc'" using assms(1) a(2) d len
    by (auto simp: cache_ok_def rc' wf_dict_def distinct_map_filter active_count_def)
  show "holds key e rc'"
  proof -
    have "map_of ?rows key = Some e" by (simp add: map_add_def delete_conv')
    from map_of_filter_Some[OF d this, of "\<lambda>(k, x). \<not> (x \<le> int_of_float now \<and> k \<noteq> key)"]
    show ?thesis by (simp add: holds_def rc')
  qed
  show "rc_max_entries rc' = rc_max_entries rc" by (simp add: rc')
  show "k \<noteq> key \<and> holds k x rc'" if "holds k x rc" "int_of_float now < x"
  proof -
    have "k \<noteq> key" using a(1) that by (force simp: holds_def)
    then have "map_of ?rows k = Some x" using that(1) by (simp add: holds_def map_add_def delete_conv')
    from map_of_filter_Some[OF d this, of "\<lambda>(k, x). \<not> (x \<le> int_of_float now \<and> k \<noteq> key)"]
    show ?thesis using that(2) \<open>k \<noteq> key\<close> by (simp add: holds_def rc')
  qed
qed

lemma cache_step_ok: "cache_ok rc \<Longrightarrow> cache_ok (cache_step call rc) \<and>
    rc_max_entries (cache_step call rc) = rc_max_entries rc"
proof -
  assume ok: "cache_ok rc"
  obtain db_ok now sig e where c: "call = (db_ok, now, sig, e)" by (cases call)
  obtain r rc' where f: "first_time db_ok now sig (Some e) rc = (r, rc')" by fastforce
  show ?thesis
  proof (cases "r = Inr True")
    case True
    then obtain key where "signature_key sig = Inr key"
      using f ok by (auto simp: cache_ok_def elim: first_time_accepted)
    with accepted_rows(1,3)[OF ok f[unfolded True]] f c show ?thesis by (simp add: cache_step_def)
  next
    case False
    with first_time_refused[OF _ f] ok c f show ?thesis by (auto simp: cache_step_def cache_ok_def)
  qed
qed

lemma cache_step_holds:
  assumes "cache_ok rc" "holds k x rc" "case call of (_, now, _, _) \<Rightarrow> int_of_float now < x"
  shows "holds k x (cache_step call rc)"
proof -
  obtain db_ok now sig e where c: "call = (db_ok, now, sig, e)" by (cases call)
  obtain r rc' where f: "first_time db_ok now sig (Some e) rc = (r, rc')" by fastforce
  show ?thesis
  proof (cases "r = Inr True")
    case True
    then obtain key where "signature_key sig = Inr key"
      using f assms(1) by (auto simp: cache_ok_def elim: first_time_accepted)
    with accepted_rows(4)[OF assms(1), of db_ok now sig e rc' key k x] True f c assms(2,3) show ?thesis
      by (simp add: cache_step_def)
  next
    case False
    with first_time_refused[OF _ f] assms c f show ?thesis by (auto simp: cache_step_def cache_ok_def)
  qed
qed

lemma held_refused:
  assumes "rc_durable rc" "signature_key sig = Inr key" "holds key x rc" "int_of_float now < x"
  shows "first_time db_ok now sig e rc = (Inr False, rc)"
  using assms by (auto simp: first_time_def first_time_db_def holds_def Let_def)

text \<open>
  C6: A signature the durable cache has accepted until an expiry is refused, without any change,
  whatever other signatures are offered in between and whether or not the database works, at
  every clock reading before the expiry; and the cache never holds more rows than its bound.
\<close>

theorem replay_refused_until_expiry:
  assumes "cache_ok rc" "first_time db_ok now sig (Some expiry) rc = (Inr True, rc1)"
    and "list_all (\<lambda>(_, t, _, _). int_of_float t < expiry) calls" "int_of_float later < expiry"
  shows "let rc2 = fold cache_step calls rc1 in
    first_time db_ok' later sig e rc2 = (Inr False, rc2) \<and> int (length (rc_rows rc2)) \<le> rc_max_entries rc"
proof -
  obtain key where key: "signature_key sig = Inr key"
    using assms(1,2) by (auto simp: cache_ok_def elim: first_time_accepted)
  have "cache_ok rc1" "holds key expiry rc1" "rc_max_entries rc1 = rc_max_entries rc"
    using accepted_rows[OF assms(1,2) key] by blast+
  then have "cache_ok (fold cache_step calls rc1) \<and> holds key expiry (fold cache_step calls rc1) \<and>
      rc_max_entries (fold cache_step calls rc1) = rc_max_entries rc"
    using assms(3)
  proof (induction calls arbitrary: rc1)
    case (Cons call calls)
    then show ?case
      using cache_step_ok[of rc1 call] cache_step_holds[of rc1 key expiry call] by (auto split: prod.splits)
  qed simp
  then show ?thesis
    using held_refused[OF _ key, of "fold cache_step calls rc1" expiry later] assms(4)
    by (auto simp: Let_def cache_ok_def)
qed

section \<open>What an accepted delegation tells\<close>

lemma public_key_of_hex_iff: "public_key_of_hex h = Inr pk \<longleftrightarrow> fromhex h = Inr pk \<and> length pk = 32"
  by (auto simp: public_key_of_hex_def split: sum.split)

lemma compare_str_iff: "compare_digest_str a b = Inr r \<longleftrightarrow>
    (\<exists>x. ascii_encode a = Inr x) \<and> (\<exists>y. ascii_encode b = Inr y) \<and> r = (a = b)"
  by (cases "ascii_encode a"; cases "ascii_encode b") (auto simp: compare_digest_str_def)

lemma validate_key_iff:
  "validate_address_public_key addr h = Inr pk \<longleftrightarrow>
     fromhex h = Inr pk \<and> length pk = 32 \<and> address_encode pk = Inr addr \<and> (\<exists>b. ascii_encode addr = Inr b)"
  by (auto simp: validate_address_public_key_def bindE_eq_Inr public_key_of_hex_iff compare_str_iff if_Inl_eq_Inr)

lemma time_bounds_None:
  "time_bounds what now issued expires = None \<longleftrightarrow>
     issued \<le> now + 60 \<and> issued < expires \<and> expires - issued \<le> 86400 \<and> now < expires"
  by (auto simp: time_bounds_def MAX_FUTURE_SKEW_SECONDS_def MAX_DELEGATION_TTL_SECONDS_def)

text \<open>The checks before the replay cache, for the values they read from the metadata.\<close>

definition delegation_valid ::
    "crypto \<Rightarrow> metadata \<Rightarrow> string \<Rightarrow> (string, string) dict \<Rightarrow> string set \<Rightarrow> string \<Rightarrow> string \<Rightarrow> string \<Rightarrow> int \<Rightarrow> int \<Rightarrow> bool" where
  "delegation_valid c meta task_text trusted_peers revoked recipient task_id kind now expires \<longleftrightarrow>
     (\<exists>key_hex pk sig m issued.
        map_of trusted_peers (field_str meta ''sender'') = Some key_hex \<and>
        fromhex key_hex = Inr pk \<and> length pk = 32 \<and> address_encode pk = Inr (field_str meta ''sender'') \<and>
        field_str meta ''sender'' \<notin> revoked \<and> field_str meta ''context'' = SIGNING_CONTEXT \<and>
        recipient \<noteq> [] \<and> task_id \<noteq> [] \<and> field_str meta ''recipient'' = recipient \<and>
        field_str meta ''task_id'' = task_id \<and> field_str meta ''kind'' = kind \<and>
        field_int meta ''issued_at'' = Inr issued \<and> field_int meta ''expires_at'' = Inr expires \<and>
        issued \<le> now + 60 \<and> issued < expires \<and> expires - issued \<le> 86400 \<and> now < expires \<and>
        length (field_str meta ''nonce'') = 32 \<and>
        b64decode (field_str meta ''signature'') = Inr sig \<and>
        delegation_signing_bytes (field_str meta ''sender'') recipient task_id kind issued expires task_text
          (field_str meta ''nonce'') = Inr m \<and>
        ed_load_public c pk = Inr () \<and> ed_verify c pk sig m = Inr ())"

lemma signing_bytes_nonce:
  "delegation_signing_bytes s r t k i e txt nonce = Inr m \<Longrightarrow> \<exists>raw. fromhex nonce = Inr raw"
  by (auto simp: delegation_signing_bytes_def Let_def bindE_eq_Inr)

lemma address_ascii: "address_encode pk = Inr a \<Longrightarrow> \<exists>b. ascii_encode a = Inr b"
proof -
  assume "address_encode pk = Inr a"
  moreover obtain dat where "address_encode pk = Inr (bech_text ''rvn'' (dat @ create_checksum ''rvn'' dat))"
    "in_range 5 (dat @ create_checksum ''rvn'' dat)"
    by (rule address_text)
  ultimately have "plain_text a" using bech_text_plain[OF hrp_rvn] by auto
  then show ?thesis by (auto simp: ascii_encode_Inr plain_text_def list_all_iff)
qed

lemma verify_delegation_accepts:
  assumes "delegation_valid c meta txt peers revoked recip tid kind (int_of_float clock) expires"
    and "meta \<noteq> []"
  shows "verify_delegation c meta txt peers required revoked recip tid kind consume clock db_ok clock' rc =
    (if \<not> consume then (Inr (True, ''verified '' @ field_str meta ''sender''), rc)
     else case first_time db_ok clock' (field_str meta ''signature'') (Some expires) rc of
       (Inl e, rc) \<Rightarrow> (Inl e, rc)
     | (Inr fresh, rc) \<Rightarrow>
         if \<not> fresh then (Inr (False, ''replayed delegation''), rc)
         else (Inr (True, ''verified '' @ field_str meta ''sender''), rc))"
proof -
  obtain key_hex pk sig m issued where v:
    "map_of peers (field_str meta ''sender'') = Some key_hex"
    "fromhex key_hex = Inr pk" "length pk = 32" "address_encode pk = Inr (field_str meta ''sender'')"
    "field_str meta ''sender'' \<notin> revoked" "field_str meta ''context'' = SIGNING_CONTEXT"
    "recip \<noteq> []" "tid \<noteq> []" "field_str meta ''recipient'' = recip" "field_str meta ''task_id'' = tid"
    "field_str meta ''kind'' = kind"
    "field_int meta ''issued_at'' = Inr issued" "field_int meta ''expires_at'' = Inr expires"
    "issued \<le> int_of_float clock + 60" "issued < expires" "expires - issued \<le> 86400" "int_of_float clock < expires"
    "length (field_str meta ''nonce'') = 32" "b64decode (field_str meta ''signature'') = Inr sig"
    "delegation_signing_bytes (field_str meta ''sender'') recip tid kind issued expires txt (field_str meta ''nonce'') = Inr m"
    "ed_load_public c pk = Inr ()" "ed_verify c pk sig m = Inr ()"
    using assms(1) unfolding delegation_valid_def by blast
  obtain raw where raw: "fromhex (field_str meta ''nonce'') = Inr raw"
    using signing_bytes_nonce[OF v(20)] by blast
  have t: "time_bounds ''delegation'' (int_of_float clock) issued expires = None"
    using v(14-17) by (simp add: time_bounds_None)
  have k: "validate_address_public_key (field_str meta ''sender'') key_hex = Inr pk"
    using v(2-4) address_ascii by (auto simp: validate_key_iff)
  show ?thesis
    unfolding verify_delegation_def Let_def
    using v(1,5-13,18-22) raw t k assms(2) by (simp add: NONCE_BYTES_def)
qed

lemma verify_delegation_rejects:
  assumes "\<nexists>expires. delegation_valid c meta txt peers revoked recip tid kind (int_of_float clock) expires"
    and "meta \<noteq> []"
  shows "snd (verify_delegation c meta txt peers required revoked recip tid kind consume clock db_ok clock' rc) = rc \<and>
    (\<nexists>reason. fst (verify_delegation c meta txt peers required revoked recip tid kind consume clock db_ok clock' rc) =
      Inr (True, reason))"
proof (rule ccontr)
  let ?v = "verify_delegation c meta txt peers required revoked recip tid kind consume clock db_ok clock' rc"
  let ?sender = "field_str meta ''sender''" and ?nonce = "field_str meta ''nonce''"
  assume n: "\<not> ?thesis"
  note D = verify_delegation_def Let_def assms(2)
  obtain key where 1: "map_of peers ?sender = Some key"
    using n by (cases "map_of peers ?sender") (simp_all add: D)
  have 2: "?sender \<notin> revoked" "field_str meta ''context'' = SIGNING_CONTEXT"
    using n 1 by (simp_all add: D split: if_splits)
  have 3: "recip \<noteq> []" "tid \<noteq> []" using n 1 2 by (auto simp: D)
  have 4: "field_str meta ''recipient'' = recip" using n 1 2 3 by (simp add: D split: if_splits)
  have 5: "field_str meta ''task_id'' = tid" using n 1 2 3 4 by (simp add: D split: if_splits)
  have 6: "field_str meta ''kind'' = kind" using n 1 2 3 4 5 by (simp add: D split: if_splits)
  note prev = 1 2 3 4 5 6
  let ?times = "bindE (field_int meta ''issued_at'') (\<lambda>i. bindE (field_int meta ''expires_at'') (\<lambda>e. Inr (i, e)))"
  obtain issued expires where 7: "?times = Inr (issued, expires)"
  proof (cases ?times)
    case (Inl e)
    then have False using n prev by (simp add: D split: if_splits)
    then show ?thesis ..
  qed auto
  have 8: "time_bounds ''delegation'' (int_of_float clock) issued expires = None"
    using n prev 7 by (cases "time_bounds ''delegation'' (int_of_float clock) issued expires") (simp_all add: D)
  have 9: "length ?nonce = NONCE_BYTES * 2" using n prev 7 8 by (simp add: D split: if_splits)
  obtain raw where 10: "fromhex ?nonce = Inr raw"
    using n prev 7 8 9 by (cases "fromhex ?nonce") (simp_all add: D)
  obtain sig where 11: "b64decode (field_str meta ''signature'') = Inr sig"
    using n prev 7 8 9 10 by (cases "b64decode (field_str meta ''signature'')") (simp_all add: D)
  let ?key = "bindE (validate_address_public_key ?sender key) (\<lambda>pk. bindE (ed_load_public c pk) (\<lambda>_. Inr pk))"
  obtain pk where 12: "?key = Inr pk" using n prev 7 8 9 10 11 by (cases ?key) (simp_all add: D)
  obtain m where 13: "delegation_signing_bytes ?sender recip tid kind issued expires txt ?nonce = Inr m"
    using n prev 7 8 9 10 11 12
    by (cases "delegation_signing_bytes ?sender recip tid kind issued expires txt ?nonce") (simp_all add: D)
  have 14: "ed_verify c pk sig m = Inr ()"
    using n prev 7 8 9 10 11 12 13 by (cases "ed_verify c pk sig m") (simp_all add: D split: if_splits)
  have "delegation_valid c meta txt peers revoked recip tid kind (int_of_float clock) expires"
    unfolding delegation_valid_def
    using prev 7 8 9 11 12 13 14 by (auto simp: bindE_eq_Inr validate_key_iff time_bounds_None NONCE_BYTES_def)
  with assms(1) show False by blast
qed

text \<open>
  C2: With a durable cache a delegation is accepted exactly when it is valid (a pinned sender whose
  address is that of its key, not revoked, the expected recipient, task and kind, time bounds, a
  signature of exactly these values and the task text) and the cache records its signature as new;
  a refusal or an error leaves the cache as it was.
\<close>

theorem verify_delegation_exact:
  assumes "rc_durable rc" "meta \<noteq> []"
  shows "case verify_delegation c meta txt peers required revoked recip tid kind True clock db_ok clock' rc of (r, rc') \<Rightarrow>
    ((\<exists>reason. r = Inr (True, reason)) \<longleftrightarrow>
      (\<exists>expires. delegation_valid c meta txt peers revoked recip tid kind (int_of_float clock) expires \<and>
        fst (first_time db_ok clock' (field_str meta ''signature'') (Some expires) rc) = Inr True)) \<and>
    ((\<nexists>reason. r = Inr (True, reason)) \<longrightarrow> rc' = rc)"
proof (cases "\<exists>expires. delegation_valid c meta txt peers revoked recip tid kind (int_of_float clock) expires")
  case False
  from verify_delegation_rejects[OF False assms(2)] False show ?thesis
    by (auto simp: case_prod_unfold)
next
  case True
  then obtain e where e: "delegation_valid c meta txt peers revoked recip tid kind (int_of_float clock) e" ..
  have unique: "e' = e" if "delegation_valid c meta txt peers revoked recip tid kind (int_of_float clock) e'" for e'
    using that e by (auto simp: delegation_valid_def)
  obtain r rc' where f: "first_time db_ok clock' (field_str meta ''signature'') (Some e) rc = (r, rc')" by fastforce
  have same: "rc' = rc" if "r \<noteq> Inr True" using first_time_refused[OF assms(1) f that] .
  have "(\<exists>expires. delegation_valid c meta txt peers revoked recip tid kind (int_of_float clock) expires \<and>
      fst (first_time db_ok clock' (field_str meta ''signature'') (Some expires) rc) = Inr True) \<longleftrightarrow> r = Inr True"
    using e unique f by (metis fst_conv)
  then show ?thesis
    unfolding verify_delegation_accepts[OF e assms(2)] f
    using same by (cases r; cases "projr r") simp_all
qed

section \<open>A signed delegation is accepted once\<close>

lemma b64_digit_ascii: "(of_char (b64_digit n) :: nat) < 128 \<or> 64 \<le> n"
  by (auto simp: b64_digit_def)

lemma b64_digit_lt: "n < 64 \<Longrightarrow> (of_char (b64_digit n) :: nat) < 128"
  using b64_digit_ascii[of n] by auto

lemma b64encode_ascii: "list_all (\<lambda>c. (of_char c :: nat) < 128) (b64encode bs)"
proof (induction bs rule: b64encode.induct)
  case (1 a b c rest)
  let ?n = "unat a * 65536 + unat b * 256 + unat c"
  have "?n div 262144 < 64" using unat_byte_less[of a] unat_byte_less[of b] unat_byte_less[of c] by linarith
  with 1 show ?case by (simp add: Let_def b64_digit_lt)
next
  case (2 a b)
  have "(unat a * 1024 + unat b * 4) div 4096 < 64" using unat_byte_less[of a] unat_byte_less[of b] by linarith
  then show ?case by (simp add: Let_def b64_digit_lt)
next
  case (3 a)
  define n where "n = unat a * 16"
  then have "n div 64 < 64" using unat_byte_less[of a] by linarith
  then show ?case by (simp add: Let_def b64_digit_lt n_def[symmetric])
qed simp

definition delegation_meta :: "string \<Rightarrow> string \<Rightarrow> string \<Rightarrow> string \<Rightarrow> int \<Rightarrow> int \<Rightarrow> bytes \<Rightarrow> bytes \<Rightarrow> metadata" where
  "delegation_meta addr recip tid kind i e random sig =
     [(''sender'', str_obj addr), (''recipient'', str_obj recip), (''task_id'', str_obj tid),
      (''kind'', str_obj kind), (''issued_at'', int_obj i), (''expires_at'', int_obj e),
      (''nonce'', str_obj (bytes_hex random)), (''algorithm'', str_obj ''ed25519''),
      (''context'', str_obj SIGNING_CONTEXT), (''signature'', str_obj (b64encode sig))]"

lemma delegation_meta_fields [simp]:
  "delegation_meta addr recip tid kind i e random sig \<noteq> []"
  "field_str (delegation_meta addr recip tid kind i e random sig) ''sender'' = addr"
  "field_str (delegation_meta addr recip tid kind i e random sig) ''recipient'' = recip"
  "field_str (delegation_meta addr recip tid kind i e random sig) ''task_id'' = tid"
  "field_str (delegation_meta addr recip tid kind i e random sig) ''kind'' = kind"
  "field_str (delegation_meta addr recip tid kind i e random sig) ''nonce'' = bytes_hex random"
  "field_str (delegation_meta addr recip tid kind i e random sig) ''context'' = SIGNING_CONTEXT"
  "field_str (delegation_meta addr recip tid kind i e random sig) ''signature'' = b64encode sig"
  "field_int (delegation_meta addr recip tid kind i e random sig) ''issued_at'' = Inr i"
  "field_int (delegation_meta addr recip tid kind i e random sig) ''expires_at'' = Inr e"
  by (simp_all add: delegation_meta_def field_str_def field_int_def str_obj_def int_obj_def)

lemma sign_delegation_dest:
  assumes "sign_delegation c identity clock0 random txt recip tid kind issued_at expires_at ttl = Inr meta"
  shows "\<exists>pk addr i e dat sig. ed_public c (id_sk identity) = Inr pk \<and> length pk = 32 \<and>
    address_encode pk = Inr addr \<and> recip \<noteq> [] \<and> tid \<noteq> [] \<and> (kind = ''task'' \<or> kind = ''answer'') \<and>
    i < e \<and> e - i \<le> 86400 \<and>
    i = (case issued_at of None \<Rightarrow> int_of_float clock0 | Some t \<Rightarrow> t) \<and>
    e = (case expires_at of None \<Rightarrow> i + ttl | Some t \<Rightarrow> t) \<and>
    delegation_signing_bytes addr recip tid kind i e txt (bytes_hex random) = Inr dat \<and>
    ed_sign c (id_sk identity) dat = Inr sig \<and> meta = delegation_meta addr recip tid kind i e random sig"
proof -
  define i where "i = (case issued_at of None \<Rightarrow> int_of_float clock0 | Some t \<Rightarrow> t)"
  define e where "e = (case expires_at of None \<Rightarrow> i + ttl | Some t \<Rightarrow> t)"
  from assms obtain addr hex pk dat sig where "identity_address c identity = Inr addr" "public_hex c identity = Inr hex"
    "validate_address_public_key addr hex = Inr pk" "\<not> (recip = [] \<or> tid = [])"
    "\<not> (kind \<noteq> ''task'' \<and> kind \<noteq> ''answer'')" "\<not> (e - i \<le> 0 \<or> e - i > MAX_DELEGATION_TTL_SECONDS)"
    "delegation_signing_bytes addr recip tid kind i e txt (bytes_hex random) = Inr dat"
    "identity_sign c identity dat = Inr sig" "meta = delegation_meta addr recip tid kind i e random sig"
    unfolding sign_delegation_def Let_def i_def[symmetric] e_def[symmetric] delegation_meta_def
    by (elim bindE_InrE if_InlE) auto
  then show ?thesis
    by (auto simp: identity_address_def public_hex_def public_bytes_def identity_sign_def bindE_eq_Inr validate_key_iff
        MAX_DELEGATION_TTL_SECONDS_def i_def[symmetric] e_def[symmetric])
qed

lemma sign_delegation_valid:
  assumes sign: "sign_delegation c identity clock0 random txt recip tid kind issued_at expires_at ttl = Inr meta"
    and law: "ed_correct c" and random: "length random = 16"
    and peers: "identity_address c identity = Inr addr" "public_hex c identity = Inr hex" "map_of peers addr = Some hex"
      "addr \<notin> revoked"
    and times: "field_int meta ''issued_at'' = Inr i" "field_int meta ''expires_at'' = Inr e"
      "i \<le> now + 60" "now < e"
  shows "delegation_valid c meta txt peers revoked recip tid kind now e \<and> meta \<noteq> [] \<and> field_str meta ''sender'' = addr \<and>
    (\<exists>k. signature_key (field_str meta ''signature'') = Inr k)"
proof -
  obtain pk where pk: "ed_public c (id_sk identity) = Inr pk" "hex = bytes_hex pk" "address_encode pk = Inr addr"
    using peers(1,2) by (auto simp: identity_address_def public_hex_def public_bytes_def bindE_eq_Inr)
  from sign_delegation_dest[OF sign] pk(1,3) times(1,2) obtain dat sig where s: "length pk = 32" "recip \<noteq> []"
    "tid \<noteq> []" "i < e" "e - i \<le> 86400"
    "delegation_signing_bytes addr recip tid kind i e txt (bytes_hex random) = Inr dat"
    "ed_sign c (id_sk identity) dat = Inr sig" and m: "meta = delegation_meta addr recip tid kind i e random sig"
    by auto
  have "ed_load_public c pk = Inr () \<and> ed_verify c pk sig dat = Inr ()"
    using law pk(1) s(7) unfolding ed_correct_def by blast
  then have "delegation_valid c meta txt peers revoked recip tid kind now e"
    unfolding delegation_valid_def using s pk peers times random
    by (simp add: m)
  moreover have "\<exists>k. signature_key (b64encode sig) = Inr k"
    using b64encode_ascii[of sig] by (simp add: signature_key_def ascii_encode_def)
  ultimately show ?thesis by (simp add: m)
qed

text \<open>
  C29: A delegation signed by a pinned peer that is not revoked is accepted by its recipient within
  its time bounds when the durable cache has room and has not seen its signature; offered again
  before its expiry it is refused as a replay, without any change.
\<close>

theorem delegation_accepted_once:
  assumes "sign_delegation c identity clock0 random txt recip tid kind issued_at expires_at ttl = Inr meta"
    and "ed_correct c" "length random = 16"
    and "identity_address c identity = Inr addr" "public_hex c identity = Inr hex" "map_of peers addr = Some hex"
    and "addr \<notin> revoked"
    and "field_int meta ''issued_at'' = Inr i" "field_int meta ''expires_at'' = Inr e"
    and "i \<le> int_of_float clock + 60" "int_of_float clock < e" "int_of_float clock' < e"
    and "i \<le> int_of_float clock2 + 60" "int_of_float clock2 < e" "int_of_float clock2' < e" "e < 2 ^ 63" "0 < e"
    and "cache_ok rc" "active_count (int_of_float clock') (rc_rows rc) < rc_max_entries rc"
    and "\<not> (\<exists>k x. signature_key (field_str meta ''signature'') = Inr k \<and> map_of (rc_rows rc) k = Some x)"
  shows "\<exists>rc1. verify_delegation c meta txt peers True revoked recip tid kind True clock True clock' rc =
        (Inr (True, ''verified '' @ addr), rc1) \<and>
      verify_delegation c meta txt peers True revoked recip tid kind True clock2 db_ok clock2' rc1 =
        (Inr (False, ''replayed delegation''), rc1)"
proof -
  have v: "delegation_valid c meta txt peers revoked recip tid kind (int_of_float clock) e"
    "delegation_valid c meta txt peers revoked recip tid kind (int_of_float clock2) e"
    "meta \<noteq> []" "field_str meta ''sender'' = addr" "\<exists>k. signature_key (field_str meta ''signature'') = Inr k"
    using sign_delegation_valid[OF assms(1-9)] assms(10,11,13,14) by blast+
  then obtain k where k: "signature_key (field_str meta ''signature'') = Inr k" by blast
  have new: "map_of (rc_rows rc) k = None" using assms(20) k by (cases "map_of (rc_rows rc) k") auto
  obtain rc1 where f: "first_time True clock' (field_str meta ''signature'') (Some e) rc = (Inr True, rc1)"
    using assms(16-19) k new by (simp add: first_time_def first_time_db_def cache_ok_def)
  have "cache_ok rc1" "holds k e rc1" using accepted_rows[OF assms(18) f k] by blast+
  then have "first_time db_ok clock2' (field_str meta ''signature'') (Some e) rc1 = (Inr False, rc1)"
    using held_refused[OF _ k] assms(15) by (simp add: cache_ok_def)
  with f v verify_delegation_accepts[OF v(1,3)] verify_delegation_accepts[OF v(2,3)] show ?thesis by simp
qed

section \<open>An example delegation\<close>

definition ex_id_crypto :: crypto where
  "ex_id_crypto = \<lparr>x_public = Inr, x_exchange = (\<lambda>a b. Inr a), aead_encrypt = (\<lambda>k n d a. Inr d),
     aead_decrypt = (\<lambda>k n d a. Inr d), ed_load_public = (\<lambda>pk. Inr ()), ed_load_private = (\<lambda>sk. Inr ()),
     ed_public = Inr, ed_sign = (\<lambda>sk m. Inr (sha3_512 (sk @ m))),
     ed_verify = (\<lambda>pk sig m. if sig = sha3_512 (pk @ m) then Inr () else Inl InvalidSignature)\<rparr>"

definition ex_identity :: raven_identity where
  "ex_identity = \<lparr>id_sk = zeros 32\<rparr>"

definition ex_cache :: replay_cache where
  "ex_cache = \<lparr>rc_ttl = 86460, rc_max_entries = 2, rc_durable = True, rc_rows = [], rc_seen = []\<rparr>"

lemma ex_ed_correct: "ed_correct ex_id_crypto"
  by (auto simp: ed_correct_def ex_id_crypto_def)

lemma ex_cache_ok: "cache_ok ex_cache"
  by (simp add: cache_ok_def ex_cache_def)

lemma ascii_numerals [simp]:
  "ascii_encode (py_str 100) = Inr (asc (py_str 100))" "ascii_encode (py_str 700) = Inr (asc (py_str 700))"
  "length (py_str 100) = 3" "length (py_str 700) = 3"
  by (simp_all add: py_str_def dec_nat.simps ascii_encode_def)

lemma ex_signed:
  obtains addr sig where "identity_address ex_id_crypto ex_identity = Inr addr"
    "public_hex ex_id_crypto ex_identity = Inr (bytes_hex (zeros 32))"
    "sign_delegation ex_id_crypto ex_identity 0 (zeros 16) ''hi'' ''peer'' ''t1'' ''task'' (Some 100) None 600 =
       Inr (delegation_meta addr ''peer'' ''t1'' ''task'' 100 700 (zeros 16) sig)" "length sig = 64"
proof -
  obtain dat where "address_encode (zeros 32) = Inr (bech_text ''rvn'' (dat @ create_checksum ''rvn'' dat))"
    by (rule address_text)
  then obtain addr where a: "address_encode (zeros 32) = Inr addr" by blast
  have ia: "identity_address ex_id_crypto ex_identity = Inr addr"
    "public_hex ex_id_crypto ex_identity = Inr (bytes_hex (zeros 32))"
    using a by (simp_all add: identity_address_def public_hex_def public_bytes_def ex_id_crypto_def ex_identity_def)
  have v: "validate_address_public_key addr (bytes_hex (zeros 32)) = Inr (zeros 32)"
    using a address_ascii[OF a] by (simp add: validate_key_iff)
  have "length (utf8 addr) \<le> 65535" "length (utf8 ''peer'') \<le> 65535" "length (utf8 ''t1'') \<le> 65535"
    using length_utf8[of addr] address_length[OF a] length_utf8[of "''peer''"] length_utf8[of "''t1''"] by simp_all
  then obtain m where m: "delegation_signing_bytes addr ''peer'' ''t1'' ''task'' 100 700 ''hi'' (bytes_hex (zeros 16)) = Inr m"
    by (simp add: delegation_signing_bytes_def Let_def lp_ok SIGNING_CONTEXT_def ascii_encode_def[of "''task''"])
  let ?sig = "sha3_512 (zeros 32 @ m)"
  have "identity_sign ex_id_crypto ex_identity m = Inr ?sig"
    by (simp add: identity_sign_def ex_id_crypto_def ex_identity_def)
  then have "sign_delegation ex_id_crypto ex_identity 0 (zeros 16) ''hi'' ''peer'' ''t1'' ''task'' (Some 100) None 600 =
       Inr (delegation_meta addr ''peer'' ''t1'' ''task'' 100 700 (zeros 16) ?sig)"
    using ia v m by (simp add: sign_delegation_def Let_def MAX_DELEGATION_TTL_SECONDS_def delegation_meta_def)
  from that[OF ia this] show thesis by simp
qed

theorem delegation_accepted_once_witness:
  "\<exists>meta addr rc1. verify_delegation ex_id_crypto meta ''hi'' [(addr, bytes_hex (zeros 32))] True {} ''peer'' ''t1'' ''task''
       True 150 True 150 ex_cache = (Inr (True, ''verified '' @ addr), rc1) \<and>
     verify_delegation ex_id_crypto meta ''hi'' [(addr, bytes_hex (zeros 32))] True {} ''peer'' ''t1'' ''task''
       True 160 False 160 rc1 = (Inr (False, ''replayed delegation''), rc1)"
proof -
  obtain addr sig where s: "identity_address ex_id_crypto ex_identity = Inr addr"
    "public_hex ex_id_crypto ex_identity = Inr (bytes_hex (zeros 32))"
    "sign_delegation ex_id_crypto ex_identity 0 (zeros 16) ''hi'' ''peer'' ''t1'' ''task'' (Some 100) None 600 =
       Inr (delegation_meta addr ''peer'' ''t1'' ''task'' 100 700 (zeros 16) sig)"
    by (rule ex_signed)
  have n: "int_of_float 150 = 150" "int_of_float 160 = 160" by (simp_all add: int_of_float_def)
  show ?thesis
    using delegation_accepted_once[OF s(3) ex_ed_correct _ s(1,2), where peers = "[(addr, bytes_hex (zeros 32))]" and
        revoked = "{}" and clock = "150" and clock' = "150" and ?clock2.0 = "160" and clock2' = "160" and rc = ex_cache and
        i = "100" and e = "700" and db_ok = False] ex_cache_ok
    by (fastforce simp: n ex_cache_def active_count_def)
qed

lemma ex_first_accepted: "\<exists>rc1. first_time True 150 sig (Some 700) ex_cache = (Inr True, rc1)" if "signature_key sig = Inr k" for sig
  using that by (simp add: first_time_def first_time_db_def ex_cache_def active_count_def int_of_float_def)

theorem replay_refused_until_expiry_witness:
  "\<exists>rc1. first_time True 150 ''AAAA'' (Some 700) ex_cache = (Inr True, rc1) \<and>
     (let rc2 = fold cache_step [(True, 200, ''BBBB'', 900)] rc1 in
      first_time True 699 ''AAAA'' None rc2 = (Inr False, rc2) \<and> length (rc_rows rc2) \<le> 2)"
proof -
  have "\<exists>k. signature_key ''AAAA'' = Inr k" by (simp add: signature_key_def ascii_encode_def)
  then obtain rc1 where f: "first_time True 150 ''AAAA'' (Some 700) ex_cache = (Inr True, rc1)"
    using ex_first_accepted by blast
  with replay_refused_until_expiry[OF ex_cache_ok f, of "[(True, 200, ''BBBB'', 900)]" "699" True None]
  show ?thesis by (auto simp: Let_def int_of_float_def ex_cache_def)
qed

theorem verify_delegation_exact_witness:
  "\<exists>addr sig. case verify_delegation ex_id_crypto (delegation_meta addr ''peer'' ''t1'' ''task'' 100 700 (zeros 16) sig) ''hi''
     [(addr, bytes_hex (zeros 32))] True {} ''peer'' ''t1'' ''task'' True 150 True 150 ex_cache of
       (r, rc') \<Rightarrow> \<exists>reason. r = Inr (True, reason)"
proof -
  obtain addr sig where s: "identity_address ex_id_crypto ex_identity = Inr addr"
    "public_hex ex_id_crypto ex_identity = Inr (bytes_hex (zeros 32))"
    "sign_delegation ex_id_crypto ex_identity 0 (zeros 16) ''hi'' ''peer'' ''t1'' ''task'' (Some 100) None 600 =
       Inr (delegation_meta addr ''peer'' ''t1'' ''task'' 100 700 (zeros 16) sig)"
    by (rule ex_signed)
  let ?m = "delegation_meta addr ''peer'' ''t1'' ''task'' 100 700 (zeros 16) sig"
  have v: "delegation_valid ex_id_crypto ?m ''hi'' [(addr, bytes_hex (zeros 32))] {} ''peer'' ''t1'' ''task'' 150 700"
    "\<exists>k. signature_key (field_str ?m ''signature'') = Inr k"
    using sign_delegation_valid[OF s(3) ex_ed_correct _ s(1,2), of "[(addr, bytes_hex (zeros 32))]" "{}" 100 700 150]
    by simp_all
  obtain rc1 where "first_time True 150 (field_str ?m ''signature'') (Some 700) ex_cache = (Inr True, rc1)"
    using v(2) ex_first_accepted by blast
  then have "\<exists>e. delegation_valid ex_id_crypto ?m ''hi'' [(addr, bytes_hex (zeros 32))] {} ''peer'' ''t1'' ''task''
      (int_of_float 150) e \<and> fst (first_time True 150 (field_str ?m ''signature'') (Some e) ex_cache) = Inr True"
    using v(1) by (intro exI[of _ 700]) (simp add: int_of_float_def)
  moreover have "rc_durable ex_cache" "?m \<noteq> []" by (simp_all add: ex_cache_def)
  ultimately show ?thesis
    using verify_delegation_exact[where rc = ex_cache and meta = "?m" and c = ex_id_crypto and ?txt = "''hi''" and
        peers = "[(addr, bytes_hex (zeros 32))]" and required = True and revoked = "{}" and recip = "''peer''" and
        tid = "''t1''" and kind = "''task''" and clock = "150" and db_ok = True and clock' = "150"]
    by (intro exI[of _ addr] exI[of _ sig]) (auto split: prod.splits)
qed

section \<open>The signing bytes determine what is signed\<close>

definition dec_value :: "string \<Rightarrow> nat" where
  "dec_value s = foldl (\<lambda>a c. 10 * a + (of_char c - 48)) 0 s"

lemma dec_value_dec: "dec_value (dec_nat n) = n"
proof (induction n rule: dec_nat.induct)
  case (1 n)
  then show ?case by (subst dec_nat.simps) (simp add: dec_value_def)
qed

lemma dec_nat_digit: "c \<in> set (dec_nat n) \<Longrightarrow> 48 \<le> (of_char c :: nat)"
proof (induction n rule: dec_nat.induct)
  case (1 n)
  from 1(2) show ?case
    by (subst (asm) dec_nat.simps) (auto split: if_splits dest: 1(1))
qed

lemma dec_nat_not_minus: "CHR ''-'' # s \<noteq> dec_nat n"
proof
  assume e: "CHR ''-'' # s = dec_nat n"
  then have "CHR ''-'' \<in> set (dec_nat n)" by (metis list.set_intros(1))
  from dec_nat_digit[OF this] show False by simp
qed

lemma py_str_inj: "py_str a = py_str b \<Longrightarrow> a = b"
proof -
  assume e: "py_str a = py_str b"
  have d: "dec_nat (nat x) = dec_nat (nat y) \<Longrightarrow> nat x = nat y" for x y
    using dec_value_dec by metis
  show ?thesis
    using e d[of a b] d[of "- a" "- b"] dec_nat_not_minus dec_nat_not_minus[symmetric]
    by (auto simp: py_str_def split: if_splits)
qed

definition delegation_fields :: "string \<Rightarrow> string \<Rightarrow> string \<Rightarrow> string \<Rightarrow> int \<Rightarrow> int \<Rightarrow> string \<Rightarrow> bytes \<Rightarrow> bytes list" where
  "delegation_fields s r t k i e txt raw =
     [asc SIGNING_CONTEXT, utf8 s, utf8 r, utf8 t, asc k, asc (py_str i), asc (py_str e), sha256 (utf8 txt), raw]"

definition http_fields :: "string \<Rightarrow> string \<Rightarrow> string \<Rightarrow> string \<Rightarrow> int \<Rightarrow> int \<Rightarrow> bytes \<Rightarrow> bytes \<Rightarrow> bytes list" where
  "http_fields s r mt tg i e body raw =
     [asc HTTP_SIGNING_CONTEXT, utf8 s, utf8 r, asc (str_upper mt), asc tg, asc (py_str i), asc (py_str e), sha256 body, raw]"

lemma delegation_bytes_framed:
  "delegation_signing_bytes s r t k i e txt nonce = Inr m \<Longrightarrow>
     \<exists>raw. fromhex nonce = Inr raw \<and> list_all (\<lambda>b. length b \<le> 65535) (delegation_fields s r t k i e txt raw) \<and>
       m = concat (map framed (delegation_fields s r t k i e txt raw))"
  by (auto simp: delegation_signing_bytes_def Let_def bindE_eq_Inr lp_iff ascii_encode_Inr delegation_fields_def)

lemma http_bytes_framed:
  "http_request_signing_bytes s r mt tg i e body nonce = Inr m \<Longrightarrow>
     \<exists>raw. fromhex nonce = Inr raw \<and> list_all (\<lambda>b. length b \<le> 65535) (http_fields s r mt tg i e body raw) \<and>
       m = concat (map framed (http_fields s r mt tg i e body raw))"
  by (auto simp: http_request_signing_bytes_def Let_def bindE_eq_Inr lp_iff ascii_encode_Inr http_fields_def)

lemma contexts_differ: "asc SIGNING_CONTEXT \<noteq> asc HTTP_SIGNING_CONTEXT"
proof
  assume "asc SIGNING_CONTEXT = asc HTTP_SIGNING_CONTEXT"
  then have "length SIGNING_CONTEXT = length HTTP_SIGNING_CONTEXT" by (metis length_asc)
  then show False by (simp add: SIGNING_CONTEXT_def HTTP_SIGNING_CONTEXT_def)
qed

text \<open>
  C30: The bytes that are signed determine what is signed: equal signing bytes of two delegations
  mean equal sender, recipient, task, kind, time bounds, nonce and digest of the task text, and no
  HTTP request has the signing bytes of a delegation, so neither signature can stand for another.
\<close>

theorem signing_bytes_determine:
  assumes "delegation_signing_bytes s r t k i e txt nonce = Inr m"
  shows "(delegation_signing_bytes s' r' t' k' i' e' txt' nonce' = Inr m \<longrightarrow>
      s' = s \<and> r' = r \<and> t' = t \<and> k' = k \<and> i' = i \<and> e' = e \<and> sha256 (utf8 txt') = sha256 (utf8 txt) \<and>
      fromhex nonce' = fromhex nonce) \<and>
    http_request_signing_bytes s2 r2 mt tg i2 e2 body nonce2 \<noteq> Inr m"
proof -
  obtain raw where m: "fromhex nonce = Inr raw"
    "list_all (\<lambda>b. length b \<le> 65535) (delegation_fields s r t k i e txt raw)"
    "m = concat (map framed (delegation_fields s r t k i e txt raw))"
    using delegation_bytes_framed[OF assms] by blast
  have "s' = s \<and> r' = r \<and> t' = t \<and> k' = k \<and> i' = i \<and> e' = e \<and> sha256 (utf8 txt') = sha256 (utf8 txt) \<and>
      fromhex nonce' = fromhex nonce" if h: "delegation_signing_bytes s' r' t' k' i' e' txt' nonce' = Inr m"
  proof -
    obtain raw' where m': "fromhex nonce' = Inr raw'"
      "list_all (\<lambda>b. length b \<le> 65535) (delegation_fields s' r' t' k' i' e' txt' raw')"
      "m = concat (map framed (delegation_fields s' r' t' k' i' e' txt' raw'))"
      using delegation_bytes_framed[OF h] by blast
    have "delegation_fields s' r' t' k' i' e' txt' raw' = delegation_fields s r t k i e txt raw"
      by (rule framed_concat_inj[OF m'(2) m(2)]) (use m(3) m'(3) in \<open>simp_all add: delegation_fields_def\<close>)
    then show ?thesis
      using m(1) m'(1) unfolding delegation_fields_def by (auto dest: utf8_inj asc_inj py_str_inj)
  qed
  moreover have "http_request_signing_bytes s2 r2 mt tg i2 e2 body nonce2 \<noteq> Inr m"
  proof
    assume "http_request_signing_bytes s2 r2 mt tg i2 e2 body nonce2 = Inr m"
    then obtain raw' where m': "list_all (\<lambda>b. length b \<le> 65535) (http_fields s2 r2 mt tg i2 e2 body raw')"
      "m = concat (map framed (http_fields s2 r2 mt tg i2 e2 body raw'))"
      using http_bytes_framed by blast
    have "delegation_fields s r t k i e txt raw = http_fields s2 r2 mt tg i2 e2 body raw'"
      by (rule framed_concat_inj[OF m(2) m'(1)]) (use m(3) m'(2) in \<open>simp_all add: delegation_fields_def http_fields_def\<close>)
    then show False using contexts_differ unfolding delegation_fields_def http_fields_def by simp
  qed
  ultimately show ?thesis by blast
qed

theorem signing_bytes_determine_witness:
  "\<exists>m. delegation_signing_bytes ''a'' ''b'' ''t'' ''task'' 100 700 ''hi'' '''' = Inr m \<and>
     http_request_signing_bytes ''a'' ''b'' ''get'' ''/'' 100 700 [] '''' \<noteq> Inr m"
proof -
  have "length (utf8 ''a'') \<le> 65535" "length (utf8 ''b'') \<le> 65535" "length (utf8 ''t'') \<le> 65535"
    using length_utf8[of "''a''"] length_utf8[of "''b''"] length_utf8[of "''t''"] by simp_all
  then obtain m where "delegation_signing_bytes ''a'' ''b'' ''t'' ''task'' 100 700 ''hi'' '''' = Inr m"
    by (simp add: delegation_signing_bytes_def Let_def lp_ok SIGNING_CONTEXT_def ascii_encode_def[of "''task''"])
  with signing_bytes_determine[OF this] show ?thesis by blast
qed

section \<open>The text of a signature is not unique\<close>

text \<open>Another text that decodes to the same 64 bytes: the last digit has four unused bits.\<close>

definition other_text :: "bytes \<Rightarrow> string" where
  "other_text sig = take 85 (b64encode sig) @ [b64_digit (unat (last sig) mod 4 * 16 + 1)] @ ''==''"

lemma b64encode_append: "length xs mod 3 = 0 \<Longrightarrow> b64encode (xs @ ys) = b64encode xs @ b64encode ys"
proof (induction xs rule: b64encode.induct)
  case (1 a b c rest)
  then have "length rest mod 3 = 0" by (simp add: mod_Suc split: if_splits)
  with 1 show ?case by (simp add: Let_def)
qed simp_all

lemma b64decode_append: "b64decode s = Inr xs \<Longrightarrow> (\<forall>c \<in> set s. b64_val c \<noteq> None) \<Longrightarrow> length s mod 4 = 0 \<Longrightarrow>
    b64decode t = Inr ys \<Longrightarrow> b64decode (s @ t) = Inr (xs @ ys)"
proof (induction s arbitrary: xs rule: b64decode.induct)
  case (2 p q r s rest)
  then have "length rest mod 4 = 0" by (simp add: mod_Suc split: if_splits)
  with 2 show ?case by (fastforce simp: bindE_eq_Inr Let_def split: option.splits)
qed (auto simp: mod_Suc)

lemma b64encode_set: "c \<in> set (b64encode xs) \<Longrightarrow> length xs mod 3 = 0 \<Longrightarrow> \<exists>n < 64. c = b64_digit n"
proof (induction xs rule: b64encode.induct)
  case (1 x y z rest)
  let ?n = "unat x * 65536 + unat y * 256 + unat z"
  have "?n div 262144 < 64" using unat_byte_less[of x] unat_byte_less[of y] unat_byte_less[of z] by linarith
  moreover have "length rest mod 3 = 0" using 1(3) by (simp add: mod_Suc split: if_splits)
  moreover have "\<exists>n < 64. b64_digit (k mod 64) = b64_digit n" for k
    by (rule exI[of _ "k mod 64"]) simp
  ultimately show ?case using 1 by (fastforce simp: Let_def)
qed simp_all

lemma length_b64encode: "length xs mod 3 = 0 \<Longrightarrow> length (b64encode xs) = length xs div 3 * 4"
proof (induction xs rule: b64encode.induct)
  case (1 x y z rest)
  then have "length rest mod 3 = 0" by (simp add: mod_Suc split: if_splits)
  with 1 show ?case by (simp add: Let_def)
qed simp_all

lemma other_text_decodes:
  assumes "length sig = 64"
  shows "other_text sig \<noteq> b64encode sig \<and> b64decode (other_text sig) = Inr sig \<and>
    list_all (\<lambda>c. (of_char c :: nat) < 128) (other_text sig)"
proof -
  define xs a where "xs = take 63 sig" and "a = last sig"
  have sig: "sig = xs @ [a]" "length xs = 63"
    using assms append_butlast_last_id[of sig] by (cases sig; simp add: xs_def a_def butlast_conv_take)+
  let ?d = "b64_digit (unat a div 4)"
  have lt: "unat a div 4 < 64" "unat a mod 4 * 16 + 1 < 64" "unat a mod 4 * 16 < 64" using unat_byte_less[of a] by linarith+
  have n: "unat a * 16 div 64 = unat a div 4" by linarith
  moreover have "unat a * 16 mod 64 = unat a mod 4 * 16" using mod_mult_mult2[of "unat a" 16 4] by simp
  note n = n this
  have e: "b64encode sig = b64encode xs @ [?d, b64_digit (unat a mod 4 * 16)] @ ''==''"
    using sig n by (simp add: b64encode_append Let_def)
  have len: "length (b64encode xs) = 84" using sig(2) by (simp add: length_b64encode)
  have o: "other_text sig = b64encode xs @ [?d, b64_digit (unat a mod 4 * 16 + 1)] @ ''==''"
    unfolding other_text_def e using len by (simp add: a_def)
  have v: "b64_val ?d = Some (unat a div 4)" "b64_val (b64_digit (unat a mod 4 * 16 + 1)) = Some (unat a mod 4 * 16 + 1)"
    "b64_val (b64_digit (unat a mod 4 * 16)) = Some (unat a mod 4 * 16)"
    using b64_digit_val lt by blast+
  have "unat a div 4 * 64 + (unat a mod 4 * 16 + 1) = unat a * 16 + 1"
    using div_mult_mod_eq[of "unat a" 4] by linarith
  moreover have "(unat a * 16 + 1) div 16 = unat a" by linarith
  ultimately have "(unat a div 4 * 64 + (unat a mod 4 * 16 + 1)) div 16 = unat a" by metis
  then have t: "b64decode ([?d, b64_digit (unat a mod 4 * 16 + 1)] @ ''=='') = Inr [a]"
    using v by (simp add: Let_def del: One_nat_def add.assoc)
  have "\<forall>c \<in> set (b64encode xs). b64_val c \<noteq> None"
    using b64encode_set[of _ xs] sig(2) b64_digit_val by fastforce
  with b64decode_append[OF b64decode_encode this _ t] have "b64decode (other_text sig) = Inr sig"
    using sig len o by simp
  moreover have "other_text sig \<noteq> b64encode sig" using o e v(2,3) by auto
  moreover have "list_all (\<lambda>c. (of_char c :: nat) < 128) (other_text sig)"
    using o b64encode_ascii[of xs] b64_digit_lt lt by simp
  ultimately show ?thesis by blast
qed

definition resigned :: "bytes \<Rightarrow> metadata \<Rightarrow> metadata" where
  "resigned sig meta = AList.update ''signature'' (str_obj (other_text sig)) meta"

lemma resigned_fields:
  "field_str (resigned sig meta) ''signature'' = other_text sig"
  "f \<noteq> ''signature'' \<Longrightarrow> field_str (resigned sig meta) f = field_str meta f"
  "f \<noteq> ''signature'' \<Longrightarrow> field_int (resigned sig meta) f = field_int meta f"
  by (simp_all add: resigned_def field_str_def field_int_def update_conv' str_obj_def)

lemma resigned_valid:
  assumes "delegation_valid c meta txt peers revoked recip tid kind now e"
    and "b64decode (field_str meta ''signature'') = Inr sig" "length sig = 64"
  shows "delegation_valid c (resigned sig meta) txt peers revoked recip tid kind now e"
  using assms other_text_decodes[OF assms(3)] unfolding delegation_valid_def
  by (simp add: resigned_fields)

lemma signature_key_collision: "signature_key s = Inr k \<Longrightarrow> signature_key t = Inr k \<Longrightarrow> sha256 (asc s) = sha256 (asc t)"
  by (auto simp: signature_key_def bindE_eq_Inr ascii_encode_Inr dest: arg_cong[where f = fromhex])

lemma accepted_other_rows:
  assumes "cache_ok rc" "first_time db_ok now sig (Some e) rc = (Inr True, rc')" "signature_key sig = Inr key"
    and "k' \<noteq> key" "map_of (rc_rows rc) k' = None"
  shows "map_of (rc_rows rc') k' = None"
proof -
  have "rc_durable rc" using assms(1) by (simp add: cache_ok_def)
  then obtain key' where "signature_key sig = Inr key'"
    "rc' = rc\<lparr>rc_rows := filter (\<lambda>(k, x). \<not> (x \<le> int_of_float now \<and> k \<noteq> key')) (AList.delete key' (rc_rows rc) @ [(key', e)])\<rparr>"
    using first_time_accepted[OF _ assms(2)] by metis
  with assms show ?thesis by (auto simp: map_of_eq_None_iff AList.delete_eq)
qed

text \<open>
  C31: A limit of the replay guard, which keys its rows by the text of the signature: the text of a
  valid 64 byte signature can be exchanged for another text that decodes to the same bytes. The
  delegation, otherwise unchanged and with the same signing bytes, is then accepted a second time
  by the cache that has just accepted it, unless the two texts collide under SHA-256, as long as
  the cache has room and no row for the new text.
\<close>

theorem replay_by_other_text:
  assumes "delegation_valid c meta txt peers revoked recip tid kind (int_of_float clock) e"
    and "field_str meta ''signature'' = b64encode sig" "length sig = 64" "cache_ok rc"
    and "verify_delegation c meta txt peers required revoked recip tid kind True clock db_ok clock' rc =
        (Inr (True, reason), rc1)"
    and "active_count (int_of_float clock') (rc_rows rc1) < rc_max_entries rc1"
    and "\<not> (\<exists>k x. signature_key (other_text sig) = Inr k \<and> map_of (rc_rows rc) k = Some x)" "e < 2 ^ 63" "0 < e"
  shows "(\<exists>rc2. verify_delegation c (resigned sig meta) txt peers required revoked recip tid kind True clock True clock' rc1 =
      (Inr (True, ''verified '' @ field_str meta ''sender''), rc2) \<and>
    delegation_signing_bytes (field_str (resigned sig meta) ''sender'') recip tid kind i e txt
      (field_str (resigned sig meta) ''nonce'') =
    delegation_signing_bytes (field_str meta ''sender'') recip tid kind i e txt (field_str meta ''nonce'')) \<or>
    sha256 (asc (other_text sig)) = sha256 (asc (b64encode sig))"
proof (rule disjCI)
  assume no_collision: "sha256 (asc (other_text sig)) \<noteq> sha256 (asc (b64encode sig))"
  have d: "b64decode (field_str meta ''signature'') = Inr sig" using assms(2) by simp
  have ne: "meta \<noteq> []" "resigned sig meta \<noteq> []"
    using assms(1) resigned_fields(1)[of sig meta] other_text_decodes[OF assms(3)]
    by (auto simp: delegation_valid_def field_str_def SIGNING_CONTEXT_def resigned_def)
  obtain k where k: "signature_key (b64encode sig) = Inr k"
    using b64encode_ascii[of sig] by (auto simp: signature_key_def ascii_encode_def)
  have f: "first_time db_ok clock' (b64encode sig) (Some e) rc = (Inr True, rc1)"
    using assms(5) verify_delegation_accepts[OF assms(1) ne(1)] assms(2)
    by (auto split: prod.splits sum.splits if_splits)
  then have ok: "cache_ok rc1" using accepted_rows[OF assms(4) _ k] by blast
  obtain k' where k': "signature_key (other_text sig) = Inr k'"
    using other_text_decodes[OF assms(3)] by (auto simp: signature_key_def ascii_encode_def)
  then have "map_of (rc_rows rc) k' = None" using assms(7) by (cases "map_of (rc_rows rc) k'") blast+
  moreover have "k' \<noteq> k" using signature_key_collision[OF k'] k no_collision by blast
  ultimately have "map_of (rc_rows rc1) k' = None" using accepted_other_rows[OF assms(4) f k] by blast
  then obtain rc2 where "first_time True clock' (other_text sig) (Some e) rc1 = (Inr True, rc2)"
    using ok k' assms(6,8,9) by (simp add: first_time_def first_time_db_def cache_ok_def)
  then show "\<exists>rc2. verify_delegation c (resigned sig meta) txt peers required revoked recip tid kind True clock True clock' rc1 =
      (Inr (True, ''verified '' @ field_str meta ''sender''), rc2) \<and>
    delegation_signing_bytes (field_str (resigned sig meta) ''sender'') recip tid kind i e txt
      (field_str (resigned sig meta) ''nonce'') =
    delegation_signing_bytes (field_str meta ''sender'') recip tid kind i e txt (field_str meta ''nonce'')"
    using verify_delegation_accepts[OF resigned_valid[OF assms(1) d assms(3)] ne(2)] by (simp add: resigned_fields)
qed

theorem replay_by_other_text_witness:
  "\<exists>sig meta peers addr rc1. fst (verify_delegation ex_id_crypto meta ''hi'' peers True {} ''peer'' ''t1'' ''task''
       True 150 True 150 ex_cache) = Inr (True, ''verified '' @ addr) \<and>
     (sha256 (asc (other_text sig)) = sha256 (asc (b64encode sig)) \<or>
      fst (verify_delegation ex_id_crypto (resigned sig meta) ''hi'' peers True {} ''peer'' ''t1'' ''task''
        True 150 True 150 rc1) = Inr (True, ''verified '' @ addr))"
proof -
  obtain addr sig where s: "identity_address ex_id_crypto ex_identity = Inr addr"
    "public_hex ex_id_crypto ex_identity = Inr (bytes_hex (zeros 32))"
    "sign_delegation ex_id_crypto ex_identity 0 (zeros 16) ''hi'' ''peer'' ''t1'' ''task'' (Some 100) None 600 =
       Inr (delegation_meta addr ''peer'' ''t1'' ''task'' 100 700 (zeros 16) sig)" "length sig = 64"
    by (rule ex_signed)
  let ?m = "delegation_meta addr ''peer'' ''t1'' ''task'' 100 700 (zeros 16) sig"
  let ?p = "[(addr, bytes_hex (zeros 32))]"
  have v: "delegation_valid ex_id_crypto ?m ''hi'' ?p {} ''peer'' ''t1'' ''task'' 150 700"
    "\<exists>k. signature_key (field_str ?m ''signature'') = Inr k"
    using sign_delegation_valid[OF s(3) ex_ed_correct _ s(1,2), of ?p "{}" 100 700 150] by simp_all
  then obtain k where k: "signature_key (b64encode sig) = Inr k" by auto
  then obtain rc1 where f: "first_time True 150 (b64encode sig) (Some 700) ex_cache = (Inr True, rc1)"
    "rc_max_entries rc1 = 2" "active_count 150 (rc_rows rc1) = 1"
    by (simp add: first_time_def first_time_db_def ex_cache_def active_count_def int_of_float_def)
  have n: "int_of_float 150 = 150" by (simp add: int_of_float_def)
  have a: "verify_delegation ex_id_crypto ?m ''hi'' ?p True {} ''peer'' ''t1'' ''task'' True 150 True 150 ex_cache =
      (Inr (True, ''verified '' @ addr), rc1)"
    using verify_delegation_accepts[of ex_id_crypto ?m "''hi''" ?p "{}" "''peer''" "''t1''" "''task''" 150 700 True True True 150]
      v(1) f n by simp
  have "rc_rows ex_cache = []" by (simp add: ex_cache_def)
  then show ?thesis
    using replay_by_other_text[OF _ _ s(4) ex_cache_ok a, of 700 "100"] v(1) f(2,3) n a
    by (intro exI[of _ sig] exI[of _ ?m] exI[of _ ?p] exI[of _ addr] exI[of _ rc1]) auto
qed

end
