(* ===== verification/Json.thy ===== *)
theory Json
  imports Complex_Main Identity
begin

text \<open>
  JSON documents as the runtime of the agents reads and writes them: the values \<open>json.loads\<close> can
  return, the text \<open>json.dumps(value, ensure_ascii=False)\<close> writes, and the readings \<open>str(value)\<close> and
  \<open>int(value)\<close> of a value. A finite float carries the text of its \<open>repr\<close>; \<open>NaN\<close> and the infinities,
  which Python reads and writes, are constructors of their own.
\<close>

datatype jval =
    JNull
  | JBool bool
  | JInt int
  | JFloat rat string
  | JNaN
  | JInf bool
  | JStr string
  | JList "jval list"
  | JDict "(string \<times> jval) list"

type_synonym jdict = "(string, jval) dict"

fun join_with :: "string \<Rightarrow> string list \<Rightarrow> string" where
  "join_with sep [] = []"
| "join_with sep [x] = x"
| "join_with sep (x # y # ys) = x @ sep @ join_with sep (y # ys)"

definition hex_pair :: "nat \<Rightarrow> string" where
  "hex_pair n = [hex_digit (n div 16), hex_digit (n mod 16)]"

definition newline :: string where "newline = [char_of (10 :: nat)]"

section \<open>The text of a document\<close>

definition json_escape :: "char \<Rightarrow> string" where
  "json_escape c =
     (let n = of_char c :: nat; b = char_of (92 :: nat) in
      if n = 34 \<or> n = 92 then [b, c]
      else if n = 10 then [b, CHR ''n'']
      else if n = 13 then [b, CHR ''r'']
      else if n = 9 then [b, CHR ''t'']
      else if n = 12 then [b, CHR ''f'']
      else if n = 8 then [b, CHR ''b'']
      else if n < 32 then b # ''u00'' @ hex_pair n
      else [c])"

definition json_string :: "string \<Rightarrow> string" where
  "json_string s = CHR 0x22 # concat (map json_escape s) @ [CHR 0x22]"

text \<open>
  \<open>json.dumps\<close> with the item and key separators; \<open>pad\<close> is what follows an opening bracket and an item
  separator when the document is indented (nothing otherwise), \<open>back\<close> what precedes the closing one.
\<close>

definition bracketed :: "char \<Rightarrow> char \<Rightarrow> string \<Rightarrow> string \<Rightarrow> string \<Rightarrow> string list \<Rightarrow> string" where
  "bracketed l r sep pad back items =
     (if items = [] then [l, r] else l # pad @ join_with (sep @ pad) items @ back @ [r])"

definition line_pad :: "nat option \<Rightarrow> nat \<Rightarrow> string" where
  "line_pad indent level = (case indent of None \<Rightarrow> [] | Some n \<Rightarrow> newline @ replicate (n * level) (CHR '' ''))"

fun json_text :: "nat option \<Rightarrow> string \<Rightarrow> string \<Rightarrow> nat \<Rightarrow> jval \<Rightarrow> string" where
  "json_text ind sep colon lvl JNull = ''null''"
| "json_text ind sep colon lvl (JBool b) = (if b then ''true'' else ''false'')"
| "json_text ind sep colon lvl (JInt n) = py_str n"
| "json_text ind sep colon lvl (JFloat r t) = t"
| "json_text ind sep colon lvl JNaN = ''NaN''"
| "json_text ind sep colon lvl (JInf neg) = (if neg then ''-Infinity'' else ''Infinity'')"
| "json_text ind sep colon lvl (JStr s) = json_string s"
| "json_text ind sep colon lvl (JList vs) =
     bracketed (CHR ''['') (CHR '']'') sep (line_pad ind (Suc lvl)) (line_pad ind lvl)
       (map (json_text ind sep colon (Suc lvl)) vs)"
| "json_text ind sep colon lvl (JDict d) =
     bracketed (CHR ''{'') (CHR ''}'') sep (line_pad ind (Suc lvl)) (line_pad ind lvl)
       (map (\<lambda>(k, v). json_string k @ colon @ json_text ind sep colon (Suc lvl) v) d)"

definition json_dumps :: "jval \<Rightarrow> string" where
  "json_dumps = json_text None '', '' '': '' 0"

definition json_dumps_compact :: "jval \<Rightarrow> string" where
  "json_dumps_compact = json_text None '','' '':'' 0"

definition json_dumps_indent :: "nat \<Rightarrow> jval \<Rightarrow> string" where
  "json_dumps_indent n = json_text (Some n) '','' '': '' 0"

section \<open>Readings of a value\<close>

text \<open>
  \<open>repr\<close> of a string: single quotes, double ones when the text holds single quotes only; the code
  points that do not print are escaped.
\<close>

definition printable :: "char \<Rightarrow> bool" where
  "printable c = (let n = of_char c :: nat in \<not> (n < 32 \<or> (127 \<le> n \<and> n \<le> 160) \<or> n = 173))"

definition repr_escape :: "char \<Rightarrow> char \<Rightarrow> string" where
  "repr_escape q c =
     (let n = of_char c :: nat; b = char_of (92 :: nat) in
      if c = q \<or> n = 92 then [b, c]
      else if n = 10 then [b, CHR ''n'']
      else if n = 13 then [b, CHR ''r'']
      else if n = 9 then [b, CHR ''t'']
      else if \<not> printable c then b # CHR ''x'' # hex_pair n
      else [c])"

definition repr_string :: "string \<Rightarrow> string" where
  "repr_string s =
     (let q = (if CHR 0x27 \<in> set s \<and> CHR 0x22 \<notin> set s then CHR 0x22 else CHR 0x27)
      in q # concat (map (repr_escape q) s) @ [q])"

fun py_repr :: "jval \<Rightarrow> string" where
  "py_repr JNull = ''None''"
| "py_repr (JBool b) = (if b then ''True'' else ''False'')"
| "py_repr (JInt n) = py_str n"
| "py_repr (JFloat r t) = t"
| "py_repr JNaN = ''nan''"
| "py_repr (JInf neg) = (if neg then ''-inf'' else ''inf'')"
| "py_repr (JStr s) = repr_string s"
| "py_repr (JList vs) = bracketed (CHR ''['') (CHR '']'') '', '' [] [] (map py_repr vs)"
| "py_repr (JDict d) =
     bracketed (CHR ''{'') (CHR ''}'') '', '' [] [] (map (\<lambda>(k, v). repr_string k @ '': '' @ py_repr v) d)"

definition py_text :: "jval \<Rightarrow> string" where
  "py_text v = (case v of JStr s \<Rightarrow> s | _ \<Rightarrow> py_repr v)"

lemma py_text_JStr [simp]: "py_text (JStr s) = s"
  by (simp add: py_text_def)

definition json_int :: "jval \<Rightarrow> int res" where
  "json_int v =
     (case v of
        JInt n \<Rightarrow> Inr n
      | JBool b \<Rightarrow> Inr (if b then 1 else 0)
      | JFloat r t \<Rightarrow> Inr (int_of_float r)
      | JNaN \<Rightarrow> Inl (ValueError ''cannot convert float NaN to integer'')
      | JInf neg \<Rightarrow> Inl (OverflowError ''cannot convert float infinity to integer'')
      | JStr s \<Rightarrow> parse_int s
      | _ \<Rightarrow> Inl (TypeError ''int() argument must be a string, a bytes-like object or a real number''))"

text \<open>A dictionary of JSON values as the signature checks read it.\<close>

definition json_obj :: "jval \<Rightarrow> pyobj" where
  "json_obj v = \<lparr>obj_str = py_text v, obj_int = json_int v\<rparr>"

definition json_metadata :: "jdict \<Rightarrow> metadata" where
  "json_metadata d = map (\<lambda>(k, v). (k, json_obj v)) d"

lemma json_obj_simps [simp]:
  "json_obj (JStr s) = str_obj s" "json_obj (JInt n) = int_obj n"
  by (simp_all add: json_obj_def str_obj_def int_obj_def json_int_def py_text_def)

lemma map_of_json_metadata: "map_of (json_metadata d) k = map_option json_obj (map_of d k)"
  by (simp add: json_metadata_def map_of_map)

section \<open>How long a document is\<close>

text \<open>A bound on the text \<open>json.dumps\<close> writes, indented by two or not, that is easy to evaluate.\<close>

fun json_bound :: "nat \<Rightarrow> jval \<Rightarrow> nat" where
  "json_bound lvl (JInt n) = length (py_str n)"
| "json_bound lvl (JFloat r t) = length t"
| "json_bound lvl (JStr s) = 6 * length s + 2"
| "json_bound lvl (JList vs) = 8 + 4 * lvl + sum_list (map (\<lambda>v. json_bound (Suc lvl) v + 2 * lvl + 4) vs)"
| "json_bound lvl (JDict d) =
     8 + 4 * lvl + sum_list (map (\<lambda>(k, v). 6 * length k + 4 + json_bound (Suc lvl) v + 2 * lvl + 4) d)"
| "json_bound lvl _ = 9"

lemma length_join_with: "length (join_with sep xs) \<le> sum_list (map (\<lambda>x. length x + length sep) xs)"
  by (induction sep xs rule: join_with.induct) auto

lemma length_json_escape: "length (json_escape c) \<le> 6"
  by (simp add: json_escape_def hex_pair_def Let_def)

lemma length_json_string: "length (json_string s) \<le> 6 * length s + 2"
proof -
  have "length (concat (map json_escape s)) \<le> 6 * length s"
  proof (induction s)
    case (Cons c s)
    then show ?case using length_json_escape[of c] by simp
  qed simp
  then show ?thesis by (simp add: json_string_def)
qed

lemma length_bracketed:
  assumes "length sep \<le> 1" "length pad \<le> p" "length back \<le> p"
  shows "length (bracketed l r sep pad back items) \<le> 2 + 2 * p + sum_list (map (\<lambda>x. length x + p + 1) items)"
proof -
  have "length (join_with (sep @ pad) items) \<le> sum_list (map (\<lambda>x. length x + length (sep @ pad)) items)"
    by (rule length_join_with)
  also have "\<dots> \<le> sum_list (map (\<lambda>x. length x + p + 1) items)"
    by (rule sum_list_mono) (use assms in simp)
  finally show ?thesis using assms by (simp add: bracketed_def)
qed

lemma json_text_bound:
  assumes "ind = None \<or> ind = Some 2" "length sep \<le> 1" "length colon \<le> 2"
  shows "length (json_text ind sep colon lvl v) \<le> json_bound lvl v"
  using assms
proof (induction ind sep colon lvl v rule: json_text.induct)
  case (8 ind sep colon lvl vs)
  have p: "length (line_pad ind (Suc lvl)) \<le> 2 * lvl + 3" "length (line_pad ind lvl) \<le> 2 * lvl + 3"
    using 8(2) by (auto simp: line_pad_def newline_def)
  have "sum_list (map (\<lambda>x. length x + (2 * lvl + 3) + 1) (map (json_text ind sep colon (Suc lvl)) vs)) \<le>
      sum_list (map (\<lambda>v. json_bound (Suc lvl) v + 2 * lvl + 4) vs)"
    using 8 by (simp add: comp_def sum_list_mono)
  then show ?case using length_bracketed[OF 8(3) p, of "CHR ''[''" "CHR '']''" "map (json_text ind sep colon (Suc lvl)) vs"]
    by simp
next
  case (9 ind sep colon lvl d)
  have p: "length (line_pad ind (Suc lvl)) \<le> 2 * lvl + 3" "length (line_pad ind lvl) \<le> 2 * lvl + 3"
    using 9(2) by (auto simp: line_pad_def newline_def)
  let ?f = "\<lambda>(k, v). json_string k @ colon @ json_text ind sep colon (Suc lvl) v"
  have "length (?f x) + (2 * lvl + 3) + 1 \<le> (case x of (k, v) \<Rightarrow> 6 * length k + 4 + json_bound (Suc lvl) v + 2 * lvl + 4)"
    if "x \<in> set d" for x
  proof -
    obtain k v where x: "x = (k, v)" by (cases x)
    have "length (json_text ind sep colon (Suc lvl) v) \<le> json_bound (Suc lvl) v"
      using 9(1)[OF _ _ 9(2-4)] that x by (metis snd_conv prod.exhaust_sel)
    then show ?thesis using length_json_string[of k] 9(4) by (simp add: x)
  qed
  then have "sum_list (map (\<lambda>x. length (?f x) + (2 * lvl + 3) + 1) d) \<le>
      sum_list (map (\<lambda>(k, v). 6 * length k + 4 + json_bound (Suc lvl) v + 2 * lvl + 4) d)"
    by (rule sum_list_mono)
  then show ?case using length_bracketed[OF 9(3) p, of "CHR ''{''" "CHR ''}''" "map ?f d"]
    by (simp add: comp_def)
qed (use length_json_string in auto)

lemma json_dumps_bound:
  "length (json_dumps_compact v) \<le> json_bound 0 v" "length (json_dumps_indent 2 v) \<le> json_bound 0 v"
  unfolding json_dumps_compact_def json_dumps_indent_def by (rule json_text_bound; simp)+

end
