(* ===== verification/Files.thy ===== *)
theory Files
  imports Complex_Main Json
begin

text \<open>
  Files of the shared directories as the runtime examines them: what \<open>lstat\<close> reports of a name, what
  \<open>fstat\<close> reports of the descriptor that \<open>open\<close> returns, and the content read from it; \<open>None\<close> stands
  for a call that raises \<open>OSError\<close>. The bytes of a file appear as their number and the JSON value
  they parse to, \<open>None\<close> when \<open>raw.decode('utf-8')\<close> or \<open>json.loads\<close> raises; of a file that the model
  itself writes that value is computed from the bytes (\<open>json_loads_bytes\<close>, theory \<open>JsonText\<close>).
\<close>

record file_stat =
  st_regular :: bool
  st_directory :: bool
  st_reparse :: bool
  st_nlink :: nat
  st_size :: nat
  st_ident :: "int \<times> int"

record file_body =
  fb_length :: nat
  fb_json :: "jval option"

record disk_file =
  dl_name :: string
  dl_lstat :: "file_stat option"
  dl_opened :: "(file_stat \<times> file_body) option"

definition same_file :: "file_stat \<Rightarrow> file_stat \<Rightarrow> bool" where
  "same_file m opened \<longleftrightarrow> \<not> (\<not> st_regular opened \<or> st_nlink opened \<noteq> 1 \<or> st_ident opened \<noteq> st_ident m)"

section \<open>Names\<close>

definition starts_with :: "string \<Rightarrow> string \<Rightarrow> bool" where
  "starts_with p s \<longleftrightarrow> take (length p) s = p"

definition ends_with :: "string \<Rightarrow> string \<Rightarrow> bool" where
  "ends_with p s \<longleftrightarrow> length p \<le> length s \<and> drop (length s - length p) s = p"

end
