(* ===== verification/Unicode.thy ===== *)
theory Unicode
  imports PyText
begin

text \<open>
  Python's \<open>str\<close> as the list of its code points, surrogates included, and the UTF-8 codec that the
  agent code applies to it: \<open>str.encode('utf-8', errors='replace')\<close>, and \<open>bytes.decode\<close> strictly and
  with \<open>errors='ignore'\<close>. The theories that handle text below code point 256 as a \<open>string\<close> embed it
  here by \<open>points\<close>.
\<close>

type_synonym code_points = "nat list"

definition points :: "string \<Rightarrow> code_points" where
  "points s = map of_char s"

definition is_surrogate :: "nat \<Rightarrow> bool" where
  "is_surrogate c \<longleftrightarrow> 0xD800 \<le> c \<and> c \<le> 0xDFFF"

definition valid_points :: "code_points \<Rightarrow> bool" where
  "valid_points s \<longleftrightarrow> list_all (\<lambda>c. c < 0x110000) s"

section \<open>Encoding\<close>

text \<open>The one to four bytes of a code point, as numbers.\<close>

definition point_units :: "nat \<Rightarrow> nat list" where
  "point_units c =
     (if c < 0x80 then [c]
      else if c < 0x800 then [0xC0 + c div 64, 0x80 + c mod 64]
      else if c < 0x10000 then [0xE0 + c div 4096, 0x80 + c div 64 mod 64, 0x80 + c mod 64]
      else [0xF0 + c div 262144, 0x80 + c div 4096 mod 64, 0x80 + c div 64 mod 64, 0x80 + c mod 64])"

text \<open>A lone surrogate cannot be encoded; \<open>errors='replace'\<close> writes a question mark for it.\<close>

definition replace_surrogates :: "code_points \<Rightarrow> code_points" where
  "replace_surrogates s = map (\<lambda>c. if is_surrogate c then 63 else c) s"

definition encode_replace :: "code_points \<Rightarrow> bytes" where
  "encode_replace s = map word_of_nat (concat (map point_units (replace_surrogates s)))"

section \<open>Decoding\<close>

text \<open>
  One step of the decoder on a non-empty input: the code point it reads, \<open>None\<close> when the input
  starts with an ill-formed sequence, and the number of bytes it passes. A lead byte with a wrong or
  missing continuation passes the longest prefix that could have started a character, as CPython
  does; overlong forms, surrogates and values above \<open>10FFFF\<close> are ruled out at the second byte.
\<close>

definition continuation :: "nat \<Rightarrow> bool" where
  "continuation b \<longleftrightarrow> 0x80 \<le> b \<and> b < 0xC0"

definition second_ok :: "nat \<Rightarrow> nat \<Rightarrow> bool" where
  "second_ok a b \<longleftrightarrow>
     (if a = 0xE0 then 0xA0 else if a = 0xF0 then 0x90 else 0x80) \<le> b \<and>
     b < (if a = 0xED then 0xA0 else if a = 0xF4 then 0x90 else 0xC0)"

definition utf8_step :: "nat list \<Rightarrow> nat option \<times> nat" where
  "utf8_step us = (case us of
      [] \<Rightarrow> (None, 1)
    | a # r \<Rightarrow>
      if a < 0x80 then (Some a, 1)
      else if 0xC2 \<le> a \<and> a < 0xE0 then
        (case r of
           b # _ \<Rightarrow> if continuation b then (Some (64 * (a - 0xC0) + (b - 0x80)), 2) else (None, 1)
         | [] \<Rightarrow> (None, 1))
      else if 0xE0 \<le> a \<and> a < 0xF0 then
        (case r of
           b # r' \<Rightarrow>
             if \<not> second_ok a b then (None, 1)
             else (case r' of
                d # _ \<Rightarrow> if continuation d
                         then (Some (4096 * (a - 0xE0) + 64 * (b - 0x80) + (d - 0x80)), 3) else (None, 2)
              | [] \<Rightarrow> (None, 2))
         | [] \<Rightarrow> (None, 1))
      else if 0xF0 \<le> a \<and> a < 0xF5 then
        (case r of
           b # r' \<Rightarrow>
             if \<not> second_ok a b then (None, 1)
             else (case r' of
                d # r'' \<Rightarrow>
                  if \<not> continuation d then (None, 2)
                  else (case r'' of
                     e # _ \<Rightarrow> if continuation e
                              then (Some (262144 * (a - 0xF0) + 4096 * (b - 0x80) + 64 * (d - 0x80) + (e - 0x80)), 4)
                              else (None, 3)
                   | [] \<Rightarrow> (None, 3))
              | [] \<Rightarrow> (None, 2))
         | [] \<Rightarrow> (None, 1))
      else (None, 1))"

lemma utf8_step_pos: "0 < snd (utf8_step us)"
  by (auto simp: utf8_step_def split: list.split)

lemma utf8_step_shorter: "us \<noteq> [] \<Longrightarrow> (x, y) = utf8_step us \<Longrightarrow> (drop y us, us) \<in> measure length"
  using utf8_step_pos[of us] by (cases us) (auto simp: Suc_diff_le dest: sym)

function ignore_units :: "nat list \<Rightarrow> code_points" where
  "ignore_units us =
     (if us = [] then []
      else case utf8_step us of (r, n) \<Rightarrow>
        (case r of Some c \<Rightarrow> c # ignore_units (drop n us) | None \<Rightarrow> ignore_units (drop n us)))"
  by pat_completeness auto

termination
  by (relation "measure length") (rule wf_measure, (rule utf8_step_shorter; assumption)+)

function strict_units :: "nat list \<Rightarrow> code_points option" where
  "strict_units us =
     (if us = [] then Some []
      else case utf8_step us of (r, n) \<Rightarrow>
        (case r of Some c \<Rightarrow> map_option (Cons c) (strict_units (drop n us)) | None \<Rightarrow> None))"
  by pat_completeness auto

termination
  by (relation "measure length") (rule wf_measure, (rule utf8_step_shorter; assumption)+)

declare ignore_units.simps [simp del] strict_units.simps [simp del]

text \<open>\<open>bytes.decode('utf-8', errors='ignore')\<close> and the strict \<open>bytes.decode('utf-8')\<close>.\<close>

definition utf8_ignore :: "bytes \<Rightarrow> code_points" where
  "utf8_ignore bs = ignore_units (map unat bs)"

definition utf8_strict :: "bytes \<Rightarrow> code_points option" where
  "utf8_strict bs = strict_units (map unat bs)"

section \<open>The decoder reads what the encoder writes\<close>

lemma divmod_sum:
  fixes c :: nat
  shows "64 * (c div 64) + c mod 64 = c"
    "4096 * (c div 4096) + 64 * (c div 64 mod 64) + c mod 64 = c"
    "262144 * (c div 262144) + 4096 * (c div 4096 mod 64) + 64 * (c div 64 mod 64) + c mod 64 = c"
proof -
  show 1: "64 * (c div 64) + c mod 64 = c" by simp
  have 2: "64 * (c div 4096) + c div 64 mod 64 = c div 64"
    using mult_div_mod_eq[of 64 "c div 64"] by (simp add: div_mult2_eq[symmetric])
  show 3: "4096 * (c div 4096) + 64 * (c div 64 mod 64) + c mod 64 = c" using 1 2 by linarith
  have "64 * (c div 262144) + c div 4096 mod 64 = c div 4096"
    using mult_div_mod_eq[of 64 "c div 4096"] by (simp add: div_mult2_eq[symmetric])
  then show "262144 * (c div 262144) + 4096 * (c div 4096 mod 64) + 64 * (c div 64 mod 64) + c mod 64 = c"
    using 3 by linarith
qed

lemma continuation_unit: "continuation (0x80 + n mod 64)"
  by (simp add: continuation_def)

lemma second_three:
  assumes "0x800 \<le> c" "c < 0x10000" "\<not> is_surrogate c"
  shows "second_ok (0xE0 + c div 4096) (0x80 + c div 64 mod 64)"
proof -
  have s: "64 * (c div 4096) + c div 64 mod 64 = c div 64"
    using mult_div_mod_eq[of 64 "c div 64"] by (simp add: div_mult2_eq[symmetric])
  have "c div 64 mod 64 < 64" by simp
  moreover have "c div 64 < 864 \<or> 896 \<le> c div 64" using assms(3) by (auto simp: is_surrogate_def)
  moreover have "32 \<le> c div 64" "c div 4096 < 16" using assms(1,2) by auto
  ultimately show ?thesis using s unfolding second_ok_def by auto
qed

lemma second_four:
  assumes "0x10000 \<le> c" "c < 0x110000"
  shows "second_ok (0xF0 + c div 262144) (0x80 + c div 4096 mod 64)"
proof -
  have s: "64 * (c div 262144) + c div 4096 mod 64 = c div 4096"
    using mult_div_mod_eq[of 64 "c div 4096"] by (simp add: div_mult2_eq[symmetric])
  have "c div 4096 mod 64 < 64" by simp
  moreover have "16 \<le> c div 4096" "c div 4096 < 272" using assms by auto
  ultimately show ?thesis using s unfolding second_ok_def by auto
qed

lemma utf8_step_point:
  assumes "c < 0x110000" "\<not> is_surrogate c"
  shows "utf8_step (point_units c @ rest) = (Some c, length (point_units c))"
proof -
  consider "c < 0x80" | "0x80 \<le> c" "c < 0x800" | "0x800 \<le> c" "c < 0x10000" | "0x10000 \<le> c" by linarith
  then show ?thesis
  proof cases
    case 2
    then have "2 \<le> c div 64" "c div 64 < 32" by linarith+
    with 2 show ?thesis using divmod_sum(1)[of c] by (simp add: point_units_def utf8_step_def continuation_unit div_less_iff_less_mult)
  next
    case 3
    then have "c div 4096 < 16" by auto
    with 3 show ?thesis
      using divmod_sum(2)[of c] second_three[OF 3 assms(2)] by (simp add: point_units_def utf8_step_def continuation_unit)
  next
    case 4
    then have "c div 262144 < 5" using assms(1) by auto
    with 4 show ?thesis
      using divmod_sum(3)[of c] second_four[OF 4 assms(1)] by (simp add: point_units_def utf8_step_def continuation_unit)
  qed (simp add: point_units_def utf8_step_def)
qed

lemma utf8_step_cut:
  assumes "c < 0x110000" "\<not> is_surrogate c" "0 < k" "k < length (point_units c)"
  shows "utf8_step (take k (point_units c)) = (None, k)"
proof -
  consider "c < 0x80" | "0x80 \<le> c" "c < 0x800" | "0x800 \<le> c" "c < 0x10000" | "0x10000 \<le> c" by linarith
  then show ?thesis
  proof cases
    case 2
    then have "c div 64 < 32" "k = 1" using assms(3,4) by (auto simp: point_units_def)
    with 2 show ?thesis by (simp add: point_units_def utf8_step_def)
  next
    case 3
    then have "c div 4096 < 16" "k = 1 \<or> k = 2" using assms(3,4) by (auto simp: point_units_def)
    with 3 show ?thesis
      using second_three[OF 3 assms(2)] by (auto simp: point_units_def utf8_step_def numeral_2_eq_2)
  next
    case 4
    then have "c div 262144 < 5" "k = 1 \<or> k = 2 \<or> k = 3" using assms by (auto simp: point_units_def)
    with 4 show ?thesis
      using second_four[OF 4 assms(1)]
      by (auto simp: point_units_def utf8_step_def continuation_unit numeral_2_eq_2 numeral_3_eq_3)
  qed (use assms(3,4) in \<open>simp add: point_units_def\<close>)
qed

lemma point_units_pos: "0 < length (point_units c)"
  by (simp add: point_units_def)

lemma point_units_bytes: "c < 0x110000 \<Longrightarrow> list_all (\<lambda>u. u < 256) (point_units c)"
proof -
  assume c: "c < 0x110000"
  have m: "n mod 64 < 128" for n :: nat
    by (rule less_trans[of _ 64]) simp_all
  show ?thesis using c by (simp add: point_units_def m div_less_iff_less_mult)
qed

text \<open>Text every code point of which has an encoding of its own.\<close>

definition encodable :: "code_points \<Rightarrow> bool" where
  "encodable s \<longleftrightarrow> (\<forall>c\<in>set s. c < 0x110000 \<and> \<not> is_surrogate c)"

definition units :: "code_points \<Rightarrow> nat list" where
  "units s = concat (map point_units s)"

lemma units_simps [simp]: "units [] = []" "units (c # s) = point_units c @ units s" "units (s @ t) = units s @ units t"
  by (simp_all add: units_def)

lemma encodable_simps [simp]:
  "encodable []" "encodable (c # s) \<longleftrightarrow> c < 0x110000 \<and> \<not> is_surrogate c \<and> encodable s"
  by (auto simp: encodable_def)

lemma encodable_replace: "valid_points s \<Longrightarrow> encodable (replace_surrogates s)"
  by (auto simp: encodable_def valid_points_def replace_surrogates_def list_all_iff is_surrogate_def)

lemma strict_units_encoded: "encodable s \<Longrightarrow> strict_units (units s) = Some s"
proof (induction s)
  case (Cons c s)
  then show ?case
    using point_units_pos[of c] by (subst strict_units.simps) (simp add: utf8_step_point)
qed (simp add: strict_units.simps)

text \<open>The number of leading code points whose encodings fit in \<open>n\<close> bytes.\<close>

fun fitting :: "nat \<Rightarrow> code_points \<Rightarrow> nat" where
  "fitting n [] = 0"
| "fitting n (c # s) = (if length (point_units c) \<le> n then Suc (fitting (n - length (point_units c)) s) else 0)"

lemma ignore_units_cut: "encodable s \<Longrightarrow> ignore_units (take n (units s)) = take (fitting n s) s"
proof (induction s arbitrary: n)
  case (Cons c s)
  show ?case
  proof (cases "length (point_units c) \<le> n")
    case True
    then show ?thesis
      using Cons point_units_pos[of c] by (subst ignore_units.simps) (simp add: utf8_step_point)
  next
    case False
    then have t: "take n (units (c # s)) = take n (point_units c)" by simp
    show ?thesis
    proof (cases "n = 0")
      case True
      then show ?thesis using point_units_pos[of c] by (simp add: ignore_units.simps)
    next
      case n: False
      then have "utf8_step (take n (point_units c)) = (None, n)" using Cons.prems False by (intro utf8_step_cut) auto
      then show ?thesis using False n unfolding t by (subst ignore_units.simps) (simp add: ignore_units.simps)
    qed
  qed
qed (simp add: ignore_units.simps)

lemma fitting_fits: "length (units (take (fitting n s) s)) \<le> n"
  by (induction n s rule: fitting.induct) auto

lemma fitting_maximal: "fitting n s < length s \<Longrightarrow> n < length (units (take (Suc (fitting n s)) s))"
  by (induction n s rule: fitting.induct) (auto split: if_splits)

lemma fitting_le: "fitting n s \<le> length s"
  by (induction n s rule: fitting.induct) auto

section \<open>Over bytes\<close>

lemma units_bytes: "encodable s \<Longrightarrow> list_all (\<lambda>u. u < 256) (units s)"
  by (induction s) (simp_all add: point_units_bytes)

lemma encode_units: "encode_replace s = map word_of_nat (units (replace_surrogates s))"
  by (simp add: encode_replace_def units_def)

lemma unat_small: "k < 256 \<Longrightarrow> unat (word_of_nat k :: byte) = k"
  by (simp add: unat_of_nat)

lemma unat_units: "encodable s \<Longrightarrow> map unat (map word_of_nat (units s) :: bytes) = units s"
  using units_bytes[of s] by (auto simp: list_eq_iff_nth_eq list_all_length intro!: unat_small)

lemma length_encode: "length (encode_replace s) = length (units (replace_surrogates s))"
  by (simp add: encode_units)

lemma utf8_strict_encoded: "valid_points s \<Longrightarrow> utf8_strict (encode_replace s) = Some (replace_surrogates s)"
  by (simp only: utf8_strict_def encode_units unat_units encodable_replace strict_units_encoded)

lemma utf8_ignore_cut:
  "valid_points s \<Longrightarrow>
     utf8_ignore (take n (encode_replace s)) = take (fitting n (replace_surrogates s)) (replace_surrogates s)"
  by (simp only: utf8_ignore_def encode_units take_map[symmetric] unat_units encodable_replace ignore_units_cut)

section \<open>Text below code point 256\<close>

lemma points_simps [simp]: "points [] = []" "points (c # s) = of_char c # points s" "points (s @ t) = points s @ points t"
  by (simp_all add: points_def)

lemma points_take: "points (take n s) = take n (points s)"
  by (simp add: points_def take_map)

lemma length_points [simp]: "length (points s) = length s"
  by (simp add: points_def)

lemma points_back [simp]: "map char_of (points s) = s"
  by (simp add: points_def comp_def)

lemma of_char_bound: "of_char c < (256 :: nat)"
  by (rule nat_of_char_less_256)

lemma points_valid [simp]: "valid_points (points s)"
proof (induction s)
  case (Cons c s)
  have "of_char c < (1114112 :: nat)" using of_char_bound[of c] by linarith
  with Cons show ?case by (simp add: valid_points_def)
qed (simp add: valid_points_def)

lemma points_replace [simp]: "replace_surrogates (points s) = points s"
proof (induction s)
  case (Cons c s)
  have "\<not> is_surrogate (of_char c)" using of_char_bound[of c] unfolding is_surrogate_def by linarith
  with Cons show ?case by (simp add: replace_surrogates_def)
qed (simp add: replace_surrogates_def)

lemma point_units_char: "map word_of_nat (point_units (of_char c)) = utf8_char c"
proof -
  define n :: nat where "n = of_char c"
  have i: "(of_char c :: int) = int n" unfolding n_def by (rule of_nat_of_char[symmetric])
  have "n < 256" by (simp add: n_def)
  moreover have "(word_of_int (192 + int n div 64) :: byte) = word_of_nat (192 + n div 64)"
    "(word_of_int (128 + int n mod 64) :: byte) = word_of_nat (128 + n mod 64)"
  proof -
    have "192 + int n div 64 = int (192 + n div 64)" "128 + int n mod 64 = int (128 + n mod 64)"
      by (simp_all add: zdiv_int zmod_int)
    then show "(word_of_int (192 + int n div 64) :: byte) = word_of_nat (192 + n div 64)"
      "(word_of_int (128 + int n mod 64) :: byte) = word_of_nat (128 + n mod 64)"
      by (simp_all only: of_int_of_nat_eq)
  qed
  ultimately show ?thesis unfolding n_def[symmetric] utf8_char_def i Let_def by (simp add: point_units_def)
qed

lemma encode_replace_append: "encode_replace (s @ t) = encode_replace s @ encode_replace t"
  by (simp add: encode_replace_def replace_surrogates_def)

lemma replace_encodable: "encodable s \<Longrightarrow> replace_surrogates s = s"
  by (induction s) (simp_all add: replace_surrogates_def)

lemma encodable_append [simp]: "encodable (s @ t) \<longleftrightarrow> encodable s \<and> encodable t"
  by (auto simp: encodable_def)

lemma encodable_take: "encodable s \<Longrightarrow> encodable (take n s)"
  by (auto simp: encodable_def dest: in_set_takeD)

lemma encodable_points [simp]: "encodable (points s)"
  using encodable_replace[of "points s"] by simp

lemma valid_points_take: "valid_points s \<Longrightarrow> valid_points (take n s)"
  by (auto simp: valid_points_def list_all_iff dest: in_set_takeD)

lemma encode_points: "encode_replace (points s) = utf8 s"
  unfolding encode_units points_replace
  by (induction s) (simp_all add: utf8_def point_units_char)

end
