(* ===== verification/JsonText.thy ===== *)
theory JsonText
  imports Complex_Main Json Unicode
begin

text \<open>
  \<open>json.loads\<close> as the runtime uses it: the scanner of CPython over text, and the strict decoding of the
  bytes of a file before it. \<open>None\<close> is an exception. A literal with a fraction or an exponent is read
  by \<open>rf\<close>, Python's reading of a float; a string with a code point above 255 is not represented and
  gives \<open>None\<close> here. The result is that the reader inverts every form of \<open>json.dumps\<close> in use.
\<close>

section \<open>Strings\<close>

definition json_ws :: "char \<Rightarrow> bool" where
  "json_ws c \<longleftrightarrow> (of_char c :: nat) \<in> {9, 10, 13, 32}"

definition skip_ws :: "string \<Rightarrow> string" where
  "skip_ws s = dropWhile json_ws s"

text \<open>The character behind a backslash, other than \<open>u\<close>.\<close>

definition simple_escape :: "char \<Rightarrow> char option" where
  "simple_escape c =
     (let n = of_char c :: nat in
      if n = 34 \<or> n = 92 \<or> n = 47 then Some c
      else if n = 98 then Some (char_of (8 :: nat))
      else if n = 102 then Some (char_of (12 :: nat))
      else if n = 110 then Some (char_of (10 :: nat))
      else if n = 114 then Some (char_of (13 :: nat))
      else if n = 116 then Some (char_of (9 :: nat))
      else None)"

definition hex_code :: "char \<Rightarrow> char \<Rightarrow> char \<Rightarrow> char \<Rightarrow> nat option" where
  "hex_code a b c d =
     (case (hex_val a, hex_val b, hex_val c, hex_val d) of
        (Some a, Some b, Some c, Some d) \<Rightarrow> Some (4096 * a + 256 * b + 16 * c + d)
      | _ \<Rightarrow> None)"

definition prepend :: "'a \<Rightarrow> ('a list \<times> 'b) option \<Rightarrow> ('a list \<times> 'b) option" where
  "prepend x = map_option (\<lambda>(xs, r). (x # xs, r))"

text \<open>The text behind an opening quote: the string and what follows its closing quote.\<close>

fun read_string :: "string \<Rightarrow> (string \<times> string) option" where
  "read_string [] = None"
| "read_string (c # s) =
     (let n = of_char c :: nat in
      if n = 34 then Some ([], s)
      else if n < 32 then None
      else if n \<noteq> 92 then prepend c (read_string s)
      else (case s of
          [] \<Rightarrow> None
        | e # s1 \<Rightarrow>
            if e = CHR ''u'' then
              (case s1 of
                 h1 # h2 # h3 # h4 # s2 \<Rightarrow>
                   (case hex_code h1 h2 h3 h4 of
                      None \<Rightarrow> None
                    | Some k \<Rightarrow> if k < 256 then prepend (char_of k) (read_string s2) else None)
               | _ \<Rightarrow> None)
            else (case simple_escape e of None \<Rightarrow> None | Some d \<Rightarrow> prepend d (read_string s1))))"

section \<open>Numbers\<close>

definition is_digit :: "char \<Rightarrow> bool" where
  "is_digit c \<longleftrightarrow> 48 \<le> (of_char c :: nat) \<and> (of_char c :: nat) \<le> 57"

definition scan_int :: "string \<Rightarrow> (string \<times> string) option" where
  "scan_int s =
     (let (sign, r) = (case s of c # cs \<Rightarrow> if c = CHR ''-'' then ([c], cs) else ([], s) | [] \<Rightarrow> ([], s)) in
      case r of
        [] \<Rightarrow> None
      | c # cs \<Rightarrow>
          if c = CHR ''0'' then Some (sign @ [c], cs)
          else if is_digit c then Some (sign @ takeWhile is_digit r, dropWhile is_digit r)
          else None)"

definition scan_fraction :: "string \<Rightarrow> string \<times> string" where
  "scan_fraction s =
     (case s of
        c # cs \<Rightarrow> if c = CHR ''.'' \<and> takeWhile is_digit cs \<noteq> [] then (c # takeWhile is_digit cs, dropWhile is_digit cs) else ([], s)
      | [] \<Rightarrow> ([], s))"

definition scan_exponent :: "string \<Rightarrow> string \<times> string" where
  "scan_exponent s =
     (case s of
        c # cs \<Rightarrow>
          let (sign, r) = (case cs of d # ds \<Rightarrow> if d = CHR ''+'' \<or> d = CHR ''-'' then ([d], ds) else ([], cs) | [] \<Rightarrow> ([], cs)) in
          if (c = CHR ''e'' \<or> c = CHR ''E'') \<and> takeWhile is_digit r \<noteq> []
          then (c # sign @ takeWhile is_digit r, dropWhile is_digit r) else ([], s)
      | [] \<Rightarrow> ([], s))"

text \<open>The literal, whether it is a float, and the rest.\<close>

definition scan_number :: "string \<Rightarrow> (string \<times> bool \<times> string) option" where
  "scan_number s =
     (case scan_int s of
        None \<Rightarrow> None
      | Some (i, r) \<Rightarrow>
          let (f, r1) = scan_fraction r; (x, r2) = scan_exponent r1
          in Some (i @ f @ x, f \<noteq> [] \<or> x \<noteq> [], r2))"

text \<open>\<open>int(literal)\<close>, which refuses more than 4300 digits.\<close>

definition MAX_INT_DIGITS :: nat where "MAX_INT_DIGITS = 4300"

definition int_literal :: "string \<Rightarrow> int option" where
  "int_literal s =
     (let (negative, ds) = (case s of c # cs \<Rightarrow> if c = CHR ''-'' then (True, cs) else (False, s) | [] \<Rightarrow> (False, s)) in
      if length ds > MAX_INT_DIGITS then None
      else Some (if negative then - int (dec_value ds) else int (dec_value ds)))"

section \<open>Values\<close>

text \<open>The dictionary of the members in reading order: a later member overwrites an earlier one of its key.\<close>

definition as_dict :: "('k \<times> 'v) list \<Rightarrow> ('k, 'v) dict" where
  "as_dict ms = fold (\<lambda>(k, v). AList.update k v) ms []"

definition jword :: "string \<Rightarrow> jval \<Rightarrow> string \<Rightarrow> (jval \<times> string) option" where
  "jword w v s = (if take (length w) s = w then Some (v, drop (length w) s) else None)"

definition jscalar :: "(string \<Rightarrow> jval) \<Rightarrow> string \<Rightarrow> (jval \<times> string) option" where
  "jscalar rf s =
     (case jword ''null'' JNull s of Some x \<Rightarrow> Some x | None \<Rightarrow>
      case jword ''true'' (JBool True) s of Some x \<Rightarrow> Some x | None \<Rightarrow>
      case jword ''false'' (JBool False) s of Some x \<Rightarrow> Some x | None \<Rightarrow>
      case jword ''NaN'' JNaN s of Some x \<Rightarrow> Some x | None \<Rightarrow>
      case jword ''Infinity'' (JInf False) s of Some x \<Rightarrow> Some x | None \<Rightarrow>
      case jword ''-Infinity'' (JInf True) s of Some x \<Rightarrow> Some x | None \<Rightarrow>
      case scan_number s of
        None \<Rightarrow> None
      | Some (t, float, r) \<Rightarrow>
          if float then Some (rf t, r) else map_option (\<lambda>n. (JInt n, r)) (int_literal t))"

text \<open>
  A value that starts the text, the items of a list behind its bracket and the members of an object
  behind its brace. The number bounds the calls below this one; every call but the one for an
  item's value passes a character, so that twice the length of the text is always enough.
\<close>

fun jvalue :: "(string \<Rightarrow> jval) \<Rightarrow> nat \<Rightarrow> string \<Rightarrow> (jval \<times> string) option"
and jitems :: "(string \<Rightarrow> jval) \<Rightarrow> nat \<Rightarrow> string \<Rightarrow> (jval list \<times> string) option"
and jmembers :: "(string \<Rightarrow> jval) \<Rightarrow> nat \<Rightarrow> string \<Rightarrow> ((string \<times> jval) list \<times> string) option" where
  "jvalue rf 0 s = None"
| "jvalue rf (Suc n) s =
     (case s of
        [] \<Rightarrow> None
      | c # r \<Rightarrow>
          if c = CHR 0x22 then map_option (\<lambda>(t, r). (JStr t, r)) (read_string r)
          else if c = CHR ''{'' then
            (case skip_ws r of
               [] \<Rightarrow> None
             | d # r1 \<Rightarrow> if d = CHR ''}'' then Some (JDict [], r1)
                         else map_option (\<lambda>(ms, r). (JDict (as_dict ms), r)) (jmembers rf n (d # r1)))
          else if c = CHR ''['' then
            (case skip_ws r of
               [] \<Rightarrow> None
             | d # r1 \<Rightarrow> if d = CHR '']'' then Some (JList [], r1)
                         else map_option (\<lambda>(vs, r). (JList vs, r)) (jitems rf n (d # r1)))
          else jscalar rf s)"
| "jitems rf 0 s = None"
| "jitems rf (Suc n) s =
     (case jvalue rf n s of
        None \<Rightarrow> None
      | Some (v, r) \<Rightarrow>
          (case skip_ws r of
             [] \<Rightarrow> None
           | d # r1 \<Rightarrow> if d = CHR '']'' then Some ([v], r1)
                       else if d = CHR '','' then prepend v (jitems rf n (skip_ws r1))
                       else None))"
| "jmembers rf 0 s = None"
| "jmembers rf (Suc n) s =
     (case s of
        [] \<Rightarrow> None
      | q # r \<Rightarrow>
          if q \<noteq> CHR 0x22 then None
          else (case read_string r of
             None \<Rightarrow> None
           | Some (k, r) \<Rightarrow>
               (case skip_ws r of
                  [] \<Rightarrow> None
                | d # r1 \<Rightarrow>
                    if d \<noteq> CHR '':'' then None
                    else (case jvalue rf n (skip_ws r1) of
                       None \<Rightarrow> None
                     | Some (v, r) \<Rightarrow>
                         (case skip_ws r of
                            [] \<Rightarrow> None
                          | d # r1 \<Rightarrow> if d = CHR ''}'' then Some ([(k, v)], r1)
                                      else if d = CHR '','' then prepend (k, v) (jmembers rf n (skip_ws r1))
                                      else None)))))"

definition json_loads :: "(string \<Rightarrow> jval) \<Rightarrow> string \<Rightarrow> jval option" where
  "json_loads rf s =
     (case jvalue rf (2 * length s + 2) (skip_ws s) of
        None \<Rightarrow> None
      | Some (v, r) \<Rightarrow> if skip_ws r = [] then Some v else None)"

text \<open>\<open>json.loads(raw.decode('utf-8'))\<close>.\<close>

definition json_loads_bytes :: "(string \<Rightarrow> jval) \<Rightarrow> bytes \<Rightarrow> jval option" where
  "json_loads_bytes rf raw =
     (case utf8_strict raw of
        None \<Rightarrow> None
      | Some ps \<Rightarrow> if list_all (\<lambda>c. c < 256) ps then json_loads rf (map char_of ps) else None)"


section \<open>What \<open>json.dumps\<close> writes is read back\<close>

text \<open>
  The values that \<open>json.dumps\<close> writes and \<open>json.loads\<close> reads back: distinct keys, integers within the
  digit limit, and floats the text of which is a float literal that reads as that float.
\<close>

fun json_ok :: "(string \<Rightarrow> jval) \<Rightarrow> jval \<Rightarrow> bool" where
  "json_ok rf (JInt n) = (length (dec_nat (nat \<bar>n\<bar>)) \<le> MAX_INT_DIGITS)"
| "json_ok rf (JFloat r t) = (scan_number t = Some (t, True, []) \<and> rf t = JFloat r t)"
| "json_ok rf (JList vs) = list_all (json_ok rf) vs"
| "json_ok rf (JDict d) = (wf_dict d \<and> list_all (\<lambda>(k, v). json_ok rf v) d)"
| "json_ok rf _ = True"

subsection \<open>Strings\<close>

lemma prepend_Some [simp]: "prepend x (Some (xs, r)) = Some (x # xs, r)"
  by (simp add: prepend_def)

lemma hex_pair_code: "n < 256 \<Longrightarrow> hex_code (CHR ''0'') (CHR ''0'') (hex_digit (n div 16)) (hex_digit (n mod 16)) = Some n"
proof -
  assume "n < 256"
  then have "n div 16 < 16" "n mod 16 < 16" by auto
  moreover have "hex_val (CHR ''0'') = Some 0" by code_simp
  ultimately show ?thesis using hex_digit_val by (simp add: hex_code_def)
qed

lemma read_string_escape: "read_string (json_escape c @ s) = prepend c (read_string s)"
proof -
  define n :: nat where "n = of_char c"
  have c: "c = char_of n" "n < 256" by (simp_all add: n_def)
  consider "n = 34 \<or> n = 92" | "n = 10 \<or> n = 13 \<or> n = 9 \<or> n = 12 \<or> n = 8"
    | "n \<notin> {34, 92, 10, 13, 9, 12, 8}" "n < 32" | "n \<notin> {34, 92, 10, 13, 9, 12, 8}" "\<not> n < 32" by auto
  then show ?thesis
  proof cases
    case 1
    have "char_of (34 :: nat) \<noteq> CHR ''u''" "char_of (92 :: nat) \<noteq> CHR ''u''" by code_simp+
    with 1 show ?thesis by (auto simp: c(1) json_escape_def simple_escape_def Let_def)
  next
    case 2
    then show ?thesis by (auto simp: c(1) json_escape_def simple_escape_def Let_def)
  next
    case 3
    then show ?thesis using hex_pair_code[of n] c by (simp add: json_escape_def n_def[symmetric] hex_pair_def)
  next
    case 4
    then show ?thesis by (simp add: json_escape_def n_def[symmetric])
  qed
qed

lemma read_string_json: "read_string (concat (map json_escape s) @ CHR 0x22 # rest) = Some (s, rest)"
  by (induction s) (simp_all add: read_string_escape)

subsection \<open>Numbers\<close>

text \<open>What cannot prolong a number.\<close>

definition num_stop :: "string \<Rightarrow> bool" where
  "num_stop rest \<longleftrightarrow> (case rest of [] \<Rightarrow> True | c # _ \<Rightarrow> \<not> is_digit c \<and> c \<notin> set ''.eE+-'')"

lemma num_stop_digits: "num_stop rest \<Longrightarrow> takeWhile is_digit rest = [] \<and> dropWhile is_digit rest = rest"
  by (cases rest) (simp_all add: num_stop_def)

lemma digits_append:
  "num_stop rest \<Longrightarrow> takeWhile is_digit (s @ rest) = takeWhile is_digit s \<and> dropWhile is_digit (s @ rest) = dropWhile is_digit s @ rest"
  by (induction s) (simp_all add: num_stop_digits)

lemma scan_int_append: "num_stop rest \<Longrightarrow> scan_int s = Some (i, r) \<Longrightarrow> scan_int (s @ rest) = Some (i, r @ rest)"
  by (auto simp: scan_int_def digits_append split: list.splits if_splits prod.splits)
     (metis append_Cons digits_append takeWhile.simps(2) dropWhile.simps(2))+


lemma scan_fraction_append:
  "num_stop rest \<Longrightarrow> scan_fraction s = (f, r) \<Longrightarrow> scan_fraction (s @ rest) = (f, r @ rest)"
  by (cases s) (auto simp: scan_fraction_def digits_append num_stop_def split: list.splits if_splits)

lemma scan_exponent_append:
  assumes "num_stop rest" "scan_exponent s = (x, r)"
  shows "scan_exponent (s @ rest) = (x, r @ rest)"
proof (cases s)
  case Nil
  then show ?thesis using assms by (auto simp: scan_exponent_def num_stop_def split: list.splits)
next
  case (Cons c cs)
  have sg: "(case cs @ rest of d # ds \<Rightarrow> if d = CHR ''+'' \<or> d = CHR ''-'' then ([d], ds) else ([], cs @ rest) | [] \<Rightarrow> ([], cs @ rest)) =
      (case (case cs of d # ds \<Rightarrow> if d = CHR ''+'' \<or> d = CHR ''-'' then ([d], ds) else ([], cs) | [] \<Rightarrow> ([], cs)) of
         (sign, q) \<Rightarrow> (sign, q @ rest))"
    using assms(1) by (cases cs) (auto simp: num_stop_def split: list.splits)
  show ?thesis
    using assms(2) unfolding scan_exponent_def Cons append_Cons list.case sg
    by (auto simp: digits_append[OF assms(1)] Let_def split: prod.splits if_splits)
qed

lemma scan_number_append:
  assumes "num_stop rest" "scan_number t = Some (u, b, r)"
  shows "scan_number (t @ rest) = Some (u, b, r @ rest)"
  using assms(2) unfolding scan_number_def
  by (auto simp: Let_def scan_int_append[OF assms(1)] scan_fraction_append[OF assms(1)] scan_exponent_append[OF assms(1)]
      split: option.splits prod.splits)

lemma dec_nat_all_digits: "list_all is_digit (dec_nat n)"
proof (induction n rule: dec_nat.induct)
  case (1 n)
  have "is_digit (char_of (48 + k))" if "k < 10" for k :: nat using that by (simp add: is_digit_def)
  with 1 show ?case by (subst dec_nat.simps) simp
qed

lemma dec_nat_head: "dec_nat n = CHR ''0'' # cs \<Longrightarrow> n = 0 \<and> cs = []"
proof (induction n arbitrary: cs rule: dec_nat.induct)
  case (1 n)
  have ne: "k = 0" if "k < 10" "char_of (48 + k) = CHR ''0''" for k :: nat
  proof -
    have "(of_char (char_of (48 + k)) :: nat) = of_char (CHR ''0'')" by (simp only: that(2))
    then show ?thesis using that(1) by simp
  qed
  show ?case
  proof (cases "n < 10")
    case True
    then show ?thesis using 1(2) ne[of n] by (subst (asm) dec_nat.simps) auto
  next
    case False
    then have "dec_nat (n div 10) @ [char_of (48 + n mod 10)] = CHR ''0'' # cs"
      using 1(2) by (subst (asm) dec_nat.simps) simp
    moreover have "dec_nat (n div 10) \<noteq> []" by (subst dec_nat.simps) simp
    ultimately obtain ds where "dec_nat (n div 10) = CHR ''0'' # ds" by (cases "dec_nat (n div 10)") auto
    from 1(1)[OF False this] False show ?thesis by auto
  qed
qed

lemma dec_nat_scan: "scan_int (dec_nat n) = Some (dec_nat n, [])"
proof -
  have a: "list_all is_digit (dec_nat n)" by (rule dec_nat_all_digits)
  have "dec_nat n \<noteq> []" by (subst dec_nat.simps) simp
  then obtain c cs where d: "dec_nat n = c # cs" by (cases "dec_nat n") auto
  have "c \<noteq> CHR ''-''" using a d by (auto simp: is_digit_def)
  moreover have "takeWhile is_digit (dec_nat n) = dec_nat n" "dropWhile is_digit (dec_nat n) = []"
    using a by (auto simp: list_all_iff takeWhile_eq_all_conv)
  ultimately show ?thesis using a dec_nat_head[of n cs] unfolding d by (auto simp: scan_int_def)
qed

lemma py_str_scan: "scan_number (py_str n) = Some (py_str n, False, [])"
proof -
  have "scan_int (py_str n) = Some (py_str n, [])"
  proof (cases "n < 0")
    case True
    obtain c cs where d: "dec_nat (nat (- n)) = c # cs" by (cases "dec_nat (nat (- n))") (subst (asm) dec_nat.simps, auto split: if_splits)
    then have "c \<noteq> CHR ''-''" using dec_nat_all_digits[of "nat (- n)"] by (auto simp: is_digit_def)
    then show ?thesis using dec_nat_scan[of "nat (- n)"] True d
      by (auto simp: py_str_def scan_int_def split: list.splits if_splits)
  qed (simp add: py_str_def dec_nat_scan)
  then show ?thesis by (simp add: scan_number_def scan_fraction_def scan_exponent_def)
qed

lemma dec_nat_nonempty: obtains c cs where "dec_nat n = c # cs" "c \<noteq> CHR ''-''"
proof -
  have "dec_nat n \<noteq> []" by (subst dec_nat.simps) simp
  then obtain c cs where d: "dec_nat n = c # cs" by (cases "dec_nat n") auto
  then have "c \<noteq> CHR ''-''" using dec_nat_not_minus by metis
  with d show thesis by (rule that)
qed

lemma int_literal_str: "json_ok rf (JInt n) \<Longrightarrow> int_literal (py_str n) = Some n"
proof -
  assume ok: "json_ok rf (JInt n)"
  obtain c cs where d: "dec_nat (nat n) = c # cs" "c \<noteq> CHR ''-''" by (rule dec_nat_nonempty)
  show ?thesis
  proof (cases "n < 0")
    case True
    then have "\<bar>n\<bar> = - n" by simp
    then show ?thesis using ok True by (simp add: int_literal_def py_str_def dec_value_dec)
  next
    case False
    then have "length (c # cs) \<le> MAX_INT_DIGITS" "dec_value (c # cs) = nat n"
      using ok by (simp_all only: d(1)[symmetric] dec_value_dec json_ok.simps abs_of_nonneg not_less)
    then show ?thesis using False d(2) by (simp add: int_literal_def py_str_def d(1))
  qed
qed


lemma scan_number_head:
  "scan_number s = Some x \<Longrightarrow> \<exists>c r. s = c # r \<and> (is_digit c \<or> c = CHR ''-'' \<and> (\<exists>d q. r = d # q \<and> is_digit d))"
  by (auto simp: scan_number_def scan_int_def is_digit_def Let_def split: option.splits list.splits if_splits prod.splits)

lemma jscalar_number:
  assumes "scan_number s = Some (t, float, r)"
  shows "jscalar rf s = (if float then Some (rf t, r) else map_option (\<lambda>n. (JInt n, r)) (int_literal t))"
proof -
  obtain c q where s: "s = c # q" "is_digit c \<or> c = CHR ''-'' \<and> (\<exists>d p. q = d # p \<and> is_digit d)"
    using scan_number_head[OF assms] by blast
  have w: "jword ''null'' v s = None" "jword ''true'' v s = None" "jword ''false'' v s = None" "jword ''NaN'' v s = None"
    "jword ''Infinity'' v s = None" "jword ''-Infinity'' v s = None" for v
    using s by (auto simp: jword_def is_digit_def)
  show ?thesis by (simp add: jscalar_def w assms)
qed

subsection \<open>Lists and objects\<close>

lemma skip_ws_append: "list_all json_ws w \<Longrightarrow> \<not> json_ws c \<Longrightarrow> skip_ws (w @ c # r) = c # r"
  by (induction w) (simp_all add: skip_ws_def)

lemma skip_ws_Cons: "\<not> json_ws c \<Longrightarrow> skip_ws (c # r) = c # r"
  by (simp add: skip_ws_def)

lemma num_stop_ws: "list_all json_ws w \<Longrightarrow> num_stop (c # r) \<Longrightarrow> num_stop (w @ c # r)"
  by (cases w) (auto simp: num_stop_def json_ws_def is_digit_def)

lemma structural [simp]:
  "num_stop (CHR '']'' # r)" "num_stop (CHR ''}'' # r)" "num_stop (CHR '','' # r)" "num_stop []"
  "\<not> json_ws (CHR '']'')" "\<not> json_ws (CHR ''}'')" "\<not> json_ws (CHR '','')" "\<not> json_ws (CHR '':'')" "\<not> json_ws (CHR 0x22)"
  by (simp_all add: num_stop_def is_digit_def json_ws_def)

text \<open>A text that reads back as a value, before anything that does not prolong a number.\<close>

definition reads_back :: "(string \<Rightarrow> jval) \<Rightarrow> string \<Rightarrow> jval \<Rightarrow> bool" where
  "reads_back rf t v \<longleftrightarrow> (\<exists>c r. t = c # r \<and> \<not> json_ws c \<and> c \<noteq> CHR '']'') \<and>
     (\<forall>n rest. num_stop rest \<longrightarrow> length t \<le> n \<longrightarrow> jvalue rf n (t @ rest) = Some (v, rest))"

lemma reads_backD: "reads_back rf t v \<Longrightarrow> num_stop rest \<Longrightarrow> length t \<le> n \<Longrightarrow> jvalue rf n (t @ rest) = Some (v, rest)"
  by (simp add: reads_back_def)

lemma reads_back_start: "reads_back rf t v \<Longrightarrow> \<exists>c r. t = c # r \<and> \<not> json_ws c \<and> c \<noteq> CHR '']''"
  by (simp add: reads_back_def)

lemma jitems_text:
  assumes "list_all (\<lambda>v. reads_back rf (T v) v) vs" "vs \<noteq> []" "list_all json_ws w" "list_all json_ws back"
    and "length (join_with (CHR '','' # w) (map T vs)) < n"
  shows "jitems rf n (join_with (CHR '','' # w) (map T vs) @ back @ CHR '']'' # rest) = Some (vs, rest)"
  using assms(1,2,5)
proof (induction vs arbitrary: n rule: induct_list012)
  case (2 v)
  then obtain m where m: "n = Suc m" "length (T v) \<le> m" by (cases n) auto
  have "jvalue rf m (T v @ back @ CHR '']'' # rest) = Some (v, back @ CHR '']'' # rest)"
    using 2 m by (intro reads_backD num_stop_ws[OF assms(4)]) simp_all
  then show ?case using m by (simp add: skip_ws_append[OF assms(4)])
next
  case (3 v v' vs)
  let ?J = "join_with (CHR '','' # w) (map T (v' # vs))"
  obtain c r where v': "T v' = c # r" "\<not> json_ws c" using 3(3) reads_back_start[of rf "T v'" v'] by auto
  then have J: "\<exists>q. ?J = c # q" by (cases vs) auto
  have len: "length (T v) + 1 + length w + length ?J < n" using 3(5) by simp
  then obtain m where m: "n = Suc m" by (cases n) auto
  have "T v \<noteq> []" using 3(3) reads_back_start[of rf "T v" v] by auto
  then have l: "length ?J < m" "length (T v) \<le> m" using len m by (cases "T v"; simp)+
  have "jvalue rf m (T v @ CHR '','' # w @ ?J @ back @ CHR '']'' # rest) = Some (v, CHR '','' # w @ ?J @ back @ CHR '']'' # rest)"
    using 3(3) l(2) by (intro reads_backD) simp_all
  moreover have "skip_ws (w @ ?J @ back @ CHR '']'' # rest) = ?J @ back @ CHR '']'' # rest"
    using J skip_ws_append[OF assms(3) v'(2)] by fastforce
  moreover have "jitems rf m (?J @ back @ CHR '']'' # rest) = Some (v' # vs, rest)"
    using 3(2)[of m] 3(3) l(1) by simp
  ultimately show ?case by (simp add: m skip_ws_Cons)
qed simp

lemma jmembers_text:
  assumes "list_all (\<lambda>(k, v). reads_back rf (T v) v) d" "d \<noteq> []" "list_all json_ws w" "list_all json_ws back" "list_all json_ws w'"
    and "length (join_with (CHR '','' # w) (map (\<lambda>(k, v). json_string k @ (CHR '':'' # w') @ T v) d)) < n"
  shows "jmembers rf n (join_with (CHR '','' # w) (map (\<lambda>(k, v). json_string k @ (CHR '':'' # w') @ T v) d) @ back @ CHR ''}'' # rest) =
    Some (d, rest)"
  using assms(1,2,6)
proof (induction d arbitrary: n rule: induct_list012)
  case (2 x)
  obtain k v where x: "x = (k, v)" by (cases x)
  obtain m where m: "n = Suc m" "length (T v) \<le> m" using 2 by (cases n) (auto simp: x)
  obtain c r where v: "T v = c # r" "\<not> json_ws c" using 2(1) reads_back_start[of rf "T v" v] by (auto simp: x)
  have "jvalue rf m (T v @ back @ CHR ''}'' # rest) = Some (v, back @ CHR ''}'' # rest)"
    using 2 m by (intro reads_backD num_stop_ws[OF assms(4)]) (simp_all add: x)
  moreover have "skip_ws (w' @ T v @ back @ CHR ''}'' # rest) = T v @ back @ CHR ''}'' # rest"
    using skip_ws_append[OF assms(5) v(2)] v(1) by simp
  ultimately show ?case
    by (simp add: x m(1) json_string_def read_string_json skip_ws_Cons skip_ws_append[OF assms(4)])
next
  case (3 x y d)
  obtain k v where x: "x = (k, v)" by (cases x)
  let ?t = "\<lambda>(k, v). json_string k @ (CHR '':'' # w') @ T v"
  let ?J = "join_with (CHR '','' # w) (map ?t (y # d))"
  obtain c r where v: "T v = c # r" "\<not> json_ws c" using 3(3) reads_back_start[of rf "T v" v] by (auto simp: x)
  have J: "\<exists>q. ?J = CHR 0x22 # q" by (cases d) (auto simp: json_string_def split: prod.split)
  have len: "length (T v) + 1 + length w + length ?J < n" using 3(5) by (simp add: x)
  then obtain m where m: "n = Suc m" by (cases n) auto
  then have l: "length ?J < m" "length (T v) \<le> m" using len v(1) by simp_all
  have "jvalue rf m (T v @ CHR '','' # w @ ?J @ back @ CHR ''}'' # rest) = Some (v, CHR '','' # w @ ?J @ back @ CHR ''}'' # rest)"
    using 3(3) l(2) by (intro reads_backD) (simp_all add: x)
  moreover have "skip_ws (w' @ T v @ q) = T v @ q" for q
    using skip_ws_append[OF assms(5) v(2)] v(1) by simp
  moreover have "skip_ws (w @ ?J @ back @ CHR ''}'' # rest) = ?J @ back @ CHR ''}'' # rest"
    using J skip_ws_append[OF assms(3), of "CHR 0x22"] by fastforce
  moreover have "jmembers rf m (?J @ back @ CHR ''}'' # rest) = Some (y # d, rest)"
    using 3(2)[of m] 3(3) l(1) by simp
  ultimately show ?case by (simp add: x m json_string_def read_string_json skip_ws_Cons)
qed simp

lemma as_dict_distinct: "wf_dict d \<Longrightarrow> as_dict d = d"
proof -
  have "wf_dict (e @ ms) \<Longrightarrow> fold (\<lambda>(k, v). AList.update k v) ms e = e @ ms" for e ms :: "('a \<times> 'b) list"
  proof (induction ms arbitrary: e)
    case (Cons x ms)
    obtain k v where x: "x = (k, v)" by (cases x)
    have "map_of e k = None" using Cons.prems by (auto simp: wf_dict_def x map_of_eq_None_iff)
    then show ?case using Cons.IH[of "e @ [x]"] Cons.prems by (simp add: x update_fresh)
  qed simp
  from this[of "[]" d] show "wf_dict d \<Longrightarrow> as_dict d = d" by (simp add: as_dict_def)
qed


subsection \<open>Documents\<close>

lemma reads_back_scalar:
  assumes "t = c # r" "\<not> json_ws c" "c \<notin> set ''{[]''" "c \<noteq> CHR 0x22"
    and "\<And>rest. num_stop rest \<Longrightarrow> jscalar rf (t @ rest) = Some (v, rest)"
  shows "reads_back rf t v"
proof -
  have "jvalue rf n (t @ rest) = Some (v, rest)" if "num_stop rest" "length t \<le> n" for n rest
  proof -
    obtain m where "n = Suc m" using \<open>length t \<le> n\<close> assms(1) by (cases n) auto
    then show ?thesis using assms(1,3,4) assms(5)[OF \<open>num_stop rest\<close>] by simp
  qed
  then show ?thesis using assms(1-3) by (auto simp: reads_back_def)
qed

lemma reads_back_number:
  assumes "scan_number t = Some (t, float, [])"
    and "(if float then Some (rf t) else map_option JInt (int_literal t)) = Some v"
  shows "reads_back rf t v"
proof -
  obtain c r where c: "t = c # r" "is_digit c \<or> c = CHR ''-''" using scan_number_head[OF assms(1)] by blast
  show ?thesis
  proof (rule reads_back_scalar[OF c(1)])
    show "\<not> json_ws c" "c \<notin> set ''{[]''" "c \<noteq> CHR 0x22" using c(2) by (auto simp: json_ws_def is_digit_def)
    fix rest
    assume "num_stop rest"
    from jscalar_number[OF scan_number_append[OF this assms(1)]] assms(2)
    show "jscalar rf (t @ rest) = Some (v, rest)" by (auto split: if_splits)
  qed
qed

lemma reads_back_string: "reads_back rf (json_string s) (JStr s)"
proof -
  have "jvalue rf n (json_string s @ rest) = Some (JStr s, rest)" if "length (json_string s) \<le> n" for n rest
    using that by (cases n) (auto simp: json_string_def read_string_json)
  then show ?thesis by (auto simp: reads_back_def json_string_def)
qed

lemma reads_back_list:
  assumes "list_all (\<lambda>v. reads_back rf (T v) v) vs" "list_all json_ws w" "list_all json_ws pad" "list_all json_ws back"
  shows "reads_back rf (bracketed (CHR ''['') (CHR '']'') (CHR '','' # w) pad back (map T vs)) (JList vs)"
proof (cases vs)
  case Nil
  have "jvalue rf n (''[]'' @ rest) = Some (JList [], rest)" if "2 \<le> n" for n rest
    using that by (cases n) (auto simp: skip_ws_Cons)
  then show ?thesis by (auto simp: reads_back_def bracketed_def Nil json_ws_def)
next
  case (Cons v vs')
  let ?J = "join_with (CHR '','' # w @ pad) (map T vs)" and ?t = "bracketed (CHR ''['') (CHR '']'') (CHR '','' # w) pad back (map T vs)"
  have t: "?t = CHR ''['' # pad @ ?J @ back @ [CHR '']'']" by (simp add: bracketed_def Cons)
  obtain c r where v: "T v = c # r" "\<not> json_ws c" "c \<noteq> CHR '']''" using assms(1) reads_back_start[of rf "T v" v] by (auto simp: Cons)
  have J: "\<exists>q. ?J = c # q" using v(1) by (cases vs') (auto simp: Cons)
  have w: "list_all json_ws (w @ pad)" using assms(2,3) by simp
  have "jvalue rf n (?t @ rest) = Some (JList vs, rest)" if n: "length ?t \<le> n" for n rest
  proof -
    obtain m where m: "n = Suc m" using n t by (cases n) auto
    have "length ?J < m" using n unfolding t m by simp
    from jitems_text[OF assms(1) _ w assms(4) this, of rest] have "jitems rf m (?J @ back @ CHR '']'' # rest) = Some (vs, rest)"
      using Cons by simp
    moreover have "skip_ws (pad @ ?J @ back @ CHR '']'' # rest) = ?J @ back @ CHR '']'' # rest"
      using J skip_ws_append[OF assms(3) v(2)] by fastforce
    ultimately show ?thesis using J v(3) unfolding t m by auto
  qed
  moreover have "\<exists>c r. ?t = c # r \<and> \<not> json_ws c \<and> c \<noteq> CHR '']''" unfolding t by (auto simp: json_ws_def)
  ultimately show ?thesis unfolding reads_back_def by blast
qed

lemma reads_back_dict:
  assumes "list_all (\<lambda>(k, v). reads_back rf (T v) v) d" "wf_dict d"
    and "list_all json_ws w" "list_all json_ws w'" "list_all json_ws pad" "list_all json_ws back"
  shows "reads_back rf (bracketed (CHR ''{'') (CHR ''}'') (CHR '','' # w) pad back
    (map (\<lambda>(k, v). json_string k @ (CHR '':'' # w') @ T v) d)) (JDict d)"
proof (cases d)
  case Nil
  have "jvalue rf n (''{}'' @ rest) = Some (JDict [], rest)" if "2 \<le> n" for n rest
    using that by (cases n) (auto simp: skip_ws_Cons)
  then show ?thesis by (auto simp: reads_back_def bracketed_def Nil json_ws_def)
next
  case (Cons x d')
  let ?f = "\<lambda>(k, v). json_string k @ (CHR '':'' # w') @ T v"
  let ?J = "join_with (CHR '','' # w @ pad) (map ?f d)" and ?t = "bracketed (CHR ''{'') (CHR ''}'') (CHR '','' # w) pad back (map ?f d)"
  have t: "?t = CHR ''{'' # pad @ ?J @ back @ [CHR ''}'']" by (simp add: bracketed_def Cons)
  have J: "\<exists>q. ?J = CHR 0x22 # q" by (cases d') (auto simp: Cons json_string_def split: prod.split)
  have w: "list_all json_ws (w @ pad)" using assms(3,5) by simp
  have "jvalue rf n (?t @ rest) = Some (JDict d, rest)" if n: "length ?t \<le> n" for n rest
  proof -
    obtain m where m: "n = Suc m" using n t by (cases n) auto
    have "length ?J < m" using n unfolding t m by simp
    from jmembers_text[OF assms(1) _ w assms(6,4) this, of rest] have "jmembers rf m (?J @ back @ CHR ''}'' # rest) = Some (d, rest)"
      using Cons by simp
    moreover have "skip_ws (pad @ ?J @ back @ CHR ''}'' # rest) = ?J @ back @ CHR ''}'' # rest"
      using J skip_ws_append[OF assms(5), of "CHR 0x22"] by fastforce
    ultimately show ?thesis using J as_dict_distinct[OF assms(2)] unfolding t m by auto
  qed
  moreover have "\<exists>c r. ?t = c # r \<and> \<not> json_ws c \<and> c \<noteq> CHR '']''" unfolding t by (auto simp: json_ws_def)
  ultimately show ?thesis unfolding reads_back_def by blast
qed

lemma line_pad_ws: "list_all json_ws (line_pad ind lvl)"
  by (cases ind) (auto simp: line_pad_def newline_def json_ws_def list_all_iff)

lemma json_text_reads_back:
  assumes "list_all json_ws w" "list_all json_ws w'"
  shows "json_ok rf v \<Longrightarrow> reads_back rf (json_text ind (CHR '','' # w) (CHR '':'' # w') lvl v) v"
proof (induction ind "CHR '','' # w" "CHR '':'' # w'" lvl v rule: json_text.induct)
  case (3 ind lvl n)
  then show ?case using reads_back_number[OF py_str_scan[of n], of rf "JInt n"] int_literal_str[of rf n] by simp
next
  case (4 ind lvl r t)
  then show ?case using reads_back_number[of t True rf] by simp
next
  case (7 ind lvl s)
  show ?case using reads_back_string by simp
next
  case (8 ind lvl vs)
  then have "list_all (\<lambda>v. reads_back rf (json_text ind (CHR '','' # w) (CHR '':'' # w') (Suc lvl) v) v) vs"
    by (simp add: list_all_iff)
  from reads_back_list[OF this assms(1) line_pad_ws line_pad_ws] show ?case by simp
next
  case (9 ind lvl d)
  then have "list_all (\<lambda>(k, v). reads_back rf (json_text ind (CHR '','' # w) (CHR '':'' # w') (Suc lvl) v) v) d"
    by (fastforce simp: list_all_iff)
  from reads_back_dict[OF this _ assms(1,2) line_pad_ws line_pad_ws] 9(2) show ?case by simp
qed (auto intro!: reads_back_scalar simp: jscalar_def jword_def json_ws_def)

lemma json_loads_text:
  assumes "list_all json_ws w" "list_all json_ws w'" "json_ok rf v" "list_all json_ws trail"
  shows "json_loads rf (json_text ind (CHR '','' # w) (CHR '':'' # w') lvl v @ trail) = Some v"
proof -
  let ?t = "json_text ind (CHR '','' # w) (CHR '':'' # w') lvl v"
  have r: "reads_back rf ?t v" by (rule json_text_reads_back[OF assms(1-3)])
  obtain c q where c: "?t = c # q" "\<not> json_ws c" using reads_back_start[OF r] by blast
  have "num_stop trail" using assms(4) by (cases trail) (auto simp: num_stop_def json_ws_def is_digit_def)
  then have "jvalue rf (2 * length (?t @ trail) + 2) (?t @ trail) = Some (v, trail)" by (intro reads_backD[OF r]) simp_all
  moreover have "skip_ws (?t @ trail) = ?t @ trail" using c by (simp add: skip_ws_Cons)
  moreover have "skip_ws trail = []" using assms(4) by (simp add: skip_ws_def list_all_iff)
  ultimately show ?thesis by (simp add: json_loads_def)
qed

lemma json_loads_dumps:
  assumes "json_ok rf v" "list_all json_ws trail"
  shows "json_loads rf (json_dumps v @ trail) = Some v" "json_loads rf (json_dumps_compact v @ trail) = Some v"
    "json_loads rf (json_dumps_indent n v @ trail) = Some v"
  unfolding json_dumps_def json_dumps_compact_def json_dumps_indent_def
  using json_loads_text[OF _ _ assms, where w = "'' ''" and w' = "'' ''"]
    json_loads_text[OF _ _ assms, where w = "[]" and w' = "[]"]
    json_loads_text[OF _ _ assms, where w = "[]" and w' = "'' ''"]
  by (simp_all add: json_ws_def)

lemma json_loads_bytes_utf8: "json_loads_bytes rf (utf8 s) = json_loads rf s"
proof -
  have "list_all (\<lambda>c. c < 256) (points s)" by (simp add: points_def list_all_iff)
  then show ?thesis
    by (simp add: json_loads_bytes_def encode_points[symmetric] utf8_strict_encoded)
qed


section \<open>The number of calls is enough\<close>

lemma skip_ws_length: "length (skip_ws s) \<le> length s"
  by (simp add: skip_ws_def length_dropWhile_le)

lemma skip_ws_tail: "skip_ws r = d # q \<Longrightarrow> length q < length r"
  using skip_ws_length[of r] by simp

lemma read_string_length: "read_string s = Some (t, r) \<Longrightarrow> length r \<le> length s"
proof (induction s arbitrary: t r rule: read_string.induct)
  case (2 c s)
  then show ?case
    by (auto simp: prepend_def Let_def split: if_splits list.splits option.splits) force+
qed simp

lemma scan_number_length: "scan_number s = Some (t, b, r) \<Longrightarrow> length r \<le> length s"
proof -
  have d: "length (dropWhile is_digit x) \<le> length x" for x by (rule length_dropWhile_le)
  have i: "scan_int s = Some (i, r) \<Longrightarrow> length r \<le> length s" for s i r
    using d by (fastforce simp: scan_int_def Let_def split: list.splits if_splits prod.splits intro: le_SucI)
  have f: "scan_fraction s = (i, r) \<Longrightarrow> length r \<le> length s" for s i r
    using d by (fastforce simp: scan_fraction_def split: list.splits if_splits intro: le_SucI)
  have x: "scan_exponent s = (i, r) \<Longrightarrow> length r \<le> length s" for s i r
    using d by (fastforce simp: scan_exponent_def Let_def split: list.splits if_splits prod.splits intro: le_SucI)
  assume "scan_number s = Some (t, b, r)"
  then show ?thesis
    by (auto simp: scan_number_def Let_def split: option.splits prod.splits dest!: i f x)
qed

lemma jscalar_length: "jscalar rf s = Some (v, r) \<Longrightarrow> length r \<le> length s"
  by (auto simp: jscalar_def jword_def split: if_splits option.splits prod.splits dest: scan_number_length)

lemma reader_length:
  "jvalue rf n s = Some (v, r) \<Longrightarrow> length r \<le> length s"
  "jitems rf n s = Some (vs, r) \<Longrightarrow> length r \<le> length s"
  "jmembers rf n s = Some (ms, r) \<Longrightarrow> length r \<le> length s"
proof (induction rf n s and rf n s and rf n s arbitrary: v r and vs r and ms r rule: jvalue_jitems_jmembers.induct)
  case (2 rf n s)
  show ?case
  proof (cases s)
    case (Cons c q)
    have w: "length (skip_ws q) \<le> length q" by (rule skip_ws_length)
    from 2 Cons w show ?thesis
      by (auto split: if_splits list.splits dest!: read_string_length jscalar_length) (fastforce dest: le_trans)+
  qed (use 2 in simp)
next
  case (4 rf n s)
  then obtain v1 r1 d q where 1: "jvalue rf n s = Some (v1, r1)" "skip_ws r1 = d # q"
    and last: "d = CHR '']'' \<and> r = q \<or> d \<noteq> CHR '']'' \<and> d = CHR '','' \<and> (\<exists>vs'. jitems rf n (skip_ws q) = Some (vs', r))"
    by (auto simp: prepend_def split: option.splits prod.splits list.splits if_splits)
  have "length r \<le> length q"
    using last 4(2)[OF 1(1) refl 1(2)] skip_ws_length[of q] by (auto intro: le_trans)
  then show ?case using 4(1)[OF 1(1)] skip_ws_tail[OF 1(2)] by linarith
next
  case (6 rf n s)
  then obtain k p p1 p2 v1 q q1 d where s: "s = CHR 0x22 # p" "read_string p = Some (k, p1)" "skip_ws p1 = CHR '':'' # p2"
    and 1: "jvalue rf n (skip_ws p2) = Some (v1, q)" "skip_ws q = d # q1"
    and last: "d = CHR ''}'' \<and> r = q1 \<or> d \<noteq> CHR ''}'' \<and> d = CHR '','' \<and> (\<exists>ms'. jmembers rf n (skip_ws q1) = Some (ms', r))"
    by (auto simp: prepend_def split: option.splits prod.splits list.splits if_splits)
  have "length r \<le> length q1"
    using last 6(2)[OF s(1) _ s(2) refl s(3) _ 1(1) refl 1(2)] skip_ws_length[of q1] by (auto intro: le_trans)
  moreover have "length q \<le> length (skip_ws p2)" using 6(1)[OF s(1) _ s(2) refl s(3) _ 1(1)] by simp
  ultimately show ?case
    using skip_ws_tail[OF 1(2)] skip_ws_length[of p2] skip_ws_tail[OF s(3)] read_string_length[OF s(2)] s(1) by simp
qed simp_all

text \<open>More calls than twice the length of the text change nothing.\<close>

lemma enough_calls:
  "2 * length s < n \<Longrightarrow> jvalue rf (Suc n) s = jvalue rf n s"
  "2 * length s + 1 < n \<Longrightarrow> jitems rf (Suc n) s = jitems rf n s"
  "2 * length s < n \<Longrightarrow> jmembers rf (Suc n) s = jmembers rf n s"
proof (induction n arbitrary: s)
  case (Suc n)
  {
    case 1
    have e: "jitems rf (Suc n) (d # r1) = jitems rf n (d # r1)" "jmembers rf (Suc n) (d # r1) = jmembers rf n (d # r1)"
      if "s = c # r" "skip_ws r = d # r1" for c r d r1
    proof -
      have "length (d # r1) < length s" using skip_ws_tail[OF that(2)] that(1) by simp
      then show "jitems rf (Suc n) (d # r1) = jitems rf n (d # r1)" "jmembers rf (Suc n) (d # r1) = jmembers rf n (d # r1)"
        using 1 by (intro Suc.IH; simp)+
    qed
    show ?case unfolding jvalue.simps(2)[of rf "Suc n"] jvalue.simps(2)[of rf n]
      by (auto split: list.split simp del: jitems.simps jmembers.simps simp: e)
  next
    case 2
    have v: "jvalue rf (Suc n) s = jvalue rf n s" using 2 by (intro Suc.IH) simp
    have "jitems rf (Suc n) (skip_ws r1) = jitems rf n (skip_ws r1)" if "jvalue rf n s = Some (v, r)" "skip_ws r = d # r1" for v r d r1
      using reader_length(1)[OF that(1)] skip_ws_tail[OF that(2)] skip_ws_length[of r1] 2 by (intro Suc.IH) simp
    then show ?case unfolding jitems.simps(2)[of rf "Suc n"] jitems.simps(2)[of rf n] v
      by (simp split: option.split list.split prod.split)
  next
    case 3
    have v: "jvalue rf (Suc n) (skip_ws r1) = jvalue rf n (skip_ws r1)"
      "jvalue rf n (skip_ws r1) = Some (v, q) \<Longrightarrow> skip_ws q = e # q1 \<Longrightarrow> jmembers rf (Suc n) (skip_ws q1) = jmembers rf n (skip_ws q1)"
      if "s = c # p" "read_string p = Some (k, r)" "skip_ws r = d # r1" for c p k r d r1 v q e q1
    proof -
      have l: "length (skip_ws r1) < length s" "Suc (length (skip_ws r1)) < length s"
        using read_string_length[OF that(2)] skip_ws_tail[OF that(3)] skip_ws_length[of r1] that(1) by simp_all
      show "jvalue rf (Suc n) (skip_ws r1) = jvalue rf n (skip_ws r1)" using l 3 by (intro Suc.IH) simp
      show "jmembers rf (Suc n) (skip_ws q1) = jmembers rf n (skip_ws q1)"
        if "jvalue rf n (skip_ws r1) = Some (v, q)" "skip_ws q = e # q1"
        using reader_length(1)[OF that(1)] skip_ws_tail[OF that(2)] skip_ws_length[of q1] l 3 by (intro Suc.IH) simp
    qed
    note step = jmembers.simps(2)[of rf "Suc n" s] jmembers.simps(2)[of rf n s]
    show ?case
    proof (cases s)
      case Nil
      then show ?thesis by simp
    next
      case s: (Cons c p)
      show ?thesis
      proof (cases "read_string p")
        case None
        then show ?thesis unfolding step by (simp only: s list.case option.case)
      next
        case (Some kr)
        then obtain k r where kr: "read_string p = Some (k, r)" by (cases kr) simp
        show ?thesis
        proof (cases "skip_ws r")
          case Nil
          then show ?thesis unfolding step by (simp only: s kr list.case option.case prod.case)
        next
          case r: (Cons d r1)
          note v1 = v(1)[OF s kr r] and v2 = v(2)[OF s kr r]
          show ?thesis
          proof (cases "jvalue rf n (skip_ws r1)")
            case None
            then show ?thesis unfolding step by (simp only: s kr r v1 list.case option.case prod.case)
          next
            case (Some wq)
            then obtain w q where w: "jvalue rf n (skip_ws r1) = Some (w, q)" by (cases wq) simp
            show ?thesis
            proof (cases "skip_ws q")
              case Nil
              then show ?thesis unfolding step by (simp only: s kr r v1 w list.case option.case prod.case)
            next
              case (Cons e q1)
              show ?thesis unfolding step
                by (simp only: s kr r v1 w Cons v2[OF w Cons] list.case option.case prod.case)
            qed
          qed
        qed
      qed
    qed
  }
qed simp_all


lemma json_loads_calls:
  assumes "2 * length s + 2 \<le> n"
  shows "json_loads rf s = (case jvalue rf n (skip_ws s) of None \<Rightarrow> None | Some (v, r) \<Rightarrow> if skip_ws r = [] then Some v else None)"
proof -
  have "jvalue rf n (skip_ws s) = jvalue rf (2 * length s + 2) (skip_ws s)"
    using assms
  proof (induction n rule: dec_induct)
    case (step m)
    then show ?case using enough_calls(1)[of "skip_ws s" m rf] skip_ws_length[of s] by simp
  qed simp
  then show ?thesis by (simp add: json_loads_def)
qed

end
