(* ===== verification/Deltas.thy ===== *)
theory Deltas
  imports Complex_Main Files Ordering JsonText
begin

text \<open>
  \<open>team_agents/deltas.py\<close>: the append-only delta store of the team memory. The directory
  \<open>.team/deltas\<close> is the list of its entries as \<open>os.scandir\<close> returns them, in any order; every
  entry carries what the system reports of it (theory \<open>Files\<close>).
\<close>

definition MAX_DELTA_WRITERS :: nat where "MAX_DELTA_WRITERS = 512"
definition MAX_DELTA_DIRECTORY_ENTRIES :: nat where "MAX_DELTA_DIRECTORY_ENTRIES = 16384"
definition MAX_DELTA_FILES :: nat where "MAX_DELTA_FILES = 8192"
definition MAX_DELTA_FILE_BYTES :: nat where "MAX_DELTA_FILE_BYTES = 256 * 1024"
definition MAX_DELTA_TOTAL_BYTES :: nat where "MAX_DELTA_TOTAL_BYTES = 16 * 1024 * 1024"
definition MAX_DELTA_FUTURE_SKEW_SECONDS :: rat where "MAX_DELTA_FUTURE_SKEW_SECONDS = 24 * 60 * 60"

section \<open>The writer name\<close>

definition name_char :: "char \<Rightarrow> bool" where
  "name_char c = (let n = of_char c :: nat in
     (65 \<le> n \<and> n \<le> 90) \<or> (97 \<le> n \<and> n \<le> 122) \<or> (48 \<le> n \<and> n \<le> 57) \<or> c \<in> set ''_.-'')"

definition reserved_names :: "string list" where
  "reserved_names = [''CON'', ''PRN'', ''AUX'', ''NUL''] @
     map (\<lambda>n. ''COM'' @ py_str (int n)) [1..<10] @ map (\<lambda>n. ''LPT'' @ py_str (int n)) [1..<10]"

definition windows_stem :: "string \<Rightarrow> string" where
  "windows_stem s = str_upper (takeWhile (\<lambda>c. c \<noteq> CHR ''.'') s)"

definition delta_writer_name :: "string \<Rightarrow> string" where
  "delta_writer_name writer =
     (let raw_writer = (if writer = [] then ''system'' else writer);
          safe_writer = take 40 (map (\<lambda>c. if name_char c then c else CHR ''_'') raw_writer) in
      if safe_writer \<noteq> raw_writer \<or> safe_writer = [] \<or> safe_writer \<in> {''.'', ''..''}
         \<or> windows_stem safe_writer \<in> set reserved_names
      then ''writer-'' @ take 24 (bytes_hex (sha256 (utf8 raw_writer)))
      else safe_writer)"

section \<open>The directory\<close>

text \<open>
  \<open>lstat\<close> of a directory entry says whether it is a directory and whether it has a reparse tag; a
  symbolic link is \<open>Some b\<close>, where \<open>b\<close> says whether it leads to a directory; \<open>scan_ok\<close> says whether
  \<open>os.scandir\<close> succeeds.
\<close>

record delta_writer =
  dw_name :: string
  dw_is_dir :: bool
  dw_symlink :: "bool option"
  dw_lstat :: "(bool \<times> bool) option"
  dw_scan_ok :: bool
  dw_files :: "disk_file list"

record delta_base =
  db_lstat :: "bool option"
  db_symlink :: "bool option"
  db_scan_ok :: bool
  db_writers :: "delta_writer list"

section \<open>Reading\<close>

definition delta_kind_ok :: "string \<Rightarrow> bool" where
  "delta_kind_ok kind =
     (case kind of [] \<Rightarrow> False
      | c # cs \<Rightarrow> 97 \<le> (of_char c :: nat) \<and> (of_char c :: nat) \<le> 122 \<and> length cs \<le> 31 \<and>
          list_all (\<lambda>c. (97 \<le> (of_char c :: nat) \<and> (of_char c :: nat) \<le> 122) \<or>
                        (48 \<le> (of_char c :: nat) \<and> (of_char c :: nat) \<le> 57) \<or> c \<in> set ''_-'') cs)"

definition matching :: "string \<Rightarrow> disk_file \<Rightarrow> bool" where
  "matching kind f \<longleftrightarrow> starts_with (kind @ ''-'') (dl_name f) \<and> ends_with ''.json'' (dl_name f)"

definition stat_ok :: "file_stat \<Rightarrow> bool" where
  "stat_ok m \<longleftrightarrow> \<not> (\<not> st_regular m \<or> st_reparse m \<or> st_nlink m \<noteq> 1 \<or> st_size m > MAX_DELTA_FILE_BYTES)"

text \<open>
  The number a timestamp stands for: booleans, \<open>NaN\<close> and the infinities are refused. An integer is
  exact here; one that \<open>float()\<close> rounds or refuses exceeds 2^53 and is later than any clock admits.
\<close>

definition timestamp_of :: "jval option \<Rightarrow> rat option" where
  "timestamp_of v = (case v of Some (JInt n) \<Rightarrow> Some (of_int n) | Some (JFloat r _) \<Rightarrow> Some r | _ \<Rightarrow> None)"

definition is_jstr :: "jval option \<Rightarrow> bool" where
  "is_jstr v = (case v of Some (JStr _) \<Rightarrow> True | _ \<Rightarrow> False)"

type_synonym delta_item = "rat \<times> string \<times> string \<times> jdict"

definition record_item :: "string \<Rightarrow> rat \<Rightarrow> string \<Rightarrow> string \<Rightarrow> jval option \<Rightarrow> delta_item option" where
  "record_item kind latest writer fname doc =
     (case doc of
        Some (JDict record) \<Rightarrow>
          (case timestamp_of (map_of record ''at'') of
             None \<Rightarrow> None
           | Some timestamp \<Rightarrow>
               if timestamp < 0 \<or> timestamp > latest \<or> map_of record ''kind'' \<noteq> Some (JStr kind)
                  \<or> \<not> is_jstr (map_of record ''w'')
               then None else Some (timestamp, writer, fname, record))
      | _ \<Rightarrow> None)"

text \<open>The counters of a scan; \<open>None\<close> is the early return of an empty list.\<close>

record scan =
  sc_entries :: nat
  sc_files :: nat
  sc_bytes :: nat
  sc_accepted :: "delta_item list"

definition raw_length :: "file_body \<Rightarrow> nat" where
  "raw_length body = min (fb_length body) (MAX_DELTA_FILE_BYTES + 1)"

definition scan_file :: "string \<Rightarrow> rat \<Rightarrow> string \<Rightarrow> disk_file \<Rightarrow> scan \<Rightarrow> scan option" where
  "scan_file kind latest writer f s =
     (if \<not> matching kind f then Some s
      else if sc_files s \<ge> MAX_DELTA_FILES \<or> sc_bytes s \<ge> MAX_DELTA_TOTAL_BYTES then None
      else case dl_lstat f of
        None \<Rightarrow> Some s
      | Some m \<Rightarrow>
      if \<not> stat_ok m then Some s
      else if st_size m > MAX_DELTA_TOTAL_BYTES - sc_bytes s then None
      else case dl_opened f of
        None \<Rightarrow> Some s
      | Some (opened, body) \<Rightarrow>
      if \<not> same_file m opened then Some s
      else let raw = raw_length body;
               s = s\<lparr>sc_files := sc_files s + 1, sc_bytes := sc_bytes s + raw\<rparr> in
        if raw > MAX_DELTA_FILE_BYTES then Some s
        else case record_item kind latest writer (dl_name f) (fb_json body) of
          None \<Rightarrow> Some s
        | Some item \<Rightarrow> Some (s\<lparr>sc_accepted := sc_accepted s @ [item]\<rparr>))"

fun scan_files :: "string \<Rightarrow> rat \<Rightarrow> string \<Rightarrow> disk_file list \<Rightarrow> scan \<Rightarrow> scan option" where
  "scan_files kind latest writer [] s = Some s"
| "scan_files kind latest writer (f # fs) s =
     (let s = s\<lparr>sc_entries := sc_entries s + 1\<rparr> in
      if sc_entries s > MAX_DELTA_DIRECTORY_ENTRIES then Some s
      else case scan_file kind latest writer f s of
        None \<Rightarrow> None | Some s \<Rightarrow> scan_files kind latest writer fs s)"

text \<open>The files of a writer entry, when it is a real directory that can be listed.\<close>

definition listed :: "delta_writer \<Rightarrow> disk_file list option" where
  "listed w = (if \<not> dw_is_dir w then None
     else case dw_lstat w of
       None \<Rightarrow> None
     | Some (directory, reparse) \<Rightarrow> if reparse \<or> \<not> directory \<or> \<not> dw_scan_ok w then None else Some (dw_files w))"

fun scan_writers :: "string \<Rightarrow> rat \<Rightarrow> delta_writer list \<Rightarrow> scan \<Rightarrow> scan option" where
  "scan_writers kind latest [] s = Some s"
| "scan_writers kind latest (w # ws) s =
     (let s = s\<lparr>sc_entries := sc_entries s + 1\<rparr> in
      if sc_entries s > MAX_DELTA_DIRECTORY_ENTRIES then Some s
      else case listed w of
        None \<Rightarrow> scan_writers kind latest ws s
      | Some file_entries \<Rightarrow>
      if length file_entries > MAX_DELTA_DIRECTORY_ENTRIES - sc_entries s then None
      else case scan_files kind latest (dw_name w) (sort_key dl_name file_entries) s of
        None \<Rightarrow> None
      | Some s \<Rightarrow> if sc_entries s > MAX_DELTA_DIRECTORY_ENTRIES then Some s else scan_writers kind latest ws s)"

definition item_key :: "delta_item \<Rightarrow> rat \<times> string \<times> string" where
  "item_key item = (case item of (timestamp, writer, fname, _) \<Rightarrow> (timestamp, writer, fname))"

definition item_record :: "delta_item \<Rightarrow> jdict" where
  "item_record item = (case item of (_, _, _, record) \<Rightarrow> record)"

definition new_scan :: scan where
  "new_scan = \<lparr>sc_entries = 0, sc_files = 0, sc_bytes = 0, sc_accepted = []\<rparr>"

definition delta_read :: "string \<Rightarrow> rat \<Rightarrow> delta_base \<Rightarrow> jdict list" where
  "delta_read kind now base =
     (if \<not> delta_kind_ok kind then []
      else (case db_lstat base of
        None \<Rightarrow> []
      | Some directory \<Rightarrow>
      if db_symlink base \<noteq> None \<or> \<not> directory then []
      else if \<not> db_scan_ok base \<or> length (db_writers base) > MAX_DELTA_WRITERS then []
      else case scan_writers kind (now + MAX_DELTA_FUTURE_SKEW_SECONDS) (sort_key dw_name (db_writers base)) new_scan of
        None \<Rightarrow> []
      | Some s \<Rightarrow> map item_record (sort_key item_key (sc_accepted s))))"

section \<open>The last write per key\<close>

definition key_text :: "string \<Rightarrow> jdict \<Rightarrow> string" where
  "key_text key record = (case map_of record key of None \<Rightarrow> [] | Some v \<Rightarrow> py_text v)"

definition latest_step :: "string \<Rightarrow> jdict \<Rightarrow> (string, jdict) dict \<Rightarrow> (string, jdict) dict" where
  "latest_step key record seen =
     (let k = key_text key record in if k \<noteq> [] then AList.update k record seen else seen)"

definition latest_records :: "string \<Rightarrow> jdict list \<Rightarrow> jdict list" where
  "latest_records key records = map snd (fold (latest_step key) records [])"

definition latest_by :: "string \<Rightarrow> string \<Rightarrow> rat \<Rightarrow> delta_base \<Rightarrow> jdict list" where
  "latest_by kind key now base = latest_records key (delta_read kind now base)"

section \<open>Writing\<close>

definition delta_record :: "(rat \<Rightarrow> string) \<Rightarrow> string \<Rightarrow> string \<Rightarrow> rat \<Rightarrow> jdict \<Rightarrow> jdict" where
  "delta_record float_text writer kind now payload =
     AList.update ''kind'' (JStr kind) (AList.update ''at'' (JFloat now (float_text now))
       (AList.update ''w'' (JStr writer) payload))"

definition delta_encoded :: "jdict \<Rightarrow> bytes" where
  "delta_encoded record = utf8 (json_dumps (JDict record) @ newline)"

definition delta_file_name :: "string \<Rightarrow> rat \<Rightarrow> string \<Rightarrow> string" where
  "delta_file_name kind now uuid = kind @ ''-'' @ py_str (int_of_float (now * 1000)) @ ''-'' @ take 6 uuid @ ''.json''"

text \<open>\<open>os.replace\<close> into a directory: an entry of that name is replaced, others are kept.\<close>

definition put_file :: "disk_file \<Rightarrow> disk_file list \<Rightarrow> disk_file list" where
  "put_file f fs = filter (\<lambda>g. dl_name g \<noteq> dl_name f) fs @ [f]"

definition make_base :: "delta_base \<Rightarrow> delta_base res" where
  "make_base base =
     (case db_symlink base of
        Some leads_to_directory \<Rightarrow>
          if leads_to_directory then Inl (ValueError ''delta base path must be a real directory'') else Inl (OSError ''mkdir'')
      | None \<Rightarrow>
      case db_lstat base of
        None \<Rightarrow> Inr \<lparr>db_lstat = Some True, db_symlink = None, db_scan_ok = True, db_writers = []\<rparr>
      | Some directory \<Rightarrow> if \<not> directory then Inl (OSError ''mkdir'') else Inr base)"

definition new_writer :: "string \<Rightarrow> delta_writer" where
  "new_writer writer = \<lparr>dw_name = writer, dw_is_dir = True, dw_symlink = None, dw_lstat = Some (True, False),
     dw_scan_ok = True, dw_files = []\<rparr>"

definition make_writer :: "string \<Rightarrow> delta_base \<Rightarrow> delta_base res" where
  "make_writer writer base =
     (case List.find (\<lambda>w. dw_name w = writer) (db_writers base) of
        None \<Rightarrow> Inr (base\<lparr>db_writers := db_writers base @ [new_writer writer]\<rparr>)
      | Some w \<Rightarrow>
      case dw_symlink w of
        Some leads_to_directory \<Rightarrow>
          if leads_to_directory then Inl (ValueError ''delta writer path must be a real directory'') else Inl (OSError ''mkdir'')
      | None \<Rightarrow>
      case dw_lstat w of
        None \<Rightarrow> Inl (OSError ''lstat'')
      | Some (directory, reparse) \<Rightarrow> if \<not> directory then Inl (OSError ''mkdir'') else Inr base)"

definition store_file :: "string \<Rightarrow> disk_file \<Rightarrow> delta_base \<Rightarrow> delta_base" where
  "store_file writer f base = base\<lparr>db_writers :=
     map (\<lambda>w. if dw_name w = writer then w\<lparr>dw_files := put_file f (dw_files w)\<rparr> else w) (db_writers base)\<rparr>"

text \<open>The new file holds the bytes written; a reader parses them with \<open>json.loads\<close> (theory \<open>JsonText\<close>).\<close>

definition stored_file :: "(string \<Rightarrow> jval) \<Rightarrow> string \<Rightarrow> bytes \<Rightarrow> int \<times> int \<Rightarrow> disk_file" where
  "stored_file rf name encoded ident =
     (let stat = \<lparr>st_regular = True, st_directory = False, st_reparse = False, st_nlink = 1, st_size = length encoded, st_ident = ident\<rparr>
      in \<lparr>dl_name = name, dl_lstat = Some stat,
          dl_opened = Some (stat, \<lparr>fb_length = length encoded, fb_json = json_loads_bytes rf encoded\<rparr>)\<rparr>)"

text \<open>
  Whether the private temporary file can be written and renamed (\<open>replaced\<close>) and the identity the
  system gives the new file are arguments, as are Python's text and reading of a float. A write that fails adds no file: the temporary one is
  private, and the directories it made stay.
\<close>

definition delta_write ::
    "(rat \<Rightarrow> string) \<Rightarrow> (string \<Rightarrow> jval) \<Rightarrow> string \<Rightarrow> string \<Rightarrow> jdict \<Rightarrow> rat \<Rightarrow> rat \<Rightarrow> string \<Rightarrow> bool \<Rightarrow> int \<times> int \<Rightarrow>
     delta_base \<Rightarrow> string res \<times> delta_base" where
  "delta_write float_text rf writer kind payload now now' uuid replaced ident base =
     (if \<not> delta_kind_ok kind then (Inl (ValueError ''delta kind must be a bounded lowercase identifier''), base)
      else case make_base base of
        Inl e \<Rightarrow> (Inl e, base)
      | Inr base \<Rightarrow>
      case make_writer writer base of
        Inl e \<Rightarrow> (Inl e, base)
      | Inr base \<Rightarrow>
      let record = delta_record float_text writer kind now payload; encoded = delta_encoded record in
      if length encoded > MAX_DELTA_FILE_BYTES then (Inl (ValueError ''delta exceeds the compiled file-size limit''), base)
      else if \<not> replaced then (Inl (OSError ''write''), base)
      else let name = delta_file_name kind now' uuid
           in (Inr name, store_file writer (stored_file rf name encoded ident) base))"

section \<open>What a read returns\<close>

text \<open>
  The reference: the item a file contributes, whatever was read before it, and the items of a whole
  directory in any order. \<open>file_cost\<close> is what a file can add to the byte count of a scan.
\<close>

definition file_item :: "string \<Rightarrow> rat \<Rightarrow> string \<Rightarrow> disk_file \<Rightarrow> delta_item option" where
  "file_item kind latest writer f =
     (if \<not> matching kind f then None
      else case dl_lstat f of
        None \<Rightarrow> None
      | Some m \<Rightarrow>
      if \<not> stat_ok m then None
      else case dl_opened f of
        None \<Rightarrow> None
      | Some (opened, body) \<Rightarrow>
      if \<not> same_file m opened \<or> raw_length body > MAX_DELTA_FILE_BYTES then None
      else record_item kind latest writer (dl_name f) (fb_json body))"

definition file_cost :: "disk_file \<Rightarrow> nat" where
  "file_cost f = max (case dl_lstat f of None \<Rightarrow> 0 | Some m \<Rightarrow> st_size m)
     (case dl_opened f of None \<Rightarrow> 0 | Some (_, body) \<Rightarrow> raw_length body)"

definition files_of :: "delta_writer \<Rightarrow> disk_file list" where
  "files_of w = (case listed w of None \<Rightarrow> [] | Some fs \<Rightarrow> fs)"

definition items_of :: "string \<Rightarrow> rat \<Rightarrow> delta_writer \<Rightarrow> delta_item list" where
  "items_of kind latest w = List.map_filter (file_item kind latest (dw_name w)) (files_of w)"

definition valid_items :: "string \<Rightarrow> rat \<Rightarrow> delta_writer list \<Rightarrow> delta_item list" where
  "valid_items kind latest ws = concat (map (items_of kind latest) ws)"

definition delta_reference :: "string \<Rightarrow> rat \<Rightarrow> delta_base \<Rightarrow> jdict list" where
  "delta_reference kind now base =
     map item_record (sort_key item_key (valid_items kind (now + MAX_DELTA_FUTURE_SKEW_SECONDS) (db_writers base)))"

definition entry_count :: "delta_writer list \<Rightarrow> nat" where
  "entry_count ws = sum_list (map (\<lambda>w. Suc (length (files_of w))) ws)"

definition matching_files :: "string \<Rightarrow> delta_writer list \<Rightarrow> disk_file list" where
  "matching_files kind ws = filter (matching kind) (concat (map files_of ws))"

text \<open>A directory that can be listed, in which no two entries have one name.\<close>

definition dir_ok :: "delta_base \<Rightarrow> bool" where
  "dir_ok base \<longleftrightarrow> db_lstat base = Some True \<and> db_symlink base = None \<and> db_scan_ok base
     \<and> distinct (map dw_name (db_writers base)) \<and> list_all (\<lambda>w. distinct (map dl_name (dw_files w))) (db_writers base)"

definition entries_fit :: "delta_base \<Rightarrow> bool" where
  "entries_fit base \<longleftrightarrow> length (db_writers base) \<le> MAX_DELTA_WRITERS
     \<and> entry_count (db_writers base) \<le> MAX_DELTA_DIRECTORY_ENTRIES"

definition files_fit :: "string \<Rightarrow> delta_base \<Rightarrow> bool" where
  "files_fit kind base \<longleftrightarrow> length (matching_files kind (db_writers base)) \<le> MAX_DELTA_FILES
     \<and> sum_list (map file_cost (matching_files kind (db_writers base))) < MAX_DELTA_TOTAL_BYTES"

lemma scan_file_Some:
  assumes "scan_file kind latest writer f s = Some s'"
  shows "sc_entries s' = sc_entries s"
    and "sc_accepted s' = sc_accepted s @ (case file_item kind latest writer f of None \<Rightarrow> [] | Some i \<Rightarrow> [i])"
  using assms by (auto simp: scan_file_def file_item_def Let_def split: if_splits option.splits prod.splits)

lemma scan_files_Some:
  "scan_files kind latest writer fs s = Some s' \<Longrightarrow> sc_entries s + length fs \<le> MAX_DELTA_DIRECTORY_ENTRIES \<Longrightarrow>
   sc_entries s' = sc_entries s + length fs \<and>
   sc_accepted s' = sc_accepted s @ List.map_filter (file_item kind latest writer) fs"
proof (induction fs arbitrary: s)
  case Nil
  then show ?case by (simp add: List.map_filter_def)
next
  case (Cons f fs)
  from Cons.prems obtain t where
    t: "scan_file kind latest writer f (s\<lparr>sc_entries := sc_entries s + 1\<rparr>) = Some t" "scan_files kind latest writer fs t = Some s'"
    by (auto simp: Let_def split: option.splits)
  have e: "sc_entries t = sc_entries s + 1" using scan_file_Some(1)[OF t(1)] by simp
  from Cons.IH[OF t(2)] Cons.prems(2) scan_file_Some(2)[OF t(1)] e show ?case
    by (simp split: option.splits)
qed

lemma length_files_of: "listed w = Some fs \<Longrightarrow> files_of w = fs" "listed w = None \<Longrightarrow> files_of w = []"
  by (simp_all add: files_of_def)

lemma scan_writers_Some:
  "scan_writers kind latest ws s = Some s' \<Longrightarrow> sc_entries s + entry_count ws \<le> MAX_DELTA_DIRECTORY_ENTRIES \<Longrightarrow>
   sc_accepted s' = sc_accepted s @
     concat (map (\<lambda>w. List.map_filter (file_item kind latest (dw_name w)) (sort_key dl_name (files_of w))) ws)"
proof (induction ws arbitrary: s)
  case Nil
  then show ?case by simp
next
  case (Cons w ws)
  let ?s = "s\<lparr>sc_entries := sc_entries s + 1\<rparr>"
  have room: "sc_entries s + 1 + length (files_of w) + entry_count ws \<le> MAX_DELTA_DIRECTORY_ENTRIES"
    using Cons.prems(2) by (simp add: entry_count_def)
  show ?case
  proof (cases "listed w")
    case None
    then have "scan_writers kind latest ws ?s = Some s'" using Cons.prems(1) room by (simp add: Let_def)
    from Cons.IH[OF this] room None show ?thesis by (simp add: length_files_of List.map_filter_def)
  next
    case (Some fs)
    note fs = length_files_of(1)[OF Some]
    from Cons.prems(1) Some room obtain t where
      t: "scan_files kind latest (dw_name w) (sort_key dl_name fs) ?s = Some t"
      and u: "(if sc_entries t > MAX_DELTA_DIRECTORY_ENTRIES then Some t else scan_writers kind latest ws t) = Some s'"
      by (auto simp: Let_def fs split: if_splits option.splits)
    have e: "sc_entries t = sc_entries s + 1 + length fs"
      "sc_accepted t = sc_accepted s @ List.map_filter (file_item kind latest (dw_name w)) (sort_key dl_name fs)"
      using scan_files_Some[OF t] room by (simp_all add: fs)
    from u e(1) room have "scan_writers kind latest ws t = Some s'" by (simp add: fs)
    from Cons.IH[OF this] e room show ?thesis by (simp add: fs)
  qed
qed

section \<open>Within the bounds a scan completes\<close>

lemma scan_file_total:
  assumes "matching kind f \<Longrightarrow> sc_files s < MAX_DELTA_FILES \<and> sc_bytes s + file_cost f < MAX_DELTA_TOTAL_BYTES"
  obtains s' where "scan_file kind latest writer f s = Some s'"
    "sc_files s' \<le> sc_files s + (if matching kind f then 1 else 0)"
    "sc_bytes s' \<le> sc_bytes s + (if matching kind f then file_cost f else 0)"
  using assms by (cases "matching kind f")
    (fastforce simp: scan_file_def file_cost_def Let_def split: if_splits option.splits prod.splits)+

lemma scan_files_total:
  assumes "sc_files s + length (filter (matching kind) fs) \<le> MAX_DELTA_FILES"
    and "sc_bytes s + sum_list (map file_cost (filter (matching kind) fs)) < MAX_DELTA_TOTAL_BYTES"
  shows "\<exists>s'. scan_files kind latest writer fs s = Some s'
    \<and> sc_files s' \<le> sc_files s + length (filter (matching kind) fs)
    \<and> sc_bytes s' \<le> sc_bytes s + sum_list (map file_cost (filter (matching kind) fs))"
  using assms
proof (induction fs arbitrary: s)
  case (Cons f fs)
  let ?s = "s\<lparr>sc_entries := sc_entries s + 1\<rparr>"
  show ?case
  proof (cases "sc_entries ?s > MAX_DELTA_DIRECTORY_ENTRIES")
    case False
    have "matching kind f \<Longrightarrow> sc_files ?s < MAX_DELTA_FILES \<and> sc_bytes ?s + file_cost f < MAX_DELTA_TOTAL_BYTES"
      using Cons.prems by simp
    then obtain t where t: "scan_file kind latest writer f ?s = Some t"
      "sc_files t \<le> sc_files s + (if matching kind f then 1 else 0)"
      "sc_bytes t \<le> sc_bytes s + (if matching kind f then file_cost f else 0)"
      by (rule scan_file_total[where latest = latest and writer = writer]) simp_all
    have "sc_files t + length (filter (matching kind) fs) \<le> MAX_DELTA_FILES"
      "sc_bytes t + sum_list (map file_cost (filter (matching kind) fs)) < MAX_DELTA_TOTAL_BYTES"
      using Cons.prems t by (auto split: if_splits)
    from Cons.IH[OF this] t False show ?thesis by (fastforce simp: Let_def split: if_splits)
  qed (simp add: Let_def)
qed simp

lemma scan_writers_total:
  assumes "sc_entries s + entry_count ws \<le> MAX_DELTA_DIRECTORY_ENTRIES"
    and "sc_files s + length (matching_files kind ws) \<le> MAX_DELTA_FILES"
    and "sc_bytes s + sum_list (map file_cost (matching_files kind ws)) < MAX_DELTA_TOTAL_BYTES"
  shows "\<exists>s'. scan_writers kind latest ws s = Some s'"
  using assms
proof (induction ws arbitrary: s)
  case (Cons w ws)
  let ?s = "s\<lparr>sc_entries := sc_entries s + 1\<rparr>"
  have room: "sc_entries s + 1 + length (files_of w) + entry_count ws \<le> MAX_DELTA_DIRECTORY_ENTRIES"
    using Cons.prems(1) by (simp add: entry_count_def)
  have split: "matching_files kind (w # ws) = filter (matching kind) (files_of w) @ matching_files kind ws"
    by (simp add: matching_files_def)
  show ?case
  proof (cases "listed w")
    case None
    then show ?thesis using Cons.IH[of ?s] Cons.prems room split by (simp add: Let_def length_files_of)
  next
    case (Some fs)
    note fs = length_files_of(1)[OF Some]
    let ?fs = "sort_key dl_name fs"
    have p: "mset (filter (matching kind) ?fs) = mset (filter (matching kind) fs)" by simp
    have len: "length (filter (matching kind) ?fs) = length (filter (matching kind) fs)"
      using p by (metis size_mset)
    have cost: "sum_list (map file_cost (filter (matching kind) ?fs)) = sum_list (map file_cost (filter (matching kind) fs))"
      using p by (metis mset_map sum_mset_sum_list)
    obtain t where t: "scan_files kind latest (dw_name w) ?fs ?s = Some t"
      "sc_files t \<le> sc_files s + length (filter (matching kind) fs)"
      "sc_bytes t \<le> sc_bytes s + sum_list (map file_cost (filter (matching kind) fs))"
      using scan_files_total[of ?s kind ?fs latest "dw_name w"] Cons.prems(2,3) len cost split fs by auto
    have e: "sc_entries t = sc_entries s + 1 + length fs"
      using scan_files_Some[OF t(1)] room by (simp add: fs)
    have "\<exists>s'. scan_writers kind latest ws t = Some s'"
      using Cons.IH[of t] Cons.prems(2,3) t e room split by (simp add: fs)
    then show ?thesis using Some t(1) e room by (auto simp: Let_def fs)
  qed
qed simp

section \<open>The order of a listing\<close>

lemma sort_key_unique: "distinct (map f xs) \<Longrightarrow> mset xs = mset ys \<Longrightarrow> sort_key f xs = sort_key f ys"
  by (rule sort_key_perm) (simp add: distinct_map)

lemma map_filter_in: "y \<in> set (List.map_filter g xs) \<longleftrightarrow> (\<exists>x \<in> set xs. g x = Some y)"
  by (induction xs) (auto split: option.splits)

lemma file_item_names: "file_item kind latest writer f = Some i \<Longrightarrow> (\<exists>t r. i = (t, writer, dl_name f, r))"
  by (auto simp: file_item_def record_item_def split: if_splits option.splits prod.splits jval.splits)

lemma items_of_in: "i \<in> set (items_of kind latest w) \<longleftrightarrow> (\<exists>f \<in> set (files_of w). file_item kind latest (dw_name w) f = Some i)"
  by (simp add: items_of_def map_filter_in)

lemma files_of_subset: "f \<in> set (files_of w) \<Longrightarrow> f \<in> set (dw_files w)"
  by (auto simp: files_of_def listed_def split: option.splits if_splits)

lemma item_key_inj:
  assumes "distinct (map dw_name ws)" "list_all (\<lambda>w. distinct (map dl_name (dw_files w))) ws"
  shows "inj_on item_key (set (valid_items kind latest ws))"
proof (rule inj_onI)
  fix i j
  assume i: "i \<in> set (valid_items kind latest ws)" and j: "j \<in> set (valid_items kind latest ws)" and k: "item_key i = item_key j"
  obtain w f where w: "w \<in> set ws" "f \<in> set (files_of w)" "file_item kind latest (dw_name w) f = Some i"
    using i by (auto simp: valid_items_def items_of_in)
  obtain v g where v: "v \<in> set ws" "g \<in> set (files_of v)" "file_item kind latest (dw_name v) g = Some j"
    using j by (auto simp: valid_items_def items_of_in)
  from file_item_names[OF w(3)] file_item_names[OF v(3)] k
  have n: "dw_name w = dw_name v" "dl_name f = dl_name g" by (auto simp: item_key_def)
  from n(1) w(1) v(1) assms(1) have "w = v" by (auto simp: distinct_map dest: inj_onD)
  moreover from this n(2) w v assms(2) have "f = g"
    by (auto simp: list_all_iff distinct_map dest!: files_of_subset dest: inj_onD)
  ultimately show "i = j" using w v by simp
qed

lemma mset_map_filter: "mset (List.map_filter g xs) = image_mset (the o g) (filter_mset (\<lambda>x. g x \<noteq> None) (mset xs))"
  by (induction xs) (auto simp: List.map_filter_def)

lemma sum_list_perm: "mset xs = mset ys \<Longrightarrow> sum_list (map f xs) = (sum_list (map f ys) :: nat)"
  by (metis mset_map sum_mset_sum_list)

lemma mset_concat_perm: "mset xs = mset ys \<Longrightarrow> mset (concat (map g xs)) = mset (concat (map g ys))"
  unfolding mset_concat by (metis mset_map sum_mset_sum_list)

lemma mset_concat_cong: "(\<And>x. mset (g x) = mset (h x)) \<Longrightarrow> mset (concat (map g xs)) = mset (concat (map h xs))"
  by (induction xs) simp_all

lemma mset_sorted_items:
  "mset (concat (map (\<lambda>w. List.map_filter (file_item kind latest (dw_name w)) (sort_key dl_name (files_of w))) (sort_key dw_name ws)))
   = mset (valid_items kind latest ws)"
  unfolding valid_items_def items_of_def
  by (subst mset_concat_perm[where ys = ws]) (simp, rule mset_concat_cong, simp add: mset_map_filter)

text \<open>A read of a good directory is the early return or the reference, and within the bounds the latter.\<close>

lemma delta_read_cases:
  assumes "delta_kind_ok kind" "dir_ok base" "entries_fit base"
  shows "delta_read kind now base \<in> {[], delta_reference kind now base}"
    and "files_fit kind base \<Longrightarrow> delta_read kind now base = delta_reference kind now base"
proof -
  let ?l = "now + MAX_DELTA_FUTURE_SKEW_SECONDS" and ?ws = "sort_key dw_name (db_writers base)"
  have count: "entry_count ?ws = entry_count (db_writers base)"
    unfolding entry_count_def by (rule sum_list_perm) simp
  have mf: "mset (matching_files kind ?ws) = mset (matching_files kind (db_writers base))"
    unfolding matching_files_def mset_filter by (rule arg_cong, rule mset_concat_perm) simp
  have read: "delta_read kind now base =
      (case scan_writers kind ?l ?ws new_scan of None \<Rightarrow> [] | Some s \<Rightarrow> map item_record (sort_key item_key (sc_accepted s)))"
    using assms by (simp add: delta_read_def dir_ok_def entries_fit_def)
  have ok: "map item_record (sort_key item_key (sc_accepted s)) = delta_reference kind now base"
    if "scan_writers kind ?l ?ws new_scan = Some s" for s
  proof -
    have "mset (sc_accepted s) = mset (valid_items kind ?l (db_writers base))"
      using scan_writers_Some[OF that] assms(3) count by (simp add: new_scan_def entries_fit_def mset_sorted_items)
    moreover have "inj_on item_key (set (valid_items kind ?l (db_writers base)))"
      using assms(2) by (intro item_key_inj) (simp_all add: dir_ok_def)
    ultimately show ?thesis unfolding delta_reference_def by (metis sort_key_perm)
  qed
  show "delta_read kind now base \<in> {[], delta_reference kind now base}"
    using ok by (auto simp: read split: option.splits)
  assume fit: "files_fit kind base"
  have "length (matching_files kind ?ws) = length (matching_files kind (db_writers base))"
    using mf by (metis size_mset)
  moreover have "sum_list (map file_cost (matching_files kind ?ws)) = sum_list (map file_cost (matching_files kind (db_writers base)))"
    using mf by (rule sum_list_perm)
  ultimately obtain s where "scan_writers kind ?l ?ws new_scan = Some s"
    using scan_writers_total[of new_scan ?ws kind ?l] fit assms(3) count
    by (auto simp: files_fit_def entries_fit_def new_scan_def)
  then show "delta_read kind now base = delta_reference kind now base" using ok by (simp add: read)
qed

lemma valid_items_in: "i \<in> set (valid_items kind latest ws) \<longleftrightarrow>
    (\<exists>w \<in> set ws. \<exists>f \<in> set (files_of w). file_item kind latest (dw_name w) f = Some i)"
  by (auto simp: valid_items_def items_of_in)

lemma delta_reference_in:
  "r \<in> set (delta_reference kind now base) \<longleftrightarrow> (\<exists>w \<in> set (db_writers base). \<exists>f \<in> set (files_of w). \<exists>t.
     file_item kind (now + MAX_DELTA_FUTURE_SKEW_SECONDS) (dw_name w) f = Some (t, dw_name w, dl_name f, r))"
proof -
  have "r \<in> set (delta_reference kind now base) \<longleftrightarrow>
      r \<in> item_record ` set (valid_items kind (now + MAX_DELTA_FUTURE_SKEW_SECONDS) (db_writers base))"
    by (simp add: delta_reference_def)
  also have "\<dots> \<longleftrightarrow> (\<exists>i. i \<in> set (valid_items kind (now + MAX_DELTA_FUTURE_SKEW_SECONDS) (db_writers base)) \<and> item_record i = r)"
    by blast
  finally have a: "r \<in> set (delta_reference kind now base) \<longleftrightarrow> (\<exists>i. (\<exists>w \<in> set (db_writers base). \<exists>f \<in> set (files_of w).
      file_item kind (now + MAX_DELTA_FUTURE_SKEW_SECONDS) (dw_name w) f = Some i) \<and> item_record i = r)"
    unfolding valid_items_in .
  have b: "(\<exists>i. file_item kind l (dw_name w) f = Some i \<and> item_record i = r) \<longleftrightarrow>
      (\<exists>t. file_item kind l (dw_name w) f = Some (t, dw_name w, dl_name f, r))" for l w f
    by (auto dest: file_item_names simp: item_record_def)
  show ?thesis unfolding a b[symmetric] by blast
qed

section \<open>Properties\<close>

subsection \<open>Examples\<close>

definition ex_stat :: "nat \<Rightarrow> file_stat" where
  "ex_stat n = \<lparr>st_regular = True, st_directory = False, st_reparse = False, st_nlink = 1, st_size = n, st_ident = (1, 1)\<rparr>"

definition ex_rec :: "int \<Rightarrow> string \<Rightarrow> jdict" where
  "ex_rec t w = [(''w'', JStr w), (''at'', JInt t), (''kind'', JStr ''chat'')]"

definition ex_delta :: "string \<Rightarrow> jdict \<Rightarrow> disk_file" where
  "ex_delta name record = \<lparr>dl_name = name, dl_lstat = Some (ex_stat 10),
     dl_opened = Some (ex_stat 10, \<lparr>fb_length = 10, fb_json = Some (JDict record)\<rparr>)\<rparr>"

definition ex_writer :: "string \<Rightarrow> disk_file list \<Rightarrow> delta_writer" where
  "ex_writer name fs = (new_writer name)\<lparr>dw_files := fs\<rparr>"

definition ex_base :: delta_base where
  "ex_base = \<lparr>db_lstat = Some True, db_symlink = None, db_scan_ok = True, db_writers =
     [ex_writer ''bob'' [ex_delta ''chat-2.json'' (ex_rec 7 ''bob''), ex_delta ''note.txt'' []],
      ex_writer ''ann'' [ex_delta ''chat-1.json'' (ex_rec 5 ''ann'')]]\<rparr>"

lemmas ex_defs = ex_base_def ex_writer_def new_writer_def ex_delta_def ex_stat_def ex_rec_def

lemma ex_base_ok: "dir_ok ex_base" "entries_fit ex_base" "files_fit ''chat'' ex_base" "delta_kind_ok ''chat''"
  by (simp_all add: dir_ok_def entries_fit_def files_fit_def entry_count_def matching_files_def matching_def
      starts_with_def ends_with_def files_of_def listed_def file_cost_def raw_length_def delta_kind_ok_def ex_defs
      MAX_DELTA_WRITERS_def MAX_DELTA_DIRECTORY_ENTRIES_def MAX_DELTA_FILES_def MAX_DELTA_TOTAL_BYTES_def MAX_DELTA_FILE_BYTES_def)

lemma ex_base_reference: "delta_reference ''chat'' 100 ex_base = [ex_rec 5 ''ann'', ex_rec 7 ''bob'']"
  by (simp add: delta_reference_def valid_items_def items_of_def files_of_def listed_def file_item_def matching_def
      starts_with_def ends_with_def stat_ok_def same_file_def raw_length_def record_item_def timestamp_of_def is_jstr_def
      item_key_def item_record_def MAX_DELTA_FILE_BYTES_def MAX_DELTA_FUTURE_SKEW_SECONDS_def ex_defs)

subsection \<open>Reads\<close>

text \<open>
  C9: A read of a directory within the entry limits returns every valid delta of the kind, sorted by
  time, writer and file, or nothing at all: it is never a part of them. Within the limits on files
  and bytes it is the former.
\<close>

theorem delta_read_exact:
  assumes "delta_kind_ok kind" "dir_ok base" "entries_fit base"
  shows "delta_read kind now base \<in> {[], delta_reference kind now base}
    \<and> (files_fit kind base \<longrightarrow> delta_read kind now base = delta_reference kind now base)"
  using delta_read_cases[OF assms] by blast

theorem delta_read_exact_witness:
  "delta_read ''chat'' 100 ex_base = [ex_rec 5 ''ann'', ex_rec 7 ''bob'']"
  using delta_read_exact[OF ex_base_ok(4,1,2), of 100] ex_base_ok(3) by (simp add: ex_base_reference)

definition relisted :: "(disk_file list \<Rightarrow> disk_file list) \<Rightarrow> delta_writer list \<Rightarrow> delta_base \<Rightarrow> delta_base" where
  "relisted reorder ws base = base\<lparr>db_writers := map (\<lambda>w. w\<lparr>dw_files := reorder (dw_files w)\<rparr>) ws\<rparr>"

lemma scan_writers_relist:
  assumes "\<And>w. w \<in> set ws \<Longrightarrow> distinct (map dl_name (dw_files w))" "\<And>fs. mset (reorder fs) = mset fs"
  shows "scan_writers kind latest (map (\<lambda>w. w\<lparr>dw_files := reorder (dw_files w)\<rparr>) ws) s = scan_writers kind latest ws s"
  using assms(1)
proof (induction ws arbitrary: s)
  case (Cons w ws)
  have IH: "scan_writers kind latest (map (\<lambda>w. w\<lparr>dw_files := reorder (dw_files w)\<rparr>) ws) s = scan_writers kind latest ws s" for s
    using Cons by simp
  have len: "length (reorder fs) = length fs" for fs using assms(2) by (metis size_mset)
  have sort: "sort_key dl_name (reorder (dw_files w)) = sort_key dl_name (dw_files w)"
    using Cons.prems[of w] assms(2) by (intro sort_key_unique[symmetric]) simp_all
  have "listed (w\<lparr>dw_files := reorder (dw_files w)\<rparr>) = map_option reorder (listed w)"
    by (simp add: listed_def split: option.splits prod.splits)
  moreover have "listed w = None \<or> listed w = Some (dw_files w)"
    by (auto simp: listed_def split: option.splits prod.splits)
  ultimately show ?case by (auto simp: Let_def IH len sort split: option.splits)
qed simp

text \<open>
  The order in which the system lists the writers and the files of each writer has no influence
  on a read.
\<close>

theorem delta_read_order_free:
  assumes "dir_ok base" "mset ws = mset (db_writers base)" "\<And>fs. mset (reorder fs) = mset fs"
  shows "delta_read kind now (relisted reorder ws base) = delta_read kind now base"
proof -
  let ?g = "\<lambda>w. w\<lparr>dw_files := reorder (dw_files w)\<rparr>"
  have len: "length ws = length (db_writers base)" using assms(2) by (metis size_mset)
  have a: "sort_key dw_name (map ?g ws) = map ?g (sort_key dw_name ws)"
    by (simp add: sort_key_map comp_def)
  have b: "sort_key dw_name ws = sort_key dw_name (db_writers base)"
    using assms(1,2) by (intro sort_key_unique[symmetric]) (simp_all add: dir_ok_def)
  have c: "scan_writers kind l (map ?g (sort_key dw_name (db_writers base))) s =
      scan_writers kind l (sort_key dw_name (db_writers base)) s" for l s
    using assms(1,3) by (intro scan_writers_relist) (auto simp: dir_ok_def list_all_iff)
  have "scan_writers kind l (sort_key dw_name (map ?g ws)) s = scan_writers kind l (sort_key dw_name (db_writers base)) s" for l s
    unfolding a b by (rule c)
  then show ?thesis by (auto simp: delta_read_def relisted_def len split: option.split)
qed

theorem delta_read_order_free_witness:
  "delta_read ''chat'' 100 (relisted rev (rev (db_writers ex_base)) ex_base) = delta_read ''chat'' 100 ex_base"
  by (rule delta_read_order_free[OF ex_base_ok(1)]) simp_all

subsection \<open>Last write per key\<close>

definition first_occurrences :: "'a list \<Rightarrow> 'a list" where
  "first_occurrences xs = rev (remdups (rev xs))"

lemma first_occurrences_snoc:
  "first_occurrences (xs @ [x]) = (if x \<in> set xs then first_occurrences xs else first_occurrences xs @ [x])"
  by (simp add: first_occurrences_def)

lemma update_mapped:
  "distinct ks \<Longrightarrow> AList.update k v (map (\<lambda>x. (x, g x)) ks) =
     map (\<lambda>x. (x, if x = k then v else g x)) (if k \<in> set ks then ks else ks @ [k])"
  by (induction ks) auto

lemma latest_fold:
  "fold (latest_step key) rs [] =
     map (\<lambda>k. (k, last (filter (\<lambda>r. key_text key r = k) rs)))
       (first_occurrences (filter (\<lambda>k. k \<noteq> []) (map (key_text key) rs)))"
proof (induction rs rule: rev_induct)
  case Nil
  then show ?case by (simp add: first_occurrences_def)
next
  case (snoc r rs)
  let ?ks = "first_occurrences (filter (\<lambda>k. k \<noteq> []) (map (key_text key) rs))"
  have d: "distinct ?ks" and s: "set ?ks = set (filter (\<lambda>k. k \<noteq> []) (map (key_text key) rs))"
    by (simp_all add: first_occurrences_def)
  show ?case
  proof (cases "key_text key r = []")
    case True
    then show ?thesis using snoc s by (auto simp: latest_step_def)
  next
    case False
    then have "fold (latest_step key) (rs @ [r]) [] = AList.update (key_text key r) r
        (map (\<lambda>k. (k, last (filter (\<lambda>r. key_text key r = k) rs))) ?ks)"
      by (simp add: snoc latest_step_def)
    also have "\<dots> = map (\<lambda>k. (k, if k = key_text key r then r else last (filter (\<lambda>r. key_text key r = k) rs)))
        (if key_text key r \<in> set ?ks then ?ks else ?ks @ [key_text key r])"
      by (rule update_mapped[OF d])
    also have "(if key_text key r \<in> set ?ks then ?ks else ?ks @ [key_text key r]) =
        first_occurrences (filter (\<lambda>k. k \<noteq> []) (map (key_text key) (rs @ [r])))"
      using False s by (simp add: first_occurrences_snoc)
    finally show ?thesis by (auto intro!: map_cong)
  qed
qed

text \<open>
  The last-write-wins projection holds one record per non-empty value of the key, in the order
  in which the values first occur in a read, and it is the last record of that value.
\<close>

theorem latest_by_exact:
  "latest_by kind key now base =
     (let records = delta_read kind now base in
      map (\<lambda>k. last (filter (\<lambda>r. key_text key r = k) records))
        (first_occurrences (filter (\<lambda>k. k \<noteq> []) (map (key_text key) records))))"
  by (simp add: latest_by_def latest_records_def latest_fold Let_def comp_def)

subsection \<open>Writer names\<close>

lemma name_char_hex: "n < 16 \<Longrightarrow> name_char (hex_digit n) \<and> hex_digit n \<noteq> CHR ''.''"
proof -
  have "list_all (\<lambda>n. name_char (hex_digit n) \<and> hex_digit n \<noteq> CHR ''.'') [0..<16]"
    by code_simp
  then show "n < 16 \<Longrightarrow> ?thesis" by (simp add: list_all_iff)
qed

lemma hash_name_chars: "c \<in> set (take 24 (bytes_hex b)) \<Longrightarrow> name_char c \<and> c \<noteq> CHR ''.''"
proof -
  assume "c \<in> set (take 24 (bytes_hex b))"
  then obtain x :: byte where "c = hex_digit (unat x div 16) \<or> c = hex_digit (unat x mod 16)"
    by (auto simp: bytes_hex_def dest!: in_set_takeD) blast+
  moreover have m: "unat x div 16 < 16" "unat x mod 16 < 16" using unat_byte_less[of x] by linarith+
  ultimately show ?thesis using name_char_hex[OF m(1)] name_char_hex[OF m(2)] by metis
qed

lemma if_choice: "(if p \<or> q \<or> r \<or> s then x else y) = x \<or>
    ((if p \<or> q \<or> r \<or> s then x else y) = y \<and> \<not> q \<and> \<not> r \<and> \<not> s)"
  by simp

lemma reserved_short: "s \<in> set reserved_names \<Longrightarrow> length s \<le> 4"
  by (auto simp: reserved_names_def py_str_def dec_nat.simps)

text \<open>
  The directory name of every writer is a single path component of at most 40 letters, digits,
  underscores, dots and hyphens, other than the dot names and the reserved device names.
\<close>

theorem delta_writer_name_safe:
  "delta_writer_name writer \<noteq> [] \<and> length (delta_writer_name writer) \<le> 40
   \<and> list_all name_char (delta_writer_name writer) \<and> delta_writer_name writer \<notin> {''.'', ''..''}
   \<and> windows_stem (delta_writer_name writer) \<notin> set reserved_names"
proof -
  let ?raw = "if writer = [] then ''system'' else writer"
  let ?safe = "take 40 (map (\<lambda>c. if name_char c then c else CHR ''_'') ?raw)"
  let ?hash = "''writer-'' @ take 24 (bytes_hex (sha256 (utf8 ?raw)))"
  have "name_char (CHR ''_'')" by (simp add: name_char_def)
  then have safe: "list_all name_char ?safe" by (auto simp: list_all_iff dest!: in_set_takeD)
  have len: "length ?hash = 31" by simp
  have chars: "list_all name_char ?hash"
    using hash_name_chars by (auto simp: list_all_iff) (simp_all add: name_char_def)
  have "takeWhile (\<lambda>c. c \<noteq> CHR ''.'') ?hash = ?hash"
    using hash_name_chars by (auto simp: takeWhile_eq_all_conv)
  then have "length (windows_stem ?hash) = 31"
    using len by (simp only: windows_stem_def str_upper_def length_map)
  then have "windows_stem ?hash \<notin> set reserved_names" using reserved_short by fastforce
  moreover have "delta_writer_name writer = ?hash \<or> (delta_writer_name writer = ?safe \<and> ?safe \<noteq> [] \<and>
      ?safe \<notin> {''.'', ''..''} \<and> windows_stem ?safe \<notin> set reserved_names)"
    unfolding delta_writer_name_def Let_def by (rule if_choice)
  moreover have "length ?safe \<le> 40" by simp
  ultimately show ?thesis using safe chars len by (elim disjE) (simp_all only: simp_thms, auto)
qed

subsection \<open>Writes\<close>

definition can_add :: "string \<Rightarrow> string \<Rightarrow> delta_base \<Rightarrow> bool" where
  "can_add writer name base \<longleftrightarrow>
     list_all (\<lambda>w. dw_name w = writer \<longrightarrow> listed w \<noteq> None \<and> name \<notin> dl_name ` set (dw_files w)) (db_writers base)"

definition fits :: "string \<Rightarrow> delta_base \<Rightarrow> bool" where
  "fits kind base \<longleftrightarrow> entries_fit base \<and> files_fit kind base"

lemma make_writer_keeps:
  assumes "make_writer writer base = Inr made" "dir_ok base" "can_add writer name base"
  shows "dir_ok made" "can_add writer name made" "\<exists>w \<in> set (db_writers made). dw_name w = writer"
    "set (delta_reference kind clock made) = set (delta_reference kind clock base)"
    "fits kind made \<Longrightarrow> fits kind base"
proof -
  consider "made = base" "\<exists>w \<in> set (db_writers base). dw_name w = writer"
    | "made = base\<lparr>db_writers := db_writers base @ [new_writer writer]\<rparr>" "\<forall>w \<in> set (db_writers base). dw_name w \<noteq> writer"
    using assms(1) by (auto simp: make_writer_def find_None_iff split: option.splits if_splits prod.splits dest!: find_Some_iff_mem)
  then have "dir_ok made \<and> can_add writer name made \<and> (\<exists>w \<in> set (db_writers made). dw_name w = writer) \<and>
     set (delta_reference kind clock made) = set (delta_reference kind clock base) \<and> (fits kind made \<longrightarrow> fits kind base)"
  proof cases
    case 1
    then show ?thesis using assms(2,3) by simp
  next
    case 2
    have n: "files_of (new_writer writer) = []" "listed (new_writer writer) = Some []" "dw_name (new_writer writer) = writer"
      "dw_files (new_writer writer) = []"
      by (simp_all add: new_writer_def files_of_def listed_def)
    have "set (delta_reference kind clock made) = set (delta_reference kind clock base)"
      by (rule set_eqI) (simp add: 2 n delta_reference_in)
    moreover have "dir_ok made" "can_add writer name made" using assms(2,3) 2(2) by (auto simp: 2(1) dir_ok_def can_add_def n)
    moreover have "fits kind made \<longrightarrow> fits kind base"
      by (simp add: 2(1) fits_def entries_fit_def files_fit_def entry_count_def matching_files_def n)
    ultimately show ?thesis using 2(1) n(3) by simp
  qed
  then show "dir_ok made" "can_add writer name made" "\<exists>w \<in> set (db_writers made). dw_name w = writer"
    "set (delta_reference kind clock made) = set (delta_reference kind clock base)" "fits kind made \<Longrightarrow> fits kind base" by blast+
qed

definition with_file :: "string \<Rightarrow> disk_file \<Rightarrow> delta_writer \<Rightarrow> delta_writer" where
  "with_file writer f w = (if dw_name w = writer then w\<lparr>dw_files := put_file f (dw_files w)\<rparr> else w)"

lemma with_file_name [simp]: "dw_name (with_file writer f w) = dw_name w"
  by (simp add: with_file_def)

lemma db_writers_store [simp]: "db_writers (store_file writer f base) = map (with_file writer f) (db_writers base)"
  by (simp add: store_file_def with_file_def)

lemma put_fresh: "dl_name f \<notin> dl_name ` set fs \<Longrightarrow> put_file f fs = fs @ [f]"
  unfolding put_file_def by (subst filter_True) (metis image_eqI, simp)

lemma files_of_with_file:
  assumes "can_add writer (dl_name f) base" "w \<in> set (db_writers base)"
  shows "files_of (with_file writer f w) = files_of w @ (if dw_name w = writer then [f] else [])"
  using assms by (auto simp: can_add_def list_all_iff files_of_def listed_def with_file_def put_fresh split: option.splits prod.splits if_splits)

lemma store_file_fits:
  assumes "can_add writer (dl_name f) base" "fits kind (store_file writer f base)"
  shows "fits kind base"
proof -
  have "entry_count ws \<le> entry_count (map (with_file writer f) ws) \<and>
     length (matching_files kind ws) \<le> length (matching_files kind (map (with_file writer f) ws)) \<and>
     sum_list (map file_cost (matching_files kind ws)) \<le> sum_list (map file_cost (matching_files kind (map (with_file writer f) ws)))"
    if "set ws \<subseteq> set (db_writers base)" for ws
    using that
  proof (induction ws)
    case (Cons w ws)
    then show ?case using files_of_with_file[OF assms(1), of w] by (simp add: entry_count_def matching_files_def)
  qed simp
  from this[of "db_writers base"] assms(2) show ?thesis by (simp add: fits_def entries_fit_def files_fit_def)
qed

lemma store_file_dir_ok:
  assumes "dir_ok base" "can_add writer (dl_name f) base"
  shows "dir_ok (store_file writer f base)"
proof -
  have "map dw_name (map (with_file writer f) ws) = map dw_name ws" for ws by simp
  moreover have "distinct (map dl_name (dw_files (with_file writer f w)))" if "w \<in> set (db_writers base)" for w
    using assms that by (auto simp: dir_ok_def can_add_def list_all_iff with_file_def put_fresh)
  ultimately show ?thesis using assms(1)
    by (simp only: dir_ok_def db_writers_store) (simp add: list_all_iff store_file_def)
qed

lemma store_file_reference:
  assumes "can_add writer (dl_name f) base" "w \<in> set (db_writers base)" "dw_name w = writer"
    and "file_item kind (clock + MAX_DELTA_FUTURE_SKEW_SECONDS) writer f = Some (t, writer, dl_name f, r)"
  shows "set (delta_reference kind clock (store_file writer f base)) = insert r (set (delta_reference kind clock base))"
proof (rule set_eqI)
  fix x
  let ?P = "\<lambda>w g. \<exists>t. file_item kind (clock + MAX_DELTA_FUTURE_SKEW_SECONDS) (dw_name w) g = Some (t, dw_name w, dl_name g, x)"
  have "x \<in> set (delta_reference kind clock (store_file writer f base)) \<longleftrightarrow>
      (\<exists>v \<in> set (db_writers base). \<exists>g \<in> set (files_of (with_file writer f v)). ?P v g)"
    by (simp add: delta_reference_in)
  also have "\<dots> \<longleftrightarrow> (\<exists>v \<in> set (db_writers base). \<exists>g \<in> set (files_of v @ (if dw_name v = writer then [f] else [])). ?P v g)"
    by (rule bex_cong) (simp_all add: files_of_with_file[OF assms(1)])
  also have "\<dots> \<longleftrightarrow> x \<in> set (delta_reference kind clock base) \<or> (\<exists>v \<in> set (db_writers base). dw_name v = writer \<and> ?P v f)"
    unfolding delta_reference_in by (auto split: if_splits)
  also have "(\<exists>v \<in> set (db_writers base). dw_name v = writer \<and> ?P v f) \<longleftrightarrow> x = r"
    using assms(2,3,4) by auto
  finally show "x \<in> set (delta_reference kind clock (store_file writer f base)) \<longleftrightarrow>
      x \<in> insert r (set (delta_reference kind clock base))" by blast
qed

lemma map_of_update: "map_of (AList.update k v d) k' = (if k' = k then Some v else map_of d k')"
  by (simp add: update_conv')

lemma json_ok_update: "json_ok rf (JDict d) \<Longrightarrow> json_ok rf v \<Longrightarrow> json_ok rf (JDict (AList.update k v d))"
proof -
  assume a: "json_ok rf (JDict d)" "json_ok rf v"
  have "list_all (\<lambda>(k, v). json_ok rf v) d \<Longrightarrow> list_all (\<lambda>(k, v). json_ok rf v) (AList.update k v d)"
    using a(2) by (induction d) (auto split: if_splits)
  with a show ?thesis by simp
qed

lemma written_record_loads:
  assumes "json_ok rf (JDict payload)" "json_ok rf (JFloat now (float_text now))"
  shows "json_loads_bytes rf (delta_encoded (delta_record float_text writer kind now payload)) =
    Some (JDict (delta_record float_text writer kind now payload))"
proof -
  have "json_ok rf (JDict (delta_record float_text writer kind now payload))"
    unfolding delta_record_def using assms by (intro json_ok_update) simp_all
  moreover have "list_all json_ws newline" by (simp add: newline_def json_ws_def)
  ultimately show ?thesis unfolding delta_encoded_def json_loads_bytes_utf8 by (rule json_loads_dumps(1))
qed

lemma stored_file_item:
  assumes "delta_kind_ok kind" "0 \<le> now" "now \<le> latest" "length encoded \<le> MAX_DELTA_FILE_BYTES"
    and "json_loads_bytes rf encoded = Some (JDict (delta_record ft w kind now payload))"
  shows "file_item kind latest writer (stored_file rf (delta_file_name kind now' uuid) encoded ident) =
    Some (now, writer, delta_file_name kind now' uuid, delta_record ft w kind now payload)"
proof -
  have "ends_with ''.json'' (x @ ''.json'')" for x by (simp add: ends_with_def)
  from this[of "kind @ ''-'' @ py_str (int_of_float (now' * 1000)) @ ''-'' @ take 6 uuid"]
  have "matching kind (stored_file rf (delta_file_name kind now' uuid) encoded ident)"
    by (simp add: matching_def stored_file_def Let_def delta_file_name_def starts_with_def)
  then show ?thesis using assms
    by (simp add: file_item_def stored_file_def Let_def stat_ok_def same_file_def raw_length_def record_item_def
        delta_record_def map_of_update timestamp_of_def is_jstr_def)
qed

text \<open>
  C37: A successful write adds exactly its record to what reads of its kind return: the bytes
  written are parsed back to the record, and every other delta stays. Supposed are: the base directory
  can be listed, no two entries of a directory have one name; the writer's own directory, if there, can be
  listed and has no file of the new name; after the write the directory is within the limits of a read; the
  time written is not negative and at most a day ahead of the reader's clock; and the payload is a
  JSON value that Python reads as it writes it (distinct keys, integers within the digit limit, the text
  of a float, the time among them, a literal that reads as that float).
\<close>

theorem delta_write_then_read:
  assumes "delta_write float_text rf writer kind payload now now' uuid replaced ident base = (Inr name, base')"
    and "dir_ok base" "can_add writer name base" "fits kind base'" "0 \<le> now" "now \<le> clock + MAX_DELTA_FUTURE_SKEW_SECONDS"
    and "json_ok rf (JDict payload)" "json_ok rf (JFloat now (float_text now))"
  shows "set (delta_read kind clock base') =
    insert (delta_record float_text writer kind now payload) (set (delta_read kind clock base))"
proof -
  let ?r = "delta_record float_text writer kind now payload"
  let ?f = "stored_file rf name (delta_encoded ?r) ident"
  have b: "make_base base = Inr base" using assms(2) by (simp add: make_base_def dir_ok_def)
  obtain made where k: "delta_kind_ok kind" and mk: "make_writer writer base = Inr made"
    and len: "length (delta_encoded ?r) \<le> MAX_DELTA_FILE_BYTES"
    and nm: "name = delta_file_name kind now' uuid" and base': "base' = store_file writer ?f made"
    using assms(1) b by (auto simp: delta_write_def Let_def split: if_splits sum.splits)
  note m = make_writer_keeps[OF mk assms(2,3)]
  have fname: "dl_name ?f = name" by (simp add: stored_file_def Let_def)
  have add: "can_add writer (dl_name ?f) made" using m(2) fname by simp
  have fm: "fits kind made" using store_file_fits[OF add] assms(4) base' by simp
  then have f: "entries_fit base" "files_fit kind base" "entries_fit base'" "files_fit kind base'"
    using m(5)[OF fm] assms(4) by (simp_all add: fits_def)
  have d': "dir_ok base'" unfolding base' by (rule store_file_dir_ok[OF m(1) add])
  obtain w where "w \<in> set (db_writers made)" "dw_name w = writer" using m(3) by blast
  moreover have "file_item kind (clock + MAX_DELTA_FUTURE_SKEW_SECONDS) writer ?f = Some (now, writer, dl_name ?f, ?r)"
    unfolding fname unfolding nm
    by (rule stored_file_item[OF k assms(5,6) len written_record_loads[where float_text = float_text, OF assms(7,8)]])
  ultimately have "set (delta_reference kind clock base') = insert ?r (set (delta_reference kind clock made))"
    unfolding base' by (rule store_file_reference[OF add])
  then show ?thesis
    using delta_read_cases(2)[OF k assms(2) f(1,2)] delta_read_cases(2)[OF k d' f(3,4)] m(4) by simp
qed

definition ex_float :: "string \<Rightarrow> jval" where
  "ex_float t = JFloat 50 ''50.0''"

definition ex_write :: "string res \<times> delta_base" where
  "ex_write = delta_write (\<lambda>_. ''50.0'') ex_float ''cid'' ''chat'' [(''text'', JStr ''hi'')] 50 50 ''abcdef01'' True (1, 2) ex_base"

lemma ex_json_size: "length (delta_encoded (delta_record (\<lambda>_. ''50.0'') ''cid'' ''chat'' 50 [(''text'', JStr ''hi'')])) \<le> 1000"
proof -
  have "length (json_dumps (JDict (delta_record (\<lambda>_. ''50.0'') ''cid'' ''chat'' 50 [(''text'', JStr ''hi'')])) @ newline) \<le> 500"
    by (simp add: json_dumps_def delta_record_def bracketed_def line_pad_def json_string_def json_escape_def Let_def newline_def)
  then show ?thesis unfolding delta_encoded_def
    using length_utf8[of "json_dumps (JDict (delta_record (\<lambda>_. ''50.0'') ''cid'' ''chat'' 50 [(''text'', JStr ''hi'')])) @ newline"]
    by linarith
qed

lemma ex_name: "delta_file_name ''chat'' 50 ''abcdef01'' = ''chat-50000-abcdef.json''"
proof -
  have "char_of (53 :: nat) = CHR ''5''" "char_of (48 :: nat) = CHR ''0''" by code_simp+
  then show ?thesis by (simp add: delta_file_name_def int_of_float_def py_str_def dec_nat.simps)
qed

lemma ex_write_ok:
  "fst ex_write = Inr ''chat-50000-abcdef.json''" "can_add ''cid'' ''chat-50000-abcdef.json'' ex_base" "fits ''chat'' (snd ex_write)"
proof -
  let ?r = "delta_record (\<lambda>_. ''50.0'') ''cid'' ''chat'' 50 [(''text'', JStr ''hi'')]"
  let ?f = "stored_file ex_float ''chat-50000-abcdef.json'' (delta_encoded ?r) (1, 2)"
  have w: "ex_write = (Inr ''chat-50000-abcdef.json'',
      store_file ''cid'' ?f (ex_base\<lparr>db_writers := db_writers ex_base @ [new_writer ''cid'']\<rparr>))"
  proof -
    have "make_base ex_base = Inr ex_base" by (simp add: make_base_def ex_base_def)
    moreover have "make_writer ''cid'' ex_base = Inr (ex_base\<lparr>db_writers := db_writers ex_base @ [new_writer ''cid'']\<rparr>)"
      by (simp add: make_writer_def ex_base_def ex_writer_def new_writer_def)
    ultimately show ?thesis using ex_json_size
      by (simp add: ex_write_def delta_write_def Let_def ex_base_ok ex_name MAX_DELTA_FILE_BYTES_def)
  qed
  show "fst ex_write = Inr ''chat-50000-abcdef.json''" by (simp add: w)
  show "can_add ''cid'' ''chat-50000-abcdef.json'' ex_base" by (simp add: can_add_def ex_defs)
  show "fits ''chat'' (snd ex_write)" using ex_json_size
    by (simp add: w fits_def entries_fit_def files_fit_def entry_count_def matching_files_def matching_def with_file_def put_file_def
      starts_with_def ends_with_def files_of_def listed_def file_cost_def raw_length_def stored_file_def Let_def ex_defs
      MAX_DELTA_WRITERS_def MAX_DELTA_DIRECTORY_ENTRIES_def MAX_DELTA_FILES_def MAX_DELTA_TOTAL_BYTES_def MAX_DELTA_FILE_BYTES_def)
qed

theorem delta_write_then_read_witness:
  "set (delta_read ''chat'' 60 (snd ex_write)) =
     insert (delta_record (\<lambda>_. ''50.0'') ''cid'' ''chat'' 50 [(''text'', JStr ''hi'')]) (set (delta_read ''chat'' 60 ex_base))"
proof (rule delta_write_then_read)
  show "delta_write (\<lambda>_. ''50.0'') ex_float ''cid'' ''chat'' [(''text'', JStr ''hi'')] 50 50 ''abcdef01'' True (1, 2) ex_base =
      (Inr ''chat-50000-abcdef.json'', snd ex_write)"
    using ex_write_ok(1) by (simp add: ex_write_def prod_eq_iff)
  have "scan_number ''50.0'' = Some (''50.0'', True, [])" by code_simp
  then show "json_ok ex_float (JFloat 50 ''50.0'')" by (simp add: ex_float_def)
qed (simp_all add: ex_base_ok ex_write_ok MAX_DELTA_FUTURE_SKEW_SECONDS_def wf_dict_def)

end
