(* ===== verification/Relay.thy ===== *)
theory Relay
  imports Complex_Main Files Unicode
begin

text \<open>
  \<open>team_agents/relay.py\<close>: the store-and-forward relay. Tasks wait as signed envelopes in the inbox of
  a peer, the answers in the outbox of the sender; a durable table of outcomes makes a task run at
  most once. The state is the table, the replay cache and the directories; an operation that raises
  returns the exception with the state it leaves. Git transport, the event journal and the chat note
  are outside the model: a push or a write that fails is an argument of the operation.
\<close>

definition MAX_RELAY_ENVELOPE_BYTES :: nat where "MAX_RELAY_ENVELOPE_BYTES = 256 * 1024"
definition MAX_RELAY_TEXT_CHARS :: nat where "MAX_RELAY_TEXT_CHARS = 64 * 1024"
definition MAX_RELAY_TEXT_BYTES :: nat where "MAX_RELAY_TEXT_BYTES = 192 * 1024"
definition MAX_RELAY_ANSWER_BYTES :: nat where "MAX_RELAY_ANSWER_BYTES = 48 * 1024"
definition MAX_RELAY_FILES_PER_POLL :: nat where "MAX_RELAY_FILES_PER_POLL = 256"
definition MAX_RELAY_DIRECTORY_ENTRIES :: nat where "MAX_RELAY_DIRECTORY_ENTRIES = 4096"
definition MAX_RELAY_OUTCOMES :: nat where "MAX_RELAY_OUTCOMES = 384"

section \<open>Answers\<close>

text \<open>
  \<open>_bounded_answer_text\<close> over Python text, a list of code points that may hold surrogates. The strict
  decoding of the encoded text is an operation that can raise.
\<close>

definition truncation_note :: string where
  "truncation_note = newline @ ''[relay output truncated to its durable byte limit]''"

definition bounded_answer_points :: "code_points \<Rightarrow> code_points res" where
  "bounded_answer_points text =
     (let bounded = take MAX_RELAY_TEXT_CHARS text; encoded = encode_replace bounded in
      case utf8_strict encoded of
        None \<Rightarrow> Inl (UnicodeError ''utf-8'')
      | Some normalized \<Rightarrow>
      if length text \<le> MAX_RELAY_TEXT_CHARS \<and> length encoded \<le> MAX_RELAY_ANSWER_BYTES then Inr normalized
      else let budget = MAX_RELAY_ANSWER_BYTES - length (encode_replace (points truncation_note)) in
        Inr (utf8_ignore (take budget encoded) @ points truncation_note))"

text \<open>
  The turns of this theory carry text below code point 256; on such an answer the function gives such
  text and does not raise (\<open>bounded_points_string\<close>).
\<close>

definition bounded_answer_text :: "string \<Rightarrow> string" where
  "bounded_answer_text answer =
     (case bounded_answer_points (points answer) of Inr s \<Rightarrow> map char_of s | Inl _ \<Rightarrow> [])"

section \<open>The table of outcomes\<close>

text \<open>
  A row is being processed or completed with the text of its reply, here the value that text parses
  to, \<open>None\<close> when it does not parse. \<open>db_ok\<close> says whether the database accepts the transaction.
\<close>

datatype outcome_state = Processing | Completed "jval option"

type_synonym outcome_rows = "(string, int \<times> outcome_state) dict"

datatype claim_result = New | Interrupted | Cached jdict

definition signature_hash :: "string \<Rightarrow> string res" where
  "signature_hash signature =
     (case ascii_encode signature of
        Inl _ \<Rightarrow> Inl (ValueError ''relay signature must be ASCII'')
      | Inr encoded \<Rightarrow> Inr (bytes_hex (sha256 encoded)))"

definition fits_sqlite :: "int \<Rightarrow> bool" where
  "fits_sqlite n \<longleftrightarrow> - (2 ^ 63) \<le> n \<and> n < 2 ^ 63"

definition cached_result :: "outcome_state \<Rightarrow> claim_result res" where
  "cached_result s =
     (case s of
        Processing \<Rightarrow> Inr Interrupted
      | Completed None \<Rightarrow> Inl (RuntimeError ''cached relay outcome is corrupt; refusing replay'')
      | Completed (Some v) \<Rightarrow>
          (case v of JDict reply \<Rightarrow> Inr (Cached reply)
           | _ \<Rightarrow> Inl (RuntimeError ''cached relay outcome has an invalid document type'')))"

definition outcome_claim :: "bool \<Rightarrow> rat \<Rightarrow> string \<Rightarrow> int \<Rightarrow> outcome_rows \<Rightarrow> claim_result res \<times> outcome_rows" where
  "outcome_claim db_ok clock signature expires_at rows =
     (case signature_hash signature of
        Inl e \<Rightarrow> (Inl e, rows)
      | Inr key \<Rightarrow>
      if \<not> db_ok then (Inl (RuntimeError ''relay outcome database unavailable''), rows)
      else let live = filter (\<lambda>(_, e, _). \<not> e \<le> int_of_float clock) rows in
        case map_of live key of
          Some (_, s) \<Rightarrow> (cached_result s, live)
        | None \<Rightarrow>
            if length live \<ge> MAX_RELAY_OUTCOMES
            then (Inl (RuntimeError ''relay outcome database reached its entry limit''), rows)
            else if \<not> fits_sqlite expires_at
            then (Inl (OverflowError ''Python int too large to convert to SQLite INTEGER''), rows)
            else (Inr New, live @ [(key, expires_at, Processing)]))"

definition outcome_complete ::
    "bool \<Rightarrow> rat \<Rightarrow> string \<Rightarrow> int \<Rightarrow> jdict \<Rightarrow> outcome_rows \<Rightarrow> unit res \<times> outcome_rows" where
  "outcome_complete db_ok clock signature expires_at reply rows =
     (if length (utf8 (json_dumps_compact (JDict reply))) > MAX_RELAY_ENVELOPE_BYTES
      then (Inl (ValueError ''cached relay outcome exceeds the compiled byte limit''), rows)
      else case signature_hash signature of
        Inl e \<Rightarrow> (Inl e, rows)
      | Inr key \<Rightarrow>
      if \<not> db_ok then (Inl (RuntimeError ''cannot persist relay outcome''), rows)
      else if \<not> fits_sqlite expires_at
      then (Inl (OverflowError ''Python int too large to convert to SQLite INTEGER''), rows)
      else let live = filter (\<lambda>(k, e, _). \<not> (e \<le> int_of_float clock \<and> k \<noteq> key)) rows in
        if map_of live key = None
        then (Inl (RuntimeError ''relay outcome claim disappeared before completion''), rows)
        else (Inr (), AList.update key (expires_at, Completed (Some (JDict reply))) live))"

section \<open>Envelopes\<close>

definition validate_peer_component :: "string \<Rightarrow> string res" where
  "validate_peer_component peer =
     (let rest = drop 4 peer in
      if take 4 peer = ''rvn1'' \<and> 20 \<le> length rest \<and> length rest \<le> 124
         \<and> list_all (\<lambda>c. let n = of_char c :: nat in (48 \<le> n \<and> n \<le> 57) \<or> (97 \<le> n \<and> n \<le> 122)) rest
      then Inr peer
      else Inl (ValueError ''relay peer must be a canonical path-safe RVN address''))"

definition text_of :: "jval option \<Rightarrow> string option" where
  "text_of v = (case v of Some (JStr s) \<Rightarrow> Some s | _ \<Rightarrow> None)"

definition text_too_long :: "string \<Rightarrow> bool" where
  "text_too_long s \<longleftrightarrow> length s > MAX_RELAY_TEXT_CHARS \<or> length (utf8 s) > MAX_RELAY_TEXT_BYTES"

definition checked_fields ::
    "jdict \<Rightarrow> string \<Rightarrow> string \<Rightarrow> string \<Rightarrow> string \<Rightarrow> string \<Rightarrow> string \<Rightarrow> (jdict \<times> string \<times> string \<times> string) res" where
  "checked_fields meta sender recipient task_id kind task_text expected_kind =
     (if sender = [] \<or> recipient = [] \<or> task_id = []
      then Inl (ValueError ''relay sender, recipient, and task id are required'')
      else bindE (validate_peer_component sender) (\<lambda>_.
      bindE (validate_peer_component recipient) (\<lambda>_.
      if length task_id > 128 then Inl (ValueError ''relay task id exceeds the compiled limit'')
      else if \<not> list_all printable task_id then Inl (ValueError ''relay task id contains control characters'')
      else if kind \<noteq> expected_kind then Inl (ValueError (''outer kind must be '' @ expected_kind))
      else if text_too_long task_text then Inl (ValueError ''relay text exceeds the compiled character limit'')
      else case text_of (map_of meta ''signature'') of
        None \<Rightarrow> Inl (ValueError ''relay signature must be a non-empty string'')
      | Some signature \<Rightarrow>
      if signature = [] then Inl (ValueError ''relay signature must be a non-empty string'')
      else bindE (signature_hash signature) (\<lambda>_. Inr (meta, sender, task_id, task_text)))))"

definition validated_envelope :: "jdict \<Rightarrow> string \<Rightarrow> (jdict \<times> string \<times> string \<times> string) res" where
  "validated_envelope envelope expected_kind =
     (case map_of envelope ''raven'' of
        Some (JDict meta) \<Rightarrow>
          (case (text_of (map_of envelope ''from''), text_of (map_of envelope ''to''), text_of (map_of envelope ''id''),
                 text_of (map_of envelope ''kind''), text_of (map_of envelope ''text'')) of
             (Some sender, Some recipient, Some task_id, Some kind, Some task_text) \<Rightarrow>
               checked_fields meta sender recipient task_id kind task_text expected_kind
           | _ \<Rightarrow> Inl (ValueError ''relay envelope fields must be strings''))
      | _ \<Rightarrow> Inl (ValueError ''raven metadata must be a JSON object''))"

definition reply_filename :: "string \<Rightarrow> string" where
  "reply_filename task_id = bytes_hex (sha256 (utf8 task_id)) @ ''.json''"

text \<open>The signed block as the JSON object that is written: two integers, the other values are text.\<close>

definition signed_block :: "metadata \<Rightarrow> jdict" where
  "signed_block block = map (\<lambda>(k, v). (k, if k = ''issued_at'' \<or> k = ''expires_at''
     then (case obj_int v of Inr n \<Rightarrow> JInt n | Inl _ \<Rightarrow> JStr (obj_str v)) else JStr (obj_str v))) block"

definition build_reply ::
    "crypto \<Rightarrow> raven_identity \<Rightarrow> rat \<Rightarrow> bytes \<Rightarrow> string \<Rightarrow> string \<Rightarrow> string \<Rightarrow> string \<Rightarrow> jdict res" where
  "build_reply c identity clock random stamp task_id sender answer0 =
     (let answer = bounded_answer_text answer0 in
      bindE (identity_address c identity) (\<lambda>address.
      bindE (sign_delegation c identity clock random answer sender task_id ''answer'' None None MAX_DELEGATION_TTL_SECONDS) (\<lambda>block.
      Inr [(''id'', JStr task_id), (''kind'', JStr ''answer''), (''from'', JStr address), (''to'', JStr sender),
           (''text'', JStr answer), (''at'', JStr stamp), (''raven'', JDict (signed_block block))])))"

section \<open>Reading a slot\<close>

text \<open>
  An entry of a slot is the file, which the code keeps under the key \<open>_file\<close>, and the envelope; an
  entry that cannot be read is an envelope with the key \<open>_parse_error\<close> alone. \<open>exc_of\<close> gives the text of the exception that the system or the JSON decoder raises for a file.
\<close>

type_synonym slot_item = "disk_file \<times> jdict"

definition read_envelope :: "(string \<Rightarrow> string) \<Rightarrow> disk_file \<Rightarrow> slot_item" where
  "read_envelope exc_of f =
     (let fail = (\<lambda>reason. (f, [(''_parse_error'', JStr reason)])) in
      case dl_lstat f of
        None \<Rightarrow> fail (exc_of (dl_name f))
      | Some m \<Rightarrow>
      if st_reparse m \<or> \<not> st_regular m then fail ''relay entry must be a regular file''
      else if st_nlink m \<noteq> 1 then fail ''relay entry must not have multiple hard links''
      else if st_size m > MAX_RELAY_ENVELOPE_BYTES then fail ''relay envelope exceeds the compiled byte limit''
      else case dl_opened f of
        None \<Rightarrow> fail (exc_of (dl_name f))
      | Some (opened, body) \<Rightarrow>
      if \<not> same_file m opened then fail ''relay entry changed while being opened''
      else if fb_length body > MAX_RELAY_ENVELOPE_BYTES then fail ''relay envelope changed beyond the byte limit''
      else case fb_json body of
        None \<Rightarrow> fail (exc_of (dl_name f))
      | Some v \<Rightarrow> (case v of JDict envelope \<Rightarrow> (f, envelope)
                     | _ \<Rightarrow> fail ''relay envelope must be a JSON object''))"

text \<open>A slot that cannot be scanned is \<open>None\<close>.\<close>

definition read_slot :: "(string \<Rightarrow> string) \<Rightarrow> disk_file list option \<Rightarrow> slot_item list res" where
  "read_slot exc_of slot =
     (case slot of
        None \<Rightarrow> Inl (RuntimeError ''cannot scan relay slot'')
      | Some entries \<Rightarrow>
      if length entries > MAX_RELAY_DIRECTORY_ENTRIES
      then Inl (RuntimeError ''relay slot exceeds its compiled directory-entry limit'')
      else let candidates = take MAX_RELAY_FILES_PER_POLL
                 (filter (\<lambda>f. ends_with ''.json'' (dl_name f)) (sort_key dl_name entries))
           in Inr (map (read_envelope exc_of) candidates))"


definition truthy :: "jval \<Rightarrow> bool" where
  "truthy v = (case v of JNull \<Rightarrow> False | JBool b \<Rightarrow> b | JInt n \<Rightarrow> n \<noteq> 0 | JFloat r _ \<Rightarrow> r \<noteq> 0 | JStr s \<Rightarrow> s \<noteq> []
     | JList vs \<Rightarrow> vs \<noteq> [] | JDict d \<Rightarrow> d \<noteq> [] | _ \<Rightarrow> True)"

definition parse_error :: "jdict \<Rightarrow> string option" where
  "parse_error envelope = (case map_of envelope ''_parse_error'' of
     None \<Rightarrow> None | Some v \<Rightarrow> if truthy v then Some (py_text v) else None)"

section \<open>The world of the relay\<close>

text \<open>
  What quarantine holds under \<open>category/name\<close>: a file moved there, or a JSON document about one.
  \<open>rw_runs\<close> is the history of the task texts handed to the agent, with the key of their signature.
\<close>

datatype quarantined = Moved disk_file | Evidence jdict

record relay_world =
  rw_outcomes :: outcome_rows
  rw_cache :: replay_cache
  rw_inbox :: "disk_file list"
  rw_replies :: "disk_file list"
  rw_outbox :: "(string \<times> string, jdict) dict"
  rw_sent :: "(string \<times> string, jdict) dict"
  rw_quarantine :: "(string \<times> string, quarantined) dict"
  rw_runs :: "(string \<times> string) list"

datatype slot = Inbox | Outbox

definition unlink :: "slot \<Rightarrow> string \<Rightarrow> relay_world \<Rightarrow> relay_world" where
  "unlink slot name w = (case slot of
     Inbox \<Rightarrow> w\<lparr>rw_inbox := filter (\<lambda>f. dl_name f \<noteq> name) (rw_inbox w)\<rparr>
   | Outbox \<Rightarrow> w\<lparr>rw_replies := filter (\<lambda>f. dl_name f \<noteq> name) (rw_replies w)\<rparr>)"

definition put_quarantine :: "string \<Rightarrow> string \<Rightarrow> quarantined \<Rightarrow> relay_world \<Rightarrow> relay_world" where
  "put_quarantine category name q w = w\<lparr>rw_quarantine := AList.update (category, name) q (rw_quarantine w)\<rparr>"

definition unsafe_evidence :: "disk_file \<Rightarrow> file_stat \<Rightarrow> string \<Rightarrow> jdict" where
  "unsafe_evidence f m reason =
     [(''source_name'', JStr (take 255 (dl_name f))),
      (''reason'', JStr (take 1000 reason)),
      (''unsafe_file_type'', JBool (\<not> st_regular m)),
      (''oversized'', JBool (st_regular m \<and> st_size m > MAX_RELAY_ENVELOPE_BYTES)),
      (''observed_bytes'', JInt (int (st_size m))),
      (''moved_to_private_quarantine'', JBool (st_directory m))]"

definition name_parts :: "string \<Rightarrow> string \<times> string" where
  "name_parts name = (if ends_with ''.json'' name \<and> name \<noteq> ''.json''
     then (take (length name - 5) name, ''.json'') else (name, []))"

text \<open>
  A symbolic link, a special or oversized file or one with several links is removed (a directory is
  set aside privately) and only evidence is kept; any other file moves, under another name when its
  own is taken, and the reason is written beside it. The system calls of this step are taken to
  succeed, except that the entry may be gone.
\<close>

definition quarantine :: "slot \<Rightarrow> disk_file \<Rightarrow> string \<Rightarrow> string \<Rightarrow> string \<Rightarrow> relay_world \<Rightarrow> relay_world" where
  "quarantine slot f category reason uuid w =
     (case dl_lstat f of
        None \<Rightarrow> w
      | Some m \<Rightarrow>
      if \<not> st_regular m \<or> st_nlink m \<noteq> 1 \<or> (st_regular m \<and> st_size m > MAX_RELAY_ENVELOPE_BYTES)
      then put_quarantine category (''unsafe-'' @ bytes_hex (sha256 (utf8 (dl_name f))) @ ''.reason.json'')
             (Evidence (unsafe_evidence f m reason)) (unlink slot (dl_name f) w)
      else let taken = map_of (rw_quarantine w) (category, dl_name f) \<noteq> None;
               (stem, suffix) = name_parts (dl_name f);
               dest = (if taken then stem @ ''-'' @ take 8 uuid @ suffix else dl_name f)
           in put_quarantine category (dest @ ''.reason.json'') (Evidence [(''reason'', JStr (take 1000 reason))])
                (put_quarantine category dest (Moved f) (unlink slot (dl_name f) w)))"

section \<open>Processing the inbox\<close>

text \<open>
  The configuration of a relay, and for each entry the clock readings, random bytes and outcomes of
  the database and file writes of its turn. \<open>brain\<close> gives the answer of the agent to a task text, or
  the text \<open>Type: message\<close> of the exception it raises.
\<close>

record relay_env =
  re_crypto :: crypto
  re_identity :: raven_identity
  re_peers :: "(string, string) dict"
  re_revoked :: "string set"

record turn =
  tu_verify_clock :: rat
  tu_claim_clock :: rat
  tu_sign_clock :: rat
  tu_complete_clock :: rat
  tu_random :: bytes
  tu_stamp :: string
  tu_uuid :: string
  tu_claim_ok :: bool
  tu_complete_ok :: bool
  tu_write_ok :: bool

text \<open>The checks of an envelope that was read: the transport fields against the signed ones, then the signature.\<close>

definition envelope_verdict ::
    "relay_env \<Rightarrow> rat \<Rightarrow> string \<Rightarrow> jdict \<Rightarrow> jdict \<Rightarrow> string \<Rightarrow> string \<Rightarrow> string \<Rightarrow> replay_cache \<Rightarrow> (bool \<times> string) res" where
  "envelope_verdict env clock kind envelope meta sender task_id task_text rc =
     (if sender \<noteq> field_str (json_metadata meta) ''sender''
      then Inr (False, ''outer sender does not match signed sender'')
      else bindE (identity_address (re_crypto env) (re_identity env)) (\<lambda>address.
      if text_of (map_of envelope ''to'') \<noteq> Some address then Inr (False, ''outer recipient mismatch'')
      else fst (verify_delegation (re_crypto env) (json_metadata meta) task_text (re_peers env) True (re_revoked env)
             address task_id kind False clock True 0 rc)))"

definition interrupted_answer :: string where
  "interrupted_answer = ''relay execution was interrupted before a durable answer; '' @
     ''it was not automatically retried to avoid duplicate side effects''"

definition envelope_bytes :: "jdict \<Rightarrow> bytes" where
  "envelope_bytes value = utf8 (json_dumps_indent 2 (JDict value) @ newline)"

definition write_envelope :: "bool \<Rightarrow> jdict \<Rightarrow> unit res" where
  "write_envelope write_ok value =
     (if length (envelope_bytes value) > MAX_RELAY_ENVELOPE_BYTES
      then Inl (ValueError ''relay envelope exceeds the compiled byte limit'')
      else if \<not> write_ok then Inl (OSError ''write'') else Inr ())"

text \<open>The reply of a claimed task: a cached one, or one that is built, signed and persisted first.\<close>

definition answer_task ::
    "relay_env \<Rightarrow> turn \<Rightarrow> string \<Rightarrow> string \<Rightarrow> string \<Rightarrow> int \<Rightarrow> string \<Rightarrow> relay_world \<Rightarrow> jdict res \<times> relay_world" where
  "answer_task env t sender task_id signature expires_at answer w =
     (case build_reply (re_crypto env) (re_identity env) (tu_sign_clock t) (tu_random t) (tu_stamp t) task_id sender answer of
        Inl e \<Rightarrow> (Inl e, w)
      | Inr reply \<Rightarrow>
      (case outcome_complete (tu_complete_ok t) (tu_complete_clock t) signature expires_at reply (rw_outcomes w) of
        (Inl e, rows) \<Rightarrow> (Inl e, w\<lparr>rw_outcomes := rows\<rparr>)
      | (Inr _, rows) \<Rightarrow> (Inr reply, w\<lparr>rw_outcomes := rows\<rparr>)))"

definition task_reply ::
    "relay_env \<Rightarrow> turn \<Rightarrow> (string \<Rightarrow> string) \<Rightarrow> string \<Rightarrow> string \<Rightarrow> string \<Rightarrow> string \<Rightarrow> int \<Rightarrow> relay_world \<Rightarrow> jdict res \<times> relay_world" where
  "task_reply env t brain sender task_id task_text signature expires_at w =
     (case outcome_claim (tu_claim_ok t) (tu_claim_clock t) signature expires_at (rw_outcomes w) of
        (Inl e, rows) \<Rightarrow> (Inl e, w\<lparr>rw_outcomes := rows\<rparr>)
      | (Inr Interrupted, rows) \<Rightarrow>
          answer_task env t sender task_id signature expires_at interrupted_answer (w\<lparr>rw_outcomes := rows\<rparr>)
      | (Inr New, rows) \<Rightarrow>
          (case signature_hash signature of
             Inl e \<Rightarrow> (Inl e, w\<lparr>rw_outcomes := rows\<rparr>)
           | Inr key \<Rightarrow> answer_task env t sender task_id signature expires_at (brain task_text)
                          (w\<lparr>rw_outcomes := rows, rw_runs := rw_runs w @ [(key, task_text)]\<rparr>))
      | (Inr (Cached reply), rows) \<Rightarrow> (Inr reply, w\<lparr>rw_outcomes := rows\<rparr>))"

datatype task_result = Answered | Rejected

definition reject :: "turn \<Rightarrow> disk_file \<Rightarrow> string \<Rightarrow> relay_world \<Rightarrow> task_result res \<times> relay_world" where
  "reject t f reason w = (Inr Rejected, quarantine Inbox f ''tasks'' reason (tu_uuid t) w)"

definition process_task ::
    "relay_env \<Rightarrow> turn \<Rightarrow> (string \<Rightarrow> string) \<Rightarrow> slot_item \<Rightarrow> relay_world \<Rightarrow> task_result res \<times> relay_world" where
  "process_task env t brain item w =
     (let (f, envelope) = item in
      case parse_error envelope of
        Some e \<Rightarrow> reject t f (''invalid JSON envelope: '' @ e) w
      | None \<Rightarrow>
      (case validated_envelope envelope ''task'' of
        Inl e \<Rightarrow> if is_value_error e then reject t f (''invalid task envelope: '' @ exc_text e) w else (Inl e, w)
      | Inr (meta, sender, task_id, task_text) \<Rightarrow>
      (case envelope_verdict env (tu_verify_clock t) ''task'' envelope meta sender task_id task_text (rw_cache w) of
        Inl e \<Rightarrow> (Inl e, w)
      | Inr (ok, reason) \<Rightarrow>
      if \<not> ok then reject t f reason w
      else (case field_int (json_metadata meta) ''expires_at'' of
        Inl e \<Rightarrow> (Inl e, w)
      | Inr expires_at \<Rightarrow>
      (case task_reply env t brain sender task_id task_text (field_str (json_metadata meta) ''signature'') expires_at w of
        (Inl e, w) \<Rightarrow> (Inl e, w)
      | (Inr reply, w) \<Rightarrow>
      (case write_envelope (tu_write_ok t) reply of
        Inl e \<Rightarrow> (Inl e, w)
      | Inr _ \<Rightarrow> (Inr Answered, unlink Inbox (dl_name f)
          (w\<lparr>rw_outbox := AList.update (sender, reply_filename task_id) reply (rw_outbox w)\<rparr>))))))))"

text \<open>The loop over the inbox: the first exception ends it; the result counts the answered tasks.\<close>

fun process_items ::
    "relay_env \<Rightarrow> (string \<Rightarrow> turn) \<Rightarrow> (string \<Rightarrow> string) \<Rightarrow> slot_item list \<Rightarrow> nat \<Rightarrow> nat \<Rightarrow> relay_world \<Rightarrow>
     (nat \<times> nat) res \<times> relay_world" where
  "process_items env turns brain [] n rejected w = (Inr (n, rejected), w)"
| "process_items env turns brain (item # items) n rejected w =
     (case process_task env (turns (dl_name (fst item))) brain item w of
        (Inl e, w) \<Rightarrow> (Inl e, w)
      | (Inr Answered, w) \<Rightarrow> process_items env turns brain items (n + 1) rejected w
      | (Inr Rejected, w) \<Rightarrow> process_items env turns brain items n (rejected + 1) w)"

definition push :: "bool \<Rightarrow> unit res" where
  "push push_ok = (if push_ok then Inr () else Inl (RuntimeError ''push''))"

definition process_inbox ::
    "relay_env \<Rightarrow> (string \<Rightarrow> turn) \<Rightarrow> (string \<Rightarrow> string) \<Rightarrow> (string \<Rightarrow> string) \<Rightarrow> bool \<Rightarrow> bool \<Rightarrow> bool \<Rightarrow> relay_world \<Rightarrow>
     nat res \<times> relay_world" where
  "process_inbox env turns brain exc_of scan_ok push_ok push_ok' w =
     (case bindE (push push_ok) (\<lambda>_. read_slot exc_of (if scan_ok then Some (rw_inbox w) else None)) of
        Inl e \<Rightarrow> (Inl e, w)
      | Inr items \<Rightarrow>
      (case process_items env turns brain items 0 0 w of
        (Inl e, w) \<Rightarrow> (Inl e, w)
      | (Inr (n, rejected), w) \<Rightarrow>
          if n > 0 \<or> rejected > 0 then (bindE (push push_ok') (\<lambda>_. Inr n), w) else (Inr n, w)))"


section \<open>Sending a task\<close>

definition send_task ::
    "relay_env \<Rightarrow> rat \<Rightarrow> bytes \<Rightarrow> string \<Rightarrow> string \<Rightarrow> string \<Rightarrow> bool \<Rightarrow> bool \<Rightarrow> bool \<Rightarrow> string \<Rightarrow> string \<Rightarrow> relay_world \<Rightarrow>
     (string \<times> string) res \<times> relay_world" where
  "send_task env clock random uuid stamp file_stamp push_ok write_ok push_ok' peer task_text w =
     (let task_id = take 12 uuid in
      case bindE (validate_peer_component peer) (\<lambda>_.
           bindE (push push_ok) (\<lambda>_.
           if text_too_long task_text then Inl (ValueError ''relay task text must be bounded text'')
           else bindE (sign_delegation (re_crypto env) (re_identity env) clock random task_text peer task_id ''task'' None None
                         MAX_DELEGATION_TTL_SECONDS) (\<lambda>block.
           bindE (identity_address (re_crypto env) (re_identity env)) (\<lambda>address.
           let envelope = [(''id'', JStr task_id), (''kind'', JStr ''task''), (''from'', JStr address), (''to'', JStr peer),
                           (''text'', JStr task_text), (''raven'', JDict (signed_block block)), (''at'', JStr stamp)]
           in bindE (write_envelope write_ok envelope) (\<lambda>_. Inr envelope))))) of
        Inl e \<Rightarrow> (Inl e, w)
      | Inr envelope \<Rightarrow>
      let path = (peer, file_stamp @ ''-'' @ task_id @ ''.json'')
      in (bindE (push push_ok') (\<lambda>_. Inr path), w\<lparr>rw_sent := AList.update path envelope (rw_sent w)\<rparr>))"

section \<open>Taking and acknowledging replies\<close>

record check_turn =
  ct_verify_clock :: rat
  ct_seen_clock :: rat
  ct_seen_ok :: bool
  ct_uuid :: string

datatype reply_result = Accepted | Acknowledged | Refused

definition take_reply :: "relay_env \<Rightarrow> check_turn \<Rightarrow> slot_item \<Rightarrow> relay_world \<Rightarrow> reply_result res \<times> relay_world" where
  "take_reply env t item w =
     (let (f, reply) = item;
          refuse = (\<lambda>reason. (Inr Refused, quarantine Outbox f ''replies'' reason (ct_uuid t) w)) in
      case parse_error reply of
        Some e \<Rightarrow> refuse (''invalid JSON envelope: '' @ e)
      | None \<Rightarrow>
      (case validated_envelope reply ''answer'' of
        Inl e \<Rightarrow> if is_value_error e then refuse (''invalid answer envelope: '' @ exc_text e) else (Inl e, w)
      | Inr (meta, sender, task_id, reply_text) \<Rightarrow>
      (case envelope_verdict env (ct_verify_clock t) ''answer'' reply meta sender task_id reply_text (rw_cache w) of
        Inl e \<Rightarrow> (Inl e, w)
      | Inr (ok, reason) \<Rightarrow>
      if \<not> ok then refuse reason
      else (case cache_seen (ct_seen_ok t) (ct_seen_clock t) (field_str (json_metadata meta) ''signature'') (rw_cache w) of
        Inl e \<Rightarrow> (Inl e, w)
      | Inr seen \<Rightarrow> if seen then (Inr Acknowledged, unlink Outbox (dl_name f) w) else (Inr Accepted, w)))))"

fun take_items ::
    "relay_env \<Rightarrow> (string \<Rightarrow> check_turn) \<Rightarrow> slot_item list \<Rightarrow> slot_item list \<Rightarrow> nat \<Rightarrow> relay_world \<Rightarrow>
     (slot_item list \<times> nat) res \<times> relay_world" where
  "take_items env turns [] accepted removed w = (Inr (accepted, removed), w)"
| "take_items env turns (item # items) accepted removed w =
     (case take_reply env (turns (dl_name (fst item))) item w of
        (Inl e, w) \<Rightarrow> (Inl e, w)
      | (Inr Accepted, w) \<Rightarrow> take_items env turns items (accepted @ [item]) removed w
      | (Inr _, w) \<Rightarrow> take_items env turns items accepted (removed + 1) w)"

definition take_replies ::
    "relay_env \<Rightarrow> (string \<Rightarrow> check_turn) \<Rightarrow> (string \<Rightarrow> string) \<Rightarrow> bool \<Rightarrow> bool \<Rightarrow> bool \<Rightarrow> relay_world \<Rightarrow>
     slot_item list res \<times> relay_world" where
  "take_replies env turns exc_of scan_ok push_ok push_ok' w =
     (case bindE (push push_ok) (\<lambda>_. read_slot exc_of (if scan_ok then Some (rw_replies w) else None)) of
        Inl e \<Rightarrow> (Inl e, w)
      | Inr items \<Rightarrow>
      (case take_items env turns items [] 0 w of
        (Inl e, w) \<Rightarrow> (Inl e, w)
      | (Inr (accepted, removed), w) \<Rightarrow>
          if removed > 0 then (bindE (push push_ok') (\<lambda>_. Inr accepted), w) else (Inr accepted, w)))"

text \<open>An entry of the argument of \<open>ack_replies\<close>: the reply and whether it carries \<open>_verified_reply\<close>.\<close>

record ack_turn =
  ak_clock :: rat
  ak_db_ok :: bool
  ak_seen_clock :: rat
  ak_seen_ok :: bool

definition int_instance :: "jval option \<Rightarrow> int option" where
  "int_instance v = (case v of Some (JInt n) \<Rightarrow> Some n | Some (JBool b) \<Rightarrow> Some (if b then 1 else 0) | _ \<Rightarrow> None)"

definition ack_reply :: "ack_turn \<Rightarrow> slot_item \<times> bool \<Rightarrow> relay_world \<Rightarrow> unit res \<times> relay_world" where
  "ack_reply t reply w =
     (let ((f, envelope), verified) = reply in
      if \<not> verified then (Inl (ValueError ''cannot acknowledge an unverified relay reply''), w)
      else case map_of envelope ''raven'' of
        Some (JDict meta) \<Rightarrow>
          (case (text_of (map_of meta ''signature''), int_instance (map_of meta ''expires_at'')) of
             (Some signature, Some expires_at) \<Rightarrow>
               (case first_time (ak_db_ok t) (ak_clock t) signature (Some expires_at) (rw_cache w) of
                  (Inl e, rc) \<Rightarrow> (Inl e, w\<lparr>rw_cache := rc\<rparr>)
                | (Inr fresh, rc) \<Rightarrow>
                let w = w\<lparr>rw_cache := rc\<rparr> in
                if fresh then (Inr (), unlink Outbox (dl_name f) w)
                else (case cache_seen (ak_seen_ok t) (ak_seen_clock t) signature rc of
                  Inl e \<Rightarrow> (Inl e, w)
                | Inr seen \<Rightarrow>
                    if \<not> seen then (Inl (RuntimeError ''relay reply acknowledgement cache is unavailable''), w)
                    else (Inr (), unlink Outbox (dl_name f) w)))
           | _ \<Rightarrow> (Inl (ValueError ''verified relay reply has invalid replay metadata''), w))
      | _ \<Rightarrow> (Inl (ValueError ''verified relay reply lost its source metadata''), w))"

fun ack_items :: "(string \<Rightarrow> ack_turn) \<Rightarrow> (slot_item \<times> bool) list \<Rightarrow> nat \<Rightarrow> relay_world \<Rightarrow> nat res \<times> relay_world" where
  "ack_items turns [] n w = (Inr n, w)"
| "ack_items turns (reply # replies) n w =
     (case ack_reply (turns (dl_name (fst (fst reply)))) reply w of
        (Inl e, w) \<Rightarrow> (Inl e, w)
      | (Inr _, w) \<Rightarrow> ack_items turns replies (n + 1) w)"

definition ack_replies ::
    "(string \<Rightarrow> ack_turn) \<Rightarrow> bool \<Rightarrow> (slot_item \<times> bool) list \<Rightarrow> relay_world \<Rightarrow> unit res \<times> relay_world" where
  "ack_replies turns push_ok replies w =
     (case ack_items turns replies 0 w of
        (Inl e, w) \<Rightarrow> (Inl e, w)
      | (Inr n, w) \<Rightarrow> (if n > 0 then push push_ok else Inr (), w))"

section \<open>A task runs at most once\<close>

type_synonym relay_step = "relay_env \<times> turn \<times> (string \<Rightarrow> string) \<times> slot_item"

text \<open>A history of turns, each of which may raise at any of its calls: a crash is such an exception.\<close>

definition relay_step :: "relay_step \<Rightarrow> relay_world \<Rightarrow> relay_world" where
  "relay_step st w = (case st of (env, t, brain, item) \<Rightarrow> snd (process_task env t brain item w))"

definition relay_run :: "relay_step list \<Rightarrow> relay_world \<Rightarrow> relay_world" where
  "relay_run steps w = fold relay_step steps w"

definition step_meta :: "relay_step \<Rightarrow> metadata" where
  "step_meta st = (case st of (_, _, _, _, envelope) \<Rightarrow>
     (case map_of envelope ''raven'' of Some (JDict meta) \<Rightarrow> json_metadata meta | _ \<Rightarrow> []))"

definition step_key :: "relay_step \<Rightarrow> string res" where
  "step_key st = signature_hash (field_str (step_meta st) ''signature'')"

definition step_expiry :: "relay_step \<Rightarrow> int res" where
  "step_expiry st = field_int (step_meta st) ''expires_at''"

definition step_turn :: "relay_step \<Rightarrow> turn" where
  "step_turn st = (case st of (_, t, _, _) \<Rightarrow> t)"

definition claim_time :: "relay_step \<Rightarrow> int" where "claim_time st = int_of_float (tu_claim_clock (step_turn st))"
definition complete_time :: "relay_step \<Rightarrow> int" where "complete_time st = int_of_float (tu_complete_clock (step_turn st))"

text \<open>The clock of the table does not run backwards.\<close>

definition times_ordered :: "relay_step list \<Rightarrow> bool" where
  "times_ordered steps \<longleftrightarrow> sorted (concat (map (\<lambda>st. [claim_time st, complete_time st]) steps))"

text \<open>The turns that reach the table: the envelope is a task for this relay with a delegation that verifies.\<close>

definition step_verified :: "relay_step \<Rightarrow> bool" where
  "step_verified st \<longleftrightarrow> (case st of (env, t, brain, f, envelope) \<Rightarrow>
     \<exists>meta sender task_id task_text address e.
       validated_envelope envelope ''task'' = Inr (meta, sender, task_id, task_text) \<and>
       identity_address (re_crypto env) (re_identity env) = Inr address \<and> map_of envelope ''to'' = Some (JStr address) \<and>
       sender = field_str (json_metadata meta) ''sender'' \<and>
       delegation_valid (re_crypto env) (json_metadata meta) task_text (re_peers env) (re_revoked env) address task_id ''task''
         (int_of_float (tu_verify_clock t)) e)"

text \<open>
  The expiry is part of the signed bytes: two envelopes that verify and carry one signature have one
  expiry, unless the signature scheme or the hash under which the table keeps it is broken.
\<close>

definition one_expiry :: "relay_step list \<Rightarrow> bool" where
  "one_expiry steps \<longleftrightarrow> (\<forall>a \<in> set steps. \<forall>b \<in> set steps. \<forall>k. step_verified a \<longrightarrow> step_verified b \<longrightarrow>
     step_key a = Inr k \<longrightarrow> step_key b = Inr k \<longrightarrow> step_expiry a = step_expiry b)"

text \<open>A task that verified before its expiry is also claimed before it.\<close>

definition claimed_in_time :: "relay_step list \<Rightarrow> bool" where
  "claimed_in_time steps \<longleftrightarrow> (\<forall>st \<in> set steps. \<forall>e. step_verified st \<longrightarrow> step_expiry st = Inr e \<longrightarrow> claim_time st < e)"

lemma claim_cases:
  assumes "outcome_claim db_ok clock sig e rows = (r, rows')"
  obtains "r \<noteq> Inr New" "rows' = rows"
  | k where "signature_hash sig = Inr k" "r \<noteq> Inr New" "rows' = filter (\<lambda>(_, e, _). \<not> e \<le> int_of_float clock) rows"
      "map_of rows' k \<noteq> None"
  | k where "signature_hash sig = Inr k" "r = Inr New" "rows' = filter (\<lambda>(_, e, _). \<not> e \<le> int_of_float clock) rows @ [(k, e, Processing)]"
      "map_of (filter (\<lambda>(_, e, _). \<not> e \<le> int_of_float clock) rows) k = None"
  using assms by (auto simp: outcome_claim_def cached_result_def Let_def
      split: sum.splits if_splits option.splits outcome_state.splits jval.splits prod.splits)

lemma complete_cases:
  assumes "outcome_complete db_ok clock sig e reply rows = (r, rows')"
  obtains "rows' = rows"
  | k s where "signature_hash sig = Inr k" "rows' = AList.update k (e, s) (filter (\<lambda>(k', e, _). \<not> (e \<le> int_of_float clock \<and> k' \<noteq> k)) rows)"
  using assms by (auto simp: outcome_complete_def Let_def split: sum.splits if_splits option.splits)

lemma map_of_filter_keep: "wf_dict d \<Longrightarrow> map_of d k = Some v \<Longrightarrow> P (k, v) \<Longrightarrow> map_of (filter P d) k = Some v"
  unfolding wf_dict_def by (rule map_of_filter_Some)

lemma wf_dict_filter: "wf_dict d \<Longrightarrow> wf_dict (filter P d)"
  by (simp add: wf_dict_def distinct_map_filter)

lemma wf_dict_snoc: "wf_dict d \<Longrightarrow> map_of d k = None \<Longrightarrow> wf_dict (d @ [(k, v)])"
  by (auto simp: wf_dict_def map_of_eq_None_iff)

text \<open>
  The invariant for one key with expiry \<open>E\<close> at time \<open>now\<close>: it ran at most once, and once it ran its row is
  there until the expiry.
\<close>

definition guarded :: "string \<Rightarrow> int \<Rightarrow> int \<Rightarrow> outcome_rows \<Rightarrow> bool" where
  "guarded k E now rows \<longleftrightarrow> E \<le> now \<or> (\<exists>s. map_of rows k = Some (E, s))"

lemma guarded_later: "guarded k E now rows \<Longrightarrow> now \<le> now' \<Longrightarrow> guarded k E now' rows"
  by (auto simp: guarded_def)

lemma claim_guarded:
  assumes "outcome_claim db_ok clock sig e rows = (r, rows')" "wf_dict rows"
  shows "wf_dict rows'"
    and "guarded k E now rows \<Longrightarrow> now \<le> int_of_float clock \<Longrightarrow> guarded k E (int_of_float clock) rows'"
    and "r = Inr New \<Longrightarrow> signature_hash sig = Inr k \<Longrightarrow> map_of rows' k = Some (e, Processing)"
    and "r = Inr New \<Longrightarrow> signature_hash sig = Inr k \<Longrightarrow> guarded k E now rows \<Longrightarrow> now \<le> int_of_float clock \<Longrightarrow> E \<le> int_of_float clock"
proof -
  let ?live = "filter (\<lambda>(_, e, _). \<not> e \<le> int_of_float clock) rows"
  have keep: "map_of ?live k = Some (E, s)" if "map_of rows k = Some (E, s)" "\<not> E \<le> int_of_float clock" for k E s
    using map_of_filter_keep[OF assms(2) that(1)] that(2) by simp
  show "wf_dict rows'" using assms(1)
    by (rule claim_cases) (simp_all add: assms(2) wf_dict_filter wf_dict_snoc)
  show "guarded k E (int_of_float clock) rows'" if "guarded k E now rows" "now \<le> int_of_float clock"
    using assms(1) by (rule claim_cases) (use that keep in \<open>auto simp: guarded_def map_add_def\<close>)
  show "map_of rows' k = Some (e, Processing)" if "r = Inr New" "signature_hash sig = Inr k"
    using assms(1) by (rule claim_cases) (use that in \<open>auto simp: map_add_def\<close>)
  show "E \<le> int_of_float clock" if "r = Inr New" "signature_hash sig = Inr k" "guarded k E now rows" "now \<le> int_of_float clock"
    using assms(1) by (rule claim_cases) (use that keep in \<open>force simp: guarded_def\<close>)+
qed

lemma complete_guarded:
  assumes "outcome_complete db_ok clock sig e reply rows = (r, rows')" "wf_dict rows"
  shows "wf_dict rows'"
    and "guarded k E now rows \<Longrightarrow> now \<le> int_of_float clock \<Longrightarrow> (signature_hash sig = Inr k \<Longrightarrow> e = E) \<Longrightarrow>
      guarded k E (int_of_float clock) rows'"
proof -
  show "wf_dict rows'" using assms(1) by (rule complete_cases) (simp_all add: assms(2) wf_dict_filter)
  show "guarded k E (int_of_float clock) rows'"
    if g: "guarded k E now rows" "now \<le> int_of_float clock" "signature_hash sig = Inr k \<Longrightarrow> e = E"
    using assms(1)
  proof (rule complete_cases)
    assume "rows' = rows"
    then show ?thesis using g guarded_later by simp
  next
    fix k' s
    assume a: "signature_hash sig = Inr k'"
      "rows' = AList.update k' (e, s) (filter (\<lambda>(k, e, _). \<not> (e \<le> int_of_float clock \<and> k \<noteq> k')) rows)"
    show ?thesis
    proof (cases "k = k'")
      case True
      then show ?thesis using a g by (simp add: guarded_def update_conv')
    next
      case False
      then show ?thesis using a(2) g(1,2) map_of_filter_keep[OF assms(2), of k]
        by (auto simp: guarded_def update_conv')
    qed
  qed
qed

lemma complete_keeps_own:
  assumes "outcome_complete db_ok clock sig e reply rows = (r, rows')" "signature_hash sig = Inr k"
    and "map_of rows k = Some (e, s)"
  shows "\<exists>s. map_of rows' k = Some (e, s)"
  using assms(1) by (rule complete_cases) (use assms(2,3) in \<open>auto simp: update_conv'\<close>)

lemma verdict_ok:
  assumes "envelope_verdict env clock kind envelope meta sender task_id task_text rc = Inr (True, reason)"
  shows "\<exists>address e. identity_address (re_crypto env) (re_identity env) = Inr address \<and>
    map_of envelope ''to'' = Some (JStr address) \<and> sender = field_str (json_metadata meta) ''sender'' \<and>
    delegation_valid (re_crypto env) (json_metadata meta) task_text (re_peers env) (re_revoked env) address task_id kind
      (int_of_float clock) e"
proof -
  obtain address where a: "sender = field_str (json_metadata meta) ''sender''"
    "identity_address (re_crypto env) (re_identity env) = Inr address" "text_of (map_of envelope ''to'') = Some address"
    and v: "fst (verify_delegation (re_crypto env) (json_metadata meta) task_text (re_peers env) True (re_revoked env)
             address task_id kind False clock True 0 rc) = Inr (True, reason)"
    using assms by (auto simp: envelope_verdict_def bindE_eq_Inr split: if_splits)
  have "json_metadata meta \<noteq> []" using v by (auto simp: verify_delegation_def)
  with verify_delegation_rejects v have "\<exists>e. delegation_valid (re_crypto env) (json_metadata meta) task_text (re_peers env)
      (re_revoked env) address task_id kind (int_of_float clock) e" by metis
  moreover have "map_of envelope ''to'' = Some (JStr address)"
    using a(3) by (auto simp: text_of_def split: option.splits jval.splits)
  ultimately show ?thesis using a by blast
qed

lemma answer_task_effect:
  assumes "answer_task env t sender task_id signature e answer w = (r, w')"
  shows "rw_runs w' = rw_runs w" "rw_cache w' = rw_cache w"
    and "rw_outcomes w' = rw_outcomes w \<or>
      (\<exists>reply x. outcome_complete (tu_complete_ok t) (tu_complete_clock t) signature e reply (rw_outcomes w) = (x, rw_outcomes w'))"
  using assms by (auto simp: answer_task_def split: sum.splits prod.splits)

lemma task_reply_effect:
  assumes "task_reply env t brain sender task_id task_text signature e w = (r, w')"
  obtains cr rows where "outcome_claim (tu_claim_ok t) (tu_claim_clock t) signature e (rw_outcomes w) = (cr, rows)"
    "rw_outcomes w' = rows \<or>
       (\<exists>reply x. outcome_complete (tu_complete_ok t) (tu_complete_clock t) signature e reply rows = (x, rw_outcomes w'))"
    "cr \<noteq> Inr New \<Longrightarrow> rw_runs w' = rw_runs w"
    "cr = Inr New \<Longrightarrow> (\<exists>k. signature_hash signature = Inr k \<and> rw_runs w' = rw_runs w @ [(k, task_text)])"
    "rw_cache w' = rw_cache w"
proof -
  obtain cr rows where c: "outcome_claim (tu_claim_ok t) (tu_claim_clock t) signature e (rw_outcomes w) = (cr, rows)"
    by fastforce
  show thesis
  proof (rule that[OF c])
    consider x where "cr = Inl x" | "cr = Inr Interrupted" | "cr = Inr New" | reply where "cr = Inr (Cached reply)"
      by (cases cr) (auto intro: claim_result.exhaust)
    note cases = this
    from c have k: "cr = Inr New \<Longrightarrow> \<exists>k. signature_hash signature = Inr k"
      by (auto simp: outcome_claim_def split: sum.splits)
    show "rw_outcomes w' = rows \<or>
       (\<exists>reply x. outcome_complete (tu_complete_ok t) (tu_complete_clock t) signature e reply rows = (x, rw_outcomes w'))"
      using cases assms c k by cases (auto simp: task_reply_def dest!: answer_task_effect(3) split: sum.splits)
    show "rw_runs w' = rw_runs w" if "cr \<noteq> Inr New"
      using cases assms c that by cases (auto simp: task_reply_def dest!: answer_task_effect(1))
    show "\<exists>k. signature_hash signature = Inr k \<and> rw_runs w' = rw_runs w @ [(k, task_text)]" if "cr = Inr New"
      using assms c that k[OF that] by (auto simp: task_reply_def dest!: answer_task_effect(1))
    show "rw_cache w' = rw_cache w"
      using cases assms c k by cases (auto simp: task_reply_def dest!: answer_task_effect(2) split: sum.splits)
  qed
qed

lemma quarantine_keeps [simp]:
  "rw_runs (quarantine slot f category reason uuid w) = rw_runs w"
  "rw_outcomes (quarantine slot f category reason uuid w) = rw_outcomes w"
  "rw_cache (quarantine slot f category reason uuid w) = rw_cache w"
  "rw_outbox (quarantine slot f category reason uuid w) = rw_outbox w"
  by (auto simp: quarantine_def put_quarantine_def unlink_def Let_def split: option.split slot.split prod.split)

lemma unlink_keeps [simp]:
  "rw_runs (unlink slot name w) = rw_runs w" "rw_outcomes (unlink slot name w) = rw_outcomes w"
  "rw_cache (unlink slot name w) = rw_cache w" "rw_outbox (unlink slot name w) = rw_outbox w"
  by (auto simp: unlink_def split: slot.split)

text \<open>A turn either leaves table and history alone, or it is the reply of a validated and verified task.\<close>

lemma process_task_effect:
  assumes "process_task env t brain (f, envelope) w = (r, w')"
  obtains "rw_outcomes w' = rw_outcomes w" "rw_runs w' = rw_runs w" "rw_cache w' = rw_cache w" "rw_outbox w' = rw_outbox w"
  | meta sender task_id task_text e address reply v where
      "validated_envelope envelope ''task'' = Inr (meta, sender, task_id, task_text)"
      "identity_address (re_crypto env) (re_identity env) = Inr address" "map_of envelope ''to'' = Some (JStr address)"
      "sender = field_str (json_metadata meta) ''sender''"
      "delegation_valid (re_crypto env) (json_metadata meta) task_text (re_peers env) (re_revoked env) address task_id ''task''
         (int_of_float (tu_verify_clock t)) e"
      "task_reply env t brain sender task_id task_text (field_str (json_metadata meta) ''signature'') e w = (reply, v)"
      "rw_outcomes w' = rw_outcomes v" "rw_runs w' = rw_runs v" "rw_cache w' = rw_cache v"
proof (cases "\<exists>meta sender task_id task_text reason. parse_error envelope = None \<and>
    validated_envelope envelope ''task'' = Inr (meta, sender, task_id, task_text) \<and>
    envelope_verdict env (tu_verify_clock t) ''task'' envelope meta sender task_id task_text (rw_cache w) = Inr (True, reason)")
  case False
  with assms have "rw_outcomes w' = rw_outcomes w \<and> rw_runs w' = rw_runs w \<and> rw_cache w' = rw_cache w \<and> rw_outbox w' = rw_outbox w"
    by (auto simp: process_task_def reject_def split: option.splits sum.splits if_splits prod.splits)
  then show thesis using that(1) by blast
next
  case True
  then obtain meta sender task_id task_text reason where a: "parse_error envelope = None"
    "validated_envelope envelope ''task'' = Inr (meta, sender, task_id, task_text)"
    "envelope_verdict env (tu_verify_clock t) ''task'' envelope meta sender task_id task_text (rw_cache w) = Inr (True, reason)"
    by blast
  from verdict_ok[OF a(3)] obtain address e where v: "identity_address (re_crypto env) (re_identity env) = Inr address"
    "map_of envelope ''to'' = Some (JStr address)" "sender = field_str (json_metadata meta) ''sender''"
    "delegation_valid (re_crypto env) (json_metadata meta) task_text (re_peers env) (re_revoked env) address task_id ''task''
      (int_of_float (tu_verify_clock t)) e" by blast
  have e: "field_int (json_metadata meta) ''expires_at'' = Inr e" using v(4) by (auto simp: delegation_valid_def)
  obtain reply u where u: "task_reply env t brain sender task_id task_text (field_str (json_metadata meta) ''signature'') e w = (reply, u)"
    by fastforce
  have "rw_outcomes w' = rw_outcomes u \<and> rw_runs w' = rw_runs u \<and> rw_cache w' = rw_cache u"
    using assms a e u by (auto simp: process_task_def split: sum.splits)
  then show thesis using that(2)[OF a(2) v u] by blast
qed

lemma validated_meta:
  "validated_envelope envelope kind = Inr (meta, sender, task_id, task_text) \<Longrightarrow> map_of envelope ''raven'' = Some (JDict meta)"
  by (auto simp: validated_envelope_def checked_fields_def bindE_eq_Inr split: option.splits jval.splits if_splits)

text \<open>A claim in the second of the verification is in time.\<close>

lemma claimed_at_once:
  assumes "\<And>st. st \<in> set steps \<Longrightarrow> int_of_float (tu_verify_clock (step_turn st)) = claim_time st"
  shows "claimed_in_time steps"
proof -
  have "claim_time st < E" if st: "st \<in> set steps" "step_verified st" "step_expiry st = Inr E" for st E
  proof -
    obtain env t brain f envelope where d: "st = (env, t, brain, f, envelope)" by (cases st) auto
    from st(2) obtain meta sender task_id task_text address e where v:
      "validated_envelope envelope ''task'' = Inr (meta, sender, task_id, task_text)"
      "delegation_valid (re_crypto env) (json_metadata meta) task_text (re_peers env) (re_revoked env) address task_id ''task''
         (int_of_float (tu_verify_clock t)) e"
      unfolding step_verified_def d by auto
    have "step_expiry st = field_int (json_metadata meta) ''expires_at''"
      using validated_meta[OF v(1)] by (simp add: step_expiry_def step_meta_def d)
    then have "int_of_float (tu_verify_clock t) < E" using v(2) st(3) by (auto simp: delegation_valid_def)
    then show ?thesis using assms[OF st(1)] by (simp add: step_turn_def d)
  qed
  then show ?thesis by (simp add: claimed_in_time_def)
qed

text \<open>The invariant of a history: no key ran twice, and every key that ran is guarded until its expiry.\<close>

definition history_ok :: "relay_step list \<Rightarrow> int \<Rightarrow> relay_world \<Rightarrow> bool" where
  "history_ok steps now w \<longleftrightarrow> wf_dict (rw_outcomes w) \<and> distinct (map fst (rw_runs w)) \<and>
     (\<forall>k \<in> fst ` set (rw_runs w). \<exists>E. (\<forall>st \<in> set steps. step_verified st \<longrightarrow> step_key st = Inr k \<longrightarrow> step_expiry st = Inr E) \<and>
        guarded k E now (rw_outcomes w))"

lemma history_later:
  assumes "history_ok steps now w" "now \<le> now'" "rw_outcomes w' = rw_outcomes w" "rw_runs w' = rw_runs w"
  shows "history_ok steps now' w'"
proof -
  have "\<exists>E. (\<forall>st \<in> set steps. step_verified st \<longrightarrow> step_key st = Inr k \<longrightarrow> step_expiry st = Inr E) \<and> guarded k E now' (rw_outcomes w)"
    if "k \<in> fst ` set (rw_runs w)" for k
    using that assms(1) guarded_later[OF _ assms(2)] unfolding history_ok_def by blast
  then show ?thesis using assms(1) by (simp add: history_ok_def assms(3,4))
qed

lemma relay_step_history:
  assumes "history_ok steps now w" "st \<in> set steps" "one_expiry steps"
    and "claimed_in_time steps" "now \<le> claim_time st" "claim_time st \<le> complete_time st"
  shows "history_ok steps (complete_time st) (relay_step st w)"
proof -
  obtain env t brain f envelope where st: "st = (env, t, brain, f, envelope)" by (cases st) auto
  obtain r w' where p: "process_task env t brain (f, envelope) w = (r, w')" by fastforce
  have step: "relay_step st w = w'" by (simp add: st relay_step_def p)
  have times: "claim_time st = int_of_float (tu_claim_clock t)" "complete_time st = int_of_float (tu_complete_clock t)"
    by (simp_all add: st claim_time_def complete_time_def step_turn_def)
  have "history_ok steps (complete_time st) w'"
    using p
  proof (cases rule: process_task_effect)
    case 1
    then show ?thesis using history_later[OF assms(1)] assms(5,6) by simp
  next
    case (2 meta sender task_id task_text e address reply v)
    let ?sig = "field_str (json_metadata meta) ''signature''"
    have m: "step_meta st = json_metadata meta" using validated_meta[OF 2(1)] by (simp add: st step_meta_def)
    have key: "step_key st = signature_hash ?sig" by (simp add: step_key_def m)
    have verified: "step_verified st" using 2(1-5) unfolding step_verified_def st by auto
    have exp: "step_expiry st = Inr e" using 2(5) by (auto simp: step_expiry_def m delegation_valid_def)
    with assms(2,4) verified have early: "claim_time st < e" by (auto simp: claimed_in_time_def)
    obtain cr rows where c: "outcome_claim (tu_claim_ok t) (tu_claim_clock t) ?sig e (rw_outcomes w) = (cr, rows)"
      and fin: "rw_outcomes w' = rows \<or>
        (\<exists>reply x. outcome_complete (tu_complete_ok t) (tu_complete_clock t) ?sig e reply rows = (x, rw_outcomes w'))"
      and old: "cr \<noteq> Inr New \<Longrightarrow> rw_runs w' = rw_runs w"
      and new: "cr = Inr New \<Longrightarrow> (\<exists>k. signature_hash ?sig = Inr k \<and> rw_runs w' = rw_runs w @ [(k, task_text)])"
      using task_reply_effect[OF 2(6)] 2(7,8) by metis
    have wf: "wf_dict (rw_outcomes w)" using assms(1) by (simp add: history_ok_def)
    note cg = claim_guarded[OF c wf]
    have wf': "wf_dict (rw_outcomes w')" using fin cg(1) complete_guarded(1) by blast
    have keep: "guarded k E (complete_time st) (rw_outcomes w')"
      if "guarded k E (claim_time st) rows" "step_key st = Inr k \<Longrightarrow> e = E" for k E
    proof -
      from fin show ?thesis
      proof
        assume "rw_outcomes w' = rows"
        then show ?thesis using that(1) assms(6) guarded_later by simp
      next
        assume "\<exists>reply x. outcome_complete (tu_complete_ok t) (tu_complete_clock t) ?sig e reply rows = (x, rw_outcomes w')"
        then show ?thesis using complete_guarded(2)[OF _ cg(1)] that assms(6) times key by metis
      qed
    qed
    have old_keys: "\<exists>E. (\<forall>st \<in> set steps. step_verified st \<longrightarrow> step_key st = Inr k \<longrightarrow> step_expiry st = Inr E) \<and> guarded k E (claim_time st) rows
        \<and> guarded k E (complete_time st) (rw_outcomes w') \<and> (step_key st = Inr k \<longrightarrow> E = e \<and> cr \<noteq> Inr New)"
      if k: "k \<in> fst ` set (rw_runs w)" for k
    proof -
      obtain E where E: "\<forall>st \<in> set steps. step_verified st \<longrightarrow> step_key st = Inr k \<longrightarrow> step_expiry st = Inr E" "guarded k E now (rw_outcomes w)"
        using assms(1) k by (auto simp: history_ok_def)
      have same: "step_key st = Inr k \<Longrightarrow> E = e" using E(1) assms(2) exp verified by force
      have g: "guarded k E (claim_time st) rows" using cg(2)[OF E(2)] assms(5) times by simp
      moreover have "step_key st = Inr k \<Longrightarrow> cr \<noteq> Inr New"
        using cg(4)[of k E now] E(2) assms(5) times same early key by fastforce
      ultimately show ?thesis using keep[OF g] E(1) same by blast
    qed
    show ?thesis
    proof (cases "cr = Inr New")
      case False
      then show ?thesis using old old_keys wf' assms(1) unfolding history_ok_def by metis
    next
      case True
      then obtain k where k: "signature_hash ?sig = Inr k" "rw_runs w' = rw_runs w @ [(k, task_text)]" using new by blast
      have fresh: "k \<notin> fst ` set (rw_runs w)" using old_keys[of k] key k(1) True by auto
      have "map_of rows k = Some (e, Processing)" using cg(3)[OF True k(1)] .
      then have "guarded k e (claim_time st) rows" by (simp add: guarded_def)
      from keep[OF this] have "guarded k e (complete_time st) (rw_outcomes w')" by simp
      moreover have "\<forall>s \<in> set steps. step_verified s \<longrightarrow> step_key s = Inr k \<longrightarrow> step_expiry s = Inr e"
        using assms(2,3) exp key k(1) verified unfolding one_expiry_def by metis
      ultimately have "\<exists>E. (\<forall>st \<in> set steps. step_verified st \<longrightarrow> step_key st = Inr x \<longrightarrow> step_expiry st = Inr E) \<and> guarded x E (complete_time st) (rw_outcomes w')"
        if "x \<in> fst ` set (rw_runs w')" for x
        using that k(2) old_keys[of x] by auto
      then show ?thesis using fresh k(2) wf' assms(1) by (auto simp: history_ok_def)
    qed
  qed
  then show ?thesis by (simp add: step)
qed

lemma relay_run_history:
  assumes "history_ok all now w" "one_expiry all" "claimed_in_time all" "set steps \<subseteq> set all" "times_ordered steps"
    and "\<And>st. st \<in> set steps \<Longrightarrow> now \<le> claim_time st"
  shows "\<exists>later. history_ok all later (relay_run steps w)"
  using assms
proof (induction steps arbitrary: now w)
  case Nil
  then show ?case by (auto simp: relay_run_def)
next
  case (Cons st steps)
  have t: "claim_time st \<le> complete_time st" "times_ordered steps"
    "\<And>s. s \<in> set steps \<Longrightarrow> complete_time st \<le> claim_time s"
    using Cons.prems(5) by (auto simp: times_ordered_def)
  have "history_ok all (complete_time st) (relay_step st w)"
    using relay_step_history[OF Cons.prems(1) _ Cons.prems(2,3)] Cons.prems(4,6) t(1) by simp
  from Cons.IH[OF this Cons.prems(2,3) _ t(2,3)] Cons.prems(4) show ?case by (simp add: relay_run_def)
qed

text \<open>
  C4: In a history of turns that starts with no task run and any table of outcomes (one row per key), whatever envelopes
  are offered, how often, and wherever a turn breaks off, the agent runs at most once for the signature of
  a task. Supposed are three things of the history: the clock readings at the table do not run
  backwards; a task that verifies is also claimed before it expires; and two envelopes that verify and
  carry one signature have one expiry (it is signed). Of envelopes that do not verify nothing is supposed.
\<close>

theorem relay_at_most_once:
  assumes "rw_runs w = []" "wf_dict (rw_outcomes w)"
    and "times_ordered steps" "claimed_in_time steps" "one_expiry steps"
  shows "distinct (map fst (rw_runs (relay_run steps w)))"
proof (cases steps)
  case Nil
  then show ?thesis using assms(1) by (simp add: relay_run_def)
next
  case (Cons st rest)
  have "history_ok steps (claim_time st) w" using assms(1,2) by (simp add: history_ok_def)
  moreover have "claim_time st \<le> claim_time s" if "s \<in> set steps" for s
    using assms(3) that Cons by (force simp: times_ordered_def)
  ultimately obtain later where "history_ok steps later (relay_run steps w)"
    using relay_run_history[OF _ assms(5,4) order_refl assms(3)] by blast
  then show ?thesis by (simp add: history_ok_def)
qed

section \<open>Bounded answers\<close>

lemma length_utf8_note: "length (utf8 truncation_note) = 51"
  by code_simp

lemma length_utf8_append: "utf8 (s @ t) = utf8 s @ utf8 t"
  by (simp add: utf8_def)

lemma length_le_utf8: "length s \<le> length (utf8 s)"
proof (induction s)
  case (Cons c s)
  have "1 \<le> length (utf8_char c)" by (simp add: utf8_char_def Let_def)
  with Cons show ?case unfolding utf8_Cons length_append list.size by linarith
qed simp

text \<open>The answer is the whole text, or as many of its code points as fit before the note.\<close>

definition answer_budget :: nat where
  "answer_budget = MAX_RELAY_ANSWER_BYTES - length (encode_replace (points truncation_note))"

lemma bounded_points_eq:
  assumes "valid_points text"
  shows "bounded_answer_points text =
    (let whole = replace_surrogates (take MAX_RELAY_TEXT_CHARS text) in
     Inr (if length text \<le> MAX_RELAY_TEXT_CHARS \<and> length (encode_replace text) \<le> MAX_RELAY_ANSWER_BYTES
          then replace_surrogates text else take (fitting answer_budget whole) whole @ points truncation_note))"
proof -
  note v = valid_points_take[OF assms, of MAX_RELAY_TEXT_CHARS]
  show ?thesis
    by (auto simp: bounded_answer_points_def Let_def utf8_strict_encoded[OF v] utf8_ignore_cut[OF v] answer_budget_def)
qed

lemma budget_note: "answer_budget + length (encode_replace (points truncation_note)) = MAX_RELAY_ANSWER_BYTES"
  by (simp add: answer_budget_def encode_points length_utf8_note MAX_RELAY_ANSWER_BYTES_def)

lemma cut_answer_length:
  assumes "encodable s"
  shows "length (encode_replace (take (fitting answer_budget s) s @ points truncation_note)) \<le> MAX_RELAY_ANSWER_BYTES"
  using fitting_fits[of answer_budget s] assms budget_note
  by (simp add: encode_replace_append encode_units replace_encodable encodable_take)

lemma bounded_points_string: "bounded_answer_points (points answer) = Inr (points (bounded_answer_text answer))"
proof -
  have c: "map char_of (take n (points answer)) = take n answer" "map char_of (take n (take k (points answer))) = take n (take k answer)"
    for n k by (simp_all only: points_take[symmetric] points_back)
  show ?thesis
    by (simp add: bounded_answer_text_def bounded_points_eq Let_def points_take[symmetric])
qed

lemma bounded_answer_fits:
  assumes "length answer \<le> MAX_RELAY_TEXT_CHARS" "length (utf8 answer) \<le> MAX_RELAY_ANSWER_BYTES"
  shows "bounded_answer_text answer = answer"
  using assms by (simp add: bounded_answer_text_def bounded_points_eq encode_points Let_def)

lemma bounded_answer_length: "length (utf8 (bounded_answer_text answer)) \<le> MAX_RELAY_ANSWER_BYTES"
proof -
  have "bounded_answer_points (points answer) = Inr s \<Longrightarrow> length (encode_replace s) \<le> MAX_RELAY_ANSWER_BYTES" for s
    using cut_answer_length[of "replace_surrogates (take MAX_RELAY_TEXT_CHARS (points answer))"]
    by (auto simp: bounded_points_eq Let_def encode_points points_take[symmetric] split: if_splits)
  from this[OF bounded_points_string] show ?thesis by (simp add: encode_points)
qed

text \<open>
  C40: The answer the relay signs, over all Python text. The function never raises; its result has no
  surrogate and at most 48 KiB of UTF-8. An answer of at most 65536 code points that encodes within
  the limit is kept, each surrogate replaced by a question mark. Of any other answer the result is the
  longest prefix in whole code points of that replaced text, cut at 65536 code points, whose UTF-8
  fits beside the truncation note, followed by the note. The one hypothesis holds of every Python
  \<open>str\<close>: its code points are below \<open>110000\<close> (hexadecimal).
\<close>

theorem answer_bounded:
  assumes "valid_points answer"
  shows "\<exists>signed. bounded_answer_points answer = Inr signed \<and> encodable signed \<and>
    length (encode_replace signed) \<le> MAX_RELAY_ANSWER_BYTES \<and>
    (if length answer \<le> MAX_RELAY_TEXT_CHARS \<and> length (encode_replace answer) \<le> MAX_RELAY_ANSWER_BYTES
     then signed = map (\<lambda>c. if is_surrogate c then 63 else c) answer
     else \<exists>whole m. whole = map (\<lambda>c. if is_surrogate c then 63 else c) (take MAX_RELAY_TEXT_CHARS answer) \<and>
       m \<le> length whole \<and> signed = take m whole @ points truncation_note \<and>
       (m < length whole \<longrightarrow>
         MAX_RELAY_ANSWER_BYTES < length (encode_replace (take (Suc m) whole @ points truncation_note))))"
proof (cases "length answer \<le> MAX_RELAY_TEXT_CHARS \<and> length (encode_replace answer) \<le> MAX_RELAY_ANSWER_BYTES")
  case True
  have "encode_replace (replace_surrogates answer) = encode_replace answer"
    using replace_encodable[OF encodable_replace[OF assms]] by (simp add: encode_units)
  then show ?thesis
    using True encodable_replace[OF assms] unfolding bounded_points_eq[OF assms] replace_surrogates_def[symmetric] by simp
next
  case False
  let ?w = "replace_surrogates (take MAX_RELAY_TEXT_CHARS answer)"
  let ?m = "fitting answer_budget ?w"
  have e: "encodable ?w" using encodable_replace[OF valid_points_take[OF assms]] .
  have "MAX_RELAY_ANSWER_BYTES < length (encode_replace (take (Suc ?m) ?w @ points truncation_note))" if "?m < length ?w"
  proof -
    have "length (encode_replace (take (Suc ?m) ?w)) = length (units (take (Suc ?m) ?w))"
      by (simp only: encode_units length_map replace_encodable[OF encodable_take[OF e]])
    then show ?thesis
      using fitting_maximal[OF that] budget_note unfolding encode_replace_append length_append by linarith
  qed
  then show ?thesis
    using False cut_answer_length[OF e] fitting_le[of answer_budget ?w] e
    unfolding bounded_points_eq[OF assms] replace_surrogates_def[symmetric]
    by (auto simp: encodable_take Let_def)
qed

text \<open>Sixty thousand times the euro sign: 49101 bytes for the answer are 16367 signs of three bytes.\<close>

definition euro_answer :: code_points where
  "euro_answer = replicate 60000 0x20AC"

lemma euro_units: "length (encode_replace (replicate n 0x20AC)) = 3 * n"
  by (induction n) (simp_all add: encode_replace_def replace_surrogates_def is_surrogate_def point_units_def)

theorem answer_bounded_witness:
  "bounded_answer_points euro_answer = Inr (replicate 16367 0x20AC @ points truncation_note)"
proof -
  have v: "valid_points euro_answer" by (simp add: valid_points_def euro_answer_def list_all_iff)
  have "\<not> length (encode_replace euro_answer) \<le> MAX_RELAY_ANSWER_BYTES"
    by (simp add: euro_answer_def euro_units MAX_RELAY_ANSWER_BYTES_def)
  moreover have "map (\<lambda>c. if is_surrogate c then 63 else c) (take MAX_RELAY_TEXT_CHARS euro_answer) = replicate 60000 0x20AC"
    by (simp add: euro_answer_def MAX_RELAY_TEXT_CHARS_def is_surrogate_def)
  ultimately obtain signed m where s: "bounded_answer_points euro_answer = Inr signed"
    "length (encode_replace signed) \<le> MAX_RELAY_ANSWER_BYTES" "m \<le> 60000"
    "signed = replicate m 0x20AC @ points truncation_note"
    "m < 60000 \<Longrightarrow> MAX_RELAY_ANSWER_BYTES < length (encode_replace (replicate (Suc m) 0x20AC @ points truncation_note))"
    using answer_bounded[OF v] by (auto simp: min_def)
  have "3 * m + 51 \<le> 49152"
    using s(2) by (simp add: s(4) encode_replace_append euro_units encode_points length_utf8_note MAX_RELAY_ANSWER_BYTES_def)
  moreover from this have "m < 60000" by linarith
  from s(5)[OF this] have "49152 < 3 * Suc m + 51"
    by (simp only: encode_replace_append length_append euro_units encode_points length_utf8_note MAX_RELAY_ANSWER_BYTES_def)
  ultimately have "m = 16367" by simp
  then show ?thesis using s(1,4) by simp
qed

section \<open>What the agent is handed\<close>

text \<open>
  C38: The agent is handed a text only when the envelope passes every check: a valid delegation of
  exactly this text, signed by a pinned peer that is not revoked, for this relay, this task id and
  the kind of a task, and a signature of which the table of outcomes (a table with one row per key)
  has no row that is unexpired when it is claimed. The text is then run once, and after the turn,
  whether it ended or raised after the claim, the table holds the row of its signature with the
  expiry of the delegation.
\<close>

theorem relay_runs_only_verified:
  assumes "process_task env t brain (f, envelope) w = (r, w')" "rw_runs w' \<noteq> rw_runs w" "wf_dict (rw_outcomes w)"
  shows "\<exists>meta sender task_id task_text e address k.
    validated_envelope envelope ''task'' = Inr (meta, sender, task_id, task_text) \<and>
    identity_address (re_crypto env) (re_identity env) = Inr address \<and> map_of envelope ''to'' = Some (JStr address) \<and>
    sender = field_str (json_metadata meta) ''sender'' \<and>
    delegation_valid (re_crypto env) (json_metadata meta) task_text (re_peers env) (re_revoked env) address task_id ''task''
      (int_of_float (tu_verify_clock t)) e \<and>
    signature_hash (field_str (json_metadata meta) ''signature'') = Inr k \<and>
    (\<forall>x s. map_of (rw_outcomes w) k = Some (x, s) \<longrightarrow> x \<le> int_of_float (tu_claim_clock t)) \<and>
    rw_runs w' = rw_runs w @ [(k, task_text)] \<and>
    (\<exists>s. map_of (rw_outcomes w') k = Some (e, s))"
  using assms(1)
proof (cases rule: process_task_effect)
  case 1
  then show ?thesis using assms(2) by simp
next
  case (2 meta sender task_id task_text e address reply v)
  let ?sig = "field_str (json_metadata meta) ''signature''"
  obtain cr rows where c: "outcome_claim (tu_claim_ok t) (tu_claim_clock t) ?sig e (rw_outcomes w) = (cr, rows)"
    "cr \<noteq> Inr New \<Longrightarrow> rw_runs w' = rw_runs w"
    "cr = Inr New \<Longrightarrow> (\<exists>k. signature_hash ?sig = Inr k \<and> rw_runs w' = rw_runs w @ [(k, task_text)])"
    and fin: "rw_outcomes w' = rows \<or>
      (\<exists>reply x. outcome_complete (tu_complete_ok t) (tu_complete_clock t) ?sig e reply rows = (x, rw_outcomes w'))"
    using task_reply_effect[OF 2(6)] 2(7,8) by metis
  then have new: "cr = Inr New" using assms(2) by blast
  then obtain k where k: "signature_hash ?sig = Inr k" "rw_runs w' = rw_runs w @ [(k, task_text)]" using c(3) by blast
  have "map_of (rw_outcomes w) k = Some (x, s) \<Longrightarrow> x \<le> int_of_float (tu_claim_clock t)" for x s
    using claim_guarded(4)[OF c(1) assms(3) new k(1), of x "int_of_float (tu_claim_clock t)"] by (auto simp: guarded_def)
  moreover have "\<exists>s. map_of (rw_outcomes w') k = Some (e, s)"
    using fin claim_guarded(3)[OF c(1) assms(3) new k(1)] complete_keeps_own[OF _ k(1)] by metis
  ultimately show ?thesis using 2(1-5) k by blast
qed

section \<open>A task and its answer between two peers\<close>

lemma address_component:
  assumes "address_encode pk = Inr a"
  shows "validate_peer_component a = Inr a"
proof -
  obtain dat where "a = bech_text ''rvn'' (dat @ create_checksum ''rvn'' dat)" "in_range 5 (dat @ create_checksum ''rvn'' dat)"
    by (rule address_text[of pk]) (use assms in auto)
  then obtain cs where a: "a = ''rvn1'' @ cs" "set cs \<subseteq> set CHARSET"
    using charset_text_mem unfolding bech_text_def by fastforce
  have "list_all (\<lambda>c. let n = of_char c :: nat in (48 \<le> n \<and> n \<le> 57) \<or> (97 \<le> n \<and> n \<le> 122)) CHARSET" by code_simp
  then have "list_all (\<lambda>c. let n = of_char c :: nat in (48 \<le> n \<and> n \<le> 57) \<or> (97 \<le> n \<and> n \<le> 122)) cs"
    using a(2) by (auto simp: list_all_iff)
  moreover have "length cs = 40" using address_length_44[OF assms] a(1) by simp
  ultimately show ?thesis by (simp add: validate_peer_component_def a(1))
qed

lemma signed_block_meta [simp]:
  "json_metadata (signed_block (delegation_meta addr recip tid kind i e random sig)) = delegation_meta addr recip tid kind i e random sig"
  "map_of (signed_block (delegation_meta addr recip tid kind i e random sig)) ''signature'' = Some (JStr (b64encode sig))"
  "map_of (signed_block (delegation_meta addr recip tid kind i e random sig)) ''expires_at'' = Some (JInt e)"
  by (simp_all add: delegation_meta_def signed_block_def json_metadata_def str_obj_def int_obj_def json_obj_def json_int_def py_text_def)

text \<open>Ed25519 signatures are not empty.\<close>

definition ed_nonempty :: "crypto \<Rightarrow> bool" where
  "ed_nonempty c \<longleftrightarrow> (\<forall>sk m. ed_sign c sk m \<noteq> Inr [])"

text \<open>Two relays that know each other: one Ed25519, and each key is pinned by the other and not revoked.\<close>

definition peers_with :: "relay_env \<Rightarrow> string \<Rightarrow> relay_env \<Rightarrow> string \<Rightarrow> bool" where
  "peers_with env a env' b \<longleftrightarrow>
     re_crypto env = re_crypto env' \<and> ed_correct (re_crypto env) \<and> ed_nonempty (re_crypto env) \<and>
     identity_address (re_crypto env) (re_identity env) = Inr a \<and>
     identity_address (re_crypto env') (re_identity env') = Inr b \<and>
     (\<exists>hex. public_hex (re_crypto env) (re_identity env) = Inr hex \<and> map_of (re_peers env') a = Some hex) \<and>
     a \<notin> re_revoked env'"

lemma b64encode_nonempty: "sig \<noteq> [] \<Longrightarrow> b64encode sig \<noteq> []"
  by (cases sig rule: b64encode.cases) (simp_all add: Let_def)

lemma signed_envelope_ok:
  assumes peers: "peers_with env a env' b"
    and sign: "sign_delegation (re_crypto env) (re_identity env) clock0 random txt b tid kind None None MAX_DELEGATION_TTL_SECONDS = Inr block"
    and random: "length random = 16"
    and fields: "map_of envelope ''raven'' = Some (JDict (signed_block block))" "map_of envelope ''from'' = Some (JStr a)"
      "map_of envelope ''to'' = Some (JStr b)" "map_of envelope ''id'' = Some (JStr tid)" "map_of envelope ''kind'' = Some (JStr kind)"
      "map_of envelope ''text'' = Some (JStr txt)"
    and tid: "list_all printable tid" "length tid \<le> 128" and short: "\<not> text_too_long txt"
    and times: "int_of_float clock0 \<le> int_of_float clock + 60" "int_of_float clock < int_of_float clock0 + 86400"
  shows "validated_envelope envelope kind = Inr (signed_block block, a, tid, txt) \<and>
    envelope_verdict env' clock kind envelope (signed_block block) a tid txt rc = Inr (True, ''verified '' @ a) \<and>
    json_metadata (signed_block block) = block \<and> field_int block ''expires_at'' = Inr (int_of_float clock0 + 86400) \<and>
    (\<exists>sig. field_str block ''signature'' = b64encode sig \<and> map_of (signed_block block) ''signature'' = Some (JStr (b64encode sig))) \<and>
    map_of (signed_block block) ''expires_at'' = Some (JInt (int_of_float clock0 + 86400))"
proof -
  let ?c = "re_crypto env"
  have p: "re_crypto env' = ?c" "ed_correct ?c" "ed_nonempty ?c" "identity_address ?c (re_identity env) = Inr a"
    "identity_address ?c (re_identity env') = Inr b" "a \<notin> re_revoked env'"
    using peers unfolding peers_with_def by metis+
  obtain hex where hex: "public_hex ?c (re_identity env) = Inr hex" "map_of (re_peers env') a = Some hex"
    using peers by (auto simp: peers_with_def)
  obtain pk pk' where pk: "address_encode pk = Inr a" "address_encode pk' = Inr b"
    using p(4,5) by (auto simp: identity_address_def bindE_eq_Inr)
  obtain i e sig dat pk1 addr where s: "ed_public ?c (id_sk (re_identity env)) = Inr pk1" "address_encode pk1 = Inr addr" "tid \<noteq> []"
    "i = int_of_float clock0" "e = i + MAX_DELEGATION_TTL_SECONDS" "ed_sign ?c (id_sk (re_identity env)) dat = Inr sig"
    "block = delegation_meta addr b tid kind i e random sig"
    using sign_delegation_dest[OF sign] by auto
  have addr: "addr = a" using p(4) s(1,2) by (simp add: identity_address_def public_bytes_def)
  have m: "block = delegation_meta a b tid kind i e random sig" using s(7) addr by simp
  have e: "e = int_of_float clock0 + 86400" using s(4,5) by (simp add: MAX_DELEGATION_TTL_SECONDS_def)
  have "sig \<noteq> []" using p(3) s(6) by (auto simp: ed_nonempty_def)
  then have sig: "b64encode sig \<noteq> []" by (rule b64encode_nonempty)
  have "\<exists>h. signature_hash (b64encode sig) = Inr h"
    using b64encode_ascii[of sig] by (simp add: signature_hash_def ascii_encode_def)
  moreover have "a \<noteq> []" "b \<noteq> []" using address_length_44 pk by fastforce+
  ultimately have val: "validated_envelope envelope kind = Inr (signed_block block, a, tid, txt)"
    using fields tid short sig s(3) address_component pk
    by (auto simp: validated_envelope_def checked_fields_def text_of_def m)
  have "delegation_valid ?c block txt (re_peers env') (re_revoked env') b tid kind (int_of_float clock) e \<and> block \<noteq> []"
    using sign_delegation_valid[OF sign p(2) random p(4) hex(1) hex(2) p(6), of i e] times s(4) e by (simp add: m)
  then have "fst (verify_delegation ?c block txt (re_peers env') True (re_revoked env') b tid kind False clock True 0 rc) =
      Inr (True, ''verified '' @ a)"
    using verify_delegation_accepts[of ?c block "txt" "re_peers env'" "re_revoked env'" b tid kind clock e True False True 0 rc]
    by (simp add: m)
  then have "envelope_verdict env' clock kind envelope (signed_block block) a tid txt rc = Inr (True, ''verified '' @ a)"
    using p fields by (simp add: envelope_verdict_def text_of_def m)
  then show ?thesis using val by (auto simp: m e)
qed

lemma claim_new:
  assumes "signature_hash sig = Inr k" "map_of rows k = None" "length rows < MAX_RELAY_OUTCOMES" "fits_sqlite e"
  shows "outcome_claim True clock sig e rows = (Inr New, filter (\<lambda>(_, e, _). \<not> e \<le> int_of_float clock) rows @ [(k, e, Processing)])"
proof -
  have "map_of (filter P rows) k = None" for P using assms(2) by (auto simp: map_of_eq_None_iff)
  moreover have "length (filter P rows) < MAX_RELAY_OUTCOMES" for P
    using assms(3) length_filter_le[of P rows] by linarith
  ultimately show ?thesis using assms(1,4) by (simp add: outcome_claim_def Let_def not_le[symmetric])
qed

lemma complete_processing:
  assumes "signature_hash sig = Inr k" "map_of rows k \<noteq> None" "fits_sqlite e"
    "length (utf8 (json_dumps_compact (JDict reply))) \<le> MAX_RELAY_ENVELOPE_BYTES"
  shows "\<exists>rows'. outcome_complete True clock sig e reply rows = (Inr (), rows')"
proof -
  let ?live = "filter (\<lambda>(k', e, _). \<not> (e \<le> int_of_float clock \<and> k' \<noteq> k)) rows"
  obtain v where "(k, v) \<in> set rows" using assms(2) by (auto dest: map_of_SomeD)
  then have "(k, v) \<in> set ?live" by (cases v) auto
  then have "map_of ?live k \<noteq> None" by (auto simp: map_of_eq_None_iff intro: rev_image_eqI)
  then show ?thesis using assms(1,3,4) by (simp add: outcome_complete_def Let_def)
qed

definition reply_fits :: "jdict \<Rightarrow> bool" where
  "reply_fits reply \<longleftrightarrow> length (utf8 (json_dumps_compact (JDict reply))) \<le> MAX_RELAY_ENVELOPE_BYTES \<and>
     length (envelope_bytes reply) \<le> MAX_RELAY_ENVELOPE_BYTES"

definition task_envelope :: "string \<Rightarrow> string \<Rightarrow> string \<Rightarrow> string \<Rightarrow> metadata \<Rightarrow> string \<Rightarrow> jdict" where
  "task_envelope task_id a b task_text block stamp =
     [(''id'', JStr task_id), (''kind'', JStr ''task''), (''from'', JStr a), (''to'', JStr b), (''text'', JStr task_text),
      (''raven'', JDict (signed_block block)), (''at'', JStr stamp)]"

lemma send_task_dest:
  assumes "send_task env clock random uuid stamp fstamp True True True b task_text w = (Inr path, w')"
    and "identity_address (re_crypto env) (re_identity env) = Inr a"
  obtains block where "sign_delegation (re_crypto env) (re_identity env) clock random task_text b (take 12 uuid) ''task'' None None
      MAX_DELEGATION_TTL_SECONDS = Inr block" "\<not> text_too_long task_text"
    "map_of (rw_sent w') path = Some (task_envelope (take 12 uuid) a b task_text block stamp)" "rw_cache w' = rw_cache w"
proof (cases "sign_delegation (re_crypto env) (re_identity env) clock random task_text b (take 12 uuid) ''task'' None None
      MAX_DELEGATION_TTL_SECONDS")
  case (Inl e)
  then have False using assms by (auto simp: send_task_def Let_def push_def bindE_def split: sum.splits if_splits)
  then show thesis ..
next
  case (Inr block)
  let ?E = "task_envelope (take 12 uuid) a b task_text block stamp"
  have "\<not> text_too_long task_text" "path = (b, fstamp @ ''-'' @ take 12 uuid @ ''.json'')" "w' = w\<lparr>rw_sent := AList.update path ?E (rw_sent w)\<rparr>"
    using assms Inr by (auto simp: send_task_def Let_def push_def task_envelope_def bindE_def split: sum.splits if_splits)
  then show thesis using that[OF Inr] by (simp add: update_conv')
qed

lemma task_envelope_fields [simp]:
  "map_of (task_envelope tid a b txt block stamp) ''raven'' = Some (JDict (signed_block block))"
  "map_of (task_envelope tid a b txt block stamp) ''from'' = Some (JStr a)"
  "map_of (task_envelope tid a b txt block stamp) ''to'' = Some (JStr b)"
  "map_of (task_envelope tid a b txt block stamp) ''id'' = Some (JStr tid)"
  "map_of (task_envelope tid a b txt block stamp) ''kind'' = Some (JStr ''task'')"
  "map_of (task_envelope tid a b txt block stamp) ''text'' = Some (JStr txt)"
  "parse_error (task_envelope tid a b txt block stamp) = None"
  by (simp_all add: task_envelope_def parse_error_def)

lemma build_reply_dest:
  assumes "build_reply c identity clock random stamp tid a answer = Inr reply" "identity_address c identity = Inr b"
  obtains block where "sign_delegation c identity clock random (bounded_answer_text answer) a tid ''answer'' None None
      MAX_DELEGATION_TTL_SECONDS = Inr block"
    "map_of reply ''raven'' = Some (JDict (signed_block block))" "map_of reply ''from'' = Some (JStr b)"
    "map_of reply ''to'' = Some (JStr a)" "map_of reply ''id'' = Some (JStr tid)" "map_of reply ''kind'' = Some (JStr ''answer'')"
    "map_of reply ''text'' = Some (JStr (bounded_answer_text answer))" "parse_error reply = None"
  using assms by (auto simp: build_reply_def Let_def bindE_eq_Inr parse_error_def)

lemma bounded_not_too_long: "\<not> text_too_long (bounded_answer_text answer)"
proof -
  have "length (utf8 (bounded_answer_text answer)) \<le> MAX_RELAY_ANSWER_BYTES" by (rule bounded_answer_length)
  moreover have "length (bounded_answer_text answer) \<le> length (utf8 (bounded_answer_text answer))" by (rule length_le_utf8)
  ultimately show ?thesis
    by (simp add: text_too_long_def MAX_RELAY_ANSWER_BYTES_def MAX_RELAY_TEXT_CHARS_def MAX_RELAY_TEXT_BYTES_def)
qed

lemma process_valid_task:
  assumes valid: "parse_error envelope = None" "validated_envelope envelope ''task'' = Inr (meta, sender, tid, txt)"
      "envelope_verdict env (tu_verify_clock t) ''task'' envelope meta sender tid txt (rw_cache w) = Inr (True, reason)"
      "field_int (json_metadata meta) ''expires_at'' = Inr e" "field_str (json_metadata meta) ''signature'' = sig"
    and table: "signature_hash sig = Inr k" "map_of (rw_outcomes w) k = None" "length (rw_outcomes w) < MAX_RELAY_OUTCOMES"
      "fits_sqlite e" "tu_claim_ok t" "tu_complete_ok t" "tu_write_ok t"
    and answer: "build_reply (re_crypto env) (re_identity env) (tu_sign_clock t) (tu_random t) (tu_stamp t) tid sender (brain txt) = Inr reply"
      "reply_fits reply"
  shows "\<exists>w'. process_task env t brain (f, envelope) w = (Inr Answered, w') \<and> rw_runs w' = rw_runs w @ [(k, txt)] \<and>
    map_of (rw_outbox w') (sender, reply_filename tid) = Some reply"
proof -
  define rows where "rows = filter (\<lambda>(_, e, _). \<not> e \<le> int_of_float (tu_claim_clock t)) (rw_outcomes w) @ [(k, e, Processing)]"
  have claim: "outcome_claim True (tu_claim_clock t) sig e (rw_outcomes w) = (Inr New, rows)"
    unfolding rows_def using table(1-4) by (rule claim_new)
  have "map_of rows k \<noteq> None" by (auto simp: rows_def map_of_eq_None_iff)
  then obtain rows' where comp: "outcome_complete True (tu_complete_clock t) sig e reply rows = (Inr (), rows')"
    using complete_processing[OF table(1) _ table(4)] answer(2) unfolding reply_fits_def by blast
  have "task_reply env t brain sender tid txt sig e w =
      (Inr reply, w\<lparr>rw_outcomes := rows', rw_runs := rw_runs w @ [(k, txt)]\<rparr>)"
    by (simp add: task_reply_def claim table(1,5,6) answer_task_def answer(1) comp)
  moreover have "write_envelope (tu_write_ok t) reply = Inr ()"
    using answer(2) table(7) by (simp add: write_envelope_def reply_fits_def)
  ultimately show ?thesis using valid by (simp add: process_task_def update_conv' unlink_def)
qed

text \<open>
  C7: A task one peer sends to another is run there with the very text, and the answer that this turn
  writes to the outbox of the sender verifies at the sender: it is accepted with the bounded text of
  what the agent said, and accepting changes nothing. This is a claim about turns in which nothing fails
  and no limit is met. Supposed are: the peers pin each other's keys, neither is revoked at the other, and
  their Ed25519 verifies what it signs; the sending went through, with random values of 16 bytes and a
  printable task id; each envelope is checked at most 60 seconds before its time of issue by the
  other clock and before its 24 hours are over; the table of outcomes has room and no row for the task's
  signature, takes both transactions and can hold the expiry; the reply is built and its JSON is
  within the byte limits, and its file is written; and the sender's replay cache is readable and has
  no live row for the signature of this reply.
\<close>

theorem relay_round_trip:
  assumes peers: "peers_with ea a eb b" "peers_with eb b ea a"
    and sent: "send_task ea clock0 random uuid stamp fstamp True True True b txt wa = (Inr path, wa')"
      "map_of (rw_sent wa') path = Some envelope" "length random = 16" "list_all printable (take 12 uuid)"
    and task_time: "int_of_float clock0 \<le> int_of_float (tu_verify_clock t) + 60"
      "int_of_float (tu_verify_clock t) < int_of_float clock0 + 86400"
    and table: "tu_claim_ok t" "tu_complete_ok t" "tu_write_ok t" "length (rw_outcomes wb) < MAX_RELAY_OUTCOMES"
      "fits_sqlite (int_of_float clock0 + 86400)"
      "\<And>k. step_key (eb, t, brain, f, envelope) = Inr k \<Longrightarrow> map_of (rw_outcomes wb) k = None"
    and answer: "build_reply (re_crypto eb) (re_identity eb) (tu_sign_clock t) (tu_random t) (tu_stamp t) (take 12 uuid) a (brain txt) = Inr reply"
      "reply_fits reply" "length (tu_random t) = 16"
    and reply_time: "int_of_float (tu_sign_clock t) \<le> int_of_float (ct_verify_clock t') + 60"
      "int_of_float (ct_verify_clock t') < int_of_float (tu_sign_clock t) + 86400"
    and unseen: "\<And>meta. map_of reply ''raven'' = Some (JDict meta) \<Longrightarrow>
      cache_seen (ct_seen_ok t') (ct_seen_clock t') (field_str (json_metadata meta) ''signature'') (rw_cache wc) = Inr False"
  shows "\<exists>wb' k. process_task eb t brain (f, envelope) wb = (Inr Answered, wb') \<and>
    rw_runs wb' = rw_runs wb @ [(k, txt)] \<and>
    map_of (rw_outbox wb') (a, reply_filename (take 12 uuid)) = Some reply \<and>
    map_of reply ''text'' = Some (JStr (bounded_answer_text (brain txt))) \<and>
    take_reply ea t' (g, reply) wc = (Inr Accepted, wc)"
proof -
  let ?tid = "take 12 uuid"
  have ia: "identity_address (re_crypto ea) (re_identity ea) = Inr a" "identity_address (re_crypto eb) (re_identity eb) = Inr b"
    using peers unfolding peers_with_def by metis+
  obtain block where block: "sign_delegation (re_crypto ea) (re_identity ea) clock0 random txt b ?tid ''task'' None None
      MAX_DELEGATION_TTL_SECONDS = Inr block" "\<not> text_too_long txt"
    and env: "envelope = task_envelope ?tid a b txt block stamp" and cache: "rw_cache wa' = rw_cache wa"
    using send_task_dest[OF sent(1) ia(1)] sent(2) by (metis option.inject)
  have len: "length ?tid \<le> 128" by simp
  note ok = signed_envelope_ok[OF peers(1) block(1) sent(3) task_envelope_fields(1-6) sent(4) len block(2) task_time, folded env]
  from ok obtain sig where sig: "field_str block ''signature'' = b64encode sig" by blast
  obtain k where k: "signature_hash (b64encode sig) = Inr k"
    using b64encode_ascii[of sig] by (auto simp: signature_hash_def ascii_encode_def)
  have "step_key (eb, t, brain, f, envelope) = Inr k"
    using ok sig k by (simp add: step_key_def step_meta_def env)
  then have new: "map_of (rw_outcomes wb) k = None" using table(6) by blast
  have task: "\<exists>wb'. process_task eb t brain (f, envelope) wb = (Inr Answered, wb') \<and> rw_runs wb' = rw_runs wb @ [(k, txt)] \<and>
      map_of (rw_outbox wb') (a, reply_filename ?tid) = Some reply"
    by (rule process_valid_task[where meta = "signed_block block" and e = "int_of_float clock0 + 86400" and sig = "b64encode sig"])
      (use ok sig k new table answer in \<open>simp_all add: env\<close>)
  obtain rblock where rb: "sign_delegation (re_crypto eb) (re_identity eb) (tu_sign_clock t) (tu_random t)
        (bounded_answer_text (brain txt)) a ?tid ''answer'' None None MAX_DELEGATION_TTL_SECONDS = Inr rblock"
    and r: "map_of reply ''raven'' = Some (JDict (signed_block rblock))" "map_of reply ''from'' = Some (JStr b)"
      "map_of reply ''to'' = Some (JStr a)" "map_of reply ''id'' = Some (JStr ?tid)" "map_of reply ''kind'' = Some (JStr ''answer'')"
      "map_of reply ''text'' = Some (JStr (bounded_answer_text (brain txt)))" "parse_error reply = None"
    by (rule build_reply_dest[OF answer(1) ia(2)])
  note rok = signed_envelope_ok[OF peers(2) rb answer(3) r(1-6) sent(4) len bounded_not_too_long reply_time]
  have "take_reply ea t' (g, reply) wc = (Inr Accepted, wc)"
    using rok[of "rw_cache wc"] unseen[OF r(1)] r(7) by (simp add: take_reply_def)
  then show ?thesis using task r(6) by blast
qed

section \<open>Acknowledged replies\<close>

lemma acked_holds:
  assumes "ack_reply t ((f, reply), True) w = (Inr (), w')" "cache_ok (rw_cache w)"
    and "map_of reply ''raven'' = Some (JDict meta)" "field_str (json_metadata meta) ''signature'' = sig"
    and "field_int (json_metadata meta) ''expires_at'' = Inr e"
  obtains k x where "signature_key sig = Inr k" "cache_ok (rw_cache w')" "holds k x (rw_cache w')"
    "x = e \<or> map_of (rc_rows (rw_cache w)) k = Some x"
proof -
  obtain fresh rc where m: "map_of meta ''signature'' = Some (JStr sig)"
    and f: "first_time (ak_db_ok t) (ak_clock t) sig (Some e) (rw_cache w) = (Inr fresh, rc)" and w': "rw_cache w' = rc"
    and s: "\<not> fresh \<Longrightarrow> cache_seen (ak_seen_ok t) (ak_seen_clock t) sig rc = Inr True"
  proof -
    obtain sg ex where g: "text_of (map_of meta ''signature'') = Some sg" "int_instance (map_of meta ''expires_at'') = Some ex"
      using assms(1,3) by (auto simp: ack_reply_def split: option.splits)
    have "map_of meta ''signature'' = Some (JStr sig)" "sg = sig"
      using g(1) assms(4) by (auto simp: text_of_def field_str_def map_of_json_metadata str_obj_def split: option.splits jval.splits)
    moreover have "ex = e"
      using g(2) assms(5) by (auto simp: int_instance_def field_int_def map_of_json_metadata json_obj_def json_int_def split: option.splits jval.splits)
    ultimately show thesis using that assms(1,3) g
      by (auto simp: ack_reply_def Let_def split: sum.splits if_splits prod.splits)
  qed
  obtain k where k: "signature_key sig = Inr k" using f by (auto simp: first_time_def split: sum.splits)
  have d: "rc_durable (rw_cache w)" using assms(2) by (simp add: cache_ok_def)
  show thesis
  proof (cases fresh)
    case True
    with f have fr: "first_time (ak_db_ok t) (ak_clock t) sig (Some e) (rw_cache w) = (Inr True, rc)" by simp
    show thesis using accepted_rows(1,2)[OF assms(2) fr k] by (intro that[OF k, of e]) (simp_all add: w')
  next
    case False
    have same: "rc = rw_cache w" using first_time_refused[OF d f] False by simp
    then obtain x where "map_of (rc_rows (rw_cache w)) k = Some x"
      using s[OF False] k d by (auto simp: cache_seen_def split: if_splits option.splits)
    then show thesis using that[OF k, of x] assms(2) w' same by (simp add: holds_def)
  qed
qed

lemma cache_calls_hold:
  assumes "cache_ok rc" "holds k e rc" "list_all (\<lambda>(_, now, _, _). int_of_float now < e) calls"
  shows "cache_ok (fold cache_step calls rc) \<and> holds k e (fold cache_step calls rc)"
  using assms
proof (induction calls arbitrary: rc)
  case (Cons call calls)
  then show ?case using cache_step_ok[of rc call] cache_step_holds[of rc k e call] by (auto split: prod.splits)
qed simp

text \<open>
  C15: Acknowledging a reply leaves a row for its signature in the durable replay cache: with the
  expiry of the reply, unless the cache already had a row for this signature. While that row is unexpired
  no poll accepts the reply again, whatever the cache is offered in between with clock readings up to that
  of the poll's look-up: it is removed as acknowledged, refused, or the poll raises. A poll reads the
  clock twice, when it verifies and when it looks up, and this is the one way left: a copy is accepted
  again only when the verification falls before the expiry of the reply and the look-up no earlier than that
  of the row.
\<close>

theorem acknowledged_not_redelivered:
  assumes "ack_reply t ((f, reply), True) w = (Inr (), w')" "cache_ok (rw_cache w)"
    and "map_of reply ''raven'' = Some (JDict meta)" "field_str (json_metadata meta) ''signature'' = sig"
    and "field_int (json_metadata meta) ''expires_at'' = Inr e"
    and "rw_cache later = fold cache_step calls (rw_cache w')"
    and "list_all (\<lambda>(_, now, _, _). int_of_float now \<le> int_of_float (ct_seen_clock t')) calls"
  shows "\<exists>k x. signature_key sig = Inr k \<and> map_of (rc_rows (rw_cache w')) k = Some x \<and>
    (x = e \<or> map_of (rc_rows (rw_cache w)) k = Some x) \<and>
    (fst (take_reply env t' (g, reply) later) = Inr Accepted \<longrightarrow>
       int_of_float (ct_verify_clock t') < e \<and> x \<le> int_of_float (ct_seen_clock t'))"
proof -
  obtain k x where k: "signature_key sig = Inr k" "cache_ok (rw_cache w')" "holds k x (rw_cache w')"
    "x = e \<or> map_of (rc_rows (rw_cache w)) k = Some x"
    by (rule acked_holds[OF assms(1-5)])
  have "int_of_float (ct_verify_clock t') < e \<and> x \<le> int_of_float (ct_seen_clock t')"
    if a: "fst (take_reply env t' (g, reply) later) = Inr Accepted"
  proof -
    obtain m sender tid body reason where v: "validated_envelope reply ''answer'' = Inr (m, sender, tid, body)"
      "envelope_verdict env (ct_verify_clock t') ''answer'' reply m sender tid body (rw_cache later) = Inr (True, reason)"
      and seen: "cache_seen (ct_seen_ok t') (ct_seen_clock t') (field_str (json_metadata m) ''signature'') (rw_cache later) = Inr False"
      using a by (auto simp: take_reply_def Let_def split: option.splits sum.splits if_splits prod.splits)
    have m: "m = meta" using validated_meta[OF v(1)] assms(3) by simp
    have "int_of_float (ct_verify_clock t') < e"
      using verdict_ok[OF v(2)] assms(5) by (auto simp: m delegation_valid_def)
    moreover have "x \<le> int_of_float (ct_seen_clock t')"
    proof (rule ccontr)
      assume "\<not> x \<le> int_of_float (ct_seen_clock t')"
      then have now: "int_of_float (ct_seen_clock t') < x" by simp
      then have "list_all (\<lambda>(_, now, _, _). int_of_float now < x) calls" using assms(7) by (auto simp: list_all_iff)
      from cache_calls_hold[OF k(2,3) this] have "cache_ok (rw_cache later)" "holds k x (rw_cache later)"
        by (simp_all add: assms(6))
      then show False using seen k(1) now assms(4) by (simp add: m cache_seen_def cache_ok_def holds_def split: if_splits)
    qed
    ultimately show ?thesis by simp
  qed
  with k(1,3,4) show ?thesis unfolding holds_def by blast
qed

section \<open>Answers that cannot be stored\<close>

lemma json_string_controls: "length (json_string (replicate n (char_of (1 :: nat)))) = 6 * n + 2"
proof -
  have "length (json_escape (char_of (1 :: nat))) = 6" by code_simp
  then have "length (concat (map json_escape (replicate n (char_of (1 :: nat))))) = 6 * n"
    by (induction n) simp_all
  then show ?thesis by (simp add: json_string_def)
qed

lemma utf8_controls: "length (utf8 (replicate n (char_of (1 :: nat)))) = n"
proof -
  have "utf8_char (char_of (1 :: nat)) = [1]" by code_simp
  then show ?thesis by (induction n) (simp_all add: utf8_Cons, simp add: utf8_def)
qed

lemma compact_text_size: "map_of d k = Some (JStr s) \<Longrightarrow> length (json_string s) \<le> length (json_dumps_compact (JDict d))"
proof -
  assume "map_of d k = Some (JStr s)"
  then have i: "json_string k @ '':'' @ json_string s \<in>
      set (map (\<lambda>(k, v). json_string k @ '':'' @ json_text None '','' '':'' (Suc 0) v) d)"
    by (auto simp: image_iff dest!: map_of_SomeD) force
  have j: "x \<in> set xs \<Longrightarrow> length x \<le> length (join_with sep xs)" for x :: string and xs sep
    by (induction sep xs rule: join_with.induct) auto
  from j[OF i, of "'',''"] show ?thesis
    using i by (auto simp: json_dumps_compact_def bracketed_def line_pad_def)
qed

definition control_answer :: string where
  "control_answer = replicate 49152 (char_of (1 :: nat))"

text \<open>
  C39: The limit on answers does not bound what is stored: an answer of 48 KiB of control characters is
  signed unchanged, yet its JSON text exceeds the limit of the table, so the outcome of a task that
  has run cannot be recorded and the turn raises.
\<close>

theorem control_answer_not_stored:
  assumes "build_reply c identity clock random stamp task_id sender control_answer = Inr reply"
  shows "map_of reply ''text'' = Some (JStr control_answer) \<and>
    outcome_complete db_ok clock' sig e reply rows =
      (Inl (ValueError ''cached relay outcome exceeds the compiled byte limit''), rows)"
proof -
  have "length control_answer = 49152" by (simp add: control_answer_def)
  moreover have "length (utf8 control_answer) = 49152" unfolding control_answer_def by (rule utf8_controls)
  ultimately have "bounded_answer_text control_answer = control_answer"
    by (intro bounded_answer_fits) (simp_all add: MAX_RELAY_TEXT_CHARS_def MAX_RELAY_ANSWER_BYTES_def)
  then have t: "map_of reply ''text'' = Some (JStr control_answer)"
    using assms by (auto simp: build_reply_def Let_def bindE_eq_Inr)
  have "MAX_RELAY_ENVELOPE_BYTES < length (json_string control_answer)"
    unfolding control_answer_def json_string_controls by (simp add: MAX_RELAY_ENVELOPE_BYTES_def)
  also have "\<dots> \<le> length (utf8 (json_dumps_compact (JDict reply)))"
    using compact_text_size[OF t] length_le_utf8 by (rule order_trans)
  finally show ?thesis using t by (simp add: outcome_complete_def)
qed

section \<open>Examples\<close>

text \<open>
  One relay that trusts its own address: it sends itself a task, processes it and takes the answer.
\<close>

definition ex_addr :: string where
  "ex_addr = (case address_encode (zeros 32) of Inr a \<Rightarrow> a | Inl _ \<Rightarrow> [])"

definition ex_env :: relay_env where
  "ex_env = \<lparr>re_crypto = ex_id_crypto, re_identity = ex_identity, re_peers = [(ex_addr, bytes_hex (zeros 32))], re_revoked = {}\<rparr>"

definition ex_turn :: turn where
  "ex_turn = \<lparr>tu_verify_clock = 100, tu_claim_clock = 100, tu_sign_clock = 100, tu_complete_clock = 100, tu_random = zeros 16,
     tu_stamp = ''now'', tu_uuid = ''u'', tu_claim_ok = True, tu_complete_ok = True, tu_write_ok = True\<rparr>"

definition ex_world :: relay_world where
  "ex_world = \<lparr>rw_outcomes = [], rw_cache = ex_cache, rw_inbox = [], rw_replies = [], rw_outbox = [], rw_sent = [],
     rw_quarantine = [], rw_runs = []\<rparr>"

definition ex_file :: disk_file where
  "ex_file = \<lparr>dl_name = ''t.json'', dl_lstat = None, dl_opened = None\<rparr>"

definition ex_check :: check_turn where
  "ex_check = \<lparr>ct_verify_clock = 100, ct_seen_clock = 100, ct_seen_ok = True, ct_uuid = ''u''\<rparr>"

definition ex_ack_turn :: ack_turn where
  "ex_ack_turn = \<lparr>ak_clock = 100, ak_db_ok = True, ak_seen_clock = 100, ak_seen_ok = True\<rparr>"

lemma ex_addr: "address_encode (zeros 32) = Inr ex_addr"
  using address_text[of "zeros 32"] by (metis ex_addr_def sum.simps(6))

lemma int_100: "int_of_float 100 = 100"
  by (simp add: int_of_float_def)

lemma ex_env_simps [simp]:
  "re_crypto ex_env = ex_id_crypto" "re_identity ex_env = ex_identity"
  "identity_address ex_id_crypto ex_identity = Inr ex_addr"
  by (simp_all add: ex_env_def identity_address_def public_bytes_def ex_id_crypto_def ex_identity_def ex_addr)

lemma ex_peers: "peers_with ex_env ex_addr ex_env ex_addr"
proof -
  have "sha3_512 x \<noteq> []" for x using length_sha3_512[of x] by (metis list.size(3) zero_neq_numeral)
  then have "ed_nonempty ex_id_crypto" by (simp add: ed_nonempty_def ex_id_crypto_def)
  moreover have "public_hex ex_id_crypto ex_identity = Inr (bytes_hex (zeros 32))"
    by (simp add: public_hex_def public_bytes_def ex_id_crypto_def ex_identity_def)
  ultimately show ?thesis using ex_ed_correct
    by (simp add: peers_with_def) (simp add: ex_env_def)
qed

lemma ex_sign:
  assumes "length tid \<le> 1000" "tid \<noteq> []" "kind = ''task'' \<or> kind = ''answer''"
  obtains sig where "sign_delegation ex_id_crypto ex_identity 100 (zeros 16) body ex_addr tid kind None None MAX_DELEGATION_TTL_SECONDS =
    Inr (delegation_meta ex_addr ex_addr tid kind 100 86500 (zeros 16) sig)" "length sig = 64"
proof -
  have len: "length ex_addr = 44" by (rule address_length_44[OF ex_addr])
  have v: "validate_address_public_key ex_addr (bytes_hex (zeros 32)) = Inr (zeros 32)"
    using ex_addr address_ascii[OF ex_addr] by (simp add: validate_key_iff)
  have hex: "public_hex ex_id_crypto ex_identity = Inr (bytes_hex (zeros 32))"
    by (simp add: public_hex_def public_bytes_def ex_id_crypto_def ex_identity_def)
  have "length (utf8 ex_addr) \<le> 65535" "length (utf8 tid) \<le> 65535"
    using length_utf8[of ex_addr] length_utf8[of tid] len assms(1) by simp_all
  moreover have "ascii_encode (py_str 86500) = Inr (asc (py_str 86500))" "length (py_str 86500) = 5"
    by (simp_all add: py_str_def dec_nat.simps ascii_encode_def)
  moreover have "ascii_encode kind = Inr (asc kind)" "length kind \<le> 6" using assms(3) by (auto simp: ascii_encode_def)
  ultimately obtain m where m: "delegation_signing_bytes ex_addr ex_addr tid kind 100 86500 body (bytes_hex (zeros 16)) = Inr m"
    by (simp add: delegation_signing_bytes_def Let_def lp_ok SIGNING_CONTEXT_def)
  let ?sig = "sha3_512 (zeros 32 @ m)"
  have "identity_sign ex_id_crypto ex_identity m = Inr ?sig"
    by (simp add: identity_sign_def ex_id_crypto_def ex_identity_def)
  then have "sign_delegation ex_id_crypto ex_identity 100 (zeros 16) body ex_addr tid kind None None MAX_DELEGATION_TTL_SECONDS =
      Inr (delegation_meta ex_addr ex_addr tid kind 100 86500 (zeros 16) ?sig)"
    using v hex m len assms(2,3) by (auto simp: sign_delegation_def Let_def MAX_DELEGATION_TTL_SECONDS_def delegation_meta_def int_100)
  from that[OF this] show thesis by simp
qed

lemma length_b64_le: "length (b64encode bs) \<le> 2 * length bs + 4"
  by (induction bs rule: b64encode.induct) (simp_all add: Let_def)

lemma ex_meta_bound:
  assumes "length sig = 64" "length tid \<le> 1000" "kind = ''task'' \<or> kind = ''answer''"
  shows "json_bound (Suc 0) (JDict (signed_block (delegation_meta ex_addr ex_addr tid kind 100 86500 (zeros 16) sig))) \<le> 20000"
proof -
  have "length ex_addr = 44" by (rule address_length_44[OF ex_addr])
  moreover have "length (py_str 86500) = 5" by (simp add: py_str_def dec_nat.simps)
  moreover have "length (b64encode sig) \<le> 132" using length_b64_le[of sig] assms(1) by simp
  moreover have "length kind \<le> 6" using assms(3) by auto
  ultimately show ?thesis using assms(2)
    by (simp add: delegation_meta_def signed_block_def str_obj_def int_obj_def SIGNING_CONTEXT_def eval_nat_numeral(3)[symmetric])
qed

lemma small_reply_fits: "json_bound 0 (JDict d) \<le> 100000 \<Longrightarrow> reply_fits d"
proof -
  assume b: "json_bound 0 (JDict d) \<le> 100000"
  have "length (utf8 (json_dumps_compact (JDict d))) \<le> 200000"
    using length_utf8[of "json_dumps_compact (JDict d)"] json_dumps_bound(1)[of "JDict d"] b by linarith
  moreover have "length (envelope_bytes d) \<le> 200002"
    using length_utf8[of "json_dumps_indent 2 (JDict d) @ newline"] json_dumps_bound(2)[of "JDict d"] b
    by (simp add: envelope_bytes_def newline_def)
  ultimately show ?thesis by (simp add: reply_fits_def MAX_RELAY_ENVELOPE_BYTES_def)
qed

lemma ex_block:
  assumes "kind = ''task'' \<or> kind = ''answer''"
  obtains block where "sign_delegation ex_id_crypto ex_identity 100 (zeros 16) body ex_addr ''abc'' kind None None
      MAX_DELEGATION_TTL_SECONDS = Inr block" "json_bound (Suc 0) (JDict (signed_block block)) \<le> 20000"
proof -
  obtain sig where "sign_delegation ex_id_crypto ex_identity 100 (zeros 16) body ex_addr ''abc'' kind None None MAX_DELEGATION_TTL_SECONDS =
      Inr (delegation_meta ex_addr ex_addr ''abc'' kind 100 86500 (zeros 16) sig)" "length sig = 64"
    by (rule ex_sign[of "''abc''" kind body]) (use assms in simp_all)
  then show thesis using that ex_meta_bound[of sig "''abc''" kind] assms by simp
qed

lemma ex_sent:
  obtains path w' envelope where
    "send_task ex_env 100 (zeros 16) ''abc'' ''now'' ''f'' True True True ex_addr ''hi'' ex_world = (Inr path, w')"
    "map_of (rw_sent w') path = Some envelope" "rw_cache w' = ex_cache"
proof -
  obtain block where block: "sign_delegation ex_id_crypto ex_identity 100 (zeros 16) ''hi'' ex_addr ''abc'' ''task'' None None
      MAX_DELEGATION_TTL_SECONDS = Inr block" "json_bound (Suc 0) (JDict (signed_block block)) \<le> 20000"
    by (rule ex_block[of "''task''" "''hi''"]) simp_all
  let ?E = "task_envelope ''abc'' ex_addr ex_addr ''hi'' block ''now''"
  have "length ex_addr = 44" by (rule address_length_44[OF ex_addr])
  then have "json_bound 0 (JDict ?E) \<le> 100000" using block(2) 
    by (subst json_bound.simps(5)) (simp add: task_envelope_def del: json_bound.simps(5))
  from small_reply_fits[OF this] have "write_envelope True ?E = Inr ()" by (simp add: write_envelope_def reply_fits_def)
  moreover have "\<not> text_too_long ''hi''"
    using length_utf8[of "''hi''"] by (simp add: text_too_long_def MAX_RELAY_TEXT_CHARS_def MAX_RELAY_TEXT_BYTES_def)
  ultimately have "send_task ex_env 100 (zeros 16) ''abc'' ''now'' ''f'' True True True ex_addr ''hi'' ex_world =
      (Inr (ex_addr, ''f-abc.json''), ex_world\<lparr>rw_sent := AList.update (ex_addr, ''f-abc.json'') ?E (rw_sent ex_world)\<rparr>)"
    using block(1) address_component[OF ex_addr] by (simp add: send_task_def push_def Let_def task_envelope_def[symmetric])
  then show thesis using that by (simp add: ex_world_def)
qed

lemma ex_reply:
  obtains reply where "build_reply ex_id_crypto ex_identity 100 (zeros 16) ''now'' ''abc'' ex_addr ''ok'' = Inr reply" "reply_fits reply"
proof -
  obtain block where block: "sign_delegation ex_id_crypto ex_identity 100 (zeros 16) ''ok'' ex_addr ''abc'' ''answer'' None None
      MAX_DELEGATION_TTL_SECONDS = Inr block" "json_bound (Suc 0) (JDict (signed_block block)) \<le> 20000"
    by (rule ex_block[of "''answer''" "''ok''"]) simp_all
  have "bounded_answer_text ''ok'' = ''ok''"
    using length_utf8[of "''ok''"] by (intro bounded_answer_fits) (simp_all add: MAX_RELAY_TEXT_CHARS_def MAX_RELAY_ANSWER_BYTES_def)
  moreover have "length ex_addr = 44" by (rule address_length_44[OF ex_addr])
  ultimately show thesis using block
    by (intro that[of "[(''id'', JStr ''abc''), (''kind'', JStr ''answer''), (''from'', JStr ex_addr), (''to'', JStr ex_addr),
           (''text'', JStr ''ok''), (''at'', JStr ''now''), (''raven'', JDict (signed_block block))]"])
      (simp add: build_reply_def, rule small_reply_fits, subst json_bound.simps(5), simp del: json_bound.simps(5))
qed

lemma ex_key: "step_key st = Inr k \<Longrightarrow> map_of (rw_outcomes ex_world) k = None"
  by (simp add: ex_world_def)

lemma reply_signature_text:
  assumes "build_reply c identity clock random stamp tid a answer = Inr reply" "map_of reply ''raven'' = Some (JDict meta)"
  shows "\<exists>sig. field_str (json_metadata meta) ''signature'' = b64encode sig"
proof -
  from assms(1) obtain block where "sign_delegation c identity clock random (bounded_answer_text answer) a tid ''answer'' None None
      MAX_DELEGATION_TTL_SECONDS = Inr block" "map_of reply ''raven'' = Some (JDict (signed_block block))"
    by (auto simp: build_reply_def Let_def bindE_eq_Inr)
  then obtain addr k i e sig where "meta = signed_block (delegation_meta addr a tid k i e random sig)"
    using assms(2) by (auto dest!: sign_delegation_dest)
  moreover have "field_str (delegation_meta addr a tid k i e random sig) ''signature'' = b64encode sig"
    by (simp add: delegation_meta_def field_str_def str_obj_def)
  ultimately have "field_str (json_metadata meta) ''signature'' = b64encode sig" by simp
  then show ?thesis by blast
qed

lemma ex_seen: "cache_seen (ct_seen_ok ex_check) (ct_seen_clock ex_check) (b64encode sig) ex_cache = Inr False"
  using b64encode_ascii[of sig]
  by (simp add: ex_check_def ex_cache_def cache_seen_def signature_key_def ascii_encode_def)

lemma ex_times: "int_of_float (tu_verify_clock ex_turn) = 100" "int_of_float (tu_claim_clock ex_turn) = 100"
  "int_of_float (tu_complete_clock ex_turn) = 100" "int_of_float (tu_sign_clock ex_turn) = 100"
  "int_of_float (ct_verify_clock ex_check) = 100" "int_of_float (ct_seen_clock ex_check) = 100"
  by (simp_all add: ex_turn_def ex_check_def int_100)

theorem relay_round_trip_witness:
  "\<exists>envelope reply wb k wa. process_task ex_env ex_turn (\<lambda>_. ''ok'') (ex_file, envelope) ex_world = (Inr Answered, wb) \<and>
     rw_runs wb = [(k, ''hi'')] \<and> map_of (rw_outbox wb) (ex_addr, reply_filename ''abc'') = Some reply \<and>
     take_reply ex_env ex_check (ex_file, reply) wa = (Inr Accepted, wa)"
proof -
  obtain path wa envelope where sent:
    "send_task ex_env 100 (zeros 16) ''abc'' ''now'' ''f'' True True True ex_addr ''hi'' ex_world = (Inr path, wa)"
    "map_of (rw_sent wa) path = Some envelope" "rw_cache wa = ex_cache" by (rule ex_sent)
  obtain reply where reply: "build_reply ex_id_crypto ex_identity 100 (zeros 16) ''now'' ''abc'' ex_addr ''ok'' = Inr reply" "reply_fits reply"
    by (rule ex_reply)
  have p: "list_all printable (take 12 ''abc'')" by code_simp
  have u: "take 12 ''abc'' = ''abc''" by simp
  have "\<exists>wb k. process_task ex_env ex_turn (\<lambda>_. ''ok'') (ex_file, envelope) ex_world = (Inr Answered, wb) \<and>
    rw_runs wb = rw_runs ex_world @ [(k, ''hi'')] \<and>
    map_of (rw_outbox wb) (ex_addr, reply_filename (take 12 ''abc'')) = Some reply \<and>
    map_of reply ''text'' = Some (JStr (bounded_answer_text ''ok'')) \<and>
    take_reply ex_env ex_check (ex_file, reply) wa = (Inr Accepted, wa)"
  proof (rule relay_round_trip[OF ex_peers ex_peers sent(1,2) _ p])
    show "fits_sqlite (int_of_float 100 + 86400)" by (simp add: fits_sqlite_def int_100)
    show "build_reply (re_crypto ex_env) (re_identity ex_env) (tu_sign_clock ex_turn) (tu_random ex_turn) (tu_stamp ex_turn)
        (take 12 ''abc'') ex_addr ''ok'' = Inr reply"
      using reply(1) by (simp add: ex_turn_def)
    show "cache_seen (ct_seen_ok ex_check) (ct_seen_clock ex_check) (field_str (json_metadata meta) ''signature'') (rw_cache wa) = Inr False"
      if "map_of reply ''raven'' = Some (JDict meta)" for meta
      using reply_signature_text[OF reply(1) that] ex_seen by (auto simp: sent(3))
  qed (simp_all add: reply(2) ex_times int_100 ex_key, simp_all add: ex_turn_def ex_world_def MAX_RELAY_OUTCOMES_def)
  then show ?thesis unfolding u by (auto simp: ex_world_def)
qed

text \<open>The task of the example, ready to be processed.\<close>

lemma ex_runs:
  obtains envelope wb k where "process_task ex_env ex_turn (\<lambda>_. ''ok'') (ex_file, envelope) ex_world = (Inr Answered, wb)"
    "rw_runs wb = [(k, ''hi'')]"
proof -
  obtain path wa envelope where sent:
    "send_task ex_env 100 (zeros 16) ''abc'' ''now'' ''f'' True True True ex_addr ''hi'' ex_world = (Inr path, wa)"
    "map_of (rw_sent wa) path = Some envelope" "rw_cache wa = ex_cache" by (rule ex_sent)
  obtain reply where reply: "build_reply ex_id_crypto ex_identity 100 (zeros 16) ''now'' ''abc'' ex_addr ''ok'' = Inr reply" "reply_fits reply"
    by (rule ex_reply)
  have ia: "identity_address (re_crypto ex_env) (re_identity ex_env) = Inr ex_addr" by simp
  obtain block where block: "sign_delegation ex_id_crypto ex_identity 100 (zeros 16) ''hi'' ex_addr ''abc'' ''task'' None None
      MAX_DELEGATION_TTL_SECONDS = Inr block" "\<not> text_too_long ''hi''"
    and E: "envelope = task_envelope ''abc'' ex_addr ex_addr ''hi'' block ''now''"
  proof (rule send_task_dest[OF sent(1) ia])
    fix block
    assume "sign_delegation (re_crypto ex_env) (re_identity ex_env) 100 (zeros 16) ''hi'' ex_addr (take 12 ''abc'') ''task'' None None
        MAX_DELEGATION_TTL_SECONDS = Inr block" "\<not> text_too_long ''hi''"
      "map_of (rw_sent wa) path = Some (task_envelope (take 12 ''abc'') ex_addr ex_addr ''hi'' block ''now'')"
    then show thesis using that[of block] sent(2) by simp
  qed
  have p: "list_all printable ''abc''" by code_simp
  have ok: "validated_envelope envelope ''task'' = Inr (signed_block block, ex_addr, ''abc'', ''hi'') \<and>
    envelope_verdict ex_env (tu_verify_clock ex_turn) ''task'' envelope (signed_block block) ex_addr ''abc'' ''hi'' (rw_cache ex_world) =
      Inr (True, ''verified '' @ ex_addr) \<and>
    json_metadata (signed_block block) = block \<and> field_int block ''expires_at'' = Inr (int_of_float 100 + 86400) \<and>
    (\<exists>sig. field_str block ''signature'' = b64encode sig \<and> map_of (signed_block block) ''signature'' = Some (JStr (b64encode sig))) \<and>
    map_of (signed_block block) ''expires_at'' = Some (JInt (int_of_float 100 + 86400))"
  proof (rule signed_envelope_ok[OF ex_peers, where random = "zeros 16"])
    show "list_all printable ''abc''" by (rule p)
  qed (simp_all add: E block ex_times int_100)
  then obtain sig where sig: "field_str block ''signature'' = b64encode sig" by blast
  obtain k where k: "signature_hash (b64encode sig) = Inr k"
    using b64encode_ascii[of sig] by (auto simp: signature_hash_def ascii_encode_def)
  have "\<exists>wb. process_task ex_env ex_turn (\<lambda>_. ''ok'') (ex_file, envelope) ex_world = (Inr Answered, wb) \<and>
      rw_runs wb = rw_runs ex_world @ [(k, ''hi'')] \<and> map_of (rw_outbox wb) (ex_addr, reply_filename ''abc'') = Some reply"
  proof (rule process_valid_task[where meta = "signed_block block" and e = "86500" and sig = "b64encode sig" and reason = "''verified '' @ ex_addr"])
    show "fits_sqlite 86500" by (simp add: fits_sqlite_def)
    show "build_reply (re_crypto ex_env) (re_identity ex_env) (tu_sign_clock ex_turn) (tu_random ex_turn) (tu_stamp ex_turn) ''abc'' ex_addr ''ok'' = Inr reply"
      using reply(1) by (simp add: ex_turn_def)
  qed (use ok sig k reply(2) in \<open>simp_all add: int_100 E\<close>, simp_all add: ex_turn_def ex_world_def MAX_RELAY_OUTCOMES_def)
  then show thesis using that by (auto simp: ex_world_def)
qed

theorem relay_runs_only_verified_witness:
  "\<exists>envelope meta sender task_id task_text e k s.
     validated_envelope envelope ''task'' = Inr (meta, sender, task_id, task_text) \<and>
     delegation_valid ex_id_crypto (json_metadata meta) task_text (re_peers ex_env) (re_revoked ex_env) ex_addr task_id ''task'' 100 e \<and>
     rw_runs (snd (process_task ex_env ex_turn (\<lambda>_. ''ok'') (ex_file, envelope) ex_world)) = rw_runs ex_world @ [(k, task_text)] \<and>
     map_of (rw_outcomes (snd (process_task ex_env ex_turn (\<lambda>_. ''ok'') (ex_file, envelope) ex_world))) k = Some (e, s)"
proof -
  obtain envelope wb k where r: "process_task ex_env ex_turn (\<lambda>_. ''ok'') (ex_file, envelope) ex_world = (Inr Answered, wb)"
    "rw_runs wb = [(k, ''hi'')]" by (rule ex_runs)
  have "rw_runs wb \<noteq> rw_runs ex_world" using r(2) by (simp add: ex_world_def)
  moreover have "wf_dict (rw_outcomes ex_world)" by (simp add: ex_world_def)
  note relay_runs_only_verified[OF r(1) _ this]
  ultimately obtain meta sender task_id task_text e k s where
    "validated_envelope envelope ''task'' = Inr (meta, sender, task_id, task_text)"
    "delegation_valid ex_id_crypto (json_metadata meta) task_text (re_peers ex_env) (re_revoked ex_env) ex_addr task_id ''task'' 100 e"
    "rw_runs wb = rw_runs ex_world @ [(k, task_text)]" "map_of (rw_outcomes wb) k = Some (e, s)"
    by (auto simp: ex_times)
  then show ?thesis using r(1) by (metis snd_conv)
qed

theorem relay_at_most_once_witness:
  "\<exists>envelope. rw_runs (relay_run [(ex_env, ex_turn, \<lambda>_. ''ok'', ex_file, envelope)] ex_world) \<noteq> [] \<and>
     distinct (map fst (rw_runs (relay_run [(ex_env, ex_turn, \<lambda>_. ''ok'', ex_file, envelope),
       (ex_env, ex_turn, \<lambda>_. ''ok'', ex_file, envelope)] ex_world)))"
proof -
  obtain envelope wb k where r: "process_task ex_env ex_turn (\<lambda>_. ''ok'') (ex_file, envelope) ex_world = (Inr Answered, wb)"
    "rw_runs wb = [(k, ''hi'')]" by (rule ex_runs)
  let ?st = "(ex_env, ex_turn, \<lambda>_. ''ok'', ex_file, envelope) :: relay_step"
  have "rw_runs (relay_run [?st] ex_world) \<noteq> []" using r by (simp add: relay_run_def relay_step_def)
  moreover have "distinct (map fst (rw_runs (relay_run [?st, ?st] ex_world)))"
  proof (rule relay_at_most_once)
    show "one_expiry [?st, ?st]" by (simp add: one_expiry_def)
    show "times_ordered [?st, ?st]"
      by (simp add: times_ordered_def claim_time_def complete_time_def step_turn_def ex_times)
    show "claimed_in_time [?st, ?st]"
      by (rule claimed_at_once) (auto simp: claim_time_def step_turn_def ex_times)
  qed (simp_all add: ex_world_def)
  ultimately show ?thesis by blast
qed

theorem control_answer_not_stored_witness:
  "\<exists>reply. map_of reply ''text'' = Some (JStr control_answer) \<and>
     outcome_complete True 100 ''sig'' 86500 reply [] =
       (Inl (ValueError ''cached relay outcome exceeds the compiled byte limit''), [])"
proof -
  obtain block where "sign_delegation ex_id_crypto ex_identity 100 (zeros 16) (bounded_answer_text control_answer) ex_addr ''abc'' ''answer''
      None None MAX_DELEGATION_TTL_SECONDS = Inr block"
    by (rule ex_block[of "''answer''" "bounded_answer_text control_answer"]) simp_all
  then obtain reply where "build_reply ex_id_crypto ex_identity 100 (zeros 16) ''now'' ''abc'' ex_addr control_answer = Inr reply"
    by (auto simp: build_reply_def)
  from control_answer_not_stored[OF this] show ?thesis by blast
qed

text \<open>The reply of the example, acknowledged and offered again.\<close>

theorem acknowledged_not_redelivered_witness:
  "\<exists>reply w'. ack_reply ex_ack_turn ((ex_file, reply), True) ex_world = (Inr (), w') \<and>
     rc_rows (rw_cache w') \<noteq> [] \<and> fst (take_reply ex_env ex_check (ex_file, reply) w') \<noteq> Inr Accepted"
proof -
  obtain sig where s: "sign_delegation ex_id_crypto ex_identity 100 (zeros 16) (bounded_answer_text ''ok'') ex_addr ''abc'' ''answer'' None None
      MAX_DELEGATION_TTL_SECONDS = Inr (delegation_meta ex_addr ex_addr ''abc'' ''answer'' 100 86500 (zeros 16) sig)"
    by (rule ex_sign[of "''abc''" "''answer''" "bounded_answer_text ''ok''"]) simp_all
  let ?b = "delegation_meta ex_addr ex_addr ''abc'' ''answer'' 100 86500 (zeros 16) sig"
  obtain reply where r: "map_of reply ''raven'' = Some (JDict (signed_block ?b))"
    by (rule that[of "[(''raven'', JDict (signed_block ?b))]"]) simp
  obtain k where k: "signature_key (b64encode sig) = Inr k"
    using b64encode_ascii[of sig] by (auto simp: signature_key_def ascii_encode_def)
  obtain rc where f: "first_time True 100 (b64encode sig) (Some 86500) ex_cache = (Inr True, rc)"
    using k by (simp add: first_time_def first_time_db_def ex_cache_def active_count_def int_100)
  obtain w' where a: "ack_reply ex_ack_turn ((ex_file, reply), True) ex_world = (Inr (), w')"
    using r f by (simp add: ack_reply_def text_of_def int_instance_def ex_ack_turn_def ex_world_def)
  have "field_str (json_metadata (signed_block ?b)) ''signature'' = b64encode sig"
    "field_int (json_metadata (signed_block ?b)) ''expires_at'' = Inr 86500" by (simp_all add: ex_times)
  from acknowledged_not_redelivered[OF a _ r this, of w' "[]" ex_check ex_env ex_file]
  obtain k' x where "signature_key (b64encode sig) = Inr k'" "map_of (rc_rows (rw_cache w')) k' = Some x"
    "x = 86500 \<or> map_of (rc_rows ex_cache) k' = Some x"
    "fst (take_reply ex_env ex_check (ex_file, reply) w') = Inr Accepted \<longrightarrow> x \<le> 100"
    using ex_cache_ok by (auto simp: ex_times ex_world_def)
  moreover from this have "x = 86500" by (simp add: ex_cache_def)
  ultimately have "rc_rows (rw_cache w') \<noteq> []" "fst (take_reply ex_env ex_check (ex_file, reply) w') \<noteq> Inr Accepted" by auto
  then show ?thesis using a by blast
qed

end
