(* ===== verification/Spec2Isabelle.thy ===== *)
theory Spec2Isabelle
  imports BraidPipeline Anchor TaskStore RevocationStore Deltas Relay
begin

text \<open>
  A model of the protocol core of the Raven distributed agent protocol: the reference protocol of
  \<open>src/protocol/reference/raven_protocol\<close> (post-quantum braid, hybrid double ratchet, protected
  anchors, signed records, pairing, revocation, indexed sessions, addresses) and the parts of the
  agent runtime \<open>src/team_agents\<close> that decide what is admitted, kept and run (signed delegations
  with their replay cache, the bounded task store, the delta store, the store-and-forward relay).

  \<^bold>\<open>Conventions.\<close> Python's unbounded integers are \<open>int\<close>, byte strings are lists of 8-bit words,
  text is a \<open>string\<close> (code points below 256; the case mappings are those of ASCII), except where
  the code is about the encoding of any text: there it is the list of its code points, surrogates
  included (theory \<open>Unicode\<close>). Clocks are rational numbers passed in by the caller. Every exception is a value: an operation that can raise
  returns \<open>'a res\<close>, that is \<open>py_exc + 'a\<close>, with the exception on the left. An operation on mutable
  state returns its result together with the new state, also when it raises. Dictionaries are
  association lists in insertion order, without duplicate keys (\<open>wf_dict\<close>). The hash functions of
  the standard library (SHA-256, HMAC, SHA3-512) are executable definitions; what the
  \<open>cryptography\<close> package computes (X25519, Ed25519, ChaCha20-Poly1305) is a record of functions
  \<open>crypto\<close> that the definitions take as an argument, with the laws a theorem needs as named
  hypotheses (\<open>dh_commutes\<close>, \<open>ed_correct\<close>, \<open>ed_nonempty\<close>, \<open>aead_correct\<close>). What the \<open>a2a\<close> package
  computes for the task store is a record \<open>a2a\<close> likewise. Whether a database accepts a transaction,
  a file can be written or a push succeeds is an argument of the operation.

  \<^bold>\<open>Theories, the code they model, and what they show.\<close>

  \<^item> \<open>Prelude\<close>, \<open>Bytes\<close>, \<open>Codec\<close>, \<open>Hashes\<close>, \<open>PyText\<close>, \<open>Layout\<close>, \<open>Ordering\<close>: exceptions and
    their composition, integers as big-endian bytes, the codec interfaces (locale \<open>codec\<close> with its
    interpretations on the record codecs), the hash functions, hexadecimal and base64 text, fixed
    layouts and framed fields, the interface of records signed under a label (locale
    \<open>signed_record\<close>), sorting by a key. Shared by all others.

  \<^item> \<open>BraidWire\<close> (\<open>full_braid_wire.py\<close>), \<open>BraidDigest\<close> (\<open>full_braid_digest.py\<close>), \<open>BraidAuth\<close>
    (\<open>full_braid_auth.py\<close>): the wire records with their contracts, encoders and decoders, the
    domain-separated digests, the authenticator. Each record has a predicate of well-formedness and
    a wire image; decoding accepts exactly the images of well-formed records.

  \<^item> \<open>BraidTr\<close>, \<open>BraidState\<close> (\<open>full_braid_state.py\<close>): the triple-ratchet record RVFT1 and the
    session record RVFB1, their validation, and the proof that both codecs are canonical.

  \<^item> \<open>BraidSteps\<close>, \<open>BraidChunks\<close>, \<open>BraidTransition\<close>, \<open>BraidPipeline\<close>
    (\<open>full_braid_transition.py\<close>): the helper steps, systematic chunks, the journal, the four
    supported agent handlers and \<open>transition\<close>/\<open>transition_prepare\<close>. \<open>BraidPipeline\<close> relates every
    accepted transition to an abstract machine of agents and epochs, follows runs of transitions,
    and shows what a prepared candidate permits.

  \<^item> \<open>Ratchet\<close> (\<open>hybrid_ratchet_v2.py\<close>, \<open>hkdf_sha256\<close> of \<open>pair_init_v2.py\<close>), \<open>RatchetState\<close>
    (\<open>hybrid_ratchet_v2_state.py\<close>), \<open>TripleRatchet\<close> (\<open>hybrid_ratchet_v2_tr.py\<close>): key derivation,
    epochs, the out-of-order receive chain, the commit ledger and its crash order, the double
    ratchet, chunk reassembly. The theorems say which key each message index yields, that replays
    are refused, and what is bounded.

  \<^item> \<open>Anchor\<close> (\<open>full_braid_protected_anchor.py\<close>): anchor records authenticated by their HMAC, the
    append decision against an abstract specification, and the shape of every log it admits.

  \<^item> \<open>Address\<close> (\<open>bech32m.py\<close>, \<open>address.py\<close>, \<open>fingerprint.py\<close>, \<open>_canon.py\<close>): addresses decode to
    what they encode, and no substitution of one character goes unnoticed.

  \<^item> \<open>Records\<close> (\<open>envelope.py\<close>, \<open>device_cert.py\<close>, \<open>alias.py\<close>, \<open>capabilities.py\<close>, \<open>ack.py\<close>, \<open>prekey.py\<close>,
    \<open>routing_tag.py\<close>, \<open>store_tags.py\<close>): the signed records, each an interpretation of
    \<open>signed_record\<close>, the envelope codec and the fields a relay may change.

  \<^item> \<open>Session\<close> (\<open>indexed_session.py\<close>): canonical addresses, the keys of the two lanes, route and
    mailbox coordinates, sealed acknowledgements that open to what was sealed.

  \<^item> \<open>Pairing\<close> (\<open>pair_init.py\<close>, \<open>pair_init_v2.py\<close>): the four pairing records (locale \<open>pair_wire\<close>,
    a sublocale of \<open>signed_record\<close>): canonical wires, and exactly what a verification accepts.

  \<^item> \<open>Revocation\<close> (\<open>device_revocation.py\<close>), \<open>RevocationStore\<close> (\<open>device_revocation_conformance.py\<close>):
    revocation records and the snapshot of a store; the store with its quota, markers and journal.
    In every run the deny set is the union of what the accepted claims revoke, and it never shrinks.

  \<^item> \<open>Identity\<close> (\<open>raven_identity.py\<close>): signing and verification of HTTP requests and delegations,
    peers, revocations and the replay cache, durable (SQLite rows) or in memory.

  \<^item> \<open>TaskStore\<close> (\<open>task_store.py\<close>): the owner-scoped store of tasks with its limits. Each public
    operation holds the store's lock around its reads and writes, so it is one step; the theorems
    quantify over all runs of operations, in any order.

  \<^item> \<open>Unicode\<close>: Python's UTF-8 codec over code points, with \<open>errors='replace'\<close>, strict and with
    \<open>errors='ignore'\<close>. The strict decoder reads what the encoder writes, and a cut encoding decodes to
    the longest prefix in whole code points.

  \<^item> \<open>Json\<close>, \<open>JsonText\<close>, \<open>Files\<close>: the values and the text of JSON documents, the scanner of
    \<open>json.loads\<close>, which reads back what \<open>json.dumps\<close> writes in each of its formats, and what the
    system reports of a file.

  \<^item> \<open>Deltas\<close> (\<open>deltas.py\<close>): the append-only store of the team memory. A read is the sorted list of
    all valid deltas or nothing, whatever the order of the listings; a write adds its record, the
    bytes written being parsed back.

  \<^item> \<open>Relay\<close> (\<open>relay.py\<close>): the outcome table, the envelope checks, the inbox and the replies. A
    task runs at most once per signature also when turns break off anywhere, only after every
    check, and its answer is accepted by the sender; an acknowledged reply does not come back while the
    row of its signature is unexpired. Answers are bounded in bytes over all Python text; in the turns
    of the relay they are text below code point 256.

  \<^bold>\<open>Loops and bounds.\<close> Loops over lists are structural recursions. The skipping loops of the ratchets
  count down a natural number (the distance to the requested index), the regrouping loop of
  \<open>convertbits\<close> ends because its bit count falls, and paging ends because each page starts after the
  last. The UTF-8 decoders pass at least one byte per step. Only the scanner of \<open>JsonText\<close> counts its
  calls: it is given twice the length of the text and two, and any greater number gives the same
  result (\<open>json_loads_calls\<close>).

  \<^bold>\<open>Not modelled.\<close> Files that only drive sockets, processes, terminals, databases or HTTP frameworks
  (\<open>rdap.py\<close>, \<open>server.py\<close>, \<open>client.py\<close>, \<open>llm.py\<close>, \<open>discovery.py\<close>, \<open>raven_ipc.py\<close>, \<open>mesh.py\<close>,
  \<open>tools.py\<close>, \<open>executor.py\<close>, \<open>ui.py\<close>, \<open>chat.py\<close>), the git commands, locks and file replacement of
  \<open>memory.py\<close>, the settings of \<open>config.py\<close>, the document checks of \<open>raven_bind.py\<close>, the hint texts of
  \<open>runtime_hints.py\<close>, the test driver \<open>selftest.py\<close>, the generators of conformance vectors, the key
  file and JWK export of \<open>raven_identity.py\<close>, the event journal, chat note and transport of \<open>relay.py\<close>,
  and the vector drivers at the end of \<open>hybrid_ratchet_v2_tr.py\<close>.
\<close>

end
